(* ===== verification/Prelude.thy ===== *)
theory Prelude
  imports Main "HOL-Library.Word" "HOL-Library.AList" "HOL-Library.Char_ord" "HOL-Library.List_Lexorder"
begin

text \<open>
  Shared vocabulary of the development: what the Rust sources use of the language and of
  its standard library.

  \<^item> machine integers: \<open>u32\<close>, \<open>u64\<close> and \<open>usize\<close> values that are only
    counted and compared are \<open>nat\<close>, with the width written out at each operation that
    can reach it (\<open>sat_add\<close>, \<open>sat_sub\<close>, \<open>wrap_u64\<close>, \<open>wrap_i64\<close>);
    the ACL bit set, which is used bitwise, is a \<open>64 word\<close> (theory \<open>Acls\<close>);
  \<^item> strings are byte lists (\<open>string\<close>), so \<open>length\<close> is Rust's \<open>str::len\<close>;
    decimal and hexadecimal formatting and parsing (\<open>format!("{}")\<close>,
    \<open>format!("{:016x}")\<close>, \<open>u64::from_str_radix\<close>), \<open>split\<close>,
    \<open>split_once\<close>, \<open>trim\<close> and \<open>to_ascii_lowercase\<close>;
  \<^item> a \<open>Result\<close> is a sum, \<open>Inl\<close> the error.

  The lemmas show the round trip of the number formats and the facts about lists that the
  component theories share.
\<close>

section \<open>Collections of facts\<close>

named_theorems width_simps \<open>definitions of the fixed-width integer operations\<close>
named_theorems store_defs \<open>definitions of the operations of the in-memory store\<close>
named_theorems handler_defs \<open>definitions of the protocol handlers\<close>

type_synonym 'a set_list = "'a list" \<comment> \<open>a HashSet: distinct elements, in some iteration order\<close>
type_synonym ('k, 'v) hash_map = "('k \<times> 'v) list" \<comment> \<open>a HashMap that is iterated or counted\<close>

definition and_then :: "'e + 'a \<Rightarrow> ('a \<Rightarrow> 'e + 'b) \<Rightarrow> 'e + 'b" where
  \<comment> \<open>the operator \<open>?\<close>\<close>
  "and_then r f = (case r of Inl e \<Rightarrow> Inl e | Inr a \<Rightarrow> f a)"

definition is_ok :: "'e + 'a \<Rightarrow> bool" where
  "is_ok r = (case r of Inl _ \<Rightarrow> False | Inr _ \<Rightarrow> True)"

definition try_return :: "'a \<Rightarrow> 's \<Rightarrow> ('e + 'a) \<times> 's" where
  "try_return a s = (Inr a, s)"

definition try_then :: "('s \<Rightarrow> ('e + 'a) \<times> 's) \<Rightarrow> ('a \<Rightarrow> 's \<Rightarrow> ('e + 'b) \<times> 's) \<Rightarrow> 's \<Rightarrow> ('e + 'b) \<times> 's" where
  \<comment> \<open>the operator \<open>?\<close> on an operation that changes state: an error is returned at once\<close>
  "try_then m f s = (case m s of (Inl e, s') \<Rightarrow> (Inl e, s') | (Inr a, s') \<Rightarrow> f a s')"

section \<open>Machine integers\<close>

definition u32_max :: nat where
  "u32_max = 4294967295"

definition u64_max :: nat where
  "u64_max = 18446744073709551615"

definition sat_add :: "nat \<Rightarrow> nat \<Rightarrow> nat \<Rightarrow> nat" where
  "sat_add mx a b = (if a + b \<le> mx then a + b else mx)"

definition sat_sub :: "nat \<Rightarrow> nat \<Rightarrow> nat" where
  "sat_sub a b = (if b \<le> a then a - b else 0)"

definition wrap_u64 :: "nat \<Rightarrow> nat" where
  "wrap_u64 n = n mod 18446744073709551616"

definition wrap_i64 :: "int \<Rightarrow> int" where
  "wrap_i64 x = (x + 9223372036854775808) mod 18446744073709551616 - 9223372036854775808"

definition as_u32 :: "nat \<Rightarrow> nat" where
  "as_u32 n = n mod 4294967296"

definition u32_as_i32 :: "nat \<Rightarrow> int" where
  "u32_as_i32 n = (if n < 2147483648 then int n else int n - 4294967296)"

declare as_u32_def [width_simps] sat_add_def [width_simps] sat_sub_def [width_simps] wrap_u64_def [width_simps]
  wrap_i64_def [width_simps] u32_as_i32_def [width_simps] u32_max_def [width_simps]
  u64_max_def [width_simps]

section \<open>Digits, decimal and hexadecimal text\<close>

fun nat_digits :: "nat \<Rightarrow> nat \<Rightarrow> nat list" where
  "nat_digits b n = (if n < b \<or> b < 2 then [n] else nat_digits b (n div b) @ [n mod b])"

declare nat_digits.simps [simp del]

definition digit_char :: "nat \<Rightarrow> char" where
  "digit_char d = char_of (if d < 10 then 48 + d else 87 + d)"

definition to_digit :: "nat \<Rightarrow> char \<Rightarrow> nat option" where
  \<comment> \<open>\<open>char::to_digit(radix)\<close>, radix at most 36\<close>
  "to_digit radix c =
     (let n = (of_char c :: nat);
          d = (if 48 \<le> n \<and> n \<le> 57 then Some (n - 48)
               else if 97 \<le> n \<and> n \<le> 122 then Some (n - 87)
               else if 65 \<le> n \<and> n \<le> 90 then Some (n - 55)
               else None)
      in case d of None \<Rightarrow> None | Some k \<Rightarrow> if k < radix then Some k else None)"

fun parse_digits :: "nat \<Rightarrow> nat \<Rightarrow> string \<Rightarrow> nat option" where
  \<comment> \<open>the digit loop of \<open>from_str_radix\<close>: checked multiply and add\<close>
  "parse_digits radix acc [] = Some acc"
| "parse_digits radix acc (c # cs) =
     (case to_digit radix c of
        None \<Rightarrow> None
      | Some d \<Rightarrow> (if acc * radix + d > u64_max then None
                  else parse_digits radix (acc * radix + d) cs))"

definition u64_from_str_radix :: "nat \<Rightarrow> string \<Rightarrow> nat option" where
  "u64_from_str_radix radix s =
     (case s of
        [] \<Rightarrow> None
      | c # cs \<Rightarrow>
          if c = CHR ''+'' then (if cs = [] then None else parse_digits radix 0 cs)
          else parse_digits radix 0 s)"

definition show_radix :: "nat \<Rightarrow> nat \<Rightarrow> string" where
  "show_radix radix n = map digit_char (nat_digits radix n)"

definition show_nat :: "nat \<Rightarrow> string" where
  "show_nat n = show_radix 10 n"

definition pad_left :: "nat \<Rightarrow> char \<Rightarrow> string \<Rightarrow> string" where
  "pad_left w c s = replicate (w - length s) c @ s"

section \<open>Strings\<close>

fun split_on :: "char \<Rightarrow> string \<Rightarrow> string list" where
  "split_on sep [] = [[]]"
| "split_on sep (c # cs) =
     (if c = sep then [] # split_on sep cs
      else (case split_on sep cs of [] \<Rightarrow> [[c]] | w # ws \<Rightarrow> (c # w) # ws))"

fun split_once :: "char \<Rightarrow> string \<Rightarrow> (string \<times> string) option" where
  "split_once sep [] = None"
| "split_once sep (c # cs) =
     (if c = sep then Some ([], cs)
      else (case split_once sep cs of None \<Rightarrow> None | Some (l, r) \<Rightarrow> Some (c # l, r)))"

definition ascii_lower :: "char \<Rightarrow> char" where
  "ascii_lower c = (let n = (of_char c :: nat) in
     if 65 \<le> n \<and> n \<le> 90 then char_of (n + 32) else c)"

definition to_ascii_lowercase :: "string \<Rightarrow> string" where
  "to_ascii_lowercase s = map ascii_lower s"

definition white_space :: "string list" where
  \<comment> \<open>the UTF-8 encodings of the characters with the Unicode property White\_Space\<close>
  "white_space =
     [[CHR 0x09], [CHR 0x0A], [CHR 0x0B], [CHR 0x0C], [CHR 0x0D], [CHR 0x20],
      [CHR 0xC2, CHR 0x85], [CHR 0xC2, CHR 0xA0], [CHR 0xE1, CHR 0x9A, CHR 0x80],
      [CHR 0xE2, CHR 0x80, CHR 0x80], [CHR 0xE2, CHR 0x80, CHR 0x81],
      [CHR 0xE2, CHR 0x80, CHR 0x82], [CHR 0xE2, CHR 0x80, CHR 0x83],
      [CHR 0xE2, CHR 0x80, CHR 0x84], [CHR 0xE2, CHR 0x80, CHR 0x85],
      [CHR 0xE2, CHR 0x80, CHR 0x86], [CHR 0xE2, CHR 0x80, CHR 0x87],
      [CHR 0xE2, CHR 0x80, CHR 0x88], [CHR 0xE2, CHR 0x80, CHR 0x89],
      [CHR 0xE2, CHR 0x80, CHR 0x8A], [CHR 0xE2, CHR 0x80, CHR 0xA8],
      [CHR 0xE2, CHR 0x80, CHR 0xA9], [CHR 0xE2, CHR 0x80, CHR 0xAF],
      [CHR 0xE2, CHR 0x81, CHR 0x9F], [CHR 0xE3, CHR 0x80, CHR 0x80]]"

fun is_prefix :: "'a list \<Rightarrow> 'a list \<Rightarrow> bool" where
  "is_prefix [] ys = True"
| "is_prefix (x # xs) [] = False"
| "is_prefix (x # xs) (y # ys) = (x = y \<and> is_prefix xs ys)"

fun strip_front :: "string list \<Rightarrow> nat \<Rightarrow> string \<Rightarrow> string" where
  \<comment> \<open>drop leading patterns; every pattern is non-empty, so as many rounds as bytes suffice\<close>
  "strip_front pats 0 s = s"
| "strip_front pats (Suc fuel) s =
     (case find (\<lambda>p. is_prefix p s) pats of
        None \<Rightarrow> s
      | Some p \<Rightarrow> strip_front pats fuel (drop (length p) s))"

definition trim_start :: "string \<Rightarrow> string" where
  "trim_start s = strip_front white_space (length s) s"

definition trim_end :: "string \<Rightarrow> string" where
  "trim_end s = rev (strip_front (map rev white_space) (length s) (rev s))"

definition trim :: "string \<Rightarrow> string" where
  "trim s = trim_end (trim_start s)"

section \<open>Lists\<close>

definition page :: "'a list \<Rightarrow> nat \<Rightarrow> nat \<Rightarrow> 'a list" where
  "page xs cursor limit = take limit (drop cursor xs)"

definition push_new :: "'a \<Rightarrow> 'a list \<Rightarrow> 'a list" where
  \<comment> \<open>push unless already there: \<open>HashSet::insert\<close>, and \<open>Vec::push\<close> behind an \<open>any\<close> test\<close>
  "push_new x xs = (if x \<in> set xs then xs else xs @ [x])"


section \<open>Results\<close>

lemma and_then_simps [simp]: "and_then (Inl e) f = Inl e" "and_then (Inr a) f = f a"
  by (simp_all add: and_then_def)

lemma and_then_Inr: "and_then r f = Inr b \<longleftrightarrow> (\<exists>a. r = Inr a \<and> f a = Inr b)"
  by (cases r) auto

lemma is_ok_simps [simp]: "is_ok (Inl e) = False" "is_ok (Inr a) = True"
  by (simp_all add: is_ok_def)

lemma is_ok_iff: "is_ok r \<longleftrightarrow> (\<exists>a. r = Inr a)"
  by (cases r) simp_all

section \<open>Number formats: round trip\<close>

lemma foldl_value_digits:
  "2 \<le> b \<Longrightarrow> foldl (\<lambda>acc d. acc * b + d) 0 (nat_digits b n) = n"
proof (induction b n rule: nat_digits.induct)
  case (1 b n)
  show ?case
  proof (cases "n < b")
    case True
    then show ?thesis by (subst nat_digits.simps) simp
  next
    case False
    with 1 have "foldl (\<lambda>acc d. acc * b + d) 0 (nat_digits b (n div b)) = n div b" by simp
    with False 1 show ?thesis
      by (subst nat_digits.simps) (simp add: mult.commute)
  qed
qed

lemma nat_digits_bound: "2 \<le> b \<Longrightarrow> d \<in> set (nat_digits b n) \<Longrightarrow> d < b"
proof (induction b n rule: nat_digits.induct)
  case (1 b n)
  show ?case
  proof (cases "n < b")
    case True
    with 1 show ?thesis by (simp add: nat_digits.simps [of b n])
  next
    case False
    with 1 show ?thesis by (auto simp: nat_digits.simps [of b n])
  qed
qed

lemma nat_digits_nonempty [simp]: "nat_digits b n \<noteq> []"
  by (subst nat_digits.simps) simp

lemma nat_digits_length:
  "2 \<le> b \<Longrightarrow> 0 < k \<Longrightarrow> n < b ^ k \<Longrightarrow> length (nat_digits b n) \<le> k"
proof (induction b n arbitrary: k rule: nat_digits.induct)
  case (1 b n k)
  show ?case
  proof (cases "n < b")
    case True
    with 1 show ?thesis by (simp add: nat_digits.simps [of b n])
  next
    case False
    with 1 obtain j where k: "k = Suc j" and j: "0 < j"
      by (cases k; cases "k - 1") auto
    from 1 k have "n div b < b ^ j"
      by (simp add: less_mult_imp_div_less mult.commute)
    with 1 False j have "length (nat_digits b (n div b)) \<le> j" by simp
    with False k 1 show ?thesis by (simp add: nat_digits.simps [of b n])
  qed
qed

lemma of_char_digit_char:
  "d < 36 \<Longrightarrow> (of_char (digit_char d) :: nat) = (if d < 10 then 48 + d else 87 + d)"
  by (simp add: digit_char_def of_char_of)

lemma to_digit_digit_char:
  assumes "d < radix" "radix \<le> 36"
  shows "to_digit radix (digit_char d) = Some d"
  using assms by (auto simp: to_digit_def of_char_digit_char Let_def)

lemma digit_char_not:
  assumes "d < 36" and "(of_char c :: nat) < 48"
  shows "digit_char d \<noteq> c"
  using assms of_char_digit_char [of d] by (auto split: if_splits)

lemma foldl_value_mono:
  "1 \<le> radix \<Longrightarrow> a \<le> foldl (\<lambda>acc d. acc * radix + d) a (ds :: nat list)"
proof (induction ds arbitrary: a)
  case (Cons d ds)
  have "a \<le> a * radix + d" using Cons.prems by (cases radix) auto
  also have "\<dots> \<le> foldl (\<lambda>acc d. acc * radix + d) (a * radix + d) ds"
    using Cons by blast
  finally show ?case by simp
qed simp

lemma parse_digits_map:
  assumes "radix \<le> 36" "1 \<le> radix" "\<forall>d \<in> set ds. d < radix"
    and "foldl (\<lambda>acc d. acc * radix + d) a ds \<le> u64_max"
  shows "parse_digits radix a (map digit_char ds) =
    Some (foldl (\<lambda>acc d. acc * radix + d) a ds)"
  using assms
proof (induction ds arbitrary: a)
  case (Cons d ds)
  have le: "a * radix + d \<le> u64_max"
    using foldl_value_mono [of radix "a * radix + d" ds] Cons.prems by simp
  show ?case using Cons le by (simp add: to_digit_digit_char)
qed simp

lemma parse_digits_zeros:
  "2 \<le> radix \<Longrightarrow> radix \<le> 36 \<Longrightarrow>
     parse_digits radix 0 (replicate k (CHR ''0'') @ cs) = parse_digits radix 0 cs"
  by (induction k) (auto simp: to_digit_def)

lemma parse_show_radix:
  assumes "2 \<le> radix" "radix \<le> 36" "n \<le> u64_max"
  shows "parse_digits radix 0 (show_radix radix n) = Some n"
  using assms nat_digits_bound [of radix] foldl_value_digits [of radix n]
  by (simp add: show_radix_def parse_digits_map)

lemma show_radix_plus:
  assumes "2 \<le> radix" "radix \<le> 36" "(of_char c :: nat) < 48"
  shows "c \<notin> set (show_radix radix n)"
proof
  assume "c \<in> set (show_radix radix n)"
  then obtain d where "d \<in> set (nat_digits radix n)" and "c = digit_char d"
    by (auto simp: show_radix_def)
  with assms nat_digits_bound [of radix d n] digit_char_not [of d c] show False by simp
qed

lemma show_radix_nonempty [simp]: "show_radix radix n \<noteq> []"
  by (simp add: show_radix_def)

lemma u64_from_str_radix_no_plus:
  "CHR ''+'' \<notin> set s \<Longrightarrow> s \<noteq> [] \<Longrightarrow> u64_from_str_radix radix s = parse_digits radix 0 s"
  by (cases s) (auto simp: u64_from_str_radix_def)

lemma from_str_radix_show:
  assumes "2 \<le> radix" "radix \<le> 36" "n \<le> u64_max"
  shows "u64_from_str_radix radix (show_radix radix n) = Some n"
  using assms by (simp add: u64_from_str_radix_no_plus show_radix_plus parse_show_radix)

lemma from_str_radix_padded:
  assumes "2 \<le> radix" "radix \<le> 36" "n \<le> u64_max"
  shows "u64_from_str_radix radix (pad_left w (CHR ''0'') (show_radix radix n)) = Some n"
  using assms
  by (simp add: pad_left_def u64_from_str_radix_no_plus show_radix_plus parse_show_radix
      parse_digits_zeros)

lemma split_on_nonempty: "split_on c a \<noteq> []"
  by (induction a) (auto split: list.splits)

lemma split_on_append: "split_on c (a @ c # b) = split_on c a @ split_on c b"
proof (induction a)
  case (Cons x a)
  then show ?case using split_on_nonempty [of c a] by (auto split: list.splits)
qed simp

lemma split_on_none: "c \<notin> set p \<Longrightarrow> split_on c p = [p]"
  by (induction p) auto

lemma split_once_append:
  "sep \<notin> set l \<Longrightarrow> split_once sep (l @ sep # r) = Some (l, r)"
  by (induction l) auto

lemma split_once_Some:
  "split_once sep s = Some (l, r) \<Longrightarrow> s = l @ sep # r \<and> sep \<notin> set l"
  by (induction s arbitrary: l) (auto split: if_splits option.splits)

section \<open>Lists and pages\<close>

lemma set_push_new [simp]: "set (push_new x xs) = insert x (set xs)"
  by (auto simp: push_new_def)

lemma distinct_push_new [simp]: "distinct (push_new x xs) = distinct xs"
  by (simp add: push_new_def)

lemma length_push_new: "length (push_new x xs) \<le> Suc (length xs)"
  by (simp add: push_new_def)

lemma distinct_fold_push_new: "distinct xs \<Longrightarrow> distinct (fold push_new ys xs)"
  by (induction ys arbitrary: xs) auto

lemma set_fold_push_new: "set (fold push_new ys xs) = set ys \<union> set xs"
  by (induction ys arbitrary: xs) auto

lemma length_fold_push_new:
  "length xs \<le> length (fold push_new ys xs) \<and>
   length (fold push_new ys xs) \<le> length xs + length ys"
proof (induction ys arbitrary: xs)
  case (Cons y ys)
  have "length xs \<le> length (push_new y xs)" by (simp add: push_new_def)
  with Cons [of "push_new y xs"] length_push_new [of y xs] show ?case by simp
qed simp

lemma set_page: "set (page xs c l) \<subseteq> set xs"
  using set_take_subset set_drop_subset by (fastforce simp: page_def)

lemma length_page: "length (page xs c l) = min l (length xs - c)"
  by (simp add: page_def min.commute)

text \<open>
  Cursor pagination. A listing serves page \<open>xs[c..c+l]\<close> and the next cursor, \<open>0\<close>
  once the end is reached; a client that follows the cursors sees the whole list, once.
\<close>

fun follow_pages :: "nat \<Rightarrow> (nat \<Rightarrow> 'a list \<times> nat) \<Rightarrow> nat \<Rightarrow> 'a list" where
  "follow_pages 0 serve c = []"
| "follow_pages (Suc fuel) serve c =
     (let (es, next) = serve c in es @ (if next = 0 then [] else follow_pages fuel serve next))"

locale paged_listing =
  fixes items :: "'s \<Rightarrow> 'a list" and inv :: "'s \<Rightarrow> bool" and cap :: "nat \<Rightarrow> nat"
    and serve :: "nat \<Rightarrow> nat \<Rightarrow> 's \<Rightarrow> 'a list \<times> nat"
  assumes cap_pos: "0 < l \<Longrightarrow> 0 < cap l"
    and serve_page: "inv s \<Longrightarrow> serve c l s = (page (items s) c (cap l),
      if length (items s) \<le> c + length (page (items s) c (cap l)) then 0
      else c + length (page (items s) c (cap l)))"
begin

lemma follow_drop:
  assumes "inv s" "0 < l"
  shows "length (items s) - c < fuel * cap l \<Longrightarrow> c \<le> length (items s) \<Longrightarrow>
    follow_pages fuel (\<lambda>c. serve c l s) c = drop c (items s)"
proof (induction fuel arbitrary: c)
  case (Suc fuel)
  show ?case
  proof (cases "length (items s) \<le> c + cap l")
    case True
    then show ?thesis by (auto simp: serve_page [OF assms(1)] length_page page_def)
  next
    case False
    then have len: "length (page (items s) c (cap l)) = cap l" by (simp add: length_page)
    have "follow_pages fuel (\<lambda>c. serve c l s) (c + cap l) = drop (c + cap l) (items s)"
      using Suc False by (intro Suc.IH) auto
    moreover have "page (items s) c (cap l) @ drop (c + cap l) (items s) = drop c (items s)"
      using append_take_drop_id [of "cap l" "drop c (items s)"] by (simp add: page_def add.commute)
    ultimately show ?thesis
      using False len cap_pos [OF assms(2)] by (simp add: serve_page [OF assms(1), of c])
  qed
qed simp

lemma follow_all:
  assumes "inv s" "0 < l" "length (items s) < fuel"
  shows "follow_pages fuel (\<lambda>c. serve c l s) 0 = items s"
proof -
  have "fuel \<le> fuel * cap l" using cap_pos [OF assms(2)] by simp
  with assms(3) have "length (items s) - 0 < fuel * cap l" by linarith
  then show ?thesis using follow_drop [OF assms(1,2), of 0 fuel] by simp
qed

lemma serve_bounded: "inv s \<Longrightarrow> length (fst (serve c l s)) \<le> cap l"
  by (simp add: serve_page length_page)

lemma serve_bad_limit: "inv s \<Longrightarrow> cap l = 0 \<Longrightarrow> c < length (items s) \<Longrightarrow> serve c l s = ([], c)"
  by (simp add: serve_page page_def)

end

end
