(* ===== verification/Acls.thy ===== *)
theory Acls
  imports Prelude
begin

text \<open>
  The ACL set of a DID (\<open>mediator-common/src/types/acls.rs\<close>): nineteen flags packed in a
  \<open>u64\<close>, and a cached copy of each flag in a field of the struct. The setters check who
  may change a flag, \<open>from_string_ruleset\<close> reads a configuration string, and the set is
  stored and sent as a \<open>u64\<close> or as sixteen hexadecimal digits.

  The field \<open>acl\<close> is a \<open>64 word\<close>. \<open>to_le\<close> is the identity: the model is of a
  little-endian target. Bit numbers are written as in the source.

  The lemmas show that the cached fields and the bits never disagree (\<open>acl_wf\<close>), what each
  setter does to each bit and when it refuses, and that both encodings round-trip. The locale
  \<open>permission_pair\<close> is the contract of the six value / self-change pairs.
\<close>

unbundle bit_operations_syntax

section \<open>Data\<close>

datatype acl_error = Config string | Denied string

datatype access_list_mode_type = ExplicitAllow | ExplicitDeny

fun show_access_list_mode :: "access_list_mode_type \<Rightarrow> string" where
  "show_access_list_mode ExplicitAllow = ''Explicit_Allow''"
| "show_access_list_mode ExplicitDeny = ''Explicit_Deny''"

record mediator_acl_set =
  access_list_mode :: access_list_mode_type
  access_list_mode_self_change :: bool
  did_blocked :: bool
  did_local :: bool
  send_messages :: bool
  send_messages_self_change :: bool
  receive_messages :: bool
  receive_messages_self_change :: bool
  send_forwarded :: bool
  send_forwarded_self_change :: bool
  receive_forwarded :: bool
  receive_forwarded_self_change :: bool
  create_invites :: bool
  create_invites_self_change :: bool
  anon_receive :: bool
  anon_receive_self_change :: bool
  self_manage_list :: bool
  self_manage_send_queue_limit :: bool
  self_manage_receive_queue_limit :: bool
  acl :: "64 word"

definition default_acl_set :: mediator_acl_set where
  "default_acl_set =
     \<lparr>access_list_mode = ExplicitAllow,
      access_list_mode_self_change = False,
      did_blocked = False,
      did_local = False,
      send_messages = False,
      send_messages_self_change = False,
      receive_messages = False,
      receive_messages_self_change = False,
      send_forwarded = False,
      send_forwarded_self_change = False,
      receive_forwarded = False,
      receive_forwarded_self_change = False,
      create_invites = False,
      create_invites_self_change = False,
      anon_receive = False,
      anon_receive_self_change = False,
      self_manage_list = False,
      self_manage_send_queue_limit = False,
      self_manage_receive_queue_limit = False,
      acl = 0\<rparr>"

definition acl_set_eq :: "mediator_acl_set \<Rightarrow> mediator_acl_set \<Rightarrow> bool" where
  \<comment> \<open>\<open>PartialEq\<close>: only the packed bits are compared\<close>
  "acl_set_eq a b = (acl a = acl b)"

section \<open>Bit access\<close>

definition generic_get :: "mediator_acl_set \<Rightarrow> nat \<Rightarrow> bool" where
  "generic_get a b = (if b > 63 then False else acl a AND push_bit b 1 \<noteq> 0)"

definition generic_set :: "mediator_acl_set \<Rightarrow> nat \<Rightarrow> bool \<Rightarrow> mediator_acl_set" where
  "generic_set a b v =
     (if b \<le> 63 then
        (if v then a\<lparr>acl := acl a OR push_bit b 1\<rparr>
         else a\<lparr>acl := acl a AND NOT (push_bit b 1)\<rparr>)
      else a)"

section \<open>Getters and setters\<close>

definition get_access_list_mode :: "mediator_acl_set \<Rightarrow> access_list_mode_type \<times> bool" where
  "get_access_list_mode a =
     (if acl a AND 1 = 0 then (ExplicitAllow, acl a AND push_bit 1 1 \<noteq> 0)
      else (ExplicitDeny, acl a AND push_bit 1 1 \<noteq> 0))"

definition get_access_list_mode_admin_change :: "mediator_acl_set \<Rightarrow> bool" where
  "get_access_list_mode_admin_change a = generic_get a 1"

definition set_access_list_mode ::
  "mediator_acl_set \<Rightarrow> access_list_mode_type \<Rightarrow> bool \<Rightarrow> bool \<Rightarrow> acl_error + mediator_acl_set" where
  "set_access_list_mode a mode self_change admin =
     (let change = get_access_list_mode_admin_change a in
      if \<not> change \<and> \<not> admin then
        Inl (Denied ''Do not have permission to change the DID Access List Mode'')
      else
        let a1 = (case mode of ExplicitAllow \<Rightarrow> a\<lparr>acl := acl a AND NOT 1\<rparr>
                  | ExplicitDeny \<Rightarrow> a\<lparr>acl := acl a OR 1\<rparr>);
            a2 = a1\<lparr>access_list_mode := mode\<rparr>
        in if admin
           then Inr ((generic_set a2 1 self_change)\<lparr>access_list_mode_self_change := self_change\<rparr>)
           else Inr a2)"

definition get_blocked :: "mediator_acl_set \<Rightarrow> bool" where
  "get_blocked a = generic_get a 2"

definition set_blocked :: "mediator_acl_set \<Rightarrow> bool \<Rightarrow> mediator_acl_set" where
  "set_blocked a flag = (generic_set a 2 flag)\<lparr>did_blocked := flag\<rparr>"

definition get_local :: "mediator_acl_set \<Rightarrow> bool" where
  "get_local a = generic_get a 3"

definition set_local :: "mediator_acl_set \<Rightarrow> bool \<Rightarrow> mediator_acl_set" where
  "set_local a flag = (generic_set a 3 flag)\<lparr>did_local := flag\<rparr>"

definition get_send_messages :: "mediator_acl_set \<Rightarrow> bool \<times> bool" where
  "get_send_messages a = (generic_get a 4, generic_get a 5)"

definition set_send_messages ::
  "mediator_acl_set \<Rightarrow> bool \<Rightarrow> bool \<Rightarrow> bool \<Rightarrow> acl_error + mediator_acl_set" where
  "set_send_messages a v self_change admin =
     (let change = snd (get_send_messages a) in
      if \<not> change \<and> \<not> admin then
        Inl (Denied ''Do not have permission to change the send_messages ACL'')
      else
        let a1 = (generic_set a 4 v)\<lparr>send_messages := v\<rparr>
        in if admin
           then Inr ((generic_set a1 5 self_change)\<lparr>send_messages_self_change := self_change\<rparr>)
           else Inr a1)"

definition get_receive_messages :: "mediator_acl_set \<Rightarrow> bool \<times> bool" where
  "get_receive_messages a = (generic_get a 6, generic_get a 7)"

definition set_receive_messages ::
  "mediator_acl_set \<Rightarrow> bool \<Rightarrow> bool \<Rightarrow> bool \<Rightarrow> acl_error + mediator_acl_set" where
  "set_receive_messages a v self_change admin =
     (let change = snd (get_receive_messages a) in
      if \<not> change \<and> \<not> admin then
        Inl (Denied ''Do not have permission to change the receive_messages ACL'')
      else
        let a1 = (generic_set a 6 v)\<lparr>receive_messages := v\<rparr>
        in if admin
           then Inr ((generic_set a1 7 self_change)\<lparr>receive_messages_self_change := self_change\<rparr>)
           else Inr a1)"

definition get_send_forwarded :: "mediator_acl_set \<Rightarrow> bool \<times> bool" where
  "get_send_forwarded a = (generic_get a 8, generic_get a 9)"

definition set_send_forwarded ::
  "mediator_acl_set \<Rightarrow> bool \<Rightarrow> bool \<Rightarrow> bool \<Rightarrow> acl_error + mediator_acl_set" where
  "set_send_forwarded a v self_change admin =
     (let change = snd (get_send_forwarded a) in
      if \<not> change \<and> \<not> admin then
        Inl (Denied ''Do not have permission to change the send_forwarded ACL'')
      else
        let a1 = (generic_set a 8 v)\<lparr>send_forwarded := v\<rparr>
        in if admin
           then Inr ((generic_set a1 9 self_change)\<lparr>send_forwarded_self_change := self_change\<rparr>)
           else Inr a1)"

definition get_receive_forwarded :: "mediator_acl_set \<Rightarrow> bool \<times> bool" where
  "get_receive_forwarded a = (generic_get a 10, generic_get a 11)"

definition set_receive_forwarded ::
  "mediator_acl_set \<Rightarrow> bool \<Rightarrow> bool \<Rightarrow> bool \<Rightarrow> acl_error + mediator_acl_set" where
  "set_receive_forwarded a v self_change admin =
     (let change = snd (get_receive_forwarded a) in
      if \<not> change \<and> \<not> admin then
        Inl (Denied ''Do not have permission to change the receive_forwarded ACL'')
      else
        let a1 = (generic_set a 10 v)\<lparr>receive_forwarded := v\<rparr>
        in if admin
           then Inr ((generic_set a1 11 self_change)\<lparr>receive_forwarded_self_change := self_change\<rparr>)
           else Inr a1)"

definition get_create_invites :: "mediator_acl_set \<Rightarrow> bool \<times> bool" where
  "get_create_invites a = (generic_get a 12, generic_get a 13)"

definition set_create_invites ::
  "mediator_acl_set \<Rightarrow> bool \<Rightarrow> bool \<Rightarrow> bool \<Rightarrow> acl_error + mediator_acl_set" where
  "set_create_invites a v self_change admin =
     (let change = snd (get_create_invites a) in
      if \<not> change \<and> \<not> admin then
        Inl (Denied ''Do not have permission to change the create_invites ACL'')
      else
        let a1 = (generic_set a 12 v)\<lparr>create_invites := v\<rparr>
        in if admin
           then Inr ((generic_set a1 13 self_change)\<lparr>create_invites_self_change := self_change\<rparr>)
           else Inr a1)"

definition get_anon_receive :: "mediator_acl_set \<Rightarrow> bool \<times> bool" where
  "get_anon_receive a = (generic_get a 14, generic_get a 15)"

definition set_anon_receive ::
  "mediator_acl_set \<Rightarrow> bool \<Rightarrow> bool \<Rightarrow> bool \<Rightarrow> acl_error + mediator_acl_set" where
  "set_anon_receive a v self_change admin =
     (let change = snd (get_anon_receive a) in
      if \<not> change \<and> \<not> admin then
        Inl (Denied ''Do not have permission to change the anon_receive ACL'')
      else
        let a1 = (generic_set a 14 v)\<lparr>anon_receive := v\<rparr>
        in if admin
           then Inr ((generic_set a1 15 self_change)\<lparr>anon_receive_self_change := self_change\<rparr>)
           else Inr a1)"

definition get_self_manage_list :: "mediator_acl_set \<Rightarrow> bool" where
  "get_self_manage_list a = generic_get a 16"

definition set_self_manage_list :: "mediator_acl_set \<Rightarrow> bool \<Rightarrow> mediator_acl_set" where
  "set_self_manage_list a flag = (generic_set a 16 flag)\<lparr>self_manage_list := flag\<rparr>"

definition get_self_manage_send_queue_limit :: "mediator_acl_set \<Rightarrow> bool" where
  "get_self_manage_send_queue_limit a = generic_get a 17"

definition set_self_manage_send_queue_limit :: "mediator_acl_set \<Rightarrow> bool \<Rightarrow> mediator_acl_set" where
  "set_self_manage_send_queue_limit a flag = (generic_set a 17 flag)\<lparr>self_manage_send_queue_limit := flag\<rparr>"

definition get_self_manage_receive_queue_limit :: "mediator_acl_set \<Rightarrow> bool" where
  "get_self_manage_receive_queue_limit a = generic_get a 18"

definition set_self_manage_receive_queue_limit :: "mediator_acl_set \<Rightarrow> bool \<Rightarrow> mediator_acl_set" where
  "set_self_manage_receive_queue_limit a flag = (generic_set a 18 flag)\<lparr>self_manage_receive_queue_limit := flag\<rparr>"

section \<open>Integer and hexadecimal forms\<close>

definition to_le :: "64 word \<Rightarrow> 64 word" where
  "to_le w = w"

definition to_u64 :: "mediator_acl_set \<Rightarrow> 64 word" where
  "to_u64 a = to_le (acl a)"

definition to_hex_string :: "mediator_acl_set \<Rightarrow> string" where
  "to_hex_string a = pad_left 16 (CHR ''0'') (show_radix 16 (unat (to_u64 a)))"

definition from_u64 :: "64 word \<Rightarrow> mediator_acl_set" where
  \<comment> \<open>the getters read the field \<open>acl\<close> only, so the assignments do not depend on each other\<close>
  "from_u64 w =
     (let a = default_acl_set\<lparr>acl := to_le w\<rparr> in
      a\<lparr>access_list_mode := fst (get_access_list_mode a),
        access_list_mode_self_change := get_access_list_mode_admin_change a,
        did_blocked := get_blocked a,
        did_local := get_local a,
        send_messages := fst (get_send_messages a),
        send_messages_self_change := snd (get_send_messages a),
        receive_messages := fst (get_receive_messages a),
        receive_messages_self_change := snd (get_receive_messages a),
        send_forwarded := fst (get_send_forwarded a),
        send_forwarded_self_change := snd (get_send_forwarded a),
        receive_forwarded := fst (get_receive_forwarded a),
        receive_forwarded_self_change := snd (get_receive_forwarded a),
        create_invites := fst (get_create_invites a),
        create_invites_self_change := snd (get_create_invites a),
        anon_receive := fst (get_anon_receive a),
        anon_receive_self_change := snd (get_anon_receive a),
        self_manage_list := get_self_manage_list a,
        self_manage_send_queue_limit := get_self_manage_send_queue_limit a,
        self_manage_receive_queue_limit := get_self_manage_receive_queue_limit a\<rparr>)"

definition from_hex_string :: "string \<Rightarrow> acl_error + mediator_acl_set" where
  "from_hex_string hex =
     (case u64_from_str_radix 16 hex of
        None \<Rightarrow> Inl (Config (''Invalid ACL Hex String ('' @ hex @ '')''))
      | Some n \<Rightarrow> Inr (from_u64 (of_nat n)))"

section \<open>Well-formedness: the cached fields repeat the bits\<close>

definition acl_wf :: "mediator_acl_set \<Rightarrow> bool" where
  "acl_wf a \<longleftrightarrow>
     access_list_mode a = fst (get_access_list_mode a) \<and>
     access_list_mode_self_change a = get_access_list_mode_admin_change a \<and>
     did_blocked a = get_blocked a \<and> did_local a = get_local a \<and>
     (send_messages a, send_messages_self_change a) = get_send_messages a \<and>
     (receive_messages a, receive_messages_self_change a) = get_receive_messages a \<and>
     (send_forwarded a, send_forwarded_self_change a) = get_send_forwarded a \<and>
     (receive_forwarded a, receive_forwarded_self_change a) = get_receive_forwarded a \<and>
     (create_invites a, create_invites_self_change a) = get_create_invites a \<and>
     (anon_receive a, anon_receive_self_change a) = get_anon_receive a \<and>
     self_manage_list a = get_self_manage_list a \<and>
     self_manage_send_queue_limit a = get_self_manage_send_queue_limit a \<and>
     self_manage_receive_queue_limit a = get_self_manage_receive_queue_limit a"

text \<open>The mutators of the struct as one type, to speak of sequences of calls.\<close>

datatype acl_op =
    OpMode access_list_mode_type bool bool
  | OpBlocked bool
  | OpLocal bool
  | OpSend bool bool bool
  | OpReceive bool bool bool
  | OpSendFwd bool bool bool
  | OpReceiveFwd bool bool bool
  | OpInvites bool bool bool
  | OpAnon bool bool bool
  | OpManageList bool
  | OpManageSendLimit bool
  | OpManageReceiveLimit bool

fun acl_apply :: "mediator_acl_set \<Rightarrow> acl_op \<Rightarrow> acl_error + mediator_acl_set" where
  "acl_apply a (OpMode m s adm) = set_access_list_mode a m s adm"
| "acl_apply a (OpBlocked v) = Inr (set_blocked a v)"
| "acl_apply a (OpLocal v) = Inr (set_local a v)"
| "acl_apply a (OpSend v s adm) = set_send_messages a v s adm"
| "acl_apply a (OpReceive v s adm) = set_receive_messages a v s adm"
| "acl_apply a (OpSendFwd v s adm) = set_send_forwarded a v s adm"
| "acl_apply a (OpReceiveFwd v s adm) = set_receive_forwarded a v s adm"
| "acl_apply a (OpInvites v s adm) = set_create_invites a v s adm"
| "acl_apply a (OpAnon v s adm) = set_anon_receive a v s adm"
| "acl_apply a (OpManageList v) = Inr (set_self_manage_list a v)"
| "acl_apply a (OpManageSendLimit v) = Inr (set_self_manage_send_queue_limit a v)"
| "acl_apply a (OpManageReceiveLimit v) = Inr (set_self_manage_receive_queue_limit a v)"

fun acl_run :: "mediator_acl_set \<Rightarrow> acl_op list \<Rightarrow> mediator_acl_set" where
  \<comment> \<open>a refused call leaves the set as it was\<close>
  "acl_run a [] = a"
| "acl_run a (x # xs) =
     (case acl_apply a x of Inl _ \<Rightarrow> acl_run a xs | Inr a' \<Rightarrow> acl_run a' xs)"

section \<open>Bit-level facts\<close>

lemma generic_get_bit: "generic_get a b = bit (acl a) b"
proof (cases "b > 63")
  case True
  then show ?thesis by (auto simp: generic_get_def dest: bit_imp_le_length)
next
  case False
  then show ?thesis
    by (simp only: generic_get_def bit_iff_and_push_bit_not_eq_0 if_False)
qed

definition put_bit :: "64 word \<Rightarrow> nat \<Rightarrow> bool \<Rightarrow> 64 word" where
  "put_bit w b v = (if v then w OR push_bit b 1 else w AND NOT (push_bit b 1))"

lemma bit_put_bit: "b \<le> 63 \<Longrightarrow> bit (put_bit w b v) n = (if n = b then v else bit w n)"
  by (auto simp: put_bit_def bit_simps dest: bit_imp_le_length)

lemma generic_set_put: "b \<le> 63 \<Longrightarrow> generic_set a b v = a\<lparr>acl := put_bit (acl a) b v\<rparr>"
  by (simp add: generic_set_def put_bit_def)

lemma mode_put_bit: "w AND NOT 1 = put_bit w 0 False" "w OR 1 = put_bit w 0 True"
  by (simp_all add: put_bit_def)

lemma get_access_list_mode_bit:
  "get_access_list_mode a = (if bit (acl a) 0 then ExplicitDeny else ExplicitAllow, bit (acl a) 1)"
proof -
  have "bit (acl a) 0 \<longleftrightarrow> acl a AND 1 \<noteq> 0"
    by (simp add: bit_iff_and_push_bit_not_eq_0)
  moreover have "bit (acl a) 1 \<longleftrightarrow> acl a AND push_bit 1 1 \<noteq> 0"
    by (rule bit_iff_and_push_bit_not_eq_0)
  ultimately show ?thesis by (simp add: get_access_list_mode_def)
qed

lemmas acl_get_bits =
  get_access_list_mode_bit get_access_list_mode_admin_change_def generic_get_bit
  get_send_messages_def get_receive_messages_def get_send_forwarded_def get_receive_forwarded_def get_create_invites_def get_anon_receive_def get_blocked_def get_local_def get_self_manage_list_def get_self_manage_send_queue_limit_def get_self_manage_receive_queue_limit_def

lemmas acl_set_defs =
  set_access_list_mode_def set_send_messages_def set_receive_messages_def set_send_forwarded_def set_receive_forwarded_def set_create_invites_def set_anon_receive_def set_blocked_def set_local_def set_self_manage_list_def set_self_manage_send_queue_limit_def set_self_manage_receive_queue_limit_def

lemma mode_word:
  "(case m of ExplicitAllow \<Rightarrow> a\<lparr>acl := acl a AND NOT 1\<rparr> | ExplicitDeny \<Rightarrow> a\<lparr>acl := acl a OR 1\<rparr>)
   = a\<lparr>acl := put_bit (acl a) 0 (m = ExplicitDeny)\<rparr>"
  by (cases m) (simp_all add: mode_put_bit [symmetric])

lemmas acl_setters = acl_set_defs generic_set_put mode_word Let_def

section \<open>Invariant\<close>

lemma acl_wf_default: "acl_wf default_acl_set"
  by (simp add: acl_wf_def default_acl_set_def acl_get_bits)

lemma acl_default [simp]: "acl default_acl_set = 0"
  by (simp add: default_acl_set_def)

lemma acl_wf_from_u64: "acl_wf (from_u64 w)"
  by (simp add: acl_wf_def from_u64_def Let_def acl_get_bits)

lemma acl_from_u64 [simp]: "acl (from_u64 w) = w"
  by (simp add: from_u64_def Let_def to_le_def)

lemma acl_wf_unique:
  assumes "acl_wf a" "acl_wf b" "acl a = acl b"
  shows "a = b"
  using assms by (cases a; cases b) (simp add: acl_wf_def acl_get_bits)

lemma acl_wf_bits:
  "acl_wf a \<longleftrightarrow>
     (access_list_mode a = ExplicitDeny) = bit (acl a) 0 \<and>
     access_list_mode_self_change a = bit (acl a) (Suc 0) \<and>
     did_blocked a = bit (acl a) 2 \<and> did_local a = bit (acl a) 3 \<and>
     send_messages a = bit (acl a) 4 \<and> send_messages_self_change a = bit (acl a) 5 \<and>
     receive_messages a = bit (acl a) 6 \<and> receive_messages_self_change a = bit (acl a) 7 \<and>
     send_forwarded a = bit (acl a) 8 \<and> send_forwarded_self_change a = bit (acl a) 9 \<and>
     receive_forwarded a = bit (acl a) 10 \<and> receive_forwarded_self_change a = bit (acl a) 11 \<and>
     create_invites a = bit (acl a) 12 \<and> create_invites_self_change a = bit (acl a) 13 \<and>
     anon_receive a = bit (acl a) 14 \<and> anon_receive_self_change a = bit (acl a) 15 \<and>
     self_manage_list a = bit (acl a) 16 \<and> self_manage_send_queue_limit a = bit (acl a) 17 \<and>
     self_manage_receive_queue_limit a = bit (acl a) 18"
  by (cases "access_list_mode a") (simp_all add: acl_wf_def acl_get_bits)

lemma acl_wf_apply:
  assumes "acl_wf a" "acl_apply a x = Inr a'"
  shows "acl_wf a'"
proof (cases x)
  case (OpMode m s adm)
  with assms show ?thesis
    by (cases adm) (clarsimp simp: acl_setters acl_wf_bits bit_put_bit split: if_splits)+
next
  case (OpSend v s adm)
  with assms show ?thesis
    by (cases adm) (clarsimp simp: acl_setters acl_wf_bits bit_put_bit split: if_splits)+
next
  case (OpReceive v s adm)
  with assms show ?thesis
    by (cases adm) (clarsimp simp: acl_setters acl_wf_bits bit_put_bit split: if_splits)+
next
  case (OpSendFwd v s adm)
  with assms show ?thesis
    by (cases adm) (clarsimp simp: acl_setters acl_wf_bits bit_put_bit split: if_splits)+
next
  case (OpReceiveFwd v s adm)
  with assms show ?thesis
    by (cases adm) (clarsimp simp: acl_setters acl_wf_bits bit_put_bit split: if_splits)+
next
  case (OpInvites v s adm)
  with assms show ?thesis
    by (cases adm) (clarsimp simp: acl_setters acl_wf_bits bit_put_bit split: if_splits)+
next
  case (OpAnon v s adm)
  with assms show ?thesis
    by (cases adm) (clarsimp simp: acl_setters acl_wf_bits bit_put_bit split: if_splits)+
qed (use assms in \<open>clarsimp simp: acl_setters acl_wf_bits bit_put_bit\<close>)+

lemma acl_wf_run: "acl_wf a \<Longrightarrow> acl_wf (acl_run a xs)"
  by (induction xs arbitrary: a) (auto split: sum.splits dest: acl_wf_apply)


section \<open>Value and self-change flags\<close>

locale permission_pair =
  fixes getp :: "mediator_acl_set \<Rightarrow> 'v \<times> bool"
    and setp :: "mediator_acl_set \<Rightarrow> 'v \<Rightarrow> bool \<Rightarrow> bool \<Rightarrow> acl_error + mediator_acl_set"
    and vb cb :: nat and enc :: "'v \<Rightarrow> bool"
  assumes distinct_bits: "vb \<noteq> cb"
    and enc_inj: "enc x = enc y \<Longrightarrow> x = y"
    and get_value: "enc (fst (getp a)) = bit (acl a) vb"
    and get_change: "snd (getp a) = bit (acl a) cb"
    and set_refused: "\<not> bit (acl a) cb \<Longrightarrow> \<exists>m. setp a v s False = Inl (Denied m)"
    and set_allowed: "adm \<or> bit (acl a) cb \<Longrightarrow> \<exists>a'. setp a v s adm = Inr a' \<and>
      (\<forall>n. bit (acl a') n = (if n = vb then enc v else if n = cb \<and> adm then s else bit (acl a) n))"
begin

lemma ok_iff: "is_ok (setp a v s adm) \<longleftrightarrow> adm \<or> bit (acl a) cb"
proof (cases "adm \<or> bit (acl a) cb")
  case True
  from set_allowed [OF this, of v s] True show ?thesis by auto
next
  case False
  with set_refused [of a v s] show ?thesis by auto
qed

lemma bits_after:
  assumes "setp a v s adm = Inr a'"
  shows "bit (acl a') n = (if n = vb then enc v else if n = cb \<and> adm then s else bit (acl a) n)"
proof -
  have "adm \<or> bit (acl a) cb" using assms ok_iff [of a v s adm] by simp
  from set_allowed [OF this, of v s] assms show ?thesis by auto
qed

lemma admin_set_get:
  assumes "setp a v s True = Inr a'"
  shows "getp a' = (v, s)"
proof (rule prod_eqI)
  show "fst (getp a') = fst (v, s)"
    using bits_after [OF assms] get_value [of a'] by (intro enc_inj) simp
  show "snd (getp a') = snd (v, s)"
    using bits_after [OF assms] get_change [of a'] distinct_bits by simp
qed

lemma self_set_get:
  assumes "setp a v s False = Inr a'"
  shows "fst (getp a') = v \<and> snd (getp a') = snd (getp a)"
  using bits_after [OF assms] get_value [of a'] get_change distinct_bits enc_inj by simp

end

interpretation mode: permission_pair get_access_list_mode set_access_list_mode 0 1 "\<lambda>m. m = ExplicitDeny"
proof (unfold_locales, goal_cases)
  case (2 x y)
  then show ?case by (cases x; cases y) simp_all
qed (auto simp: acl_get_bits acl_setters bit_put_bit)

interpretation sm: permission_pair get_send_messages set_send_messages 4 5 "\<lambda>v. v"
  by unfold_locales (auto simp: acl_get_bits acl_setters bit_put_bit)

interpretation rm: permission_pair get_receive_messages set_receive_messages 6 7 "\<lambda>v. v"
  by unfold_locales (auto simp: acl_get_bits acl_setters bit_put_bit)

interpretation sf: permission_pair get_send_forwarded set_send_forwarded 8 9 "\<lambda>v. v"
  by unfold_locales (auto simp: acl_get_bits acl_setters bit_put_bit)

interpretation rf: permission_pair get_receive_forwarded set_receive_forwarded 10 11 "\<lambda>v. v"
  by unfold_locales (auto simp: acl_get_bits acl_setters bit_put_bit)

interpretation ci: permission_pair get_create_invites set_create_invites 12 13 "\<lambda>v. v"
  by unfold_locales (auto simp: acl_get_bits acl_setters bit_put_bit)

interpretation ar: permission_pair get_anon_receive set_anon_receive 14 15 "\<lambda>v. v"
  by unfold_locales (auto simp: acl_get_bits acl_setters bit_put_bit)

fun op_pair :: "acl_op \<Rightarrow> (nat \<times> nat \<times> bool \<times> bool \<times> bool) option" where
  \<comment> \<open>value bit, self-change bit, new value, new self-change flag, caller is an administrator\<close>
  "op_pair (OpMode m s adm) = Some (0, 1, m = ExplicitDeny, s, adm)"
| "op_pair (OpSend v s adm) = Some (4, 5, v, s, adm)"
| "op_pair (OpReceive v s adm) = Some (6, 7, v, s, adm)"
| "op_pair (OpSendFwd v s adm) = Some (8, 9, v, s, adm)"
| "op_pair (OpReceiveFwd v s adm) = Some (10, 11, v, s, adm)"
| "op_pair (OpInvites v s adm) = Some (12, 13, v, s, adm)"
| "op_pair (OpAnon v s adm) = Some (14, 15, v, s, adm)"
| "op_pair x = None"

lemmas pair_ok = mode.ok_iff sm.ok_iff rm.ok_iff sf.ok_iff rf.ok_iff ci.ok_iff ar.ok_iff
lemmas pair_bits = mode.bits_after sm.bits_after rm.bits_after sf.bits_after rf.bits_after
  ci.bits_after ar.bits_after

lemma op_pair_ok: "op_pair x = Some (vb, cb, v, s, adm) \<Longrightarrow> is_ok (acl_apply a x) \<longleftrightarrow> adm \<or> bit (acl a) cb"
  by (cases x) (auto simp: pair_ok)

lemma op_pair_bits:
  assumes "op_pair x = Some (vb, cb, v, s, adm)" "acl_apply a x = Inr a'"
  shows "bit (acl a') n = (if n = vb then v else if n = cb \<and> adm then s else bit (acl a) n)"
  using assms by (cases x) (auto simp: pair_bits)

lemma op_pair_low: "op_pair x = Some (vb, cb, v, s, adm) \<Longrightarrow> vb < 16 \<and> cb < 16"
  by (cases x) auto

section \<open>Encodings\<close>

lemma unat_u64_max: "unat (w :: 64 word) \<le> u64_max"
  using unsigned_less [of w, where 'a = nat] by (simp add: u64_max_def)

lemma to_hex_length: "length (to_hex_string a) = 16"
proof -
  have "length (nat_digits 16 (unat (to_u64 a))) \<le> 16"
    using unsigned_less [of "to_u64 a", where 'a = nat] by (intro nat_digits_length) simp_all
  then show ?thesis by (simp add: to_hex_string_def pad_left_def show_radix_def)
qed

lemma from_hex_to_hex: "from_hex_string (to_hex_string a) = Inr (from_u64 (acl a))"
  by (simp add: from_hex_string_def to_hex_string_def from_str_radix_padded unat_u64_max
      to_u64_def to_le_def)

lemma from_u64_to_u64: "acl_wf a \<Longrightarrow> from_u64 (to_u64 a) = a"
  by (rule acl_wf_unique) (simp_all add: acl_wf_from_u64 to_u64_def to_le_def)

section \<open>Properties\<close>

text \<open>
  C36. Whatever sequence of setter calls is made, refused ones included, starting from the default
  set or from a set read from any \<open>u64\<close>, the cached fields of the struct agree with the
  packed bits.
\<close>

theorem acl_fields_agree_with_bits:
  "acl_wf (acl_run default_acl_set xs) \<and> acl_wf (acl_run (from_u64 w) xs)"
  using acl_wf_run acl_wf_default acl_wf_from_u64 by blast

text \<open>
  The seven setters with a self-change flag refuse exactly when the caller is not an
  administrator and the flag is clear. When they succeed they set the value bit, let only an
  administrator change the self-change bit, and leave every other bit of the \<open>u64\<close> alone.
\<close>

theorem acl_self_change_rule:
  assumes "op_pair x = Some (vb, cb, v, s, adm)"
  shows "(is_ok (acl_apply a x) \<longleftrightarrow> adm \<or> bit (acl a) cb) \<and>
    (\<forall>a' n. acl_apply a x = Inr a' \<longrightarrow>
       bit (acl a') n = (if n = vb then v else if n = cb \<and> adm then s else bit (acl a) n))"
  using op_pair_ok [OF assms] op_pair_bits [OF assms] by blast

theorem acl_self_change_rule_witness:
  "\<exists>a'. acl_apply (from_u64 32) (OpSend True False False) = Inr a' \<and>
     bit (acl a') 4 \<and> bit (acl a') 5 \<and> \<not> bit (acl a') 6"
proof -
  have p: "op_pair (OpSend True False False) = Some (4, 5, True, False, False)" by simp
  have b: "bit (32 :: 64 word) 5" "\<not> bit (32 :: 64 word) 6" by (simp_all add: bit_iff_odd)
  with acl_self_change_rule [OF p, of "from_u64 32"]
  obtain a' where "acl_apply (from_u64 32) (OpSend True False False) = Inr a'"
    by (auto simp: is_ok_iff)
  with acl_self_change_rule [OF p, of "from_u64 32"] b show ?thesis by auto
qed

text \<open>
  A well-formed ACL set survives both encodings: reading back its \<open>u64\<close>, and reading
  back its hexadecimal form, which always has sixteen digits, give the same set.
\<close>

theorem acl_encodings_round_trip:
  assumes "acl_wf a"
  shows "from_u64 (to_u64 a) = a \<and> from_hex_string (to_hex_string a) = Inr a \<and>
    length (to_hex_string a) = 16"
  using assms from_u64_to_u64 [of a]
  by (simp add: from_hex_to_hex to_hex_length to_u64_def to_le_def)

theorem acl_encodings_round_trip_witness:
  "from_u64 (to_u64 (from_u64 5)) = from_u64 5 \<and>
   from_hex_string (to_hex_string (from_u64 5)) = Inr (from_u64 5) \<and>
   length (to_hex_string (from_u64 5)) = 16"
  using acl_encodings_round_trip [OF acl_wf_from_u64 [of 5]] .

end
