(* ===== verification/AclRules.thy ===== *)
theory AclRules
  imports Acls
begin

text \<open>
  \<open>MediatorACLSet::from_string_ruleset\<close> (\<open>mediator-common/src/types/acls.rs\<close>): a
  comma-separated list of rule names is folded, left to right, into an ACL set, starting from
  the default one. Each rule is a sequence of setter calls made as an administrator; the first
  unknown name ends the parse with an error that quotes it.

  The lemmas show that parsing fails exactly on an unknown name, that the result is well formed
  and uses only the nineteen documented bits, and what the four summary rules do.
\<close>

section \<open>The rules\<close>

definition rule_allow_all :: "mediator_acl_set \<Rightarrow> acl_error + mediator_acl_set" where
  "rule_allow_all a =
     and_then (set_access_list_mode a ExplicitDeny True True) (\<lambda>a.
     let a = set_local a True in
     and_then (set_send_messages a True True True) (\<lambda>a.
     and_then (set_receive_messages a True True True) (\<lambda>a.
     and_then (set_send_forwarded a True True True) (\<lambda>a.
     and_then (set_receive_forwarded a True True True) (\<lambda>a.
     and_then (set_create_invites a True True True) (\<lambda>a.
     and_then (set_anon_receive a True True True) (\<lambda>a.
     let a = set_self_manage_list a True in
     let a = set_self_manage_send_queue_limit a True in
     Inr (set_self_manage_receive_queue_limit a True))))))))"

definition rule_deny_all :: "mediator_acl_set \<Rightarrow> acl_error + mediator_acl_set" where
  "rule_deny_all a =
     and_then (set_access_list_mode a ExplicitAllow False True) (\<lambda>a.
     let a = set_local a False in
     and_then (set_send_messages a False False True) (\<lambda>a.
     and_then (set_receive_messages a False False True) (\<lambda>a.
     and_then (set_send_forwarded a False False True) (\<lambda>a.
     and_then (set_receive_forwarded a False False True) (\<lambda>a.
     and_then (set_create_invites a False False True) (\<lambda>a.
     and_then (set_anon_receive a False False True) (\<lambda>a.
     let a = set_self_manage_list a False in
     let a = set_self_manage_send_queue_limit a False in
     Inr (set_self_manage_receive_queue_limit a False))))))))"

definition rule_allow_all_self_change :: "mediator_acl_set \<Rightarrow> acl_error + mediator_acl_set" where
  "rule_allow_all_self_change a =
     and_then (set_access_list_mode a (fst (get_access_list_mode a)) True True) (\<lambda>a.
     and_then (set_send_messages a (fst (get_send_messages a)) True True) (\<lambda>a.
     and_then (set_receive_messages a (fst (get_receive_messages a)) True True) (\<lambda>a.
     and_then (set_send_forwarded a (fst (get_send_forwarded a)) True True) (\<lambda>a.
     and_then (set_receive_forwarded a (fst (get_receive_forwarded a)) True True) (\<lambda>a.
     and_then (set_create_invites a (fst (get_create_invites a)) True True) (\<lambda>a.
     and_then (set_anon_receive a (fst (get_anon_receive a)) True True) (\<lambda>a.
     let a = set_self_manage_list a True in
     let a = set_self_manage_send_queue_limit a True in
     Inr (set_self_manage_receive_queue_limit a True))))))))"

definition rule_deny_all_self_change :: "mediator_acl_set \<Rightarrow> acl_error + mediator_acl_set" where
  "rule_deny_all_self_change a =
     and_then (set_access_list_mode a (fst (get_access_list_mode a)) False True) (\<lambda>a.
     and_then (set_send_messages a (fst (get_send_messages a)) False True) (\<lambda>a.
     and_then (set_receive_messages a (fst (get_receive_messages a)) False True) (\<lambda>a.
     and_then (set_send_forwarded a (fst (get_send_forwarded a)) False True) (\<lambda>a.
     and_then (set_receive_forwarded a (fst (get_receive_forwarded a)) False True) (\<lambda>a.
     and_then (set_create_invites a (fst (get_create_invites a)) False True) (\<lambda>a.
     and_then (set_anon_receive a (fst (get_anon_receive a)) False True) (\<lambda>a.
     let a = set_self_manage_list a False in
     let a = set_self_manage_send_queue_limit a False in
     Inr (set_self_manage_receive_queue_limit a False))))))))"

definition apply_rule :: "string \<Rightarrow> mediator_acl_set \<Rightarrow> acl_error + mediator_acl_set" where
  "apply_rule item a =
     (if item = ''allow_all'' then rule_allow_all a
      else if item = ''deny_all'' then rule_deny_all a
      else if item = ''allow_all_self_change'' then rule_allow_all_self_change a
      else if item = ''deny_all_self_change'' then rule_deny_all_self_change a
      else if item = ''mode_explicit_allow'' then
        set_access_list_mode a ExplicitAllow (get_access_list_mode_admin_change a) True
      else if item = ''mode_explicit_deny'' then
        set_access_list_mode a ExplicitDeny (get_access_list_mode_admin_change a) True
      else if item = ''mode_self_change'' then
        set_access_list_mode a (fst (get_access_list_mode a)) True True
      else if item = ''local'' then Inr (set_local a True)
      else if item = ''send_messages'' then set_send_messages a True (snd (get_send_messages a)) True
      else if item = ''send_messages_change'' then set_send_messages a (fst (get_send_messages a)) True True
      else if item = ''receive_messages'' then set_receive_messages a True (snd (get_receive_messages a)) True
      else if item = ''receive_messages_change'' then set_receive_messages a (fst (get_receive_messages a)) True True
      else if item = ''send_forwarded'' then set_send_forwarded a True (snd (get_send_forwarded a)) True
      else if item = ''send_forwarded_change'' then set_send_forwarded a (fst (get_send_forwarded a)) True True
      else if item = ''receive_forwarded'' then set_receive_forwarded a True (snd (get_receive_forwarded a)) True
      else if item = ''receive_forwarded_change'' then set_receive_forwarded a (fst (get_receive_forwarded a)) True True
      else if item = ''create_invites'' then set_create_invites a True (snd (get_create_invites a)) True
      else if item = ''create_invites_change'' then set_create_invites a (fst (get_create_invites a)) True True
      else if item = ''anon_receive'' then set_anon_receive a True (snd (get_anon_receive a)) True
      else if item = ''anon_receive_change'' then set_anon_receive a (fst (get_anon_receive a)) True True
      else if item = ''self_manage_list'' then Inr (set_self_manage_list a True)
      else if item = ''blocked'' then Inr (set_blocked a True)
      else if item = ''self_manage_send_queue_limit'' then
        Inr (set_self_manage_send_queue_limit a True)
      else if item = ''self_manage_receive_queue_limit'' then
        Inr (set_self_manage_receive_queue_limit a True)
      else Inl (Config (''Invalid ACL String ('' @ item @ '')'')))"

fun apply_rules :: "string list \<Rightarrow> mediator_acl_set \<Rightarrow> acl_error + mediator_acl_set" where
  "apply_rules [] a = Inr a"
| "apply_rules (item # items) a =
     (case apply_rule (trim item) a of Inl e \<Rightarrow> Inl e | Inr a' \<Rightarrow> apply_rules items a')"

definition from_string_ruleset :: "string \<Rightarrow> acl_error + mediator_acl_set" where
  "from_string_ruleset input =
     apply_rules (split_on (CHR '','') (to_ascii_lowercase input)) default_acl_set"

definition acl_rule_names :: "string list" where
  "acl_rule_names =
     [''allow_all'', ''deny_all'', ''allow_all_self_change'', ''deny_all_self_change'',
      ''mode_explicit_allow'', ''mode_explicit_deny'', ''mode_self_change'', ''local'',
      ''send_messages'', ''send_messages_change'', ''receive_messages'',
      ''receive_messages_change'', ''send_forwarded'', ''send_forwarded_change'',
      ''receive_forwarded'', ''receive_forwarded_change'', ''create_invites'',
      ''create_invites_change'', ''anon_receive'', ''anon_receive_change'',
      ''self_manage_list'', ''blocked'', ''self_manage_send_queue_limit'',
      ''self_manage_receive_queue_limit'']"

section \<open>Every rule is a run of administrator setters\<close>

definition low_bits :: "mediator_acl_set \<Rightarrow> bool" where
  "low_bits a \<longleftrightarrow> (\<forall>n \<ge> 19. \<not> bit (acl a) n)"

definition rule_inv :: "mediator_acl_set \<Rightarrow> bool" where
  "rule_inv a \<longleftrightarrow> acl_wf a \<and> low_bits a"

text \<open>An administrator call never fails, and keeps the invariant.\<close>

lemma low_bits_apply:
  assumes "low_bits a" "acl_apply a x = Inr a'"
  shows "low_bits a'"
proof (cases "op_pair x")
  case None
  with assms show ?thesis
    by (cases x) (auto simp: low_bits_def acl_setters bit_put_bit)
next
  case (Some p)
  then obtain vb cb v s adm where p: "op_pair x = Some (vb, cb, v, s, adm)" by (cases p) auto
  show ?thesis
    using op_pair_bits [OF p assms(2)] op_pair_low [OF p] assms(1) by (auto simp: low_bits_def)
qed

lemma rule_inv_apply: "rule_inv a \<Longrightarrow> acl_apply a x = Inr a' \<Longrightarrow> rule_inv a'"
  using acl_wf_apply low_bits_apply by (auto simp: rule_inv_def)

fun by_admin :: "acl_op \<Rightarrow> bool" where
  "by_admin (OpMode m s adm) = adm"
| "by_admin (OpSend v s adm) = adm"
| "by_admin (OpReceive v s adm) = adm"
| "by_admin (OpSendFwd v s adm) = adm"
| "by_admin (OpReceiveFwd v s adm) = adm"
| "by_admin (OpInvites v s adm) = adm"
| "by_admin (OpAnon v s adm) = adm"
| "by_admin x = True"

lemma admin_apply_ok: "by_admin x \<Longrightarrow> \<exists>a'. acl_apply a x = Inr a'"
  by (cases x) (auto simp: acl_set_defs Let_def)

definition keeps_rule_inv :: "(mediator_acl_set \<Rightarrow> acl_error + mediator_acl_set) \<Rightarrow> bool" where
  "keeps_rule_inv f \<longleftrightarrow> (\<forall>a. \<exists>a'. f a = Inr a' \<and> (rule_inv a \<longrightarrow> rule_inv a'))"

lemma keeps_apply: "(\<And>a. by_admin (x a)) \<Longrightarrow> keeps_rule_inv (\<lambda>a. acl_apply a (x a))"
  using admin_apply_ok rule_inv_apply unfolding keeps_rule_inv_def by metis

lemma keeps_and_then:
  "keeps_rule_inv f \<Longrightarrow> keeps_rule_inv g \<Longrightarrow> keeps_rule_inv (\<lambda>a. and_then (f a) g)"
  unfolding keeps_rule_inv_def by (metis and_then_simps(2))

lemma keeps_let:
  assumes "keeps_rule_inv (\<lambda>a. Inr (f a))" "keeps_rule_inv g"
  shows "keeps_rule_inv (\<lambda>a. let a = f a in g a)"
  using keeps_and_then [OF assms] by (simp add: Let_def)

lemmas keeps_ops =
  keeps_apply [of "\<lambda>a. OpMode (f a) (g a) True" for f g, simplified]
  keeps_apply [of "\<lambda>a. OpBlocked (f a)" for f, simplified]
  keeps_apply [of "\<lambda>a. OpLocal (f a)" for f, simplified]
  keeps_apply [of "\<lambda>a. OpSend (f a) (g a) True" for f g, simplified]
  keeps_apply [of "\<lambda>a. OpReceive (f a) (g a) True" for f g, simplified]
  keeps_apply [of "\<lambda>a. OpSendFwd (f a) (g a) True" for f g, simplified]
  keeps_apply [of "\<lambda>a. OpReceiveFwd (f a) (g a) True" for f g, simplified]
  keeps_apply [of "\<lambda>a. OpInvites (f a) (g a) True" for f g, simplified]
  keeps_apply [of "\<lambda>a. OpAnon (f a) (g a) True" for f g, simplified]
  keeps_apply [of "\<lambda>a. OpManageList (f a)" for f, simplified]
  keeps_apply [of "\<lambda>a. OpManageSendLimit (f a)" for f, simplified]
  keeps_apply [of "\<lambda>a. OpManageReceiveLimit (f a)" for f, simplified]

lemma keeps_summaries:
  "keeps_rule_inv rule_allow_all" "keeps_rule_inv rule_deny_all"
  "keeps_rule_inv rule_allow_all_self_change" "keeps_rule_inv rule_deny_all_self_change"
  unfolding rule_allow_all_def [abs_def] rule_deny_all_def [abs_def]
    rule_allow_all_self_change_def [abs_def] rule_deny_all_self_change_def [abs_def]
  by (intro keeps_and_then keeps_let keeps_ops)+

lemma keeps_known_rule:
  assumes "item \<in> set acl_rule_names"
  shows "keeps_rule_inv (apply_rule item)"
  using assms unfolding apply_rule_def [abs_def] acl_rule_names_def
  by (auto intro: keeps_summaries keeps_ops)

lemma apply_rule_unknown:
  "item \<notin> set acl_rule_names \<Longrightarrow>
   apply_rule item a = Inl (Config (''Invalid ACL String ('' @ item @ '')''))"
  by (simp add: apply_rule_def acl_rule_names_def)


lemma apply_rules_ok:
  "is_ok (apply_rules items a) \<longleftrightarrow> (\<forall>i \<in> set items. trim i \<in> set acl_rule_names)"
proof (induction items arbitrary: a)
  case (Cons i items)
  show ?case
  proof (cases "trim i \<in> set acl_rule_names")
    case True
    with keeps_known_rule obtain a' where "apply_rule (trim i) a = Inr a'"
      unfolding keeps_rule_inv_def by blast
    with True Cons show ?thesis by simp
  next
    case False
    then show ?thesis by (simp add: apply_rule_unknown)
  qed
qed simp

lemma apply_rules_inv: "apply_rules items a = Inr a' \<Longrightarrow> rule_inv a \<Longrightarrow> rule_inv a'"
proof (induction items arbitrary: a)
  case (Cons i items)
  then obtain a1 where a1: "apply_rule (trim i) a = Inr a1" and rest: "apply_rules items a1 = Inr a'"
    by (auto split: sum.splits)
  have "trim i \<in> set acl_rule_names" using a1 apply_rule_unknown by force
  with keeps_known_rule a1 Cons.prems(2) have "rule_inv a1"
    unfolding keeps_rule_inv_def by (metis sum.inject(2))
  with rest Cons.IH show ?case by blast
qed simp

lemma apply_rules_error:
  "apply_rules items a = Inl e \<Longrightarrow>
   \<exists>i \<in> set items. trim i \<notin> set acl_rule_names \<and>
     e = Config (''Invalid ACL String ('' @ trim i @ '')'')"
proof (induction items arbitrary: a)
  case (Cons i items)
  show ?case
  proof (cases "trim i \<in> set acl_rule_names")
    case True
    with keeps_known_rule obtain a' where "apply_rule (trim i) a = Inr a'"
      unfolding keeps_rule_inv_def by blast
    with Cons show ?thesis by auto
  next
    case False
    with Cons show ?thesis by (auto simp: apply_rule_unknown)
  qed
qed simp

lemma rule_inv_default: "rule_inv default_acl_set"
  by (simp add: rule_inv_def acl_wf_default low_bits_def)

section \<open>Properties\<close>

text \<open>
  A rule string parses exactly when every comma-separated item, lower-cased and trimmed, is
  one of the twenty-four rule names; the error quotes an unknown item, and a parsed set is well
  formed and sets none of the bits above the nineteen documented ones.
\<close>

theorem ruleset_parses_known_names:
  "(is_ok (from_string_ruleset input) \<longleftrightarrow>
      (\<forall>i \<in> set (split_on (CHR '','') (to_ascii_lowercase input)). trim i \<in> set acl_rule_names)) \<and>
   (\<forall>e. from_string_ruleset input = Inl e \<longrightarrow>
      (\<exists>i. trim i \<notin> set acl_rule_names \<and> e = Config (''Invalid ACL String ('' @ trim i @ '')''))) \<and>
   (\<forall>a. from_string_ruleset input = Inr a \<longrightarrow> acl_wf a \<and> (\<forall>n \<ge> 19. \<not> bit (acl a) n))"
  unfolding from_string_ruleset_def
  using apply_rules_ok apply_rules_error apply_rules_inv [OF _ rule_inv_default]
  by (auto simp: rule_inv_def low_bits_def) blast+


theorem ruleset_parses_known_names_witness:
  "\<exists>a. from_string_ruleset '' LOCAL,Blocked '' = Inr a \<and> acl_wf a \<and> \<not> bit (acl a) 40"
proof -
  have items: "split_on (CHR '','') (to_ascii_lowercase '' LOCAL,Blocked '') = ['' local'', ''blocked '']"
    by code_simp
  have "trim '' local'' \<in> set acl_rule_names" "trim ''blocked '' \<in> set acl_rule_names"
    by code_simp+
  with ruleset_parses_known_names [of "'' LOCAL,Blocked ''"] show ?thesis
    by (auto simp: items is_ok_iff)
qed

end
