(* ===== verification/OrdMap.thy ===== *)
theory OrdMap
  imports Prelude
begin

text \<open>
  \<open>std::collections::BTreeMap\<close>, as the sources use it: an association list kept in
  strictly increasing key order. \<open>iter\<close>, \<open>range\<close> and \<open>values\<close> are then the
  list itself, its filters and its second components.

  The locale \<open>ordered_map\<close> is the interface the store relies on: what a lookup returns
  after an insert or a remove, that both keep the order, and how the listing changes. Its
  lemmas are about appending at the end, which is how streams grow. It is interpreted here on
  the association list.
\<close>

type_synonym ('k, 'v) btree = "('k \<times> 'v) list"

definition bt_get :: "('k, 'v) btree \<Rightarrow> 'k \<Rightarrow> 'v option" where
  "bt_get m k = map_of m k"

fun bt_insert :: "'k::linorder \<Rightarrow> 'v \<Rightarrow> ('k, 'v) btree \<Rightarrow> ('k, 'v) btree" where
  "bt_insert k v [] = [(k, v)]"
| "bt_insert k v ((k', v') # m) =
     (if k < k' then (k, v) # (k', v') # m
      else if k = k' then (k, v) # m
      else (k', v') # bt_insert k v m)"

definition bt_remove :: "'k \<Rightarrow> ('k, 'v) btree \<Rightarrow> ('k, 'v) btree" where
  "bt_remove k m = filter (\<lambda>e. fst e \<noteq> k) m"

definition bt_wf :: "('k::linorder, 'v) btree \<Rightarrow> bool" where
  "bt_wf m = sorted_wrt (<) (map fst m)"

definition bt_after :: "'k::linorder \<Rightarrow> ('k, 'v) btree \<Rightarrow> ('k, 'v) btree" where
  \<comment> \<open>\<open>range((Excluded(k), Unbounded))\<close>\<close>
  "bt_after k m = filter (\<lambda>e. k < fst e) m"

definition bt_between :: "'k::linorder \<Rightarrow> 'k \<Rightarrow> ('k, 'v) btree \<Rightarrow> ('k, 'v) btree" where
  \<comment> \<open>\<open>range(lo..=hi)\<close>\<close>
  "bt_between lo hi m = filter (\<lambda>e. lo \<le> fst e \<and> fst e \<le> hi) m"

definition bt_upto :: "'k::linorder \<Rightarrow> ('k, 'v) btree \<Rightarrow> ('k, 'v) btree" where
  \<comment> \<open>\<open>range(..=hi)\<close>\<close>
  "bt_upto hi m = filter (\<lambda>e. fst e \<le> hi) m"

section \<open>The interface\<close>

lemma length_filter_key:
  assumes "distinct (map fst xs)" "(k, v) \<in> set xs"
  shows "length (filter (\<lambda>e. fst e = k) xs) = 1"
proof -
  obtain ys zs where xs: "xs = ys @ (k, v) # zs" using assms(2) by (meson split_list)
  with assms(1) have "\<forall>e \<in> set ys \<union> set zs. fst e \<noteq> k" by force
  then have "filter (\<lambda>e. fst e = k) ys = []" "filter (\<lambda>e. fst e = k) zs = []"
    by (simp_all add: filter_empty_conv)
  then show ?thesis by (simp add: xs)
qed

locale ordered_map =
  fixes lookup :: "'m \<Rightarrow> 'k::linorder \<Rightarrow> 'v option"
    and ins :: "'k \<Rightarrow> 'v \<Rightarrow> 'm \<Rightarrow> 'm"
    and del :: "'k \<Rightarrow> 'm \<Rightarrow> 'm"
    and entries :: "'m \<Rightarrow> ('k \<times> 'v) list"
    and inv :: "'m \<Rightarrow> bool"
  assumes lookup_entries: "inv m \<Longrightarrow> lookup m k = map_of (entries m) k"
    and entries_sorted: "inv m \<Longrightarrow> sorted_wrt (<) (map fst (entries m))"
    and lookup_ins: "inv m \<Longrightarrow> lookup (ins k v m) k' = (if k' = k then Some v else lookup m k')"
    and lookup_del: "inv m \<Longrightarrow> lookup (del k m) k' = (if k' = k then None else lookup m k')"
    and inv_ins: "inv m \<Longrightarrow> inv (ins k v m)"
    and inv_del: "inv m \<Longrightarrow> inv (del k m)"
    and entries_del: "inv m \<Longrightarrow> entries (del k m) = filter (\<lambda>e. fst e \<noteq> k) (entries m)"
    and entries_ins_last:
      "inv m \<Longrightarrow> \<forall>e \<in> set (entries m). fst e < k \<Longrightarrow> entries (ins k v m) = entries m @ [(k, v)]"
begin

lemma entries_distinct: "inv m \<Longrightarrow> distinct (map fst (entries m))"
  using entries_sorted strict_sorted_iff by blast

lemma lookup_iff_entry: "inv m \<Longrightarrow> lookup m k = Some v \<longleftrightarrow> (k, v) \<in> set (entries m)"
  using lookup_entries entries_distinct by (simp add: map_of_eq_Some_iff)

lemma ins_fresh_last:
  assumes "inv m" "\<forall>e \<in> set (entries m). fst e < k"
  shows "length (entries (ins k v m)) = Suc (length (entries m))"
    and "last (entries (ins k v m)) = (k, v)"
  using assms by (simp_all add: entries_ins_last)

lemma ins_same_entries:
  assumes "inv m"
  shows "set (entries (ins k v m)) = insert (k, v) {e \<in> set (entries m). fst e \<noteq> k}"
proof -
  have "(k', v') \<in> set (entries (ins k v m)) \<longleftrightarrow>
      (k', v') \<in> insert (k, v) {e \<in> set (entries m). fst e \<noteq> k}" for k' v'
    using assms lookup_iff_entry [of "ins k v m" k' v'] lookup_iff_entry [of m k' v']
    by (auto simp: inv_ins lookup_ins split: if_splits)
  then show ?thesis by auto
qed

lemma del_length:
  assumes "inv m" "lookup m k = Some v"
  shows "Suc (length (entries (del k m))) = length (entries m)"
proof -
  have d: "distinct (map fst (entries m))" and e: "(k, v) \<in> set (entries m)"
    using assms entries_distinct lookup_iff_entry by blast+
  then have "length (filter (\<lambda>e. fst e = k) (entries m)) = 1"
    by (rule length_filter_key)
  then show ?thesis
    using sum_length_filter_compl [of "\<lambda>e. fst e = k" "entries m"] assms(1)
    by (simp add: entries_del)
qed

lemma del_other: "inv m \<Longrightarrow> lookup m k = None \<Longrightarrow> entries (del k m) = entries m"
  using lookup_iff_entry [of m k] by (auto simp: entries_del filter_id_conv)

end

section \<open>The association list implements it\<close>

lemma map_of_bt_insert:
  "bt_wf m \<Longrightarrow> map_of (bt_insert k v m) k' = (if k' = k then Some v else map_of m k')"
  by (induction m) (auto simp: bt_wf_def)

lemma set_bt_insert: "set (bt_insert k v m) \<subseteq> insert (k, v) (set m)"
  by (induction k v m rule: bt_insert.induct) auto

lemma bt_wf_insert: "bt_wf m \<Longrightarrow> bt_wf (bt_insert k v m)"
proof (induction k v m rule: bt_insert.induct)
  case (2 k v k' v' m)
  show ?case
  proof (cases "k' < k")
    case True
    with 2 have "bt_wf (bt_insert k v m)" by (simp add: bt_wf_def)
    moreover have "\<forall>e \<in> set (bt_insert k v m). k' < fst e"
      using set_bt_insert [of k v m] 2(2) True by (auto simp: bt_wf_def)
    ultimately show ?thesis using True by (auto simp: bt_wf_def)
  next
    case False
    with 2 show ?thesis by (auto simp: bt_wf_def)
  qed
qed (simp add: bt_wf_def)

lemma bt_wf_filter: "bt_wf m \<Longrightarrow> bt_wf (filter P m)"
  unfolding bt_wf_def by (induction m) auto

lemma map_of_filter_key:
  "map_of (filter (\<lambda>e. fst e \<noteq> k) m) k' = (if k' = k then None else map_of m k')"
  by (induction m) auto

lemma bt_insert_last:
  "\<forall>e \<in> set m. fst e < k \<Longrightarrow> bt_insert k v m = m @ [(k, v)]"
  by (induction m) (auto simp: not_less_iff_gr_or_eq)

interpretation bt: ordered_map bt_get bt_insert bt_remove "\<lambda>m. m" bt_wf
  by unfold_locales
    (simp_all add: bt_get_def map_of_bt_insert bt_remove_def map_of_filter_key bt_wf_insert
      bt_wf_filter bt_insert_last bt_wf_def [symmetric])

lemma bt_wf_Nil [simp]: "bt_wf []"
  by (simp add: bt_wf_def)

lemma bt_wf_remove [simp]: "bt_wf m \<Longrightarrow> bt_wf (bt_remove k m)"
  by (rule bt.inv_del)

lemma set_bt_remove [simp]: "set (bt_remove k m) = {e \<in> set m. fst e \<noteq> k}"
  by (auto simp: bt_remove_def)

lemma bt_get_remove [simp]: "bt_get (bt_remove k m) k' = (if k' = k then None else bt_get m k')"
  by (simp add: bt_get_def bt_remove_def map_of_filter_key)

lemma bt_get_Some_in: "bt_get m k = Some v \<Longrightarrow> (k, v) \<in> set m"
  by (simp add: bt_get_def map_of_SomeD)

lemma bt_get_Nil [simp]: "bt_get [] k = None"
  by (simp add: bt_get_def)

lemmas bt_simps = bt_get_def bt_remove_def bt_after_def bt_between_def bt_upto_def

end
