(* ===== verification/StoreTypes.thy ===== *)
theory StoreTypes
  imports Acls OrdMap
begin

text \<open>
  The types the storage trait, the backends and the handlers share: account types and accounts
  (\<open>types/accounts.rs\<close>), sessions, message metadata, forward-queue entries, statistics,
  deletion authority (\<open>store/types.rs\<close>), message-list elements and fetch options
  (\<open>types/messages.rs\<close>), ACL and administration replies (\<open>types/acls_handler.rs\<close>,
  \<open>types/administration.rs\<close>), the audit log (\<open>types/audit.rs\<close>) and the errors
  (\<open>errors.rs\<close>, \<open>types/problem_report.rs\<close>), all of \<open>mediator-common\<close>; and the
  pure decisions of \<open>store/ops.rs\<close>.

  Record fields carry a two-letter prefix because Isabelle's selectors share one name space.
\<close>

section \<open>Errors\<close>

datatype problem_report_sorter = SorterError | SorterWarning

datatype problem_report_scope = ScopeProtocol | ScopeMessage | ScopeOther string

fun show_sorter :: "problem_report_sorter \<Rightarrow> string" where
  "show_sorter SorterError = ''e''"
| "show_sorter SorterWarning = ''w''"

fun show_scope :: "problem_report_scope \<Rightarrow> string" where
  "show_scope ScopeProtocol = ''p''"
| "show_scope ScopeMessage = ''m''"
| "show_scope (ScopeOther s) = s"

record problem_report =
  pr_code :: string
  pr_comment :: string
  pr_args :: "string list"
  pr_escalate_to :: "string option"

definition problem_report_new ::
  "problem_report_sorter \<Rightarrow> problem_report_scope \<Rightarrow> string \<Rightarrow> string \<Rightarrow> string list \<Rightarrow>
   string option \<Rightarrow> problem_report" where
  "problem_report_new sorter scope descriptor comment args escalate_to =
     \<lparr>pr_code = show_sorter sorter @ ''.'' @ show_scope scope @ ''.'' @ descriptor,
      pr_comment = comment, pr_args = args, pr_escalate_to = escalate_to\<rparr>"

text \<open>The variants of \<open>MediatorError\<close> that the in-memory backend returns.\<close>

datatype store_error =
    InternalError nat string string
  | DatabaseError nat string string
  | SessionError nat string string

fun show_store_error :: "store_error \<Rightarrow> string" where
  "show_store_error (InternalError code sess msg) = msg"
| "show_store_error (DatabaseError code sess msg) = ''Database Error: '' @ msg"
| "show_store_error (SessionError code sess msg) =
     ''Authorization Session ('' @ sess @ '') error: '' @ msg"

datatype mediator_error =
    StoreError store_error
  | MediatorError nat string "string option" problem_report nat string

definition problem ::
  "nat \<Rightarrow> string \<Rightarrow> string option \<Rightarrow> problem_report_sorter \<Rightarrow> problem_report_scope \<Rightarrow> string \<Rightarrow>
   string \<Rightarrow> string list \<Rightarrow> nat \<Rightarrow> mediator_error" where
  "problem code session_id msg_id sorter scope descriptor comment args http_status =
     MediatorError code session_id msg_id
       (problem_report_new sorter scope descriptor comment args None) http_status comment"

definition problem_with_log ::
  "nat \<Rightarrow> string \<Rightarrow> string option \<Rightarrow> problem_report_sorter \<Rightarrow> problem_report_scope \<Rightarrow> string \<Rightarrow>
   string \<Rightarrow> string list \<Rightarrow> nat \<Rightarrow> string \<Rightarrow> mediator_error" where
  "problem_with_log code session_id msg_id sorter scope descriptor comment args http_status log_msg =
     MediatorError code session_id msg_id
       (problem_report_new sorter scope descriptor comment args None) http_status log_msg"

fun error_code :: "mediator_error \<Rightarrow> nat" where
  "error_code (StoreError (InternalError c s m)) = c"
| "error_code (StoreError (DatabaseError c s m)) = c"
| "error_code (StoreError (SessionError c s m)) = c"
| "error_code (MediatorError c s i p h l) = c"

section \<open>Accounts\<close>

datatype account_type = Mediator | RootAdmin | Admin | Standard | UnknownType

definition is_admin :: "account_type \<Rightarrow> bool" where
  "is_admin t = (t = Admin \<or> t = RootAdmin \<or> t = Mediator)"

fun show_account_type :: "account_type \<Rightarrow> string" where
  "show_account_type Mediator = ''Mediator''"
| "show_account_type RootAdmin = ''Root Admin''"
| "show_account_type Admin = ''Admin''"
| "show_account_type Standard = ''Standard''"
| "show_account_type UnknownType = ''Unknown''"

definition account_type_of_string :: "string \<Rightarrow> account_type" where
  "account_type_of_string s =
     (if s = ''0'' then Standard else if s = ''1'' then Admin
      else if s = ''2'' then RootAdmin else if s = ''3'' then Mediator else UnknownType)"

definition account_type_of_u32 :: "nat \<Rightarrow> account_type" where
  "account_type_of_u32 n =
     (if n = 0 then Standard else if n = 1 then Admin
      else if n = 2 then RootAdmin else if n = 3 then Mediator else UnknownType)"

fun string_of_account_type :: "account_type \<Rightarrow> string" where
  "string_of_account_type Mediator = ''3''"
| "string_of_account_type RootAdmin = ''2''"
| "string_of_account_type Admin = ''1''"
| "string_of_account_type Standard = ''0''"
| "string_of_account_type UnknownType = ''-1''"

record account =
  ac_did_hash :: string
  ac_acls :: "64 word"
  ac_type :: account_type
  ac_access_list_count :: nat
  ac_queue_send_limit :: "int option"
  ac_queue_receive_limit :: "int option"
  ac_send_queue_count :: nat
  ac_send_queue_bytes :: nat
  ac_receive_queue_count :: nat
  ac_receive_queue_bytes :: nat

section \<open>Sessions\<close>

datatype session_state = UnknownState | ChallengeSent | Authenticated | BlockedState

record session =
  ss_session_id :: string
  ss_challenge :: string
  ss_state :: session_state
  ss_did :: string
  ss_did_hash :: string
  ss_authenticated :: bool
  ss_acls :: mediator_acl_set
  ss_account_type :: account_type
  ss_expires_at :: nat
  ss_refresh_token_hash :: "string option"

definition default_session :: session where
  "default_session =
     \<lparr>ss_session_id = [], ss_challenge = [], ss_state = UnknownState, ss_did = [],
      ss_did_hash = [], ss_authenticated = False, ss_acls = default_acl_set,
      ss_account_type = Standard, ss_expires_at = 0, ss_refresh_token_hash = None\<rparr>"

definition session_state_try_from :: "string \<Rightarrow> store_error + session_state" where
  "session_state_try_from v =
     (if v = ''ChallengeSent'' then Inr ChallengeSent
      else if v = ''Authenticated'' then Inr Authenticated
      else if v = ''Blocked'' then Inr BlockedState
      else Inl (SessionError 20 ''NA'' (''Unknown session state: ('' @ v @ '')'')))"

definition session_from_fields ::
  "(string \<Rightarrow> string) \<Rightarrow> string \<Rightarrow> (string \<rightharpoonup> string) \<Rightarrow> session option" where
  "session_from_fields digest session_id flds =
     (case flds ''challenge'' of None \<Rightarrow> None | Some challenge \<Rightarrow>
      case flds ''state'' of None \<Rightarrow> None | Some st \<Rightarrow>
      let state = (if st = ''ChallengeSent'' then Some ChallengeSent
                   else if st = ''Authenticated'' then Some Authenticated
                   else if st = ''Blocked'' then Some BlockedState else None) in
      case state of None \<Rightarrow> None | Some state \<Rightarrow>
      case flds ''did'' of None \<Rightarrow> None | Some did \<Rightarrow>
      Some (default_session\<lparr>ss_session_id := session_id, ss_challenge := challenge,
        ss_state := state, ss_did := did, ss_did_hash := digest did,
        ss_authenticated := (state = Authenticated)\<rparr>))"

section \<open>Stream identifiers\<close>

datatype stream_id = StreamId (sid_ms: nat) (sid_seq: nat)

instantiation stream_id :: linorder
begin

definition less_eq_stream_id :: "stream_id \<Rightarrow> stream_id \<Rightarrow> bool" where
  "less_eq_stream_id a b \<longleftrightarrow> sid_ms a < sid_ms b \<or> sid_ms a = sid_ms b \<and> sid_seq a \<le> sid_seq b"

definition less_stream_id :: "stream_id \<Rightarrow> stream_id \<Rightarrow> bool" where
  "less_stream_id a b \<longleftrightarrow> sid_ms a < sid_ms b \<or> sid_ms a = sid_ms b \<and> sid_seq a < sid_seq b"

instance
  by standard
    (auto simp: less_eq_stream_id_def less_stream_id_def intro: stream_id.expand)

end

lemmas stream_id_order = less_eq_stream_id_def less_stream_id_def

definition format_stream_id :: "stream_id \<Rightarrow> string" where
  "format_stream_id i = show_nat (sid_ms i) @ ''-'' @ show_nat (sid_seq i)"

definition parse_stream_id :: "string \<Rightarrow> stream_id option" where
  "parse_stream_id s =
     (case split_once (CHR ''-'') s of None \<Rightarrow> None
      | Some (ms, sq) \<Rightarrow>
          (case u64_from_str_radix 10 ms of None \<Rightarrow> None
           | Some m \<Rightarrow> (case u64_from_str_radix 10 sq of None \<Rightarrow> None
                       | Some q \<Rightarrow> Some (StreamId m q))))"

section \<open>Messages\<close>

datatype message_protocol = DidComm | Tsp | OtherProtocol

definition detect_protocol :: "string \<Rightarrow> message_protocol" where
  "detect_protocol message =
     (if is_prefix ''-E'' message then Tsp
      else if is_prefix ''{'' message \<or> is_prefix ''ey'' message then DidComm
      else OtherProtocol)"

record message_list_element =
  me_msg_id :: string
  me_send_id :: "string option"
  me_receive_id :: "string option"
  me_size :: nat
  me_timestamp :: nat
  me_to_address :: "string option"
  me_from_address :: "string option"
  me_msg :: "string option"
  me_protocol :: "message_protocol option"

definition default_element :: message_list_element where
  "default_element =
     \<lparr>me_msg_id = [], me_send_id = None, me_receive_id = None, me_size = 0, me_timestamp = 0,
      me_to_address = None, me_from_address = None, me_msg = None, me_protocol = None\<rparr>"

datatype folder = Inbox | Outbox

datatype fetch_delete_policy = Optimistic | OnReceive | DoNotDelete

record fetch_options =
  fo_limit :: nat
  fo_start_id :: "string option"
  fo_delete_policy :: fetch_delete_policy

record get_messages_response =
  gr_success :: "message_list_element list"
  gr_get_errors :: "(string \<times> string) list"
  gr_delete_errors :: "(string \<times> string) list"

record message_meta_data =
  md_bytes :: nat
  md_to_did_hash :: string
  md_from_did_hash :: "string option"
  md_timestamp :: nat

record inbox_status_reply =
  is_recipient_did :: string
  is_message_count :: nat
  is_total_bytes :: nat
  is_oldest_received :: string
  is_newest_received :: string
  is_queue_count :: nat
  is_live_delivery :: bool

datatype deletion_authority = Owner string | AdminAuthority string

fun principal_did_hash :: "deletion_authority \<Rightarrow> string" where
  "principal_did_hash (Owner did_hash) = did_hash"
| "principal_did_hash (AdminAuthority admin_did_hash) = admin_did_hash"

datatype streaming_client_state = Registered | Live | Deregistered

record expiry_report =
  er_timeslots_swept :: nat
  er_expired :: nat
  er_already_deleted :: nat

record session_sweep_report =
  sr_scanned :: nat
  sr_expired :: nat

record forward_queue_entry =
  fe_stream_id :: string
  fe_message :: string
  fe_to_did_hash :: string
  fe_from_did_hash :: string
  fe_from_did :: string
  fe_to_did :: string
  fe_endpoint_url :: string
  fe_received_at_ms :: nat
  fe_delay_milli :: int
  fe_expires_at :: nat
  fe_retry_count :: nat
  fe_hop_count :: nat

datatype stat_counter =
    SentBytes | SentCount | WebsocketOpen | WebsocketClose | SessionsCreated | SessionsSuccess
  | OobInvitesCreated | OobInvitesClaimed

record metadata_stats =
  st_received_bytes :: int
  st_sent_bytes :: int
  st_deleted_bytes :: int
  st_received_count :: int
  st_sent_count :: int
  st_deleted_count :: int
  st_websocket_open :: int
  st_websocket_close :: int
  st_sessions_created :: int
  st_sessions_success :: int
  st_oob_invites_created :: int
  st_oob_invites_claimed :: int

definition stats_delta :: "metadata_stats \<Rightarrow> metadata_stats \<Rightarrow> metadata_stats" where
  "stats_delta now previous =
     \<lparr>st_received_bytes = wrap_i64 (st_received_bytes now - st_received_bytes previous),
      st_sent_bytes = wrap_i64 (st_sent_bytes now - st_sent_bytes previous),
      st_deleted_bytes = wrap_i64 (st_deleted_bytes now - st_deleted_bytes previous),
      st_received_count = wrap_i64 (st_received_count now - st_received_count previous),
      st_sent_count = wrap_i64 (st_sent_count now - st_sent_count previous),
      st_deleted_count = wrap_i64 (st_deleted_count now - st_deleted_count previous),
      st_websocket_open = wrap_i64 (st_websocket_open now - st_websocket_open previous),
      st_websocket_close = wrap_i64 (st_websocket_close now - st_websocket_close previous),
      st_sessions_created = wrap_i64 (st_sessions_created now - st_sessions_created previous),
      st_sessions_success = wrap_i64 (st_sessions_success now - st_sessions_success previous),
      st_oob_invites_created =
        wrap_i64 (st_oob_invites_created now - st_oob_invites_created previous),
      st_oob_invites_claimed =
        wrap_i64 (st_oob_invites_claimed now - st_oob_invites_claimed previous)\<rparr>"

section \<open>ACL replies, administration, audit log\<close>

record mediator_acl_expanded =
  ae_did_hash :: string
  ae_acl_value :: string
  ae_acls :: mediator_acl_set

datatype audit_action =
    AuditSetAcl | AuditAccessListAdd | AuditAccessListRemove | AuditAccessListClear
  | AuditAccountAdd | AuditAccountRemove | AuditAccountChangeType
  | AuditAccountChangeQueueLimits | AuditAdminAdd | AuditAdminStrip

record audit_log_entry =
  al_timestamp :: nat
  al_actor_did_hash :: string
  al_target_did_hash :: string
  al_action :: audit_action
  al_detail :: string

definition audit_log_max_entries :: nat where
  "audit_log_max_entries = 10000"

record admin_account =
  aa_did_hash :: string
  aa_type :: account_type

section \<open>Decisions shared by the backends (store/ops.rs)\<close>

fun delete_message_permitted :: "deletion_authority \<Rightarrow> string \<Rightarrow> string option \<Rightarrow> bool" where
  "delete_message_permitted (AdminAuthority adm) to_did_hash from_did_hash = True"
| "delete_message_permitted (Owner did_hash) to_did_hash from_did_hash =
     (did_hash = to_did_hash \<or> from_did_hash = Some did_hash)"

datatype sender = Anonymous | Known bool \<comment> \<open>whether the sender is on the recipient's access list\<close>

fun access_list_allowed_op :: "mediator_acl_set \<Rightarrow> sender \<Rightarrow> bool" where
  "access_list_allowed_op recipient_acls Anonymous = fst (get_anon_receive recipient_acls)"
| "access_list_allowed_op recipient_acls (Known on_access_list) =
     (case fst (get_access_list_mode recipient_acls) of
        ExplicitAllow \<Rightarrow> on_access_list
      | ExplicitDeny \<Rightarrow> \<not> on_access_list)"

section \<open>Round trips\<close>

lemma account_type_round_trip:
  "account_type_of_string (string_of_account_type t) = t"
  by (cases t) (simp_all add: account_type_of_string_def)

lemma show_nat_no_dash: "CHR ''-'' \<notin> set (show_nat n)"
  unfolding show_nat_def by (rule show_radix_plus) simp_all

lemma parse_format_stream_id:
  assumes "sid_ms i \<le> u64_max" "sid_seq i \<le> u64_max"
  shows "parse_stream_id (format_stream_id i) = Some i"
proof -
  have "split_once (CHR ''-'') (format_stream_id i) = Some (show_nat (sid_ms i), show_nat (sid_seq i))"
    using split_once_append [OF show_nat_no_dash] by (simp add: format_stream_id_def)
  with assms show ?thesis
    by (simp add: parse_stream_id_def show_nat_def from_str_radix_show)
qed

lemma format_stream_id_inj:
  assumes "format_stream_id i = format_stream_id j"
    and "sid_ms i \<le> u64_max" "sid_seq i \<le> u64_max" "sid_ms j \<le> u64_max" "sid_seq j \<le> u64_max"
  shows "i = j"
proof -
  have "Some i = parse_stream_id (format_stream_id j)"
    using assms parse_format_stream_id [of i] by metis
  also have "\<dots> = Some j" using assms(4,5) by (rule parse_format_stream_id)
  finally show ?thesis by simp
qed

end
