(* ===== verification/MemState.thy ===== *)
theory MemState
  imports StoreTypes
begin

text \<open>
  The state of the in-memory backend (\<open>mediator/src/store/memory_store.rs\<close>): the record
  \<open>memory_state\<close> with the fields of \<open>MemoryState\<close>, and its private helpers (stream-id
  allocation, the expiry index, lazy session expiry, counters).

  A \<open>HashMap\<close> that is only looked up is a map; \<open>sessions\<close>, whose length is reported, is
  an association list with distinct keys; a \<open>HashSet\<close> is a distinct list in some iteration
  order; a \<open>BTreeMap\<close> is the ordered map of theory \<open>OrdMap\<close>. Clocks are arguments:
  each \<open>now_ms()\<close>, \<open>Instant::now()\<close> or \<open>unix_timestamp_secs()\<close> of the source is one
  argument. Every method of the source holds one mutex for its whole critical section, so a
  critical section is one function from state to state.

  The lemmas show that allocated stream ids strictly increase and how the helpers change the state.
\<close>

section \<open>Records\<close>

record message_record =
  mr_body :: string
  mr_bytes :: nat
  mr_to_did_hash :: string
  mr_from_did_hash :: "string option"
  mr_timestamp_ms :: nat
  mr_receive_id :: stream_id
  mr_send_id :: "stream_id option"
  mr_expires_at :: nat

record stream_entry =
  se_msg_id :: string
  se_bytes :: nat
  se_peer_did :: string

record account_record =
  ar_role :: account_type
  ar_acls :: mediator_acl_set
  ar_send_queue_count :: nat
  ar_send_queue_bytes :: nat
  ar_receive_queue_count :: nat
  ar_receive_queue_bytes :: nat
  ar_queue_send_limit :: "int option"
  ar_queue_receive_limit :: "int option"

definition default_account_record :: account_record where
  "default_account_record =
     \<lparr>ar_role = Standard, ar_acls = default_acl_set, ar_send_queue_count = 0,
      ar_send_queue_bytes = 0, ar_receive_queue_count = 0, ar_receive_queue_bytes = 0,
      ar_queue_send_limit = None, ar_queue_receive_limit = None\<rparr>"

definition into_account :: "account_record \<Rightarrow> string \<Rightarrow> nat \<Rightarrow> account" where
  "into_account r did_hash access_list_count =
     \<lparr>ac_did_hash = did_hash, ac_acls = to_u64 (ar_acls r), ac_type = ar_role r,
      ac_access_list_count = access_list_count,
      ac_queue_send_limit = ar_queue_send_limit r,
      ac_queue_receive_limit = ar_queue_receive_limit r,
      ac_send_queue_count = ar_send_queue_count r, ac_send_queue_bytes = ar_send_queue_bytes r,
      ac_receive_queue_count = ar_receive_queue_count r,
      ac_receive_queue_bytes = ar_receive_queue_bytes r\<rparr>"

record session_record =
  sn_session :: session
  sn_expires_at :: nat

record oob_invite =
  oi_invite_b64 :: string
  oi_did_hash :: string
  oi_expires_at :: nat

record pending_claim =
  pc_consumer :: string
  pc_claimed_at :: nat
  pc_delivery_count :: nat

record consumer_group_state =
  cg_pending :: "(stream_id, pending_claim) btree"
  cg_last_delivered :: stream_id

definition default_group :: consumer_group_state where
  "default_group = \<lparr>cg_pending = [], cg_last_delivered = StreamId 0 0\<rparr>"

record memory_state =
  messages :: "string \<rightharpoonup> message_record"
  inbox :: "string \<rightharpoonup> (stream_id, stream_entry) btree"
  outbox :: "string \<rightharpoonup> (stream_id, stream_entry) btree"
  expiry :: "(nat, string set_list) btree"
  sessions :: "(string, session_record) hash_map"
  accounts :: "string \<rightharpoonup> account_record"
  known_dids :: "string list"
  access_lists :: "string \<rightharpoonup> string list"
  admins :: "string set_list"
  audit_log :: "audit_log_entry list"
  oob_invites :: "string \<rightharpoonup> oob_invite"
  forward_queue :: "(stream_id, forward_queue_entry) btree"
  forward_groups :: "string \<rightharpoonup> consumer_group_state"
  counters :: "string \<rightharpoonup> int"
  streaming_clients :: "string \<rightharpoonup> string \<times> streaming_client_state"
  last_stream_ms :: nat
  next_stream_seq :: nat

definition empty_state :: memory_state where
  "empty_state =
     \<lparr>messages = Map.empty, inbox = Map.empty, outbox = Map.empty, expiry = [], sessions = [],
      accounts = Map.empty, known_dids = [], access_lists = Map.empty, admins = [],
      audit_log = [], oob_invites = Map.empty, forward_queue = [], forward_groups = Map.empty,
      counters = Map.empty, streaming_clients = Map.empty, last_stream_ms = 0,
      next_stream_seq = 0\<rparr>"

section \<open>Helpers of MemoryState\<close>

definition or_default :: "'a \<Rightarrow> 'a option \<Rightarrow> 'a" where
  "or_default d x = (case x of None \<Rightarrow> d | Some a \<Rightarrow> a)"

definition alloc_stream_id :: "nat \<Rightarrow> memory_state \<Rightarrow> stream_id \<times> memory_state" where
  "alloc_stream_id now s =
     (let s' = (if now > last_stream_ms s then s\<lparr>last_stream_ms := now, next_stream_seq := 0\<rparr>
                else s\<lparr>next_stream_seq := wrap_u64 (next_stream_seq s + 1)\<rparr>)
      in (StreamId (last_stream_ms s') (next_stream_seq s'), s'))"

definition index_expiry :: "nat \<Rightarrow> string \<Rightarrow> memory_state \<Rightarrow> memory_state" where
  "index_expiry expires_at msg_id s =
     (if expires_at = 0 then s
      else s\<lparr>expiry := bt_insert expires_at
              (push_new msg_id (or_default [] (bt_get (expiry s) expires_at))) (expiry s)\<rparr>)"

definition unindex_expiry :: "nat \<Rightarrow> string \<Rightarrow> memory_state \<Rightarrow> memory_state" where
  "unindex_expiry expires_at msg_id s =
     (if expires_at = 0 then s
      else case bt_get (expiry s) expires_at of
             None \<Rightarrow> s
           | Some ids \<Rightarrow>
               let ids' = filter (\<lambda>i. i \<noteq> msg_id) ids in
               if ids' = [] then s\<lparr>expiry := bt_remove expires_at (expiry s)\<rparr>
               else s\<lparr>expiry := bt_insert expires_at ids' (expiry s)\<rparr>)"

definition get_session_record ::
  "nat \<Rightarrow> string \<Rightarrow> memory_state \<Rightarrow> session_record option \<times> memory_state" where
  "get_session_record now session_id s =
     (let expired = (case map_of (sessions s) session_id of
                       None \<Rightarrow> False | Some r \<Rightarrow> sn_expires_at r \<le> now) in
      if expired then (None, s\<lparr>sessions := AList.delete session_id (sessions s)\<rparr>)
      else (map_of (sessions s) session_id, s))"

definition incr_counter :: "string \<Rightarrow> int \<Rightarrow> memory_state \<Rightarrow> memory_state" where
  "incr_counter key by_n s =
     s\<lparr>counters := (counters s)(key \<mapsto> wrap_i64 (or_default 0 (counters s key) + by_n))\<rparr>"

fun counter_key :: "stat_counter \<Rightarrow> string" where
  "counter_key SentBytes = ''SENT_BYTES''"
| "counter_key SentCount = ''SENT_COUNT''"
| "counter_key WebsocketOpen = ''WEBSOCKET_OPEN''"
| "counter_key WebsocketClose = ''WEBSOCKET_CLOSE''"
| "counter_key SessionsCreated = ''SESSIONS_CREATED''"
| "counter_key SessionsSuccess = ''SESSIONS_SUCCESS''"
| "counter_key OobInvitesCreated = ''OOB_INVITES_CREATED''"
| "counter_key OobInvitesClaimed = ''OOB_INVITES_CLAIMED''"

abbreviation acct :: "memory_state \<Rightarrow> string \<Rightarrow> account_record" where
  "acct s d \<equiv> or_default default_account_record (accounts s d)"

abbreviation stream_of :: "(string \<rightharpoonup> (stream_id, stream_entry) btree) \<Rightarrow> string \<Rightarrow>
    (stream_id, stream_entry) btree" where
  "stream_of f d \<equiv> or_default [] (f d)"

definition last_id :: "memory_state \<Rightarrow> stream_id" where
  "last_id s = StreamId (last_stream_ms s) (next_stream_seq s)"

section \<open>Facts about the helpers\<close>

lemma or_default_simps [simp]: "or_default d None = d" "or_default d (Some a) = a"
  by (simp_all add: or_default_def)

lemma alloc_increases:
  assumes "next_stream_seq s < u64_max" "alloc_stream_id now s = (i, s')"
  shows "last_id s < i" "i = last_id s'" "next_stream_seq s' \<le> Suc (next_stream_seq s)"
  using assms
  by (auto simp: alloc_stream_id_def last_id_def stream_id_order Let_def wrap_u64_def u64_max_def
      split: if_splits)

lemma alloc_frame:
  assumes "alloc_stream_id now s = (i, s')"
  shows "s' = s\<lparr>last_stream_ms := sid_ms i, next_stream_seq := sid_seq i\<rparr>"
  using assms by (auto simp: alloc_stream_id_def Let_def split: if_splits)

lemma index_expiry_frame:
  "index_expiry t m s = s\<lparr>expiry := expiry (index_expiry t m s)\<rparr>"
  by (simp add: index_expiry_def)

lemma unindex_expiry_frame:
  "unindex_expiry t m s = s\<lparr>expiry := expiry (unindex_expiry t m s)\<rparr>"
  by (simp add: unindex_expiry_def Let_def split: option.splits)

lemma expiry_cong: "expiry s = expiry s' \<Longrightarrow> expiry (index_expiry t m s) = expiry (index_expiry t m s')"
  by (simp add: index_expiry_def)

definition indexed :: "(nat, string set_list) btree \<Rightarrow> nat \<Rightarrow> string \<Rightarrow> bool" where
  "indexed e t m = (m \<in> set (or_default [] (bt_get e t)))"

lemma indexed_index:
  "bt_wf (expiry s) \<Longrightarrow>
   indexed (expiry (index_expiry t m s)) t' m' =
     (t' = t \<and> m' = m \<and> t \<noteq> 0 \<or> indexed (expiry s) t' m')"
  by (auto simp: index_expiry_def indexed_def bt.lookup_ins)

lemma indexed_unindex:
  "bt_wf (expiry s) \<Longrightarrow>
   indexed (expiry (unindex_expiry t m s)) t' m' =
     (indexed (expiry s) t' m' \<and> \<not> (t' = t \<and> m' = m \<and> t \<noteq> 0))"
proof -
  assume "bt_wf (expiry s)"
  then show ?thesis
    by (auto simp: unindex_expiry_def indexed_def bt.lookup_ins Let_def filter_empty_conv
        split: option.splits)
qed

lemma bt_wf_index [simp]: "bt_wf (expiry s) \<Longrightarrow> bt_wf (expiry (index_expiry t m s))"
  by (simp add: index_expiry_def bt_wf_insert)

lemma bt_wf_unindex [simp]: "bt_wf (expiry s) \<Longrightarrow> bt_wf (expiry (unindex_expiry t m s))"
  by (simp add: unindex_expiry_def bt_wf_insert Let_def split: option.splits)

lemma incr_counter_simps [simp]:
  "messages (incr_counter k n s) = messages s" "inbox (incr_counter k n s) = inbox s"
  "outbox (incr_counter k n s) = outbox s" "expiry (incr_counter k n s) = expiry s"
  "sessions (incr_counter k n s) = sessions s" "accounts (incr_counter k n s) = accounts s"
  "known_dids (incr_counter k n s) = known_dids s"
  "access_lists (incr_counter k n s) = access_lists s" "admins (incr_counter k n s) = admins s"
  "audit_log (incr_counter k n s) = audit_log s" "oob_invites (incr_counter k n s) = oob_invites s"
  "forward_queue (incr_counter k n s) = forward_queue s"
  "forward_groups (incr_counter k n s) = forward_groups s"
  "streaming_clients (incr_counter k n s) = streaming_clients s"
  "last_stream_ms (incr_counter k n s) = last_stream_ms s"
  "next_stream_seq (incr_counter k n s) = next_stream_seq s"
  by (simp_all add: incr_counter_def)

lemma index_expiry_simps [simp]:
  "messages (index_expiry t m s) = messages s" "inbox (index_expiry t m s) = inbox s"
  "outbox (index_expiry t m s) = outbox s" "sessions (index_expiry t m s) = sessions s"
  "accounts (index_expiry t m s) = accounts s" "known_dids (index_expiry t m s) = known_dids s"
  "access_lists (index_expiry t m s) = access_lists s" "admins (index_expiry t m s) = admins s"
  "audit_log (index_expiry t m s) = audit_log s" "oob_invites (index_expiry t m s) = oob_invites s"
  "forward_queue (index_expiry t m s) = forward_queue s"
  "forward_groups (index_expiry t m s) = forward_groups s"
  "counters (index_expiry t m s) = counters s"
  "streaming_clients (index_expiry t m s) = streaming_clients s"
  "last_stream_ms (index_expiry t m s) = last_stream_ms s"
  "next_stream_seq (index_expiry t m s) = next_stream_seq s"
  by (simp_all add: index_expiry_def)

lemma unindex_expiry_simps [simp]:
  "messages (unindex_expiry t m s) = messages s" "inbox (unindex_expiry t m s) = inbox s"
  "outbox (unindex_expiry t m s) = outbox s" "sessions (unindex_expiry t m s) = sessions s"
  "accounts (unindex_expiry t m s) = accounts s" "known_dids (unindex_expiry t m s) = known_dids s"
  "access_lists (unindex_expiry t m s) = access_lists s" "admins (unindex_expiry t m s) = admins s"
  "audit_log (unindex_expiry t m s) = audit_log s"
  "oob_invites (unindex_expiry t m s) = oob_invites s"
  "forward_queue (unindex_expiry t m s) = forward_queue s"
  "forward_groups (unindex_expiry t m s) = forward_groups s"
  "counters (unindex_expiry t m s) = counters s"
  "streaming_clients (unindex_expiry t m s) = streaming_clients s"
  "last_stream_ms (unindex_expiry t m s) = last_stream_ms s"
  "next_stream_seq (unindex_expiry t m s) = next_stream_seq s"
  by (simp_all add: unindex_expiry_def Let_def split: option.splits)

end
