(* ===== verification/MemMessages.thy ===== *)
theory MemMessages
  imports MemState
begin

text \<open>
  Messages, inbox and outbox of the in-memory backend (\<open>memory_store.rs\<close>): storing, deleting,
  reading, listing, fetching and purging messages, the inbox status and the expiry sweep.

  SHA-256 (\<open>sha256::digest\<close>, a third-party crate) is the parameter \<open>digest\<close>.
  \<open>fetch_messages\<close>, \<open>purge_folder\<close> and \<open>sweep_expired_messages\<close> take a snapshot under
  the mutex and then call \<open>delete_message\<close> in a loop; they are modelled as that sequence of
  critical sections, run without interference.

  The lemmas give the effect of each critical section on each part of the state.
\<close>

section \<open>Storing and deleting\<close>

definition anonymous :: string where
  "anonymous = ''ANONYMOUS''"

definition sender_name :: "string option \<Rightarrow> string" where
  \<comment> \<open>\<open>from_hash.filter(|s| !s.is_empty()).unwrap_or("ANONYMOUS")\<close>\<close>
  "sender_name from_hash =
     (case from_hash of None \<Rightarrow> anonymous | Some h \<Rightarrow> if h = [] then anonymous else h)"

definition put_stream ::
  "string \<Rightarrow> stream_id \<Rightarrow> stream_entry \<Rightarrow> (string \<rightharpoonup> (stream_id, stream_entry) btree) \<Rightarrow>
   (string \<rightharpoonup> (stream_id, stream_entry) btree)" where
  \<comment> \<open>\<open>entry(did).or_default().insert(id, e)\<close>\<close>
  "put_stream did i e f = f(did \<mapsto> bt_insert i e (stream_of f did))"

definition count_sent :: "nat \<Rightarrow> account_record \<Rightarrow> account_record" where
  "count_sent bytes r =
     r\<lparr>ar_send_queue_count := sat_add u32_max (ar_send_queue_count r) 1,
       ar_send_queue_bytes := sat_add u64_max (ar_send_queue_bytes r) bytes\<rparr>"

definition count_received :: "nat \<Rightarrow> account_record \<Rightarrow> account_record" where
  "count_received bytes r =
     r\<lparr>ar_receive_queue_count := sat_add u32_max (ar_receive_queue_count r) 1,
       ar_receive_queue_bytes := sat_add u64_max (ar_receive_queue_bytes r) bytes\<rparr>"

definition store_message ::
  "(string \<Rightarrow> string) \<Rightarrow> nat \<Rightarrow> nat \<Rightarrow> nat \<Rightarrow> string \<Rightarrow> string \<Rightarrow> string option \<Rightarrow> nat \<Rightarrow>
   memory_state \<Rightarrow> string \<times> memory_state" where
  \<comment> \<open>\<open>ts_ms\<close>, \<open>now1\<close>, \<open>now2\<close>: the three readings of the clock, in order\<close>
  "store_message digest ts_ms now1 now2 message to_did_hash from_hash expires_at s0 =
     (let msg_id = digest message;
          bytes = length message;
          from = sender_name from_hash;
          (receive_id, s1) = alloc_stream_id now1 s0;
          (send_id, s2) = (if from \<noteq> anonymous
                           then (let (i, s) = alloc_stream_id now2 s1 in (Some i, s))
                           else (None, s1));
          s3 = s2\<lparr>inbox := put_stream to_did_hash receive_id
                    \<lparr>se_msg_id = msg_id, se_bytes = bytes, se_peer_did = from\<rparr> (inbox s2)\<rparr>;
          s4 = (case send_id of
                  None \<Rightarrow> s3
                | Some sid \<Rightarrow>
                    s3\<lparr>outbox := put_stream from sid
                         \<lparr>se_msg_id = msg_id, se_bytes = bytes, se_peer_did = to_did_hash\<rparr> (outbox s3),
                       accounts := (accounts s3)(from \<mapsto> count_sent bytes (acct s3 from))\<rparr>);
          s5 = s4\<lparr>accounts := (accounts s4)(to_did_hash \<mapsto> count_received bytes (acct s4 to_did_hash))\<rparr>;
          s6 = incr_counter ''RECEIVED_BYTES'' (wrap_i64 (int bytes)) s5;
          s7 = incr_counter ''RECEIVED_COUNT'' 1 s6;
          s8 = index_expiry expires_at msg_id s7;
          s9 = s8\<lparr>messages := (messages s8)(msg_id \<mapsto>
                 \<lparr>mr_body = message, mr_bytes = bytes, mr_to_did_hash = to_did_hash,
                  mr_from_did_hash = (if from = anonymous then None else Some from),
                  mr_timestamp_ms = ts_ms, mr_receive_id = receive_id, mr_send_id = send_id,
                  mr_expires_at = expires_at\<rparr>)\<rparr>
      in (msg_id, s9))"

definition drop_stream ::
  "string \<Rightarrow> stream_id \<Rightarrow> (string \<rightharpoonup> (stream_id, stream_entry) btree) \<Rightarrow>
   (string \<rightharpoonup> (stream_id, stream_entry) btree)" where
  \<comment> \<open>\<open>if let Some(stream) = get_mut(did) { stream.remove(id) }\<close>\<close>
  "drop_stream did i f = (case f did of None \<Rightarrow> f | Some m \<Rightarrow> f(did \<mapsto> bt_remove i m))"

definition uncount_sent :: "nat \<Rightarrow> account_record \<Rightarrow> account_record" where
  "uncount_sent bytes r =
     r\<lparr>ar_send_queue_count := sat_sub (ar_send_queue_count r) 1,
       ar_send_queue_bytes := sat_sub (ar_send_queue_bytes r) bytes\<rparr>"

definition uncount_received :: "nat \<Rightarrow> account_record \<Rightarrow> account_record" where
  "uncount_received bytes r =
     r\<lparr>ar_receive_queue_count := sat_sub (ar_receive_queue_count r) 1,
       ar_receive_queue_bytes := sat_sub (ar_receive_queue_bytes r) bytes\<rparr>"

definition on_account ::
  "string \<Rightarrow> (account_record \<Rightarrow> account_record) \<Rightarrow> memory_state \<Rightarrow> memory_state" where
  \<comment> \<open>\<open>if let Some(record) = accounts.get_mut(did) { ... }\<close>\<close>
  "on_account did f s =
     (case accounts s did of None \<Rightarrow> s | Some r \<Rightarrow> s\<lparr>accounts := (accounts s)(did \<mapsto> f r)\<rparr>)"

definition remove_record :: "string \<Rightarrow> message_record \<Rightarrow> memory_state \<Rightarrow> memory_state" where
  \<comment> \<open>the body of \<open>delete_message\<close> after the authorisation check\<close>
  "remove_record message_hash record s0 =
     (let s1 = s0\<lparr>inbox := drop_stream (mr_to_did_hash record) (mr_receive_id record) (inbox s0)\<rparr>;
          s2 = (case (mr_from_did_hash record, mr_send_id record) of
                  (Some from, Some sid) \<Rightarrow>
                    on_account from (uncount_sent (mr_bytes record))
                      (s1\<lparr>outbox := drop_stream from sid (outbox s1)\<rparr>)
                | _ \<Rightarrow> s1);
          s3 = on_account (mr_to_did_hash record) (uncount_received (mr_bytes record)) s2;
          s4 = unindex_expiry (mr_expires_at record) message_hash s3;
          s5 = incr_counter ''DELETED_BYTES'' (wrap_i64 (int (mr_bytes record))) s4;
          s6 = incr_counter ''DELETED_COUNT'' 1 s5
      in s6\<lparr>messages := (messages s6)(message_hash := None)\<rparr>)"

definition delete_message ::
  "string \<Rightarrow> deletion_authority \<Rightarrow> memory_state \<Rightarrow> (store_error + unit) \<times> memory_state" where
  "delete_message message_hash by_whom s =
     (case messages s message_hash of
        None \<Rightarrow> (Inl (InternalError 404 ''memory''
                  (''NOT_FOUND: message_hash ('' @ message_hash @ '')'')), s)
      | Some record \<Rightarrow>
          if \<not> delete_message_permitted by_whom (mr_to_did_hash record) (mr_from_did_hash record)
          then (Inl (InternalError 403 ''memory''
                  ''PERMISSION_DENIED: requesting DID does not own this message''), s)
          else (Inr (), remove_record message_hash record s))"

section \<open>Reading\<close>

definition get_message :: "string \<Rightarrow> string \<Rightarrow> memory_state \<Rightarrow> message_list_element option" where
  "get_message did_hash msg_id s =
     (case messages s msg_id of
        None \<Rightarrow> None
      | Some record \<Rightarrow>
          let is_to = (did_hash = mr_to_did_hash record);
              is_from = (case mr_from_did_hash record of None \<Rightarrow> False | Some f \<Rightarrow> f = did_hash) in
          if \<not> is_to \<and> \<not> is_from then None
          else Some \<lparr>me_msg_id = msg_id, me_send_id = map_option format_stream_id (mr_send_id record),
                 me_receive_id = Some (format_stream_id (mr_receive_id record)),
                 me_size = mr_bytes record, me_timestamp = mr_timestamp_ms record,
                 me_to_address = Some (mr_to_did_hash record),
                 me_from_address = mr_from_did_hash record, me_msg = Some (mr_body record),
                 me_protocol = Some (detect_protocol (mr_body record))\<rparr>)"

definition get_message_metadata ::
  "string \<Rightarrow> string \<Rightarrow> memory_state \<Rightarrow> store_error + message_meta_data" where
  "get_message_metadata session_id message_hash s =
     (case messages s message_hash of
        None \<Rightarrow> Inl (DatabaseError 14 session_id (''Message metadata not found for '' @ message_hash))
      | Some record \<Rightarrow>
          Inr \<lparr>md_bytes = mr_bytes record, md_to_did_hash = mr_to_did_hash record,
               md_from_did_hash = mr_from_did_hash record, md_timestamp = mr_timestamp_ms record\<rparr>)"

fun folder_stream :: "folder \<Rightarrow> string \<Rightarrow> memory_state \<Rightarrow> (stream_id, stream_entry) btree option" where
  "folder_stream Inbox did_hash s = inbox s did_hash"
| "folder_stream Outbox did_hash s = outbox s did_hash"

definition list_element :: "folder \<Rightarrow> stream_id \<times> stream_entry \<Rightarrow> message_list_element" where
  "list_element folder se =
     (let (sid, entry) = se;
          element = default_element\<lparr>me_msg_id := se_msg_id entry, me_size := se_bytes entry,
                      me_timestamp := sid_ms sid\<rparr>
      in case folder of
           Inbox \<Rightarrow> element\<lparr>me_receive_id := Some (format_stream_id sid),
                      me_from_address := Some (se_peer_did entry)\<rparr>
         | Outbox \<Rightarrow> element\<lparr>me_send_id := Some (format_stream_id sid),
                      me_to_address := Some (se_peer_did entry)\<rparr>)"

definition list_messages ::
  "string \<Rightarrow> folder \<Rightarrow> (string \<times> string) option \<Rightarrow> nat \<Rightarrow> memory_state \<Rightarrow> message_list_element list option" where
  \<comment> \<open>\<open>None\<close>: \<open>BTreeMap::range\<close> panics for a start behind the end\<close>
  "list_messages did_hash folder rng limit s =
     (case folder_stream folder did_hash s of
        None \<Rightarrow> Some []
      | Some stream \<Rightarrow>
          let (start, fin) = or_default (''-'', ''+'') rng;
              start_id = (if start = ''-'' then StreamId 0 0
                          else or_default (StreamId 0 0) (parse_stream_id start));
              end_id = (if fin = ''+'' then StreamId u64_max u64_max
                        else or_default (StreamId u64_max u64_max) (parse_stream_id fin))
          in if end_id < start_id then None
             else Some (map (list_element folder) (take limit (bt_between start_id end_id stream))))"

fun fetch_loop ::
  "string \<Rightarrow> bool \<Rightarrow> (stream_id \<times> stream_entry) list \<Rightarrow> get_messages_response \<Rightarrow> memory_state \<Rightarrow>
   get_messages_response \<times> memory_state" where
  "fetch_loop did_hash optimistic_delete [] response s = (response, s)"
| "fetch_loop did_hash optimistic_delete ((sid, entry) # entries) response s =
     (let body = map_option mr_body (messages s (se_msg_id entry));
          element = default_element\<lparr>me_msg_id := se_msg_id entry,
                      me_receive_id := Some (format_stream_id sid), me_size := se_bytes entry,
                      me_timestamp := sid_ms sid, me_from_address := Some (se_peer_did entry),
                      me_to_address := Some did_hash, me_msg := body\<rparr>
      in if optimistic_delete then
           (case delete_message (se_msg_id entry) (Owner did_hash) s of
              (Inl e, s') \<Rightarrow>
                fetch_loop did_hash optimistic_delete entries
                  (response\<lparr>gr_delete_errors := gr_delete_errors response @ [(se_msg_id entry, show_store_error e)],
                     gr_success := gr_success response @ [element\<lparr>me_msg := None\<rparr>]\<rparr>) s'
            | (Inr _, s') \<Rightarrow>
                fetch_loop did_hash optimistic_delete entries
                  (response\<lparr>gr_success := gr_success response @ [element]\<rparr>) s')
         else fetch_loop did_hash optimistic_delete entries
                (response\<lparr>gr_success := gr_success response @ [element]\<rparr>) s)"

definition fetch_messages ::
  "string \<Rightarrow> fetch_options \<Rightarrow> memory_state \<Rightarrow> get_messages_response \<times> memory_state" where
  "fetch_messages did_hash options s =
     (let start = (case fo_start_id options of None \<Rightarrow> None | Some t \<Rightarrow> parse_stream_id t);
          limit = fo_limit options;
          optimistic_delete = (fo_delete_policy options = Optimistic);
          response = \<lparr>gr_success = [], gr_get_errors = [], gr_delete_errors = []\<rparr>
      in case inbox s did_hash of
           None \<Rightarrow> (response, s)
         | Some stream \<Rightarrow>
             let entries = take limit (case start of Some i \<Rightarrow> bt_after i stream | None \<Rightarrow> stream)
             in fetch_loop did_hash optimistic_delete entries response s)"

section \<open>Purging and status\<close>

definition delete_folder_stream :: "string \<Rightarrow> folder \<Rightarrow> memory_state \<Rightarrow> memory_state" where
  "delete_folder_stream did_hash folder s =
     (case folder of
        Inbox \<Rightarrow> s\<lparr>inbox := (inbox s)(did_hash := None)\<rparr>
      | Outbox \<Rightarrow> s\<lparr>outbox := (outbox s)(did_hash := None)\<rparr>)"

fun purge_loop ::
  "string \<Rightarrow> string list \<Rightarrow> nat \<Rightarrow> nat \<Rightarrow> memory_state \<Rightarrow> (nat \<times> nat) \<times> memory_state" where
  "purge_loop did_hash [] count bytes s = ((count, bytes), s)"
| "purge_loop did_hash (msg_id # msg_ids) count bytes s =
     (let bytes_before = (case messages s msg_id of None \<Rightarrow> 0 | Some r \<Rightarrow> mr_bytes r)
      in case delete_message msg_id (Owner did_hash) s of
           (Inl _, s') \<Rightarrow> purge_loop did_hash msg_ids count bytes s'
         | (Inr _, s') \<Rightarrow> purge_loop did_hash msg_ids (count + 1) (bytes + bytes_before) s')"

definition purge_folder :: "string \<Rightarrow> folder \<Rightarrow> memory_state \<Rightarrow> (nat \<times> nat) \<times> memory_state" where
  "purge_folder did_hash folder s =
     (let msg_ids = (case folder_stream folder did_hash s of None \<Rightarrow> []
                     | Some stream \<Rightarrow> map (\<lambda>e. se_msg_id (snd e)) stream);
          (totals, s') = purge_loop did_hash msg_ids 0 0 s
      in (totals, delete_folder_stream did_hash folder s'))"

definition inbox_status :: "string \<Rightarrow> memory_state \<Rightarrow> inbox_status_reply" where
  "inbox_status did_hash s =
     (let reply = \<lparr>is_recipient_did = did_hash, is_message_count = 0, is_total_bytes = 0,
                   is_oldest_received = [], is_newest_received = [], is_queue_count = 0,
                   is_live_delivery = False\<rparr>;
          reply = (case inbox s did_hash of None \<Rightarrow> reply
                   | Some stream \<Rightarrow>
                       let reply = reply\<lparr>is_queue_count := length stream\<rparr> in
                       (case stream of [] \<Rightarrow> reply
                        | first # _ \<Rightarrow>
                            reply\<lparr>is_oldest_received := format_stream_id (fst first),
                              is_newest_received := format_stream_id (fst (last stream))\<rparr>));
          reply = (case accounts s did_hash of None \<Rightarrow> reply
                   | Some account \<Rightarrow>
                       reply\<lparr>is_message_count := ar_receive_queue_count account,
                         is_total_bytes := ar_receive_queue_bytes account\<rparr>)
      in case streaming_clients s did_hash of None \<Rightarrow> reply
         | Some (_, st) \<Rightarrow> reply\<lparr>is_live_delivery := (st = Live)\<rparr>)"

section \<open>Expiry sweep\<close>

fun sweep_ids ::
  "string \<Rightarrow> string list \<Rightarrow> expiry_report \<Rightarrow> memory_state \<Rightarrow> expiry_report \<times> memory_state" where
  "sweep_ids admin_did_hash [] report s = (report, s)"
| "sweep_ids admin_did_hash (msg_id # ids) report s =
     (case delete_message msg_id (AdminAuthority admin_did_hash) s of
        (Inr _, s') \<Rightarrow> sweep_ids admin_did_hash ids (report\<lparr>er_expired := er_expired report + 1\<rparr>) s'
      | (Inl _, s') \<Rightarrow>
          sweep_ids admin_did_hash ids (report\<lparr>er_already_deleted := er_already_deleted report + 1\<rparr>) s')"

fun sweep_slots ::
  "string \<Rightarrow> (nat \<times> string list) list \<Rightarrow> expiry_report \<Rightarrow> memory_state \<Rightarrow> expiry_report \<times> memory_state" where
  "sweep_slots admin_did_hash [] report s = (report, s)"
| "sweep_slots admin_did_hash ((ts, ids) # due) report s =
     (let (report', s') = sweep_ids admin_did_hash ids report s
      in sweep_slots admin_did_hash due report' (s'\<lparr>expiry := bt_remove ts (expiry s')\<rparr>))"

definition sweep_expired_messages ::
  "nat \<Rightarrow> string \<Rightarrow> memory_state \<Rightarrow> expiry_report \<times> memory_state" where
  "sweep_expired_messages now_secs admin_did_hash s =
     (let due = bt_upto now_secs (expiry s)
      in sweep_slots admin_did_hash due
           \<lparr>er_timeslots_swept = length due, er_expired = 0, er_already_deleted = 0\<rparr> s)"

section \<open>Effect of each critical section\<close>

abbreviation recorded_sender :: "string option \<Rightarrow> string option" where
  "recorded_sender from_hash \<equiv>
     (if sender_name from_hash = anonymous then None else Some (sender_name from_hash))"

definition inbox_id :: "nat \<Rightarrow> memory_state \<Rightarrow> stream_id" where
  "inbox_id now1 s = fst (alloc_stream_id now1 s)"

definition outbox_id :: "nat \<Rightarrow> nat \<Rightarrow> memory_state \<Rightarrow> stream_id" where
  "outbox_id now1 now2 s = fst (alloc_stream_id now2 (snd (alloc_stream_id now1 s)))"

lemma alloc_snd: "snd (alloc_stream_id n s) =
  s\<lparr>last_stream_ms := sid_ms (fst (alloc_stream_id n s)),
    next_stream_seq := sid_seq (fst (alloc_stream_id n s))\<rparr>"
  using alloc_frame [of n s] by (cases "alloc_stream_id n s") simp

lemma alloc_snd_simps [simp]:
  "messages (snd (alloc_stream_id n s)) = messages s" "inbox (snd (alloc_stream_id n s)) = inbox s"
  "outbox (snd (alloc_stream_id n s)) = outbox s" "expiry (snd (alloc_stream_id n s)) = expiry s"
  "sessions (snd (alloc_stream_id n s)) = sessions s"
  "accounts (snd (alloc_stream_id n s)) = accounts s"
  "known_dids (snd (alloc_stream_id n s)) = known_dids s"
  "access_lists (snd (alloc_stream_id n s)) = access_lists s"
  "admins (snd (alloc_stream_id n s)) = admins s"
  "audit_log (snd (alloc_stream_id n s)) = audit_log s"
  "oob_invites (snd (alloc_stream_id n s)) = oob_invites s"
  "forward_queue (snd (alloc_stream_id n s)) = forward_queue s"
  "forward_groups (snd (alloc_stream_id n s)) = forward_groups s"
  "counters (snd (alloc_stream_id n s)) = counters s"
  "streaming_clients (snd (alloc_stream_id n s)) = streaming_clients s"
  by (subst alloc_snd; simp)+

lemma sender_name_cases:
  obtains "recorded_sender from = None" "sender_name from = anonymous"
  | f where "recorded_sender from = Some f" "sender_name from = f" "f \<noteq> anonymous"
  by (cases "sender_name from = anonymous") auto

lemma store_message_anonymous:
  assumes "sender_name from = anonymous"
  shows "store_message digest ts n1 n2 m to from ex s =
    (digest m,
     index_expiry ex (digest m)
       (incr_counter ''RECEIVED_COUNT'' 1 (incr_counter ''RECEIVED_BYTES'' (wrap_i64 (int (length m)))
         ((snd (alloc_stream_id n1 s))
            \<lparr>inbox := put_stream to (inbox_id n1 s)
               \<lparr>se_msg_id = digest m, se_bytes = length m, se_peer_did = anonymous\<rparr> (inbox s),
             accounts := (accounts s)(to \<mapsto> count_received (length m) (acct s to))\<rparr>)))
     \<lparr>messages := (messages s)(digest m \<mapsto>
        \<lparr>mr_body = m, mr_bytes = length m, mr_to_did_hash = to, mr_from_did_hash = None,
         mr_timestamp_ms = ts, mr_receive_id = inbox_id n1 s, mr_send_id = None,
         mr_expires_at = ex\<rparr>)\<rparr>)"
  using assms by (simp add: store_message_def inbox_id_def split_beta Let_def)

lemma store_message_known:
  assumes "sender_name from = f" "f \<noteq> anonymous"
  shows "store_message digest ts n1 n2 m to from ex s =
    (digest m,
     index_expiry ex (digest m)
       (incr_counter ''RECEIVED_COUNT'' 1 (incr_counter ''RECEIVED_BYTES'' (wrap_i64 (int (length m)))
         ((snd (alloc_stream_id n2 (snd (alloc_stream_id n1 s))))
            \<lparr>inbox := put_stream to (inbox_id n1 s)
               \<lparr>se_msg_id = digest m, se_bytes = length m, se_peer_did = f\<rparr> (inbox s),
             outbox := put_stream f (outbox_id n1 n2 s)
               \<lparr>se_msg_id = digest m, se_bytes = length m, se_peer_did = to\<rparr> (outbox s),
             accounts := (let a = (accounts s)(f \<mapsto> count_sent (length m) (acct s f))
               in a(to \<mapsto> count_received (length m) (or_default default_account_record (a to))))\<rparr>)))
     \<lparr>messages := (messages s)(digest m \<mapsto>
        \<lparr>mr_body = m, mr_bytes = length m, mr_to_did_hash = to, mr_from_did_hash = Some f,
         mr_timestamp_ms = ts, mr_receive_id = inbox_id n1 s, mr_send_id = Some (outbox_id n1 n2 s),
         mr_expires_at = ex\<rparr>)\<rparr>)"
  using assms by (simp add: store_message_def inbox_id_def outbox_id_def split_beta Let_def)

lemma store_message_id [simp]: "fst (store_message digest ts n1 n2 m to from ex s) = digest m"
  by (simp add: store_message_def Let_def split: prod.split)

lemma store_message_messages:
  "messages (snd (store_message digest ts n1 n2 m to from ex s)) =
     (messages s)(digest m \<mapsto>
        \<lparr>mr_body = m, mr_bytes = length m, mr_to_did_hash = to,
         mr_from_did_hash = recorded_sender from, mr_timestamp_ms = ts,
         mr_receive_id = inbox_id n1 s,
         mr_send_id = (if sender_name from = anonymous then None else Some (outbox_id n1 n2 s)),
         mr_expires_at = ex\<rparr>)"
  by (cases "from" rule: sender_name_cases)
    (simp_all add: store_message_anonymous store_message_known)

lemma store_message_inbox:
  "inbox (snd (store_message digest ts n1 n2 m to from ex s)) =
     put_stream to (inbox_id n1 s)
       \<lparr>se_msg_id = digest m, se_bytes = length m, se_peer_did = sender_name from\<rparr> (inbox s)"
  by (cases "from" rule: sender_name_cases)
    (simp_all add: store_message_anonymous store_message_known)

lemma store_message_outbox:
  "outbox (snd (store_message digest ts n1 n2 m to from ex s)) =
     (if sender_name from = anonymous then outbox s
      else put_stream (sender_name from) (outbox_id n1 n2 s)
             \<lparr>se_msg_id = digest m, se_bytes = length m, se_peer_did = to\<rparr> (outbox s))"
  by (cases "from" rule: sender_name_cases)
    (simp_all add: store_message_anonymous store_message_known)

lemma store_message_accounts:
  "accounts (snd (store_message digest ts n1 n2 m to from ex s)) =
     (let a = (if sender_name from = anonymous then accounts s
               else (accounts s)(sender_name from \<mapsto> count_sent (length m) (acct s (sender_name from))))
      in a(to \<mapsto> count_received (length m) (or_default default_account_record (a to))))"
  by (cases "from" rule: sender_name_cases)
    (simp_all add: store_message_anonymous store_message_known Let_def)

lemma store_message_expiry:
  "expiry (snd (store_message digest ts n1 n2 m to from ex s)) = expiry (index_expiry ex (digest m) s)"
  by (cases "from" rule: sender_name_cases)
    (simp_all add: store_message_anonymous store_message_known index_expiry_def)

lemma store_message_last:
  "last_id (snd (store_message digest ts n1 n2 m to from ex s)) =
     (if sender_name from = anonymous then inbox_id n1 s else outbox_id n1 n2 s)"
  by (cases "from" rule: sender_name_cases)
    (simp_all add: store_message_anonymous store_message_known inbox_id_def outbox_id_def last_id_def
      alloc_snd)

lemma store_message_frame [simp]:
  "sessions (snd (store_message digest ts n1 n2 m to from ex s)) = sessions s"
  "known_dids (snd (store_message digest ts n1 n2 m to from ex s)) = known_dids s"
  "access_lists (snd (store_message digest ts n1 n2 m to from ex s)) = access_lists s"
  "admins (snd (store_message digest ts n1 n2 m to from ex s)) = admins s"
  "audit_log (snd (store_message digest ts n1 n2 m to from ex s)) = audit_log s"
  "oob_invites (snd (store_message digest ts n1 n2 m to from ex s)) = oob_invites s"
  "forward_queue (snd (store_message digest ts n1 n2 m to from ex s)) = forward_queue s"
  "forward_groups (snd (store_message digest ts n1 n2 m to from ex s)) = forward_groups s"
  "streaming_clients (snd (store_message digest ts n1 n2 m to from ex s)) = streaming_clients s"
  by (cases "from" rule: sender_name_cases; simp add: store_message_anonymous store_message_known)+

lemmas store_message_effect = store_message_messages store_message_inbox store_message_outbox
  store_message_accounts store_message_expiry


lemma on_account_simps [simp]:
  "messages (on_account d f s) = messages s" "inbox (on_account d f s) = inbox s"
  "outbox (on_account d f s) = outbox s" "expiry (on_account d f s) = expiry s"
  "sessions (on_account d f s) = sessions s" "known_dids (on_account d f s) = known_dids s"
  "access_lists (on_account d f s) = access_lists s" "admins (on_account d f s) = admins s"
  "audit_log (on_account d f s) = audit_log s" "oob_invites (on_account d f s) = oob_invites s"
  "forward_queue (on_account d f s) = forward_queue s"
  "forward_groups (on_account d f s) = forward_groups s"
  "counters (on_account d f s) = counters s"
  "streaming_clients (on_account d f s) = streaming_clients s"
  "last_stream_ms (on_account d f s) = last_stream_ms s"
  "next_stream_seq (on_account d f s) = next_stream_seq s"
  "last_id (on_account d f s) = last_id s"
  by (simp_all add: on_account_def last_id_def split: option.splits)

lemma on_account_accounts [simp]:
  "accounts (on_account d f s) e = (if e = d then map_option f (accounts s d) else accounts s e)"
  by (simp add: on_account_def split: option.splits)

lemma on_account_roles:
  assumes "\<And>r. ar_role (f r) = ar_role r" "\<And>r. ar_acls (f r) = ar_acls r"
  shows "map_option ar_role (accounts (on_account d f s) e) = map_option ar_role (accounts s e)"
    and "map_option ar_acls (accounts (on_account d f s) e) = map_option ar_acls (accounts s e)"
  using assms by (simp_all add: option.map_comp comp_def)

definition sent_copy :: "message_record \<Rightarrow> (string \<times> stream_id) option" where
  "sent_copy r = (case (mr_from_did_hash r, mr_send_id r) of
     (Some f, Some sid) \<Rightarrow> Some (f, sid) | _ \<Rightarrow> None)"

lemma remove_record_known:
  assumes "sent_copy r = Some (f, sid)"
  shows "remove_record h r s =
    (incr_counter ''DELETED_COUNT'' 1 (incr_counter ''DELETED_BYTES'' (wrap_i64 (int (mr_bytes r)))
      (unindex_expiry (mr_expires_at r) h
        (on_account (mr_to_did_hash r) (uncount_received (mr_bytes r))
          (on_account f (uncount_sent (mr_bytes r))
            (s\<lparr>inbox := drop_stream (mr_to_did_hash r) (mr_receive_id r) (inbox s),
               outbox := drop_stream f sid (outbox s)\<rparr>))))))
    \<lparr>messages := (messages s)(h := None)\<rparr>"
  using assms by (simp add: remove_record_def Let_def sent_copy_def split: option.splits)

lemma remove_record_anonymous:
  assumes "sent_copy r = None"
  shows "remove_record h r s =
    (incr_counter ''DELETED_COUNT'' 1 (incr_counter ''DELETED_BYTES'' (wrap_i64 (int (mr_bytes r)))
      (unindex_expiry (mr_expires_at r) h
        (on_account (mr_to_did_hash r) (uncount_received (mr_bytes r))
            (s\<lparr>inbox := drop_stream (mr_to_did_hash r) (mr_receive_id r) (inbox s)\<rparr>)))))
    \<lparr>messages := (messages s)(h := None)\<rparr>"
  using assms by (simp add: remove_record_def Let_def sent_copy_def split: option.splits)

lemma remove_record_messages [simp]:
  "messages (remove_record h r s) = (messages s)(h := None)"
  by (cases "sent_copy r") (auto simp: remove_record_known remove_record_anonymous)

lemma remove_record_inbox [simp]:
  "inbox (remove_record h r s) = drop_stream (mr_to_did_hash r) (mr_receive_id r) (inbox s)"
  by (cases "sent_copy r") (auto simp: remove_record_known remove_record_anonymous)

lemma remove_record_outbox [simp]:
  "outbox (remove_record h r s) =
     (case sent_copy r of None \<Rightarrow> outbox s | Some (f, sid) \<Rightarrow> drop_stream f sid (outbox s))"
  by (cases "sent_copy r") (auto simp: remove_record_known remove_record_anonymous)

lemma unindex_cong: "expiry s = expiry s' \<Longrightarrow> expiry (unindex_expiry t m s) = expiry (unindex_expiry t m s')"
  by (simp add: unindex_expiry_def Let_def split: option.splits)

lemma remove_record_expiry [simp]:
  "expiry (remove_record h r s) = expiry (unindex_expiry (mr_expires_at r) h s)"
  by (cases "sent_copy r") (auto simp: remove_record_known remove_record_anonymous intro!: unindex_cong)

lemma remove_record_accounts:
  "accounts (remove_record h r s) d =
     map_option (\<lambda>a.
       let a = (case sent_copy r of Some (f, sid) \<Rightarrow> if d = f then uncount_sent (mr_bytes r) a else a
                | None \<Rightarrow> a)
       in if d = mr_to_did_hash r then uncount_received (mr_bytes r) a else a) (accounts s d)"
  by (cases "sent_copy r"; cases "accounts s d")
    (auto simp: remove_record_known remove_record_anonymous)

lemma remove_record_frame [simp]:
  "sessions (remove_record h r s) = sessions s" "known_dids (remove_record h r s) = known_dids s"
  "access_lists (remove_record h r s) = access_lists s" "admins (remove_record h r s) = admins s"
  "audit_log (remove_record h r s) = audit_log s" "oob_invites (remove_record h r s) = oob_invites s"
  "forward_queue (remove_record h r s) = forward_queue s"
  "forward_groups (remove_record h r s) = forward_groups s"
  "streaming_clients (remove_record h r s) = streaming_clients s"
  "last_stream_ms (remove_record h r s) = last_stream_ms s"
  "next_stream_seq (remove_record h r s) = next_stream_seq s"
  "last_id (remove_record h r s) = last_id s"
  by (cases "sent_copy r"; force simp: remove_record_known remove_record_anonymous last_id_def)+

lemma delete_message_cases:
  obtains (missing) "messages s h = None" "delete_message h a s = (Inl (InternalError 404 ''memory''
      (''NOT_FOUND: message_hash ('' @ h @ '')'')), s)"
  | (denied) r where "messages s h = Some r"
      "\<not> delete_message_permitted a (mr_to_did_hash r) (mr_from_did_hash r)"
      "delete_message h a s = (Inl (InternalError 403 ''memory''
        ''PERMISSION_DENIED: requesting DID does not own this message''), s)"
  | (deleted) r where "messages s h = Some r"
      "delete_message_permitted a (mr_to_did_hash r) (mr_from_did_hash r)"
      "delete_message h a s = (Inr (), remove_record h r s)"
proof (cases "messages s h")
  case None
  then show ?thesis using missing by (simp add: delete_message_def)
next
  case (Some r)
  then show ?thesis
    using denied [of r] deleted [of r]
    by (cases "delete_message_permitted a (mr_to_did_hash r) (mr_from_did_hash r)")
      (simp_all add: delete_message_def)
qed

lemma delete_message_messages:
  "messages (snd (delete_message h a s)) = messages s \<or>
   messages (snd (delete_message h a s)) = (messages s)(h := None)"
  by (cases rule: delete_message_cases [of s h a]) simp_all

section \<open>Invariants of the message store\<close>

definition streams_below ::
  "stream_id \<Rightarrow> (string \<rightharpoonup> (stream_id, stream_entry) btree) \<Rightarrow> bool" where
  "streams_below l f = (\<forall>d st. f d = Some st \<longrightarrow> bt_wf st \<and> (\<forall>e \<in> set st. fst e \<le> l))"

definition ids_below :: "memory_state \<Rightarrow> bool" where
  \<comment> \<open>streams are ordered, and every id in them was allocated before\<close>
  "ids_below s = (streams_below (last_id s) (inbox s) \<and> streams_below (last_id s) (outbox s))"

definition expiry_indexed :: "memory_state \<Rightarrow> bool" where
  "expiry_indexed s = (bt_wf (expiry s) \<and>
     (\<forall>m r. messages s m = Some r \<and> mr_expires_at r \<noteq> 0 \<longrightarrow> indexed (expiry s) (mr_expires_at r) m))"

definition inbox_listed :: "memory_state \<Rightarrow> bool" where
  \<comment> \<open>every message is listed in the inbox of its recipient under its receive id\<close>
  "inbox_listed s = (\<forall>m r. messages s m = Some r \<longrightarrow>
     map_option se_msg_id (bt_get (stream_of (inbox s) (mr_to_did_hash r)) (mr_receive_id r)) = Some m)"

definition content_addressed :: "(string \<Rightarrow> string) \<Rightarrow> memory_state \<Rightarrow> bool" where
  "content_addressed digest s = (\<forall>m r. messages s m = Some r \<longrightarrow>
     m = digest (mr_body r) \<and> mr_bytes r = length (mr_body r) \<and> (mr_send_id r = None) = (mr_from_did_hash r = None))"

abbreviation ids_available :: "memory_state \<Rightarrow> bool" where
  \<comment> \<open>fewer than \<open>2 ^ 64 - 2\<close> stream ids were allocated within the current millisecond\<close>
  "ids_available s \<equiv> next_stream_seq s + 2 \<le> u64_max"

lemma fresh_ids:
  assumes "ids_available s"
  shows "last_id s < inbox_id n1 s" "inbox_id n1 s < outbox_id n1 n2 s"
proof -
  obtain i t where a: "alloc_stream_id n1 s = (i, t)" by fastforce
  obtain j u where b: "alloc_stream_id n2 t = (j, u)" by fastforce
  from alloc_increases [OF _ a] assms have "last_id s < i" "i = last_id t" "next_stream_seq t < u64_max"
    by auto
  with alloc_increases [OF _ b] a b
  show "last_id s < inbox_id n1 s" "inbox_id n1 s < outbox_id n1 n2 s"
    by (simp_all add: inbox_id_def outbox_id_def)
qed

lemma put_stream_apply:
  "put_stream d i e f d' = (if d' = d then Some (bt_insert i e (stream_of f d)) else f d')"
  by (simp add: put_stream_def)

lemma drop_stream_apply:
  "drop_stream d i f d' = (if d' = d then map_option (bt_remove i) (f d) else f d')"
  by (auto simp: drop_stream_def split: option.splits)

lemma streams_belowD:
  assumes "streams_below l f"
  shows "bt_wf (stream_of f d)" "e \<in> set (stream_of f d) \<Longrightarrow> fst e \<le> l"
  using assms by (cases "f d"; force simp: streams_below_def)+

lemma streams_below_mono: "streams_below l f \<Longrightarrow> l \<le> l' \<Longrightarrow> streams_below l' f"
  by (fastforce simp: streams_below_def)

lemma streams_below_put:
  assumes "streams_below l f" "l \<le> l'" "i \<le> l'"
  shows "streams_below l' (put_stream d i v f)"
proof -
  have "streams_below l' f" using assms streams_below_mono by blast
  moreover from streams_belowD [OF this] assms(3)
  have "bt_wf (bt_insert i v (stream_of f d))" "\<forall>e \<in> set (bt_insert i v (stream_of f d)). fst e \<le> l'"
    using set_bt_insert [of i v "stream_of f d"] by (auto intro: bt_wf_insert)
  ultimately show ?thesis by (auto simp: streams_below_def put_stream_apply)
qed

lemma streams_below_drop: "streams_below l f \<Longrightarrow> streams_below l (drop_stream d i f)"
  by (fastforce simp: streams_below_def drop_stream_apply split: if_splits)

lemma streams_below_delete: "streams_below l f \<Longrightarrow> streams_below l (f(d := None))"
  by (simp add: streams_below_def)

lemma ids_belowD:
  assumes "ids_below s"
  shows "bt_wf (stream_of (inbox s) d)" "e \<in> set (stream_of (inbox s) d) \<Longrightarrow> fst e \<le> last_id s"
    and "bt_wf (stream_of (outbox s) d)" "e' \<in> set (stream_of (outbox s) d) \<Longrightarrow> fst e' \<le> last_id s"
  using assms streams_belowD unfolding ids_below_def by blast+

lemma ids_below_store:
  assumes "ids_below s" "ids_available s"
  shows "ids_below (snd (store_message digest ts n1 n2 m to from ex s))"
proof -
  have "last_id s \<le> inbox_id n1 s" "last_id s \<le> outbox_id n1 n2 s" "inbox_id n1 s \<le> outbox_id n1 n2 s"
    using fresh_ids(1) [OF assms(2), of n1] fresh_ids(2) [OF assms(2), of n1 n2] by auto
  with assms(1) show ?thesis
    by (auto simp: ids_below_def store_message_last store_message_inbox store_message_outbox
        intro!: streams_below_put intro: streams_below_mono)
qed

lemma ids_below_remove: "ids_below s \<Longrightarrow> ids_below (remove_record h r s)"
  by (auto simp: ids_below_def streams_below_drop split: option.splits)

lemma expiry_indexed_store:
  "expiry_indexed s \<Longrightarrow> expiry_indexed (snd (store_message digest ts n1 n2 m to from ex s))"
  by (auto simp: expiry_indexed_def store_message_messages store_message_expiry indexed_index
      split: if_splits)

lemma expiry_indexed_remove: "expiry_indexed s \<Longrightarrow> expiry_indexed (remove_record h r s)"
  by (auto simp: expiry_indexed_def indexed_unindex split: if_splits)

lemma inbox_listed_store:
  assumes "inbox_listed s" "ids_below s" "ids_available s"
  shows "inbox_listed (snd (store_message digest ts n1 n2 m to from ex s))"
proof -
  have "map_option se_msg_id (bt_get (stream_of (put_stream to (inbox_id n1 s) e (inbox s))
        (mr_to_did_hash r)) (mr_receive_id r)) = Some m'"
    if "messages s m' = Some r" for m' r e
  proof -
    from assms(1) that obtain v where
      v: "bt_get (stream_of (inbox s) (mr_to_did_hash r)) (mr_receive_id r) = Some v" "se_msg_id v = m'"
      by (fastforce simp: inbox_listed_def)
    then have "mr_receive_id r \<le> last_id s"
      using bt_get_Some_in ids_belowD(2) [OF assms(2)] by fastforce
    then have "mr_receive_id r \<noteq> inbox_id n1 s" using fresh_ids(1) [OF assms(3), of n1] by auto
    with v show ?thesis
      using ids_belowD(1) [OF assms(2)] by (auto simp: put_stream_apply bt.lookup_ins)
  qed
  then show ?thesis
    using ids_belowD(1) [OF assms(2)]
    by (auto simp: inbox_listed_def store_message_messages store_message_inbox put_stream_apply
        bt.lookup_ins split: if_splits)
qed

lemma inbox_listed_remove:
  assumes "inbox_listed s" "messages s h = Some r"
  shows "inbox_listed (remove_record h r s)"
proof -
  have "map_option se_msg_id (bt_get (stream_of (drop_stream (mr_to_did_hash r) (mr_receive_id r) (inbox s))
        (mr_to_did_hash r')) (mr_receive_id r')) = Some m"
    if "messages s m = Some r'" "m \<noteq> h" for m r'
  proof -
    have a: "map_option se_msg_id (bt_get (stream_of (inbox s) (mr_to_did_hash r')) (mr_receive_id r')) = Some m"
      and b: "map_option se_msg_id (bt_get (stream_of (inbox s) (mr_to_did_hash r)) (mr_receive_id r)) = Some h"
      using assms that by (auto simp: inbox_listed_def)
    then have "mr_to_did_hash r' \<noteq> mr_to_did_hash r \<or> mr_receive_id r' \<noteq> mr_receive_id r"
      using that(2) by auto
    with a show ?thesis
      by (cases "inbox s (mr_to_did_hash r')") (auto simp: drop_stream_apply)
  qed
  then show ?thesis by (auto simp: inbox_listed_def split: if_splits)
qed

section \<open>Loops over delete\_message\<close>

lemma fetch_loop_keeps:
  "fetch_loop d False es rs s = (rs', s') \<Longrightarrow> s' = s"
  by (induction es arbitrary: rs) (auto simp: Let_def)

lemma fetch_loop_step:
  obtains el del t where "fetch_loop d b ((sid, entry) # es) rs s =
      fetch_loop d b es (rs\<lparr>gr_delete_errors := del, gr_success := gr_success rs @ [el]\<rparr>) t"
    "me_msg_id el = se_msg_id entry" "t = s \<or> t = snd (delete_message (se_msg_id entry) (Owner d) s)"
proof (cases "b \<and> \<not> is_ok (fst (delete_message (se_msg_id entry) (Owner d) s))")
  case True
  then obtain e t where "delete_message (se_msg_id entry) (Owner d) s = (Inl e, t)" "b"
    by (cases "delete_message (se_msg_id entry) (Owner d) s"; cases "fst (delete_message (se_msg_id entry) (Owner d) s)") auto
  then show ?thesis by (intro that) (auto simp: Let_def)
next
  case False
  show ?thesis
  proof (cases b)
    case b: True
    with False obtain u t where "delete_message (se_msg_id entry) (Owner d) s = (Inr u, t)"
      by (cases "delete_message (se_msg_id entry) (Owner d) s") (auto simp: is_ok_iff)
    with b show ?thesis by (intro that [where del = "gr_delete_errors rs"]) (auto simp: Let_def)
  next
    case False
    then show ?thesis by (intro that [where del = "gr_delete_errors rs"]) (auto simp: Let_def)
  qed
qed

lemma fetch_loop_ids:
  "map me_msg_id (gr_success (fst (fetch_loop d b es rs s))) =
     map me_msg_id (gr_success rs) @ map (se_msg_id \<circ> snd) es"
proof (induction es arbitrary: rs s)
  case (Cons x es)
  obtain sid entry where x: "x = (sid, entry)" by fastforce
  show ?case unfolding x
    by (cases rule: fetch_loop_step [of d b sid entry es rs s]) (simp add: Cons.IH)
qed simp

lemma delete_message_dom: "messages (snd (delete_message h a s)) m = None" if "messages s m = None"
  using that delete_message_messages [of h a s] by auto

lemma fetch_loop_None: "messages s m = None \<Longrightarrow> messages (snd (fetch_loop d b es rs s)) m = None"
proof (induction es arbitrary: rs s)
  case (Cons x es)
  obtain sid entry where x: "x = (sid, entry)" by fastforce
  show ?case unfolding x
    by (cases rule: fetch_loop_step [of d b sid entry es rs s])
      (use Cons delete_message_dom [OF Cons.prems] in auto)
qed simp

lemma delete_message_ok:
  assumes "delete_message h a s = (Inr u, s')"
  obtains r where "messages s h = Some r" "s' = remove_record h r s"
    "delete_message_permitted a (mr_to_did_hash r) (mr_from_did_hash r)"
  using assms by (cases rule: delete_message_cases [of s h a]) auto

lemma delete_message_error:
  "delete_message h a s = (Inl e, s') \<Longrightarrow> s' = s"
  by (cases rule: delete_message_cases [of s h a]) auto

lemma fetch_loop_consumes:
  assumes "\<And>e. e \<in> set (gr_success rs) \<Longrightarrow> me_msg e \<noteq> None \<Longrightarrow> messages s (me_msg_id e) = None"
    and "fetch_loop d True es rs s = (rs', s')" "e \<in> set (gr_success rs')" "me_msg e \<noteq> None"
  shows "messages s' (me_msg_id e) = None"
  using assms
proof (induction es arbitrary: rs s)
  case (Cons x es)
  obtain sid entry where x: "x = (sid, entry)" by fastforce
  obtain res t where del: "delete_message (se_msg_id entry) (Owner d) s = (res, t)" by fastforce
  have mono: "messages t m = None" if "messages s m = None" for m
    using delete_message_dom [OF that, of "se_msg_id entry" "Owner d"] del by simp
  show ?case
  proof (cases res)
    case (Inl err)
    show ?thesis
      by (rule Cons.IH [OF _ _ Cons.prems(3,4)])
        (use Cons.prems(1,2) x del Inl mono in \<open>auto simp: Let_def\<close>)
  next
    case (Inr u)
    then have "messages t (se_msg_id entry) = None"
      using del by (auto elim!: delete_message_ok)
    then show ?thesis
      by (intro Cons.IH [OF _ _ Cons.prems(3,4)])
        (use Cons.prems(1,2) x del Inr mono in \<open>auto simp: Let_def\<close>)
  qed
qed auto

text \<open>A property that removing one record keeps is kept by every loop over \<open>delete_message\<close>.\<close>

definition kept_by_removal :: "(memory_state \<Rightarrow> bool) \<Rightarrow> bool" where
  "kept_by_removal P = (\<forall>s h r. P s \<and> messages s h = Some r \<longrightarrow> P (remove_record h r s))"

lemma kept_delete: "kept_by_removal P \<Longrightarrow> P s \<Longrightarrow> P (snd (delete_message h a s))"
  by (cases rule: delete_message_cases [of s h a]) (auto simp: kept_by_removal_def)

lemma kept_fetch: "kept_by_removal P \<Longrightarrow> P s \<Longrightarrow> P (snd (fetch_loop d b es rs s))"
proof (induction es arbitrary: rs s)
  case (Cons x es)
  obtain sid entry where x: "x = (sid, entry)" by fastforce
  show ?case unfolding x
    by (cases rule: fetch_loop_step [of d b sid entry es rs s])
      (use Cons kept_delete [OF Cons.prems] in auto)
qed simp

lemma kept_purge: "kept_by_removal P \<Longrightarrow> P s \<Longrightarrow> P (snd (purge_loop d ids c k s))"
proof (induction ids arbitrary: c k s)
  case (Cons i ids)
  from kept_delete [OF Cons.prems] show ?case
    by (auto simp: Let_def split: prod.splits sum.splits intro!: Cons.IH [OF Cons.prems(1)]) (metis snd_conv)+
qed simp

lemma kept_sweep_ids: "kept_by_removal P \<Longrightarrow> P s \<Longrightarrow> P (snd (sweep_ids a ids rp s))"
proof (induction ids arbitrary: rp s)
  case (Cons i ids)
  from kept_delete [OF Cons.prems] show ?case
    by (auto split: prod.splits sum.splits intro!: Cons.IH [OF Cons.prems(1)]) (metis snd_conv)+
qed simp

lemma kept_sweep:
  assumes "kept_by_removal P" "\<And>s t. P s \<Longrightarrow> P (s\<lparr>expiry := bt_remove t (expiry s)\<rparr>)" "P s"
  shows "P (snd (sweep_slots a due rp s))"
  using assms(3)
proof (induction due arbitrary: rp s)
  case (Cons x due)
  then show ?case
    using kept_sweep_ids [OF assms(1)] assms(2) by (cases x) (simp add: split_beta)
qed simp

definition profile :: "account_record \<Rightarrow> account_type \<times> mediator_acl_set \<times> int option \<times> int option" where
  \<comment> \<open>what message traffic does not change in an account\<close>
  "profile r = (ar_role r, ar_acls r, ar_queue_send_limit r, ar_queue_receive_limit r)"

definition traffic_only :: "memory_state \<Rightarrow> memory_state \<Rightarrow> bool" where
  \<comment> \<open>the states differ at most in messages, streams, counters and the expiry index\<close>
  "traffic_only s0 s = (sessions s = sessions s0 \<and> known_dids s = known_dids s0 \<and>
     access_lists s = access_lists s0 \<and> admins s = admins s0 \<and> audit_log s = audit_log s0 \<and>
     oob_invites s = oob_invites s0 \<and> forward_queue s = forward_queue s0 \<and>
     forward_groups s = forward_groups s0 \<and> streaming_clients s = streaming_clients s0 \<and>
     last_id s = last_id s0 \<and>
     (\<forall>d. map_option profile (accounts s d) = map_option profile (accounts s0 d)))"

lemma profile_counts [simp]:
  "profile (count_sent n r) = profile r" "profile (count_received n r) = profile r"
  "profile (uncount_sent n r) = profile r" "profile (uncount_received n r) = profile r"
  by (simp_all add: profile_def count_sent_def count_received_def uncount_sent_def uncount_received_def)

lemma traffic_refl [simp]: "traffic_only s s"
  by (simp add: traffic_only_def)

lemma traffic_removal: "kept_by_removal (traffic_only s0)"
proof -
  have "map_option profile (accounts (remove_record h r s) d) = map_option profile (accounts s d)" for h r s d
    by (cases "accounts s d") (auto simp: remove_record_accounts Let_def split: option.splits)
  then show ?thesis unfolding kept_by_removal_def traffic_only_def by simp
qed

lemma ids_below_removal: "kept_by_removal ids_below"
  by (simp add: kept_by_removal_def ids_below_remove)

lemma expiry_indexed_removal: "kept_by_removal expiry_indexed"
  by (simp add: kept_by_removal_def expiry_indexed_remove)

lemma inbox_listed_removal: "kept_by_removal inbox_listed"
  by (simp add: kept_by_removal_def inbox_listed_remove)

lemma content_addressed_removal: "kept_by_removal (content_addressed digest)"
  by (auto simp: kept_by_removal_def content_addressed_def split: if_splits)

lemma sweep_ids_messages:
  "messages (snd (sweep_ids a ids rp s)) = (\<lambda>m. if m \<in> set ids then None else messages s m)"
proof (induction ids arbitrary: rp s)
  case (Cons i ids)
  have "messages (snd (delete_message i (AdminAuthority a) s)) = (messages s)(i := None)"
    by (cases rule: delete_message_cases [of s i "AdminAuthority a"]) auto
  then show ?case
    by (auto simp: Cons.IH fun_eq_iff split: prod.splits sum.splits)
qed simp

lemma sweep_slots_messages:
  "messages (snd (sweep_slots a due rp s)) =
     (\<lambda>m. if \<exists>(t, ids) \<in> set due. m \<in> set ids then None else messages s m)"
proof (induction due arbitrary: rp s)
  case (Cons x due)
  then show ?case
    by (cases x) (auto simp: sweep_ids_messages fun_eq_iff split_beta)
qed simp

lemma due_indexed:
  assumes "bt_wf e"
  shows "(\<exists>(t, ids) \<in> set (bt_upto now e). m \<in> set ids) = (\<exists>t \<le> now. indexed e t m)"
proof -
  have "indexed e t m = (\<exists>ids. (t, ids) \<in> set e \<and> m \<in> set ids)" for t
  proof -
    have "(t, ids) \<in> set e \<longleftrightarrow> bt_get e t = Some ids" for ids
      using bt.lookup_iff_entry [OF assms, of t ids] by simp
    then show ?thesis by (cases "bt_get e t") (simp_all add: indexed_def)
  qed
  then show ?thesis by (auto simp: bt_upto_def)
qed

lemma sweep_messages:
  assumes "bt_wf (expiry s)"
  shows "messages (snd (sweep_expired_messages now a s)) =
    (\<lambda>m. if \<exists>t \<le> now. indexed (expiry s) t m then None else messages s m)"
  by (simp add: sweep_expired_messages_def Let_def sweep_slots_messages due_indexed [OF assms])

lemma sweep_ids_report:
  "sweep_ids a ids rp s = (rp', s') \<Longrightarrow>
   er_expired rp' + er_already_deleted rp' = er_expired rp + er_already_deleted rp + length ids \<and>
   er_timeslots_swept rp' = er_timeslots_swept rp"
  by (induction ids arbitrary: rp s) (fastforce split: prod.splits sum.splits)+

lemma purge_loop_messages:
  assumes "purge_loop d ids c k s = ((n, b), s')"
  shows "messages s' = (\<lambda>m. if m \<in> set ids \<and> (\<exists>r. messages s m = Some r \<and>
      (mr_to_did_hash r = d \<or> mr_from_did_hash r = Some d)) then None else messages s m)"
  using assms
proof (induction ids arbitrary: c k s)
  case (Cons i ids)
  obtain res t where del: "delete_message i (Owner d) s = (res, t)" by fastforce
  then have t: "messages t = (\<lambda>m. if m = i \<and> (\<exists>r. messages s m = Some r \<and>
      (mr_to_did_hash r = d \<or> mr_from_did_hash r = Some d)) then None else messages s m)"
    by (cases rule: delete_message_cases [of s i "Owner d"]) (auto simp: fun_eq_iff)
  from Cons.prems del obtain c' k' where "purge_loop d ids c' k' t = ((n, b), s')"
    by (cases res) (auto simp: Let_def)
  from Cons.IH [OF this] show ?case unfolding t by (auto simp: fun_eq_iff)
qed auto

section \<open>Properties\<close>

lemma put_then_drop:
  assumes "bt_wf (stream_of f d)" "\<forall>e \<in> set (stream_of f d). fst e < i"
  shows "stream_of (drop_stream d i (put_stream d i v f)) d' = stream_of f d'"
proof -
  have "i \<notin> fst ` set (stream_of f d)" using assms(2) by auto
  then have "bt_remove i (bt_insert i v (stream_of f d)) = stream_of f d"
    using assms(2) by (simp add: bt_insert_last bt_remove_def filter_id_conv image_iff) metis
  then show ?thesis by (simp add: drop_stream_apply put_stream_apply)
qed

lemma uncount_count:
  "ar_send_queue_count r < u32_max \<Longrightarrow> ar_send_queue_bytes r + n \<le> u64_max \<Longrightarrow>
     uncount_sent n (count_sent n r) = r"
  "ar_receive_queue_count r < u32_max \<Longrightarrow> ar_receive_queue_bytes r + n \<le> u64_max \<Longrightarrow>
     uncount_received n (count_received n r) = r"
  "uncount_sent n (count_received n' r) = count_received n' (uncount_sent n r)"
  by (simp_all add: uncount_sent_def count_sent_def uncount_received_def count_received_def
      sat_add_def sat_sub_def)

definition counters_room :: "nat \<Rightarrow> account_record \<Rightarrow> bool" where
  \<comment> \<open>the saturating counters are below their maximum\<close>
  "counters_room n r = (ar_send_queue_count r < u32_max \<and> ar_send_queue_bytes r + n \<le> u64_max \<and>
     ar_receive_queue_count r < u32_max \<and> ar_receive_queue_bytes r + n \<le> u64_max)"

lemma get_message_None:
  "get_message d h s = None \<longleftrightarrow> (\<forall>r. messages s h = Some r \<longrightarrow>
     \<not> delete_message_permitted (Owner d) (mr_to_did_hash r) (mr_from_did_hash r))"
  by (cases "messages s h") (auto simp: get_message_def Let_def split: option.splits)

text \<open>After \<open>store_message\<close> the message is returned, with its body, to its recipient and to
  its (non-anonymous) sender, to nobody else, and every other message is returned as before.\<close>
theorem get_message_after_store:
  "get_message d j (snd (store_message digest ts n1 n2 m to from ex s)) =
     (if j \<noteq> digest m then get_message d j s
      else if d = to \<or> recorded_sender from = Some d then
        Some \<lparr>me_msg_id = digest m,
          me_send_id = (if recorded_sender from = None then None
                        else Some (format_stream_id (outbox_id n1 n2 s))),
          me_receive_id = Some (format_stream_id (inbox_id n1 s)), me_size = length m,
          me_timestamp = ts, me_to_address = Some to, me_from_address = recorded_sender from,
          me_msg = Some m, me_protocol = Some (detect_protocol m)\<rparr>
      else None)"
  by (auto simp: get_message_def store_message_messages Let_def)

text \<open>C27. \<open>delete_message\<close> succeeds exactly for a stored message and an administrator or a
  principal that can read it (its recipient or sender). When it fails the state is unchanged;
  when it succeeds nobody can read that message any more and every other one reads as before.\<close>
theorem delete_message_authorised:
  assumes "delete_message h a s = (res, s')"
  shows "(is_ok res \<longleftrightarrow> h \<in> dom (messages s) \<and>
        (case a of Owner d \<Rightarrow> get_message d h s \<noteq> None | AdminAuthority _ \<Rightarrow> True)) \<and>
      (\<not> is_ok res \<longrightarrow> s' = s) \<and>
      (is_ok res \<longrightarrow> (\<forall>d j. get_message d j s' = (if j = h then None else get_message d j s)))"
proof (intro conjI impI allI)
  show "is_ok res \<longleftrightarrow> h \<in> dom (messages s) \<and>
      (case a of Owner d \<Rightarrow> get_message d h s \<noteq> None | AdminAuthority _ \<Rightarrow> True)"
    using assms
    by (cases rule: delete_message_cases [of s h a]; cases a)
      (auto simp: get_message_None simp del: not_None_eq)
  show "\<not> is_ok res \<Longrightarrow> s' = s" using assms by (cases res) (auto dest: delete_message_error)
  show "is_ok res \<Longrightarrow> get_message d j s' = (if j = h then None else get_message d j s)" for d j
    using assms by (auto simp: is_ok_iff get_message_def elim!: delete_message_ok)
qed

theorem delete_message_authorised_witness:
  "\<exists>s res s'. res = Inl (InternalError 403 ''memory''
       ''PERMISSION_DENIED: requesting DID does not own this message'') \<and>
     delete_message ''m'' (Owner ''eve'') s = (res, s') \<and> s' = s \<and> get_message ''bob'' ''m'' s' \<noteq> None"
proof -
  let ?s = "snd (store_message (\<lambda>b. b) 7 7 7 ''m'' ''bob'' (Some ''alice'') 0 empty_state)"
  have m: "messages ?s ''m'' \<noteq> None" and r: "get_message ''bob'' ''m'' ?s \<noteq> None"
    by (simp_all add: store_message_messages get_message_def)
  obtain res s' where d: "delete_message ''m'' (Owner ''eve'') ?s = (res, s')" by fastforce
  then have "res = Inl (InternalError 403 ''memory''
       ''PERMISSION_DENIED: requesting DID does not own this message'')"
    by (simp add: delete_message_def store_message_messages sender_name_def anonymous_def)
  with delete_message_authorised [OF d] d r show ?thesis by auto
qed

text \<open>C29. Storing a new message and deleting it again, as its recipient, restores the store: every inbox, every
  outbox, the messages and the expiry index are as they were, and so is every account that existed, whose counters had
  room for the message. A recipient or recorded sender that had no account is given an empty one by
  \<open>store_message\<close>, and \<open>delete_message\<close> leaves it behind.\<close>
theorem store_then_delete_restores:
  assumes "ids_below s" "ids_available s" "bt_wf (expiry s)"
    and new: "messages s (digest m) = None" "\<not> indexed (expiry s) ex (digest m)"
    and room: "\<forall>d \<in> {to} \<union> set_option (recorded_sender from). counters_room (length m) (acct s d)"
    and del: "delete_message (digest m) (Owner to)
      (snd (store_message digest ts n1 n2 m to from ex s)) = (res, s')"
  shows "res = Inr () \<and> messages s' = messages s \<and>
    accounts s' = (\<lambda>d. if d \<in> {to} \<union> set_option (recorded_sender from)
       then Some (or_default default_account_record (accounts s d)) else accounts s d) \<and>
    (\<forall>d. stream_of (inbox s') d = stream_of (inbox s) d \<and>
         stream_of (outbox s') d = stream_of (outbox s) d) \<and>
    (\<forall>t j. indexed (expiry s') t j = indexed (expiry s) t j)"
proof -
  let ?s = "snd (store_message digest ts n1 n2 m to from ex s)"
  let ?r = "the (messages ?s (digest m))"
  have res: "res = Inr ()" and s': "s' = remove_record (digest m) ?r ?s"
    using del by (simp_all add: delete_message_def store_message_messages)
  have r: "mr_to_did_hash ?r = to" "mr_receive_id ?r = inbox_id n1 s" "mr_expires_at ?r = ex"
      "mr_bytes ?r = length m"
      "sent_copy ?r = map_option (\<lambda>f. (f, outbox_id n1 n2 s)) (recorded_sender from)"
    by (simp_all add: store_message_messages sent_copy_def)
  have lt: "last_id s < inbox_id n1 s" "last_id s < outbox_id n1 n2 s"
    using fresh_ids(1) [OF assms(2), of n1] fresh_ids(2) [OF assms(2), of n1 n2] by auto
  have below: "\<forall>e \<in> set (stream_of (inbox s) d). fst e < inbox_id n1 s"
      "\<forall>e \<in> set (stream_of (outbox s) d). fst e < outbox_id n1 n2 s" for d
    using ids_belowD(2,4) [OF assms(1)] lt by (blast intro: order.strict_trans1)+
  have msgs: "messages s' = messages s" using new by (auto simp: s' store_message_messages)
  have acc: "accounts s' d = map_option (\<lambda>a.
      let a = (if recorded_sender from = Some d then uncount_sent (length m) a else a)
      in if d = to then uncount_received (length m) a else a) (accounts ?s d)" for d
    unfolding s' remove_record_accounts r by (intro option.map_cong refl) (simp split: option.split)
  note msgs
  moreover have "accounts s' = (\<lambda>d. if d \<in> {to} \<union> set_option (recorded_sender from)
       then Some (or_default default_account_record (accounts s d)) else accounts s d)"
  proof
    fix d
    show "accounts s' d = (if d \<in> {to} \<union> set_option (recorded_sender from)
        then Some (or_default default_account_record (accounts s d)) else accounts s d)"
      using room
      by (auto simp: acc store_message_accounts Let_def counters_room_def uncount_count option.map_ident)
  qed
  moreover have "stream_of (inbox s') d = stream_of (inbox s) d" for d
    using put_then_drop [OF ids_belowD(1) [OF assms(1)] below(1)]
    by (simp add: s' r store_message_inbox)
  moreover have "stream_of (outbox s') d = stream_of (outbox s) d" for d
    using put_then_drop [OF ids_belowD(3) [OF assms(1)] below(2)]
    by (simp add: s' r store_message_outbox)
  moreover have "indexed (expiry s') t j = indexed (expiry s) t j" for t j
    using assms(3) new(2)
    by (auto simp: s' r store_message_expiry indexed_index indexed_unindex)
  ultimately show ?thesis using res by blast
qed

theorem store_then_delete_restores_witness:
  "\<exists>s s'. s = empty_state\<lparr>accounts := [''bob'' \<mapsto> default_account_record]\<rparr> \<and>
     delete_message ''m'' (Owner ''bob'')
       (snd (store_message (\<lambda>b. b) 7 7 7 ''m'' ''bob'' (Some ''alice'') 99 s)) = (Inr (), s') \<and>
     messages s' = Map.empty \<and> accounts s' = (accounts s)(''alice'' \<mapsto> default_account_record)"
proof -
  let ?s = "empty_state\<lparr>accounts := [''bob'' \<mapsto> default_account_record]\<rparr>"
  obtain res s' where d: "delete_message ((\<lambda>b. b) ''m'') (Owner ''bob'')
      (snd (store_message (\<lambda>b. b) 7 7 7 ''m'' ''bob'' (Some ''alice'') 99 ?s)) = (res, s')"
    by fastforce
  have room: "counters_room (length ''m'') default_account_record"
    by (simp add: counters_room_def default_account_record_def u32_max_def u64_max_def)
  have "res = Inr () \<and> messages s' = messages ?s \<and> accounts s' = (\<lambda>d. if d \<in> {''bob'', ''alice''}
       then Some (or_default default_account_record (accounts ?s d)) else accounts ?s d)"
    using store_then_delete_restores [OF _ _ _ _ _ _ d] room
    by (auto simp: empty_state_def ids_below_def streams_below_def indexed_def sender_name_def
        u64_max_def anonymous_def fun_eq_iff)
  with d show ?thesis by (auto simp: empty_state_def fun_eq_iff)
qed

text \<open>\<open>fetch_messages\<close> returns, in inbox order, the page of entries after the cursor. Unless
  the delete policy is optimistic the store is unchanged; with it, every message returned with
  its body is deleted, so it cannot be fetched twice.\<close>
theorem fetch_messages_page:
  assumes "fetch_messages d opts s = (rs, s')"
  shows "map me_msg_id (gr_success rs) = map (se_msg_id \<circ> snd) (take (fo_limit opts)
        (case Option.bind (fo_start_id opts) parse_stream_id of
           None \<Rightarrow> stream_of (inbox s) d | Some i \<Rightarrow> bt_after i (stream_of (inbox s) d))) \<and>
     (fo_delete_policy opts \<noteq> Optimistic \<longrightarrow> s' = s) \<and>
     (fo_delete_policy opts = Optimistic \<longrightarrow>
        (\<forall>e \<in> set (gr_success rs). me_msg e \<noteq> None \<longrightarrow> messages s' (me_msg_id e) = None))"
proof (cases "inbox s d")
  case None
  with assms show ?thesis
    by (auto simp: fetch_messages_def Let_def bt_after_def split: option.splits)
next
  case (Some st)
  let ?es = "take (fo_limit opts) (case Option.bind (fo_start_id opts) parse_stream_id of
      None \<Rightarrow> st | Some i \<Rightarrow> bt_after i st)"
  let ?r0 = "\<lparr>gr_success = [], gr_get_errors = [], gr_delete_errors = []\<rparr>"
  have loop: "fetch_loop d (fo_delete_policy opts = Optimistic) ?es ?r0 s = (rs, s')"
    using assms Some by (cases "fo_start_id opts") (simp_all add: fetch_messages_def Let_def)
  have "map me_msg_id (gr_success rs) = map (se_msg_id \<circ> snd) ?es"
    using fetch_loop_ids [of d "fo_delete_policy opts = Optimistic" ?es ?r0 s] loop by simp
  moreover have "fo_delete_policy opts \<noteq> Optimistic \<longrightarrow> s' = s"
    using loop fetch_loop_keeps by fastforce
  moreover have "fo_delete_policy opts = Optimistic \<longrightarrow>
      (\<forall>e \<in> set (gr_success rs). me_msg e \<noteq> None \<longrightarrow> messages s' (me_msg_id e) = None)"
    using loop fetch_loop_consumes [of ?r0 s d ?es rs s'] by auto
  moreover have st: "stream_of (inbox s) d = st" using Some by simp
  ultimately show ?thesis unfolding st by blast
qed

theorem fetch_messages_page_witness:
  "\<exists>s rs s'. fetch_messages ''bob'' \<lparr>fo_limit = 5, fo_start_id = None, fo_delete_policy = Optimistic\<rparr> s = (rs, s') \<and>
     messages s ''m'' \<noteq> None \<and> map me_msg_id (gr_success rs) = [''m'']"
proof -
  let ?o = "\<lparr>fo_limit = 5, fo_start_id = None, fo_delete_policy = Optimistic\<rparr>"
  let ?s = "snd (store_message (\<lambda>b. b) 7 7 7 ''m'' ''bob'' (Some ''alice'') 0 empty_state)"
  obtain rs s' where f: "fetch_messages ''bob'' ?o ?s = (rs, s')" by fastforce
  have i: "inbox empty_state ''bob'' = None" by (simp add: empty_state_def)
  from fetch_messages_page [OF f] have "map me_msg_id (gr_success rs) = [''m'']"
    by (simp add: store_message_inbox put_stream_apply i)
  moreover have "messages ?s ''m'' \<noteq> None" by (simp add: store_message_messages)
  ultimately show ?thesis using f by (intro exI conjI)
qed

text \<open>Storing the same body again for another recipient is not a no-op: the single record
  keyed by the digest is taken over, the first recipient keeps its inbox entry but can no
  longer read the message.\<close>
theorem store_again_takes_over:
  assumes "d \<noteq> to" "recorded_sender fr \<noteq> Some d"
    and "(i, e) \<in> set (stream_of (inbox s) d)" "se_msg_id e = digest m"
  shows "get_message d (digest m) (snd (store_message digest ts n1 n2 m to fr ex s)) = None \<and>
    (i, e) \<in> set (stream_of (inbox (snd (store_message digest ts n1 n2 m to fr ex s))) d)"
  using assms
  by (auto simp: get_message_def store_message_messages store_message_inbox put_stream_apply
      split: if_splits)

theorem store_again_takes_over_witness:
  "\<exists>s s'. s = snd (store_message (\<lambda>b. b) 7 7 7 ''m'' ''bob'' (Some ''alice'') 0 empty_state) \<and>
     s' = snd (store_message (\<lambda>b. b) 8 8 8 ''m'' ''carol'' (Some ''alice'') 0 s) \<and>
     get_message ''bob'' ''m'' s \<noteq> None \<and> get_message ''bob'' ''m'' s' = None"
proof -
  let ?s = "snd (store_message (\<lambda>b. b) 7 7 7 ''m'' ''bob'' (Some ''alice'') 0 empty_state)"
  have i: "inbox empty_state ''bob'' = None" by (simp add: empty_state_def)
  have e: "(inbox_id 7 empty_state, \<lparr>se_msg_id = (\<lambda>b. b) ''m'', se_bytes = 1, se_peer_did = ''alice''\<rparr>)
      \<in> set (stream_of (inbox ?s) ''bob'')"
    by (simp add: store_message_inbox put_stream_apply i sender_name_def)
  have "get_message ''bob'' ((\<lambda>b. b) ''m'')
      (snd (store_message (\<lambda>b. b) 8 8 8 ''m'' ''carol'' (Some ''alice'') 0 ?s)) = None"
    using store_again_takes_over
      [OF _ _ e, where to = "''carol''" and fr = "Some ''alice''" and digest = "\<lambda>b. b" and m = "''m''"]
    by (simp add: sender_name_def)
  then show ?thesis by (auto simp: get_message_def store_message_messages)
qed

end
