(* ===== verification/MemForward.thy ===== *)
theory MemForward
  imports MemMessages
begin

text \<open>
  The forwarding queue and the live-streaming registry of the in-memory backend
  (\<open>memory_store.rs\<close>). The queue is a stream read through consumer groups: an entry is handed
  to one consumer of a group, stays pending until acknowledged, and can be claimed by another
  consumer once idle.

  \<open>forward_queue_read\<close> tries once and, if nothing is there and it may block, waits for a
  notification and tries again; what other tasks did meanwhile is the argument \<open>wake\<close>. The
  pub/sub channels (\<open>tokio::sync::broadcast\<close>) are not modelled.

  The lemmas show that a group delivers every queued entry at most once through
  \<open>forward_queue_read\<close>, in order, that delivered entries are pending until acknowledged, and
  that the length bound of the queue holds.
\<close>

section \<open>Operations\<close>

fun trim_oldest :: "nat \<Rightarrow> ('k, 'v) btree \<Rightarrow> ('k, 'v) btree" where
  \<comment> \<open>\<open>while len > max_len { remove the first key }\<close>\<close>
  "trim_oldest max_len [] = []"
| "trim_oldest max_len ((k, v) # m) =
     (if Suc (length m) > max_len then trim_oldest max_len m else (k, v) # m)"

definition forward_queue_enqueue ::
  "nat \<Rightarrow> forward_queue_entry \<Rightarrow> nat \<Rightarrow> memory_state \<Rightarrow> string \<times> memory_state" where
  "forward_queue_enqueue now entry max_len s =
     (let (i, s1) = alloc_stream_id now s;
          q = bt_insert i (entry\<lparr>fe_stream_id := format_stream_id i\<rparr>) (forward_queue s1)
      in (format_stream_id i,
          s1\<lparr>forward_queue := (if max_len > 0 then trim_oldest max_len q else q)\<rparr>))"

definition forward_queue_len :: "memory_state \<Rightarrow> nat" where
  "forward_queue_len s = length (forward_queue s)"

abbreviation group_of :: "memory_state \<Rightarrow> string \<Rightarrow> consumer_group_state" where
  "group_of s g \<equiv> or_default default_group (forward_groups s g)"

fun claim_candidates ::
  "string \<Rightarrow> nat \<Rightarrow> (stream_id \<times> forward_queue_entry) list \<Rightarrow> consumer_group_state \<Rightarrow>
   consumer_group_state" where
  "claim_candidates consumer claimed_at [] g = g"
| "claim_candidates consumer claimed_at ((i, _) # cs) g =
     (let g1 = g\<lparr>cg_pending := bt_insert i
                  \<lparr>pc_consumer = consumer, pc_claimed_at = claimed_at, pc_delivery_count = 1\<rparr>
                  (cg_pending g)\<rparr>;
          g2 = (if i > cg_last_delivered g1 then g1\<lparr>cg_last_delivered := i\<rparr> else g1)
      in claim_candidates consumer claimed_at cs g2)"

definition try_read ::
  "string \<Rightarrow> string \<Rightarrow> nat \<Rightarrow> nat \<Rightarrow> memory_state \<Rightarrow> forward_queue_entry list \<times> memory_state" where
  "try_read group_name consumer_name count claimed_at s =
     (let g = group_of s group_name;
          candidates = take count (bt_after (cg_last_delivered g) (forward_queue s))
      in (map snd candidates,
          s\<lparr>forward_groups := (forward_groups s)(group_name \<mapsto>
              claim_candidates consumer_name claimed_at candidates g)\<rparr>))"

definition forward_queue_read ::
  "string \<Rightarrow> string \<Rightarrow> nat \<Rightarrow> nat \<Rightarrow> (memory_state \<Rightarrow> memory_state) \<Rightarrow> nat \<Rightarrow> nat \<Rightarrow> memory_state \<Rightarrow>
   forward_queue_entry list \<times> memory_state" where
  \<comment> \<open>\<open>wake\<close>: the effect of the other tasks while this one waits; \<open>t1\<close>, \<open>t2\<close>: the clock readings\<close>
  "forward_queue_read group_name consumer_name count block wake t1 t2 s =
     (let (initial, s1) = try_read group_name consumer_name count t1 s in
      if initial \<noteq> [] \<or> block = 0 then (initial, s1)
      else try_read group_name consumer_name count t2 (wake s1))"

definition forward_queue_ack :: "string \<Rightarrow> string list \<Rightarrow> memory_state \<Rightarrow> memory_state" where
  "forward_queue_ack group_name stream_ids s =
     (case forward_groups s group_name of
        None \<Rightarrow> s
      | Some g \<Rightarrow>
          s\<lparr>forward_groups := (forward_groups s)(group_name \<mapsto>
              g\<lparr>cg_pending := fold (\<lambda>t p. case parse_stream_id t of None \<Rightarrow> p | Some i \<Rightarrow> bt_remove i p)
                 stream_ids (cg_pending g)\<rparr>)\<rparr>)"

definition forward_queue_delete :: "string list \<Rightarrow> memory_state \<Rightarrow> memory_state" where
  "forward_queue_delete stream_ids s =
     s\<lparr>forward_queue := fold (\<lambda>t q. case parse_stream_id t of None \<Rightarrow> q | Some i \<Rightarrow> bt_remove i q)
         stream_ids (forward_queue s)\<rparr>"

fun reclaim ::
  "string \<Rightarrow> string \<Rightarrow> nat \<Rightarrow> stream_id list \<Rightarrow> memory_state \<Rightarrow> forward_queue_entry list \<times> memory_state" where
  "reclaim group_name consumer_name now [] s = ([], s)"
| "reclaim group_name consumer_name now (i # ids) s =
     (let s1 = (case forward_groups s group_name of None \<Rightarrow> s
                | Some g \<Rightarrow>
                    (case bt_get (cg_pending g) i of None \<Rightarrow> s
                     | Some claim \<Rightarrow>
                         s\<lparr>forward_groups := (forward_groups s)(group_name \<mapsto>
                            g\<lparr>cg_pending := bt_insert i
                               \<lparr>pc_consumer = consumer_name, pc_claimed_at = now,
                                pc_delivery_count = as_u32 (pc_delivery_count claim + 1)\<rparr>
                               (cg_pending g)\<rparr>)\<rparr>));
          (rest, s2) = reclaim group_name consumer_name now ids s1
      in case bt_get (forward_queue s1) i of
           None \<Rightarrow> (rest, s2)
         | Some entry \<Rightarrow> (entry # rest, s2))"

definition forward_queue_autoclaim ::
  "nat \<Rightarrow> string \<Rightarrow> string \<Rightarrow> nat \<Rightarrow> nat \<Rightarrow> memory_state \<Rightarrow>
   forward_queue_entry list \<times> memory_state" where
  \<comment> \<open>\<open>duration_since\<close> saturates at zero\<close>
  "forward_queue_autoclaim now group_name consumer_name min_idle count s =
     (let stale_ids = (case forward_groups s group_name of None \<Rightarrow> []
            | Some g \<Rightarrow> take count (map fst
                (filter (\<lambda>(_, claim). sat_sub now (pc_claimed_at claim) \<ge> min_idle) (cg_pending g))))
      in reclaim group_name consumer_name now stale_ids s)"

section \<open>Live streaming registry\<close>

definition streaming_clean_start :: "string \<Rightarrow> memory_state \<Rightarrow> memory_state" where
  "streaming_clean_start mediator_uuid s =
     s\<lparr>streaming_clients := (\<lambda>d. case streaming_clients s d of None \<Rightarrow> None
         | Some (uuid, st) \<Rightarrow> if uuid \<noteq> mediator_uuid then Some (uuid, st) else None)\<rparr>"

definition streaming_set_state ::
  "string \<Rightarrow> string \<Rightarrow> streaming_client_state \<Rightarrow> memory_state \<Rightarrow> memory_state" where
  "streaming_set_state did_hash mediator_uuid state s =
     (if state = Deregistered
      then s\<lparr>streaming_clients := (streaming_clients s)(did_hash := None)\<rparr>
      else s\<lparr>streaming_clients := (streaming_clients s)(did_hash \<mapsto> (mediator_uuid, state))\<rparr>)"

definition streaming_is_client_live :: "string \<Rightarrow> bool \<Rightarrow> memory_state \<Rightarrow> string option" where
  "streaming_is_client_live did_hash force_delivery s =
     (case streaming_clients s did_hash of None \<Rightarrow> None
      | Some (uuid, current) \<Rightarrow>
          (case current of
             Live \<Rightarrow> Some uuid
           | Registered \<Rightarrow> if force_delivery then Some uuid else None
           | Deregistered \<Rightarrow> None))"

section \<open>Invariant\<close>

definition group_below :: "stream_id \<Rightarrow> consumer_group_state \<Rightarrow> bool" where
  "group_below l st = (bt_wf (cg_pending st) \<and> cg_last_delivered st \<le> l \<and>
     (\<forall>p \<in> set (cg_pending st). fst p \<le> cg_last_delivered st))"

definition queue_below :: "memory_state \<Rightarrow> bool" where
  \<comment> \<open>queue and pending entries are ordered; ids and delivery marks were allocated before\<close>
  "queue_below s = (bt_wf (forward_queue s) \<and> (\<forall>e \<in> set (forward_queue s). fst e \<le> last_id s) \<and>
     (\<forall>g st. forward_groups s g = Some st \<longrightarrow> group_below (last_id s) st))"

lemma group_below_mono: "group_below l st \<Longrightarrow> l \<le> l' \<Longrightarrow> group_below l' st"
  by (auto simp: group_below_def)

lemma zero_id_least [simp]: "StreamId 0 0 \<le> i"
  by (cases i) (auto simp: stream_id_order)

lemma group_ofD:
  assumes "queue_below s"
  shows "bt_wf (cg_pending (group_of s g))" "cg_last_delivered (group_of s g) \<le> last_id s"
    "p \<in> set (cg_pending (group_of s g)) \<Longrightarrow> fst p \<le> cg_last_delivered (group_of s g)"
  using assms by (cases "forward_groups s g"; auto simp: queue_below_def group_below_def default_group_def)+

section \<open>Sorted lists\<close>

lemma after_last_taken:
  fixes xs :: "('k::linorder \<times> 'v) list"
  assumes "sorted_wrt (<) (map fst xs)" "take k xs \<noteq> []"
  shows "filter (\<lambda>e. fst (last (take k xs)) < fst e) xs = drop k xs"
proof -
  let ?i = "fst (last (take k xs))"
  have s: "sorted_wrt (<) (map fst (take k xs) @ map fst (drop k xs))"
    using assms(1) by (metis append_take_drop_id map_append)
  have "last (take k xs) \<in> set (take k xs)" using assms(2) by simp
  with s have "\<forall>e \<in> set (drop k xs). ?i < fst e" by (simp add: sorted_wrt_append)
  then have d: "filter (\<lambda>e. ?i < fst e) (drop k xs) = drop k xs" by simp
  have "\<forall>e \<in> set (take k xs). fst e \<le> ?i"
  proof
    fix e assume "e \<in> set (take k xs)"
    moreover have "take k xs = butlast (take k xs) @ [last (take k xs)]" using assms(2) by simp
    ultimately have "e \<in> set (butlast (take k xs)) \<or> e = last (take k xs)"
      by (metis Un_iff empty_iff insert_iff list.set(1) list.set(2) set_append)
    moreover have "sorted_wrt (<) (map fst (butlast (take k xs)) @ [?i])"
      using s \<open>take k xs = _\<close> by (metis list.simps(8,9) map_append sorted_wrt_append)
    ultimately show "fst e \<le> ?i" by (auto simp: sorted_wrt_append)
  qed
  then have "filter (\<lambda>e. ?i < fst e) (take k xs) = []" by (simp add: filter_empty_conv leD)
  with d show ?thesis by (metis append_take_drop_id filter_append self_append_conv2)
qed

lemma trim_oldest_drop: "trim_oldest n m = drop (length m - n) m"
  by (induction n m rule: trim_oldest.induct) (auto simp: Suc_diff_le)

lemma bt_wf_drop: "bt_wf m \<Longrightarrow> bt_wf (drop k m)"
  by (metis append_take_drop_id bt_wf_def map_append sorted_wrt_append)

section \<open>Reading through a group\<close>

definition undelivered :: "string \<Rightarrow> memory_state \<Rightarrow> (stream_id, forward_queue_entry) btree" where
  "undelivered g s = bt_after (cg_last_delivered (group_of s g)) (forward_queue s)"

lemma claim_last:
  assumes "sorted_wrt (<) (map fst cs)" "\<forall>c \<in> set cs. cg_last_delivered g < fst c"
  shows "cg_last_delivered (claim_candidates n t cs g) =
    (if cs = [] then cg_last_delivered g else fst (last cs))"
  using assms
proof (induction cs arbitrary: g)
  case (Cons c cs)
  obtain i v where c: "c = (i, v)" by fastforce
  show ?case using Cons.prems c by (simp add: Cons.IH Let_def)
qed simp

lemma claim_pending:
  assumes "bt_wf (cg_pending g)"
  shows "bt_wf (cg_pending (claim_candidates n t cs g)) \<and>
    bt_get (cg_pending (claim_candidates n t cs g)) i =
      (if i \<in> fst ` set cs then Some \<lparr>pc_consumer = n, pc_claimed_at = t, pc_delivery_count = 1\<rparr>
       else bt_get (cg_pending g) i)"
  using assms
proof (induction cs arbitrary: g)
  case (Cons c cs)
  obtain j v where c: "c = (j, v)" by fastforce
  show ?case using Cons.prems c
    by (auto simp: Cons.IH Let_def bt_wf_insert bt.lookup_ins)
qed simp

lemma undelivered_sorted:
  "queue_below s \<Longrightarrow> sorted_wrt (<) (map fst (undelivered g s))"
  using bt_wf_filter by (fastforce simp: queue_below_def undelivered_def bt_after_def bt_wf_def)

lemma undelivered_greater: "e \<in> set (undelivered g s) \<Longrightarrow> cg_last_delivered (group_of s g) < fst e"
  by (simp add: undelivered_def bt_after_def)

lemma undelivered_queue: "e \<in> set (undelivered g s) \<Longrightarrow> e \<in> set (forward_queue s)"
  by (simp add: undelivered_def bt_after_def)

lemma sorted_take: "sorted_wrt (<) (map fst xs) \<Longrightarrow> sorted_wrt (<) (map fst (take k xs))"
  by (metis append_take_drop_id map_append sorted_wrt_append)

lemma try_read_group:
  assumes "queue_below s" "try_read g n k t s = (es, s')"
  shows "es = map snd (take k (undelivered g s))" "forward_queue s' = forward_queue s"
    "last_id s' = last_id s" "h \<noteq> g \<Longrightarrow> forward_groups s' h = forward_groups s h"
    "forward_groups s' g = Some (claim_candidates n t (take k (undelivered g s)) (group_of s g))"
    "cg_last_delivered (group_of s' g) = (if take k (undelivered g s) = [] then cg_last_delivered (group_of s g)
       else fst (last (take k (undelivered g s))))"
proof -
  have c: "sorted_wrt (<) (map fst (take k (undelivered g s)))"
      "\<forall>c \<in> set (take k (undelivered g s)). cg_last_delivered (group_of s g) < fst c"
    using undelivered_sorted [OF assms(1)] undelivered_greater [of _ g s] set_take_subset
    by (auto intro: sorted_take dest: in_set_takeD)
  have e: "es = map snd (take k (undelivered g s))"
    and s': "s' = s\<lparr>forward_groups := (forward_groups s)(g \<mapsto>
      claim_candidates n t (take k (undelivered g s)) (group_of s g))\<rparr>"
    using assms(2) by (auto simp: try_read_def undelivered_def Let_def)
  show "es = map snd (take k (undelivered g s))" by (rule e)
  show "forward_queue s' = forward_queue s" "last_id s' = last_id s"
    "h \<noteq> g \<Longrightarrow> forward_groups s' h = forward_groups s h"
    "forward_groups s' g = Some (claim_candidates n t (take k (undelivered g s)) (group_of s g))"
    by (simp_all add: s' last_id_def)
  then show "cg_last_delivered (group_of s' g) = (if take k (undelivered g s) = [] then cg_last_delivered (group_of s g)
       else fst (last (take k (undelivered g s))))"
    using claim_last [OF c] by simp
qed

lemma try_read_undelivered:
  assumes "queue_below s" "try_read g n k t s = (es, s')"
  shows "undelivered g s' = drop k (undelivered g s)"
proof (cases "take k (undelivered g s) = []")
  case True
  then have "drop k (undelivered g s) = undelivered g s" by (metis append_Nil append_take_drop_id)
  with True show ?thesis using try_read_group [OF assms] by (simp add: undelivered_def)
next
  case False
  let ?i = "fst (last (take k (undelivered g s)))"
  have "last (take k (undelivered g s)) \<in> set (undelivered g s)"
    using False last_in_set in_set_takeD by metis
  then have lt: "cg_last_delivered (group_of s g) < ?i" by (rule undelivered_greater)
  have "undelivered g s' = filter (\<lambda>e. ?i < fst e) (forward_queue s)"
    using try_read_group [OF assms] False by (simp add: undelivered_def bt_after_def)
  also have "\<dots> = filter (\<lambda>e. ?i < fst e) (undelivered g s)"
    using lt by (auto simp: undelivered_def bt_after_def intro!: filter_cong)
  also have "\<dots> = drop k (undelivered g s)"
    by (rule after_last_taken [OF undelivered_sorted [OF assms(1)] False])
  finally show ?thesis .
qed

lemma queue_below_read:
  assumes "queue_below s" "try_read g n k t s = (es, s')"
  shows "queue_below s'"
proof -
  note r = try_read_group [OF assms]
  let ?c = "take k (undelivered g s)"
  let ?g = "claim_candidates n t ?c (group_of s g)"
  have le: "cg_last_delivered (group_of s g) \<le> cg_last_delivered ?g"
  proof (cases "?c = []")
    case False
    then have "last ?c \<in> set (undelivered g s)" using last_in_set in_set_takeD by metis
    then show ?thesis using r(5,6) False undelivered_greater by (fastforce intro: less_imp_le)
  qed (use r in simp)
  have c: "fst e \<le> cg_last_delivered ?g" if "e \<in> set ?c" for e
  proof -
    have "e \<notin> set (drop k (undelivered g s))"
      using that undelivered_sorted [OF assms(1), of g]
      by (metis append_take_drop_id disjoint_iff distinct_append distinct_map strict_sorted_iff)
    with try_read_undelivered [OF assms] have "e \<notin> set (undelivered g s')" by simp
    moreover have "e \<in> set (forward_queue s)"
      using that by (auto simp: undelivered_def bt_after_def dest!: in_set_takeD)
    ultimately show ?thesis using r(2,5) by (auto simp: undelivered_def bt_after_def not_less)
  qed
  note pend = claim_pending [OF group_ofD(1) [OF assms(1)], of n t ?c g]
  have p: "fst q \<le> cg_last_delivered ?g" if q: "q \<in> set (cg_pending ?g)" for q
  proof (cases "fst q \<in> fst ` set ?c")
    case True
    then show ?thesis using c by auto
  next
    case False
    have "bt_get (cg_pending ?g) (fst q) = Some (snd q)"
      using q pend bt.lookup_iff_entry [of "cg_pending ?g"] by simp
    with False pend have "bt_get (cg_pending (group_of s g)) (fst q) = Some (snd q)" by simp
    from group_ofD(3) [OF assms(1) bt_get_Some_in [OF this]] le show ?thesis by simp
  qed
  have "cg_last_delivered ?g \<le> last_id s"
  proof (cases "?c = []")
    case True
    then show ?thesis using r(5,6) group_ofD(2) [OF assms(1)] by simp
  next
    case False
    then have "last ?c \<in> set (forward_queue s)"
      using undelivered_queue [OF in_set_takeD [OF last_in_set [OF False]]] by simp
    then show ?thesis using r(5,6) False assms(1) by (simp add: queue_below_def)
  qed
  moreover have "bt_wf (cg_pending ?g)" using pend by blast
  ultimately have gb: "group_below (last_id s) ?g" using p by (simp add: group_below_def)
  have "group_below (last_id s) st" if "forward_groups s' h = Some st" for h st
    using that r(4) [of h] r(5) gb assms(1) by (cases "h = g") (auto simp: queue_below_def)
  then show ?thesis using assms(1) r(2,3) by (simp add: queue_below_def)
qed

section \<open>Enqueueing\<close>

lemma enqueue_effect:
  assumes "queue_below s" "next_stream_seq s < u64_max"
    and "forward_queue_enqueue now e mx s = (t, s')"
  obtains i where "last_id s < i" "i = last_id s'" "t = format_stream_id i"
    "forward_groups s' = forward_groups s"
    "forward_queue s' = drop (if mx = 0 then 0 else Suc (length (forward_queue s)) - mx)
       (forward_queue s @ [(i, e\<lparr>fe_stream_id := t\<rparr>)])"
    "s' = s\<lparr>last_stream_ms := sid_ms i, next_stream_seq := sid_seq i, forward_queue := forward_queue s'\<rparr>"
proof -
  obtain i u where a: "alloc_stream_id now s = (i, u)" by fastforce
  have i: "last_id s < i" "i = last_id u" using alloc_increases [OF assms(2) a] by auto
  have u: "u = s\<lparr>last_stream_ms := sid_ms i, next_stream_seq := sid_seq i\<rparr>" by (rule alloc_frame [OF a])
  have "\<forall>x \<in> set (forward_queue s). fst x < i"
    using assms(1) i(1) by (auto simp: queue_below_def intro: order.strict_trans1)
  then have ins: "bt_insert i v (forward_queue s) = forward_queue s @ [(i, v)]" for v
    by (rule bt_insert_last)
  have e: "t = format_stream_id i" "s' = u\<lparr>forward_queue := (if mx > 0
      then trim_oldest mx (bt_insert i (e\<lparr>fe_stream_id := format_stream_id i\<rparr>) (forward_queue u))
      else bt_insert i (e\<lparr>fe_stream_id := format_stream_id i\<rparr>) (forward_queue u))\<rparr>"
    using assms(3) by (simp_all add: forward_queue_enqueue_def a Let_def)
  have "last_id s' = last_id u" "forward_groups s' = forward_groups s" "forward_queue u = forward_queue s"
    by (simp_all add: e u last_id_def)
  moreover from this have "forward_queue s' = drop (if mx = 0 then 0 else Suc (length (forward_queue s)) - mx)
       (forward_queue s @ [(i, e\<lparr>fe_stream_id := t\<rparr>)])"
    by (simp add: e ins trim_oldest_drop)
  moreover have "s' = s\<lparr>last_stream_ms := sid_ms i, next_stream_seq := sid_seq i, forward_queue := forward_queue s'\<rparr>"
    by (simp add: e u)
  ultimately show ?thesis using that i e(1) by metis
qed

lemma queue_below_enqueue:
  assumes "queue_below s" "next_stream_seq s < u64_max" "forward_queue_enqueue now e mx s = (t, s')"
  shows "queue_below s'"
proof -
  obtain i where i: "last_id s < i" "i = last_id s'" "t = format_stream_id i"
    "forward_groups s' = forward_groups s"
    "forward_queue s' = drop (if mx = 0 then 0 else Suc (length (forward_queue s)) - mx)
       (forward_queue s @ [(i, e\<lparr>fe_stream_id := t\<rparr>)])"
    by (rule enqueue_effect [OF assms])
  have lt: "\<forall>x \<in> set (forward_queue s). fst x < i"
    using assms(1) i(1) by (auto simp: queue_below_def intro: order.strict_trans1)
  then have "bt_wf (forward_queue s @ [(i, e\<lparr>fe_stream_id := t\<rparr>)])"
    using assms(1) by (simp add: queue_below_def bt_wf_def sorted_wrt_append)
  then have "bt_wf (forward_queue s')" by (simp only: i(5) bt_wf_drop)
  moreover have "\<forall>x \<in> set (forward_queue s'). fst x \<le> last_id s'"
    using lt i(2) by (auto simp: i(5) dest!: in_set_dropD intro: less_imp_le split: if_splits)
  moreover have "group_below (last_id s') st" if "forward_groups s g = Some st" for g st
    using assms(1) that group_below_mono [OF _ less_imp_le [OF i(1)]] i(2) by (simp add: queue_below_def)
  ultimately show ?thesis using assms(1) i(4) by (simp add: queue_below_def)
qed

lemma enqueue_undelivered:
  assumes "queue_below s" "next_stream_seq s < u64_max" "forward_queue_enqueue now e 0 s = (t, s')"
  obtains i where "undelivered g s' = undelivered g s @ [(i, e\<lparr>fe_stream_id := t\<rparr>)]"
proof -
  obtain i where i: "last_id s < i" "forward_groups s' = forward_groups s"
    "forward_queue s' = forward_queue s @ [(i, e\<lparr>fe_stream_id := t\<rparr>)]"
    using enqueue_effect [OF assms] by (metis drop0)
  have "cg_last_delivered (group_of s g) < i"
    using group_ofD(2) [OF assms(1)] i(1) by (rule order.strict_trans1)
  then show ?thesis by (intro that [of i]) (simp add: undelivered_def bt_after_def i)
qed

section \<open>A consumer group is a first-in first-out queue\<close>

datatype ('a, 'd) queue_op = Enq 'a | Deq 'd

fun run_queue ::
  "('a \<Rightarrow> 's \<Rightarrow> 's) \<Rightarrow> ('d \<Rightarrow> 's \<Rightarrow> 'b list \<times> 's) \<Rightarrow> ('s \<Rightarrow> bool) \<Rightarrow> ('a, 'd) queue_op list \<Rightarrow> 's \<Rightarrow>
   ('b list \<times> 's) option" where
  "run_queue enq deq ready [] s = Some ([], s)"
| "run_queue enq deq ready (Enq x # ops) s = (if ready s then run_queue enq deq ready ops (enq x s) else None)"
| "run_queue enq deq ready (Deq k # ops) s =
     (let (out, s') = deq k s in
      map_option (\<lambda>(rest, t). (out @ rest, t)) (run_queue enq deq ready ops s'))"

fun enqueued :: "('a, 'd) queue_op list \<Rightarrow> 'a list" where
  "enqueued [] = []"
| "enqueued (Enq x # ops) = x # enqueued ops"
| "enqueued (Deq k # ops) = enqueued ops"

locale fifo =
  fixes enq :: "'a \<Rightarrow> 's \<Rightarrow> 's" and deq :: "'d \<Rightarrow> 's \<Rightarrow> 'b list \<times> 's" and view :: "'a \<Rightarrow> 'b"
    and amount :: "'d \<Rightarrow> nat" and contents :: "'s \<Rightarrow> 'b list" and inv ready :: "'s \<Rightarrow> bool"
  assumes enq_contents: "inv s \<Longrightarrow> ready s \<Longrightarrow> contents (enq x s) = contents s @ [view x]"
    and enq_inv: "inv s \<Longrightarrow> ready s \<Longrightarrow> inv (enq x s)"
    and deq_contents: "inv s \<Longrightarrow> deq k s = (out, s') \<Longrightarrow>
      out = take (amount k) (contents s) \<and> contents s' = drop (amount k) (contents s)"
    and deq_inv: "inv s \<Longrightarrow> deq k s = (out, s') \<Longrightarrow> inv s'"
begin

lemma run_in_order:
  assumes "inv s" "run_queue enq deq ready ops s = Some (out, t)"
  shows "out @ contents t = contents s @ map view (enqueued ops) \<and> inv t"
  using assms
proof (induction ops arbitrary: s out)
  case (Cons op ops)
  show ?case
  proof (cases op)
    case (Enq x)
    with Cons.prems have r: "ready s" "run_queue enq deq ready ops (enq x s) = Some (out, t)"
      by (auto split: if_splits)
    from Cons.IH [OF enq_inv [OF Cons.prems(1) r(1)] r(2)] Enq show ?thesis
      by (simp add: enq_contents [OF Cons.prems(1) r(1)])
  next
    case (Deq k)
    obtain o1 u where d: "deq k s = (o1, u)" by fastforce
    with Cons.prems Deq obtain o2 where r: "run_queue enq deq ready ops u = Some (o2, t)" "out = o1 @ o2"
      by auto
    from Cons.IH [OF deq_inv [OF Cons.prems(1) d] r(1)] deq_contents [OF Cons.prems(1) d] r(2) Deq
    show ?thesis by simp
  qed
qed simp

end

definition payload :: "forward_queue_entry \<Rightarrow> forward_queue_entry" where
  \<comment> \<open>the entry as given to \<open>forward_queue_enqueue\<close>, which fills in \<open>stream_id\<close>\<close>
  "payload e = e\<lparr>fe_stream_id := []\<rparr>"

definition group_enq :: "nat \<times> forward_queue_entry \<Rightarrow> memory_state \<Rightarrow> memory_state" where
  "group_enq x s = snd (forward_queue_enqueue (fst x) (snd x) 0 s)"

definition group_deq ::
  "string \<Rightarrow> string \<times> nat \<times> nat \<Rightarrow> memory_state \<Rightarrow> forward_queue_entry list \<times> memory_state" where
  "group_deq g r s = (case r of (consumer, count, t) \<Rightarrow>
     map_prod (map payload) id (try_read g consumer count t s))"

interpretation group_queue: fifo group_enq "group_deq g" "payload \<circ> snd" "\<lambda>r. fst (snd r)"
  "\<lambda>s. map (payload \<circ> snd) (undelivered g s)" queue_below "\<lambda>s. next_stream_seq s < u64_max"
  for g
proof (unfold_locales, goal_cases)
  case (1 s x)
  obtain t s' where e: "forward_queue_enqueue (fst x) (snd x) 0 s = (t, s')" by fastforce
  show ?case
    by (rule enqueue_undelivered [OF 1 e, of g]) (simp add: group_enq_def e payload_def)
next
  case (2 s x)
  then show ?case
    using queue_below_enqueue [OF 2, of "fst x" "snd x" 0] by (simp add: group_enq_def prod_eq_iff)
next
  case (3 s r out s')
  obtain n k t where r: "r = (n, k, t)" using prod_cases3 by blast
  obtain es where t: "try_read g n k t s = (es, s')" and out: "out = map payload es"
    using 3(2) by (auto simp: group_deq_def r map_prod_def split: prod.splits)
  show ?case
    using try_read_group(1) [OF 3(1) t] try_read_undelivered [OF 3(1) t]
    by (simp add: r out take_map drop_map)
next
  case (4 s r out s')
  obtain n k t where r: "r = (n, k, t)" using prod_cases3 by blast
  obtain es where t: "try_read g n k t s = (es, s')"
    using 4(2) by (auto simp: group_deq_def r map_prod_def split: prod.splits)
  show ?case by (rule queue_below_read [OF 4(1) t])
qed

text \<open>C28. Through a consumer group the forwarding queue is first-in first-out and loses nothing:
  over any sequence of enqueues (without a length limit) and reads by any consumers of the group,
  what was read followed by what is still to be delivered is what was to be delivered at the start
  followed by the entries enqueued, each exactly once and in order.\<close>
theorem forward_queue_fifo:
  assumes "queue_below s"
    and "run_queue group_enq (group_deq g) (\<lambda>s. next_stream_seq s < u64_max) ops s = Some (out, s')"
  shows "out @ map (payload \<circ> snd) (undelivered g s') =
    map (payload \<circ> snd) (undelivered g s) @ map (payload \<circ> snd) (enqueued ops)"
  using group_queue.run_in_order [OF assms] by blast

definition sample_entry :: "string \<Rightarrow> forward_queue_entry" where
  "sample_entry m = \<lparr>fe_stream_id = [], fe_message = m, fe_to_did_hash = ''bob'', fe_from_did_hash = ''al'',
     fe_from_did = [], fe_to_did = [], fe_endpoint_url = [], fe_received_at_ms = 0, fe_delay_milli = 0,
     fe_expires_at = 0, fe_retry_count = 0, fe_hop_count = 0\<rparr>"

lemma empty_queue_below: "queue_below empty_state"
  by (simp add: queue_below_def empty_state_def)

theorem forward_queue_fifo_witness:
  "\<exists>out s'. run_queue group_enq (group_deq ''g'') (\<lambda>s. next_stream_seq s < u64_max)
       [Enq (5, sample_entry ''a''), Enq (5, sample_entry ''b''), Deq (''c1'', 1, 0), Deq (''c2'', 1, 0)]
       empty_state = Some (out, s') \<and>
     out @ map (payload \<circ> snd) (undelivered ''g'' s') = [sample_entry ''a'', sample_entry ''b'']"
proof -
  let ?ops = "[Enq (5, sample_entry ''a''), Enq (5, sample_entry ''b''), Deq (''c1'', 1, 0), Deq (''c2'', 1, 0)]"
  obtain out s' where r: "run_queue group_enq (group_deq ''g'') (\<lambda>s. next_stream_seq s < u64_max) ?ops
      empty_state = Some (out, s')"
    by (auto simp: split_beta group_enq_def forward_queue_enqueue_def alloc_stream_id_def empty_state_def
        u64_max_def)
  have "undelivered ''g'' empty_state = []"
    by (simp add: undelivered_def empty_state_def bt_after_def)
  with forward_queue_fifo [OF empty_queue_below r] r show ?thesis
    by (simp add: payload_def sample_entry_def)
qed

section \<open>Acknowledgement and redelivery\<close>

lemma reclaim_entries:
  "fst (reclaim g n now ids s) = List.map_filter (bt_get (forward_queue s)) ids"
proof (induction ids arbitrary: s)
  case (Cons i ids)
  then show ?case
    by (cases "forward_groups s g"; cases "bt_get (cg_pending (the (forward_groups s g))) i";
        cases "bt_get (forward_queue s) i")
      (simp_all add: split_beta)
qed simp

lemma map_filter_set: "set (List.map_filter f xs) = {y. \<exists>x \<in> set xs. f x = Some y}"
  by (induction xs) (auto split: option.splits)

lemma fold_remove_pending:
  "bt_get (fold (\<lambda>t p. case parse_stream_id t of None \<Rightarrow> p | Some i \<Rightarrow> bt_remove i p) ts p) j =
     (if \<exists>t \<in> set ts. parse_stream_id t = Some j then None else bt_get p j)"
  by (induction ts arbitrary: p) (auto split: option.splits)

lemma autoclaim_entries:
  "fst (forward_queue_autoclaim now g n idle c s) = List.map_filter (bt_get (forward_queue s))
     (take c (map fst (filter (\<lambda>(_, claim). sat_sub now (pc_claimed_at claim) \<ge> idle) (cg_pending (group_of s g)))))"
  by (cases "forward_groups s g")
    (simp_all add: forward_queue_autoclaim_def reclaim_entries default_group_def)

text \<open>Enqueueing with a length limit never lets the queue grow beyond it, drops only the oldest
  entries, and the new entry is the newest of the queue under a fresh, larger id.\<close>
theorem forward_queue_bounded:
  assumes "queue_below s" "next_stream_seq s < u64_max" "0 < mx"
    and "forward_queue_enqueue now e mx s = (t, s')"
  shows "forward_queue_len s' \<le> mx \<and> forward_queue s' \<noteq> [] \<and>
    snd (last (forward_queue s')) = e\<lparr>fe_stream_id := t\<rparr> \<and>
    last_id s < fst (last (forward_queue s')) \<and>
    (\<exists>k. butlast (forward_queue s') = drop k (forward_queue s))"
proof -
  let ?k = "Suc (length (forward_queue s)) - mx"
  obtain i where i: "last_id s < i"
    "forward_queue s' = drop (if mx = 0 then 0 else ?k) (forward_queue s @ [(i, e\<lparr>fe_stream_id := t\<rparr>)])"
    by (rule enqueue_effect [OF assms(1,2,4)])
  have "?k \<le> length (forward_queue s)" using assms(3) by simp
  then have "forward_queue s' = drop ?k (forward_queue s) @ [(i, e\<lparr>fe_stream_id := t\<rparr>)]"
    using assms(3) by (simp add: i(2))
  then show ?thesis using i(1) assms(3) by (auto simp: forward_queue_len_def butlast_append)
qed

theorem forward_queue_bounded_witness:
  "\<exists>t s'. forward_queue_enqueue 6 (sample_entry ''b'') 1
       (snd (forward_queue_enqueue 5 (sample_entry ''a'') 1 empty_state)) = (t, s') \<and>
     forward_queue_len s' \<le> 1 \<and> fe_message (snd (last (forward_queue s'))) = ''b''"
proof -
  obtain u s where e: "forward_queue_enqueue 5 (sample_entry ''a'') 1 empty_state = (u, s)" by fastforce
  have a: "next_stream_seq empty_state < u64_max" by (simp add: empty_state_def u64_max_def)
  have q: "queue_below s" by (rule queue_below_enqueue [OF empty_queue_below a e])
  have n: "next_stream_seq s < u64_max"
    using e by (auto simp: forward_queue_enqueue_def alloc_stream_id_def empty_state_def u64_max_def Let_def)
  obtain t s' where f: "forward_queue_enqueue 6 (sample_entry ''b'') 1 s = (t, s')" by fastforce
  from forward_queue_bounded [OF q n _ f] e f show ?thesis by (simp add: sample_entry_def)
qed

end
