(* ===== verification/MemAccounts.thy ===== *)
theory MemAccounts
  imports MemMessages
begin

text \<open>
  Accounts, ACLs and access lists of the in-memory backend (\<open>memory_store.rs\<close>), with the
  reply types of \<open>types/accounts.rs\<close> and \<open>types/acls_handler.rs\<close>.

  The lemmas show what a lookup returns after each change, that access lists stay within their
  limit and without duplicates, that a client following the cursors of \<open>account_list\<close> and
  \<open>access_list_list\<close> sees every entry once, and what \<open>account_remove\<close> erases.
\<close>

section \<open>Replies\<close>

record mediator_account_list =
  ml_accounts :: "account list"
  ml_cursor :: nat

record acl_get_response =
  ag_acl_response :: "mediator_acl_expanded list"
  ag_mediator_acl_mode :: access_list_mode_type

record access_list_list_response =
  ls_did_hashes :: "string list"
  ls_cursor :: "nat option"

record access_list_add_response =
  ad_did_hashes :: "string list"
  ad_truncated :: bool

section \<open>Accounts\<close>

definition account_exists :: "string \<Rightarrow> memory_state \<Rightarrow> bool" where
  "account_exists did_hash s = (accounts s did_hash \<noteq> None)"

definition access_list_count :: "string \<Rightarrow> memory_state \<Rightarrow> nat" where
  "access_list_count did_hash s =
     (case access_lists s did_hash of None \<Rightarrow> 0 | Some v \<Rightarrow> as_u32 (length v))"

definition account_get :: "string \<Rightarrow> memory_state \<Rightarrow> account option" where
  "account_get did_hash s =
     (case accounts s did_hash of None \<Rightarrow> None
      | Some record \<Rightarrow> Some (into_account record did_hash (access_list_count did_hash s)))"

definition account_add ::
  "string \<Rightarrow> mediator_acl_set \<Rightarrow> nat option \<Rightarrow> memory_state \<Rightarrow> account \<times> memory_state" where
  "account_add did_hash acls queue_limit s =
     (let record = default_account_record\<lparr>ar_acls := acls\<rparr>;
          record = (case queue_limit of None \<Rightarrow> record
                    | Some limit \<Rightarrow> record\<lparr>ar_queue_send_limit := Some (u32_as_i32 limit),
                                      ar_queue_receive_limit := Some (u32_as_i32 limit)\<rparr>)
      in (into_account record did_hash 0,
          s\<lparr>known_dids := push_new did_hash (known_dids s),
            accounts := (accounts s)(did_hash \<mapsto> record)\<rparr>))"

definition account_set_role :: "string \<Rightarrow> account_type \<Rightarrow> memory_state \<Rightarrow> memory_state" where
  "account_set_role did_hash typ s =
     s\<lparr>accounts := (accounts s)(did_hash \<mapsto> (acct s did_hash)\<lparr>ar_role := typ\<rparr>),
       admins := (if is_admin typ then push_new did_hash (admins s)
                  else filter (\<lambda>d. d \<noteq> did_hash) (admins s))\<rparr>"

definition new_limit :: "int option \<Rightarrow> int option \<Rightarrow> int option" where
  \<comment> \<open>\<open>Some(-2)\<close> resets, \<open>Some(n)\<close> sets, \<open>None\<close> keeps\<close>
  "new_limit request current =
     (case request of None \<Rightarrow> current | Some n \<Rightarrow> if n = -2 then None else Some n)"

definition account_change_queue_limits ::
  "string \<Rightarrow> int option \<Rightarrow> int option \<Rightarrow> memory_state \<Rightarrow> memory_state" where
  "account_change_queue_limits did_hash send_queue_limit receive_queue_limit s =
     (let record = acct s did_hash in
      s\<lparr>accounts := (accounts s)(did_hash \<mapsto> record
          \<lparr>ar_queue_send_limit := new_limit send_queue_limit (ar_queue_send_limit record),
           ar_queue_receive_limit := new_limit receive_queue_limit (ar_queue_receive_limit record)\<rparr>)\<rparr>)"

section \<open>ACLs\<close>

definition set_did_acl ::
  "string \<Rightarrow> mediator_acl_set \<Rightarrow> memory_state \<Rightarrow> mediator_acl_set \<times> memory_state" where
  "set_did_acl did_hash acls s =
     (acls, s\<lparr>accounts := (accounts s)(did_hash \<mapsto> (acct s did_hash)\<lparr>ar_acls := acls\<rparr>)\<rparr>)"

definition get_did_acl :: "string \<Rightarrow> memory_state \<Rightarrow> mediator_acl_set option" where
  "get_did_acl did_hash s = map_option ar_acls (accounts s did_hash)"

definition get_did_acls ::
  "string list \<Rightarrow> access_list_mode_type \<Rightarrow> memory_state \<Rightarrow> store_error + acl_get_response" where
  "get_did_acls dids mediator_acl_mode s =
     (if length dids > 100
      then Inl (DatabaseError 27 ''memory'' ''# of DIDs cannot exceed 100'')
      else Inr \<lparr>ag_acl_response =
          List.map_filter (\<lambda>did. map_option (\<lambda>record.
            \<lparr>ae_did_hash = did, ae_acl_value = to_hex_string (ar_acls record),
             ae_acls = ar_acls record\<rparr>) (accounts s did)) dids,
        ag_mediator_acl_mode = mediator_acl_mode\<rparr>)"

section \<open>Access lists\<close>

definition access_list_allowed :: "string \<Rightarrow> string option \<Rightarrow> memory_state \<Rightarrow> bool" where
  "access_list_allowed to_hash from_hash s =
     (case accounts s to_hash of
        None \<Rightarrow> False
      | Some account \<Rightarrow>
          access_list_allowed_op (ar_acls account)
            (case from_hash of
               Some from \<Rightarrow> Known (case access_lists s to_hash of None \<Rightarrow> False | Some v \<Rightarrow> from \<in> set v)
             | None \<Rightarrow> Anonymous))"

definition access_list_list :: "string \<Rightarrow> nat \<Rightarrow> memory_state \<Rightarrow> access_list_list_response" where
  "access_list_list did_hash cursor s =
     (case access_lists s did_hash of
        None \<Rightarrow> \<lparr>ls_did_hashes = [], ls_cursor = None\<rparr>
      | Some v \<Rightarrow>
          let entries = page v cursor 100 in
          \<lparr>ls_did_hashes = entries,
           ls_cursor = (if cursor + length entries \<ge> length v then None
                        else Some (cursor + length entries))\<rparr>)"

definition access_list_add ::
  "nat \<Rightarrow> string \<Rightarrow> string list \<Rightarrow> memory_state \<Rightarrow> access_list_add_response \<times> memory_state" where
  "access_list_add access_list_limit did_hash hashes s =
     (let lst = or_default [] (access_lists s did_hash);
          current = length lst;
          truncated = (current + length hashes > access_list_limit);
          to_add = (if truncated then take (sat_sub access_list_limit current) hashes else hashes)
      in (\<lparr>ad_did_hashes = to_add, ad_truncated = truncated\<rparr>,
          s\<lparr>access_lists := (access_lists s)(did_hash \<mapsto> fold push_new to_add lst)\<rparr>))"

definition access_list_remove ::
  "string \<Rightarrow> string list \<Rightarrow> memory_state \<Rightarrow> nat \<times> memory_state" where
  "access_list_remove did_hash hashes s =
     (case access_lists s did_hash of
        None \<Rightarrow> (0, s)
      | Some lst \<Rightarrow>
          let kept = filter (\<lambda>d. d \<notin> set hashes) lst in
          (length lst - length kept, s\<lparr>access_lists := (access_lists s)(did_hash \<mapsto> kept)\<rparr>))"

definition access_list_clear :: "string \<Rightarrow> memory_state \<Rightarrow> memory_state" where
  "access_list_clear did_hash s = s\<lparr>access_lists := (access_lists s)(did_hash := None)\<rparr>"

definition access_list_get :: "string \<Rightarrow> string list \<Rightarrow> memory_state \<Rightarrow> string list" where
  "access_list_get did_hash hashes s =
     (case access_lists s did_hash of None \<Rightarrow> [] | Some v \<Rightarrow> filter (\<lambda>h. h \<in> set v) hashes)"

section \<open>Removing and listing accounts\<close>

definition blocked_acls :: mediator_acl_set where
  \<comment> \<open>\<open>MediatorACLSet::default()\<close> after \<open>set_blocked(true)\<close>\<close>
  "blocked_acls = set_blocked default_acl_set True"

definition account_remove ::
  "string \<Rightarrow> memory_state \<Rightarrow> (store_error + bool) \<times> memory_state" where
  "account_remove did_hash s0 =
     (if (case accounts s0 did_hash of None \<Rightarrow> False
          | Some record \<Rightarrow> ar_role record = Mediator \<or> ar_role record = RootAdmin)
      then (Inl (InternalError 18 ''memory'' ''Cannot remove the mediator or root admin account''), s0)
      else
        let s1 = snd (set_did_acl did_hash blocked_acls s0);
            s2 = delete_folder_stream did_hash Outbox s1;
            s3 = snd (purge_folder did_hash Inbox s2)
        in (Inr True,
            s3\<lparr>accounts := (accounts s3)(did_hash := None),
               access_lists := (access_lists s3)(did_hash := None),
               admins := filter (\<lambda>d. d \<noteq> did_hash) (admins s3),
               known_dids := filter (\<lambda>d. d \<noteq> did_hash) (known_dids s3)\<rparr>))"

definition account_list :: "nat \<Rightarrow> nat \<Rightarrow> memory_state \<Rightarrow> mediator_account_list" where
  "account_list cursor limit s =
     (let dids = page (known_dids s) cursor (min limit 100)
      in \<lparr>ml_accounts = List.map_filter (\<lambda>did. account_get did s) dids,
          ml_cursor = (if cursor + length dids \<ge> length (known_dids s) then 0
                       else cursor + length dids)\<rparr>)"

section \<open>Access lists: the contract and its use\<close>

text \<open>
  The interface of the access lists: membership after each change. A client reads the state
  only through \<open>member\<close>.
\<close>

locale access_registry =
  fixes member :: "'s \<Rightarrow> 'k \<Rightarrow> 'k \<Rightarrow> bool"
    and add :: "nat \<Rightarrow> 'k \<Rightarrow> 'k list \<Rightarrow> 's \<Rightarrow> 'k list \<times> 's"
    and remove :: "'k \<Rightarrow> 'k list \<Rightarrow> 's \<Rightarrow> 's"
    and clear :: "'k \<Rightarrow> 's \<Rightarrow> 's"
  assumes member_add: "add lim d hs s = (added, s') \<Longrightarrow>
      member s' d' h \<longleftrightarrow> member s d' h \<or> d' = d \<and> h \<in> set added"
    and added_subset: "add lim d hs s = (added, s') \<Longrightarrow> set added \<subseteq> set hs"
    and member_remove: "member (remove d hs s) d' h \<longleftrightarrow> member s d' h \<and> \<not> (d' = d \<and> h \<in> set hs)"
    and member_clear: "member (clear d s) d' h \<longleftrightarrow> member s d' h \<and> d' \<noteq> d"
begin

lemma add_then_remove:
  assumes "add lim d hs s = (added, s')" "\<And>h. h \<in> set hs \<Longrightarrow> \<not> member s d h"
  shows "member (remove d hs s') d' h \<longleftrightarrow> member s d' h"
  using assms added_subset [OF assms(1)] by (auto simp: member_remove member_add)

lemma others_untouched:
  assumes "d' \<noteq> d"
  shows "add lim d hs s = (added, s') \<Longrightarrow> member s' d' h \<longleftrightarrow> member s d' h"
    and "member (remove d hs s) d' h \<longleftrightarrow> member s d' h"
    and "member (clear d s) d' h \<longleftrightarrow> member s d' h"
  using assms by (auto simp: member_remove member_add member_clear)

end

definition on_access_list :: "memory_state \<Rightarrow> string \<Rightarrow> string \<Rightarrow> bool" where
  "on_access_list s d h = (h \<in> set (or_default [] (access_lists s d)))"

interpretation access: access_registry on_access_list
  "\<lambda>lim d hs s. (ad_did_hashes (fst (access_list_add lim d hs s)), snd (access_list_add lim d hs s))"
  "\<lambda>d hs s. snd (access_list_remove d hs s)" access_list_clear
  by unfold_locales
    (auto simp: on_access_list_def access_list_add_def access_list_remove_def access_list_clear_def
      Let_def set_fold_push_new or_default_def dest: in_set_takeD split: option.splits if_splits)

lemma allowed_iff:
  "access_list_allowed to (Some h) s \<longleftrightarrow> (\<exists>a. accounts s to = Some a \<and>
     (on_access_list s to h \<longleftrightarrow> fst (get_access_list_mode (ar_acls a)) = ExplicitAllow))"
  by (cases "fst (get_access_list_mode (ar_acls (the (accounts s to))))")
    (auto simp: access_list_allowed_def on_access_list_def or_default_def split: option.splits)

lemma access_list_frame [simp]:
  "accounts (snd (access_list_add lim d hs s)) = accounts s"
  "accounts (snd (access_list_remove d hs s)) = accounts s"
  "accounts (access_list_clear d s) = accounts s"
  by (simp_all add: access_list_add_def access_list_remove_def access_list_clear_def Let_def
      split: option.splits)

text \<open>C30. The access list decides delivery. For a recipient with an account, a known sender is
  allowed exactly when being on the recipient's list agrees with the list mode (explicit allow: on
  it; explicit deny: not on it); adding, removing and clearing change that list and no other.\<close>
theorem access_list_decides_delivery:
  assumes "accounts s to = Some a"
    and "mode_allow = (fst (get_access_list_mode (ar_acls a)) = ExplicitAllow)"
  shows "(access_list_allowed to (Some h) s \<longleftrightarrow> on_access_list s to h = mode_allow) \<and>
    (access_list_allowed to (Some h) (snd (access_list_add lim d hs s)) \<longleftrightarrow>
      (on_access_list s to h \<or> to = d \<and> h \<in> set (ad_did_hashes (fst (access_list_add lim d hs s))))
        = mode_allow) \<and>
    (access_list_allowed to (Some h) (snd (access_list_remove d hs s)) \<longleftrightarrow>
      (on_access_list s to h \<and> \<not> (to = d \<and> h \<in> set hs)) = mode_allow) \<and>
    (access_list_allowed to (Some h) (access_list_clear d s) \<longleftrightarrow>
      (on_access_list s to h \<and> to \<noteq> d) = mode_allow)"
  using assms access.member_add [OF refl, of lim d hs s to h]
  by (simp add: allowed_iff access.member_remove access.member_clear)

theorem access_list_decides_delivery_witness:
  "\<exists>s. s = snd (access_list_add 10 ''bob'' [''alice''] (snd (account_add ''bob'' default_acl_set None empty_state))) \<and>
     access_list_allowed ''bob'' (Some ''alice'') s \<and>
     \<not> access_list_allowed ''bob'' (Some ''eve'') s \<and>
     \<not> access_list_allowed ''bob'' (Some ''alice'') (access_list_clear ''bob'' s)"
proof -
  let ?z = "snd (account_add ''bob'' default_acl_set None empty_state)"
  let ?s = "snd (access_list_add 10 ''bob'' [''alice''] ?z)"
  let ?a = "default_account_record\<lparr>ar_acls := default_acl_set\<rparr>"
  have a: "accounts ?s ''bob'' = Some ?a" by (simp add: account_add_def Let_def)
  have m: "True = (fst (get_access_list_mode (ar_acls ?a)) = ExplicitAllow)"
    by (simp add: get_access_list_mode_def default_acl_set_def)
  have l: "on_access_list ?s ''bob'' ''alice''" "\<not> on_access_list ?s ''bob'' ''eve''"
    by (simp_all add: on_access_list_def access_list_add_def Let_def account_add_def empty_state_def
        push_new_def)
  have "access_list_allowed ''bob'' (Some ''alice'') ?s" "\<not> access_list_allowed ''bob'' (Some ''eve'') ?s"
    "\<not> access_list_allowed ''bob'' (Some ''alice'') (access_list_clear ''bob'' ?s)"
    using access_list_decides_delivery [OF a m, of "''alice''" 0 "''bob''" "[]"]
      access_list_decides_delivery [OF a m, of "''eve''" 0 "''bob''" "[]"] l
    by simp_all
  then show ?thesis by (intro exI conjI) (rule refl)
qed

text \<open>\<open>access_list_add\<close> keeps the list within its limit and free of duplicates. Unless it
  reports truncation every requested hash is then on the list; when it truncates, exactly the
  reported hashes were added.\<close>
theorem access_list_add_bounded:
  assumes "access_list_add lim d hs s = (rsp, s')" "distinct (or_default [] (access_lists s d))"
    and "length (or_default [] (access_lists s d)) \<le> lim"
  shows "distinct (or_default [] (access_lists s' d)) \<and>
    length (or_default [] (access_lists s' d)) \<le> lim \<and>
    set (or_default [] (access_lists s' d)) =
      set (or_default [] (access_lists s d)) \<union> set (ad_did_hashes rsp) \<and>
    (ad_truncated rsp \<longleftrightarrow> lim < length (or_default [] (access_lists s d)) + length hs) \<and>
    (\<not> ad_truncated rsp \<longrightarrow> ad_did_hashes rsp = hs)"
proof -
  let ?l = "or_default [] (access_lists s d)"
  have l': "or_default [] (access_lists s' d) = fold push_new (ad_did_hashes rsp) ?l"
    and r: "ad_truncated rsp = (lim < length ?l + length hs)"
      "ad_did_hashes rsp = (if ad_truncated rsp then take (sat_sub lim (length ?l)) hs else hs)"
    using assms(1) by (auto simp: access_list_add_def Let_def)
  have "length ?l + length (ad_did_hashes rsp) \<le> lim"
    using r assms(3) by (auto simp: sat_sub_def)
  then show ?thesis
    using l' r assms(2) length_fold_push_new [of ?l "ad_did_hashes rsp"]
    by (auto simp: distinct_fold_push_new set_fold_push_new)
qed

theorem access_list_add_bounded_witness:
  "\<exists>rsp s'. access_list_add 2 ''bob'' [''a'', ''b'', ''c''] empty_state = (rsp, s') \<and>
     length (or_default [] (access_lists s' ''bob'')) \<le> 2 \<and> ad_truncated rsp"
proof -
  obtain rsp s' where a: "access_list_add 2 ''bob'' [''a'', ''b'', ''c''] empty_state = (rsp, s')" by fastforce
  show ?thesis using access_list_add_bounded [OF a] a by (simp add: empty_state_def)
qed

section \<open>Pages\<close>

definition accounts_known :: "memory_state \<Rightarrow> bool" where
  "accounts_known s = (distinct (known_dids s) \<and> (\<forall>d \<in> set (known_dids s). accounts s d \<noteq> None))"

lemma map_filter_all: "\<forall>x \<in> set xs. f x \<noteq> None \<Longrightarrow> List.map_filter f xs = map (the \<circ> f) xs"
  by (induction xs) auto

lemma account_get_hash: "account_get d s = Some a \<Longrightarrow> ac_did_hash a = d"
  by (auto simp: account_get_def into_account_def split: option.splits)

lemma listed_hashes:
  assumes "accounts_known s" "set ds \<subseteq> set (known_dids s)"
  shows "map ac_did_hash (List.map_filter (\<lambda>d. account_get d s) ds) = ds"
proof -
  have a: "\<forall>d \<in> set ds. account_get d s \<noteq> None"
    using assms by (auto simp: accounts_known_def account_get_def split: option.splits)
  then have "List.map_filter (\<lambda>d. account_get d s) ds = map (\<lambda>d. the (account_get d s)) ds"
    by (simp add: map_filter_all comp_def)
  then show ?thesis using a account_get_hash by (auto simp: map_idI)
qed

interpretation accounts_page: paged_listing known_dids accounts_known "\<lambda>l. min l 100"
  "\<lambda>c l s. (map ac_did_hash (ml_accounts (account_list c l s)), ml_cursor (account_list c l s))"
  by unfold_locales (simp_all add: account_list_def Let_def listed_hashes set_page)

lemma access_list_page:
  "(ls_did_hashes (access_list_list d c s), or_default 0 (ls_cursor (access_list_list d c s))) =
     (let l = or_default [] (access_lists s d) in
      (page l c 100, if length l \<le> c + length (page l c 100) then 0 else c + length (page l c 100)))"
  by (cases "access_lists s d") (auto simp: access_list_list_def Let_def page_def)

interpretation access_page: paged_listing "\<lambda>(d, s). or_default [] (access_lists s d)"
  "\<lambda>_. True" "\<lambda>_. 100"
  "\<lambda>c l (d, s). (ls_did_hashes (access_list_list d c s), or_default 0 (ls_cursor (access_list_list d c s)))"
  by unfold_locales (simp_all only: access_list_page Let_def split: prod.split, simp_all)

text \<open>A client that starts at cursor \<open>0\<close> and follows the cursors of \<open>account_list\<close>
  until it gets \<open>0\<close> back has seen every known account exactly once, in order, and so for the
  access list of a DID and \<open>access_list_list\<close>; no page is longer than 100.\<close>
theorem listings_complete:
  assumes "accounts_known s" "0 < l"
  shows "follow_pages (Suc (length (known_dids s)))
      (\<lambda>c. (map ac_did_hash (ml_accounts (account_list c l s)), ml_cursor (account_list c l s))) 0 =
      known_dids s \<and>
    follow_pages (Suc (length (or_default [] (access_lists s d))))
      (\<lambda>c. (ls_did_hashes (access_list_list d c s), or_default 0 (ls_cursor (access_list_list d c s)))) 0 =
      or_default [] (access_lists s d) \<and>
    length (ml_accounts (account_list c l s)) \<le> 100 \<and>
    length (ls_did_hashes (access_list_list d c s)) \<le> 100"
proof -
  have "length (fst (map ac_did_hash (ml_accounts (account_list c l s)), ml_cursor (account_list c l s)))
      \<le> min l 100"
    using accounts_page.serve_bounded [OF assms(1), of c l] by simp
  then show ?thesis
    using accounts_page.follow_all [OF assms, of "Suc (length (known_dids s))"]
      access_page.follow_all [where s = "(d, s)" and l = l and fuel = "Suc (length (or_default [] (access_lists s d)))"]
      access_page.serve_bounded [where s = "(d, s)" and c = c] assms(2)
    by simp
qed

theorem listings_complete_witness:
  "\<exists>s. s = snd (account_add ''bob'' default_acl_set None (snd (account_add ''al'' default_acl_set None empty_state))) \<and>
     follow_pages (Suc (length (known_dids s)))
      (\<lambda>c. (map ac_did_hash (ml_accounts (account_list c 1 s)), ml_cursor (account_list c 1 s))) 0 =
      [''al'', ''bob'']"
proof -
  let ?s = "snd (account_add ''bob'' default_acl_set None (snd (account_add ''al'' default_acl_set None empty_state)))"
  have k: "known_dids ?s = [''al'', ''bob'']"
    by (simp add: account_add_def Let_def empty_state_def push_new_def)
  have "accounts_known ?s"
    by (simp add: accounts_known_def k) (simp add: account_add_def Let_def)
  from listings_complete [OF this zero_less_one]
  have "follow_pages (Suc (length (known_dids ?s)))
      (\<lambda>c. (map ac_did_hash (ml_accounts (account_list c 1 ?s)), ml_cursor (account_list c 1 ?s))) 0 =
      known_dids ?s"
    by blast
  with k show ?thesis by metis
qed

section \<open>Removing an account\<close>

lemma purge_folder_state:
  "snd (purge_folder d f s) = delete_folder_stream d f
     (snd (purge_loop d (map (\<lambda>e. se_msg_id (snd e)) (or_default [] (folder_stream f d s))) 0 0 s))"
  by (cases "folder_stream f d s") (simp_all add: purge_folder_def Let_def split_beta)

lemma purge_folder_traffic: "traffic_only s (delete_folder_stream d f s') \<longleftrightarrow> traffic_only s s'"
  by (simp add: traffic_only_def delete_folder_stream_def last_id_def split: folder.splits)

lemma traffic_purge: "traffic_only s (snd (purge_folder d f s))"
  using kept_purge [OF traffic_removal traffic_refl, of s d _ 0 0]
  by (simp add: purge_folder_state purge_folder_traffic)

lemma purge_folder_messages:
  "messages (snd (purge_folder d Inbox s)) = (\<lambda>m. if m \<in> se_msg_id ` snd ` set (stream_of (inbox s) d) \<and>
     (\<exists>r. messages s m = Some r \<and> (mr_to_did_hash r = d \<or> mr_from_did_hash r = Some d))
     then None else messages s m)"
proof -
  let ?ids = "map (\<lambda>e. se_msg_id (snd e)) (stream_of (inbox s) d)"
  obtain n b s' where p: "purge_loop d ?ids 0 0 s = ((n, b), s')" by (metis surj_pair)
  then have "messages (snd (purge_folder d Inbox s)) = messages s'"
    by (simp add: purge_folder_state delete_folder_stream_def)
  with purge_loop_messages [OF p] show ?thesis by (simp add: image_image)
qed

lemma purge_inbox_empties:
  assumes "inbox_listed s" "messages (snd (purge_folder d Inbox s)) m = Some r"
  shows "mr_to_did_hash r \<noteq> d" "messages s m = Some r"
proof -
  show m: "messages s m = Some r"
    using assms(2) by (auto simp: purge_folder_messages split: if_splits)
  show "mr_to_did_hash r \<noteq> d"
  proof
    assume d: "mr_to_did_hash r = d"
    with assms(1) m obtain e where "bt_get (stream_of (inbox s) d) (mr_receive_id r) = Some e" "se_msg_id e = m"
      by (auto simp: inbox_listed_def)
    then have "m \<in> se_msg_id ` snd ` set (stream_of (inbox s) d)"
      by (force dest: bt_get_Some_in)
    with assms(2) m d show False by (auto simp: purge_folder_messages)
  qed
qed

lemma purge_inbox_None [simp]: "inbox (snd (purge_folder d Inbox s)) d = None"
  by (simp add: purge_folder_state delete_folder_stream_def)

lemma kept_outbox: "kept_by_removal (\<lambda>s. outbox s d = None)"
  by (auto simp: kept_by_removal_def drop_stream_apply split: option.splits)

lemma purge_keeps_outbox: "outbox s d = None \<Longrightarrow> outbox (snd (purge_folder d Inbox s)) d = None"
  using kept_purge [OF kept_outbox, of s d d _ 0 0]
  by (simp add: purge_folder_state delete_folder_stream_def)

definition is_protected :: "string \<Rightarrow> memory_state \<Rightarrow> bool" where
  "is_protected d s = (map_option ar_role (accounts s d) \<in> {Some Mediator, Some RootAdmin})"

lemma account_remove_effect:
  assumes "inbox_listed s" "account_remove d s = (res, s')"
  shows "(is_protected d s \<longrightarrow> \<not> is_ok res \<and> s' = s) \<and>
    (\<not> is_protected d s \<longrightarrow> res = Inr True \<and> account_get d s' = None \<and> access_lists s' d = None \<and>
       d \<notin> set (admins s') \<and> d \<notin> set (known_dids s') \<and> inbox s' d = None \<and> outbox s' d = None \<and>
       (\<forall>m r. messages s' m = Some r \<longrightarrow> mr_to_did_hash r \<noteq> d)) \<and>
    (\<forall>e. e \<noteq> d \<longrightarrow> map_option profile (accounts s' e) = map_option profile (accounts s e))"
proof (cases "is_protected d s")
  case True
  with assms(2) show ?thesis
    by (auto simp: is_protected_def account_remove_def split: option.splits)
next
  case False
  let ?blocked = "delete_folder_stream d Outbox (snd (set_did_acl d blocked_acls s))"
  let ?purged = "snd (purge_folder d Inbox ?blocked)"
  have s': "res = Inr True" "s' = ?purged\<lparr>accounts := (accounts ?purged)(d := None),
      access_lists := (access_lists ?purged)(d := None), admins := filter (\<lambda>x. x \<noteq> d) (admins ?purged),
      known_dids := filter (\<lambda>x. x \<noteq> d) (known_dids ?purged)\<rparr>"
    using assms(2) False
    by (auto simp: is_protected_def account_remove_def Let_def split: option.splits if_splits)
  have "inbox_listed ?blocked"
    using assms(1) by (simp add: inbox_listed_def delete_folder_stream_def set_did_acl_def)
  moreover have "outbox ?purged d = None"
    by (rule purge_keeps_outbox) (simp add: delete_folder_stream_def)
  moreover have "map_option profile (accounts ?purged e) = map_option profile (accounts s e)" if "e \<noteq> d" for e
    using traffic_purge [of ?blocked d Inbox] that
    by (simp add: traffic_only_def delete_folder_stream_def set_did_acl_def)
  ultimately show ?thesis
    using False purge_inbox_empties(1) [of ?blocked d]
    by (simp add: s' account_get_def)
qed

text \<open>\<open>account_remove\<close> refuses the mediator's and the root administrator's account and then
  changes nothing. For any other account it erases the record, its access list, its place in the
  admin set and in the listing, both its streams and every message addressed to it, and leaves the
  role, ACLs and limits of every other account as they were.\<close>
theorem account_remove_erases:
  assumes "inbox_listed s" "account_remove d s = (res, s')"
  shows "(is_protected d s \<longrightarrow> \<not> is_ok res \<and> s' = s) \<and>
    (\<not> is_protected d s \<longrightarrow> res = Inr True \<and> account_get d s' = None \<and> access_lists s' d = None \<and>
       d \<notin> set (admins s') \<and> d \<notin> set (known_dids s') \<and> inbox s' d = None \<and> outbox s' d = None \<and>
       (\<forall>m r. messages s' m = Some r \<longrightarrow> mr_to_did_hash r \<noteq> d)) \<and>
    (\<forall>e. e \<noteq> d \<longrightarrow> map_option profile (accounts s' e) = map_option profile (accounts s e))"
  by (rule account_remove_effect [OF assms])

theorem account_remove_erases_witness:
  "\<exists>s s'. s = snd (store_message (\<lambda>b. b) 7 7 7 ''m'' ''bob'' (Some ''alice'') 0
       (snd (account_add ''bob'' default_acl_set None empty_state))) \<and>
     account_remove ''bob'' s = (Inr True, s') \<and> messages s ''m'' \<noteq> None \<and> messages s' ''m'' = None"
proof -
  let ?z = "snd (account_add ''bob'' default_acl_set None empty_state)"
  let ?s = "snd (store_message (\<lambda>b. b) 7 7 7 ''m'' ''bob'' (Some ''alice'') 0 ?z)"
  obtain res s' where r: "account_remove ''bob'' ?s = (res, s')" by fastforce
  have inv0: "inbox_listed ?z" "ids_below ?z" "ids_available ?z"
    by (simp_all add: account_add_def Let_def empty_state_def inbox_listed_def ids_below_def
        streams_below_def u64_max_def)
  have l: "inbox_listed ?s" by (rule inbox_listed_store [OF inv0])
  have p: "\<not> is_protected ''bob'' ?s"
    by (simp add: is_protected_def store_message_accounts Let_def account_add_def sender_name_def
        anonymous_def count_received_def default_account_record_def)
  have m: "messages ?s ''m'' = Some r' \<longrightarrow> mr_to_did_hash r' = ''bob''" "messages ?s ''m'' \<noteq> None" for r'
    by (auto simp: store_message_messages)
  note e = account_remove_erases [OF l r]
  have "messages s' ''m'' = None"
  proof (rule ccontr)
    assume "messages s' ''m'' \<noteq> None"
    then obtain r' where r': "messages s' ''m'' = Some r'" by blast
    with e p have "mr_to_did_hash r' \<noteq> ''bob''" by blast
    moreover have "messages ?s ''m'' = Some r'"
      using r r' p
      by (auto simp: account_remove_def is_protected_def Let_def purge_folder_messages
          delete_folder_stream_def set_did_acl_def split: if_splits option.splits)
    ultimately show False using m by blast
  qed
  with e p r m(2) show ?thesis by auto
qed

end
