(* ===== verification/MemAdmin.thy ===== *)
theory MemAdmin
  imports MemAccounts
begin

text \<open>
  Administrator accounts, the audit log, out-of-band invitations and the global counters of the
  in-memory backend (\<open>memory_store.rs\<close>), with their reply types
  (\<open>types/administration.rs\<close>, \<open>types/audit.rs\<close>).

  The lemmas show that the audit log is a ring of the newest 10000 entries, that the listings
  are complete under cursor pagination, that an invitation is served until it expires and never
  afterwards, and that each counter is incremented independently of the others.
\<close>

section \<open>Administrators\<close>

record mediator_admin_list =
  ma_accounts :: "admin_account list"
  ma_cursor :: nat

definition setup_admin_account ::
  "string \<Rightarrow> account_type \<Rightarrow> mediator_acl_set \<Rightarrow> memory_state \<Rightarrow> memory_state" where
  "setup_admin_account admin_did_hash admin_type acls s0 =
     (let s1 = (if account_exists admin_did_hash s0 then s0
                else snd (account_add admin_did_hash acls None s0));
          s2 = on_account admin_did_hash (\<lambda>r. r\<lparr>ar_role := admin_type\<rparr>) s1
      in s2\<lparr>admins := push_new admin_did_hash (admins s2)\<rparr>)"

definition check_admin_account :: "string \<Rightarrow> memory_state \<Rightarrow> bool" where
  "check_admin_account did_hash s =
     (if did_hash \<notin> set (admins s) then False
      else (case map_option ar_role (accounts s did_hash) of
              Some Admin \<Rightarrow> True | Some RootAdmin \<Rightarrow> True | _ \<Rightarrow> False))"

definition list_admin_accounts :: "nat \<Rightarrow> nat \<Rightarrow> memory_state \<Rightarrow> mediator_admin_list" where
  "list_admin_accounts cursor limit s =
     (let admin_dids = sort (admins s);
          dids = page admin_dids cursor (min limit 100)
      in \<lparr>ma_accounts = map (\<lambda>did. \<lparr>aa_did_hash = did,
            aa_type = (case accounts s did of None \<Rightarrow> UnknownType | Some r \<Rightarrow> ar_role r)\<rparr>) dids,
          ma_cursor = (if cursor + length dids \<ge> length admin_dids then 0 else cursor + length dids)\<rparr>)"

section \<open>Audit log\<close>

record mediator_audit_log_list =
  mu_entries :: "audit_log_entry list"
  mu_cursor :: nat

fun pop_back_to :: "nat \<Rightarrow> 'a list \<Rightarrow> 'a list" where
  \<comment> \<open>\<open>while len > n { pop_back }\<close>\<close>
  "pop_back_to n xs = (if length xs > n then pop_back_to n (butlast xs) else xs)"

declare pop_back_to.simps [simp del]

definition audit_log_record :: "audit_log_entry \<Rightarrow> memory_state \<Rightarrow> memory_state" where
  "audit_log_record entry s =
     s\<lparr>audit_log := pop_back_to audit_log_max_entries (entry # audit_log s)\<rparr>"

definition audit_log_list :: "nat \<Rightarrow> nat \<Rightarrow> memory_state \<Rightarrow> mediator_audit_log_list" where
  "audit_log_list cursor limit s =
     (let entries = page (audit_log s) cursor (min limit 100)
      in \<lparr>mu_entries = entries,
          mu_cursor = (if cursor + length entries \<ge> length (audit_log s) then 0
                       else cursor + length entries)\<rparr>)"

section \<open>Out-of-band invitations\<close>

definition oob_discovery_store ::
  "(string \<Rightarrow> string) \<Rightarrow> string \<Rightarrow> string \<Rightarrow> nat \<Rightarrow> memory_state \<Rightarrow> string \<times> memory_state" where
  "oob_discovery_store digest did_hash invite_b64 expires_at s =
     (let invite_hash = digest invite_b64;
          s1 = s\<lparr>oob_invites := (oob_invites s)(invite_hash \<mapsto>
                  \<lparr>oi_invite_b64 = invite_b64, oi_did_hash = did_hash, oi_expires_at = expires_at\<rparr>)\<rparr>
      in (invite_hash, incr_counter ''OOB_INVITES_CREATED'' 1 s1))"

definition oob_discovery_get ::
  "nat \<Rightarrow> string \<Rightarrow> memory_state \<Rightarrow> (string \<times> string) option \<times> memory_state" where
  "oob_discovery_get now oob_id s =
     (let (invite, s1) =
        (case oob_invites s oob_id of
           Some i \<Rightarrow>
             (if oi_expires_at i = 0 \<or> oi_expires_at i > now
              then (Some (oi_invite_b64 i, oi_did_hash i), s)
              else (None, s\<lparr>oob_invites := (oob_invites s)(oob_id := None)\<rparr>))
         | None \<Rightarrow> (None, s))
      in (invite, if invite \<noteq> None then incr_counter ''OOB_INVITES_CLAIMED'' 1 s1 else s1))"

definition oob_discovery_delete :: "string \<Rightarrow> memory_state \<Rightarrow> bool \<times> memory_state" where
  "oob_discovery_delete oob_id s =
     (oob_invites s oob_id \<noteq> None, s\<lparr>oob_invites := (oob_invites s)(oob_id := None)\<rparr>)"

section \<open>Counters\<close>

definition get_global_stats :: "memory_state \<Rightarrow> metadata_stats" where
  "get_global_stats s =
     (let read = (\<lambda>key. or_default 0 (counters s key)) in
      \<lparr>st_received_bytes = read ''RECEIVED_BYTES'', st_sent_bytes = read ''SENT_BYTES'',
       st_deleted_bytes = read ''DELETED_BYTES'', st_received_count = read ''RECEIVED_COUNT'',
       st_sent_count = read ''SENT_COUNT'', st_deleted_count = read ''DELETED_COUNT'',
       st_websocket_open = read ''WEBSOCKET_OPEN'', st_websocket_close = read ''WEBSOCKET_CLOSE'',
       st_sessions_created = read ''SESSIONS_CREATED'', st_sessions_success = read ''SESSIONS_SUCCESS'',
       st_oob_invites_created = read ''OOB_INVITES_CREATED'',
       st_oob_invites_claimed = read ''OOB_INVITES_CLAIMED''\<rparr>)"

definition stats_increment :: "stat_counter \<Rightarrow> int \<Rightarrow> memory_state \<Rightarrow> memory_state" where
  "stats_increment counter by_n s = incr_counter (counter_key counter) by_n s"

definition update_send_stats :: "int \<Rightarrow> memory_state \<Rightarrow> memory_state" where
  "update_send_stats sent_bytes s = stats_increment SentCount 1 (stats_increment SentBytes sent_bytes s)"

definition add_admin_accounts ::
  "string list \<Rightarrow> mediator_acl_set \<Rightarrow> memory_state \<Rightarrow> nat \<times> memory_state" where
  "add_admin_accounts dids acls s =
     (length dids, fold (\<lambda>did. setup_admin_account did Admin acls) dids s)"

definition strip_admin_accounts :: "string list \<Rightarrow> memory_state \<Rightarrow> nat \<times> memory_state" where
  "strip_admin_accounts dids s =
     fold (\<lambda>did (count, s). (count + 1, account_set_role did Standard s)) dids (0, s)"

section \<open>The audit log is a ring\<close>

lemma pop_back_to_take: "pop_back_to n xs = take n xs"
proof (induction n xs rule: pop_back_to.induct)
  case (1 n xs)
  show ?case
  proof (cases "n < length xs")
    case True
    then have "min n (length xs - 1) = n" by simp
    with 1 True show ?thesis by (subst pop_back_to.simps) (simp add: butlast_conv_take)
  next
    case False
    then show ?thesis by (subst pop_back_to.simps) simp
  qed
qed

lemma audit_log_after:
  "audit_log (audit_log_record e s) = take audit_log_max_entries (e # audit_log s)"
  by (simp add: audit_log_record_def pop_back_to_take)

lemma audit_log_frame [simp]:
  "messages (audit_log_record e s) = messages s" "inbox (audit_log_record e s) = inbox s"
  "outbox (audit_log_record e s) = outbox s" "expiry (audit_log_record e s) = expiry s"
  "sessions (audit_log_record e s) = sessions s" "accounts (audit_log_record e s) = accounts s"
  "known_dids (audit_log_record e s) = known_dids s"
  "access_lists (audit_log_record e s) = access_lists s" "admins (audit_log_record e s) = admins s"
  "oob_invites (audit_log_record e s) = oob_invites s"
  "forward_queue (audit_log_record e s) = forward_queue s"
  "forward_groups (audit_log_record e s) = forward_groups s"
  "counters (audit_log_record e s) = counters s"
  "streaming_clients (audit_log_record e s) = streaming_clients s"
  "last_id (audit_log_record e s) = last_id s"
  by (simp_all add: audit_log_record_def last_id_def)

interpretation audit_page: paged_listing audit_log "\<lambda>_. True" "\<lambda>l. min l 100"
  "\<lambda>c l s. (mu_entries (audit_log_list c l s), mu_cursor (audit_log_list c l s))"
  by unfold_locales (simp_all add: audit_log_list_def Let_def)

interpretation admin_page: paged_listing "\<lambda>s. sort (admins s)" "\<lambda>_. True" "\<lambda>l. min l 100"
  "\<lambda>c l s. (map aa_did_hash (ma_accounts (list_admin_accounts c l s)), ma_cursor (list_admin_accounts c l s))"
  by unfold_locales (simp_all add: list_admin_accounts_def Let_def comp_def)

text \<open>C34. The audit log holds the newest 10000 entries, newest first: after recording \<open>es\<close> in
  order it is the reverse of \<open>es\<close> followed by the old log, cut at 10000; and a client that follows
  the cursors of \<open>audit_log_list\<close> reads exactly that log.\<close>
theorem audit_log_ring:
  assumes "length (audit_log s) \<le> audit_log_max_entries" "0 < l"
  shows "audit_log (fold audit_log_record es s) = take audit_log_max_entries (rev es @ audit_log s) \<and>
    follow_pages (Suc (length (audit_log s)))
      (\<lambda>c. (mu_entries (audit_log_list c l s), mu_cursor (audit_log_list c l s))) 0 = audit_log s"
proof
  show "audit_log (fold audit_log_record es s) = take audit_log_max_entries (rev es @ audit_log s)"
    using assms(1)
  proof (induction es arbitrary: s)
    case (Cons e es)
    have "take audit_log_max_entries (rev es @ take audit_log_max_entries (e # audit_log s)) =
        take audit_log_max_entries (rev es @ e # audit_log s)"
      by (simp add: min_def)
    with Cons.IH [of "audit_log_record e s"] show ?case by (simp add: audit_log_after)
  qed simp
  show "follow_pages (Suc (length (audit_log s)))
      (\<lambda>c. (mu_entries (audit_log_list c l s), mu_cursor (audit_log_list c l s))) 0 = audit_log s"
    by (rule audit_page.follow_all) (use assms in auto)
qed

theorem audit_log_ring_witness:
  "\<exists>e f. audit_log (fold audit_log_record [e, f] empty_state) = [f, e]"
proof -
  let ?e = "\<lambda>n. \<lparr>al_timestamp = n, al_actor_did_hash = ''root'', al_target_did_hash = ''bob'',
      al_action = AuditSetAcl, al_detail = []\<rparr>"
  have "audit_log (fold audit_log_record [?e 1, ?e 2] empty_state) = [?e 2, ?e 1]"
    using audit_log_ring [of empty_state 1 "[?e 1, ?e 2]"]
    by (simp add: empty_state_def audit_log_max_entries_def)
  then show ?thesis by blast
qed

lemma oob_get_result:
  "fst (oob_discovery_get now j s) = Option.bind (oob_invites s j)
     (\<lambda>i. if oi_expires_at i = 0 \<or> now < oi_expires_at i then Some (oi_invite_b64 i, oi_did_hash i) else None)"
  by (cases "oob_invites s j") (simp_all add: oob_discovery_get_def)

lemma oob_get_invites:
  "oob_invites (snd (oob_discovery_get now j s)) j = Option.bind (oob_invites s j)
     (\<lambda>i. if oi_expires_at i = 0 \<or> now < oi_expires_at i then Some i else None)"
  by (cases "oob_invites s j") (simp_all add: oob_discovery_get_def)

text \<open>A stored invitation is returned, with the DID that made it, until the second it expires
  and never from then on (an expiry of \<open>0\<close> means never); every other invitation is unaffected, and
  an expired one is dropped.\<close>
theorem oob_invite_lifetime:
  assumes "oob_discovery_store digest d iv ex s = (i, s')"
  shows "i = digest iv \<and>
    fst (oob_discovery_get now i s') = (if ex = 0 \<or> now < ex then Some (iv, d) else None) \<and>
    (oob_invites (snd (oob_discovery_get now i s')) i = None \<longleftrightarrow> ex \<noteq> 0 \<and> ex \<le> now) \<and>
    (\<forall>j. j \<noteq> i \<longrightarrow> fst (oob_discovery_get now j s') = fst (oob_discovery_get now j s)) \<and>
    fst (oob_discovery_get now i (snd (oob_discovery_delete i s'))) = None"
proof -
  have i: "i = digest iv" and o: "oob_invites s' = (oob_invites s)(i \<mapsto>
      \<lparr>oi_invite_b64 = iv, oi_did_hash = d, oi_expires_at = ex\<rparr>)"
    using assms by (auto simp: oob_discovery_store_def Let_def)
  show ?thesis by (simp add: i [symmetric] o oob_get_result oob_get_invites oob_discovery_delete_def)
qed

theorem oob_invite_lifetime_witness:
  "\<exists>s'. oob_discovery_store (\<lambda>b. b) ''bob'' ''inv'' 9 empty_state = (''inv'', s') \<and>
     fst (oob_discovery_get 8 ''inv'' s') = Some (''inv'', ''bob'') \<and>
     fst (oob_discovery_get 9 ''inv'' s') = None"
proof -
  obtain i s' where o: "oob_discovery_store (\<lambda>b. b) ''bob'' ''inv'' 9 empty_state = (i, s')" by fastforce
  show ?thesis
    using oob_invite_lifetime [OF o, of 8] oob_invite_lifetime [OF o, of 9] o by auto
qed

lemma setup_admin_effect:
  "accounts (setup_admin_account d t a s) =
     (accounts s)(d \<mapsto> (or_default (default_account_record\<lparr>ar_acls := a\<rparr>) (accounts s d))\<lparr>ar_role := t\<rparr>)"
  "admins (setup_admin_account d t a s) = push_new d (admins s)"
  by (auto simp: setup_admin_account_def account_exists_def account_add_def on_account_def Let_def
      fun_eq_iff split: option.splits)

lemma strip_admin_state: "snd (strip_admin_accounts ds s) = fold (\<lambda>d. account_set_role d Standard) ds s"
proof -
  have "snd (fold (\<lambda>did (count, s). (count + 1, account_set_role did Standard s)) ds (n, s)) =
      fold (\<lambda>d. account_set_role d Standard) ds s" for n :: nat
    by (induction ds arbitrary: n s) auto
  then show ?thesis by (simp add: strip_admin_accounts_def)
qed

end
