(* ===== verification/MemSessions.thy ===== *)
theory MemSessions
  imports MemAdmin
begin

text \<open>
  Sessions: the operations of the in-memory backend (\<open>memory_store.rs\<close>) and the default
  methods of the storage trait built on them (\<open>store/mod.rs\<close>: \<open>create_session\<close>,
  \<open>update_session_authenticated\<close>, \<open>rename_session_fail_closed\<close>,
  \<open>update_refresh_token_hash\<close>, \<open>get_refresh_token_hash\<close>).

  A default method is written against whatever backend provides \<open>get_session\<close>,
  \<open>put_session\<close>, \<open>delete_session\<close> and \<open>stats_increment\<close>, so here it takes these
  as arguments; each may fail. The locale \<open>session_store\<close> states what the backend promises and
  is interpreted on the in-memory store.
\<close>

section \<open>In-memory backend\<close>

definition put_session :: "nat \<Rightarrow> session \<Rightarrow> nat \<Rightarrow> memory_state \<Rightarrow> (store_error + unit) \<times> memory_state" where
  "put_session now session ttl s =
     (Inr (), s\<lparr>sessions := AList.update (ss_session_id session)
        \<lparr>sn_session = session, sn_expires_at = now + ttl\<rparr> (sessions s)\<rparr>)"

definition get_session ::
  "(string \<Rightarrow> string) \<Rightarrow> nat \<Rightarrow> string \<Rightarrow> string \<Rightarrow> memory_state \<Rightarrow> (store_error + session) \<times> memory_state" where
  "get_session digest now session_id did s =
     (case get_session_record now session_id s of
        (None, s1) \<Rightarrow> (Inl (SessionError 14 session_id (''Session not found: '' @ session_id)), s1)
      | (Some record, s1) \<Rightarrow>
          let session = sn_session record in
          (Inr (if did \<noteq> [] then
                  (case accounts s1 (digest did) of
                     None \<Rightarrow> session
                   | Some account \<Rightarrow> session\<lparr>ss_acls := ar_acls account, ss_account_type := ar_role account\<rparr>)
                else session), s1))"

definition delete_session :: "string \<Rightarrow> memory_state \<Rightarrow> (store_error + unit) \<times> memory_state" where
  "delete_session session_id s = (Inr (), s\<lparr>sessions := AList.delete session_id (sessions s)\<rparr>)"

definition sweep_expired_sessions :: "nat \<Rightarrow> memory_state \<Rightarrow> session_sweep_report \<times> memory_state" where
  "sweep_expired_sessions now s =
     (let before = length (sessions s);
          kept = filter (\<lambda>(_, record). sn_expires_at record > now) (sessions s)
      in (\<lparr>sr_scanned = as_u32 before, sr_expired = as_u32 (before - length kept)\<rparr>,
          s\<lparr>sessions := kept\<rparr>))"

definition stats_increment_ok :: "stat_counter \<Rightarrow> int \<Rightarrow> memory_state \<Rightarrow> (store_error + unit) \<times> memory_state" where
  \<comment> \<open>\<open>stats_increment\<close> as a fallible operation\<close>
  "stats_increment_ok c n s = (Inr (), stats_increment c n s)"

section \<open>Default methods of the trait\<close>

definition create_session ::
  "(session \<Rightarrow> nat \<Rightarrow> 's \<Rightarrow> ('e + unit) \<times> 's) \<Rightarrow> (stat_counter \<Rightarrow> int \<Rightarrow> 's \<Rightarrow> ('e + unit) \<times> 's) \<Rightarrow>
   session \<Rightarrow> 's \<Rightarrow> ('e + unit) \<times> 's" where
  "create_session put stat session =
     try_then (put session 900) (\<lambda>_. stat SessionsCreated 1)"

definition rename_session_fail_closed ::
  "string \<Rightarrow> string \<Rightarrow> ('s \<Rightarrow> ('e + unit) \<times> 's) \<Rightarrow> ('s \<Rightarrow> ('e + unit) \<times> 's) \<Rightarrow> 's \<Rightarrow> ('e + unit) \<times> 's" where
  "rename_session_fail_closed old_session_id new_session_id delete_old put_new =
     try_then (if old_session_id \<noteq> new_session_id then delete_old else try_return ())
       (\<lambda>_. try_then put_new (\<lambda>_. try_return ()))"

definition authenticated_session ::
  "(string \<Rightarrow> string) \<Rightarrow> ('e + session) \<Rightarrow> string \<Rightarrow> string \<Rightarrow> string \<Rightarrow> session" where
  \<comment> \<open>the session that replaces the challenge session\<close>
  "authenticated_session digest found new_session_id did refresh_token_hash =
     (let session = (case found of Inr x \<Rightarrow> x
            | Inl _ \<Rightarrow> default_session\<lparr>ss_session_id := new_session_id, ss_did := did, ss_did_hash := digest did\<rparr>);
          session = session\<lparr>ss_session_id := new_session_id\<rparr>;
          session = (if ss_did session = [] then session\<lparr>ss_did := did, ss_did_hash := digest did\<rparr> else session)
      in session\<lparr>ss_state := Authenticated, ss_authenticated := True,
           ss_refresh_token_hash := Some refresh_token_hash\<rparr>)"

definition update_session_authenticated ::
  "(string \<Rightarrow> string) \<Rightarrow> (string \<Rightarrow> string \<Rightarrow> 's \<Rightarrow> ('e + session) \<times> 's) \<Rightarrow> (string \<Rightarrow> 's \<Rightarrow> ('e + unit) \<times> 's) \<Rightarrow>
   (session \<Rightarrow> nat \<Rightarrow> 's \<Rightarrow> ('e + unit) \<times> 's) \<Rightarrow> (stat_counter \<Rightarrow> int \<Rightarrow> 's \<Rightarrow> ('e + unit) \<times> 's) \<Rightarrow>
   string \<Rightarrow> string \<Rightarrow> string \<Rightarrow> string \<Rightarrow> 's \<Rightarrow> ('e + unit) \<times> 's" where
  "update_session_authenticated digest get del put stat old_session_id new_session_id did refresh_token_hash s =
     (let (found, s1) = get old_session_id did s;
          session = authenticated_session digest found new_session_id did refresh_token_hash
      in try_then
           (rename_session_fail_closed old_session_id new_session_id (del old_session_id) (put session 86400))
           (\<lambda>_. stat SessionsSuccess 1) s1)"

definition update_refresh_token_hash ::
  "(string \<Rightarrow> string \<Rightarrow> 's \<Rightarrow> ('e + session) \<times> 's) \<Rightarrow> (session \<Rightarrow> nat \<Rightarrow> 's \<Rightarrow> ('e + unit) \<times> 's) \<Rightarrow>
   string \<Rightarrow> string \<Rightarrow> 's \<Rightarrow> ('e + unit) \<times> 's" where
  "update_refresh_token_hash get put session_id refresh_token_hash s =
     (let (found, s1) = get session_id [] s;
          session = (case found of Inr x \<Rightarrow> x | Inl _ \<Rightarrow> default_session\<lparr>ss_session_id := session_id\<rparr>)
      in put (session\<lparr>ss_refresh_token_hash := Some refresh_token_hash\<rparr>) 86400 s1)"

definition get_refresh_token_hash ::
  "(string \<Rightarrow> string \<Rightarrow> 's \<Rightarrow> ('e + session) \<times> 's) \<Rightarrow> string \<Rightarrow> 's \<Rightarrow> ('e + string option) \<times> 's" where
  "get_refresh_token_hash get session_id s =
     (case get session_id [] s of
        (Inr x, s1) \<Rightarrow> (Inr (ss_refresh_token_hash x), s1)
      | (Inl _, s1) \<Rightarrow> (Inr None, s1))"

section \<open>The contract of a session store\<close>

locale session_store =
  fixes live :: "'s \<Rightarrow> string \<Rightarrow> session option"
    and get :: "string \<Rightarrow> string \<Rightarrow> 's \<Rightarrow> ('e + session) \<times> 's"
    and del :: "string \<Rightarrow> 's \<Rightarrow> ('e + unit) \<times> 's"
    and put :: "session \<Rightarrow> nat \<Rightarrow> 's \<Rightarrow> ('e + unit) \<times> 's"
    and stat :: "stat_counter \<Rightarrow> int \<Rightarrow> 's \<Rightarrow> ('e + unit) \<times> 's"
    and fits :: "nat \<Rightarrow> bool"
  assumes get_live: "live s i = Some x \<Longrightarrow> \<exists>a t. fst (get i d s) = Inr (x\<lparr>ss_acls := a, ss_account_type := t\<rparr>)"
    and get_keeps: "live (snd (get i d s)) = live s"
    and del_live: "is_ok (fst (del i s))" "live (snd (del i s)) = (live s)(i := None)"
    and put_live: "fits ttl \<Longrightarrow> is_ok (fst (put x ttl s)) \<and>
      live (snd (put x ttl s)) = (live s)(ss_session_id x \<mapsto> x)"
    and stat_live: "is_ok (fst (stat c n s))" "live (snd (stat c n s)) = live s"
begin

lemma create_live:
  assumes "fits 900" "create_session put stat x s = (res, s')"
  shows "is_ok res \<and> live s' = (live s)(ss_session_id x \<mapsto> x)"
  using assms(2) put_live [OF assms(1), of x s] stat_live
  by (auto simp: create_session_def try_then_def is_ok_iff split: prod.splits sum.splits)
    (metis fst_conv snd_conv is_ok_simps)+

lemma rename_live:
  assumes "fits ttl" "rename_session_fail_closed old (ss_session_id x) (del old) (put x ttl) s = (res, s')"
  shows "is_ok res \<and> live s' = ((live s)(old := None))(ss_session_id x \<mapsto> x)"
proof (cases "old = ss_session_id x")
  case True
  then show ?thesis
    using assms(2) put_live [OF assms(1), of x s]
    by (auto simp: rename_session_fail_closed_def try_then_def try_return_def split: prod.splits sum.splits)
next
  case False
  obtain u t where d: "del old s = (Inr u, t)"
    using del_live(1) [where i = old and s = s] by (cases "del old s") (auto simp: is_ok_iff)
  then have "live t = (live s)(old := None)" using del_live(2) [of old s] by simp
  then show ?thesis
    using assms(2) put_live [OF assms(1), of x t] False d
    by (auto simp: rename_session_fail_closed_def try_then_def try_return_def split: prod.splits sum.splits)
qed

lemma authenticated_live:
  assumes "fits 86400"
    and "update_session_authenticated digest get del put stat old new did h s = (res, s')"
  obtains x where "res = Inr ()" "live s' = ((live s)(old := None))(new \<mapsto> x)"
    "ss_session_id x = new" "ss_state x = Authenticated" "ss_authenticated x"
    "ss_refresh_token_hash x = Some h" "live s old = Some y \<Longrightarrow> ss_did y \<noteq> [] \<Longrightarrow> ss_did x = ss_did y"
proof -
  obtain found t where g: "get old did s = (found, t)" by fastforce
  let ?x = "authenticated_session digest found new did h"
  have x: "ss_session_id ?x = new" "ss_state ?x = Authenticated" "ss_authenticated ?x"
      "ss_refresh_token_hash ?x = Some h"
    by (simp_all add: authenticated_session_def Let_def)
  have did: "ss_did ?x = ss_did y" if "live s old = Some y" "ss_did y \<noteq> []"
    using get_live [OF that(1), of did] that(2) g by (auto simp: authenticated_session_def Let_def)
  obtain r u where rn: "rename_session_fail_closed old new (del old) (put ?x 86400) t = (r, u)" by fastforce
  have r: "is_ok r" "live u = ((live t)(old := None))(new \<mapsto> ?x)"
    using rename_live [OF assms(1), of old ?x t r u] rn x(1) by auto
  have live: "live t = live s" using get_keeps [of old did s] g by simp
  have s': "(res, s') = stat SessionsSuccess 1 u"
    using assms(2) r(1) rn by (auto simp: update_session_authenticated_def g try_then_def is_ok_iff)
  then have "is_ok res" "live s' = live u"
    using stat_live(1) [of SessionsSuccess 1 u] stat_live(2) [of SessionsSuccess 1 u] by (metis fst_conv, metis snd_conv)
  then show ?thesis using that [of ?x] x did r(2) live by (auto simp: is_ok_iff)
qed

end

section \<open>The in-memory store keeps it\<close>

definition live_at :: "nat \<Rightarrow> memory_state \<Rightarrow> string \<Rightarrow> session option" where
  \<comment> \<open>the session that a read at time \<open>v\<close> finds\<close>
  "live_at v s i = (case map_of (sessions s) i of None \<Rightarrow> None
     | Some r \<Rightarrow> if v < sn_expires_at r then Some (sn_session r) else None)"

lemma get_session_record_cases:
  "get_session_record now i s =
     (case live_at now s i of
        None \<Rightarrow> (None, s\<lparr>sessions := AList.delete i (sessions s)\<rparr>)
      | Some x \<Rightarrow> (map_of (sessions s) i, s))"
proof (cases "map_of (sessions s) i")
  case None
  then have "AList.delete i (sessions s) = sessions s" by (simp add: map_of_eq_None_iff delete_id)
  with None show ?thesis by (simp add: get_session_record_def live_at_def)
next
  case (Some r)
  then show ?thesis by (simp add: get_session_record_def live_at_def)
qed

lemma live_atD: "live_at v s i = Some x \<Longrightarrow> \<exists>r. map_of (sessions s) i = Some r \<and> sn_session r = x"
  by (auto simp: live_at_def split: option.splits if_splits)

lemma get_session_result:
  "get_session digest now i d s =
     (case live_at now s i of
        None \<Rightarrow> (Inl (SessionError 14 i (''Session not found: '' @ i)), snd (get_session_record now i s))
      | Some x \<Rightarrow> (Inr (if d = [] then x else (case accounts s (digest d) of None \<Rightarrow> x
           | Some a \<Rightarrow> x\<lparr>ss_acls := ar_acls a, ss_account_type := ar_role a\<rparr>)), s))"
  by (cases "live_at now s i")
    (auto simp: get_session_def get_session_record_cases Let_def split: option.splits dest: live_atD)

lemma get_session_live: "now \<le> v \<Longrightarrow> live_at v (snd (get_session digest now i d s)) = live_at v s"
  by (cases "live_at now s i")
    (auto simp: get_session_result get_session_record_cases live_at_def AList.delete_conv' fun_eq_iff
      split: option.splits if_splits)

interpretation mem_sessions: session_store "live_at (t + e + d)" "get_session digest t" delete_session
  "put_session (t + e)" stats_increment_ok "\<lambda>ttl. d < ttl"
  for digest t e d
proof (unfold_locales, goal_cases)
  case (1 s i x did)
  then have "live_at t s i = Some x" by (auto simp: live_at_def split: option.splits if_splits)
  moreover have same: "\<exists>a r. x = x\<lparr>ss_acls := a, ss_account_type := r\<rparr>"
    by (intro exI [of _ "ss_acls x"] exI [of _ "ss_account_type x"]) simp
  ultimately show ?case
    by (cases "did = []"; cases "accounts s (digest did)") (auto simp: get_session_result intro: same)
next
  case (2 i did s)
  show ?case by (rule get_session_live) simp
qed (auto simp: delete_session_def put_session_def stats_increment_ok_def stats_increment_def
    live_at_def AList.delete_conv' AList.update_conv' fun_eq_iff split: option.splits)

text \<open>\<open>update_session_authenticated\<close> succeeds on the in-memory store. Until the 24 hours of
  the new session are over the new id, and not the old one, names a session; it is authenticated,
  carries the refresh-token hash and keeps the DID of the challenge session. Other sessions are
  untouched.\<close>
theorem session_authenticated:
  assumes "d < 86400"
    and "update_session_authenticated digest (get_session digest t) delete_session (put_session (t + e))
      stats_increment_ok old new did h s = (res, s')"
  shows "res = Inr () \<and>
    (\<exists>x. live_at (t + e + d) s' new = Some x \<and> ss_session_id x = new \<and> ss_state x = Authenticated \<and>
       ss_authenticated x \<and> ss_refresh_token_hash x = Some h \<and>
       (\<forall>y. live_at (t + e + d) s old = Some y \<and> ss_did y \<noteq> [] \<longrightarrow> ss_did x = ss_did y)) \<and>
    (old \<noteq> new \<longrightarrow> live_at (t + e + d) s' old = None) \<and>
    (\<forall>i. i \<noteq> old \<and> i \<noteq> new \<longrightarrow> live_at (t + e + d) s' i = live_at (t + e + d) s i)"
proof (cases "live_at (t + e + d) s old")
  case None
  obtain x where "res = Inr ()" "live_at (t + e + d) s' = ((live_at (t + e + d) s)(old := None))(new \<mapsto> x)"
    "ss_session_id x = new" "ss_state x = Authenticated" "ss_authenticated x" "ss_refresh_token_hash x = Some h"
    by (rule mem_sessions.authenticated_live [OF assms])
  with None show ?thesis by auto
next
  case (Some y)
  obtain x where "res = Inr ()" "live_at (t + e + d) s' = ((live_at (t + e + d) s)(old := None))(new \<mapsto> x)"
    "ss_session_id x = new" "ss_state x = Authenticated" "ss_authenticated x" "ss_refresh_token_hash x = Some h"
    "ss_did y \<noteq> [] \<Longrightarrow> ss_did x = ss_did y"
    using mem_sessions.authenticated_live [OF assms, of y] Some by metis
  with Some show ?thesis by auto
qed

definition sample_session :: session where
  "sample_session = default_session\<lparr>ss_session_id := ''c'', ss_did := ''did:a'', ss_state := ChallengeSent\<rparr>"

theorem session_authenticated_witness:
  "\<exists>s'. update_session_authenticated (\<lambda>b. b) (get_session (\<lambda>b. b) (100 :: nat)) delete_session
       (put_session (100 + 1)) stats_increment_ok ''c'' ''n'' ''did:a'' ''h''
       (snd (put_session 50 sample_session 900 empty_state)) = (Inr (), s') \<and>
     live_at (100 + 1 + 60) s' ''c'' = None \<and> live_at (100 + 1 + 60) s' ''n'' \<noteq> None"
proof -
  obtain res s' where u: "update_session_authenticated (\<lambda>b. b) (get_session (\<lambda>b. b) (100 :: nat)) delete_session
       (put_session (100 + 1)) stats_increment_ok ''c'' ''n'' ''did:a'' ''h''
       (snd (put_session 50 sample_session 900 empty_state)) = (res, s')"
    by fastforce
  from session_authenticated [OF _ u, of 60] u show ?thesis by auto
qed

text \<open>The rename is fail-closed: whatever writing the new session does, as long as it does not
  itself write the old id, the old session is gone afterwards, also when that write fails.\<close>
theorem rename_fails_closed:
  assumes "old \<noteq> new" "\<And>s. live_at v (snd (put_new s)) old = live_at v s old"
    and "rename_session_fail_closed old new (delete_session old) put_new s = (res, s')"
  shows "live_at v s' old = None \<and> (is_ok res \<longleftrightarrow> is_ok (fst (put_new (snd (delete_session old s)))))"
proof -
  obtain r u where p: "put_new (snd (delete_session old s)) = (r, u)" by fastforce
  have "live_at v (snd (delete_session old s)) old = None"
    by (simp add: delete_session_def live_at_def AList.delete_conv')
  then have "live_at v u old = None" using assms(2) [of "snd (delete_session old s)"] p by simp
  then show ?thesis
    using assms(1,3) p
    by (auto simp: rename_session_fail_closed_def try_then_def try_return_def delete_session_def
        split: prod.splits sum.splits)
qed

theorem rename_fails_closed_witness:
  "\<exists>s'. rename_session_fail_closed ''c'' ''n'' (delete_session ''c'')
       (\<lambda>s. (Inl (DatabaseError 1 [] []), s)) (snd (put_session 50 sample_session 900 empty_state))
       = (Inl (DatabaseError 1 [] []), s') \<and> live_at 60 s' ''c'' = None"
proof -
  let ?put = "\<lambda>s :: memory_state. (Inl (DatabaseError 1 [] []) :: store_error + unit, s)"
  obtain res s' where r: "rename_session_fail_closed ''c'' ''n'' (delete_session ''c'') ?put
      (snd (put_session 50 sample_session 900 empty_state)) = (res, s')"
    by fastforce
  have "live_at 60 s' ''c'' = None"
    using rename_fails_closed [of "''c''" "''n''" 60 ?put, OF _ _ r] by simp
  moreover have "res = Inl (DatabaseError 1 [] [])"
    using r by (auto simp: rename_session_fail_closed_def try_then_def delete_session_def)
  ultimately show ?thesis using r by blast
qed

lemma map_of_filter_value:
  "distinct (map fst xs) \<Longrightarrow> map_of (filter (\<lambda>(_, r). P r) xs) i =
     (case map_of xs i of None \<Rightarrow> None | Some r \<Rightarrow> if P r then Some r else None)"
  by (induction xs) (auto simp: map_of_eq_None_iff split: option.splits)

text \<open>A session is found until its time to live is over and never afterwards; what is found
  carries the ACLs and role its DID's account has now. The sweep at time \<open>t\<close> removes exactly the
  sessions no read from \<open>t\<close> on would find and reports how many it looked at and removed.\<close>
theorem session_lifetime:
  assumes "put_session now x ttl s = (res, s')" "accounts s (digest did) = Some a" "did \<noteq> []"
    and "distinct (map fst (sessions s))" "sweep_expired_sessions t s = (rep, sw)"
  shows "fst (get_session digest t (ss_session_id x) did s') =
      (if t < now + ttl then Inr (x\<lparr>ss_acls := ar_acls a, ss_account_type := ar_role a\<rparr>)
       else Inl (SessionError 14 (ss_session_id x) (''Session not found: '' @ ss_session_id x))) \<and>
    live_at v sw i = live_at (max t v) s i \<and>
    sr_scanned rep = as_u32 (length (sessions s)) \<and>
    sr_expired rep = as_u32 (length (filter (\<lambda>(_, r). sn_expires_at r \<le> t) (sessions s)))"
proof (intro conjI)
  show "fst (get_session digest t (ss_session_id x) did s') =
      (if t < now + ttl then Inr (x\<lparr>ss_acls := ar_acls a, ss_account_type := ar_role a\<rparr>)
       else Inl (SessionError 14 (ss_session_id x) (''Session not found: '' @ ss_session_id x)))"
    using assms(1-3) by (auto simp: put_session_def get_session_result live_at_def AList.update_conv')
  show "live_at v sw i = live_at (max t v) s i"
    using assms(5) map_of_filter_value [OF assms(4), of "\<lambda>r. t < sn_expires_at r" i]
    by (cases "map_of (sessions s) i") (auto simp: sweep_expired_sessions_def Let_def live_at_def)
  have "length (sessions s) - length (filter (\<lambda>(_, r). t < sn_expires_at r) (sessions s)) =
      length (filter (\<lambda>(_, r). sn_expires_at r \<le> t) (sessions s))"
    using sum_length_filter_compl [of "\<lambda>e. t < sn_expires_at (snd e)" "sessions s"]
    by (simp add: not_less case_prod_beta')
  then show "sr_scanned rep = as_u32 (length (sessions s))"
    "sr_expired rep = as_u32 (length (filter (\<lambda>(_, r). sn_expires_at r \<le> t) (sessions s)))"
    using assms(5) by (auto simp: sweep_expired_sessions_def Let_def)
qed

theorem session_lifetime_witness:
  "\<exists>s s'. s = snd (account_add ''did:a'' default_acl_set None empty_state) \<and>
     put_session 50 sample_session 900 s = (Inr (), s') \<and>
     is_ok (fst (get_session (\<lambda>b. b) 949 ''c'' ''did:a'' s')) \<and>
     \<not> is_ok (fst (get_session (\<lambda>b. b) 950 ''c'' ''did:a'' s'))"
proof -
  let ?s = "snd (account_add ''did:a'' default_acl_set None empty_state)"
  obtain res s' where p: "put_session 50 sample_session 900 ?s = (res, s')" by fastforce
  obtain rep sw where w: "sweep_expired_sessions 949 ?s = (rep, sw)" by fastforce
  obtain rep' sw' where w': "sweep_expired_sessions 950 ?s = (rep', sw')" by fastforce
  have a: "accounts ?s ((\<lambda>b. b) ''did:a'') = Some (default_account_record\<lparr>ar_acls := default_acl_set\<rparr>)"
    and d: "distinct (map fst (sessions ?s))"
    by (simp_all add: account_add_def Let_def empty_state_def)
  have "ss_session_id sample_session = ''c''" by (simp add: sample_session_def)
  then have "is_ok (fst (get_session (\<lambda>b. b) 949 ''c'' ''did:a'' s'))"
    "\<not> is_ok (fst (get_session (\<lambda>b. b) 950 ''c'' ''did:a'' s'))"
    using session_lifetime [where digest = "\<lambda>b. b", OF p a _ d w]
      session_lifetime [where digest = "\<lambda>b. b", OF p a _ d w'] by simp_all
  moreover have "res = Inr ()" using p by (simp add: put_session_def)
  ultimately show ?thesis using p by blast
qed

end
