(* ===== verification/MemInvariants.thy ===== *)
theory MemInvariants
  imports MemSessions MemForward
begin

text \<open>
  The in-memory backend as a state machine, at two grains. \<open>store_step\<close> has one rule for each trait method of
  \<open>memory_store.rs\<close> that changes the state, with its arguments and clock readings arbitrary, run as a whole;
  \<open>reachable\<close> are the states it leads to from the empty store. \<open>delete_folder_stream\<close> has no
  rule there: in the code only \<open>purge_folder\<close> and \<open>account_remove\<close> call it. \<open>store_section\<close> has one rule for each
  critical section, the code that runs under one lock of the state, \<open>delete_folder_stream\<close> included, so that its
  runs are all interleavings of the operations that lock more than once (\<open>fetch_messages\<close>, \<open>purge_folder\<close>,
  \<open>account_remove\<close>, \<open>setup_admin_account\<close>, \<open>sweep_expired_messages\<close>).

  The rules that allocate stream ids ask that fewer than \<open>2 ^ 64 - 2\<close> were allocated in the current
  millisecond.

  The invariant between sections: streams, the forwarding queue and pending claims are ordered and below the last
  allocated id; every message is keyed by the digest of its body; known DIDs have accounts; administrator
  roles are covered by the admin set; lists have no duplicates; the audit log is bounded; every
  session is kept under its own id. Between whole operations, moreover, every expiring message is in the expiry
  index and every message is listed in its recipient's inbox.
\<close>

section \<open>Steps\<close>

inductive store_step :: "(string \<Rightarrow> string) \<Rightarrow> memory_state \<Rightarrow> memory_state \<Rightarrow> bool" for digest where
  step_store: "ids_available s \<Longrightarrow> store_step digest s (snd (store_message digest ts n1 n2 m to from ex s))"
| step_delete: "store_step digest s (snd (delete_message h a s))"
| step_fetch: "store_step digest s (snd (fetch_messages d opts s))"
| step_purge: "store_step digest s (snd (purge_folder d f s))"
| step_sweep: "store_step digest s (snd (sweep_expired_messages now adm s))"
| step_account_add: "store_step digest s (snd (account_add d acls lim s))"
| step_account_remove: "store_step digest s (snd (account_remove d s))"
| step_set_role: "store_step digest s (account_set_role d typ s)"
| step_limits: "store_step digest s (account_change_queue_limits d l1 l2 s)"
| step_set_acl: "store_step digest s (snd (set_did_acl d acls s))"
| step_list_add: "store_step digest s (snd (access_list_add lim' d hs s))"
| step_list_remove: "store_step digest s (snd (access_list_remove d hs s))"
| step_list_clear: "store_step digest s (access_list_clear d s)"
| step_setup_admin: "store_step digest s (setup_admin_account d typ acls s)"
| step_audit: "store_step digest s (audit_log_record e s)"
| step_oob_store: "store_step digest s (snd (oob_discovery_store digest d iv ex s))"
| step_oob_get: "store_step digest s (snd (oob_discovery_get now i s))"
| step_oob_delete: "store_step digest s (snd (oob_discovery_delete i s))"
| step_stats: "store_step digest s (stats_increment c n s)"
| step_enqueue: "next_stream_seq s < u64_max \<Longrightarrow>
    store_step digest s (snd (forward_queue_enqueue now fe mx s))"
| step_read: "store_step digest s (snd (try_read g n k t s))"
| step_ack: "store_step digest s (forward_queue_ack g ids s)"
| step_queue_delete: "store_step digest s (forward_queue_delete ids s)"
| step_autoclaim: "store_step digest s (snd (forward_queue_autoclaim now g n idle k s))"
| step_put_session: "store_step digest s (snd (put_session now x ttl s))"
| step_get_session: "store_step digest s (snd (get_session digest now i did s))"
| step_delete_session: "store_step digest s (snd (delete_session i s))"
| step_sweep_sessions: "store_step digest s (snd (sweep_expired_sessions now s))"
| step_clean_start: "store_step digest s (streaming_clean_start u s)"
| step_set_state: "store_step digest s (streaming_set_state d u st s)"

inductive reachable :: "(string \<Rightarrow> string) \<Rightarrow> memory_state \<Rightarrow> bool" for digest where
  reachable_new: "reachable digest empty_state"
| reachable_step: "reachable digest s \<Longrightarrow> store_step digest s s' \<Longrightarrow> reachable digest s'"

section \<open>Critical sections\<close>

definition slot_drop :: "nat \<Rightarrow> memory_state \<Rightarrow> memory_state" where
  \<comment> \<open>\<open>state.expiry.remove(&ts)\<close>, the last section of a swept slot\<close>
  "slot_drop ts s = s\<lparr>expiry := bt_remove ts (expiry s)\<rparr>"

definition account_drop :: "string \<Rightarrow> memory_state \<Rightarrow> memory_state" where
  \<comment> \<open>the last section of \<open>account_remove\<close>\<close>
  "account_drop d s =
     s\<lparr>accounts := (accounts s)(d := None), access_lists := (access_lists s)(d := None),
       admins := filter (\<lambda>x. x \<noteq> d) (admins s), known_dids := filter (\<lambda>x. x \<noteq> d) (known_dids s)\<rparr>"

definition admin_grant :: "string \<Rightarrow> account_type \<Rightarrow> memory_state \<Rightarrow> memory_state" where
  \<comment> \<open>the last section of \<open>setup_admin_account\<close>\<close>
  "admin_grant d typ s =
     (let s' = on_account d (\<lambda>r. r\<lparr>ar_role := typ\<rparr>) s in s'\<lparr>admins := push_new d (admins s')\<rparr>)"

inductive store_section :: "(string \<Rightarrow> string) \<Rightarrow> memory_state \<Rightarrow> memory_state \<Rightarrow> bool" for digest where
  section_store: "ids_available s \<Longrightarrow> store_section digest s (snd (store_message digest ts n1 n2 m to from ex s))"
| section_delete: "store_section digest s (snd (delete_message h a s))"
| section_drop_folder: "store_section digest s (delete_folder_stream d f s)"
| section_drop_slot: "store_section digest s (slot_drop ts s)"
| section_account_add: "store_section digest s (snd (account_add d acls lim s))"
| section_account_drop: "store_section digest s (account_drop d s)"
| section_set_role: "store_section digest s (account_set_role d typ s)"
| section_limits: "store_section digest s (account_change_queue_limits d l1 l2 s)"
| section_set_acl: "store_section digest s (snd (set_did_acl d acls s))"
| section_list_add: "store_section digest s (snd (access_list_add lim' d hs s))"
| section_list_remove: "store_section digest s (snd (access_list_remove d hs s))"
| section_list_clear: "store_section digest s (access_list_clear d s)"
| section_admin_grant: "store_section digest s (admin_grant d typ s)"
| section_audit: "store_section digest s (audit_log_record e s)"
| section_oob_store: "store_section digest s (snd (oob_discovery_store digest d iv ex s))"
| section_oob_get: "store_section digest s (snd (oob_discovery_get now i s))"
| section_oob_delete: "store_section digest s (snd (oob_discovery_delete i s))"
| section_stats: "store_section digest s (stats_increment c n s)"
| section_enqueue: "next_stream_seq s < u64_max \<Longrightarrow>
    store_section digest s (snd (forward_queue_enqueue now fe mx s))"
| section_read: "store_section digest s (snd (try_read g n k t s))"
| section_ack: "store_section digest s (forward_queue_ack g ids s)"
| section_queue_delete: "store_section digest s (forward_queue_delete ids s)"
| section_autoclaim: "store_section digest s (snd (forward_queue_autoclaim now g n idle k s))"
| section_put_session: "store_section digest s (snd (put_session now x ttl s))"
| section_get_session: "store_section digest s (snd (get_session digest now i did s))"
| section_delete_session: "store_section digest s (snd (delete_session i s))"
| section_sweep_sessions: "store_section digest s (snd (sweep_expired_sessions now s))"
| section_clean_start: "store_section digest s (streaming_clean_start u s)"
| section_set_state: "store_section digest s (streaming_set_state d u st s)"

abbreviation section_run :: "(string \<Rightarrow> string) \<Rightarrow> memory_state \<Rightarrow> memory_state \<Rightarrow> bool" where
  "section_run digest \<equiv> (store_section digest)\<^sup>*\<^sup>*"

section \<open>Invariant\<close>

definition admins_cover :: "memory_state \<Rightarrow> bool" where
  "admins_cover s = (\<forall>d r. accounts s d = Some r \<and> is_admin (ar_role r) \<longrightarrow> d \<in> set (admins s))"

definition lists_distinct :: "memory_state \<Rightarrow> bool" where
  "lists_distinct s = (distinct (admins s) \<and> (\<forall>d l. access_lists s d = Some l \<longrightarrow> distinct l))"

definition message_inv :: "bool \<Rightarrow> (string \<Rightarrow> string) \<Rightarrow> memory_state \<Rightarrow> bool" where
  \<comment> \<open>with \<open>w\<close> the indexes are complete as well\<close>
  "message_inv w digest s =
     (ids_below s \<and> bt_wf (expiry s) \<and> content_addressed digest s \<and> (w \<longrightarrow> expiry_indexed s \<and> inbox_listed s))"

definition account_inv :: "memory_state \<Rightarrow> bool" where
  "account_inv s = (accounts_known s \<and> admins_cover s \<and> lists_distinct s)"

definition sessions_keyed :: "(string \<times> session_record) list \<Rightarrow> bool" where
  "sessions_keyed xs = (distinct (map fst xs) \<and>
     (\<forall>i r. map_of xs i = Some r \<longrightarrow> ss_session_id (sn_session r) = i))"

definition store_inv_at :: "bool \<Rightarrow> (string \<Rightarrow> string) \<Rightarrow> memory_state \<Rightarrow> bool" where
  "store_inv_at w digest s = (message_inv w digest s \<and> account_inv s \<and> queue_below s \<and>
     length (audit_log s) \<le> audit_log_max_entries \<and> sessions_keyed (sessions s))"

definition store_inv :: "(string \<Rightarrow> string) \<Rightarrow> memory_state \<Rightarrow> bool" where
  \<comment> \<open>the invariant between whole operations\<close>
  "store_inv digest s = store_inv_at True digest s"

definition section_inv :: "(string \<Rightarrow> string) \<Rightarrow> memory_state \<Rightarrow> bool" where
  \<comment> \<open>the invariant between critical sections\<close>
  "section_inv digest s = store_inv_at False digest s"

section \<open>What each step leaves alone\<close>

definition messages_same :: "memory_state \<Rightarrow> memory_state \<Rightarrow> bool" where
  "messages_same s s' = (messages s' = messages s \<and> inbox s' = inbox s \<and> outbox s' = outbox s \<and>
     expiry s' = expiry s \<and> last_id s' = last_id s)"

definition accounts_same :: "memory_state \<Rightarrow> memory_state \<Rightarrow> bool" where
  "accounts_same s s' = (accounts s' = accounts s \<and> known_dids s' = known_dids s \<and>
     admins s' = admins s \<and> access_lists s' = access_lists s)"

definition queue_same :: "memory_state \<Rightarrow> memory_state \<Rightarrow> bool" where
  "queue_same s s' = (forward_queue s' = forward_queue s \<and> forward_groups s' = forward_groups s)"

definition logs_same :: "memory_state \<Rightarrow> memory_state \<Rightarrow> bool" where
  "logs_same s s' = (audit_log s' = audit_log s \<and> sessions s' = sessions s)"

lemmas same_defs = messages_same_def accounts_same_def queue_same_def logs_same_def

lemma message_inv_same: "messages_same s s' \<Longrightarrow> message_inv w digest s \<Longrightarrow> message_inv w digest s'"
  by (simp add: messages_same_def message_inv_def ids_below_def expiry_indexed_def inbox_listed_def
      content_addressed_def)

lemma account_inv_same: "accounts_same s s' \<Longrightarrow> account_inv s \<Longrightarrow> account_inv s'"
  by (simp add: accounts_same_def account_inv_def accounts_known_def admins_cover_def lists_distinct_def)

lemma queue_below_same: "queue_same s s' \<Longrightarrow> last_id s \<le> last_id s' \<Longrightarrow> queue_below s \<Longrightarrow> queue_below s'"
  using group_below_mono [of "last_id s" _ "last_id s'"]
  by (force simp: queue_same_def queue_below_def)

lemma store_inv_same:
  assumes "store_inv_at w digest s" "messages_same s s'" "accounts_same s s'" "queue_same s s'" "logs_same s s'"
  shows "store_inv_at w digest s'"
  using assms message_inv_same [OF assms(2)] account_inv_same [OF assms(3)] queue_below_same [OF assms(4)]
  by (simp add: store_inv_at_def messages_same_def logs_same_def)

lemma last_id_update [simp]:
  "last_id (s\<lparr>accounts := a\<rparr>) = last_id s" "last_id (s\<lparr>known_dids := k\<rparr>) = last_id s"
  "last_id (s\<lparr>admins := l\<rparr>) = last_id s" "last_id (s\<lparr>access_lists := al\<rparr>) = last_id s"
  "last_id (s\<lparr>oob_invites := i\<rparr>) = last_id s" "last_id (s\<lparr>sessions := se\<rparr>) = last_id s"
  "last_id (s\<lparr>streaming_clients := sc\<rparr>) = last_id s" "last_id (s\<lparr>forward_queue := q\<rparr>) = last_id s"
  "last_id (s\<lparr>forward_groups := g\<rparr>) = last_id s" "last_id (s\<lparr>counters := co\<rparr>) = last_id s"
  "last_id (s\<lparr>inbox := ib\<rparr>) = last_id s" "last_id (s\<lparr>outbox := ob\<rparr>) = last_id s"
  "last_id (s\<lparr>expiry := ex\<rparr>) = last_id s" "last_id (s\<lparr>messages := ms\<rparr>) = last_id s"
  "last_id (incr_counter c n s) = last_id s"
  by (simp_all add: last_id_def)

section \<open>Message operations\<close>

lemma bt_wf_removal: "kept_by_removal (\<lambda>s. bt_wf (expiry s))"
  by (simp add: kept_by_removal_def)

lemma message_inv_removal: "kept_by_removal (message_inv w digest)"
  using ids_below_removal expiry_indexed_removal inbox_listed_removal content_addressed_removal [of digest]
  unfolding kept_by_removal_def message_inv_def by (metis bt_wf_removal kept_by_removal_def)

lemma account_inv_traffic:
  assumes "traffic_only s s'" "account_inv s"
  shows "account_inv s'"
proof -
  have p: "map_option profile (accounts s' d) = map_option profile (accounts s d)" for d
    using assms(1) by (simp add: traffic_only_def)
  have dom: "accounts s' d = None \<longleftrightarrow> accounts s d = None" for d
    using p [of d] by (metis map_option_is_None)
  have role: "\<exists>r. accounts s d = Some r \<and> ar_role r = ar_role r'" if "accounts s' d = Some r'" for d r'
    using p [of d] that by (cases "accounts s d") (auto simp: profile_def)
  show ?thesis
    using assms dom role
    by (fastforce simp: account_inv_def accounts_known_def admins_cover_def lists_distinct_def traffic_only_def)
qed

lemma store_inv_traffic:
  assumes "store_inv_at w digest s" "traffic_only s s'" "message_inv w digest s'"
  shows "store_inv_at w digest s'"
  using assms account_inv_traffic [OF assms(2)] queue_below_same [of s s']
  by (auto simp: store_inv_at_def traffic_only_def queue_same_def)

lemma store_message_profile:
  "accounts (snd (store_message digest ts n1 n2 m to from ex s)) d = Some r \<Longrightarrow>
   profile r = profile (acct s d)"
  by (auto simp: store_message_accounts Let_def split: if_splits)

lemma account_inv_store:
  assumes "account_inv s"
  shows "account_inv (snd (store_message digest ts n1 n2 m to from ex s))" (is "account_inv ?s")
proof -
  have "d \<in> set (admins s)" if "accounts ?s d = Some r" "is_admin (ar_role r)" for d r
  proof -
    have role: "is_admin (ar_role (acct s d))"
      using store_message_profile [OF that(1)] that(2) by (simp add: profile_def)
    show ?thesis
    proof (cases "accounts s d")
      case None
      with role show ?thesis by (simp add: default_account_record_def is_admin_def)
    next
      case (Some r')
      with role assms show ?thesis by (simp add: account_inv_def admins_cover_def)
    qed
  qed
  moreover have "accounts s d \<noteq> None \<Longrightarrow> accounts ?s d \<noteq> None" for d
    by (simp add: store_message_accounts Let_def)
  ultimately show ?thesis
    using assms by (simp add: account_inv_def accounts_known_def lists_distinct_def admins_cover_def)
qed

lemma content_addressed_store:
  "content_addressed digest s \<Longrightarrow> content_addressed digest (snd (store_message digest ts n1 n2 m to from ex s))"
  by (auto simp: content_addressed_def store_message_messages split: if_splits)

lemma store_inv_store:
  assumes "store_inv_at w digest s" "ids_available s"
  shows "store_inv_at w digest (snd (store_message digest ts n1 n2 m to from ex s))" (is "store_inv_at w digest ?s")
proof -
  have "message_inv w digest ?s"
    using assms ids_below_store expiry_indexed_store inbox_listed_store content_addressed_store
    by (simp add: store_inv_at_def message_inv_def store_message_expiry)
  moreover have "last_id s \<le> last_id ?s"
    using fresh_ids(1) [OF assms(2), of n1] fresh_ids(2) [OF assms(2), of n1 n2]
    by (auto simp: store_message_last)
  ultimately show ?thesis
    using assms(1) account_inv_store queue_below_same [of s ?s] by (simp add: store_inv_at_def queue_same_def)
qed

lemma store_inv_removal: "kept_by_removal (store_inv_at w digest)"
  unfolding kept_by_removal_def
proof (intro allI impI)
  fix s h r
  assume a: "store_inv_at w digest s \<and> messages s h = Some r"
  have "traffic_only s (remove_record h r s)"
    using traffic_removal [of s] a unfolding kept_by_removal_def by (meson traffic_refl)
  moreover have "message_inv w digest (remove_record h r s)"
    using message_inv_removal [of w digest] a unfolding kept_by_removal_def store_inv_at_def by blast
  ultimately show "store_inv_at w digest (remove_record h r s)" using a store_inv_traffic by blast
qed

lemma store_inv_fetch:
  assumes "store_inv_at w digest s"
  shows "store_inv_at w digest (snd (fetch_messages d opts s))"
proof (cases "inbox s d")
  case None
  with assms show ?thesis by (simp add: fetch_messages_def Let_def)
next
  case (Some st)
  with kept_fetch [OF store_inv_removal assms] show ?thesis by (simp add: fetch_messages_def Let_def)
qed

lemma outbox_dropped:
  assumes "store_inv_at w digest s"
  shows "store_inv_at w digest (delete_folder_stream d Outbox s)"
proof (rule store_inv_traffic [OF assms])
  show "traffic_only s (delete_folder_stream d Outbox s)" by (simp add: purge_folder_traffic)
  show "message_inv w digest (delete_folder_stream d Outbox s)"
    using assms streams_below_delete
    by (auto simp: store_inv_at_def message_inv_def delete_folder_stream_def ids_below_def expiry_indexed_def
        inbox_listed_def content_addressed_def)
qed

lemma store_inv_purge:
  assumes "store_inv_at True digest s"
  shows "store_inv_at True digest (snd (purge_folder d f s))"
proof (cases f)
  case Outbox
  have "store_inv_at True digest (snd (purge_loop d (map (\<lambda>e. se_msg_id (snd e)) (or_default [] (folder_stream f d s))) 0 0 s))"
    by (rule kept_purge [OF store_inv_removal assms])
  then show ?thesis unfolding purge_folder_state Outbox by (rule outbox_dropped)
next
  case Inbox
  let ?u = "snd (purge_loop d (map (\<lambda>e. se_msg_id (snd e)) (stream_of (inbox s) d)) 0 0 s)"
  let ?t = "snd (purge_folder d Inbox s)"
  have u: "store_inv_at True digest ?u" by (rule kept_purge [OF store_inv_removal assms])
  have t: "?t = ?u\<lparr>inbox := (inbox ?u)(d := None)\<rparr>"
    by (simp add: purge_folder_state delete_folder_stream_def)
  have "mr_to_did_hash r \<noteq> d" if "messages ?u m = Some r" for m r
    using purge_inbox_empties(1) [of s d m r] assms that by (simp add: t store_inv_at_def message_inv_def)
  then have "message_inv True digest ?t"
    using u streams_below_delete
    by (auto simp: t store_inv_at_def message_inv_def ids_below_def expiry_indexed_def inbox_listed_def
        content_addressed_def)
  moreover have "traffic_only s ?t" by (rule traffic_purge)
  ultimately show ?thesis using store_inv_traffic [OF assms] Inbox by simp
qed

section \<open>Expiry sweep\<close>

lemma sweep_slot_traffic: "traffic_only s (s'\<lparr>expiry := e\<rparr>) \<longleftrightarrow> traffic_only s s'"
  by (simp add: traffic_only_def)

definition due_dropped :: "nat \<Rightarrow> memory_state \<Rightarrow> bool" where
  \<comment> \<open>the message invariant while slots up to \<open>now\<close> are being dropped\<close>
  "due_dropped now s = (bt_wf (expiry s) \<and>
     (\<forall>m r. messages s m = Some r \<and> now < mr_expires_at r \<longrightarrow> indexed (expiry s) (mr_expires_at r) m))"

lemma due_dropped_removal: "kept_by_removal (due_dropped now)"
  by (auto simp: kept_by_removal_def due_dropped_def indexed_unindex split: if_splits)

lemma sweep_slots_due:
  assumes "due_dropped now s" "\<forall>e \<in> set due. fst e \<le> now"
  shows "due_dropped now (snd (sweep_slots a due rp s))"
  using assms
proof (induction due arbitrary: rp s)
  case (Cons x due)
  obtain ts ids where x: "x = (ts, ids)" by fastforce
  obtain rp' u where w: "sweep_ids a ids rp s = (rp', u)" by fastforce
  have "due_dropped now u"
    using kept_sweep_ids [OF due_dropped_removal Cons.prems(1), of a ids rp] w by simp
  then have "due_dropped now (u\<lparr>expiry := bt_remove ts (expiry u)\<rparr>)"
    using Cons.prems(2) x by (auto simp: due_dropped_def indexed_def)
  then show ?case using Cons x w by simp
qed simp

lemma sweep_traffic: "traffic_only s (snd (sweep_expired_messages now a s))"
  unfolding sweep_expired_messages_def Let_def
  by (rule kept_sweep [OF traffic_removal]) (simp_all add: sweep_slot_traffic)

lemma sweep_message_inv:
  assumes "message_inv True digest s"
  shows "message_inv True digest (snd (sweep_expired_messages now a s))"
proof -
  let ?t = "snd (sweep_expired_messages now a s)"
  let ?P = "\<lambda>s. ids_below s \<and> inbox_listed s \<and> content_addressed digest s"
  have k: "kept_by_removal ?P"
    using ids_below_removal inbox_listed_removal content_addressed_removal [of digest]
    unfolding kept_by_removal_def by blast
  have "?P ?t"
    unfolding sweep_expired_messages_def Let_def
    by (rule kept_sweep [OF k])
      (use assms in \<open>auto simp: message_inv_def ids_below_def inbox_listed_def content_addressed_def\<close>)
  moreover have "expiry_indexed s" using assms by (simp add: message_inv_def)
  then have d0: "due_dropped now s" by (auto simp: due_dropped_def expiry_indexed_def)
  have "due_dropped now ?t"
    unfolding sweep_expired_messages_def Let_def
    by (rule sweep_slots_due [OF d0]) (simp add: bt_upto_def)
  moreover have "now < mr_expires_at r" if "messages ?t m = Some r" "mr_expires_at r \<noteq> 0" for m r
    using that \<open>expiry_indexed s\<close>
    by (auto simp: sweep_messages expiry_indexed_def split: if_splits) (meson not_le)
  ultimately show ?thesis by (auto simp: message_inv_def expiry_indexed_def due_dropped_def)
qed

lemma store_inv_sweep: "store_inv_at True digest s \<Longrightarrow> store_inv_at True digest (snd (sweep_expired_messages now a s))"
  by (rule store_inv_traffic [OF _ sweep_traffic]) (simp_all add: sweep_message_inv store_inv_at_def)

section \<open>Account operations\<close>

lemma store_inv_accounts:
  assumes "store_inv_at w digest s" "messages_same s s'" "queue_same s s'" "logs_same s s'" "account_inv s'"
  shows "store_inv_at w digest s'"
  using assms message_inv_same [OF assms(2)] queue_below_same [OF assms(3)]
  by (simp add: store_inv_at_def messages_same_def logs_same_def)

lemma account_inv_add: "account_inv s \<Longrightarrow> account_inv (snd (account_add d acls lim s))"
  by (auto simp: account_inv_def accounts_known_def admins_cover_def lists_distinct_def account_add_def
      default_account_record_def is_admin_def Let_def split: option.splits if_splits)

lemma account_inv_role: "account_inv s \<Longrightarrow> account_inv (account_set_role d typ s)"
  by (auto simp: account_inv_def accounts_known_def admins_cover_def lists_distinct_def account_set_role_def
      split: if_splits)

lemma account_inv_record:
  \<comment> \<open>changing one record without its role\<close>
  assumes "account_inv s" "ar_role r = ar_role (acct s d)"
  shows "account_inv (s\<lparr>accounts := (accounts s)(d \<mapsto> r)\<rparr>)"
proof -
  have "d \<in> set (admins s)" if "is_admin (ar_role r)"
    using that assms
    by (cases "accounts s d")
      (auto simp: account_inv_def admins_cover_def default_account_record_def is_admin_def)
  then show ?thesis
    using assms(1) by (auto simp: account_inv_def accounts_known_def admins_cover_def lists_distinct_def)
qed

lemma account_inv_setup: "account_inv s \<Longrightarrow> account_inv (setup_admin_account d typ acls s)"
proof -
  assume a: "account_inv s"
  have k: "known_dids (setup_admin_account d typ acls s) = known_dids s \<or>
      known_dids (setup_admin_account d typ acls s) = push_new d (known_dids s)"
    and l: "access_lists (setup_admin_account d typ acls s) = access_lists s"
    by (auto simp: setup_admin_account_def account_add_def Let_def)
  show ?thesis
    using a k l
    by (auto simp: account_inv_def accounts_known_def admins_cover_def lists_distinct_def setup_admin_effect
        split: if_splits)
qed

lemma account_inv_lists:
  assumes "account_inv s" "\<And>d' l. f d' = Some l \<Longrightarrow> distinct l"
  shows "account_inv (s\<lparr>access_lists := f\<rparr>)"
  using assms by (auto simp: account_inv_def accounts_known_def admins_cover_def lists_distinct_def)

lemma store_inv_account_ops:
  assumes "store_inv_at w digest s"
  shows "store_inv_at w digest (snd (account_add d acls lim s))"
    "store_inv_at w digest (account_set_role d typ s)"
    "store_inv_at w digest (account_change_queue_limits d l1 l2 s)"
    "store_inv_at w digest (snd (set_did_acl d acls s))"
    "store_inv_at w digest (setup_admin_account d typ acls s)"
proof -
  have a: "account_inv s" using assms by (simp add: store_inv_at_def)
  show "store_inv_at w digest (snd (account_add d acls lim s))"
    by (rule store_inv_accounts [OF assms])
      (simp_all add: same_defs account_inv_add a, simp_all add: account_add_def Let_def)
  show "store_inv_at w digest (account_set_role d typ s)"
    by (rule store_inv_accounts [OF assms])
      (simp_all add: same_defs account_inv_role a, simp_all add: account_set_role_def)
  show "store_inv_at w digest (account_change_queue_limits d l1 l2 s)"
    by (rule store_inv_accounts [OF assms])
      (simp_all add: same_defs account_change_queue_limits_def Let_def account_inv_record a)
  show "store_inv_at w digest (snd (set_did_acl d acls s))"
    by (rule store_inv_accounts [OF assms])
      (simp_all add: same_defs set_did_acl_def account_inv_record a)
  show "store_inv_at w digest (setup_admin_account d typ acls s)"
    by (rule store_inv_accounts [OF assms])
      (simp_all add: same_defs account_inv_setup a, simp_all add: setup_admin_account_def account_add_def Let_def)
qed

lemma store_inv_list_ops:
  assumes "store_inv_at w digest s"
  shows "store_inv_at w digest (snd (access_list_add lim d hs s))"
    "store_inv_at w digest (snd (access_list_remove d hs s))"
    "store_inv_at w digest (access_list_clear d s)"
proof -
  have a: "account_inv s" using assms by (simp add: store_inv_at_def)
  then have d: "distinct (or_default [] (access_lists s d'))" "access_lists s d' = Some l \<Longrightarrow> distinct l" for d' l
    by (cases "access_lists s d'"; auto simp: account_inv_def lists_distinct_def)+
  show "store_inv_at w digest (snd (access_list_add lim d hs s))"
    by (rule store_inv_accounts [OF assms])
      (use d in \<open>auto simp: same_defs access_list_add_def Let_def distinct_fold_push_new
        intro!: account_inv_lists [OF a] split: if_splits\<close>)
  show "store_inv_at w digest (snd (access_list_remove d hs s))"
    by (rule store_inv_accounts [OF assms])
      (use a d in \<open>auto simp: same_defs access_list_remove_def Let_def
        intro!: account_inv_lists [OF a] split: if_splits option.splits\<close>)
  show "store_inv_at w digest (access_list_clear d s)"
    by (rule store_inv_accounts [OF assms])
      (use d in \<open>auto simp: same_defs access_list_clear_def intro!: account_inv_lists [OF a] split: if_splits\<close>)
qed

lemma store_inv_account_remove:
  assumes "store_inv_at True digest s"
  shows "store_inv_at True digest (snd (account_remove d s))"
proof -
  let ?u = "snd (purge_folder d Inbox (delete_folder_stream d Outbox (snd (set_did_acl d blocked_acls s))))"
  let ?t = "?u\<lparr>accounts := (accounts ?u)(d := None), access_lists := (access_lists ?u)(d := None),
    admins := filter (\<lambda>x. x \<noteq> d) (admins ?u), known_dids := filter (\<lambda>x. x \<noteq> d) (known_dids ?u)\<rparr>"
  have u: "store_inv_at True digest ?u"
    by (intro store_inv_purge outbox_dropped store_inv_account_ops(4) assms)
  then have "account_inv ?t"
    by (auto simp: store_inv_at_def account_inv_def accounts_known_def admins_cover_def lists_distinct_def
        split: if_splits)
  then have "store_inv_at True digest ?t" by (intro store_inv_accounts [OF u]) (simp_all add: same_defs)
  moreover have "snd (account_remove d s) = s \<or> snd (account_remove d s) = ?t"
    by (simp add: account_remove_def Let_def)
  ultimately show ?thesis using assms by metis
qed

section \<open>Queue, sessions and the rest\<close>

lemma store_inv_queue:
  assumes "store_inv_at w digest s" "messages_same s s'" "accounts_same s s'" "logs_same s s'" "queue_below s'"
  shows "store_inv_at w digest s'"
  using assms message_inv_same [OF assms(2)] account_inv_same [OF assms(3)]
  by (simp add: store_inv_at_def logs_same_def)

lemma message_inv_later:
  assumes "message_inv w digest s" "messages s' = messages s" "inbox s' = inbox s" "outbox s' = outbox s"
    "expiry s' = expiry s" "last_id s \<le> last_id s'"
  shows "message_inv w digest s'"
  using assms streams_below_mono [OF _ assms(6)]
  by (auto simp: message_inv_def ids_below_def expiry_indexed_def inbox_listed_def content_addressed_def)

lemma store_inv_enqueue:
  assumes "store_inv_at w digest s" "next_stream_seq s < u64_max"
  shows "store_inv_at w digest (snd (forward_queue_enqueue now e mx s))"
proof -
  have q: "queue_below s" using assms(1) by (simp add: store_inv_at_def)
  obtain t s' where e: "forward_queue_enqueue now e mx s = (t, s')" by fastforce
  obtain i where i: "last_id s < i" "i = last_id s'"
    "s' = s\<lparr>last_stream_ms := sid_ms i, next_stream_seq := sid_seq i, forward_queue := forward_queue s'\<rparr>"
    by (rule enqueue_effect [OF q assms(2) e])
  have f: "messages s' = messages s" "inbox s' = inbox s" "outbox s' = outbox s" "expiry s' = expiry s"
    "accounts_same s s'" "logs_same s s'"
    by (subst i(3); simp add: same_defs)+
  have "message_inv w digest s'"
    using assms(1) i(1,2) message_inv_later [of w digest s s'] f by (simp add: store_inv_at_def)
  then show ?thesis
    using assms(1) queue_below_enqueue [OF q assms(2) e] account_inv_same [OF f(5)] f(6)
    by (simp add: store_inv_at_def logs_same_def e)
qed

lemma group_below_ack:
  "group_below l g \<Longrightarrow> group_below l (g\<lparr>cg_pending :=
     fold (\<lambda>t p. case parse_stream_id t of None \<Rightarrow> p | Some i \<Rightarrow> bt_remove i p) ts (cg_pending g)\<rparr>)"
proof (induction ts arbitrary: g)
  case (Cons t ts)
  show ?case
  proof (cases "parse_stream_id t")
    case (Some i)
    have "group_below l (g\<lparr>cg_pending := bt_remove i (cg_pending g)\<rparr>)"
      using Cons.prems by (simp add: group_below_def)
    from Cons.IH [OF this] Some show ?thesis by simp
  qed (use Cons in simp)
qed simp

lemma queue_below_delete:
  assumes "queue_below s"
  shows "queue_below (forward_queue_delete ts s)"
proof -
  have "bt_wf (fold (\<lambda>t q. case parse_stream_id t of None \<Rightarrow> q | Some i \<Rightarrow> bt_remove i q) ts q) \<and>
      set (fold (\<lambda>t q. case parse_stream_id t of None \<Rightarrow> q | Some i \<Rightarrow> bt_remove i q) ts q) \<subseteq> set q"
    if "bt_wf q" for q :: "(stream_id, forward_queue_entry) btree"
    using that
  proof (induction ts arbitrary: q)
    case (Cons t ts)
    show ?case
    proof (cases "parse_stream_id t")
      case (Some i)
      from Cons.IH [of "bt_remove i q"] Cons.prems Some show ?thesis by auto
    qed (use Cons in simp)
  qed simp
  from this [of "forward_queue s"] show ?thesis
    using assms by (auto simp: queue_below_def forward_queue_delete_def)
qed

lemma queue_below_group:
  assumes "queue_below s" "forward_groups s g = Some st" "group_below (last_id s) st'"
  shows "queue_below (s\<lparr>forward_groups := (forward_groups s)(g \<mapsto> st')\<rparr>)"
  using assms by (auto simp: queue_below_def)

lemma queue_below_ack: "queue_below s \<Longrightarrow> queue_below (forward_queue_ack g ts s)"
  by (cases "forward_groups s g")
    (auto simp: forward_queue_ack_def queue_below_def intro!: group_below_ack)

lemma reclaim_inv:
  assumes "queue_below s"
  shows "queue_below (snd (reclaim g n now ids s)) \<and>
    (\<exists>f. snd (reclaim g n now ids s) = s\<lparr>forward_groups := f\<rparr>)"
  using assms
proof (induction ids arbitrary: s)
  case Nil
  have "s = s\<lparr>forward_groups := forward_groups s\<rparr>" by simp
  with Nil show ?case by (metis reclaim.simps(1) snd_conv)
next
  case (Cons i ids)
  show ?case
  proof (cases "Option.bind (forward_groups s g) (\<lambda>st. bt_get (cg_pending st) i)")
    case None
    then have "snd (reclaim g n now (i # ids) s) = snd (reclaim g n now ids s)"
      by (cases "forward_groups s g") (simp_all add: split_beta split: option.split)
    with Cons show ?thesis by simp
  next
    case (Some claim)
    then obtain st where st: "forward_groups s g = Some st" "bt_get (cg_pending st) i = Some claim"
      by (cases "forward_groups s g") auto
    let ?c = "\<lparr>pc_consumer = n, pc_claimed_at = now, pc_delivery_count = as_u32 (pc_delivery_count claim + 1)\<rparr>"
    let ?st = "st\<lparr>cg_pending := bt_insert i ?c (cg_pending st)\<rparr>"
    let ?s = "s\<lparr>forward_groups := (forward_groups s)(g \<mapsto> ?st)\<rparr>"
    have "group_below (last_id s) st" using Cons.prems st(1) by (simp add: queue_below_def)
    moreover from this have "i \<le> cg_last_delivered st"
      using bt_get_Some_in [OF st(2)] by (force simp: group_below_def)
    then have "\<forall>p \<in> set (bt_insert i ?c (cg_pending st)). fst p \<le> cg_last_delivered st"
      using set_bt_insert [of i ?c "cg_pending st"] calculation by (auto simp: group_below_def)
    ultimately have "group_below (last_id s) ?st" by (simp add: group_below_def bt_wf_insert)
    then have q: "queue_below ?s" by (rule queue_below_group [OF Cons.prems st(1)])
    have "snd (reclaim g n now (i # ids) s) = snd (reclaim g n now ids ?s)"
      by (simp add: st Let_def split_beta split: option.split)
    with Cons.IH [OF q] show ?thesis by auto
  qed
qed

lemma store_inv_queue_ops:
  assumes "store_inv_at w digest s"
  shows "store_inv_at w digest (snd (try_read g n k t s))" "store_inv_at w digest (forward_queue_ack g ids s)"
    "store_inv_at w digest (forward_queue_delete ids s)"
    "store_inv_at w digest (snd (forward_queue_autoclaim now g n idle k s))"
proof -
  have q: "queue_below s" using assms by (simp add: store_inv_at_def)
  show "store_inv_at w digest (snd (try_read g n k t s))"
    by (rule store_inv_queue [OF assms])
      (use queue_below_read [OF q, of g n k t "fst (try_read g n k t s)"] in
        \<open>simp_all add: same_defs try_read_def Let_def\<close>)
  show "store_inv_at w digest (forward_queue_ack g ids s)"
    by (rule store_inv_queue [OF assms])
      (simp_all add: same_defs queue_below_ack [OF q], simp_all add: forward_queue_ack_def split: option.split)
  show "store_inv_at w digest (forward_queue_delete ids s)"
    by (rule store_inv_queue [OF assms])
      (simp_all add: same_defs queue_below_delete [OF q], simp_all add: forward_queue_delete_def)
  obtain f where f: "snd (forward_queue_autoclaim now g n idle k s) = s\<lparr>forward_groups := f\<rparr>"
    and b: "queue_below (snd (forward_queue_autoclaim now g n idle k s))"
    using reclaim_inv [OF q] unfolding forward_queue_autoclaim_def Let_def by blast
  show "store_inv_at w digest (snd (forward_queue_autoclaim now g n idle k s))"
    by (rule store_inv_queue [OF assms _ _ _ b]) (simp_all add: f same_defs)
qed

lemma store_inv_session:
  assumes "store_inv_at w digest s" "sessions_keyed xs"
  shows "store_inv_at w digest (s\<lparr>sessions := xs\<rparr>)"
proof -
  have "message_inv w digest (s\<lparr>sessions := xs\<rparr>)" "account_inv (s\<lparr>sessions := xs\<rparr>)" "queue_below (s\<lparr>sessions := xs\<rparr>)"
    using assms(1) message_inv_same [of s "s\<lparr>sessions := xs\<rparr>"] account_inv_same [of s "s\<lparr>sessions := xs\<rparr>"]
      queue_below_same [of s "s\<lparr>sessions := xs\<rparr>"]
    by (simp_all add: store_inv_at_def same_defs)
  then show ?thesis using assms by (simp add: store_inv_at_def)
qed

lemma sessions_keyed_ops:
  assumes "sessions_keyed xs"
  shows "sessions_keyed (AList.delete i xs)"
    "ss_session_id (sn_session r) = i \<Longrightarrow> sessions_keyed (AList.update i r xs)"
    "sessions_keyed (filter (\<lambda>(_, r). P r) xs)"
  using assms
  by (auto simp: sessions_keyed_def distinct_delete AList.delete_conv' distinct_update AList.update_conv'
      distinct_map_filter map_of_filter_value split: if_splits option.splits)

lemma store_inv_session_ops:
  assumes "store_inv_at w digest s"
  shows "store_inv_at w digest (snd (put_session now x ttl s))" "store_inv_at w digest (snd (get_session digest now i did s))"
    "store_inv_at w digest (snd (delete_session i s))" "store_inv_at w digest (snd (sweep_expired_sessions now s))"
proof -
  have k: "sessions_keyed (sessions s)" using assms by (simp add: store_inv_at_def)
  then have del: "store_inv_at w digest (s\<lparr>sessions := AList.delete i (sessions s)\<rparr>)"
    by (intro store_inv_session assms sessions_keyed_ops)
  then show "store_inv_at w digest (snd (delete_session i s))" by (simp add: delete_session_def)
  show "store_inv_at w digest (snd (put_session now x ttl s))"
    using k by (simp add: put_session_def store_inv_session [OF assms] sessions_keyed_ops)
  show "store_inv_at w digest (snd (get_session digest now i did s))"
    using assms del
    by (cases "live_at now s i") (simp_all add: get_session_result get_session_record_cases)
  show "store_inv_at w digest (snd (sweep_expired_sessions now s))"
    using k by (simp add: sweep_expired_sessions_def Let_def store_inv_session [OF assms] sessions_keyed_ops)
qed

lemma store_inv_audit: "store_inv_at w digest s \<Longrightarrow> store_inv_at w digest (audit_log_record e s)"
  using message_inv_same [of s "audit_log_record e s"] account_inv_same [of s "audit_log_record e s"]
    queue_below_same [of s "audit_log_record e s"]
  by (simp add: store_inv_at_def same_defs audit_log_after)

lemma oob_get_frame: "snd (oob_discovery_get now i s) =
    s\<lparr>oob_invites := oob_invites (snd (oob_discovery_get now i s)),
      counters := counters (snd (oob_discovery_get now i s))\<rparr>"
  by (cases "oob_invites s i") (simp_all add: oob_discovery_get_def incr_counter_def)

lemma store_inv_misc:
  assumes "store_inv_at w digest s"
  shows "store_inv_at w digest (snd (oob_discovery_store digest d iv ex s))"
    "store_inv_at w digest (snd (oob_discovery_get now i s))" "store_inv_at w digest (snd (oob_discovery_delete i s))"
    "store_inv_at w digest (stats_increment c n s)" "store_inv_at w digest (streaming_clean_start u s)"
    "store_inv_at w digest (streaming_set_state d u st s)"
proof -
  show "store_inv_at w digest (snd (oob_discovery_get now i s))"
    by (rule store_inv_same [OF assms]; subst oob_get_frame; simp add: same_defs)
qed (rule store_inv_same [OF assms];
    simp add: same_defs oob_discovery_store_def oob_discovery_delete_def stats_increment_def
      streaming_clean_start_def streaming_set_state_def Let_def)+

lemma store_inv_step: "store_step digest s s' \<Longrightarrow> store_inv_at True digest s \<Longrightarrow> store_inv_at True digest s'"
  by (induction rule: store_step.induct)
    (simp_all add: store_inv_store kept_delete [OF store_inv_removal] store_inv_fetch store_inv_purge
      store_inv_sweep store_inv_account_ops store_inv_account_remove store_inv_list_ops store_inv_audit
      store_inv_misc store_inv_enqueue store_inv_queue_ops store_inv_session_ops)

lemma store_inv_empty: "store_inv_at w digest empty_state"
  by (simp add: store_inv_at_def message_inv_def account_inv_def queue_below_def ids_below_def streams_below_def
      expiry_indexed_def inbox_listed_def content_addressed_def accounts_known_def admins_cover_def
      lists_distinct_def sessions_keyed_def empty_state_def)

section \<open>Sections keep the invariant, operations are runs of sections\<close>

lemma section_inv_messages:
  assumes "store_inv_at False digest s"
  shows "store_inv_at False digest (delete_folder_stream d f s)" "store_inv_at False digest (slot_drop ts s)"
proof -
  have "message_inv False digest (delete_folder_stream d f s)"
    using assms streams_below_delete
    by (cases f) (auto simp: store_inv_at_def message_inv_def delete_folder_stream_def ids_below_def content_addressed_def)
  then show "store_inv_at False digest (delete_folder_stream d f s)"
    by (intro store_inv_traffic [OF assms]) (simp_all add: purge_folder_traffic)
  have "message_inv False digest (slot_drop ts s)"
    using assms by (simp add: store_inv_at_def message_inv_def slot_drop_def ids_below_def content_addressed_def)
  then show "store_inv_at False digest (slot_drop ts s)"
    by (intro store_inv_traffic [OF assms]) (simp_all add: slot_drop_def sweep_slot_traffic traffic_refl)
qed

lemma store_inv_drop:
  assumes "store_inv_at w digest s"
  shows "store_inv_at w digest (account_drop d s)"
proof -
  have "account_inv (account_drop d s)"
    using assms by (auto simp: store_inv_at_def account_drop_def account_inv_def accounts_known_def admins_cover_def
        lists_distinct_def split: if_splits)
  then show ?thesis by (intro store_inv_accounts [OF assms]) (simp_all add: same_defs account_drop_def)
qed

lemma store_inv_grant:
  assumes "store_inv_at w digest s"
  shows "store_inv_at w digest (admin_grant d typ s)"
proof -
  have "account_inv (admin_grant d typ s)"
    using assms by (auto simp: store_inv_at_def admin_grant_def on_account_def account_inv_def accounts_known_def admins_cover_def
        lists_distinct_def Let_def split: option.splits if_splits)
  then show ?thesis
    by (intro store_inv_accounts [OF assms]) (simp_all add: same_defs admin_grant_def on_account_def Let_def split: option.split)
qed

lemma section_inv_step: "store_section digest s s' \<Longrightarrow> store_inv_at False digest s \<Longrightarrow> store_inv_at False digest s'"
  by (induction rule: store_section.induct)
    (simp_all add: store_inv_store kept_delete [OF store_inv_removal] section_inv_messages store_inv_drop store_inv_grant
      store_inv_account_ops store_inv_list_ops store_inv_audit
      store_inv_misc store_inv_enqueue store_inv_queue_ops store_inv_session_ops)

lemma sections_inv:
  assumes "section_run digest empty_state s"
  shows "section_inv digest s"
  using assms unfolding section_inv_def by induction (auto simp: store_inv_empty intro: section_inv_step)

lemma run_removal: "kept_by_removal (section_run digest s0)"
  unfolding kept_by_removal_def
proof (intro allI impI, elim conjE)
  fix s h r assume "section_run digest s0 s" "messages s h = Some r"
  moreover from this have "snd (delete_message h (AdminAuthority []) s) = remove_record h r s" by (simp add: delete_message_def)
  ultimately show "section_run digest s0 (remove_record h r s)" by (metis rtranclp.rtrancl_into_rtrancl section_delete)
qed

lemma run_fetch: "section_run digest s (snd (fetch_messages d opts s))"
  using kept_fetch [OF run_removal rtranclp.rtrancl_refl] by (simp add: fetch_messages_def Let_def split: option.split)

lemma run_purge: "section_run digest s0 s \<Longrightarrow> section_run digest s0 (snd (purge_folder d f s))"
  unfolding purge_folder_state
  by (rule rtranclp.rtrancl_into_rtrancl [OF kept_purge [OF run_removal] section_drop_folder])

lemma run_sweep: "section_run digest s (snd (sweep_expired_messages now a s))"
proof -
  have "section_run digest s u \<Longrightarrow> section_run digest s (u\<lparr>expiry := bt_remove t (expiry u)\<rparr>)" for u t
    using section_drop_slot [of digest u t] by (simp add: slot_drop_def)
  then show ?thesis
    unfolding sweep_expired_messages_def Let_def by (intro kept_sweep [OF run_removal]) simp_all
qed

lemma account_remove_sections:
  "snd (account_remove d s) = s \<or> snd (account_remove d s) =
     account_drop d (snd (purge_folder d Inbox (delete_folder_stream d Outbox (snd (set_did_acl d blocked_acls s)))))"
  by (simp add: account_remove_def account_drop_def Let_def)

lemma run_account_remove: "section_run digest s (snd (account_remove d s))"
proof -
  have "section_run digest s (delete_folder_stream d Outbox (snd (set_did_acl d blocked_acls s)))"
    using section_set_acl section_drop_folder by (metis r_into_rtranclp rtranclp.rtrancl_into_rtrancl)
  from rtranclp.rtrancl_into_rtrancl [OF run_purge [OF this] section_account_drop] show ?thesis
    using account_remove_sections [of d s] by (metis rtranclp.rtrancl_refl)
qed

lemma run_setup_admin: "section_run digest s (setup_admin_account d typ acls s)"
proof -
  let ?s = "if account_exists d s then s else snd (account_add d acls None s)"
  have "section_run digest s ?s" by (auto intro: section_account_add)
  moreover have "setup_admin_account d typ acls s = admin_grant d typ ?s" by (simp add: setup_admin_account_def admin_grant_def Let_def)
  ultimately show ?thesis by (metis rtranclp.rtrancl_into_rtrancl section_admin_grant)
qed

lemma step_run: "store_step digest s s' \<Longrightarrow> section_run digest s s'"
  by (induction rule: store_step.induct)
    (simp_all add: run_fetch run_purge run_sweep run_account_remove run_setup_admin r_into_rtranclp store_section.intros)

lemma reachable_run:
  assumes "reachable digest s"
  shows "section_run digest empty_state s"
  using assms by induction (auto dest: step_run)

section \<open>Properties of reachable states\<close>

lemma reachable_inv:
  assumes "reachable digest s"
  shows "store_inv digest s"
  using assms unfolding store_inv_def by induction (auto simp: store_inv_empty intro: store_inv_step)

lemma run_store_drop:
  assumes "ids_available s"
  shows "section_run digest s (delete_folder_stream d f (snd (store_message digest ts n1 n2 m to from ex s)))"
proof -
  have "section_run digest s (snd (store_message digest ts n1 n2 m to from ex s))"
    using section_store [OF assms] by blast
  then show ?thesis using section_drop_folder by (rule rtranclp.rtrancl_into_rtrancl)
qed

text \<open>C2. The state machine of the in-memory store, at two grains. Its critical sections, the code that runs while the
  state is locked, may be interleaved in any way, and \<open>delete_folder_stream\<close> may be called at any time: still every state
  has ordered streams and queues below the last allocated id, content-addressed bodies, accounts for known DIDs, an
  admin set covering every administrator, duplicate-free lists, a bounded audit log and sessions under their own id.
  Whole operations are runs of such sections. Where operations do not overlap (nothing comes between the sections
  of one fetch, purge, sweep, account removal or admin setup) and \<open>delete_folder_stream\<close> is called only by them, the expiry index is
  complete too, and every message is listed in the inbox of its recipient. In both, a millisecond is never
  given more than \<open>2 ^ 64 - 2\<close> stream ids.\<close>
theorem reachable_store_inv:
  "(section_run digest empty_state s \<longrightarrow> section_inv digest s) \<and>
   (reachable digest s \<longrightarrow> section_run digest empty_state s \<and> store_inv digest s)"
  using sections_inv reachable_run reachable_inv by blast

theorem reachable_store_inv_witness:
  "section_inv (\<lambda>b. b) (delete_folder_stream ''bob'' Inbox
     (snd (store_message (\<lambda>b. b) 7 7 7 ''m'' ''bob'' (Some ''alice'') 9 empty_state))) \<and>
   store_inv (\<lambda>b. b) (snd (delete_message ''m'' (Owner ''bob'')
     (snd (store_message (\<lambda>b. b) 7 7 7 ''m'' ''bob'' (Some ''alice'') 9 empty_state))))"
proof -
  let ?s = "snd (store_message (\<lambda>b. b) 7 7 7 ''m'' ''bob'' (Some ''alice'') 9 empty_state)"
  have a: "ids_available empty_state" by (simp add: empty_state_def u64_max_def)
  have "section_run (\<lambda>b. b) empty_state (delete_folder_stream ''bob'' Inbox ?s)"
    using a by (rule run_store_drop)
  moreover have "reachable (\<lambda>b. b) (snd (delete_message ''m'' (Owner ''bob'') ?s))"
    by (intro reachable_step [OF reachable_step [OF reachable_new step_store [OF a]] step_delete])
  ultimately show ?thesis using reachable_store_inv by blast
qed

definition race_end :: memory_state where
  \<comment> \<open>a message is stored after \<open>purge_folder\<close> listed an empty inbox, before its last section\<close>
  "race_end = delete_folder_stream ''bob'' Inbox
     (snd (purge_loop ''bob'' [] 0 0 (snd (store_message (\<lambda>b. b) 7 7 7 ''m'' ''bob'' (Some ''alice'') 9 empty_state))))"

text \<open>Overlapping operations can hide a message: one that is stored while the inbox of its recipient is being
  purged stays in the store and is counted, and it is in no inbox.\<close>
theorem purge_race_hides_message:
  "section_run (\<lambda>b. b) empty_state race_end \<and> messages race_end ''m'' \<noteq> None \<and> inbox race_end ''bob'' = None \<and>
   map_option ar_receive_queue_count (accounts race_end ''bob'') = Some 1"
proof -
  have "ids_available empty_state" by (simp add: empty_state_def u64_max_def)
  then have "section_run (\<lambda>b. b) empty_state race_end"
    unfolding race_end_def purge_loop.simps snd_conv by (rule run_store_drop)
  moreover have "messages race_end ''m'' \<noteq> None \<and> inbox race_end ''bob'' = None"
    by (simp add: race_end_def delete_folder_stream_def store_message_messages)
  moreover have "map_option ar_receive_queue_count (accounts race_end ''bob'') = Some 1"
    by (simp add: race_end_def delete_folder_stream_def store_message_accounts Let_def count_received_def count_sent_def
        empty_state_def default_account_record_def sat_add_def u32_max_def)
  ultimately show ?thesis by blast
qed

text \<open>The expiry sweep of a reachable store deletes exactly the messages indexed at a time up to
  now: afterwards no message is past its expiry, and a message that is kept is unchanged.\<close>
theorem sweep_removes_expired:
  assumes "reachable digest s" "sweep_expired_messages now adm s = (rep, s')"
  shows "(\<forall>m r. messages s' m = Some r \<longrightarrow>
      messages s m = Some r \<and> (mr_expires_at r = 0 \<or> now < mr_expires_at r)) \<and>
    (\<forall>m. messages s' m = None \<longrightarrow> messages s m = None \<or> (\<exists>t \<le> now. indexed (expiry s) t m))"
proof -
  have x: "expiry_indexed s"
    using reachable_inv [OF assms(1)] by (simp add: store_inv_def store_inv_at_def message_inv_def)
  then have "messages s' = (\<lambda>m. if \<exists>t \<le> now. indexed (expiry s) t m then None else messages s m)"
    using sweep_messages [of s now adm] assms(2) by (simp add: expiry_indexed_def)
  with x show ?thesis by (auto simp: expiry_indexed_def split: if_splits) (metis gr0I leI)
qed

theorem sweep_removes_expired_witness:
  "\<exists>s rep s'. reachable (\<lambda>b. b) s \<and> messages s ''m'' \<noteq> None \<and>
     sweep_expired_messages 9 ''adm'' s = (rep, s') \<and> messages s' ''m'' = None"
proof -
  let ?s = "snd (store_message (\<lambda>b. b) 7 7 7 ''m'' ''bob'' (Some ''alice'') 9 empty_state)"
  have "ids_available empty_state" by (simp add: empty_state_def u64_max_def)
  then have r: "reachable (\<lambda>b. b) ?s" by (rule reachable_step [OF reachable_new step_store])
  obtain rep s' where w: "sweep_expired_messages 9 ''adm'' ?s = (rep, s')" by fastforce
  have m: "messages ?s ''m'' \<noteq> None" "\<forall>r. messages ?s ''m'' = Some r \<longrightarrow> mr_expires_at r = 9"
    by (simp_all add: store_message_messages)
  have "messages s' ''m'' = None"
  proof (rule ccontr)
    assume "messages s' ''m'' \<noteq> None"
    then obtain r where "messages s' ''m'' = Some r" by blast
    with sweep_removes_expired [OF r w] m(2) show False by fastforce
  qed
  with r w m(1) show ?thesis by blast
qed

text \<open>In a reachable store \<open>check_admin_account\<close> answers yes exactly for the accounts whose role
  is administrator or root administrator.\<close>
theorem check_admin_exact:
  assumes "reachable digest s"
  shows "check_admin_account d s \<longleftrightarrow> map_option ar_role (accounts s d) \<in> {Some Admin, Some RootAdmin}"
  using reachable_inv [OF assms]
  by (cases "accounts s d")
    (auto simp: check_admin_account_def store_inv_def store_inv_at_def account_inv_def admins_cover_def is_admin_def
      split: account_type.splits)

theorem check_admin_exact_witness:
  "check_admin_account ''root'' (setup_admin_account ''root'' RootAdmin default_acl_set empty_state) \<and>
   \<not> check_admin_account ''bob'' (setup_admin_account ''root'' RootAdmin default_acl_set empty_state)"
proof -
  let ?s = "setup_admin_account ''root'' RootAdmin default_acl_set empty_state"
  have r: "reachable (\<lambda>b. b) ?s" by (rule reachable_step [OF reachable_new step_setup_admin])
  show ?thesis
    using check_admin_exact [OF r, of "''root''"] check_admin_exact [OF r, of "''bob''"]
    by (simp add: setup_admin_effect empty_state_def)
qed

end
