(* ===== verification/QueueRuns.thy ===== *)
theory QueueRuns
  imports MemInvariants
begin

text \<open>
  Runs of the forwarding queue of the in-memory backend: any sequence of enqueues, reads, acknowledgements,
  deletions and claims of stale entries, by any consumers and groups. The lemmas follow one entry that a group has
  read: its claim and its place in the queue. The property is that it can be claimed again for as long as it
  is neither acknowledged nor gone from the queue.
\<close>

section \<open>Runs\<close>

datatype forward_op =
    QEnqueue nat forward_queue_entry nat
  | QRead string string nat nat
  | QAck string "string list"
  | QDelete "string list"
  | QClaim nat string string nat nat

fun queue_apply :: "forward_op \<Rightarrow> memory_state \<Rightarrow> memory_state" where
  "queue_apply (QEnqueue now e mx) s = snd (forward_queue_enqueue now e mx s)"
| "queue_apply (QRead g n k t) s = snd (try_read g n k t s)"
| "queue_apply (QAck g ids) s = forward_queue_ack g ids s"
| "queue_apply (QDelete ids) s = forward_queue_delete ids s"
| "queue_apply (QClaim now g n idle c) s = snd (forward_queue_autoclaim now g n idle c s)"

fun queue_run :: "forward_op list \<Rightarrow> memory_state \<Rightarrow> memory_state option" where
  \<comment> \<open>\<open>None\<close>: a millisecond has run out of stream ids\<close>
  "queue_run [] s = Some s"
| "queue_run (q # qs) s =
     (if (case q of QEnqueue _ _ _ \<Rightarrow> u64_max \<le> next_stream_seq s | _ \<Rightarrow> False) then None else queue_run qs (queue_apply q s))"

definition names :: "string list \<Rightarrow> stream_id \<Rightarrow> bool" where
  "names ts i \<longleftrightarrow> (\<exists>t \<in> set ts. parse_stream_id t = Some i)"

fun acknowledges :: "string \<Rightarrow> stream_id \<Rightarrow> forward_op \<Rightarrow> bool" where
  "acknowledges g i (QAck h ts) = (h = g \<and> names ts i)"
| "acknowledges g i _ = False"

fun may_drop :: "stream_id \<Rightarrow> forward_op \<Rightarrow> bool" where
  \<comment> \<open>a deletion that names the entry, or an enqueue with a length limit, which trims the oldest entries\<close>
  "may_drop i (QDelete ts) = names ts i"
| "may_drop i (QEnqueue _ _ mx) = (0 < mx)"
| "may_drop i _ = False"

section \<open>One operation\<close>

lemma reclaim_keeps:
  assumes "queue_below s" "bt_get (cg_pending (group_of s g)) j \<noteq> None"
  shows "bt_get (cg_pending (group_of (snd (reclaim h n now ids s)) g)) j \<noteq> None"
  using assms
proof (induction ids arbitrary: s)
  case (Cons i ids)
  let ?one = "snd (reclaim h n now [i] s)"
  have step: "snd (reclaim h n now (i # ids) s) = snd (reclaim h n now ids ?one)"
    by (simp add: Let_def split_beta split: option.split)
  have q: "queue_below ?one" using reclaim_inv [OF Cons.prems(1)] by blast
  have wf: "bt_wf (cg_pending st)" if "forward_groups s h = Some st" for st
    using that Cons.prems(1) by (auto simp: queue_below_def group_below_def)
  have "bt_get (cg_pending (group_of ?one g)) j \<noteq> None"
    using Cons.prems(2) wf
    by (cases "forward_groups s h"; cases "bt_get (cg_pending (the (forward_groups s h))) i")
      (auto simp: Let_def split_beta bt.lookup_ins split: option.split)
  then show ?case unfolding step by (rule Cons.IH [OF q])
qed simp

lemma queue_apply_below:
  assumes "queue_below s" "case q of QEnqueue _ _ _ \<Rightarrow> next_stream_seq s < u64_max | _ \<Rightarrow> True"
  shows "queue_below (queue_apply q s)"
proof (cases q)
  case (QEnqueue now e mx)
  then show ?thesis using queue_below_enqueue [OF assms(1)] assms(2) by (cases "forward_queue_enqueue now e mx s") simp
next
  case (QRead g n k t)
  then show ?thesis using queue_below_read [OF assms(1)] by (cases "try_read g n k t s") simp
next
  case (QClaim now g n idle c)
  then show ?thesis using reclaim_inv [OF assms(1)] by (simp add: forward_queue_autoclaim_def)
qed (simp_all add: queue_below_ack queue_below_delete assms(1))

lemma queue_apply_pending:
  assumes "queue_below s" "\<not> acknowledges g j q" "bt_get (cg_pending (group_of s g)) j \<noteq> None"
    "case q of QEnqueue _ _ _ \<Rightarrow> next_stream_seq s < u64_max | _ \<Rightarrow> True"
  shows "bt_get (cg_pending (group_of (queue_apply q s) g)) j \<noteq> None"
proof (cases q)
  case (QEnqueue now e mx)
  obtain t s' where e: "forward_queue_enqueue now e mx s = (t, s')" by fastforce
  have "forward_groups s' = forward_groups s" by (rule enqueue_effect [OF assms(1) _ e]) (use assms(4) QEnqueue in auto)
  then show ?thesis using assms(3) QEnqueue e by simp
next
  case (QRead h n k t)
  obtain es s' where e: "try_read h n k t s = (es, s')" by fastforce
  note r = try_read_group [OF assms(1) e]
  show ?thesis
  proof (cases "h = g")
    case True
    have "bt_get (cg_pending (claim_candidates n t (take k (undelivered g s)) (group_of s g))) j \<noteq> None"
      using claim_pending [OF group_ofD(1) [OF assms(1)], of n t "take k (undelivered g s)" g j] assms(3) by (simp split: if_splits)
    then show ?thesis using r(5) True QRead e by simp
  next
    case False
    then have "forward_groups s' g = forward_groups s g" by (intro r(4)) simp
    then show ?thesis using QRead e assms(3) by simp
  qed
next
  case (QAck h ts)
  then have "\<not> (h = g \<and> names ts j)" using assms(2) by simp
  then show ?thesis
    using assms(3) QAck by (cases "forward_groups s h") (auto simp: forward_queue_ack_def fold_remove_pending names_def)
next
  case (QClaim now h n idle c)
  then show ?thesis using reclaim_keeps [OF assms(1,3)] by (simp add: forward_queue_autoclaim_def del: not_None_eq)
qed (use assms(3) in \<open>simp add: forward_queue_delete_def\<close>)

lemma reclaim_queue [simp]: "forward_queue (snd (reclaim h n now ids s)) = forward_queue s"
  by (induction ids arbitrary: s) (auto simp: Let_def split_beta split: option.split)

lemma queue_apply_entry:
  assumes "queue_below s" "bt_get (cg_pending (group_of s g)) j \<noteq> None"
    "case q of QEnqueue _ _ _ \<Rightarrow> next_stream_seq s < u64_max | _ \<Rightarrow> True"
  shows "bt_get (forward_queue (queue_apply q s)) j = bt_get (forward_queue s) j \<or>
    may_drop j q \<and> bt_get (forward_queue (queue_apply q s)) j = None"
proof (cases q)
  case (QEnqueue now e mx)
  obtain t s' where e: "forward_queue_enqueue now e mx s = (t, s')" by fastforce
  obtain i where i: "last_id s < i" "forward_queue s' =
      drop (if mx = 0 then 0 else Suc (length (forward_queue s)) - mx) (forward_queue s @ [(i, e\<lparr>fe_stream_id := t\<rparr>)])"
    by (rule enqueue_effect [OF assms(1) _ e]) (use assms(3) QEnqueue in auto)
  obtain claim where "(j, claim) \<in> set (cg_pending (group_of s g))" using assms(2) bt_get_Some_in by fastforce
  from group_ofD(3) [OF assms(1) this] have "j \<le> cg_last_delivered (group_of s g)" by simp
  also have "\<dots> \<le> last_id s" by (rule group_ofD(2) [OF assms(1)])
  finally have "j \<le> last_id s" .
  then have j: "j \<noteq> i" using i(1) by auto
  have wf: "bt_wf (forward_queue s)" "bt_wf (forward_queue s')"
    using assms(1) queue_below_enqueue [OF assms(1) _ e] assms(3) QEnqueue by (auto simp: queue_below_def)
  have sub: "set (forward_queue s') \<subseteq> set (forward_queue s @ [(i, e\<lparr>fe_stream_id := t\<rparr>)])"
    unfolding i(2) by (rule set_drop_subset)
  show ?thesis
  proof (cases "bt_get (forward_queue s') j")
    case (Some v)
    then have "(j, v) \<in> set (forward_queue s)" using sub j bt_get_Some_in by fastforce
    then have "bt_get (forward_queue s) j = Some v" using bt.lookup_iff_entry [OF wf(1), of j v] by simp
    then show ?thesis using Some QEnqueue e by simp
  next
    case None
    have "mx = 0 \<Longrightarrow> bt_get (forward_queue s') j = bt_get (forward_queue s) j"
      using j by (simp add: i(2) bt_get_def map_add_def split: option.split)
    then show ?thesis using None QEnqueue e by (cases "mx = 0") auto
  qed
next
  case (QDelete ts)
  then show ?thesis by (simp add: forward_queue_delete_def fold_remove_pending names_def)
next
  case (QAck h ts)
  then show ?thesis by (simp add: forward_queue_ack_def split: option.split)
qed (simp_all add: try_read_def Let_def forward_queue_autoclaim_def)

section \<open>Runs keep what was read\<close>

lemma queue_run_keeps:
  assumes "queue_run qs s = Some s'" "queue_below s" "\<forall>q \<in> set qs. \<not> acknowledges g j q"
    "bt_get (cg_pending (group_of s g)) j \<noteq> None"
  shows "queue_below s' \<and> bt_get (cg_pending (group_of s' g)) j \<noteq> None \<and>
    (bt_get (forward_queue s') j = bt_get (forward_queue s) j \<or> (\<exists>q \<in> set qs. may_drop j q) \<and> bt_get (forward_queue s') j = None)"
  using assms
proof (induction qs arbitrary: s)
  case (Cons q qs)
  have a: "case q of QEnqueue _ _ _ \<Rightarrow> next_stream_seq s < u64_max | _ \<Rightarrow> True" and r: "queue_run qs (queue_apply q s) = Some s'"
    using Cons.prems(1) by (auto split: forward_op.splits if_splits)
  have n: "\<not> acknowledges g j q" "\<forall>q \<in> set qs. \<not> acknowledges g j q" using Cons.prems(3) by simp_all
  note IH = Cons.IH [OF r queue_apply_below [OF Cons.prems(2) a] n(2) queue_apply_pending [OF Cons.prems(2) n(1) Cons.prems(4) a]]
  from queue_apply_entry [OF Cons.prems(2,4) a] IH show ?case by auto
qed simp

lemma autoclaim_returns:
  assumes "queue_below s" "bt_get (cg_pending (group_of s g)) j = Some claim" "bt_get (forward_queue s) j = Some e"
    "pc_claimed_at claim + idle \<le> now" "length (cg_pending (group_of s g)) \<le> c"
  shows "e \<in> set (fst (forward_queue_autoclaim now g n idle c s))"
proof -
  let ?stale = "filter (\<lambda>(_, claim). sat_sub now (pc_claimed_at claim) \<ge> idle) (cg_pending (group_of s g))"
  have all: "take c (map fst ?stale) = map fst ?stale" using assms(5) le_trans [OF length_filter_le] by simp
  have "(j, claim) \<in> set (cg_pending (group_of s g))" using assms(2) by (rule bt_get_Some_in)
  then have "j \<in> set (map fst ?stale)" using assms(4) by (force simp: sat_sub_def)
  then show ?thesis unfolding autoclaim_entries all map_filter_set using assms(3) by blast
qed

lemma read_claims:
  assumes "queue_below s" "try_read g n k t s = (es, s')" "(j, e) \<in> set (take k (undelivered g s))"
  shows "bt_get (cg_pending (group_of s' g)) j \<noteq> None" "bt_get (forward_queue s') j = Some e"
proof -
  note r = try_read_group [OF assms(1,2)]
  show "bt_get (cg_pending (group_of s' g)) j \<noteq> None"
    using r(5) claim_pending [OF group_ofD(1) [OF assms(1)], of n t "take k (undelivered g s)" g j] assms(3) by force
  show "bt_get (forward_queue s') j = Some e"
    using undelivered_queue [OF in_set_takeD [OF assms(3)]] assms(1) r(2) bt.lookup_iff_entry [of "forward_queue s" j e]
    by (simp add: queue_below_def)
qed

text \<open>C38. What a group has read and not acknowledged can be claimed again. Let a consumer read entries, and let any
  operations on the queue follow, by any consumers and groups. An entry that none of them acknowledged for the group
  is still claimed by it. It is still in the queue, unchanged, unless a deletion named it or an enqueue had a length limit, which
  may trim it. And for as long as it is in the queue, it is among the entries returned to any consumer
  of the group that asks for stale entries when the idle time since its last claim has passed, and for as many as
  are claimed. An acknowledged id is no longer claimed, and every other claim stays.\<close>
theorem unacknowledged_redelivered:
  assumes "queue_below s" "try_read g n k t s = (es, s')" "queue_run qs s' = Some s2"
    and "(j, e) \<in> set (take k (undelivered g s))" "\<forall>q \<in> set qs. \<not> acknowledges g j q"
  shows "e \<in> set es \<and> (\<exists>claim. bt_get (cg_pending (group_of s2 g)) j = Some claim \<and>
      (bt_get (forward_queue s2) j = Some e \<or> (\<exists>q \<in> set qs. may_drop j q) \<and> bt_get (forward_queue s2) j = None) \<and>
      (bt_get (forward_queue s2) j = Some e \<and> pc_claimed_at claim + idle \<le> now \<and> length (cg_pending (group_of s2 g)) \<le> c \<longrightarrow>
         e \<in> set (fst (forward_queue_autoclaim now g n2 idle c s2)))) \<and>
    bt_get (cg_pending (group_of (forward_queue_ack g ids s2) g)) i =
      (if names ids i then None else bt_get (cg_pending (group_of s2 g)) i)"
proof -
  note rd = read_claims [OF assms(1,2,4)]
  note run = queue_run_keeps [OF assms(3) queue_below_read [OF assms(1,2)] assms(5) rd(1)]
  then obtain claim where c: "bt_get (cg_pending (group_of s2 g)) j = Some claim" by blast
  have "e \<in> set es" using try_read_group(1) [OF assms(1,2)] assms(4) by force
  moreover have "bt_get (forward_queue s2) j = Some e \<or> (\<exists>q \<in> set qs. may_drop j q) \<and> bt_get (forward_queue s2) j = None"
    using run rd(2) by simp
  moreover have "bt_get (forward_queue s2) j = Some e \<and> pc_claimed_at claim + idle \<le> now \<and> length (cg_pending (group_of s2 g)) \<le> c \<longrightarrow>
      e \<in> set (fst (forward_queue_autoclaim now g n2 idle c s2))"
    using autoclaim_returns [OF _ c] run by blast
  moreover have "bt_get (cg_pending (group_of (forward_queue_ack g ids s2) g)) i =
      (if names ids i then None else bt_get (cg_pending (group_of s2 g)) i)"
    by (cases "forward_groups s2 g") (simp_all add: forward_queue_ack_def fold_remove_pending names_def default_group_def)
  ultimately show ?thesis using c by blast
qed

definition queue_sample :: memory_state where
  "queue_sample = snd (forward_queue_enqueue 5 (sample_entry ''a'') 0 empty_state)"

definition claimed_sample :: memory_state where
  "claimed_sample = snd (try_read ''g'' ''c1'' 9 100 queue_sample)"

theorem unacknowledged_redelivered_witness:
  "\<exists>j e s2. queue_run [QRead ''g'' ''c2'' 3 110, QAck ''other'' [''5-0''], QEnqueue 7 (sample_entry ''b'') 0] claimed_sample = Some s2 \<and>
     fe_message e = ''a'' \<and> bt_get (forward_queue s2) j = Some e \<and>
     bt_get (cg_pending (group_of (forward_queue_ack ''g'' [] s2) ''g'')) j \<noteq> None"
proof -
  let ?qs = "[QRead ''g'' ''c2'' 3 110, QAck ''other'' [''5-0''], QEnqueue 7 (sample_entry ''b'') 0]"
  obtain tid where e: "forward_queue_enqueue 5 (sample_entry ''a'') 0 empty_state = (tid, queue_sample)"
    unfolding queue_sample_def by (metis prod.collapse)
  have a: "next_stream_seq empty_state < u64_max" by (simp add: empty_state_def u64_max_def)
  have q: "queue_below queue_sample" by (rule queue_below_enqueue [OF empty_queue_below a e])
  obtain i where u: "undelivered ''g'' queue_sample = undelivered ''g'' empty_state @ [(i, (sample_entry ''a'')\<lparr>fe_stream_id := tid\<rparr>)]"
    by (rule enqueue_undelivered [OF empty_queue_below a e])
  have j: "(i, (sample_entry ''a'')\<lparr>fe_stream_id := tid\<rparr>) \<in> set (take 9 (undelivered ''g'' queue_sample))"
    unfolding u by (simp add: undelivered_def empty_state_def bt_after_def)
  obtain es where r: "try_read ''g'' ''c1'' 9 100 queue_sample = (es, claimed_sample)"
    unfolding claimed_sample_def by (metis prod.collapse)
  have seq: "next_stream_seq claimed_sample < u64_max"
    by (simp add: claimed_sample_def queue_sample_def try_read_def forward_queue_enqueue_def alloc_stream_id_def empty_state_def u64_max_def Let_def)
  then have n: "next_stream_seq (forward_queue_ack ''other'' [''5-0''] (snd (try_read ''g'' ''c2'' 3 110 claimed_sample))) < u64_max"
    by (simp add: try_read_def forward_queue_ack_def Let_def split: option.split)
  then obtain s2 where s2: "queue_run ?qs claimed_sample = Some s2" by simp
  from unacknowledged_redelivered [OF q r s2 j, of 0 0 0 "[]" "[]" i] s2 show ?thesis
    by (intro exI [of _ i] exI [of _ "(sample_entry ''a'')\<lparr>fe_stream_id := tid\<rparr>"] exI [of _ s2])
      (auto simp: names_def sample_entry_def)
qed

end
