(* ===== verification/Authz.thy ===== *)
theory Authz
  imports MemAccounts
begin

text \<open>
  The central authorisation checks of the mediator (\<open>mediator/src/common/authz.rs\<close>):
  capabilities, the access-list wrapper, the pre-authentication check, the rule for ACL changes an
  account makes to itself, and the age limit of administration messages.
\<close>

section \<open>Capabilities\<close>

datatype capability =
    NotBlocked | Local | SendMessages | ReceiveMessages | SendForwarded | ReceiveForwarded
  | CreateInvites | AnonReceive

datatype capability_denied = CapabilityDenied capability

fun grants :: "mediator_acl_set \<Rightarrow> capability \<Rightarrow> bool" where
  "grants acls NotBlocked = (\<not> get_blocked acls)"
| "grants acls Local = get_local acls"
| "grants acls SendMessages = fst (get_send_messages acls)"
| "grants acls ReceiveMessages = fst (get_receive_messages acls)"
| "grants acls SendForwarded = fst (get_send_forwarded acls)"
| "grants acls ReceiveForwarded = fst (get_receive_forwarded acls)"
| "grants acls CreateInvites = fst (get_create_invites acls)"
| "grants acls AnonReceive = fst (get_anon_receive acls)"

definition require_capability :: "mediator_acl_set \<Rightarrow> capability \<Rightarrow> capability_denied + unit" where
  "require_capability acls c = (if grants acls c then Inr () else Inl (CapabilityDenied c))"

datatype access_list_denied = AccessListDenied

definition check_access_list ::
  "(string \<Rightarrow> string option \<Rightarrow> 's \<Rightarrow> bool) \<Rightarrow> string \<Rightarrow> string option \<Rightarrow> 's \<Rightarrow> access_list_denied + unit" where
  "check_access_list allowed recipient_hash sender_hash s =
     (if allowed recipient_hash sender_hash s then Inr () else Inl AccessListDenied)"

definition authentication_check ::
  "(string list \<Rightarrow> access_list_mode_type \<Rightarrow> 's \<Rightarrow> 'e + acl_get_response) \<Rightarrow> access_list_mode_type \<Rightarrow>
   mediator_acl_set \<Rightarrow> string \<Rightarrow> session option \<Rightarrow> 's \<Rightarrow> 'e + bool \<times> bool" where
  \<comment> \<open>the result is (allowed, known)\<close>
  "authentication_check get_acls mediator_acl_mode global_acl_default did_hash session s =
     (case session of
        Some x \<Rightarrow> Inr (grants (ss_acls x) NotBlocked, True)
      | None \<Rightarrow>
          and_then (get_acls [did_hash] mediator_acl_mode s) (\<lambda>r.
            Inr (case ag_acl_response r of
                   e # _ \<Rightarrow> (grants (ae_acls e) NotBlocked, True)
                 | [] \<Rightarrow> (grants global_acl_default NotBlocked, False))))"

section \<open>Changing one's own ACLs\<close>

definition change_check :: "string \<Rightarrow> 'v \<times> bool \<Rightarrow> 'v \<times> bool \<Rightarrow> string list" where
  \<comment> \<open>the two checks made for each capability: its value, its \<open>self_change\<close> flag\<close>
  "change_check name current new =
     (if fst current \<noteq> fst new \<and> \<not> snd current then [name @ '' not allowed to change''] else []) @
     (if snd current \<noteq> snd new then [name @ '':self_change can'' @ [CHR 0x27] @ ''t modify!''] else [])"

definition acl_change_ok :: "mediator_acl_set \<Rightarrow> mediator_acl_set \<Rightarrow> string list option" where
  "acl_change_ok current new =
     (let errors =
        change_check ''access_list_mode'' (get_access_list_mode current) (get_access_list_mode new) @
        change_check ''send_messages'' (get_send_messages current) (get_send_messages new) @
        change_check ''receive_messages'' (get_receive_messages current) (get_receive_messages new) @
        change_check ''send_forwarded'' (get_send_forwarded current) (get_send_forwarded new) @
        change_check ''get_receive_forwarded'' (get_receive_forwarded current) (get_receive_forwarded new) @
        change_check ''create_invites'' (get_create_invites current) (get_create_invites new) @
        change_check ''anon_receive'' (get_anon_receive current) (get_anon_receive new)
      in if errors = [] then None else Some errors)"

section \<open>Age of administration messages\<close>

datatype admin_ttl_status = TtlOk | Expired nat | MissingTime

definition admin_message_ttl_status :: "nat option \<Rightarrow> nat \<Rightarrow> nat \<Rightarrow> admin_ttl_status" where
  "admin_message_ttl_status created_time ttl now =
     (case created_time of
        Some ct \<Rightarrow> if sat_add u64_max ct ttl \<le> now \<or> ct > now then Expired ct else TtlOk
      | None \<Rightarrow> MissingTime)"

section \<open>Properties\<close>

definition pair_bits :: "nat list" where
  \<comment> \<open>the value bit of each capability that has a \<open>self_change\<close> bit, which is the next one\<close>
  "pair_bits = [0, 4, 6, 8, 10, 12, 14]"

lemma change_check_nil:
  "change_check name c n = [] \<longleftrightarrow> snd c = snd n \<and> (fst c = fst n \<or> snd c)"
  by (auto simp: change_check_def)

lemma mode_eq:
  "(if p then ExplicitDeny else ExplicitAllow) = (if q then ExplicitDeny else ExplicitAllow) \<longleftrightarrow> p = q"
  by simp

lemma acl_change_ok_bits:
  "acl_change_ok a b = None \<longleftrightarrow> (\<forall>k \<in> set pair_bits.
     bit (acl a) (Suc k) = bit (acl b) (Suc k) \<and> (bit (acl a) k = bit (acl b) k \<or> bit (acl a) (Suc k)))"
  by (simp add: acl_change_ok_def Let_def change_check_nil acl_get_bits pair_bits_def mode_eq)
    (intro impI, elim conjE, simp)

text \<open>The rule for changing one's own ACLs, on the bits: a change is accepted exactly when no
  \<open>self_change\<close> bit differs and every capability value that differs had its \<open>self_change\<close> bit
  set. The bits outside the seven pairs (blocked, local, the three self-management flags and the
  unused ones) are not looked at.\<close>
theorem acl_change_rule:
  "acl_change_ok a b = None \<longleftrightarrow> (\<forall>k \<in> set pair_bits.
     bit (acl a) (Suc k) = bit (acl b) (Suc k) \<and> (bit (acl a) k = bit (acl b) k \<or> bit (acl a) (Suc k)))"
  by (rule acl_change_ok_bits)

theorem acl_change_rule_witness:
  "acl_change_ok (from_u64 32) (from_u64 48) = None \<and> acl_change_ok (from_u64 0) (from_u64 16) \<noteq> None"
  by (simp add: acl_change_rule pair_bits_def bit_numeral_simps)

text \<open>So an account can lift its own block and give itself the local and the self-management flags:
  turning on any of these bits, and turning off the blocked bit, is always accepted.\<close>
lemma acl_change_unguarded:
  "acl_change_ok (from_u64 w) (from_u64 (put_bit (put_bit (put_bit (put_bit (put_bit w 2 v) 3 v3) 16 v16) 17 v17) 18 v18)) = None"
  by (simp add: acl_change_ok_bits pair_bits_def bit_put_bit)

text \<open>An administration message is accepted only within its window: from its creation time on,
  for fewer than \<open>ttl\<close> seconds (also when the sum overflows a \<open>u64\<close>), never before it was
  created and never without a creation time.\<close>
theorem admin_ttl_window:
  "admin_message_ttl_status created ttl now = TtlOk \<longleftrightarrow>
     (\<exists>ct. created = Some ct \<and> ct \<le> now \<and> now < ct + ttl \<and> now < u64_max)"
  by (auto simp: admin_message_ttl_status_def sat_add_def split: option.splits)

text \<open>Before authentication a DID with an account is let in exactly when that account is not
  blocked, and is known; an unknown DID is judged by the configured default.\<close>
theorem authentication_check_account:
  "authentication_check get_did_acls mode dflt d None s =
     (case accounts s d of
        Some a \<Rightarrow> Inr (grants (ar_acls a) NotBlocked, True)
      | None \<Rightarrow> Inr (grants dflt NotBlocked, False))"
  by (auto simp: authentication_check_def get_did_acls_def split: option.splits)

end
