(* ===== verification/HandlerBase.thy ===== *)
theory HandlerBase
  imports Authz MemInvariants
begin

text \<open>
  What the mediator's administration protocols share (\<open>messages/protocols/mediator\<close>): the
  configuration they read, the request they get, the reply they build, the operations they call on
  \<open>dyn MediatorStore\<close>, the permission checks of \<open>acls.rs\<close> and \<open>record_audit\<close> of \<open>mod.rs\<close>.

  A handler is a function of the store operations (a record, each operation fallible and
  changing an abstract store state), so an error of any backend is a branch of the model. The
  operations of the in-memory store are collected in \<open>memory_store\<close>. The JSON decoder
  (\<open>serde_json\<close>) is not modelled: a handler gets the decoded request, \<open>None\<close> when decoding
  failed. Clock readings and the reply's random id are arguments.
\<close>

section \<open>Configuration, request, reply\<close>

record mediator_config =
  cf_mediator_did :: string
  cf_mediator_did_hash :: string
  cf_admin_did :: string
  cf_admin_messages_expiry :: nat
  cf_block_remote_admin_msgs :: bool
  cf_mediator_acl_mode :: access_list_mode_type
  cf_global_acl_default :: mediator_acl_set
  cf_access_list_limit :: nat
  cf_queued_send_messages_hard :: int
  cf_queued_receive_messages_hard :: int

record request_message =
  rq_id :: string
  rq_created_time :: "nat option"
  rq_sign_from :: "string option"
  rq_encrypted_from_kid :: "string option"

record request_env =
  en_now :: nat \<comment> \<open>clock at the age check\<close>
  en_audit :: "nat \<Rightarrow> nat" \<comment> \<open>clock at the n-th audit record\<close>
  en_reply :: nat \<comment> \<open>clock when the reply is built\<close>
  en_uuid :: string \<comment> \<open>\<open>Uuid::new_v4\<close>\<close>

datatype reply_body =
    BodyAcls acl_get_response
  | BodyAclSet mediator_acl_set
  | BodyAccessList access_list_list_response
  | BodyAccessAdded access_list_add_response
  | BodyHashes "string list"
  | BodyCount nat
  | BodyNull
  | BodyBool bool
  | BodyAccount "account option"
  | BodyAccounts mediator_account_list
  | BodyLimits "int option" "int option"
  | BodyAdmins mediator_admin_list
  | BodyAudit mediator_audit_log_list
  | BodyConfig mediator_config

record reply =
  rp_id :: string
  rp_type :: string
  rp_thid :: string
  rp_to :: string
  rp_from :: string
  rp_body :: reply_body
  rp_created_time :: nat
  rp_expires_time :: nat
  rp_store_message :: bool
  rp_force_live_delivery :: bool
  rp_forward_message :: bool

definition generate_response_message ::
  "string \<Rightarrow> request_env \<Rightarrow> mediator_config \<Rightarrow> request_message \<Rightarrow> session \<Rightarrow> reply_body \<Rightarrow> reply" where
  "generate_response_message typ env cfg msg session value =
     \<lparr>rp_id = en_uuid env, rp_type = typ, rp_thid = rq_id msg, rp_to = ss_did session,
      rp_from = cf_mediator_did cfg, rp_body = value, rp_created_time = en_reply env,
      rp_expires_time = wrap_u64 (en_reply env + 300), rp_store_message = True,
      rp_force_live_delivery = False, rp_forward_message = False\<rparr>"

section \<open>Store operations\<close>

record 's mediator_store =
  so_get_did_acls :: "string list \<Rightarrow> access_list_mode_type \<Rightarrow> 's \<Rightarrow> (store_error + acl_get_response) \<times> 's"
  so_get_did_acl :: "string \<Rightarrow> 's \<Rightarrow> (store_error + mediator_acl_set option) \<times> 's"
  so_set_did_acl :: "string \<Rightarrow> mediator_acl_set \<Rightarrow> 's \<Rightarrow> (store_error + mediator_acl_set) \<times> 's"
  so_access_list_list :: "string \<Rightarrow> nat \<Rightarrow> 's \<Rightarrow> (store_error + access_list_list_response) \<times> 's"
  so_access_list_add :: "nat \<Rightarrow> string \<Rightarrow> string list \<Rightarrow> 's \<Rightarrow> (store_error + access_list_add_response) \<times> 's"
  so_access_list_remove :: "string \<Rightarrow> string list \<Rightarrow> 's \<Rightarrow> (store_error + nat) \<times> 's"
  so_access_list_clear :: "string \<Rightarrow> 's \<Rightarrow> (store_error + unit) \<times> 's"
  so_access_list_get :: "string \<Rightarrow> string list \<Rightarrow> 's \<Rightarrow> (store_error + string list) \<times> 's"
  so_account_get :: "string \<Rightarrow> 's \<Rightarrow> (store_error + account option) \<times> 's"
  so_account_list :: "nat \<Rightarrow> nat \<Rightarrow> 's \<Rightarrow> (store_error + mediator_account_list) \<times> 's"
  so_account_add :: "string \<Rightarrow> mediator_acl_set \<Rightarrow> nat option \<Rightarrow> 's \<Rightarrow> (store_error + account) \<times> 's"
  so_account_remove :: "session \<Rightarrow> string \<Rightarrow> 's \<Rightarrow> (store_error + bool) \<times> 's"
  so_account_set_role :: "string \<Rightarrow> account_type \<Rightarrow> 's \<Rightarrow> (store_error + unit) \<times> 's"
  so_account_change_queue_limits :: "string \<Rightarrow> int option \<Rightarrow> int option \<Rightarrow> 's \<Rightarrow> (store_error + unit) \<times> 's"
  so_check_admin_account :: "string \<Rightarrow> 's \<Rightarrow> (store_error + bool) \<times> 's"
  so_setup_admin_account :: "string \<Rightarrow> account_type \<Rightarrow> mediator_acl_set \<Rightarrow> 's \<Rightarrow> (store_error + unit) \<times> 's"
  so_add_admin_accounts :: "string list \<Rightarrow> mediator_acl_set \<Rightarrow> 's \<Rightarrow> (store_error + nat) \<times> 's"
  so_strip_admin_accounts :: "string list \<Rightarrow> 's \<Rightarrow> (store_error + nat) \<times> 's"
  so_list_admin_accounts :: "nat \<Rightarrow> nat \<Rightarrow> 's \<Rightarrow> (store_error + mediator_admin_list) \<times> 's"
  so_audit_log_record :: "audit_log_entry \<Rightarrow> 's \<Rightarrow> (store_error + unit) \<times> 's"
  so_audit_log_list :: "nat \<Rightarrow> nat \<Rightarrow> 's \<Rightarrow> (store_error + mediator_audit_log_list) \<times> 's"

definition memory_store :: "memory_state mediator_store" where
  "memory_store = \<lparr>
     so_get_did_acls = (\<lambda>ds m s. (get_did_acls ds m s, s)),
     so_get_did_acl = (\<lambda>d s. (Inr (get_did_acl d s), s)),
     so_set_did_acl = (\<lambda>d a s. map_prod Inr id (set_did_acl d a s)),
     so_access_list_list = (\<lambda>d c s. (Inr (access_list_list d c s), s)),
     so_access_list_add = (\<lambda>l d hs s. map_prod Inr id (access_list_add l d hs s)),
     so_access_list_remove = (\<lambda>d hs s. map_prod Inr id (access_list_remove d hs s)),
     so_access_list_clear = (\<lambda>d s. (Inr (), access_list_clear d s)),
     so_access_list_get = (\<lambda>d hs s. (Inr (access_list_get d hs s), s)),
     so_account_get = (\<lambda>d s. (Inr (account_get d s), s)),
     so_account_list = (\<lambda>c l s. (Inr (account_list c l s), s)),
     so_account_add = (\<lambda>d a l s. map_prod Inr id (account_add d a l s)),
     so_account_remove = (\<lambda>_ d s. account_remove d s),
     so_account_set_role = (\<lambda>d t s. (Inr (), account_set_role d t s)),
     so_account_change_queue_limits = (\<lambda>d l1 l2 s. (Inr (), account_change_queue_limits d l1 l2 s)),
     so_check_admin_account = (\<lambda>d s. (Inr (check_admin_account d s), s)),
     so_setup_admin_account = (\<lambda>d t a s. (Inr (), setup_admin_account d t a s)),
     so_add_admin_accounts = (\<lambda>ds a s. map_prod Inr id (add_admin_accounts ds a s)),
     so_strip_admin_accounts = (\<lambda>ds s. map_prod Inr id (strip_admin_accounts ds s)),
     so_list_admin_accounts = (\<lambda>c l s. (Inr (list_admin_accounts c l s), s)),
     so_audit_log_record = (\<lambda>e s. (Inr (), audit_log_record e s)),
     so_audit_log_list = (\<lambda>c l s. (Inr (audit_log_list c l s), s))\<rparr>"

section \<open>Shared steps\<close>

definition storage_error :: "session \<Rightarrow> request_message \<Rightarrow> store_error \<Rightarrow> mediator_error" where
  "storage_error session msg e =
     problem_with_log 14 (ss_session_id session) (Some (rq_id msg)) SorterError ScopeProtocol
       ''me.res.storage.error'' ''Database transaction error: {1}'' [show_store_error e] 503
       (''Database transaction error: '' @ show_store_error e)"

definition permission_error :: "session \<Rightarrow> request_message \<Rightarrow> string \<Rightarrow> mediator_error" where
  "permission_error session msg comment =
     problem 45 (ss_session_id session) (Some (rq_id msg)) SorterError ScopeProtocol
       ''authorization.permission'' comment [] 403"

definition parse_error :: "nat \<Rightarrow> string \<Rightarrow> session \<Rightarrow> request_message \<Rightarrow> mediator_error" where
  "parse_error code descriptor session msg =
     problem code (ss_session_id session) (Some (rq_id msg)) SorterWarning ScopeMessage
       descriptor (''Message body couldn'' @ [CHR 0x27] @ ''t be parsed correctly'') [] 400"

definition ttl_error :: "session \<Rightarrow> request_message \<Rightarrow> admin_ttl_status \<Rightarrow> mediator_error option" where
  "ttl_error session msg status =
     (case status of
        TtlOk \<Rightarrow> None
      | Expired created_time \<Rightarrow> Some (problem_with_log 31 (ss_session_id session) (Some (rq_id msg))
          SorterError ScopeProtocol ''message.expired''
          ''Message was created too long ago for admin requests: {1}'' [show_nat created_time] 400
          ''Message was created too long ago for admin requests'')
      | MissingTime \<Rightarrow> Some (problem 91 (ss_session_id session) (Some (rq_id msg))
          SorterError ScopeProtocol ''message.created_time.missing''
          ''Admin messages must include a created_time header'' [] 400))"

definition is_admin_session :: "session \<Rightarrow> bool" where
  \<comment> \<open>\<open>account_type == Admin || account_type == RootAdmin\<close>\<close>
  "is_admin_session session = (ss_account_type session = Admin \<or> ss_account_type session = RootAdmin)"

definition sender_kid :: "request_message \<Rightarrow> string option" where
  "sender_kid msg = (case rq_sign_from msg of Some k \<Rightarrow> Some k | None \<Rightarrow> rq_encrypted_from_kid msg)"

definition check_admin_signature :: "session \<Rightarrow> string option \<Rightarrow> bool" where
  "check_admin_signature session kid =
     (case kid of
        Some k \<Rightarrow> (case split_once (CHR ''#'') k of None \<Rightarrow> False | Some (did, _) \<Rightarrow> did = ss_did session)
      | None \<Rightarrow> False)"

definition check_permissions :: "session \<Rightarrow> string list \<Rightarrow> bool \<Rightarrow> string option \<Rightarrow> bool" where
  "check_permissions session dids check_admin_signing sign_by =
     (if check_admin_signing \<and> is_admin_session session \<and> \<not> check_admin_signature session sign_by
      then False
      else ss_account_type session = RootAdmin \<or> ss_account_type session = Admin \<or>
           length dids = 1 \<and> dids ! 0 = ss_did_hash session)"

definition record_audit ::
  "'s mediator_store \<Rightarrow> nat \<Rightarrow> session \<Rightarrow> string \<Rightarrow> audit_action \<Rightarrow> string \<Rightarrow> 's \<Rightarrow> 's" where
  \<comment> \<open>best effort: a failure to record is only logged\<close>
  "record_audit ops now session target action detail s =
     snd (so_audit_log_record ops
       \<lparr>al_timestamp = now, al_actor_did_hash = ss_did_hash session, al_target_did_hash = target,
        al_action = action, al_detail = detail\<rparr> s)"

definition on_store ::
  "session \<Rightarrow> request_message \<Rightarrow> (store_error + 'a) \<times> 's \<Rightarrow> ('a \<Rightarrow> 's \<Rightarrow> (mediator_error + reply) \<times> 's) \<Rightarrow>
   (mediator_error + reply) \<times> 's" where
  \<comment> \<open>\<open>match store_call { Ok(response) => ..., Err(e) => Err(problem 14) }\<close>\<close>
  "on_store session msg r k =
     (case r of (Inr a, s) \<Rightarrow> k a s | (Inl e, s) \<Rightarrow> (Inl (storage_error session msg e), s))"

definition propagate ::
  "(store_error + 'a) \<times> 's \<Rightarrow> ('a \<Rightarrow> 's \<Rightarrow> (mediator_error + reply) \<times> 's) \<Rightarrow> (mediator_error + reply) \<times> 's" where
  \<comment> \<open>\<open>store_call.await?\<close>\<close>
  "propagate r k = (case r of (Inr a, s) \<Rightarrow> k a s | (Inl e, s) \<Rightarrow> (Inl (StoreError e), s))"

lemma memory_store_sel [simp]:
  "so_get_did_acls memory_store ds m s = (get_did_acls ds m s, s)"
  "so_get_did_acl memory_store d s = (Inr (get_did_acl d s), s)"
  "so_set_did_acl memory_store d a s = map_prod Inr id (set_did_acl d a s)"
  "so_access_list_list memory_store d c s = (Inr (access_list_list d c s), s)"
  "so_access_list_add memory_store l d hs s = map_prod Inr id (access_list_add l d hs s)"
  "so_access_list_remove memory_store d hs s = map_prod Inr id (access_list_remove d hs s)"
  "so_access_list_clear memory_store d s = (Inr (), access_list_clear d s)"
  "so_access_list_get memory_store d hs s = (Inr (access_list_get d hs s), s)"
  "so_account_get memory_store d s = (Inr (account_get d s), s)"
  "so_account_list memory_store c n s = (Inr (account_list c n s), s)"
  "so_account_add memory_store d a lim s = map_prod Inr id (account_add d a lim s)"
  "so_account_remove memory_store x d s = account_remove d s"
  "so_account_set_role memory_store d t s = (Inr (), account_set_role d t s)"
  "so_account_change_queue_limits memory_store d l1 l2 s = (Inr (), account_change_queue_limits d l1 l2 s)"
  "so_check_admin_account memory_store d s = (Inr (check_admin_account d s), s)"
  "so_setup_admin_account memory_store d t a s = (Inr (), setup_admin_account d t a s)"
  "so_add_admin_accounts memory_store ds a s = map_prod Inr id (add_admin_accounts ds a s)"
  "so_strip_admin_accounts memory_store ds s = map_prod Inr id (strip_admin_accounts ds s)"
  "so_list_admin_accounts memory_store c n s = (Inr (list_admin_accounts c n s), s)"
  "so_audit_log_record memory_store e s = (Inr (), audit_log_record e s)"
  "so_audit_log_list memory_store c n s = (Inr (audit_log_list c n s), s)"
  by (simp_all add: memory_store_def)

lemma on_store_simps [simp]:
  "on_store session msg (Inr a, s) k = k a s"
  "on_store session msg (Inl e, s) k = (Inl (storage_error session msg e), s)"
  "on_store session msg (map_prod Inr id p) k = k (fst p) (snd p)"
  by (simp_all add: on_store_def map_prod_def split_beta)

lemma on_store_read [simp]:
  "snd (on_store session msg (r, s) (\<lambda>a s. (Inr (f a), s))) = s"
  by (cases r) simp_all

lemma on_store_readD:
  "on_store session msg (r, s) (\<lambda>a s. (Inr (f a), s)) = (res, s') \<Longrightarrow> s' = s"
  by (cases r) simp_all

lemma propagate_simps [simp]:
  "propagate (Inr a, s) k = k a s" "propagate (Inl e, s) k = (Inl (StoreError e), s)"
  "propagate (map_prod Inr id p) k = k (fst p) (snd p)"
  by (simp_all add: propagate_def map_prod_def split_beta)

lemma record_audit_memory [simp]:
  "record_audit memory_store now session target action detail s =
     audit_log_record \<lparr>al_timestamp = now, al_actor_did_hash = ss_did_hash session,
       al_target_did_hash = target, al_action = action, al_detail = detail\<rparr> s"
  by (simp add: record_audit_def)

end
