(* ===== verification/AclsHandler.thy ===== *)
theory AclsHandler
  imports HandlerBase
begin

text \<open>
  The ACL management protocol (\<open>messages/protocols/mediator/acls.rs\<close>): one definition per
  request variant, and \<open>process\<close>, which checks the age of an administrator's message, decodes
  the request and dispatches.

  The properties: an error never changes the in-memory store, every accepted change was made by an
  administrator or by the account itself and is in the audit log, and what a non-administrator can
  change about itself.
\<close>

section \<open>Requests\<close>

datatype acl_request =
    GetACL "string list"
  | SetACL string "64 word"
  | AccessListList string "nat option"
  | AccessListGet string "string list"
  | AccessListAdd string "string list"
  | AccessListRemove string "string list"
  | AccessListClear string

definition acl_reply :: "request_env \<Rightarrow> mediator_config \<Rightarrow> request_message \<Rightarrow> session \<Rightarrow> reply_body \<Rightarrow> reply" where
  "acl_reply = generate_response_message ''https://affinidi.com/messaging/global-acl-management''"

definition allowed_for :: "mediator_config \<Rightarrow> request_message \<Rightarrow> session \<Rightarrow> string list \<Rightarrow> bool" where
  "allowed_for cfg msg session dids =
     check_permissions session dids (cf_block_remote_admin_msgs cfg) (sender_kid msg)"

definition get_acl_request ::
  "'s mediator_store \<Rightarrow> request_env \<Rightarrow> mediator_config \<Rightarrow> request_message \<Rightarrow> session \<Rightarrow> string list \<Rightarrow>
   's \<Rightarrow> (mediator_error + reply) \<times> 's" where
  "get_acl_request ops env cfg msg session dids s =
     (if \<not> allowed_for cfg msg session dids
      then (Inl (permission_error session msg ''Not authorized to view ACLs for this DID''), s)
      else on_store session msg (so_get_did_acls ops dids (cf_mediator_acl_mode cfg) s)
             (\<lambda>r s. (Inr (acl_reply env cfg msg session (BodyAcls r)), s)))"

definition placeholders :: "string list \<Rightarrow> string" where
  \<comment> \<open>\<open>" ({1}) ({2}) ..."\<close>\<close>
  "placeholders errors =
     concat (map (\<lambda>i. '' ({'' @ show_nat i @ ''})'') [1 ..< Suc (length errors)])"

definition self_change_error :: "session \<Rightarrow> request_message \<Rightarrow> string list \<Rightarrow> mediator_error" where
  "self_change_error session msg errors =
     problem_with_log 80 (ss_session_id session) (Some (rq_id msg)) SorterWarning ScopeMessage
       ''protocol.acls.change.denied''
       (''A non-admin account tried to change ACL Flags but self-change is not allowed:'' @ placeholders errors)
       errors 403
       ''A non-admin account tried to change ACL Flags but self-change is not allowed''"

definition store_acl ::
  "'s mediator_store \<Rightarrow> request_env \<Rightarrow> mediator_config \<Rightarrow> request_message \<Rightarrow> session \<Rightarrow> string \<Rightarrow>
   64 word \<Rightarrow> 's \<Rightarrow> (mediator_error + reply) \<times> 's" where
  "store_acl ops env cfg msg session did_hash acls s =
     on_store session msg (so_set_did_acl ops did_hash (from_u64 acls) s)
       (\<lambda>response s. (Inr (acl_reply env cfg msg session (BodyAclSet response)),
          record_audit ops (en_audit env 0) session did_hash AuditSetAcl
            (''acls=0x'' @ pad_left 16 (CHR ''0'') (show_radix 16 (unat acls))) s))"

definition set_acl_request ::
  "'s mediator_store \<Rightarrow> request_env \<Rightarrow> mediator_config \<Rightarrow> request_message \<Rightarrow> session \<Rightarrow> string \<Rightarrow>
   64 word \<Rightarrow> 's \<Rightarrow> (mediator_error + reply) \<times> 's" where
  "set_acl_request ops env cfg msg session did_hash acls s =
     (if \<not> allowed_for cfg msg session [did_hash]
      then (Inl (permission_error session msg ''Not authorized to modify ACLs for this DID''), s)
      else if \<not> is_admin_session session then
        on_store session msg (so_get_did_acl ops did_hash s) (\<lambda>found s.
          let current = (case found of Some a \<Rightarrow> a | None \<Rightarrow> cf_global_acl_default cfg) in
          case acl_change_ok current (from_u64 acls) of
            Some errors \<Rightarrow> (Inl (self_change_error session msg errors), s)
          | None \<Rightarrow> store_acl ops env cfg msg session did_hash acls s)
      else store_acl ops env cfg msg session did_hash acls s)"

definition access_list_list_request ::
  "'s mediator_store \<Rightarrow> request_env \<Rightarrow> mediator_config \<Rightarrow> request_message \<Rightarrow> session \<Rightarrow> string \<Rightarrow>
   nat option \<Rightarrow> 's \<Rightarrow> (mediator_error + reply) \<times> 's" where
  "access_list_list_request ops env cfg msg session did_hash cursor s =
     (if \<not> allowed_for cfg msg session [did_hash]
      then (Inl (permission_error session msg ''Not authorized to view access list for this DID''), s)
      else on_store session msg (so_access_list_list ops did_hash (or_default 0 cursor) s)
             (\<lambda>r s. (Inr (acl_reply env cfg msg session (BodyAccessList r)), s)))"

definition self_manage_denied :: "session \<Rightarrow> bool" where
  "self_manage_denied session =
     (\<not> get_self_manage_list (ss_acls session) \<and> ss_account_type session = Standard)"

definition batch_error :: "session \<Rightarrow> request_message \<Rightarrow> mediator_error" where
  "batch_error session msg =
     problem 93 (ss_session_id session) (Some (rq_id msg)) SorterError ScopeProtocol
       ''protocol.mediator.access_list.limit'' ''Access list batch must contain 1-100 entries'' [] 400"

definition access_list_add_request ::
  "'s mediator_store \<Rightarrow> request_env \<Rightarrow> mediator_config \<Rightarrow> request_message \<Rightarrow> session \<Rightarrow> string \<Rightarrow>
   string list \<Rightarrow> 's \<Rightarrow> (mediator_error + reply) \<times> 's" where
  "access_list_add_request ops env cfg msg session did_hash hashes s =
     (if \<not> allowed_for cfg msg session [did_hash]
      then (Inl (permission_error session msg ''Not authorized to modify access list for this DID''), s)
      else if self_manage_denied session
      then (Inl (permission_error session msg ''Self-manage access list is not enabled for this account''), s)
      else if hashes = [] \<or> length hashes > 100 then (Inl (batch_error session msg), s)
      else on_store session msg (so_access_list_add ops (cf_access_list_limit cfg) did_hash hashes s)
             (\<lambda>r s. (Inr (acl_reply env cfg msg session (BodyAccessAdded r)),
                record_audit ops (en_audit env 0) session did_hash AuditAccessListAdd
                  (''added '' @ show_nat (length hashes) @ '' hash(es)'') s)))"

definition access_list_remove_request ::
  "'s mediator_store \<Rightarrow> request_env \<Rightarrow> mediator_config \<Rightarrow> request_message \<Rightarrow> session \<Rightarrow> string \<Rightarrow>
   string list \<Rightarrow> 's \<Rightarrow> (mediator_error + reply) \<times> 's" where
  "access_list_remove_request ops env cfg msg session did_hash hashes s =
     (if \<not> allowed_for cfg msg session [did_hash]
      then (Inl (permission_error session msg ''Not authorized to modify access list for this DID''), s)
      else if self_manage_denied session
      then (Inl (permission_error session msg ''Self-manage access list is not enabled for this account''), s)
      else if hashes = [] \<or> length hashes > 100 then (Inl (batch_error session msg), s)
      else on_store session msg (so_access_list_remove ops did_hash hashes s)
             (\<lambda>r s. (Inr (acl_reply env cfg msg session (BodyCount r)),
                record_audit ops (en_audit env 0) session did_hash AuditAccessListRemove
                  (''removed '' @ show_nat r @ '' of '' @ show_nat (length hashes) @ '' requested'') s)))"

definition access_list_clear_request ::
  "'s mediator_store \<Rightarrow> request_env \<Rightarrow> mediator_config \<Rightarrow> request_message \<Rightarrow> session \<Rightarrow> string \<Rightarrow>
   's \<Rightarrow> (mediator_error + reply) \<times> 's" where
  "access_list_clear_request ops env cfg msg session did_hash s =
     (if \<not> allowed_for cfg msg session [did_hash]
      then (Inl (permission_error session msg ''Not authorized to clear access list for this DID''), s)
      else if self_manage_denied session
      then (Inl (permission_error session msg ''Self-manage access list is not enabled for this account''), s)
      else on_store session msg (so_access_list_clear ops did_hash s)
             (\<lambda>_ s. (Inr (acl_reply env cfg msg session BodyNull),
                record_audit ops (en_audit env 0) session did_hash AuditAccessListClear
                  ''cleared access list'' s)))"

definition access_list_get_request ::
  "'s mediator_store \<Rightarrow> request_env \<Rightarrow> mediator_config \<Rightarrow> request_message \<Rightarrow> session \<Rightarrow> string \<Rightarrow>
   string list \<Rightarrow> 's \<Rightarrow> (mediator_error + reply) \<times> 's" where
  "access_list_get_request ops env cfg msg session did_hash hashes s =
     (if \<not> allowed_for cfg msg session [did_hash]
      then (Inl (permission_error session msg ''Not authorized to view access list for this DID''), s)
      else on_store session msg (so_access_list_get ops did_hash hashes s)
             (\<lambda>r s. (Inr (acl_reply env cfg msg session (BodyHashes r)), s)))"

fun acls_dispatch ::
  "'s mediator_store \<Rightarrow> request_env \<Rightarrow> mediator_config \<Rightarrow> request_message \<Rightarrow> session \<Rightarrow> acl_request \<Rightarrow>
   's \<Rightarrow> (mediator_error + reply) \<times> 's" where
  "acls_dispatch ops env cfg msg session (GetACL dids) s = get_acl_request ops env cfg msg session dids s"
| "acls_dispatch ops env cfg msg session (SetACL d acls) s = set_acl_request ops env cfg msg session d acls s"
| "acls_dispatch ops env cfg msg session (AccessListList d c) s = access_list_list_request ops env cfg msg session d c s"
| "acls_dispatch ops env cfg msg session (AccessListGet d hs) s = access_list_get_request ops env cfg msg session d hs s"
| "acls_dispatch ops env cfg msg session (AccessListAdd d hs) s = access_list_add_request ops env cfg msg session d hs s"
| "acls_dispatch ops env cfg msg session (AccessListRemove d hs) s = access_list_remove_request ops env cfg msg session d hs s"
| "acls_dispatch ops env cfg msg session (AccessListClear d) s = access_list_clear_request ops env cfg msg session d s"

definition acls_process ::
  "'s mediator_store \<Rightarrow> request_env \<Rightarrow> mediator_config \<Rightarrow> request_message \<Rightarrow> session \<Rightarrow>
   acl_request option \<Rightarrow> 's \<Rightarrow> (mediator_error + reply) \<times> 's" where
  "acls_process ops env cfg msg session request s =
     (case (if is_admin_session session
            then ttl_error session msg
                   (admin_message_ttl_status (rq_created_time msg) (cf_admin_messages_expiry cfg) (en_now env))
            else None) of
        Some e \<Rightarrow> (Inl e, s)
      | None \<Rightarrow>
          (case request of
             None \<Rightarrow> (Inl (parse_error 82 ''protocol.mediator.acls.parse'' session msg), s)
           | Some r \<Rightarrow> acls_dispatch ops env cfg msg session r s))"

lemmas acls_requests = get_acl_request_def set_acl_request_def store_acl_def access_list_list_request_def
  access_list_add_request_def access_list_remove_request_def access_list_clear_request_def
  access_list_get_request_def

declare acls_requests [handler_defs] acls_process_def [handler_defs]

section \<open>Properties\<close>

fun acl_target :: "acl_request \<Rightarrow> string list" where
  "acl_target (GetACL dids) = dids"
| "acl_target (SetACL d acls) = [d]"
| "acl_target (AccessListList d c) = [d]"
| "acl_target (AccessListGet d hs) = [d]"
| "acl_target (AccessListAdd d hs) = [d]"
| "acl_target (AccessListRemove d hs) = [d]"
| "acl_target (AccessListClear d) = [d]"

lemma allowed_for_iff:
  "allowed_for cfg msg session dids \<longleftrightarrow>
     (is_admin_session session \<and> (cf_block_remote_admin_msgs cfg \<longrightarrow> check_admin_signature session (sender_kid msg)))
     \<or> (\<not> is_admin_session session \<and> dids = [ss_did_hash session])"
  by (cases dids) (auto simp: allowed_for_def check_permissions_def is_admin_session_def)

lemma acls_dispatch_denied:
  "\<not> allowed_for cfg msg session (acl_target r) \<Longrightarrow>
   \<exists>e. acls_dispatch ops env cfg msg session r s = (Inl e, s) \<and> error_code e = 45"
  by (cases r) (simp_all add: acls_requests permission_error_def problem_def)

text \<open>C37. Nobody reads or changes another account's ACLs or access list through this protocol unless
  they are an administrator with a fresh message (and, where remote administration is blocked, a
  message signed or sent by the administrator's own DID). For any backend: a request that succeeds
  satisfies this, and one that fails the check leaves the store untouched.\<close>
theorem acls_only_for_owner_or_admin:
  assumes "acls_process ops env cfg msg session (Some r) s = (res, s')"
  shows "(is_ok res \<longrightarrow>
      (is_admin_session session \<and>
         (\<exists>ct. rq_created_time msg = Some ct \<and> ct \<le> en_now env \<and> en_now env < ct + cf_admin_messages_expiry cfg) \<and>
         (cf_block_remote_admin_msgs cfg \<longrightarrow> check_admin_signature session (sender_kid msg))) \<or>
      (\<not> is_admin_session session \<and> acl_target r = [ss_did_hash session])) \<and>
    (\<not> allowed_for cfg msg session (acl_target r) \<longrightarrow> \<not> is_ok res \<and> s' = s)"
proof -
  let ?ttl = "admin_message_ttl_status (rq_created_time msg) (cf_admin_messages_expiry cfg) (en_now env)"
  have d: "\<not> allowed_for cfg msg session (acl_target r) \<longrightarrow> \<not> is_ok res \<and> s' = s"
    using assms acls_dispatch_denied [of cfg msg session r ops env s]
    by (auto simp: acls_process_def split: option.splits)
  have "?ttl = TtlOk" if "is_ok res" "is_admin_session session"
    using assms that by (auto simp: acls_process_def ttl_error_def split: admin_ttl_status.splits)
  then have "\<exists>ct. rq_created_time msg = Some ct \<and> ct \<le> en_now env \<and> en_now env < ct + cf_admin_messages_expiry cfg"
    if "is_ok res" "is_admin_session session"
    using that by (auto simp: admin_message_ttl_status_def sat_add_def split: option.splits if_splits)
  with d allowed_for_iff [of cfg msg session "acl_target r"] show ?thesis by blast
qed

theorem acls_only_for_owner_or_admin_witness:
  "\<exists>res. acls_process memory_store \<lparr>en_now = 5, en_audit = (\<lambda>_. 5), en_reply = 5, en_uuid = []\<rparr>
       \<lparr>cf_mediator_did = [], cf_mediator_did_hash = [], cf_admin_did = [], cf_admin_messages_expiry = 3,
        cf_block_remote_admin_msgs = True, cf_mediator_acl_mode = ExplicitDeny,
        cf_global_acl_default = default_acl_set, cf_access_list_limit = 10,
        cf_queued_send_messages_hard = 10, cf_queued_receive_messages_hard = 10\<rparr>
       \<lparr>rq_id = ''1'', rq_created_time = None, rq_sign_from = None, rq_encrypted_from_kid = None\<rparr>
       (default_session\<lparr>ss_did_hash := ''eve''\<rparr>) (Some (AccessListClear ''bob'')) empty_state = (res, empty_state) \<and>
     \<not> is_ok res"
proof -
  let ?env = "\<lparr>en_now = 5, en_audit = (\<lambda>_. 5), en_reply = 5, en_uuid = []\<rparr> :: request_env"
  let ?cfg = "\<lparr>cf_mediator_did = [], cf_mediator_did_hash = [], cf_admin_did = [], cf_admin_messages_expiry = 3,
        cf_block_remote_admin_msgs = True, cf_mediator_acl_mode = ExplicitDeny,
        cf_global_acl_default = default_acl_set, cf_access_list_limit = 10,
        cf_queued_send_messages_hard = 10, cf_queued_receive_messages_hard = 10\<rparr> :: mediator_config"
  let ?msg = "\<lparr>rq_id = ''1'', rq_created_time = None, rq_sign_from = None, rq_encrypted_from_kid = None\<rparr> :: request_message"
  let ?se = "default_session\<lparr>ss_did_hash := ''eve''\<rparr>"
  obtain res s' where p: "acls_process memory_store ?env ?cfg ?msg ?se (Some (AccessListClear ''bob'')) empty_state = (res, s')"
    by fastforce
  have "\<not> allowed_for ?cfg ?msg ?se (acl_target (AccessListClear ''bob''))"
    by (simp add: allowed_for_iff is_admin_session_def default_session_def)
  with acls_only_for_owner_or_admin [OF p] p show ?thesis by blast
qed

fun acl_mutates :: "acl_request \<Rightarrow> audit_action option" where
  "acl_mutates (SetACL d acls) = Some AuditSetAcl"
| "acl_mutates (AccessListAdd d hs) = Some AuditAccessListAdd"
| "acl_mutates (AccessListRemove d hs) = Some AuditAccessListRemove"
| "acl_mutates (AccessListClear d) = Some AuditAccessListClear"
| "acl_mutates _ = None"

definition audited :: "session \<Rightarrow> string \<Rightarrow> audit_action \<Rightarrow> memory_state \<Rightarrow> memory_state \<Rightarrow> bool" where
  \<comment> \<open>exactly one entry was recorded, by this session, about this target\<close>
  "audited session target action s s' = (\<exists>e. al_actor_did_hash e = ss_did_hash session \<and>
     al_target_did_hash e = target \<and> al_action e = action \<and>
     audit_log s' = take audit_log_max_entries (e # audit_log s))"

lemma audited_record:
  "audit_log u = audit_log s \<Longrightarrow> audited session target action s
     (audit_log_record \<lparr>al_timestamp = n, al_actor_did_hash = ss_did_hash session,
        al_target_did_hash = target, al_action = action, al_detail = d\<rparr> u)"
  unfolding audited_def
  by (rule exI [of _ "\<lparr>al_timestamp = n, al_actor_did_hash = ss_did_hash session,
        al_target_did_hash = target, al_action = action, al_detail = d\<rparr>"])
    (simp add: audit_log_after)

lemma acl_ops_audit [simp]:
  "audit_log (snd (set_did_acl d a s)) = audit_log s"
  "audit_log (snd (access_list_add l d hs s)) = audit_log s"
  "audit_log (snd (access_list_remove d hs s)) = audit_log s"
  "audit_log (access_list_clear d s) = audit_log s"
  by (simp_all add: set_did_acl_def access_list_add_def access_list_remove_def access_list_clear_def Let_def
      split: option.splits)

lemma dispatch_memory:
  assumes "acls_dispatch memory_store env cfg msg session r s = (res, s')"
  shows "(\<not> is_ok res \<longrightarrow> s' = s) \<and>
    (is_ok res \<longrightarrow> (case acl_mutates r of None \<Rightarrow> s' = s
       | Some a \<Rightarrow> audited session (hd (acl_target r)) a s s'))"
  using assms
  by (cases r) (auto simp: acls_requests Let_def intro!: audited_record dest: on_store_readD
      split: if_splits option.splits)

text \<open>On the in-memory store a refused or failed ACL request changes nothing, a read changes
  nothing, and a successful change leaves exactly one new audit entry naming who changed what.\<close>
theorem acls_changes_audited:
  assumes "acls_process memory_store env cfg msg session r s = (res, s')"
  shows "(\<not> is_ok res \<longrightarrow> s' = s) \<and>
    (is_ok res \<longrightarrow> (\<exists>q. r = Some q \<and> (case acl_mutates q of None \<Rightarrow> s' = s
       | Some a \<Rightarrow> audited session (hd (acl_target q)) a s s')))"
proof (cases r)
  case None
  with assms show ?thesis by (auto simp: acls_process_def split: option.splits)
next
  case (Some q)
  with assms dispatch_memory [of env cfg msg session q s res s'] show ?thesis
    by (auto simp: acls_process_def split: option.splits)
qed

definition sample_config :: mediator_config where
  "sample_config = \<lparr>cf_mediator_did = ''did:m'', cf_mediator_did_hash = ''m'', cf_admin_did = ''did:root'',
     cf_admin_messages_expiry = 3, cf_block_remote_admin_msgs = False, cf_mediator_acl_mode = ExplicitDeny,
     cf_global_acl_default = default_acl_set, cf_access_list_limit = 10,
     cf_queued_send_messages_hard = 10, cf_queued_receive_messages_hard = 10\<rparr>"

definition sample_env :: request_env where
  "sample_env = \<lparr>en_now = 5, en_audit = (\<lambda>_. 5), en_reply = 5, en_uuid = []\<rparr>"

definition sample_message :: request_message where
  "sample_message = \<lparr>rq_id = ''1'', rq_created_time = Some 4, rq_sign_from = None, rq_encrypted_from_kid = None\<rparr>"

theorem acls_changes_audited_witness:
  "\<exists>res s'. acls_process memory_store sample_env sample_config sample_message
       (default_session\<lparr>ss_did_hash := ''root'', ss_account_type := RootAdmin\<rparr>)
       (Some (AccessListClear ''bob'')) empty_state = (res, s') \<and>
     audited (default_session\<lparr>ss_did_hash := ''root'', ss_account_type := RootAdmin\<rparr>) ''bob'' AuditAccessListClear empty_state s'"
proof -
  let ?se = "default_session\<lparr>ss_did_hash := ''root'', ss_account_type := RootAdmin\<rparr>"
  obtain res s' where p: "acls_process memory_store sample_env sample_config sample_message ?se
      (Some (AccessListClear ''bob'')) empty_state = (res, s')"
    by fastforce
  moreover from this have "is_ok res"
    by (auto simp: acls_process_def is_admin_session_def ttl_error_def admin_message_ttl_status_def
        sample_env_def sample_config_def sample_message_def sat_add_def u64_max_def
        access_list_clear_request_def allowed_for_iff self_manage_denied_def)
  ultimately show ?thesis using acls_changes_audited [OF p] by auto
qed

text \<open>What a non-administrator can do to ACLs: if its \<open>SetACL\<close> is accepted it is about its own
  account, it changes only capability values whose \<open>self_change\<close> bit was set (or bits outside the
  capability pairs), and no other account is touched.\<close>
theorem self_set_acl_within_rule:
  assumes "acls_process memory_store env cfg msg session (Some (SetACL d w)) s = (res, s')"
    and "\<not> is_admin_session session" "is_ok res"
  shows "d = ss_did_hash session \<and> map_option ar_acls (accounts s' d) = Some (from_u64 w) \<and>
    (\<forall>k \<in> set pair_bits.
       let old = acl (or_default (cf_global_acl_default cfg) (get_did_acl d s)) in
       bit w (Suc k) = bit old (Suc k) \<and> (bit w k = bit old k \<or> bit old (Suc k))) \<and>
    (\<forall>e. e \<noteq> d \<longrightarrow> accounts s' e = accounts s e)"
proof -
  let ?old = "or_default (cf_global_acl_default cfg) (get_did_acl d s)"
  have a: "allowed_for cfg msg session [d]"
    using assms by (auto simp: acls_process_def set_acl_request_def split: if_splits)
  then have d: "d = ss_did_hash session" using assms(2) by (simp add: allowed_for_iff)
  have "(case acl_change_ok ?old (from_u64 w) of
      Some errors \<Rightarrow> (Inl (self_change_error session msg errors), s)
    | None \<Rightarrow> store_acl memory_store env cfg msg session d w s) = (res, s')"
    using assms(1,2) a by (simp add: acls_process_def set_acl_request_def or_default_def Let_def)
  then have ok: "acl_change_ok ?old (from_u64 w) = None"
    and st: "store_acl memory_store env cfg msg session d w s = (res, s')"
    using assms(3) by (auto split: option.splits)
  have "accounts s' = (accounts s)(d \<mapsto> (acct s d)\<lparr>ar_acls := from_u64 w\<rparr>)"
    using st by (auto simp: store_acl_def set_did_acl_def)
  then show ?thesis using d ok [unfolded acl_change_ok_bits] by (auto simp: Let_def)
qed

theorem self_set_acl_within_rule_witness:
  "\<exists>res s'. acls_process memory_store sample_env sample_config sample_message
       (default_session\<lparr>ss_did_hash := ''bob''\<rparr>) (Some (SetACL ''bob'' 0)) empty_state = (res, s') \<and>
     map_option ar_acls (accounts s' ''bob'') = Some (from_u64 0)"
proof -
  let ?se = "default_session\<lparr>ss_did_hash := ''bob''\<rparr>"
  obtain res s' where p: "acls_process memory_store sample_env sample_config sample_message ?se
      (Some (SetACL ''bob'' 0)) empty_state = (res, s')"
    by fastforce
  have na: "\<not> is_admin_session ?se" by (simp add: is_admin_session_def default_session_def)
  have "acl_change_ok default_acl_set (from_u64 0) = None" by (simp add: acl_change_ok_bits)
  then have "is_ok res"
    using p na
    by (auto simp: acls_process_def set_acl_request_def allowed_for_iff store_acl_def get_did_acl_def
        empty_state_def sample_config_def Let_def)
  from self_set_acl_within_rule [OF p na this] p show ?thesis by blast
qed

text \<open>The bits outside the pairs are not protected: any account, whatever its ACLs, can give
  itself the self-management of its access list with one \<open>SetACL\<close> on itself, although that flag is
  what the access-list requests check.\<close>
theorem self_manage_escalation:
  assumes "ss_account_type session = Standard" "ss_did_hash session = d" "get_did_acl d s = Some a"
  shows "\<exists>rp s'. acls_process memory_store env cfg msg session (Some (SetACL d (put_bit (acl a) 16 True))) s = (Inr rp, s') \<and>
    (\<exists>b. get_did_acl d s' = Some b \<and> get_self_manage_list b)"
proof -
  have na: "\<not> is_admin_session session" using assms(1) by (simp add: is_admin_session_def)
  have ok: "acl_change_ok a (from_u64 (put_bit (acl a) 16 True)) = None"
    by (simp add: acl_change_ok_bits pair_bits_def bit_put_bit)
  have b: "get_self_manage_list (from_u64 (put_bit (acl a) 16 True))"
    by (simp add: acl_get_bits bit_put_bit)
  have al: "allowed_for cfg msg session [d]" using na assms(2) by (simp add: allowed_for_iff)
  have "acls_process memory_store env cfg msg session (Some (SetACL d (put_bit (acl a) 16 True))) s =
      store_acl memory_store env cfg msg session d (put_bit (acl a) 16 True) s"
    using na al ok assms(3) by (simp add: acls_process_def set_acl_request_def)
  then show ?thesis using b by (simp add: store_acl_def set_did_acl_def get_did_acl_def)
qed

theorem self_manage_escalation_witness:
  "\<exists>rp s'. acls_process memory_store sample_env sample_config sample_message
       (default_session\<lparr>ss_did_hash := ''bob''\<rparr>)
       (Some (SetACL ''bob'' (put_bit (acl default_acl_set) 16 True)))
       (snd (set_did_acl ''bob'' default_acl_set empty_state)) = (Inr rp, s')"
proof -
  let ?se = "default_session\<lparr>ss_did_hash := ''bob''\<rparr>"
  have "ss_account_type ?se = Standard" "ss_did_hash ?se = ''bob''"
    "get_did_acl ''bob'' (snd (set_did_acl ''bob'' default_acl_set empty_state)) = Some default_acl_set"
    by (simp_all add: default_session_def set_did_acl_def get_did_acl_def)
  from self_manage_escalation [OF this, of sample_env sample_config sample_message] show ?thesis by blast
qed

lemma acls_reachable:
  assumes "reachable digest s"
  shows "reachable digest (snd (acls_process memory_store env cfg msg session r s))"
proof -
  have two: "store_step digest s u \<Longrightarrow> reachable digest (audit_log_record e u)" for u e
    using assms reachable_step step_audit by blast
  have "reachable digest (snd (acls_dispatch memory_store env cfg msg session q s))" for q
    by (cases q) (auto simp: acls_requests assms Let_def split: option.split
        intro!: two intro: step_set_acl step_list_add step_list_remove step_list_clear)
  then show ?thesis using assms by (auto simp: acls_process_def split: option.split)
qed

end
