(* ===== verification/AccountsHandler.thy ===== *)
theory AccountsHandler
  imports AclsHandler
begin

text \<open>
  The account management protocol (\<open>messages/protocols/mediator/accounts.rs\<close>) and the
  administration protocol (\<open>messages/protocols/mediator/administration.rs\<close>): one definition per
  request variant, and the two \<open>process\<close> functions.

  The properties: who may remove accounts, change roles and queue limits; that the mediator's and
  the root administrator's accounts cannot be removed or stripped; what the account requests do
  not protect; and that every request of the three protocols leads from reachable to reachable
  states.
\<close>

section \<open>Account requests\<close>

datatype account_request =
    AccountGet string
  | AccountList nat nat
  | AccountAdd string "64 word option"
  | AccountRemove string
  | AccountChangeType string account_type
  | AccountChangeQueueLimits string "int option" "int option"

definition account_reply :: "request_env \<Rightarrow> mediator_config \<Rightarrow> request_message \<Rightarrow> session \<Rightarrow> reply_body \<Rightarrow> reply" where
  "account_reply = generate_response_message ''https://didcomm.org/mediator/1.0/account-management''"

definition account_get_request ::
  "'s mediator_store \<Rightarrow> request_env \<Rightarrow> mediator_config \<Rightarrow> request_message \<Rightarrow> session \<Rightarrow> string \<Rightarrow>
   's \<Rightarrow> (mediator_error + reply) \<times> 's" where
  "account_get_request ops env cfg msg session did_hash s =
     (if \<not> allowed_for cfg msg session [did_hash]
      then (Inl (permission_error session msg ''Not authorized to view this account''), s)
      else on_store session msg (so_account_get ops did_hash s)
             (\<lambda>r s. (Inr (account_reply env cfg msg session (BodyAccount r)), s)))"

definition account_list_request ::
  "'s mediator_store \<Rightarrow> request_env \<Rightarrow> mediator_config \<Rightarrow> request_message \<Rightarrow> session \<Rightarrow> nat \<Rightarrow> nat \<Rightarrow>
   's \<Rightarrow> (mediator_error + reply) \<times> 's" where
  "account_list_request ops env cfg msg session cursor limit s =
     (if \<not> is_admin_session session
      then (Inl (permission_error session msg ''Admin access required to list accounts''), s)
      else on_store session msg (so_account_list ops cursor limit s)
             (\<lambda>r s. (Inr (account_reply env cfg msg session (BodyAccounts r)), s)))"

definition account_add_request ::
  "'s mediator_store \<Rightarrow> request_env \<Rightarrow> mediator_config \<Rightarrow> request_message \<Rightarrow> session \<Rightarrow> string \<Rightarrow>
   64 word option \<Rightarrow> 's \<Rightarrow> (mediator_error + reply) \<times> 's" where
  "account_add_request ops env cfg msg session did_hash acls s =
     (if cf_mediator_acl_mode cfg = ExplicitAllow \<and> \<not> is_admin_session session
      then (Inl (permission_error session msg ''Admin access required to add accounts in explicit-allow mode''), s)
      else
        let new_acls = (if is_admin_session session
                        then (case acls of Some w \<Rightarrow> from_u64 w | None \<Rightarrow> cf_global_acl_default cfg)
                        else cf_global_acl_default cfg)
        in on_store session msg (so_account_add ops did_hash new_acls None s)
             (\<lambda>r s. (Inr (account_reply env cfg msg session (BodyAccount (Some r))),
                record_audit ops (en_audit env 0) session did_hash AuditAccountAdd ''account created'' s)))"

definition protected_error :: "session \<Rightarrow> request_message \<Rightarrow> mediator_error" where
  "protected_error session msg =
     problem 18 (ss_session_id session) (Some (rq_id msg)) SorterWarning ScopeMessage
       ''database.account.remove.protected'' ''Tried to remove a protected account (Mediator, Root-Admin)'' [] 403"

definition account_remove_request ::
  "(string \<Rightarrow> string) \<Rightarrow> 's mediator_store \<Rightarrow> request_env \<Rightarrow> mediator_config \<Rightarrow> request_message \<Rightarrow> session \<Rightarrow>
   string \<Rightarrow> 's \<Rightarrow> (mediator_error + reply) \<times> 's" where
  "account_remove_request digest ops env cfg msg session did_hash s =
     (if \<not> allowed_for cfg msg session [did_hash]
      then (Inl (permission_error session msg ''Not authorized to remove this account''), s)
      else if cf_mediator_did_hash cfg = did_hash then (Inl (protected_error session msg), s)
      else if digest (cf_admin_did cfg) = did_hash then (Inl (protected_error session msg), s)
      else on_store session msg (so_account_remove ops session did_hash s)
             (\<lambda>r s. (Inr (account_reply env cfg msg session (BodyBool r)),
                record_audit ops (en_audit env 0) session did_hash AuditAccountRemove ''account removed'' s)))"

definition set_role_and_reply ::
  "'s mediator_store \<Rightarrow> request_env \<Rightarrow> mediator_config \<Rightarrow> request_message \<Rightarrow> session \<Rightarrow> string \<Rightarrow>
   account_type \<Rightarrow> string \<Rightarrow> 's \<Rightarrow> (mediator_error + reply) \<times> 's" where
  "set_role_and_reply ops env cfg msg session did_hash typ current_type s =
     on_store session msg (so_account_set_role ops did_hash typ s)
       (\<lambda>_ s. (Inr (account_reply env cfg msg session (BodyBool True)),
          record_audit ops (en_audit env 0) session did_hash AuditAccountChangeType
            (''type '' @ current_type @ '' -> '' @ show_account_type typ) s))"

definition account_change_type_request ::
  "'s mediator_store \<Rightarrow> request_env \<Rightarrow> mediator_config \<Rightarrow> request_message \<Rightarrow> session \<Rightarrow> string \<Rightarrow>
   account_type \<Rightarrow> 's \<Rightarrow> (mediator_error + reply) \<times> 's" where
  "account_change_type_request ops env cfg msg session did_hash typ s =
     propagate (so_check_admin_account ops (ss_did_hash session) s) (\<lambda>admin s.
       if \<not> admin
       then (Inl (permission_error session msg ''Admin access required to change account types''), s)
       else if typ = RootAdmin \<and> ss_account_type session \<noteq> RootAdmin
       then (Inl (permission_error session msg ''RootAdmin access required to assign RootAdmin type''), s)
       else propagate (so_account_get ops did_hash s) (\<lambda>current s.
         case current of
           None \<Rightarrow> set_role_and_reply ops env cfg msg session did_hash typ ''Unknown'' s
         | Some a \<Rightarrow>
             if ac_type a = RootAdmin \<and> ss_account_type session \<noteq> RootAdmin
             then (Inl (permission_error session msg ''RootAdmin access required to modify RootAdmin accounts''), s)
             else if ac_type a = typ
             then (Inr (account_reply env cfg msg session (BodyBool True)), s)
             else if is_admin (ac_type a) \<and> is_admin typ
             then set_role_and_reply ops env cfg msg session did_hash typ (show_account_type (ac_type a)) s
             else if is_admin (ac_type a) \<and> \<not> is_admin typ
             then propagate (so_strip_admin_accounts ops [did_hash] s) (\<lambda>_ s.
                    set_role_and_reply ops env cfg msg session did_hash typ (show_account_type (ac_type a)) s)
             else if \<not> is_admin (ac_type a) \<and> is_admin typ
             then propagate (so_setup_admin_account ops did_hash typ (from_u64 (ac_acls a)) s) (\<lambda>_ s.
                    (Inr (account_reply env cfg msg session (BodyBool True)),
                     record_audit ops (en_audit env 0) session did_hash AuditAccountChangeType
                       (''type -> '' @ show_account_type typ) s))
             else set_role_and_reply ops env cfg msg session did_hash typ (show_account_type (ac_type a)) s))"

definition capped_limit :: "bool \<Rightarrow> int \<Rightarrow> int option \<Rightarrow> int option" where
  \<comment> \<open>what a standard account may ask for: nothing without the flag, \<open>-1\<close>, \<open>-2\<close>, or up to the hard limit\<close>
  "capped_limit may_manage hard request =
     (if may_manage then
        (case request of
           None \<Rightarrow> None
         | Some limit \<Rightarrow> if limit = -1 \<or> limit = -2 then request
                        else if limit > hard then Some hard else request)
      else None)"

definition show_int :: "int \<Rightarrow> string" where
  "show_int i = (if i < 0 then ''-'' @ show_nat (nat (- i)) else show_nat (nat i))"

definition show_limit :: "int option \<Rightarrow> string" where
  \<comment> \<open>\<open>{:?}\<close> of an \<open>Option<i32>\<close>\<close>
  "show_limit l = (case l of None \<Rightarrow> ''None'' | Some i \<Rightarrow> ''Some('' @ show_int i @ '')'')"

definition account_change_queue_limits_request ::
  "'s mediator_store \<Rightarrow> request_env \<Rightarrow> mediator_config \<Rightarrow> request_message \<Rightarrow> session \<Rightarrow> string \<Rightarrow>
   int option \<Rightarrow> int option \<Rightarrow> 's \<Rightarrow> (mediator_error + reply) \<times> 's" where
  "account_change_queue_limits_request ops env cfg msg session did_hash send_limit receive_limit s =
     (if \<not> allowed_for cfg msg session [did_hash]
      then (Inl (permission_error session msg ''Not authorized to change queue limits for this account''), s)
      else
        let (send_limit, receive_limit) =
          (if ss_account_type session = Standard
           then (capped_limit (get_self_manage_send_queue_limit (ss_acls session)) (cf_queued_send_messages_hard cfg) send_limit,
                 capped_limit (get_self_manage_receive_queue_limit (ss_acls session)) (cf_queued_receive_messages_hard cfg) receive_limit)
           else (send_limit, receive_limit))
        in on_store session msg (so_account_change_queue_limits ops did_hash send_limit receive_limit s)
             (\<lambda>_ s. (Inr (account_reply env cfg msg session (BodyLimits send_limit receive_limit)),
                record_audit ops (en_audit env 0) session did_hash AuditAccountChangeQueueLimits
                  (''send='' @ show_limit send_limit @ '' receive='' @ show_limit receive_limit) s)))"

fun accounts_dispatch ::
  "(string \<Rightarrow> string) \<Rightarrow> 's mediator_store \<Rightarrow> request_env \<Rightarrow> mediator_config \<Rightarrow> request_message \<Rightarrow> session \<Rightarrow>
   account_request \<Rightarrow> 's \<Rightarrow> (mediator_error + reply) \<times> 's" where
  "accounts_dispatch digest ops env cfg msg se (AccountGet d) s = account_get_request ops env cfg msg se d s"
| "accounts_dispatch digest ops env cfg msg se (AccountList c l) s = account_list_request ops env cfg msg se c l s"
| "accounts_dispatch digest ops env cfg msg se (AccountAdd d a) s = account_add_request ops env cfg msg se d a s"
| "accounts_dispatch digest ops env cfg msg se (AccountRemove d) s = account_remove_request digest ops env cfg msg se d s"
| "accounts_dispatch digest ops env cfg msg se (AccountChangeType d t) s = account_change_type_request ops env cfg msg se d t s"
| "accounts_dispatch digest ops env cfg msg se (AccountChangeQueueLimits d l1 l2) s =
     account_change_queue_limits_request ops env cfg msg se d l1 l2 s"

definition accounts_process ::
  "(string \<Rightarrow> string) \<Rightarrow> 's mediator_store \<Rightarrow> request_env \<Rightarrow> mediator_config \<Rightarrow> request_message \<Rightarrow> session \<Rightarrow>
   account_request option \<Rightarrow> 's \<Rightarrow> (mediator_error + reply) \<times> 's" where
  "accounts_process digest ops env cfg msg session request s =
     (case (if is_admin_session session
            then ttl_error session msg
                   (admin_message_ttl_status (rq_created_time msg) (cf_admin_messages_expiry cfg) (en_now env))
            else None) of
        Some e \<Rightarrow> (Inl e, s)
      | None \<Rightarrow>
          (case request of
             None \<Rightarrow> (Inl (parse_error 81 ''protocol.mediator.accounts.parse'' session msg), s)
           | Some r \<Rightarrow> accounts_dispatch digest ops env cfg msg session r s))"

section \<open>Administration requests\<close>

datatype admin_request =
    AdminAdd "string list"
  | AdminStrip "string list"
  | AdminList nat nat
  | AuditLogList nat nat
  | Configuration

definition admin_reply :: "request_env \<Rightarrow> mediator_config \<Rightarrow> request_message \<Rightarrow> session \<Rightarrow> reply_body \<Rightarrow> reply" where
  "admin_reply = generate_response_message ''https://didcomm.org/mediator/1.0/admin-management''"

fun audit_each ::
  "'s mediator_store \<Rightarrow> request_env \<Rightarrow> session \<Rightarrow> audit_action \<Rightarrow> string \<Rightarrow> nat \<Rightarrow> string list \<Rightarrow> 's \<Rightarrow> 's" where
  \<comment> \<open>the loop over the targets; \<open>n\<close> numbers the clock readings\<close>
  "audit_each ops env session action detail n [] s = s"
| "audit_each ops env session action detail n (t # ts) s =
     audit_each ops env session action detail (Suc n) ts
       (record_audit ops (en_audit env n) session t action detail s)"

definition admin_add_request ::
  "'s mediator_store \<Rightarrow> request_env \<Rightarrow> mediator_config \<Rightarrow> request_message \<Rightarrow> session \<Rightarrow> string list \<Rightarrow>
   's \<Rightarrow> (mediator_error + reply) \<times> 's" where
  "admin_add_request ops env cfg msg session attr s =
     on_store session msg (so_add_admin_accounts ops attr (cf_global_acl_default cfg) s)
       (\<lambda>r s. (Inr (admin_reply env cfg msg session (BodyCount r)),
          audit_each ops env session AuditAdminAdd ''promoted to admin'' 0 attr s))"

definition admin_strip_request ::
  "(string \<Rightarrow> string) \<Rightarrow> 's mediator_store \<Rightarrow> request_env \<Rightarrow> mediator_config \<Rightarrow> request_message \<Rightarrow> session \<Rightarrow>
   string list \<Rightarrow> 's \<Rightarrow> (mediator_error + reply) \<times> 's" where
  "admin_strip_request digest ops env cfg msg session attr s =
     (let targets = filter (\<lambda>a. \<not> (a = digest (cf_admin_did cfg) \<or> a = cf_mediator_did_hash cfg)) attr in
      if targets = []
      then (Inl (problem 84 (ss_session_id session) (Some (rq_id msg)) SorterWarning ScopeMessage
             ''protocol.mediator.administration.strip.missing'' ''Missing admin DID to strip admin type from'' [] 400), s)
      else on_store session msg (so_strip_admin_accounts ops targets s)
             (\<lambda>r s. (Inr (admin_reply env cfg msg session (BodyCount r)),
                audit_each ops env session AuditAdminStrip ''admin status stripped'' 0 targets s)))"

fun admin_dispatch ::
  "(string \<Rightarrow> string) \<Rightarrow> 's mediator_store \<Rightarrow> request_env \<Rightarrow> mediator_config \<Rightarrow> request_message \<Rightarrow> session \<Rightarrow>
   admin_request \<Rightarrow> 's \<Rightarrow> (mediator_error + reply) \<times> 's" where
  "admin_dispatch digest ops env cfg msg se (AdminList c l) s =
     on_store se msg (so_list_admin_accounts ops c l s)
       (\<lambda>r s. (Inr (admin_reply env cfg msg se (BodyAdmins r)), s))"
| "admin_dispatch digest ops env cfg msg se (AuditLogList c l) s =
     on_store se msg (so_audit_log_list ops c l s)
       (\<lambda>r s. (Inr (admin_reply env cfg msg se (BodyAudit r)), s))"
| "admin_dispatch digest ops env cfg msg se (AdminAdd attr) s = admin_add_request ops env cfg msg se attr s"
| "admin_dispatch digest ops env cfg msg se (AdminStrip attr) s = admin_strip_request digest ops env cfg msg se attr s"
| "admin_dispatch digest ops env cfg msg se Configuration s =
     (Inr (admin_reply env cfg msg se (BodyConfig cfg)), s)"

definition admin_process ::
  "(string \<Rightarrow> string) \<Rightarrow> 's mediator_store \<Rightarrow> request_env \<Rightarrow> mediator_config \<Rightarrow> request_message \<Rightarrow> session \<Rightarrow>
   admin_request option \<Rightarrow> 's \<Rightarrow> (mediator_error + reply) \<times> 's" where
  "admin_process digest ops env cfg msg session request s =
     (case ttl_error session msg
             (admin_message_ttl_status (rq_created_time msg) (cf_admin_messages_expiry cfg) (en_now env)) of
        Some e \<Rightarrow> (Inl e, s)
      | None \<Rightarrow>
          propagate (so_check_admin_account ops (ss_did_hash session) s) (\<lambda>admin s.
            if \<not> admin \<or> (cf_block_remote_admin_msgs cfg \<and> \<not> check_admin_signature session (sender_kid msg))
            then (Inl (permission_error session msg ''Admin access required for administration operations''), s)
            else (case request of
                    None \<Rightarrow> (Inl (parse_error 83 ''protocol.mediator.administration.parse'' session msg), s)
                  | Some r \<Rightarrow> admin_dispatch digest ops env cfg msg session r s)))"

lemmas accounts_requests = account_get_request_def account_list_request_def account_add_request_def
  account_remove_request_def account_change_type_request_def account_change_queue_limits_request_def
  set_role_and_reply_def

lemmas admin_requests = admin_add_request_def admin_strip_request_def

declare accounts_requests [handler_defs] admin_requests [handler_defs]
  accounts_process_def [handler_defs] admin_process_def [handler_defs]

section \<open>Effects on the in-memory store\<close>

lemma audit_each_frame [simp]:
  "accounts (audit_each memory_store env se a dt n ts s) = accounts s"
  "admins (audit_each memory_store env se a dt n ts s) = admins s"
  by (induction ts arbitrary: n s) simp_all

lemma role_after_set_role:
  "accounts (account_set_role d t s) = (accounts s)(d \<mapsto> (acct s d)\<lparr>ar_role := t\<rparr>)"
  by (simp add: account_set_role_def)

lemma role_after_add:
  "accounts (snd (account_add d a l s)) d = Some r \<Longrightarrow> ar_role r = Standard"
  "e \<noteq> d \<Longrightarrow> accounts (snd (account_add d a l s)) e = accounts s e"
  by (auto simp: account_add_def Let_def default_account_record_def split: option.splits)

lemma role_after_limits:
  "map_option ar_role (accounts (account_change_queue_limits d l1 l2 s) e) =
     (if e = d then Some (ar_role (acct s d)) else map_option ar_role (accounts s e))"
  by (simp add: account_change_queue_limits_def Let_def)

lemma role_after_remove:
  "account_remove d s = (res, s') \<Longrightarrow> accounts s' e = Some r \<Longrightarrow> ar_role r = ar_role (acct s e)"
proof -
  assume a: "account_remove d s = (res, s')" "accounts s' e = Some r"
  let ?b = "delete_folder_stream d Outbox (snd (set_did_acl d blocked_acls s))"
  have "s' = s \<or> e \<noteq> d \<and> accounts s' e = accounts (snd (purge_folder d Inbox ?b)) e"
    using a by (auto simp: account_remove_def Let_def split: if_splits)
  moreover have "map_option profile (accounts (snd (purge_folder d Inbox ?b)) e) =
      map_option profile (accounts ?b e)"
    using traffic_purge [of ?b d Inbox] by (simp add: traffic_only_def)
  ultimately show ?thesis
    using a(2) by (cases "accounts s e")
      (auto simp: delete_folder_stream_def set_did_acl_def profile_def split: if_splits)
qed

lemma account_get_type: "account_get d s = Some a \<Longrightarrow> \<exists>r. accounts s d = Some r \<and> ac_type a = ar_role r"
  by (auto simp: account_get_def into_account_def split: option.splits)

definition no_new_admins :: "memory_state \<Rightarrow> memory_state \<Rightarrow> bool" where
  \<comment> \<open>an administrator afterwards had that very role before\<close>
  "no_new_admins s s' = (\<forall>d r'. accounts s' d = Some r' \<and> is_admin (ar_role r') \<longrightarrow>
     (\<exists>r. accounts s d = Some r \<and> ar_role r = ar_role r'))"

lemma no_new_admins_refl [simp]: "no_new_admins s s"
  by (simp add: no_new_admins_def)

lemma no_new_adminsI:
  assumes "\<And>d r'. accounts s' d = Some r' \<Longrightarrow> is_admin (ar_role r') \<Longrightarrow> ar_role r' = ar_role (acct s d)"
  shows "no_new_admins s s'"
  unfolding no_new_admins_def
proof (intro allI impI)
  fix d r'
  assume a: "accounts s' d = Some r' \<and> is_admin (ar_role r')"
  then have "ar_role r' = ar_role (acct s d)" using assms by blast
  with a show "\<exists>r. accounts s d = Some r \<and> ar_role r = ar_role r'"
    by (cases "accounts s d") (auto simp: default_account_record_def is_admin_def)
qed

lemma no_new_admins_cong: "accounts s' = accounts u \<Longrightarrow> no_new_admins s u \<Longrightarrow> no_new_admins s s'"
  by (simp add: no_new_admins_def)

lemma no_new_admins_ops [simp]:
  "no_new_admins s (snd (account_add d a l s))"
  "no_new_admins s (account_change_queue_limits d l1 l2 s)"
  "no_new_admins s (snd (set_did_acl d a s))"
  "no_new_admins s (snd (account_remove d s))"
proof -
  show "no_new_admins s (snd (account_add d a l s))"
    using role_after_add by (auto simp: no_new_admins_def is_admin_def) (metis account_type.distinct option.inject)+
  show "no_new_admins s (account_change_queue_limits d l1 l2 s)"
    by (rule no_new_adminsI) (auto simp: account_change_queue_limits_def Let_def split: if_splits)
  show "no_new_admins s (snd (set_did_acl d a s))"
    by (rule no_new_adminsI) (auto simp: set_did_acl_def split: if_splits)
  show "no_new_admins s (snd (account_remove d s))"
    by (rule no_new_adminsI) (use role_after_remove [of d s] in \<open>metis prod.collapse\<close>)
qed

lemma accounts_dispatch_no_admin:
  assumes "\<not> check_admin_account (ss_did_hash se) s"
  shows "no_new_admins s (snd (accounts_dispatch digest memory_store env cfg msg se r s))"
proof (cases r)
  case (AccountRemove d)
  obtain res u where rm: "account_remove d s = (res, u)" by fastforce
  then have "no_new_admins s u" using no_new_admins_ops(4) [of s d] by simp
  with AccountRemove rm show ?thesis
    by (cases res) (auto simp: account_remove_request_def intro: no_new_admins_cong [of _ u])
qed (use assms in \<open>auto simp: accounts_requests Let_def intro: no_new_admins_cong\<close>)

lemma acls_dispatch_no_admin:
  "no_new_admins s (snd (acls_dispatch memory_store env cfg msg se r s))"
  by (cases r) (auto simp: acls_requests Let_def split: option.split intro: no_new_admins_cong)

section \<open>Properties\<close>

lemma protocols_no_new_admins:
  assumes "\<not> check_admin_account (ss_did_hash se) s"
  shows "no_new_admins s (snd (acls_process memory_store env cfg msg se r1 s))"
    "no_new_admins s (snd (accounts_process digest memory_store env cfg msg se r2 s))"
    "no_new_admins s (snd (admin_process digest memory_store env cfg msg se r3 s))"
  using assms accounts_dispatch_no_admin [OF assms] acls_dispatch_no_admin
  by (auto simp: acls_process_def accounts_process_def admin_process_def split: option.split)

text \<open>An account disappears only through \<open>AccountRemove\<close> on it, asked by itself or by an
  administrator, and never when it is the mediator's, the root administrator's, or has one of their
  roles.\<close>
theorem accounts_removed_only_by_owner_or_admin:
  assumes "accounts_process digest memory_store env cfg msg se r s = (res, s')"
    and "accounts s d \<noteq> None" "accounts s' d = None"
  shows "r = Some (AccountRemove d) \<and> (is_admin_session se \<or> d = ss_did_hash se) \<and>
    d \<noteq> cf_mediator_did_hash cfg \<and> d \<noteq> digest (cf_admin_did cfg) \<and> \<not> is_protected d s"
proof -
  obtain q where q: "r = Some q" "accounts_dispatch digest memory_store env cfg msg se q s = (res, s')"
    using assms by (auto simp: accounts_process_def split: option.splits)
  have "q = AccountRemove d \<and> allowed_for cfg msg se [d] \<and>
      d \<noteq> cf_mediator_did_hash cfg \<and> d \<noteq> digest (cf_admin_did cfg) \<and> \<not> is_protected d s"
  proof (cases q)
    case (AccountRemove d')
    obtain res' u where rm: "account_remove d' s = (res', u)" by fastforce
    have c: "allowed_for cfg msg se [d']" "d' \<noteq> cf_mediator_did_hash cfg" "d' \<noteq> digest (cf_admin_did cfg)"
      "accounts s' = accounts u"
      using q(2) AccountRemove assms(2,3) rm
      by (auto simp: account_remove_request_def split: if_splits) (cases res'; auto)+
    moreover have "d' = d"
    proof (rule ccontr)
      assume "d' \<noteq> d"
      let ?b = "delete_folder_stream d' Outbox (snd (set_did_acl d' blocked_acls s))"
      have "map_option profile (accounts (snd (purge_folder d' Inbox ?b)) d) = map_option profile (accounts ?b d)"
        using traffic_purge [of ?b d' Inbox] by (simp add: traffic_only_def)
      with \<open>d' \<noteq> d\<close> assms(2,3) c(4) rm show False
        by (auto simp: account_remove_def Let_def delete_folder_stream_def set_did_acl_def split: if_splits)
    qed
    moreover have "\<not> is_protected d' s"
      using rm c(4) assms(2,3)
      by (auto simp: account_remove_def is_protected_def split: if_splits option.splits)
    ultimately show ?thesis using AccountRemove by simp
  qed (use q(2) assms(2,3) in \<open>auto simp: accounts_requests Let_def account_change_queue_limits_def
      account_add_def strip_admin_state setup_admin_effect role_after_set_role split: if_splits option.splits\<close>)
  then show ?thesis using q(1) by (auto simp: allowed_for_iff)
qed

theorem accounts_removed_only_by_owner_or_admin_witness:
  "\<exists>res s'. accounts_process (\<lambda>b. b) memory_store sample_env sample_config sample_message
       (default_session\<lparr>ss_did_hash := ''bob''\<rparr>) (Some (AccountRemove ''bob''))
       (snd (account_add ''bob'' default_acl_set None empty_state)) = (res, s') \<and> accounts s' ''bob'' = None \<and>
     \<not> is_protected ''bob'' (snd (account_add ''bob'' default_acl_set None empty_state))"
proof -
  let ?se = "default_session\<lparr>ss_did_hash := ''bob''\<rparr>"
  let ?s = "snd (account_add ''bob'' default_acl_set None empty_state)"
  obtain res s' where p: "accounts_process (\<lambda>b. b) memory_store sample_env sample_config sample_message
       ?se (Some (AccountRemove ''bob'')) ?s = (res, s')"
    by fastforce
  have na: "\<not> is_admin_session ?se" by (simp add: is_admin_session_def default_session_def)
  have np: "\<not> is_protected ''bob'' ?s"
    by (simp add: is_protected_def account_add_def Let_def default_account_record_def)
  obtain res' u where rm: "account_remove ''bob'' ?s = (res', u)" by fastforce
  have "inbox_listed ?s" by (simp add: inbox_listed_def account_add_def Let_def empty_state_def)
  from account_remove_effect [OF this rm] np have u: "res' = Inr True" "accounts u ''bob'' = None"
    by (auto simp: account_get_def split: option.splits)
  have gone: "accounts s' ''bob'' = None"
    using p na u rm
    by (auto simp: accounts_process_def account_remove_request_def allowed_for_iff sample_config_def)
  moreover have "accounts ?s ''bob'' \<noteq> None" by (simp add: account_add_def Let_def)
  ultimately show ?thesis
    using accounts_removed_only_by_owner_or_admin [OF p, of "''bob''"] p by blast
qed

text \<open>Only a root administrator makes or changes a root administrator through
  \<open>AccountChangeType\<close>, only an administrator changes a role at all, and a change that succeeds
  gives exactly the requested role.\<close>
theorem change_type_rules:
  assumes "account_change_type_request memory_store env cfg msg se d t s = (Inr rp, s')"
  shows "check_admin_account (ss_did_hash se) s \<and> map_option ar_role (accounts s' d) = Some t \<and>
    (t = RootAdmin \<or> map_option ar_role (accounts s d) = Some RootAdmin \<longrightarrow> ss_account_type se = RootAdmin) \<and>
    (\<forall>e. e \<noteq> d \<longrightarrow> accounts s' e = accounts s e)"
proof -
  have a: "check_admin_account (ss_did_hash se) s" "\<not> (t = RootAdmin \<and> ss_account_type se \<noteq> RootAdmin)"
    using assms by (auto simp: account_change_type_request_def split: if_splits)
  show ?thesis
  proof (cases "accounts s d")
    case None
    with assms a show ?thesis
      by (auto simp: account_change_type_request_def account_get_def set_role_and_reply_def role_after_set_role)
  next
    case (Some r)
    with assms a show ?thesis
      by (auto simp: account_change_type_request_def account_get_def into_account_def set_role_and_reply_def
          role_after_set_role setup_admin_effect strip_admin_state split: if_splits)
  qed
qed

theorem change_type_rules_witness:
  "\<exists>rp s'. account_change_type_request memory_store sample_env sample_config sample_message
       (default_session\<lparr>ss_did_hash := ''root'', ss_account_type := RootAdmin\<rparr>) ''bob'' Admin
       (setup_admin_account ''root'' RootAdmin default_acl_set empty_state) = (Inr rp, s') \<and>
     map_option ar_role (accounts s' ''bob'') = Some Admin"
proof -
  let ?se = "default_session\<lparr>ss_did_hash := ''root'', ss_account_type := RootAdmin\<rparr>"
  let ?s = "setup_admin_account ''root'' RootAdmin default_acl_set empty_state"
  have c: "check_admin_account ''root'' ?s" "accounts ?s ''bob'' = None"
    by (simp_all add: check_admin_account_def setup_admin_effect empty_state_def)
  then obtain rp s' where p: "account_change_type_request memory_store sample_env sample_config sample_message
      ?se ''bob'' Admin ?s = (Inr rp, s')"
    by (simp add: account_change_type_request_def account_get_def set_role_and_reply_def)
  from change_type_rules [OF p] p show ?thesis by blast
qed

text \<open>In explicit-deny mode \<open>AccountAdd\<close> is open to everyone and does not look whether the account
  exists: any non-administrator resets any account, a root administrator's included, to a standard
  account with the default ACLs and empty counters.\<close>
theorem account_add_resets_any_account:
  assumes "cf_mediator_acl_mode cfg = ExplicitDeny" "\<not> is_admin_session se"
    and "accounts_process digest memory_store env cfg msg se (Some (AccountAdd d w)) s = (res, s')"
  shows "is_ok res \<and>
    accounts s' d = Some (default_account_record\<lparr>ar_acls := cf_global_acl_default cfg\<rparr>) \<and> admins s' = admins s"
  using assms by (auto simp: accounts_process_def account_add_request_def account_add_def Let_def)

theorem account_add_resets_any_account_witness:
  "\<exists>res s'. accounts_process (\<lambda>b. b) memory_store sample_env sample_config sample_message
       (default_session\<lparr>ss_did_hash := ''eve''\<rparr>) (Some (AccountAdd ''root'' None))
       (setup_admin_account ''root'' RootAdmin default_acl_set empty_state) = (res, s') \<and>
     map_option ar_role (accounts s' ''root'') = Some Standard"
proof -
  obtain res s' where p: "accounts_process (\<lambda>b. b) memory_store sample_env sample_config sample_message
       (default_session\<lparr>ss_did_hash := ''eve''\<rparr>) (Some (AccountAdd ''root'' None))
       (setup_admin_account ''root'' RootAdmin default_acl_set empty_state) = (res, s')"
    by fastforce
  from account_add_resets_any_account [OF _ _ p] p show ?thesis
    by (auto simp: sample_config_def is_admin_session_def default_session_def default_account_record_def)
qed

text \<open>The administration protocol needs a fresh message from an account the store holds to be an
  administrator (signed by it where remote administration is blocked); \<open>AdminStrip\<close> never touches
  the root administrator or the mediator; and \<open>AdminAdd\<close> gives every named account the role
  administrator, whatever role it had, so it also demotes a root administrator.\<close>
theorem admin_protocol_rules:
  assumes "admin_process digest memory_store env cfg msg se (Some r) s = (Inr rp, s')"
  shows "check_admin_account (ss_did_hash se) s \<and>
    (cf_block_remote_admin_msgs cfg \<longrightarrow> check_admin_signature se (sender_kid msg)) \<and>
    admin_message_ttl_status (rq_created_time msg) (cf_admin_messages_expiry cfg) (en_now env) = TtlOk \<and>
    (\<forall>ds. r = AdminStrip ds \<longrightarrow> (\<forall>d. d = digest (cf_admin_did cfg) \<or> d = cf_mediator_did_hash cfg \<or> d \<notin> set ds \<longrightarrow>
       accounts s' d = accounts s d)) \<and>
    (\<forall>ds. r = AdminAdd ds \<longrightarrow> (\<forall>d. map_option ar_role (accounts s' d) =
       (if d \<in> set ds then Some Admin else map_option ar_role (accounts s d))))"
proof -
  have strip: "accounts (fold (\<lambda>d. account_set_role d Standard) ds u) d = accounts u d" if "d \<notin> set ds" for ds u d
    using that by (induction ds arbitrary: u) (auto simp: role_after_set_role)
  have add: "map_option ar_role (accounts (fold (\<lambda>d. setup_admin_account d Admin a) ds u) d) =
      (if d \<in> set ds then Some Admin else map_option ar_role (accounts u d))" for ds u d a
    by (induction ds arbitrary: u) (auto simp: setup_admin_effect)
  have added: "\<exists>z. accounts (fold (\<lambda>d. setup_admin_account d Admin a) ds u) d = Some z \<and> ar_role z = Admin"
    if "d \<in> set ds" for ds u d a
    using add [of a ds u d] that by simp
  show ?thesis
    using assms
    by (auto simp: admin_process_def ttl_error_def admin_requests Let_def strip_admin_state add_admin_accounts_def
        strip add added split: admin_ttl_status.splits if_splits option.splits)
qed

theorem admin_protocol_rules_witness:
  "\<exists>rp s'. admin_process (\<lambda>b. b) memory_store sample_env sample_config sample_message
       (default_session\<lparr>ss_did_hash := ''adm''\<rparr>) (Some (AdminAdd [''did:root'']))
       (setup_admin_account ''did:root'' RootAdmin default_acl_set
         (setup_admin_account ''adm'' Admin default_acl_set empty_state)) = (Inr rp, s') \<and>
     map_option ar_role (accounts s' ''did:root'') = Some Admin"
proof -
  let ?se = "default_session\<lparr>ss_did_hash := ''adm''\<rparr>"
  let ?s = "setup_admin_account ''did:root'' RootAdmin default_acl_set
         (setup_admin_account ''adm'' Admin default_acl_set empty_state)"
  have "check_admin_account ''adm'' ?s"
    by (simp add: check_admin_account_def setup_admin_effect empty_state_def)
  then obtain rp s' where p: "admin_process (\<lambda>b. b) memory_store sample_env sample_config sample_message
       ?se (Some (AdminAdd [''did:root''])) ?s = (Inr rp, s')"
    by (simp add: admin_process_def admin_add_request_def ttl_error_def admin_message_ttl_status_def
        sample_env_def sample_config_def sample_message_def sat_add_def u64_max_def)
  have "map_option ar_role (accounts s' ''did:root'') = Some Admin"
    using admin_protocol_rules [OF p] by (metis list.set_intros(1))
  with p show ?thesis by blast
qed

text \<open>The queue limits a standard account gets for itself: without the self-management flag
  nothing changes; with it the limit asked for is cut to the hard limit, except that \<open>-1\<close>
  (unlimited) and \<open>-2\<close> (reset) pass as they are.\<close>
theorem standard_queue_limits:
  assumes "account_change_queue_limits_request memory_store env cfg msg se d l1 l2 s = (Inr rp, s')"
    and "ss_account_type se = Standard" "accounts s d = Some a" "-1 \<le> cf_queued_send_messages_hard cfg"
  shows "\<exists>b. accounts s' d = Some b \<and>
    ar_queue_send_limit b =
      (if get_self_manage_send_queue_limit (ss_acls se)
       then (case l1 of None \<Rightarrow> ar_queue_send_limit a
             | Some n \<Rightarrow> if n = -2 then None else if n = -1 then Some (-1)
                        else Some (min n (cf_queued_send_messages_hard cfg)))
       else ar_queue_send_limit a) \<and>
    ar_role b = ar_role a \<and> ar_acls b = ar_acls a"
  using assms
  by (auto simp: account_change_queue_limits_request_def account_change_queue_limits_def Let_def
      capped_limit_def new_limit_def min_def split: if_splits option.splits)

theorem standard_queue_limits_witness:
  "\<exists>rp s' b. account_change_queue_limits_request memory_store sample_env sample_config sample_message
       (default_session\<lparr>ss_did_hash := ''bob'', ss_acls := from_u64 131072\<rparr>) ''bob'' (Some 5000) None
       (snd (account_add ''bob'' default_acl_set None empty_state)) = (Inr rp, s') \<and>
     accounts s' ''bob'' = Some b \<and> ar_queue_send_limit b = Some 10"
proof -
  let ?se = "default_session\<lparr>ss_did_hash := ''bob'', ss_acls := from_u64 131072\<rparr>"
  let ?s = "snd (account_add ''bob'' default_acl_set None empty_state)"
  have m: "get_self_manage_send_queue_limit (from_u64 131072)"
    by (simp add: acl_get_bits bit_iff_odd)
  have t: "ss_account_type ?se = Standard" by (simp add: default_session_def)
  have h: "-1 \<le> cf_queued_send_messages_hard sample_config" by (simp add: sample_config_def)
  have a: "accounts ?s ''bob'' = Some (default_account_record\<lparr>ar_acls := default_acl_set\<rparr>)"
    by (simp add: account_add_def Let_def)
  obtain rp s' where p: "account_change_queue_limits_request memory_store sample_env sample_config sample_message
       ?se ''bob'' (Some 5000) None ?s = (Inr rp, s')"
    using t by (simp add: account_change_queue_limits_request_def allowed_for_iff is_admin_session_def Let_def)
  from standard_queue_limits [OF p t a h] m p show ?thesis by (auto simp: sample_config_def)
qed

section \<open>Reachability\<close>

lemma reachable_fold:
  "(\<And>d u. reachable digest u \<Longrightarrow> reachable digest (f d u)) \<Longrightarrow> reachable digest s \<Longrightarrow> reachable digest (fold f ds s)"
  by (induction ds arbitrary: s) auto

lemma reachable_ops [intro]:
  assumes "reachable digest s"
  shows "reachable digest (audit_log_record e s)" "reachable digest (account_set_role d t s)"
    "reachable digest (setup_admin_account d t a s)" "reachable digest (snd (account_add d a l s))"
    "reachable digest (snd (account_remove d s))" "reachable digest (account_change_queue_limits d l1 l2 s)"
  using assms by (blast intro: reachable_step step_audit step_set_role step_setup_admin step_account_add
      step_account_remove step_limits)+

lemma reachable_audit_each [intro]:
  "reachable digest s \<Longrightarrow> reachable digest (audit_each memory_store env se a dt n ts s)"
  by (induction ts arbitrary: n s) auto

lemma reachable_set_role [intro]:
  "reachable digest s \<Longrightarrow> reachable digest (snd (set_role_and_reply memory_store env cfg msg se d t c s))"
  by (auto simp: set_role_and_reply_def)

lemma reachable_strip [intro]:
  "reachable digest s \<Longrightarrow> reachable digest (snd (strip_admin_accounts ds s))"
  by (auto simp: strip_admin_state intro: reachable_fold)

lemma reachable_add_admins [intro]:
  "reachable digest s \<Longrightarrow> reachable digest (snd (add_admin_accounts ds a s))"
  by (auto simp: add_admin_accounts_def intro: reachable_fold)

lemma accounts_reachable:
  assumes "reachable digest s"
  shows "reachable digest (snd (accounts_process h memory_store env cfg msg se r s))"
proof -
  have rm: "reachable digest (snd (on_store se msg (account_remove d s)
      (\<lambda>r s. (Inr (f r), audit_log_record e s))))" for d f e
    using reachable_ops(5) [OF assms, of d]
    by (cases "account_remove d s"; cases "fst (account_remove d s)") auto
  have "reachable digest (snd (accounts_dispatch h memory_store env cfg msg se q s))" for q
  proof (cases q)
    case (AccountChangeType d t)
    then show ?thesis using assms
      by (cases "account_get d s") (auto simp: account_change_type_request_def)
  qed (use assms in \<open>auto simp: accounts_requests rm Let_def split: option.split\<close>)
  then show ?thesis using assms by (auto simp: accounts_process_def split: option.split)
qed

lemma admin_reachable:
  assumes "reachable digest s"
  shows "reachable digest (snd (admin_process h memory_store env cfg msg se r s))"
proof -
  have "reachable digest (snd (admin_dispatch h memory_store env cfg msg se q s))" for q
    using assms by (cases q) (auto simp: admin_requests Let_def)
  then show ?thesis using assms by (auto simp: admin_process_def split: option.split)
qed

end
