(* ===== verification/CircuitBreaker.thy ===== *)
theory CircuitBreaker
  imports Prelude
begin

text \<open>
  The circuit breaker in front of the database (\<open>circuit_breaker.rs\<close> of the mediator's common
  crate), modelled twice:

  \<^item> each method as one function of the breaker's state and the clock (\<open>allow_request\<close>,
    \<open>record_success\<close>, \<open>record_failure\<close>), which is what a single caller sees;
  \<^item> each method as the sequence of atomic loads, stores and compare-and-swaps the code performs,
    with any number of threads interleaved step by step (\<open>cb_step\<close>). Interleaving is of
    sequentially consistent actions; reorderings that \<open>Ordering::Relaxed\<close> would allow on top are
    not modelled.

  A thread that runs alone performs the function (\<open>alone_allow\<close>, \<open>alone_success\<close>,
  \<open>alone_failure\<close>). The properties are the contract of the sequential breaker, and what is left of
  it when threads interleave.
\<close>

section \<open>The breaker\<close>

definition STATE_CLOSED :: nat where
  "STATE_CLOSED = 0"

definition STATE_OPEN :: nat where
  "STATE_OPEN = 1"

definition STATE_HALF_OPEN :: nat where
  "STATE_HALF_OPEN = 2"

lemmas cb_states = STATE_CLOSED_def STATE_OPEN_def STATE_HALF_OPEN_def

record circuit_breaker =
  cb_state :: nat
  cb_consecutive_failures :: "32 word"
  cb_failure_threshold :: "32 word"
  cb_opened_at :: nat
  cb_open_duration_secs :: nat

definition new_breaker :: "32 word \<Rightarrow> nat \<Rightarrow> circuit_breaker" where
  "new_breaker failure_threshold open_duration_secs =
     \<lparr>cb_state = STATE_CLOSED, cb_consecutive_failures = 0, cb_failure_threshold = failure_threshold,
      cb_opened_at = 0, cb_open_duration_secs = open_duration_secs\<rparr>"

definition allow_request :: "nat \<Rightarrow> circuit_breaker \<Rightarrow> bool \<times> circuit_breaker" where
  "allow_request now cb =
     (if cb_state cb = STATE_CLOSED then (True, cb)
      else if cb_state cb = STATE_OPEN then
        (if sat_sub now (cb_opened_at cb) \<ge> cb_open_duration_secs cb
         then (True, cb\<lparr>cb_state := STATE_HALF_OPEN\<rparr>)
         else (False, cb))
      else if cb_state cb = STATE_HALF_OPEN then (False, cb)
      else (True, cb))"

definition record_success :: "circuit_breaker \<Rightarrow> circuit_breaker" where
  "record_success cb = cb\<lparr>cb_consecutive_failures := 0, cb_state := STATE_CLOSED\<rparr>"

definition record_failure :: "nat \<Rightarrow> circuit_breaker \<Rightarrow> circuit_breaker" where
  "record_failure now cb =
     (let failures = cb_consecutive_failures cb + 1;
          cb = cb\<lparr>cb_consecutive_failures := failures\<rparr>
      in if cb_state cb = STATE_CLOSED \<and> failures \<ge> cb_failure_threshold cb \<or> cb_state cb = STATE_HALF_OPEN
         then cb\<lparr>cb_state := STATE_OPEN, cb_opened_at := now\<rparr>
         else cb)"

definition is_open :: "circuit_breaker \<Rightarrow> bool" where
  "is_open cb = (cb_state cb = STATE_OPEN)"

definition state_str :: "circuit_breaker \<Rightarrow> string" where
  "state_str cb =
     (if cb_state cb = STATE_CLOSED then ''closed''
      else if cb_state cb = STATE_OPEN then ''open''
      else if cb_state cb = STATE_HALF_OPEN then ''half_open''
      else ''unknown'')"

section \<open>Interleaved atomic actions\<close>

datatype cb_pc =
    Idle
  | AllowLoaded               \<comment> \<open>\<open>allow_request\<close> has loaded \<open>STATE_OPEN\<close>\<close>
  | AllowElapsed              \<comment> \<open>and found the duration elapsed: the compare-exchange is next\<close>
  | SuccessReset              \<comment> \<open>\<open>record_success\<close> has stored 0: the swap is next\<close>
  | FailureCounted "32 word"  \<comment> \<open>\<open>record_failure\<close> has counted: the load of the state is next\<close>
  | FailureOpening            \<comment> \<open>the store of \<open>STATE_OPEN\<close> is next\<close>
  | FailureStamping           \<comment> \<open>the store of \<open>opened_at\<close> is next\<close>

datatype cb_action =
    StartAllow | LoadOpened nat | Exchange
  | StartSuccess | Swap
  | StartFailure | LoadState | StoreOpen | StoreTime nat

fun atomic :: "cb_action \<Rightarrow> cb_pc \<Rightarrow> circuit_breaker \<Rightarrow> (cb_pc \<times> bool option \<times> circuit_breaker) option" where
  \<comment> \<open>the next program point, the answer of \<open>allow_request\<close> if it returns, the shared state;
      \<open>None\<close> where the action is not the thread's next one\<close>
  "atomic StartAllow Idle cb =
     Some (if cb_state cb = STATE_OPEN then (AllowLoaded, None, cb)
           else (Idle, Some (cb_state cb \<noteq> STATE_HALF_OPEN), cb))"
| "atomic (LoadOpened now) AllowLoaded cb =
     Some (if sat_sub now (cb_opened_at cb) \<ge> cb_open_duration_secs cb then (AllowElapsed, None, cb)
           else (Idle, Some False, cb))"
| "atomic Exchange AllowElapsed cb =
     Some (if cb_state cb = STATE_OPEN then (Idle, Some True, cb\<lparr>cb_state := STATE_HALF_OPEN\<rparr>)
           else (Idle, Some False, cb))"
| "atomic StartSuccess Idle cb = Some (SuccessReset, None, cb\<lparr>cb_consecutive_failures := 0\<rparr>)"
| "atomic Swap SuccessReset cb = Some (Idle, None, cb\<lparr>cb_state := STATE_CLOSED\<rparr>)"
| "atomic StartFailure Idle cb =
     (let failures = cb_consecutive_failures cb + 1
      in Some (FailureCounted failures, None, cb\<lparr>cb_consecutive_failures := failures\<rparr>))"
| "atomic LoadState (FailureCounted failures) cb =
     Some (if cb_state cb = STATE_CLOSED \<and> failures \<ge> cb_failure_threshold cb \<or> cb_state cb = STATE_HALF_OPEN
           then (FailureOpening, None, cb) else (Idle, None, cb))"
| "atomic StoreOpen FailureOpening cb = Some (FailureStamping, None, cb\<lparr>cb_state := STATE_OPEN\<rparr>)"
| "atomic (StoreTime now) FailureStamping cb = Some (Idle, None, cb\<lparr>cb_opened_at := now\<rparr>)"
| "atomic _ _ _ = None"

record cb_system =
  sy_breaker :: circuit_breaker
  sy_threads :: "nat \<Rightarrow> cb_pc"
  sy_opened :: nat   \<comment> \<open>how often \<open>STATE_OPEN\<close> was stored\<close>
  sy_probes :: nat   \<comment> \<open>how often a compare-exchange let a request through\<close>

definition start_system :: "circuit_breaker \<Rightarrow> cb_system" where
  "start_system cb = \<lparr>sy_breaker = cb, sy_threads = (\<lambda>_. Idle), sy_opened = 0, sy_probes = 0\<rparr>"

inductive cb_step :: "cb_system \<Rightarrow> nat \<Rightarrow> cb_action \<Rightarrow> bool option \<Rightarrow> cb_system \<Rightarrow> bool" where
  cb_step: "atomic act (sy_threads s i) (sy_breaker s) = Some (pc, r, cb) \<Longrightarrow>
    cb_step s i act r
      \<lparr>sy_breaker = cb, sy_threads = (sy_threads s)(i := pc),
       sy_opened = (if act = StoreOpen then sy_opened s + 1 else sy_opened s),
       sy_probes = (if act = Exchange \<and> r = Some True then sy_probes s + 1 else sy_probes s)\<rparr>"

inductive cb_run :: "cb_system \<Rightarrow> cb_system \<Rightarrow> bool" where
  cb_run_refl: "cb_run s s"
| cb_run_step: "cb_run s t \<Longrightarrow> cb_step t i act r u \<Longrightarrow> cb_run s u"

inductive_cases cb_stepE: "cb_step s i act r t"

fun perform :: "cb_action list \<Rightarrow> cb_pc \<Rightarrow> circuit_breaker \<Rightarrow> (cb_pc \<times> bool option \<times> circuit_breaker) option" where
  \<comment> \<open>one thread running alone, stopping when its method returns\<close>
  "perform [] pc cb = Some (pc, None, cb)"
| "perform (a # as) pc cb =
     (case atomic a pc cb of
        None \<Rightarrow> None
      | Some (pc', r, cb') \<Rightarrow> if pc' = Idle then Some (pc', r, cb') else perform as pc' cb')"

section \<open>A thread alone performs the method\<close>

lemma alone_allow:
  "perform [StartAllow, LoadOpened now, Exchange] Idle cb =
     Some (Idle, Some (fst (allow_request now cb)), snd (allow_request now cb))"
  by (simp add: allow_request_def cb_states)

lemma alone_success: "perform [StartSuccess, Swap] Idle cb = Some (Idle, None, record_success cb)"
  by (simp add: record_success_def)

lemma alone_failure:
  "perform [StartFailure, LoadState, StoreOpen, StoreTime now] Idle cb = Some (Idle, None, record_failure now cb)"
  by (simp add: record_failure_def Let_def)

section \<open>Sequential use\<close>

datatype cb_call = CallAllow nat | CallSuccess | CallFailure nat

fun call :: "cb_call \<Rightarrow> circuit_breaker \<Rightarrow> circuit_breaker" where
  "call (CallAllow now) cb = snd (allow_request now cb)"
| "call CallSuccess cb = record_success cb"
| "call (CallFailure now) cb = record_failure now cb"

fun failures_in_a_row :: "cb_call list \<Rightarrow> nat \<Rightarrow> nat" where
  \<comment> \<open>failures since the last success, \<open>n\<close> of them before the calls\<close>
  "failures_in_a_row [] n = n"
| "failures_in_a_row (CallAllow now # cs) n = failures_in_a_row cs n"
| "failures_in_a_row (CallSuccess # cs) n = failures_in_a_row cs 0"
| "failures_in_a_row (CallFailure now # cs) n = failures_in_a_row cs (Suc n)"

fun answers :: "nat list \<Rightarrow> circuit_breaker \<Rightarrow> bool list" where
  \<comment> \<open>what requests at the given times are told when none of them reports back\<close>
  "answers [] cb = []"
| "answers (now # ts) cb = fst (allow_request now cb) # answers ts (snd (allow_request now cb))"

definition counts :: "nat \<Rightarrow> circuit_breaker \<Rightarrow> bool" where
  \<comment> \<open>the breaker agrees with \<open>n\<close> failures in a row\<close>
  "counts n cb = (unat (cb_consecutive_failures cb) = n \<and> cb_state cb \<in> {STATE_CLOSED, STATE_OPEN, STATE_HALF_OPEN} \<and>
     (cb_state cb = STATE_CLOSED \<longleftrightarrow> n < unat (cb_failure_threshold cb)))"

lemma counts_allow: "counts n cb \<Longrightarrow> counts n (snd (allow_request now cb))"
  by (auto simp: counts_def allow_request_def cb_states)

lemma counts_success: "0 < cb_failure_threshold cb \<Longrightarrow> counts 0 (record_success cb)"
  by (simp add: counts_def record_success_def word_less_nat_alt)

lemma counts_failure:
  assumes "counts n cb" "Suc n < 2 ^ 32"
  shows "counts (Suc n) (record_failure now cb)"
proof -
  have "unat (cb_consecutive_failures cb + 1) = Suc n"
    using assms unat_add_lem [of "cb_consecutive_failures cb" 1] by (simp add: counts_def)
  with assms show ?thesis
    by (auto simp: counts_def record_failure_def Let_def cb_states word_le_nat_alt)
qed

lemma settings_fixed [simp]:
  "cb_failure_threshold (snd (allow_request now cb)) = cb_failure_threshold cb"
  "cb_failure_threshold (record_success cb) = cb_failure_threshold cb"
  "cb_failure_threshold (record_failure now cb) = cb_failure_threshold cb"
  "cb_open_duration_secs (snd (allow_request now cb)) = cb_open_duration_secs cb"
  "cb_open_duration_secs (record_success cb) = cb_open_duration_secs cb"
  "cb_open_duration_secs (record_failure now cb) = cb_open_duration_secs cb"
  by (simp_all add: allow_request_def record_success_def record_failure_def Let_def)

lemma settings_calls:
  "cb_failure_threshold (fold call cs cb) = cb_failure_threshold cb \<and>
   cb_open_duration_secs (fold call cs cb) = cb_open_duration_secs cb"
proof (induction cs arbitrary: cb)
  case (Cons c cs)
  then show ?case by (cases c) simp_all
qed simp

lemma counts_calls:
  assumes "counts n cb" "0 < cb_failure_threshold cb" "n + length cs < 2 ^ 32"
  shows "counts (failures_in_a_row cs n) (fold call cs cb)"
  using assms
proof (induction cs arbitrary: n cb)
  case (Cons c cs)
  then show ?case
  proof (cases c)
    case CallSuccess
    with Cons show ?thesis using counts_success [of cb] by simp
  next
    case (CallFailure now)
    with Cons show ?thesis using counts_failure [of n cb now] by simp
  qed (simp add: counts_allow)
qed simp

lemma half_open_answers:
  "cb_state cb = STATE_HALF_OPEN \<Longrightarrow> answers ts cb = replicate (length ts) False"
  by (induction ts) (simp_all add: allow_request_def cb_states)

text \<open>The contract of the breaker for calls that do not overlap. After any calls on a new breaker,
  it is closed exactly when fewer than \<open>failure_threshold\<close> failures were recorded since the last
  success (as long as the 32-bit counter cannot wrap), and then every request is let through. Once
  open, of all the requests that follow before an outcome is recorded exactly one is let through if
  one of them comes \<open>open_duration_secs\<close> after the opening, and none otherwise.\<close>
theorem breaker_contract:
  assumes "0 < thr" "length cs < 2 ^ 32" "fold call cs (new_breaker thr dur) = cb"
  shows "(cb_state cb = STATE_CLOSED \<longleftrightarrow> failures_in_a_row cs 0 < unat thr) \<and>
    (cb_state cb = STATE_CLOSED \<longrightarrow> answers ts cb = replicate (length ts) True) \<and>
    (is_open cb \<longrightarrow> 0 < dur \<longrightarrow>
       length (filter id (answers ts cb)) = (if \<exists>now \<in> set ts. cb_opened_at cb + dur \<le> now then 1 else 0))"
proof -
  have "counts 0 (new_breaker thr dur)"
    using assms(1) by (simp add: counts_def new_breaker_def word_less_nat_alt)
  then have c: "counts (failures_in_a_row cs 0) cb"
    using assms counts_calls [of 0 "new_breaker thr dur" cs] by (simp add: new_breaker_def)
  have k: "cb_failure_threshold cb = thr" "cb_open_duration_secs cb = dur"
    using settings_calls [of cs "new_breaker thr dur"] assms(3) by (simp_all add: new_breaker_def)
  have "answers ts cb = replicate (length ts) True" if "cb_state cb = STATE_CLOSED"
    using that by (induction ts) (simp_all add: allow_request_def)
  moreover have "length (filter id (answers ts cb)) = (if \<exists>now \<in> set ts. cb_opened_at cb + dur \<le> now then 1 else 0)"
    if "is_open cb" "0 < dur"
    using that k(2)
  proof (induction ts)
    case (Cons now ts)
    then show ?case
      by (cases "cb_opened_at cb + dur \<le> now")
        (auto simp: allow_request_def is_open_def cb_states sat_sub_def half_open_answers [unfolded cb_states])
  qed simp
  ultimately show ?thesis using c k by (simp add: counts_def)
qed

theorem breaker_contract_witness:
  "answers [103, 107, 120] (fold call [CallFailure 90, CallSuccess, CallFailure 95, CallFailure 100] (new_breaker 2 7)) =
     [False, True, False] \<and>
   length (filter id (answers [103, 107, 120]
     (fold call [CallFailure 90, CallSuccess, CallFailure 95, CallFailure 100] (new_breaker 2 7)))) = 1"
proof -
  let ?cs = "[CallFailure 90, CallSuccess, CallFailure 95, CallFailure 100]"
  let ?cb = "fold call ?cs (new_breaker 2 7)"
  have "?cb = \<lparr>cb_state = 1, cb_consecutive_failures = 2, cb_failure_threshold = 2, cb_opened_at = 100,
      cb_open_duration_secs = 7\<rparr>"
    by (simp add: new_breaker_def record_failure_def record_success_def Let_def cb_states word_le_nat_alt)
  then have o: "is_open ?cb" "cb_opened_at ?cb = 100"
    and a: "answers [103, 107, 120] ?cb = [False, True, False]"
    by (simp_all add: is_open_def allow_request_def cb_states sat_sub_def)
  from breaker_contract [of 2 ?cs 7 ?cb "[103, 107, 120]"] o a show ?thesis by simp
qed

section \<open>Interleaved use\<close>

definition one_probe_each :: "cb_system \<Rightarrow> bool" where
  "one_probe_each s = (sy_probes s + (if is_open (sy_breaker s) then 1 else 0) \<le> sy_opened s)"

lemma one_probe_step: "cb_step s i act r t \<Longrightarrow> one_probe_each s \<Longrightarrow> one_probe_each t"
  by (erule cb_stepE, cases "(act, sy_threads s i, sy_breaker s)" rule: atomic.cases)
    (auto simp: one_probe_each_def is_open_def cb_states Let_def split: if_splits)

lemma one_probe_run: "cb_run s t \<Longrightarrow> one_probe_each s \<Longrightarrow> one_probe_each t"
  by (induction rule: cb_run.induct) (auto intro: one_probe_step)

text \<open>Under any interleaving of any number of threads, at most one request gets through a half-open
  breaker for each time it was opened.\<close>
theorem breaker_one_probe_per_opening:
  assumes "cb_run (start_system (new_breaker thr dur)) s"
  shows "sy_probes s \<le> sy_opened s \<and> (is_open (sy_breaker s) \<longrightarrow> sy_probes s < sy_opened s)"
  using one_probe_run [OF assms]
  by (auto simp: one_probe_each_def start_system_def new_breaker_def is_open_def cb_states split: if_splits)

fun schedule :: "(nat \<times> cb_action) list \<Rightarrow> cb_system \<Rightarrow> (cb_system \<times> bool option list) option" where
  \<comment> \<open>the threads named in the list take their next actions, in that order\<close>
  "schedule [] s = Some (s, [])"
| "schedule ((i, act) # rest) s =
     (case atomic act (sy_threads s i) (sy_breaker s) of
        None \<Rightarrow> None
      | Some (pc, r, cb) \<Rightarrow>
          map_option (map_prod id (Cons r)) (schedule rest
            \<lparr>sy_breaker = cb, sy_threads = (sy_threads s)(i := pc),
             sy_opened = (if act = StoreOpen then sy_opened s + 1 else sy_opened s),
             sy_probes = (if act = Exchange \<and> r = Some True then sy_probes s + 1 else sy_probes s)\<rparr>))"

lemma schedule_run: "schedule xs t = Some (u, rs) \<Longrightarrow> cb_run s t \<Longrightarrow> cb_run s u"
proof (induction xs arbitrary: t rs)
  case (Cons x xs)
  obtain i act where x: "x = (i, act)" by (cases x)
  with Cons.prems obtain pc r cb rs' where a: "atomic act (sy_threads t i) (sy_breaker t) = Some (pc, r, cb)"
    and n: "schedule xs \<lparr>sy_breaker = cb, sy_threads = (sy_threads t)(i := pc),
             sy_opened = (if act = StoreOpen then sy_opened t + 1 else sy_opened t),
             sy_probes = (if act = Exchange \<and> r = Some True then sy_probes t + 1 else sy_probes t)\<rparr> = Some (u, rs')"
    by (auto split: option.splits prod.splits)
  show ?case
    using Cons.IH [OF n] cb_run_step [OF Cons.prems(2) cb_step [OF a]] by blast
qed simp

definition early_probe :: "(nat \<times> cb_action) list" where
  \<comment> \<open>thread 1 asks after thread 0 has stored \<open>STATE_OPEN\<close> and before it stores the time\<close>
  "early_probe = [(0, StartFailure), (0, LoadState), (0, StoreOpen), (1, StartAllow), (1, LoadOpened 1000),
     (1, Exchange), (0, StoreTime 1000)]"

theorem breaker_one_probe_per_opening_witness:
  "\<exists>s. cb_run (start_system (new_breaker 1 100)) s \<and> sy_probes s = 1 \<and> sy_opened s = 1 \<and> \<not> is_open (sy_breaker s) \<and>
     sy_probes s \<le> sy_opened s"
proof -
  obtain s rs where p: "schedule early_probe (start_system (new_breaker 1 100)) = Some (s, rs)"
    and q: "sy_probes s = 1" "sy_opened s = 1" "\<not> is_open (sy_breaker s)"
    by (simp add: early_probe_def start_system_def new_breaker_def cb_states sat_sub_def is_open_def)
  have r: "cb_run (start_system (new_breaker 1 100)) s"
    using schedule_run [OF p] cb_run_refl by blast
  from breaker_one_probe_per_opening [OF r] r q show ?thesis by blast
qed

text \<open>The opening time is stored after the state, so a request that falls between the two stores is
  judged by the old opening time: here the breaker should stay open for 100 seconds and lets the
  second thread through in the very second it opens.\<close>
theorem early_probe_passes:
  "map_option snd (schedule early_probe (start_system (new_breaker 1 100))) =
     Some [None, None, None, None, None, Some True, None]"
  by (simp add: early_probe_def start_system_def new_breaker_def cb_states sat_sub_def)

end
