(* ===== verification/MessageOps.thy ===== *)
theory MessageOps
  imports HandlerBase MemForward MemSessions MemInvariants
begin

text \<open>
  What the message handlers share: DIDComm messages and envelopes as the handlers see them (the
  fields of \<open>Message\<close>, \<open>UnpackMetadata\<close> and \<open>MetaEnvelope\<close> they read), the operations of
  \<open>MediatorStore\<close> they call as a record of functions, and that record for the in-memory store.

  Packing, unpacking and JSON decoding are third-party work behind thin wrappers: their results are
  arguments (\<open>Inl\<close> with the text of the error). All readings of the clock in one run of a handler
  are arguments too.

  A \<open>world\<close> is the in-memory store together with what was handed to the publish-subscribe channels.
\<close>

section \<open>Messages\<close>

datatype json_value = JBool bool | JNumber int | JString string | JOther

definition as_bool :: "json_value \<Rightarrow> bool option" where
  "as_bool v = (case v of JBool b \<Rightarrow> Some b | _ \<Rightarrow> None)"

definition as_u64 :: "json_value \<Rightarrow> nat option" where
  "as_u64 v = (case v of JNumber n \<Rightarrow> if 0 \<le> n \<and> n \<le> int u64_max then Some (nat n) else None | _ \<Rightarrow> None)"

definition as_i64 :: "json_value \<Rightarrow> int option" where
  "as_i64 v = (case v of JNumber n \<Rightarrow> if - 9223372036854775808 \<le> n \<and> n < 9223372036854775808 then Some n else None
     | _ \<Rightarrow> None)"

definition as_str :: "json_value \<Rightarrow> string option" where
  "as_str v = (case v of JString s \<Rightarrow> Some s | _ \<Rightarrow> None)"

record attachment =
  at_base64 :: "string option"
  at_json :: "(string + string) option" \<comment> \<open>its serialisation, or the error of \<open>serde_json::to_string\<close>\<close>
  at_jws :: "string option"
  at_links :: "string list option"

datatype feature_type = FeatureProtocol | FeatureGoalCode | FeatureHeader

record feature_query =
  fq_feature_type :: feature_type
  fq_match :: string

record message_body = \<comment> \<open>the JSON body through the decoders the handlers apply to it\<close>
  bd_challenge :: "string + string \<times> string" \<comment> \<open>challenge, session id\<close>
  bd_refresh_token :: "json_value option"
  bd_status_request :: "string + string option" \<comment> \<open>recipient\<close>
  bd_live_delivery :: "string + bool"
  bd_delivery_request :: "string + string \<times> nat" \<comment> \<open>recipient, limit\<close>
  bd_messages_received :: "string + string list"
  bd_forward :: "string + string option" \<comment> \<open>next\<close>
  bd_ping :: "string + bool" \<comment> \<open>response requested\<close>
  bd_queries :: "string + feature_query list"

record didcomm_message =
  dm_id :: string
  dm_typ :: string
  dm_from :: "string option"
  dm_to :: "string list option"
  dm_body :: message_body
  dm_thid :: "string option"
  dm_created_time :: "nat option"
  dm_expires_time :: "nat option"
  dm_attachments :: "attachment list option"
  dm_extra :: "string \<rightharpoonup> json_value"

record unpack_metadata =
  um_encrypted :: bool
  um_authenticated :: bool
  um_encrypted_from_kid :: "string option"
  um_sign_from :: "string option"

record meta_envelope =
  en_authenticated :: bool
  en_encrypted :: bool
  en_from_did :: "string option"
  en_to_did :: "string option"
  en_unpack :: "string + didcomm_message \<times> unpack_metadata" \<comment> \<open>what \<open>unpack\<close> returns with the mediator's keys\<close>

datatype message_type =
    AffinidiAuthenticate | AffinidiAuthenticateRefresh | ForwardRequest
  | MediatorAdministrationType | MediatorAccountManagementType | MediatorACLManagementType
  | MessagePickupStatusRequest | MessagePickupStatusResponse | MessagePickupDeliveryRequest
  | MessagePickupMessagesReceived | MessagePickupLiveDeliveryChange | ProblemReportType
  | TrustPing | TrustTaskEnvelope | DiscoverFeaturesQueries | DiscoverFeaturesDisclose
  | OtherType string

definition message_types :: "(string \<times> message_type) list" where
  "message_types =
     [(''https://didcomm.org/trust-ping/2.0/ping'', TrustPing),
      (''https://trusttasks.org/binding/didcomm/0.1/envelope'', TrustTaskEnvelope),
      (''https://affinidi.com/atm/1.0/authenticate'', AffinidiAuthenticate),
      (''https://affinidi.com/atm/1.0/authenticate/refresh'', AffinidiAuthenticateRefresh),
      (''https://didcomm.org/mediator/1.0/admin-management'', MediatorAdministrationType),
      (''https://didcomm.org/mediator/1.0/account-management'', MediatorAccountManagementType),
      (''https://didcomm.org/mediator/1.0/acl-management'', MediatorACLManagementType),
      (''https://didcomm.org/messagepickup/3.0/status-request'', MessagePickupStatusRequest),
      (''https://didcomm.org/messagepickup/3.0/status'', MessagePickupStatusResponse),
      (''https://didcomm.org/messagepickup/3.0/live-delivery-change'', MessagePickupLiveDeliveryChange),
      (''https://didcomm.org/messagepickup/3.0/delivery-request'', MessagePickupDeliveryRequest),
      (''https://didcomm.org/messagepickup/3.0/messages-received'', MessagePickupMessagesReceived),
      (''https://didcomm.org/routing/2.0/forward'', ForwardRequest),
      (''https://didcomm.org/report-problem/2.0/problem-report'', ProblemReportType),
      (''https://didcomm.org/discover-features/2.0/queries'', DiscoverFeaturesQueries),
      (''https://didcomm.org/discover-features/2.0/disclose'', DiscoverFeaturesDisclose)]"

definition message_type_of :: "string \<Rightarrow> message_type" where
  \<comment> \<open>\<open>MessageType::from_str\<close>, which never fails\<close>
  "message_type_of s = (case map_of message_types s of Some t \<Rightarrow> t | None \<Rightarrow> OtherType s)"

section \<open>Store operations\<close>

text \<open>The session id and the queue length handed to \<open>store_message\<close> are left out: they only
  reach the log and the Redis backend.\<close>

record 's message_store =
  ms_store_message :: "string \<Rightarrow> string \<Rightarrow> string option \<Rightarrow> nat \<Rightarrow> 's \<Rightarrow> (store_error + string) \<times> 's"
  ms_delete_message :: "string \<Rightarrow> deletion_authority \<Rightarrow> 's \<Rightarrow> (store_error + unit) \<times> 's"
  ms_get_message :: "string \<Rightarrow> string \<Rightarrow> 's \<Rightarrow> (store_error + message_list_element option) \<times> 's"
  ms_list_messages :: "string \<Rightarrow> folder \<Rightarrow> (string \<times> string) option \<Rightarrow> nat \<Rightarrow> 's \<Rightarrow>
     (store_error + message_list_element list option) \<times> 's"
  ms_fetch_messages :: "string \<Rightarrow> fetch_options \<Rightarrow> 's \<Rightarrow> (store_error + get_messages_response) \<times> 's"
  ms_inbox_status :: "string \<Rightarrow> 's \<Rightarrow> (store_error + inbox_status_reply) \<times> 's"
  ms_account_exists :: "string \<Rightarrow> 's \<Rightarrow> (store_error + bool) \<times> 's"
  ms_account_get :: "string \<Rightarrow> 's \<Rightarrow> (store_error + account option) \<times> 's"
  ms_account_add :: "string \<Rightarrow> mediator_acl_set \<Rightarrow> nat option \<Rightarrow> 's \<Rightarrow> (store_error + account) \<times> 's"
  ms_get_did_acl :: "string \<Rightarrow> 's \<Rightarrow> (store_error + mediator_acl_set option) \<times> 's"
  ms_get_did_acls :: "string list \<Rightarrow> access_list_mode_type \<Rightarrow> 's \<Rightarrow> store_error + acl_get_response"
  ms_access_list_allowed :: "string \<Rightarrow> string option \<Rightarrow> 's \<Rightarrow> bool"
  ms_streaming_is_client_live :: "string \<Rightarrow> bool \<Rightarrow> 's \<Rightarrow> string option"
  ms_streaming_publish_message :: "string \<Rightarrow> string \<Rightarrow> string \<Rightarrow> bool \<Rightarrow> 's \<Rightarrow> 's"
  ms_forward_queue_enqueue :: "forward_queue_entry \<Rightarrow> nat \<Rightarrow> 's \<Rightarrow> (store_error + string) \<times> 's"
  ms_forward_queue_len :: "'s \<Rightarrow> (store_error + nat) \<times> 's"
  ms_get_session :: "string \<Rightarrow> string \<Rightarrow> 's \<Rightarrow> (store_error + session) \<times> 's"
  ms_put_session :: "session \<Rightarrow> nat \<Rightarrow> 's \<Rightarrow> (store_error + unit) \<times> 's"
  ms_delete_session :: "string \<Rightarrow> 's \<Rightarrow> (store_error + unit) \<times> 's"
  ms_stats_increment :: "stat_counter \<Rightarrow> int \<Rightarrow> 's \<Rightarrow> (store_error + unit) \<times> 's"

record pub_sub_record =
  ps_channel :: string
  ps_did_hash :: string
  ps_message :: string
  ps_force_delivery :: bool

record world =
  wo_store :: memory_state
  wo_channels :: "string list" \<comment> \<open>the instances that have subscribed\<close>
  wo_published :: "pub_sub_record list" \<comment> \<open>newest first\<close>

definition streaming_publish_message :: "string \<Rightarrow> string \<Rightarrow> string \<Rightarrow> bool \<Rightarrow> world \<Rightarrow> world" where
  "streaming_publish_message did_hash mediator_uuid message force_delivery w =
     (if mediator_uuid \<in> set (wo_channels w)
      then w\<lparr>wo_published := \<lparr>ps_channel = mediator_uuid, ps_did_hash = did_hash, ps_message = message,
               ps_force_delivery = force_delivery\<rparr> # wo_published w\<rparr>
      else w)"

definition streaming_subscribe :: "string \<Rightarrow> world \<Rightarrow> world" where
  "streaming_subscribe mediator_uuid w = w\<lparr>wo_channels := push_new mediator_uuid (wo_channels w)\<rparr>"

definition on_world :: "(memory_state \<Rightarrow> 'a \<times> memory_state) \<Rightarrow> world \<Rightarrow> 'a \<times> world" where
  "on_world f w = (let (a, s) = f (wo_store w) in (a, w\<lparr>wo_store := s\<rparr>))"

record store_clock =
  sk_ms :: nat    \<comment> \<open>milliseconds, for stream ids and message times\<close>
  sk_secs :: nat  \<comment> \<open>seconds, for sessions\<close>

definition memory_world :: "(string \<Rightarrow> string) \<Rightarrow> store_clock \<Rightarrow> world message_store" where
  "memory_world digest ck = \<lparr>
     ms_store_message = (\<lambda>m t f ex. on_world (\<lambda>s. map_prod Inr id
        (store_message digest (sk_ms ck) (sk_ms ck) (sk_ms ck) m t f ex s))),
     ms_delete_message = (\<lambda>h a. on_world (delete_message h a)),
     ms_get_message = (\<lambda>d i. on_world (\<lambda>s. (Inr (get_message d i s), s))),
     ms_list_messages = (\<lambda>d f r n. on_world (\<lambda>s. (Inr (list_messages d f r n s), s))),
     ms_fetch_messages = (\<lambda>d opts. on_world (\<lambda>s. map_prod Inr id (fetch_messages d opts s))),
     ms_inbox_status = (\<lambda>d. on_world (\<lambda>s. (Inr (inbox_status d s), s))),
     ms_account_exists = (\<lambda>d. on_world (\<lambda>s. (Inr (account_exists d s), s))),
     ms_account_get = (\<lambda>d. on_world (\<lambda>s. (Inr (account_get d s), s))),
     ms_account_add = (\<lambda>d a l. on_world (\<lambda>s. map_prod Inr id (account_add d a l s))),
     ms_get_did_acl = (\<lambda>d. on_world (\<lambda>s. (Inr (get_did_acl d s), s))),
     ms_get_did_acls = (\<lambda>ds m w. get_did_acls ds m (wo_store w)),
     ms_access_list_allowed = (\<lambda>t f w. access_list_allowed t f (wo_store w)),
     ms_streaming_is_client_live = (\<lambda>d b w. streaming_is_client_live d b (wo_store w)),
     ms_streaming_publish_message = streaming_publish_message,
     ms_forward_queue_enqueue = (\<lambda>e mx. on_world (\<lambda>s. map_prod Inr id (forward_queue_enqueue (sk_ms ck) e mx s))),
     ms_forward_queue_len = on_world (\<lambda>s. (Inr (forward_queue_len s), s)),
     ms_get_session = (\<lambda>i d. on_world (get_session digest (sk_secs ck) i d)),
     ms_put_session = (\<lambda>x ttl. on_world (put_session (sk_secs ck) x ttl)),
     ms_delete_session = (\<lambda>i. on_world (delete_session i)),
     ms_stats_increment = (\<lambda>c n. on_world (stats_increment_ok c n))\<rparr>"

section \<open>Results\<close>

definition on_result ::
  "('e \<Rightarrow> mediator_error) \<Rightarrow> ('e + 'a) \<times> 's \<Rightarrow> ('a \<Rightarrow> 's \<Rightarrow> (mediator_error + 'b) \<times> 's) \<Rightarrow>
   (mediator_error + 'b) \<times> 's" where
  \<comment> \<open>\<open>call.map_err(err)?\<close>, or the \<open>match\<close> that returns on an error\<close>
  "on_result err r k = (case r of (Inr a, s) \<Rightarrow> k a s | (Inl e, s) \<Rightarrow> (Inl (err e), s))"

definition require :: "bool \<Rightarrow> mediator_error \<Rightarrow> 's \<Rightarrow> ('s \<Rightarrow> (mediator_error + 'b) \<times> 's) \<Rightarrow> (mediator_error + 'b) \<times> 's" where
  \<comment> \<open>\<open>if !ok { return Err(e) }\<close>\<close>
  "require ok e s k = (if ok then k s else (Inl e, s))"

lemma on_result_simps [simp]:
  "on_result err (Inr a, s) k = k a s" "on_result err (Inl e, s) k = (Inl (err e), s)"
  "on_result err (map_prod Inr id p) k = k (fst p) (snd p)"
  by (simp_all add: on_result_def map_prod_def split_beta)

lemma on_result_Inr:
  "on_result err r k = (Inr b, s') \<longleftrightarrow> (\<exists>a s. r = (Inr a, s) \<and> k a s = (Inr b, s'))"
  by (cases r; cases "fst r") auto

lemma on_result_pure: "on_result err (r, s) k = (Inr b, s') \<longleftrightarrow> (\<exists>a. r = Inr a \<and> k a s = (Inr b, s'))"
  by (cases r) auto

lemma require_Inr: "require ok e s k = (Inr b, s') \<longleftrightarrow> ok \<and> k s = (Inr b, s')"
  by (simp add: require_def)

lemma require_simps [simp]: "require True e s k = k s" "require False e s k = (Inl e, s)"
  by (simp_all add: require_def)

lemma on_world_simps [simp]:
  "fst (on_world f w) = fst (f (wo_store w))"
  "snd (on_world f w) = w\<lparr>wo_store := snd (f (wo_store w))\<rparr>"
  by (simp_all add: on_world_def split_beta)

lemma on_world_read: "on_world (\<lambda>s. (g s, s)) w = (g (wo_store w), w)"
  by (simp add: on_world_def)

lemma on_world_ok: "on_world (\<lambda>s. map_prod Inr id (f s)) w = (Inr (fst (f (wo_store w))), w\<lparr>wo_store := snd (f (wo_store w))\<rparr>)"
  by (simp add: on_world_def split_beta)

lemma on_world_pair: "f (wo_store w) = (a, s) \<Longrightarrow> on_world f w = (a, w\<lparr>wo_store := s\<rparr>)"
  by (simp add: on_world_def)

lemma memory_world_sel [simp]:
  "ms_store_message (memory_world digest ck) m t f ex w = on_world (\<lambda>s. map_prod Inr id
        (store_message digest (sk_ms ck) (sk_ms ck) (sk_ms ck) m t f ex s)) w"
  "ms_delete_message (memory_world digest ck) h a w = on_world (delete_message h a) w"
  "ms_get_message (memory_world digest ck) d i w = (Inr (get_message d i (wo_store w)), w)"
  "ms_list_messages (memory_world digest ck) d fo r n w = (Inr (list_messages d fo r n (wo_store w)), w)"
  "ms_fetch_messages (memory_world digest ck) d opts w = on_world (\<lambda>s. map_prod Inr id (fetch_messages d opts s)) w"
  "ms_inbox_status (memory_world digest ck) d w = (Inr (inbox_status d (wo_store w)), w)"
  "ms_account_exists (memory_world digest ck) d w = (Inr (account_exists d (wo_store w)), w)"
  "ms_account_get (memory_world digest ck) d w = (Inr (account_get d (wo_store w)), w)"
  "ms_account_add (memory_world digest ck) d acls l w = on_world (\<lambda>s. map_prod Inr id (account_add d acls l s)) w"
  "ms_get_did_acl (memory_world digest ck) d w = (Inr (get_did_acl d (wo_store w)), w)"
  "ms_get_did_acls (memory_world digest ck) ds md w = get_did_acls ds md (wo_store w)"
  "ms_access_list_allowed (memory_world digest ck) t f w = access_list_allowed t f (wo_store w)"
  "ms_streaming_is_client_live (memory_world digest ck) d b w = streaming_is_client_live d b (wo_store w)"
  "ms_streaming_publish_message (memory_world digest ck) = streaming_publish_message"
  "ms_forward_queue_enqueue (memory_world digest ck) e mx w =
     on_world (\<lambda>s. map_prod Inr id (forward_queue_enqueue (sk_ms ck) e mx s)) w"
  "ms_forward_queue_len (memory_world digest ck) w = (Inr (forward_queue_len (wo_store w)), w)"
  "ms_get_session (memory_world digest ck) i d w = on_world (get_session digest (sk_secs ck) i d) w"
  "ms_put_session (memory_world digest ck) x ttl w = on_world (put_session (sk_secs ck) x ttl) w"
  "ms_delete_session (memory_world digest ck) i w = on_world (delete_session i) w"
  "ms_stats_increment (memory_world digest ck) c k w = on_world (stats_increment_ok c k) w"
  by (simp_all add: memory_world_def on_world_read)

end
