(* ===== verification/Authentication.thy ===== *)
theory Authentication
  imports MessageOps Authz AclRules
begin

text \<open>
  Authentication: the handlers of \<open>handlers/authenticate\<close> (challenge, DIDComm response, refresh, TSP
  response), the tokens of \<open>helpers.rs\<close>, and \<open>common/jwt_auth.rs\<close>, which turns a bearer token back into
  a session or admits an anonymous relay.

  The signing and decoding of tokens is the crate \<open>jsonwebtoken\<close>: the record \<open>jwt_keys\<close> is a parameter,
  and the predicate \<open>jwt_faithful\<close> states what is relied on, that a token decodes to the claims it was
  made from. Random strings, the envelope and its decoding, and the outcome of verifying a TSP signature
  are arguments.
\<close>

section \<open>Tokens\<close>

record session_claims =
  cl_aud :: string
  cl_sub :: string
  cl_session_id :: string
  cl_exp :: nat

record jwt_keys =
  jw_encode :: "session_claims \<Rightarrow> string + string"
  jw_decode :: "string \<Rightarrow> string + session_claims" \<comment> \<open>signature, audience and required claims checked\<close>

definition jwt_faithful :: "jwt_keys \<Rightarrow> bool" where
  "jwt_faithful keys =
     (\<forall>claims token. cl_aud claims = ''ATM'' \<and> jw_encode keys claims = Inr token \<longrightarrow> jw_decode keys token = Inr claims)"

record auth_config =
  au_base :: mediator_config
  au_jwt_access_expiry :: nat
  au_jwt_refresh_expiry :: nat
  au_enable_inter_mediator_relay :: bool

definition auth_problem :: "nat \<Rightarrow> string \<Rightarrow> string \<Rightarrow> string list \<Rightarrow> nat \<Rightarrow> mediator_error" where
  \<comment> \<open>the errors of these handlers carry no session and no message id\<close>
  "auth_problem code descriptor comment args http_status =
     problem code [] None SorterError ScopeProtocol descriptor comment args http_status"

definition auth_problem_log :: "nat \<Rightarrow> string \<Rightarrow> string \<Rightarrow> string list \<Rightarrow> nat \<Rightarrow> string \<Rightarrow> mediator_error" where
  "auth_problem_log code descriptor comment args http_status log_msg =
     problem_with_log code [] None SorterError ScopeProtocol descriptor comment args http_status log_msg"

definition auth_storage_error :: "store_error \<Rightarrow> mediator_error" where
  "auth_storage_error e =
     auth_problem_log 14 ''me.res.storage.error'' ''Database transaction error: {1}'' [show_store_error e] 503
       (''Database transaction error: '' @ show_store_error e)"

definition create_access_token ::
  "jwt_keys \<Rightarrow> string \<Rightarrow> string \<Rightarrow> nat \<Rightarrow> nat \<Rightarrow> mediator_error + string \<times> nat" where
  "create_access_token keys did session_id lifetime now =
     (let claims = \<lparr>cl_aud = ''ATM'', cl_sub = did, cl_session_id = session_id, cl_exp = wrap_u64 (now + lifetime)\<rparr>
      in case jw_encode keys claims of
           Inr token \<Rightarrow> Inr (token, cl_exp claims)
         | Inl err \<Rightarrow> Inl (problem_with_log 35 session_id None SorterError ScopeProtocol
             ''authentication.session.access_token'' (''Couldn'' @ [CHR 0x27] @ ''t create JWT Access token. Reason: {1}'')
             [err] 500 (''Couldn'' @ [CHR 0x27] @ ''t create JWT Access token. Reason: '' @ err)))"

definition create_refresh_token ::
  "(string \<Rightarrow> string) \<Rightarrow> jwt_keys \<Rightarrow> string \<Rightarrow> string \<Rightarrow> nat \<Rightarrow> nat \<Rightarrow> mediator_error + string \<times> nat \<times> string" where
  "create_refresh_token digest keys did session_id lifetime now =
     (let claims = \<lparr>cl_aud = ''ATM'', cl_sub = did, cl_session_id = session_id, cl_exp = wrap_u64 (now + lifetime)\<rparr>
      in case jw_encode keys claims of
           Inr token \<Rightarrow> Inr (token, cl_exp claims, digest token)
         | Inl err \<Rightarrow> Inl (problem_with_log 36 session_id None SorterError ScopeProtocol
             ''authentication.session.refresh_token'' (''Couldn'' @ [CHR 0x27] @ ''t create JWT Refresh token. Reason: {1}'')
             [err] 500 (''Couldn'' @ [CHR 0x27] @ ''t create JWT Refresh token. Reason: '' @ err)))"

definition refresh_expiry :: "auth_config \<Rightarrow> nat" where
  \<comment> \<open>\<open>jwt_refresh_expiry - jwt_access_expiry\<close> on \<open>u64\<close>\<close>
  "refresh_expiry cfg = wrap_u64 (au_jwt_refresh_expiry cfg + 18446744073709551616 - au_jwt_access_expiry cfg)"

definition jwt_exp_leeway_secs :: nat where
  "jwt_exp_leeway_secs = 60"

definition jwt_exp_is_expired :: "nat \<Rightarrow> nat \<Rightarrow> bool" where
  "jwt_exp_is_expired exp now = (wrap_u64 (exp + jwt_exp_leeway_secs) < now)"

record authorization_response =
  tr_access_token :: string
  tr_access_expires_at :: nat
  tr_refresh_token :: string
  tr_refresh_expires_at :: nat

section \<open>Challenge\<close>

definition authentication_challenge ::
  "(string \<Rightarrow> string) \<Rightarrow> 's message_store \<Rightarrow> auth_config \<Rightarrow> string \<Rightarrow> string \<Rightarrow> string \<Rightarrow> 's \<Rightarrow>
   (mediator_error + string \<times> string) \<times> 's" where
  \<comment> \<open>\<open>session_id\<close> and \<open>challenge\<close>: the two random strings; the result is the challenge and the session id\<close>
  "authentication_challenge digest ops cfg session_id challenge did s =
     require (is_prefix ''did:'' did)
       (auth_problem 29 ''authentication.challenge.invalid_did''
         (''Challenge body must include a `did:`-shaped DID'') [] 400) s (\<lambda>s.
     let session = \<lparr>ss_session_id = session_id, ss_challenge = challenge, ss_state = ChallengeSent, ss_did = did,
           ss_did_hash = digest did, ss_authenticated = False, ss_acls = default_acl_set,
           ss_account_type = Standard, ss_expires_at = 0, ss_refresh_token_hash = None\<rparr>
     in on_result StoreError
          (authentication_check (ms_get_did_acls ops) (cf_mediator_acl_mode (au_base cfg))
             (cf_global_acl_default (au_base cfg)) (ss_did_hash session) None s, s)
          (\<lambda>(allowed, known) s.
             require allowed (problem 25 session_id None SorterError ScopeProtocol ''authentication.blocked''
               ''DID is blocked'' [] 403) s (\<lambda>s.
             on_result StoreError
               (if known then (Inr (), s)
                else map_prod (map_sum id (\<lambda>_. ())) id
                       (ms_account_add ops (ss_did_hash session) (cf_global_acl_default (au_base cfg)) None s))
               (\<lambda>_ s. on_result StoreError
                  (create_session (ms_put_session ops) (ms_stats_increment ops) session s)
                  (\<lambda>_ s. (Inr (challenge, session_id), s))))))"

section \<open>Response\<close>

definition not_signed_error :: "bool \<Rightarrow> bool \<Rightarrow> mediator_error" where
  "not_signed_error authenticated encrypted =
     (let b = (\<lambda>x. if x then ''true'' else ''false'')
      in auth_problem_log 86 ''authentication.message.not_signed_or_encrypted''
           ''DIDComm message MUST be signed ({1}) and encrypted ({2}) for this transaction''
           [b authenticated, b encrypted] 400
           (''DIDComm message MUST be signed ('' @ b authenticated @ '') and encrypted ('' @ b encrypted @
             '') for this transaction''))"

definition unpack_auth_message ::
  "meta_envelope \<Rightarrow> mediator_error + didcomm_message \<times> unpack_metadata" where
  "unpack_auth_message envelope =
     (case en_unpack envelope of
        Inl e \<Rightarrow> Inl (auth_problem_log 32 ''message.unpack'' ''Failed to unpack message. Reason: {1}'' [e] 403
                   (''Failed to unpack message. Reason: '' @ e))
      | Inr (msg, metadata) \<Rightarrow>
          if um_authenticated metadata \<and> um_encrypted metadata then Inr (msg, metadata)
          else Inl (not_signed_error (um_authenticated metadata) (um_encrypted metadata)))"

definition type_error :: "string \<Rightarrow> mediator_error" where
  "type_error typ = auth_problem_log 30 ''message.type.incorrect'' ''Unexpected message type: {1}'' [typ] 400
     (''Unexpected message type: '' @ typ)"

definition expiry_check :: "nat \<Rightarrow> didcomm_message \<Rightarrow> mediator_error + unit" where
  "expiry_check now msg =
     (case dm_expires_time msg of
        Some expires \<Rightarrow>
          if expires \<le> now
          then Inl (auth_problem_log 31 ''message.expired'' ''Message has expired: {1}'' [show_nat expires] 400
                 ''Message has expired'')
          else Inr ()
      | None \<Rightarrow> Inl (auth_problem 92 ''message.expires_time.missing''
                 ''Authentication messages must include an expires_time header'' [] 400))"

definition register_did_and_setup ::
  "'s message_store \<Rightarrow> auth_config \<Rightarrow> string \<Rightarrow> 's \<Rightarrow> (mediator_error + unit) \<times> 's" where
  "register_did_and_setup ops cfg did_hash s =
     on_result StoreError (ms_account_exists ops did_hash s) (\<lambda>exists s.
       if exists then (Inr (), s)
       else if get_local (cf_global_acl_default (au_base cfg))
       then on_result StoreError (ms_account_add ops did_hash (cf_global_acl_default (au_base cfg)) None s)
              (\<lambda>_ s. (Inr (), s))
       else (Inr (), s))"

definition issue_tokens ::
  "(string \<Rightarrow> string) \<Rightarrow> jwt_keys \<Rightarrow> auth_config \<Rightarrow> nat \<Rightarrow> string \<Rightarrow> string \<Rightarrow>
   mediator_error + authorization_response \<times> string" where
  \<comment> \<open>the access and the refresh token for a session, with the hash of the latter\<close>
  "issue_tokens digest keys cfg now did session_id =
     and_then (create_access_token keys did session_id (au_jwt_access_expiry cfg) now) (\<lambda>(access_token, access_exp).
     and_then (create_refresh_token digest keys did session_id (refresh_expiry cfg) now)
       (\<lambda>(refresh_token, refresh_exp, refresh_hash).
          Inr (\<lparr>tr_access_token = access_token, tr_access_expires_at = access_exp,
                tr_refresh_token = refresh_token, tr_refresh_expires_at = refresh_exp\<rparr>, refresh_hash)))"

definition authenticate_store ::
  "(string \<Rightarrow> string) \<Rightarrow> 's message_store \<Rightarrow> string \<Rightarrow> string \<Rightarrow> string \<Rightarrow> string \<Rightarrow> 's \<Rightarrow> (store_error + unit) \<times> 's" where
  "authenticate_store digest ops =
     update_session_authenticated digest (ms_get_session ops) (ms_delete_session ops) (ms_put_session ops)
       (ms_stats_increment ops)"

definition response_from_check :: "didcomm_message \<Rightarrow> meta_envelope \<Rightarrow> mediator_error option" where
  "response_from_check msg envelope =
     (case dm_from msg of
        Some msg_from \<Rightarrow>
          if msg_from \<noteq> (case en_from_did envelope of Some d \<Rightarrow> d | None \<Rightarrow> [])
          then Some (auth_problem 85 ''message.from.incorrect''
                 ''Inner DIDComm plaintext from field does NOT match signing or encryption DID'' [] 400)
          else None
      | None \<Rightarrow> Some (auth_problem 29 ''authentication.response.from''
                  ''inner message: Missing the `from` header'' [] 400))"

definition response_session_check :: "didcomm_message \<Rightarrow> session \<Rightarrow> mediator_error option" where
  "response_session_check msg session =
     (if (case dm_from msg of Some from_did \<Rightarrow> from_did \<noteq> ss_did session | None \<Rightarrow> False)
      then Some (auth_problem_log 33 ''authentication.session.mismatch''
             ''DID mismatch during authentication process'' [] 400
             (''DID mismatch during authentication process: first_did('' @ ss_did session @ '') second_did('' @
               (case dm_from msg of Some d \<Rightarrow> d | None \<Rightarrow> []) @ '')''))
      else if ss_state session \<noteq> ChallengeSent
      then Some (auth_problem 34 ''authentication.session.invalid''
             ''Session is in an invalid state to complete authentication'' [] 400)
      else None)"

definition reject_or :: "mediator_error option \<Rightarrow> 's \<Rightarrow> ('s \<Rightarrow> (mediator_error + 'b) \<times> 's) \<Rightarrow> (mediator_error + 'b) \<times> 's" where
  "reject_or e s k = (case e of Some x \<Rightarrow> (Inl x, s) | None \<Rightarrow> k s)"

definition complete_authentication ::
  "(string \<Rightarrow> string) \<Rightarrow> 's message_store \<Rightarrow> jwt_keys \<Rightarrow> auth_config \<Rightarrow> nat \<Rightarrow> string \<Rightarrow> session \<Rightarrow> 's \<Rightarrow>
   (mediator_error + string \<times> authorization_response) \<times> 's" where
  \<comment> \<open>after the checks: tokens for a fresh session id, the session renamed, the account registered\<close>
  "complete_authentication digest ops keys cfg now new_id session s =
     on_result id (issue_tokens digest keys cfg now (ss_did session) new_id, s) (\<lambda>(response, refresh_hash) s.
     on_result auth_storage_error
       (authenticate_store digest ops (ss_session_id session) new_id (ss_did session) refresh_hash s) (\<lambda>_ s.
     on_result id (register_did_and_setup ops cfg (ss_did_hash session) s) (\<lambda>_ s.
       (Inr (new_id, response), s))))"

definition authentication_response ::
  "(string \<Rightarrow> string) \<Rightarrow> 's message_store \<Rightarrow> jwt_keys \<Rightarrow> auth_config \<Rightarrow> nat \<Rightarrow> string \<Rightarrow> string + meta_envelope \<Rightarrow>
   's \<Rightarrow> (mediator_error + string \<times> authorization_response) \<times> 's" where
  \<comment> \<open>\<open>now\<close>: the clock; \<open>new_id\<close>: the random id of the authenticated session\<close>
  "authentication_response digest ops keys cfg now new_id parsed s =
     on_result (\<lambda>e. auth_problem_log 28 ''authentication.response.parse''
         (''authentication response couldn'' @ [CHR 0x27] @ ''t be parsed: {1}'') [e] 400
         (''authentication response couldn'' @ [CHR 0x27] @ ''t be parsed: '' @ e)) (parsed, s) (\<lambda>envelope s.
     require (en_authenticated envelope \<and> en_encrypted envelope)
       (not_signed_error (en_authenticated envelope) (en_encrypted envelope)) s (\<lambda>s.
     case en_from_did envelope of
       None \<Rightarrow> (Inl (auth_problem 29 ''authentication.response.from''
                  ''Authentication response message is missing the `from` header'' [] 400), s)
     | Some from_did \<Rightarrow>
         on_result auth_storage_error
           (authentication_check (ms_get_did_acls ops) (cf_mediator_acl_mode (au_base cfg))
              (cf_global_acl_default (au_base cfg)) (digest from_did) None s, s) (\<lambda>(allowed, _) s.
         require allowed (auth_problem 25 ''authentication.blocked'' ''DID is blocked'' [] 403) s (\<lambda>s.
         on_result id (unpack_auth_message envelope, s) (\<lambda>(msg, _) s.
         reject_or (response_from_check msg envelope) s (\<lambda>s.
         require (message_type_of (dm_typ msg) = AffinidiAuthenticate) (type_error (dm_typ msg)) s (\<lambda>s.
         on_result id (expiry_check now msg, s) (\<lambda>_ s.
         on_result (\<lambda>e. auth_problem_log 28 ''authentication.response.parse''
             (''authentication response couldn'' @ [CHR 0x27] @ ''t be parsed: {1}'') [e] 400
             (''authentication response couldn'' @ [CHR 0x27] @ ''t be parsed: '' @ e))
           (bd_challenge (dm_body msg), s) (\<lambda>(challenge, session_id) s.
         on_result auth_storage_error (ms_get_session ops session_id from_did s) (\<lambda>session s.
         reject_or (response_session_check msg session) s (\<lambda>s.
         complete_authentication digest ops keys cfg now new_id session s)))))))))))"

section \<open>Refresh\<close>

definition refresh_token_error :: "string \<Rightarrow> string \<Rightarrow> string list \<Rightarrow> nat \<Rightarrow> string \<Rightarrow> mediator_error" where
  "refresh_token_error descriptor comment args http_status log_msg =
     auth_problem_log 38 (''authentication.session.refresh_token.'' @ descriptor) comment args http_status log_msg"

definition show_session_state :: "session_state \<Rightarrow> string" where
  "show_session_state x = (case x of UnknownState \<Rightarrow> ''Unknown'' | ChallengeSent \<Rightarrow> ''ChallengeSent''
     | Authenticated \<Rightarrow> ''Authenticated'' | BlockedState \<Rightarrow> ''Blocked'')"

definition refresh_session_check :: "session \<Rightarrow> mediator_error option" where
  "refresh_session_check session =
     (if ss_state session \<noteq> Authenticated
      then Some (auth_problem_log 34 ''authentication.session.invalid''
             ''Session is in an invalid state to complete authentication. Should be Authenticated, instead is {1}''
             [show_session_state (ss_state session)] 400
             (''Session is in an invalid state to complete authentication. Should be Authenticated, instead is '' @
               show_session_state (ss_state session)))
      else if \<not> is_ok (require_capability (ss_acls session) NotBlocked)
      then Some (auth_problem 25 ''authentication.blocked'' ''DID is blocked'' [] 403)
      else None)"

definition presented_token :: "didcomm_message \<Rightarrow> mediator_error + string" where
  "presented_token msg =
     (case bd_refresh_token (dm_body msg) of
        None \<Rightarrow> Inl (refresh_token_error ''parse'' ''Failed to parse JWT refresh token: missing'' [] 400
                   ''Failed to parse JWT refresh token: missing'')
      | Some v \<Rightarrow> (case as_str v of
            Some t \<Rightarrow> Inr t
          | None \<Rightarrow> Inl (refresh_token_error ''parse'' ''Failed to parse JWT refresh token: not a string'' [] 400
                   ''Failed to parse JWT refresh token: not a string'')))"

definition authentication_refresh ::
  "(string \<Rightarrow> string) \<Rightarrow> 's message_store \<Rightarrow> jwt_keys \<Rightarrow> auth_config \<Rightarrow> nat \<Rightarrow> string + meta_envelope \<Rightarrow>
   's \<Rightarrow> (mediator_error + string \<times> authorization_response) \<times> 's" where
  "authentication_refresh digest ops keys cfg now parsed s =
     on_result (\<lambda>e. auth_problem_log 37 ''message.envelope.read'' (''Couldn'' @ [CHR 0x27] @ ''t read DIDComm envelope: {1}'')
         [e] 400 (''Couldn'' @ [CHR 0x27] @ ''t read DIDComm envelope: '' @ e)) (parsed, s) (\<lambda>envelope s.
     on_result id (unpack_auth_message envelope, s) (\<lambda>(msg, _) s.
     require (message_type_of (dm_typ msg) = AffinidiAuthenticateRefresh) (type_error (dm_typ msg)) s (\<lambda>s.
     on_result id (expiry_check now msg, s) (\<lambda>_ s.
     on_result id (presented_token msg, s) (\<lambda>refresh_token s.
     on_result (\<lambda>e. refresh_token_error ''parse'' ''Failed to decode JWT refresh token. Reason: {1}'' [e] 400
         (''Failed to decode JWT refresh token. Reason: '' @ e)) (jw_decode keys refresh_token, s) (\<lambda>claims s.
     require (\<not> jwt_exp_is_expired (cl_exp claims) now)
       (refresh_token_error ''expired'' ''Refresh token has expired'' [] 400 ''Refresh token has expired'') s (\<lambda>s.
     case en_from_did envelope of
       None \<Rightarrow> (Inl (auth_problem 39 ''authentication.message.from.missing''
                  ''DIDComm message is missing the from: header. Required for this transaction'' [] 400), s)
     | Some from_did \<Rightarrow>
         on_result auth_storage_error (ms_get_session ops (cl_session_id claims) from_did s) (\<lambda>session s.
         reject_or (refresh_session_check session) s (\<lambda>s.
         on_result auth_storage_error (get_refresh_token_hash (ms_get_session ops) (ss_session_id session) s)
           (\<lambda>stored_hash s.
         require (case stored_hash of Some stored \<Rightarrow> stored = digest refresh_token | None \<Rightarrow> True)
           (refresh_token_error ''reuse'' ''Refresh token has already been used (possible token replay)'' [] 401
             ''Refresh token has already been used (possible token replay)'') s (\<lambda>s.
         on_result id (issue_tokens digest keys cfg now (ss_did session) (ss_session_id session), s)
           (\<lambda>(response, new_hash) s.
         on_result auth_storage_error
           (update_refresh_token_hash (ms_get_session ops) (ms_put_session ops) (ss_session_id session) new_hash s)
           (\<lambda>_ s. (Inr (ss_session_id session, response), s))))))))))))))"

section \<open>Bearer tokens\<close>

datatype auth_error = WrongCredentials | MissingCredentials | InvalidToken | ExpiredToken
  | InternalServerError string | BlockedError

fun auth_error_status :: "auth_error \<Rightarrow> nat" where
  "auth_error_status (InternalServerError m) = 500"
| "auth_error_status _ = 401"

definition authenticate_token ::
  "'s message_store \<Rightarrow> jwt_keys \<Rightarrow> nat \<Rightarrow> string \<Rightarrow> 's \<Rightarrow> (auth_error + session) \<times> 's" where
  "authenticate_token ops keys now token s =
     (case jw_decode keys token of
        Inl _ \<Rightarrow> (Inl InvalidToken, s)
      | Inr claims \<Rightarrow>
          if jwt_exp_is_expired (cl_exp claims) now then (Inl ExpiredToken, s)
          else (case ms_get_session ops (cl_session_id claims) (cl_sub claims) s of
              (Inl e, s1) \<Rightarrow> (Inl (InternalServerError
                 (''Couldn'' @ [CHR 0x27] @ ''t get session from database! Reason: '' @ show_store_error e)), s1)
            | (Inr saved, s1) \<Rightarrow>
                if ss_did saved \<noteq> cl_sub claims then (Inl InvalidToken, s1)
                else if \<not> is_ok (require_capability (ss_acls saved) NotBlocked) then (Inl BlockedError, s1)
                else (Inr (saved\<lparr>ss_expires_at := cl_exp claims\<rparr>), s1)))"

definition anonymous_inbound_allowed :: "mediator_acl_set \<Rightarrow> bool" where
  "anonymous_inbound_allowed global_acl_default = grants global_acl_default SendForwarded"

definition relay_anonymous_acls :: mediator_acl_set where
  "relay_anonymous_acls =
     (case from_string_ruleset ''DENY_ALL,SEND_MESSAGES,SEND_FORWARDED'' of Inr a \<Rightarrow> a | Inl _ \<Rightarrow> default_acl_set)"

definition anonymous_session_for :: "auth_error \<Rightarrow> bool \<Rightarrow> mediator_acl_set \<Rightarrow> session option" where
  "anonymous_session_for err enable_relay_flag global_acl_default =
     (if err = MissingCredentials \<and> (enable_relay_flag \<or> anonymous_inbound_allowed global_acl_default)
      then Some (default_session\<lparr>ss_session_id := ''ANON-INBOUND'', ss_acls := relay_anonymous_acls\<rparr>)
      else None)"

definition session_from_request ::
  "'s message_store \<Rightarrow> jwt_keys \<Rightarrow> nat \<Rightarrow> bool \<Rightarrow> string option \<Rightarrow> 's \<Rightarrow> (auth_error + session) \<times> 's" where
  \<comment> \<open>\<open>peer\<close>: the request has a remote address; \<open>bearer\<close>: its bearer header\<close>
  "session_from_request ops keys now peer bearer s =
     (if \<not> peer then (Inl MissingCredentials, s)
      else (case bearer of None \<Rightarrow> (Inl MissingCredentials, s)
            | Some token \<Rightarrow> authenticate_token ops keys now token s))"

definition maybe_session ::
  "'s message_store \<Rightarrow> jwt_keys \<Rightarrow> auth_config \<Rightarrow> nat \<Rightarrow> bool \<Rightarrow> string option \<Rightarrow> 's \<Rightarrow> (auth_error + session) \<times> 's" where
  "maybe_session ops keys cfg now peer bearer s =
     (case session_from_request ops keys now peer bearer s of
        (Inr session, s1) \<Rightarrow> (Inr session, s1)
      | (Inl e, s1) \<Rightarrow>
          (case anonymous_session_for e (au_enable_inter_mediator_relay cfg) (cf_global_acl_default (au_base cfg)) of
             Some session \<Rightarrow> (Inr session, s1)
           | None \<Rightarrow> (Inl e, s1)))"

section \<open>TSP response\<close>

definition tsp_problem_for :: "string \<Rightarrow> nat \<Rightarrow> string \<Rightarrow> string \<Rightarrow> string list \<Rightarrow> nat \<Rightarrow> mediator_error" where
  "tsp_problem_for session_id code descriptor comment args http_status =
     problem code session_id None SorterError ScopeProtocol descriptor comment args http_status"

definition tsp_authentication_response ::
  "(string \<Rightarrow> string) \<Rightarrow> 's message_store \<Rightarrow> jwt_keys \<Rightarrow> auth_config \<Rightarrow> nat \<Rightarrow> string \<Rightarrow> string \<Rightarrow> string \<Rightarrow>
   string + string \<Rightarrow> string + string \<Rightarrow> (string \<Rightarrow> string \<Rightarrow> string \<Rightarrow> bool) \<Rightarrow> 's \<Rightarrow>
   (mediator_error + string \<times> authorization_response) \<times> 's" where
  \<comment> \<open>\<open>decoded\<close>: the decoded signature; \<open>resolved\<close>: the signing key of the VID; \<open>verify\<close>: the check of a
      signature over a message with a key\<close>
  "tsp_authentication_response digest ops keys cfg now new_id session_id vid decoded resolved verify s =
     require (is_prefix ''did:'' vid) (tsp_problem_for session_id 29 ''authentication.tsp.invalid_vid''
       ''TSP authentication requires a `did:`-based VID'' [] 400) s (\<lambda>s.
     on_result StoreError (ms_get_session ops session_id vid s) (\<lambda>session s.
     require (ss_state session = ChallengeSent) (tsp_problem_for session_id 34 ''authentication.session.state''
       ''Session is not awaiting a challenge response'' [] 401) s (\<lambda>s.
     require (ss_did session = vid) (tsp_problem_for session_id 33 ''authentication.session.mismatch''
       ''VID does not match the challenge session'' [] 401) s (\<lambda>s.
     on_result (\<lambda>e. tsp_problem_for session_id 28 ''authentication.tsp.signature.encoding''
       ''Signature is not valid base64url: {1}'' [e] 400) (decoded, s) (\<lambda>signature s.
     require (length signature = 64) (tsp_problem_for session_id 28 ''authentication.tsp.signature.length''
       ''Ed25519 signature must be 64 bytes'' [] 400) s (\<lambda>s.
     on_result (\<lambda>e. tsp_problem_for session_id 28 ''authentication.tsp.resolve''
       (''Couldn'' @ [CHR 0x27] @ ''t resolve the VID'' @ [CHR 0x27] @ ''s keys: {1}'') [e] 400) (resolved, s)
       (\<lambda>signing_key s.
     require (verify (ss_challenge session) signature signing_key)
       (tsp_problem_for session_id 32 ''authentication.tsp.signature.invalid''
         ''TSP challenge signature verification failed'' [] 401) s (\<lambda>s.
     on_result id (issue_tokens digest keys cfg now (ss_did session) new_id, s) (\<lambda>(response, refresh_hash) s.
     on_result StoreError
       (authenticate_store digest ops (ss_session_id session) new_id (ss_did session) refresh_hash s)
       (\<lambda>_ s. (Inr (new_id, response), s)))))))))))"

end
