(* ===== verification/AuthProperties.thy ===== *)
theory AuthProperties
  imports Authentication
begin

text \<open>
  What authentication guarantees on the in-memory store: the guards every issued pair of tokens has
  passed, that a challenge is answered once and a refresh token used once, which sessions a bearer
  token opens, and how little an anonymous relay may do.
\<close>

section \<open>Successful runs\<close>

lemma reject_or_Inr: "reject_or e s k = (Inr b, s') \<longleftrightarrow> e = None \<and> k s = (Inr b, s')"
  by (cases e) (simp_all add: reject_or_def)

lemma reject_or_None [simp]: "reject_or None s k = k s" "reject_or (Some e) s k = (Inl e, s)"
  by (simp_all add: reject_or_def)

lemmas success_simps = on_result_pure on_result_Inr require_Inr reject_or_Inr

lemma unpack_auth_message_Inr:
  "unpack_auth_message envelope = Inr (msg, metadata) \<longleftrightarrow>
     en_unpack envelope = Inr (msg, metadata) \<and> um_authenticated metadata \<and> um_encrypted metadata"
  by (auto simp: unpack_auth_message_def split: sum.splits prod.splits if_splits)

lemma expiry_check_Inr: "expiry_check now msg = Inr u \<longleftrightarrow> (\<exists>t > now. dm_expires_time msg = Some t)"
  by (auto simp: expiry_check_def split: option.splits)

lemma response_from_check_None:
  "response_from_check msg envelope = None \<longleftrightarrow> dm_from msg = Some (case en_from_did envelope of Some d \<Rightarrow> d | None \<Rightarrow> [])"
  by (auto simp: response_from_check_def split: option.splits)

lemma response_session_check_None:
  "dm_from msg = Some d \<Longrightarrow> response_session_check msg session = None \<longleftrightarrow> ss_did session = d \<and> ss_state session = ChallengeSent"
  by (auto simp: response_session_check_def)

lemma refresh_session_check_None:
  "refresh_session_check session = None \<longleftrightarrow> ss_state session = Authenticated \<and> grants (ss_acls session) NotBlocked"
  by (simp add: refresh_session_check_def require_capability_def)

lemma presented_token_Inr: "presented_token msg = Inr t \<longleftrightarrow> bd_refresh_token (dm_body msg) = Some (JString t)"
  by (auto simp: presented_token_def as_str_def split: option.splits json_value.splits)

definition claims_for :: "string \<Rightarrow> string \<Rightarrow> nat \<Rightarrow> session_claims" where
  "claims_for did session_id t = \<lparr>cl_aud = ''ATM'', cl_sub = did, cl_session_id = session_id, cl_exp = wrap_u64 t\<rparr>"

lemma claims_for_sel [simp]:
  "cl_aud (claims_for did i t) = ''ATM''" "cl_sub (claims_for did i t) = did"
  "cl_session_id (claims_for did i t) = i" "cl_exp (claims_for did i t) = wrap_u64 t"
  by (simp_all add: claims_for_def)

lemma issue_tokens_Inr:
  assumes "issue_tokens digest keys cfg now did i = Inr (tr, h)"
  shows "jw_encode keys (claims_for did i (now + au_jwt_access_expiry cfg)) = Inr (tr_access_token tr)"
    "jw_encode keys (claims_for did i (now + refresh_expiry cfg)) = Inr (tr_refresh_token tr)"
    "tr_access_expires_at tr = wrap_u64 (now + au_jwt_access_expiry cfg)"
    "tr_refresh_expires_at tr = wrap_u64 (now + refresh_expiry cfg)" "h = digest (tr_refresh_token tr)"
  using assms
  by (auto simp: issue_tokens_def and_then_Inr create_access_token_def create_refresh_token_def claims_for_def Let_def
      split: sum.splits)

section \<open>The session operations on a world\<close>

lemma get_session_world:
  "on_world (get_session digest t i d) w = (Inr x, w') \<longleftrightarrow>
     w' = w \<and> (\<exists>y. live_at t (wo_store w) i = Some y \<and>
       x = (if d = [] then y else (case accounts (wo_store w) (digest d) of None \<Rightarrow> y
           | Some a \<Rightarrow> y\<lparr>ss_acls := ar_acls a, ss_account_type := ar_role a\<rparr>)))"
  by (cases "live_at t (wo_store w) i") (auto simp: on_world_def get_session_result)

lemma update_session_authenticated_world:
  "update_session_authenticated digest (\<lambda>i d. on_world (get i d)) (\<lambda>i. on_world (del i)) (\<lambda>x n. on_world (put x n))
     (\<lambda>c n. on_world (stat c n)) old new did h w =
   on_world (update_session_authenticated digest get del put stat old new did h) w"
  by (simp add: update_session_authenticated_def on_world_def rename_session_fail_closed_def try_then_def
      try_return_def Let_def split: prod.splits sum.splits)

lemma update_refresh_token_hash_world:
  "update_refresh_token_hash (\<lambda>i d. on_world (get i d)) (\<lambda>x n. on_world (put x n)) i h w =
   on_world (update_refresh_token_hash get put i h) w"
  by (simp add: update_refresh_token_hash_def on_world_def Let_def split: prod.splits)

lemma get_refresh_token_hash_world:
  "get_refresh_token_hash (\<lambda>i d. on_world (get i d)) i w = on_world (get_refresh_token_hash get i) w"
  by (auto simp: get_refresh_token_hash_def on_world_def split: prod.splits sum.splits)

lemma memory_world_sessions:
  "ms_get_session (memory_world digest ck) = (\<lambda>i d. on_world (get_session digest (sk_secs ck) i d))"
  "ms_put_session (memory_world digest ck) = (\<lambda>x n. on_world (put_session (sk_secs ck) x n))"
  "ms_delete_session (memory_world digest ck) = (\<lambda>i. on_world (delete_session i))"
  "ms_stats_increment (memory_world digest ck) = (\<lambda>c n. on_world (stats_increment_ok c n))"
  "ms_get_did_acls (memory_world digest ck) = (\<lambda>ds m w. get_did_acls ds m (wo_store w))"
  by (simp_all add: memory_world_def)

lemma authenticated_memory:
  assumes "live_at t s old = Some y" "did = ss_did y"
    and "update_session_authenticated digest (get_session digest t) delete_session (put_session t)
      stats_increment_ok old new did h s = (res, s')"
  obtains x where "res = Inr ()" "accounts s' = accounts s"
    "\<And>v i. live_at v s' i = (if i = new then (if v < t + 86400 then Some x else None)
       else if i = old then None else live_at v s i)"
    "ss_session_id x = new" "ss_state x = Authenticated" "ss_authenticated x" "ss_did x = ss_did y"
    "ss_refresh_token_hash x = Some h"
proof -
  obtain a r where g: "get_session digest t old did s = (Inr (y\<lparr>ss_acls := a, ss_account_type := r\<rparr>), s)"
  proof (cases "did = [] \<or> accounts s (digest did) = None")
    case True
    then have "get_session digest t old did s = (Inr (y\<lparr>ss_acls := ss_acls y, ss_account_type := ss_account_type y\<rparr>), s)"
      using assms(1) by (auto simp: get_session_result)
    then show ?thesis by (rule that)
  next
    case False
    then show ?thesis using assms(1) that by (auto simp: get_session_result)
  qed
  let ?x = "authenticated_session digest (Inr (y\<lparr>ss_acls := a, ss_account_type := r\<rparr>) :: store_error + session) new did h"
  have x: "ss_session_id ?x = new" "ss_state ?x = Authenticated" "ss_authenticated ?x" "ss_did ?x = ss_did y"
    "ss_refresh_token_hash ?x = Some h"
    using assms(2) by (simp_all add: authenticated_session_def Let_def)
  have s': "res = Inr ()" "accounts s' = accounts s"
    "live_at v s' i = (if i = new then (if v < t + 86400 then Some ?x else None)
       else if i = old then None else live_at v s i)" for v i
    using assms(3) x(1)
    by (auto simp: update_session_authenticated_def g rename_session_fail_closed_def try_then_def try_return_def
        delete_session_def put_session_def stats_increment_ok_def stats_increment_def live_at_def
        AList.delete_conv' AList.update_conv' split: if_splits)
  show ?thesis by (rule that [OF s' x])
qed

lemma register_live:
  assumes "register_did_and_setup (memory_world digest ck) cfg d w = (Inr u, w')"
  shows "live_at v (wo_store w') = live_at v (wo_store w)"
    "accounts (wo_store w) k = Some a \<Longrightarrow> accounts (wo_store w') k = Some a"
  using assms
  by (auto simp: account_exists_def register_did_and_setup_def on_result_Inr account_add_def Let_def live_at_def on_world_def fun_eq_iff
      split: if_splits)

lemma complete_authentication_memory:
  assumes "complete_authentication digest (memory_world digest ck) keys cfg now new_id session w = (Inr (i, tr), w')"
    and "live_at (sk_secs ck) (wo_store w) (ss_session_id session) = Some y" "ss_did session = ss_did y"
  obtains x where "i = new_id" "issue_tokens digest keys cfg now (ss_did session) new_id = Inr (tr, digest (tr_refresh_token tr))"
    "\<And>v j. live_at v (wo_store w') j = (if j = new_id then (if v < sk_secs ck + 86400 then Some x else None)
       else if j = ss_session_id session then None else live_at v (wo_store w) j)"
    "ss_session_id x = new_id" "ss_state x = Authenticated" "ss_authenticated x" "ss_did x = ss_did y"
    "ss_refresh_token_hash x = Some (digest (tr_refresh_token tr))"
    "\<And>k a. accounts (wo_store w) k = Some a \<Longrightarrow> accounts (wo_store w') k = Some a"
proof -
  obtain h u w1 where h: "i = new_id" "issue_tokens digest keys cfg now (ss_did session) new_id = Inr (tr, h)"
      "authenticate_store digest (memory_world digest ck) (ss_session_id session) new_id (ss_did session) h w = (Inr u, w1)"
      "register_did_and_setup (memory_world digest ck) cfg (ss_did_hash session) w1 = (Inr (), w')"
    using assms(1) by (auto simp: complete_authentication_def success_simps split: prod.splits)
  let ?up = "update_session_authenticated digest (get_session digest (sk_secs ck)) delete_session
      (put_session (sk_secs ck)) stats_increment_ok (ss_session_id session) new_id (ss_did session) h (wo_store w)"
  have "?up = (Inr (), wo_store w1)"
    using h(3) by (auto simp: authenticate_store_def memory_world_sessions update_session_authenticated_world
        on_world_def split: prod.splits)
  from authenticated_memory [OF assms(2,3) this] obtain x where
    "accounts (wo_store w1) = accounts (wo_store w)"
    "\<And>v j. live_at v (wo_store w1) j = (if j = new_id then (if v < sk_secs ck + 86400 then Some x else None)
       else if j = ss_session_id session then None else live_at v (wo_store w) j)"
    "ss_session_id x = new_id" "ss_state x = Authenticated" "ss_authenticated x" "ss_did x = ss_did y"
    "ss_refresh_token_hash x = Some h" by metis
  then show ?thesis using that [of x] h(1,2) issue_tokens_Inr(5) [OF h(2)] register_live [OF h(4)] by simp
qed

section \<open>Answering the challenge\<close>

lemma authentication_response_Inr:
  "authentication_response digest ops keys cfg now new_id parsed s = (Inr r, s') \<longleftrightarrow>
     (\<exists>envelope did known msg metadata challenge sid session s1.
        parsed = Inr envelope \<and> en_authenticated envelope \<and> en_encrypted envelope \<and> en_from_did envelope = Some did \<and>
        authentication_check (ms_get_did_acls ops) (cf_mediator_acl_mode (au_base cfg))
          (cf_global_acl_default (au_base cfg)) (digest did) None s = Inr (True, known) \<and>
        en_unpack envelope = Inr (msg, metadata) \<and> um_authenticated metadata \<and> um_encrypted metadata \<and>
        dm_from msg = Some did \<and> message_type_of (dm_typ msg) = AffinidiAuthenticate \<and>
        (\<exists>t > now. dm_expires_time msg = Some t) \<and> bd_challenge (dm_body msg) = Inr (challenge, sid) \<and>
        ms_get_session ops sid did s = (Inr session, s1) \<and> ss_did session = did \<and> ss_state session = ChallengeSent \<and>
        complete_authentication digest ops keys cfg now new_id session s1 = (Inr r, s'))"
proof (cases parsed)
  case (Inr envelope)
  show ?thesis
  proof (cases "en_from_did envelope")
    case (Some did)
    show ?thesis
      unfolding authentication_response_def Inr
      by (auto simp: Some success_simps unpack_auth_message_Inr expiry_check_Inr response_from_check_None
          response_session_check_None split: prod.splits)
  qed (auto simp: authentication_response_def Inr success_simps)
qed (simp add: authentication_response_def)

lemma live_session_id:
  assumes "reachable digest s" "live_at v s i = Some x"
  shows "ss_session_id x = i"
  using reachable_inv [OF assms(1)] live_atD [OF assms(2)] by (auto simp: store_inv_def store_inv_at_def sessions_keyed_def)

lemma get_session_found:
  assumes "reachable digest (wo_store w)"
    and "ms_get_session (memory_world digest ck) i d w = (Inr session, w')"
  obtains y where "w' = w" "live_at (sk_secs ck) (wo_store w) i = Some y" "ss_session_id session = i"
    "ss_did session = ss_did y" "ss_state session = ss_state y" "ss_refresh_token_hash session = ss_refresh_token_hash y"
    "d \<noteq> [] \<Longrightarrow> accounts (wo_store w) (digest d) = Some a \<Longrightarrow> ss_acls session = ar_acls a"
proof -
  obtain y where y: "live_at (sk_secs ck) (wo_store w) i = Some y"
    "session = (if d = [] then y else (case accounts (wo_store w) (digest d) of None \<Rightarrow> y
           | Some a \<Rightarrow> y\<lparr>ss_acls := ar_acls a, ss_account_type := ar_role a\<rparr>))" "w' = w"
    using assms(2) by (auto simp: memory_world_sessions get_session_world)
  with live_session_id [OF assms(1) y(1)] show ?thesis
    by (intro that [of y]) (auto split: option.splits)
qed

text \<open>C3. Tokens are issued for an answered challenge only when the envelope was signed and encrypted by a
  DID that is not blocked, its message is an unexpired authentication message from that DID, and it names a
  live session in which that DID was sent a challenge. Afterwards the challenge session is gone, and for the next
  24 hours the fresh id names an authenticated session of the same DID bound to the refresh token that was issued.\<close>
theorem authentication_response_sound:
  assumes "reachable digest (wo_store w)" "v < sk_secs ck + 86400"
    and "authentication_response digest (memory_world digest ck) keys cfg now new_id (Inr envelope) w = (Inr (i, tr), w')"
  shows "\<exists>did msg metadata challenge sid y x.
    en_authenticated envelope \<and> en_encrypted envelope \<and> en_from_did envelope = Some did \<and>
    grants (case accounts (wo_store w) (digest did) of Some a \<Rightarrow> ar_acls a
      | None \<Rightarrow> cf_global_acl_default (au_base cfg)) NotBlocked \<and>
    en_unpack envelope = Inr (msg, metadata) \<and> um_authenticated metadata \<and> um_encrypted metadata \<and>
    dm_from msg = Some did \<and> message_type_of (dm_typ msg) = AffinidiAuthenticate \<and>
    (\<exists>t > now. dm_expires_time msg = Some t) \<and> bd_challenge (dm_body msg) = Inr (challenge, sid) \<and>
    live_at (sk_secs ck) (wo_store w) sid = Some y \<and> ss_did y = did \<and> ss_state y = ChallengeSent \<and>
    i = new_id \<and> (sid \<noteq> new_id \<longrightarrow> live_at v (wo_store w') sid = None) \<and>
    live_at v (wo_store w') new_id = Some x \<and> ss_state x = Authenticated \<and> ss_did x = did \<and>
    ss_refresh_token_hash x = Some (digest (tr_refresh_token tr))"
proof -
  from assms(3) obtain did known msg metadata challenge sid session w1 where
    e: "en_authenticated envelope" "en_encrypted envelope" "en_from_did envelope = Some did"
      "authentication_check (ms_get_did_acls (memory_world digest ck)) (cf_mediator_acl_mode (au_base cfg))
          (cf_global_acl_default (au_base cfg)) (digest did) None w = Inr (True, known)"
      "en_unpack envelope = Inr (msg, metadata)" "um_authenticated metadata" "um_encrypted metadata"
      "dm_from msg = Some did" "message_type_of (dm_typ msg) = AffinidiAuthenticate"
      "\<exists>t > now. dm_expires_time msg = Some t" "bd_challenge (dm_body msg) = Inr (challenge, sid)"
    and g: "ms_get_session (memory_world digest ck) sid did w = (Inr session, w1)"
    and c: "ss_did session = did" "ss_state session = ChallengeSent"
      "complete_authentication digest (memory_world digest ck) keys cfg now new_id session w1 = (Inr (i, tr), w')"
    unfolding authentication_response_Inr by auto
  obtain y where y: "w1 = w" "live_at (sk_secs ck) (wo_store w) sid = Some y" "ss_session_id session = sid"
      "ss_did y = did" "ss_state y = ChallengeSent"
    using get_session_found [OF assms(1) g] c(1,2) by metis
  from c(1,3) y have "complete_authentication digest (memory_world digest ck) keys cfg now new_id session w = (Inr (i, tr), w')"
    "live_at (sk_secs ck) (wo_store w) (ss_session_id session) = Some y" "ss_did session = ss_did y" by simp_all
  then obtain x where x: "i = new_id"
      "\<And>v j. live_at v (wo_store w') j = (if j = new_id then (if v < sk_secs ck + 86400 then Some x else None)
       else if j = ss_session_id session then None else live_at v (wo_store w) j)"
      "ss_state x = Authenticated" "ss_did x = ss_did y" "ss_refresh_token_hash x = Some (digest (tr_refresh_token tr))"
    by (rule complete_authentication_memory) iprover
  have live: "sid \<noteq> new_id \<longrightarrow> live_at v (wo_store w') sid = None" "live_at v (wo_store w') new_id = Some x"
    using x(2) assms(2) y(3) by simp_all
  have "grants (case accounts (wo_store w) (digest did) of Some a \<Rightarrow> ar_acls a
      | None \<Rightarrow> cf_global_acl_default (au_base cfg)) NotBlocked"
    using e(4) by (auto simp: authentication_check_def memory_world_sessions get_did_acls_def and_then_def split: option.splits)
  with e y x(1,3-5) live show ?thesis by auto
qed

section \<open>A concrete token format\<close>

definition write_text :: "string \<Rightarrow> string" where
  "write_text s = concat (map (\<lambda>c. [CHR 0x01, c]) s) @ [CHR 0x00]"

fun read_text :: "string \<Rightarrow> (string \<times> string) option" where
  "read_text (m # r) =
     (if m = CHR 0x00 then Some ([], r)
      else (case r of c # r' \<Rightarrow> map_option (\<lambda>(s, t). (c # s, t)) (read_text r') | [] \<Rightarrow> None))"
| "read_text [] = None"

definition sample_token :: "session_claims \<Rightarrow> string" where
  "sample_token c = write_text (cl_sub c) @ write_text (cl_session_id c) @ replicate (cl_exp c) (CHR 0x31)"

definition sample_claims :: "string \<Rightarrow> session_claims option" where
  "sample_claims t = (case read_text t of None \<Rightarrow> None | Some (sub, t1) \<Rightarrow>
     (case read_text t1 of None \<Rightarrow> None | Some (i, t2) \<Rightarrow>
        Some \<lparr>cl_aud = ''ATM'', cl_sub = sub, cl_session_id = i, cl_exp = length t2\<rparr>))"

definition sample_keys :: jwt_keys where
  "sample_keys = \<lparr>jw_encode = (\<lambda>c. Inr (sample_token c)),
     jw_decode = (\<lambda>t. case sample_claims t of Some c \<Rightarrow> Inr c | None \<Rightarrow> Inl ''malformed'')\<rparr>"

lemma read_write_text: "read_text (write_text s @ t) = Some (s, t)"
  by (induction s) (simp_all add: write_text_def)

lemma sample_keys_faithful: "jwt_faithful sample_keys"
  by (auto simp: jwt_faithful_def sample_keys_def sample_claims_def sample_token_def read_write_text)

definition sample_auth_config :: auth_config where
  "sample_auth_config = \<lparr>au_base = \<lparr>cf_mediator_did = ''did:m'', cf_mediator_did_hash = ''did:m'', cf_admin_did = ''did:r'',
       cf_admin_messages_expiry = 1, cf_block_remote_admin_msgs = False, cf_mediator_acl_mode = ExplicitDeny,
       cf_global_acl_default = default_acl_set, cf_access_list_limit = 10, cf_queued_send_messages_hard = 10,
       cf_queued_receive_messages_hard = 10\<rparr>, au_jwt_access_expiry = 5, au_jwt_refresh_expiry = 50,
     au_enable_inter_mediator_relay = False\<rparr>"

definition sample_world :: world where
  "sample_world = \<lparr>wo_store = snd (put_session 50 sample_session 900
     (snd (account_add ''did:a'' default_acl_set None empty_state))), wo_channels = [], wo_published = []\<rparr>"

definition sample_body :: message_body where
  "sample_body = \<lparr>bd_challenge = Inr (''x'', ''c''), bd_refresh_token = None, bd_status_request = Inl [],
     bd_live_delivery = Inl [], bd_delivery_request = Inl [], bd_messages_received = Inl [], bd_forward = Inl [],
     bd_ping = Inl [], bd_queries = Inl []\<rparr>"

definition sample_auth_message :: didcomm_message where
  "sample_auth_message = \<lparr>dm_id = ''1'', dm_typ = ''https://affinidi.com/atm/1.0/authenticate'', dm_from = Some ''did:a'',
     dm_to = None, dm_body = sample_body, dm_thid = None, dm_created_time = None, dm_expires_time = Some 200,
     dm_attachments = None, dm_extra = Map.empty\<rparr>"

definition sample_envelope :: "didcomm_message \<Rightarrow> meta_envelope" where
  "sample_envelope msg = \<lparr>en_authenticated = True, en_encrypted = True, en_from_did = dm_from msg, en_to_did = Some ''did:m'',
     en_unpack = Inr (msg, \<lparr>um_encrypted = True, um_authenticated = True, um_encrypted_from_kid = None,
       um_sign_from = None\<rparr>)\<rparr>"

definition sample_response :: "world \<Rightarrow> (mediator_error + string \<times> authorization_response) \<times> world" where
  "sample_response = authentication_response (\<lambda>b. b) (memory_world (\<lambda>b. b) \<lparr>sk_ms = 100000, sk_secs = 100\<rparr>) sample_keys
     sample_auth_config 100 ''n'' (Inr (sample_envelope sample_auth_message))"

lemmas sample_defs = sample_auth_config_def sample_world_def sample_body_def sample_auth_message_def
  sample_envelope_def sample_keys_def sample_session_def

lemma sample_types: "message_type_of ''https://affinidi.com/atm/1.0/authenticate'' = AffinidiAuthenticate"
  "message_type_of ''https://affinidi.com/atm/1.0/authenticate/refresh'' = AffinidiAuthenticateRefresh"
  by (simp_all add: message_type_of_def message_types_def)

lemma default_not_blocked: "\<not> get_blocked default_acl_set"
  by code_simp

lemma sample_world_live: "live_at t (wo_store sample_world) i =
    (if i = ''c'' \<and> t < 950 then Some sample_session else None)"
  by (simp add: sample_world_def put_session_def live_at_def empty_state_def sample_session_def account_add_def Let_def)

lemma sample_world_accounts: "accounts (wo_store sample_world) =
    [''did:a'' \<mapsto> default_account_record\<lparr>ar_acls := default_acl_set\<rparr>]"
  by (simp add: sample_world_def put_session_def empty_state_def account_add_def Let_def)

lemma sample_world_reachable: "reachable digest (wo_store sample_world)"
  unfolding sample_world_def world.simps
  by (intro reachable_step [OF reachable_step [OF reachable_new step_account_add] step_put_session])

lemma issue_tokens_ok:
  assumes "\<And>c. \<exists>t. jw_encode keys c = Inr t"
  shows "\<exists>tr. issue_tokens digest keys cfg now did i = Inr (tr, digest (tr_refresh_token tr))"
proof -
  obtain t1 t2 where "jw_encode keys \<lparr>cl_aud = ''ATM'', cl_sub = did, cl_session_id = i, cl_exp = wrap_u64 (now + au_jwt_access_expiry cfg)\<rparr> = Inr t1"
    "jw_encode keys \<lparr>cl_aud = ''ATM'', cl_sub = did, cl_session_id = i, cl_exp = wrap_u64 (now + refresh_expiry cfg)\<rparr> = Inr t2"
    using assms by metis
  then show ?thesis
    by (intro exI [of _ "\<lparr>tr_access_token = t1, tr_access_expires_at = wrap_u64 (now + au_jwt_access_expiry cfg),
          tr_refresh_token = t2, tr_refresh_expires_at = wrap_u64 (now + refresh_expiry cfg)\<rparr>"])
      (simp add: issue_tokens_def create_access_token_def create_refresh_token_def and_then_def Let_def)
qed

lemma authenticate_store_ok: "\<exists>w'. authenticate_store digest (memory_world digest ck) old new did h w = (Inr (), w')"
  by (simp add: authenticate_store_def memory_world_sessions update_session_authenticated_world on_world_def
      update_session_authenticated_def rename_session_fail_closed_def try_then_def try_return_def delete_session_def
      put_session_def stats_increment_ok_def split: prod.splits)

lemma register_ok: "\<exists>w'. register_did_and_setup (memory_world digest ck) cfg d w = (Inr (), w')"
  by (simp add: register_did_and_setup_def on_world_ok)

lemma complete_authentication_ok:
  assumes "issue_tokens digest keys cfg now (ss_did session) new_id = Inr (tr, h)"
  shows "\<exists>w'. complete_authentication digest (memory_world digest ck) keys cfg now new_id session w = (Inr (new_id, tr), w')"
proof -
  obtain w1 where "authenticate_store digest (memory_world digest ck) (ss_session_id session) new_id (ss_did session) h w =
      (Inr (), w1)"
    using authenticate_store_ok by blast
  moreover obtain w2 where "register_did_and_setup (memory_world digest ck) cfg (ss_did_hash session) w1 = (Inr (), w2)"
    using register_ok by blast
  ultimately show ?thesis by (simp add: complete_authentication_def assms)
qed

lemma sample_response_ok:
  "\<exists>tr w'. sample_response sample_world = (Inr (''n'', tr), w') \<and>
     issue_tokens (\<lambda>b. b) sample_keys sample_auth_config 100 ''did:a'' ''n'' = Inr (tr, tr_refresh_token tr) \<and>
     accounts (wo_store w') ''did:a'' = Some (default_account_record\<lparr>ar_acls := default_acl_set\<rparr>)"
proof -
  let ?ck = "\<lparr>sk_ms = 100000, sk_secs = 100\<rparr>"
  let ?x = "sample_session\<lparr>ss_acls := default_acl_set, ss_account_type := ar_role default_account_record\<rparr>"
  obtain tr where t: "issue_tokens (\<lambda>b. b) sample_keys sample_auth_config 100 ''did:a'' ''n'' = Inr (tr, tr_refresh_token tr)"
    using issue_tokens_ok [of sample_keys "\<lambda>b. b" sample_auth_config 100 "''did:a''" "''n''"] by (auto simp: sample_keys_def)
  have d: "ss_did sample_session = ''did:a''" "ss_state sample_session = ChallengeSent"
    "ss_session_id sample_session = ''c''" by (simp_all add: sample_session_def)
  obtain w' where c: "complete_authentication (\<lambda>b. b) (memory_world (\<lambda>b. b) ?ck) sample_keys
      sample_auth_config 100 ''n'' ?x sample_world = (Inr (''n'', tr), w')"
    using complete_authentication_ok [of "\<lambda>b. b" sample_keys sample_auth_config 100 ?x "''n''" tr _ ?ck sample_world] t d(1)
    by auto
  then have "accounts (wo_store w') ''did:a'' = Some (default_account_record\<lparr>ar_acls := default_acl_set\<rparr>)"
    by (rule complete_authentication_memory) (auto simp: sample_world_live sample_world_accounts d)
  moreover have "sample_response sample_world = (Inr (''n'', tr), w')"
    unfolding sample_response_def authentication_response_Inr
    using c by (simp add: sample_envelope_def sample_auth_message_def sample_body_def sample_types memory_world_sessions
        get_session_world sample_world_live sample_world_accounts d authentication_check_def get_did_acls_def
        and_then_def default_not_blocked map_filter_simps ex_bool_eq)
  ultimately show ?thesis using t by blast
qed

theorem authentication_response_sound_witness:
  "\<exists>tr w'. sample_response sample_world = (Inr (''n'', tr), w') \<and> live_at 86499 (wo_store w') ''c'' = None \<and>
     (\<exists>x. live_at 86499 (wo_store w') ''n'' = Some x \<and> ss_state x = Authenticated \<and> ss_did x = ''did:a'')"
proof -
  obtain tr w' where r: "sample_response sample_world = (Inr (''n'', tr), w')" using sample_response_ok by blast
  have "86499 < sk_secs \<lparr>sk_ms = 100000, sk_secs = 100\<rparr> + 86400" by simp
  from authentication_response_sound [OF sample_world_reachable this r [unfolded sample_response_def]]
  have "live_at 86499 (wo_store w') ''c'' = None"
    "\<exists>x. live_at 86499 (wo_store w') ''n'' = Some x \<and> ss_state x = Authenticated \<and> ss_did x = ''did:a''"
    by (auto simp: sample_envelope_def sample_auth_message_def sample_body_def)
  with r show ?thesis by blast
qed

lemma body_irrelevant:
  "response_from_check (msg\<lparr>dm_body := b\<rparr>) (envelope\<lparr>en_unpack := u\<rparr>) = response_from_check msg envelope"
  "response_session_check (msg\<lparr>dm_body := b\<rparr>) session = response_session_check msg session"
  "expiry_check now (msg\<lparr>dm_body := b\<rparr>) = expiry_check now msg"
  by (auto simp: response_from_check_def response_session_check_def expiry_check_def split: option.split)

text \<open>The text of the challenge plays no part in the DIDComm response: replacing it by any other leaves
  the outcome of \<open>authentication_response\<close>, on every store, unchanged. What the response proves is that the
  sender knows the session id.\<close>
theorem challenge_text_ignored:
  assumes "en_unpack envelope = Inr (msg, metadata)" "bd_challenge (dm_body msg) = Inr (challenge, sid)"
  shows "authentication_response digest ops keys cfg now new_id (Inr (envelope\<lparr>en_unpack :=
      Inr (msg\<lparr>dm_body := (dm_body msg)\<lparr>bd_challenge := Inr (other, sid)\<rparr>\<rparr>, metadata)\<rparr>)) s =
    authentication_response digest ops keys cfg now new_id (Inr envelope) s"
  using assms
  by (cases "um_authenticated metadata"; cases "um_encrypted metadata"; cases "en_from_did envelope")
    (simp_all add: authentication_response_def unpack_auth_message_def body_irrelevant)

theorem challenge_text_ignored_witness:
  "bd_challenge sample_body = Inr (''x'', ''c'') \<and> ss_challenge sample_session = [] \<and>
   is_ok (fst (authentication_response (\<lambda>b. b) (memory_world (\<lambda>b. b) \<lparr>sk_ms = 100000, sk_secs = 100\<rparr>) sample_keys
     sample_auth_config 100 ''n'' (Inr ((sample_envelope sample_auth_message)\<lparr>en_unpack :=
       Inr (sample_auth_message\<lparr>dm_body := (dm_body sample_auth_message)\<lparr>bd_challenge := Inr (''wrong'', ''c'')\<rparr>\<rparr>,
         \<lparr>um_encrypted = True, um_authenticated = True, um_encrypted_from_kid = None, um_sign_from = None\<rparr>)\<rparr>))
     sample_world))"
proof -
  have "en_unpack (sample_envelope sample_auth_message) = Inr (sample_auth_message,
      \<lparr>um_encrypted = True, um_authenticated = True, um_encrypted_from_kid = None, um_sign_from = None\<rparr>)"
    and "bd_challenge (dm_body sample_auth_message) = Inr (''x'', ''c'')"
    by (simp_all add: sample_envelope_def sample_auth_message_def sample_body_def)
  note eq = challenge_text_ignored [OF this]
  obtain tr w' where "sample_response sample_world = (Inr (''n'', tr), w')" using sample_response_ok by blast
  then show ?thesis
    unfolding eq by (simp add: sample_response_def sample_body_def sample_session_def default_session_def)
qed

section \<open>Refreshing\<close>

lemma stored_matches: "(case stored of Some h \<Rightarrow> h = d | None \<Rightarrow> True) \<longleftrightarrow> stored = None \<or> stored = Some d"
  by (cases stored) auto

lemma authentication_refresh_Inr:
  "authentication_refresh digest ops keys cfg now parsed s = (Inr (i, tr), s') \<longleftrightarrow>
     (\<exists>envelope did msg metadata token claims session s1 stored s2 h.
        parsed = Inr envelope \<and> en_unpack envelope = Inr (msg, metadata) \<and> um_authenticated metadata \<and>
        um_encrypted metadata \<and> message_type_of (dm_typ msg) = AffinidiAuthenticateRefresh \<and>
        (\<exists>t > now. dm_expires_time msg = Some t) \<and> bd_refresh_token (dm_body msg) = Some (JString token) \<and>
        jw_decode keys token = Inr claims \<and> \<not> jwt_exp_is_expired (cl_exp claims) now \<and>
        en_from_did envelope = Some did \<and> ms_get_session ops (cl_session_id claims) did s = (Inr session, s1) \<and>
        ss_state session = Authenticated \<and> grants (ss_acls session) NotBlocked \<and>
        get_refresh_token_hash (ms_get_session ops) (ss_session_id session) s1 = (Inr stored, s2) \<and>
        (stored = None \<or> stored = Some (digest token)) \<and>
        issue_tokens digest keys cfg now (ss_did session) (ss_session_id session) = Inr (tr, h) \<and>
        i = ss_session_id session \<and>
        update_refresh_token_hash (ms_get_session ops) (ms_put_session ops) (ss_session_id session) h s2 = (Inr (), s'))"
proof (cases parsed)
  case (Inr envelope)
  show ?thesis
  proof (cases "en_from_did envelope")
    case (Some did)
    show ?thesis
      unfolding authentication_refresh_def Inr
      by (auto simp: Some success_simps unpack_auth_message_Inr expiry_check_Inr refresh_session_check_None
          presented_token_Inr stored_matches split: prod.splits)
  qed (auto simp: authentication_refresh_def Inr success_simps)
qed (simp add: authentication_refresh_def)

lemma update_refresh_memory:
  assumes "live_at t s i = Some y" "ss_session_id y = i"
    and "update_refresh_token_hash (get_session digest t) (put_session t) i h s = (res, s')"
  shows "res = Inr ()" "accounts s' = accounts s"
    "live_at v s' j = (if j = i then (if v < t + 86400 then Some (y\<lparr>ss_refresh_token_hash := Some h\<rparr>) else None)
       else live_at v s j)"
    "s' = snd (put_session t (y\<lparr>ss_refresh_token_hash := Some h\<rparr>) 86400 s)"
  using assms
  by (auto simp: update_refresh_token_hash_def get_session_result put_session_def live_at_def AList.update_conv')

lemma refresh_memory:
  assumes "reachable digest (wo_store w)"
    and "authentication_refresh digest (memory_world digest ck) keys cfg now (Inr envelope) w = (Inr (i, tr), w')"
  obtains did msg metadata token claims y where
    "en_unpack envelope = Inr (msg, metadata)" "um_authenticated metadata" "um_encrypted metadata"
    "en_from_did envelope = Some did" "bd_refresh_token (dm_body msg) = Some (JString token)"
    "jw_decode keys token = Inr claims" "\<not> jwt_exp_is_expired (cl_exp claims) now" "i = cl_session_id claims"
    "live_at (sk_secs ck) (wo_store w) i = Some y" "ss_state y = Authenticated"
    "ss_refresh_token_hash y = None \<or> ss_refresh_token_hash y = Some (digest token)"
    "issue_tokens digest keys cfg now (ss_did y) i = Inr (tr, digest (tr_refresh_token tr))"
    "accounts (wo_store w') = accounts (wo_store w)" "reachable digest (wo_store w')"
    "\<And>v j. live_at v (wo_store w') j = (if j = i then (if v < sk_secs ck + 86400
        then Some (y\<lparr>ss_refresh_token_hash := Some (digest (tr_refresh_token tr))\<rparr>) else None)
       else live_at v (wo_store w) j)"
proof -
  from assms(2) obtain did msg metadata token claims session w1 stored w2 h where
    e: "en_unpack envelope = Inr (msg, metadata)" "um_authenticated metadata" "um_encrypted metadata"
      "en_from_did envelope = Some did" "bd_refresh_token (dm_body msg) = Some (JString token)"
      "jw_decode keys token = Inr claims" "\<not> jwt_exp_is_expired (cl_exp claims) now"
    and g: "ms_get_session (memory_world digest ck) (cl_session_id claims) did w = (Inr session, w1)"
    and c: "ss_state session = Authenticated" "i = ss_session_id session"
      "issue_tokens digest keys cfg now (ss_did session) i = Inr (tr, h)"
    and r: "get_refresh_token_hash (ms_get_session (memory_world digest ck)) i w1 = (Inr stored, w2)"
      "stored = None \<or> stored = Some (digest token)"
    and u: "update_refresh_token_hash (ms_get_session (memory_world digest ck)) (ms_put_session (memory_world digest ck))
       i h w2 = (Inr (), w')"
    unfolding authentication_refresh_Inr by auto
  obtain y where y: "w1 = w" "live_at (sk_secs ck) (wo_store w) (cl_session_id claims) = Some y"
      "ss_session_id session = cl_session_id claims" "ss_did session = ss_did y" "ss_state session = ss_state y"
    using get_session_found [OF assms(1) g] by metis
  have live: "live_at (sk_secs ck) (wo_store w) i = Some y" using y(2,3) c(2) by simp
  have s: "w2 = w" "stored = ss_refresh_token_hash y"
    using r(1) live y(1)
    by (auto simp: memory_world_sessions get_refresh_token_hash_world get_refresh_token_hash_def on_world_def
        get_session_result)
  have "update_refresh_token_hash (get_session digest (sk_secs ck)) (put_session (sk_secs ck)) i h (wo_store w) =
      (Inr (), wo_store w')"
    using u s(1) by (auto simp: memory_world_sessions update_refresh_token_hash_world on_world_def split: prod.splits)
  note up = update_refresh_memory [OF live live_session_id [OF assms(1) live] this]
  have h: "h = digest (tr_refresh_token tr)" using issue_tokens_Inr(5) [OF c(3)] .
  show ?thesis
  proof (rule that [OF e _ live])
    show "i = cl_session_id claims" "ss_state y = Authenticated" using y c by simp_all
    show "ss_refresh_token_hash y = None \<or> ss_refresh_token_hash y = Some (digest token)" using r(2) s(2) by simp
    show "issue_tokens digest keys cfg now (ss_did y) i = Inr (tr, digest (tr_refresh_token tr))" using c(3) y(4) h by simp
    show "reachable digest (wo_store w')" using assms(1) up(4) reachable_step step_put_session by metis
  qed (use up(1-3) h in auto)
qed

text \<open>C14. Refresh tokens rotate: in the state a successful refresh leaves, no message presenting the same token is
  served again, whoever sends it and however late, provided the digest tells the old token from the new one.\<close>
theorem refresh_token_single_use:
  assumes "reachable digest (wo_store w)" "en_unpack envelope = Inr (msg, metadata)"
    and "authentication_refresh digest (memory_world digest ck) keys cfg now (Inr envelope) w = (Inr (i, tr), w')"
    and "en_unpack later = Inr (msg', metadata')"
    and "bd_refresh_token (dm_body msg') = bd_refresh_token (dm_body msg)"
    and "bd_refresh_token (dm_body msg) = Some (JString token)" "digest (tr_refresh_token tr) \<noteq> digest token"
  shows "\<not> is_ok (fst (authentication_refresh digest (memory_world digest ck') keys cfg' now' (Inr later) w'))"
proof
  obtain claims y where c: "jw_decode keys token = Inr claims" "i = cl_session_id claims"
      "\<And>v j. live_at v (wo_store w') j = (if j = i then (if v < sk_secs ck + 86400
        then Some (y\<lparr>ss_refresh_token_hash := Some (digest (tr_refresh_token tr))\<rparr>) else None)
       else live_at v (wo_store w) j)" "reachable digest (wo_store w')"
    by (rule refresh_memory [OF assms(1,3)]) (use assms(2,6) in auto)
  assume "is_ok (fst (authentication_refresh digest (memory_world digest ck') keys cfg' now' (Inr later) w'))"
  then obtain i' tr' w'' where
    "authentication_refresh digest (memory_world digest ck') keys cfg' now' (Inr later) w' = (Inr (i', tr'), w'')"
    by (cases "authentication_refresh digest (memory_world digest ck') keys cfg' now' (Inr later) w'")
      (auto simp: is_ok_iff)
  then obtain y' where "live_at (sk_secs ck') (wo_store w') i = Some y'"
      "ss_refresh_token_hash y' = None \<or> ss_refresh_token_hash y' = Some (digest token)"
    by (rule refresh_memory [OF c(4)]) (use assms(4-6) c(1,2) in auto)
  with c(3) assms(7) show False by (auto split: if_splits)
qed

definition refresh_world :: world where
  \<comment> \<open>an authenticated session, renewed with the token that expires at 150\<close>
  "refresh_world = \<lparr>wo_store = snd (account_add ''did:b'' default_acl_set None (snd (put_session 50
     (sample_session\<lparr>ss_state := Authenticated,
        ss_refresh_token_hash := Some (sample_token (claims_for ''did:a'' ''c'' 150))\<rparr>) 900 empty_state))),
     wo_channels = [], wo_published = []\<rparr>"

definition sample_refresh_message :: didcomm_message where
  "sample_refresh_message = sample_auth_message\<lparr>dm_typ := ''https://affinidi.com/atm/1.0/authenticate/refresh'',
     dm_body := sample_body\<lparr>bd_refresh_token := Some (JString (sample_token (claims_for ''did:a'' ''c'' 150)))\<rparr>\<rparr>"

definition sample_refresh :: "didcomm_message \<Rightarrow> world \<Rightarrow> (mediator_error + string \<times> authorization_response) \<times> world" where
  "sample_refresh msg = authentication_refresh (\<lambda>b. b) (memory_world (\<lambda>b. b) \<lparr>sk_ms = 101000, sk_secs = 101\<rparr>) sample_keys
     sample_auth_config 101 (Inr (sample_envelope msg))"

lemma refresh_world_live: "live_at t (wo_store refresh_world) i =
    (if i = ''c'' \<and> t < 950 then Some (sample_session\<lparr>ss_state := Authenticated,
        ss_refresh_token_hash := Some (sample_token (claims_for ''did:a'' ''c'' 150))\<rparr>) else None)"
  by (simp add: refresh_world_def put_session_def live_at_def empty_state_def sample_session_def account_add_def Let_def)

lemma refresh_world_accounts: "accounts (wo_store refresh_world) =
    [''did:b'' \<mapsto> default_account_record\<lparr>ar_acls := default_acl_set\<rparr>]"
  by (simp add: refresh_world_def put_session_def empty_state_def account_add_def Let_def)

lemma refresh_world_reachable: "reachable digest (wo_store refresh_world)"
  unfolding refresh_world_def world.simps
  by (intro reachable_step [OF reachable_step [OF reachable_new step_put_session] step_account_add])

lemma sample_claims_token: "jw_decode sample_keys (sample_token (claims_for d i t)) = Inr (claims_for d i t)"
  using sample_keys_faithful by (simp add: jwt_faithful_def sample_keys_def claims_for_def)

lemma refresh_token_later: "issue_tokens (\<lambda>b. b) sample_keys sample_auth_config 101 d i = Inr (tr, h) \<Longrightarrow>
    tr_refresh_token tr = sample_token (claims_for d i 146)"
  using issue_tokens_Inr(2) [of "\<lambda>b. b" sample_keys sample_auth_config 101 d i tr h]
  by (simp add: sample_keys_def sample_auth_config_def refresh_expiry_def wrap_u64_def claims_for_def)

lemma sample_token_inject: "sample_token (claims_for d i t) = sample_token (claims_for d i u) \<longleftrightarrow> wrap_u64 t = wrap_u64 u"
  by (simp add: sample_token_def claims_for_def)

lemma sample_refresh_ok:
  "\<exists>tr w'. sample_refresh sample_refresh_message refresh_world = (Inr (''c'', tr), w') \<and>
     tr_refresh_token tr = sample_token (claims_for ''did:a'' ''c'' 146)"
proof -
  obtain tr where t: "issue_tokens (\<lambda>b. b) sample_keys sample_auth_config 101 ''did:a'' ''c'' = Inr (tr, tr_refresh_token tr)"
    using issue_tokens_ok [of sample_keys "\<lambda>b. b" sample_auth_config 101 "''did:a''" "''c''"] by (auto simp: sample_keys_def)
  have x: "ss_did sample_session = ''did:a''" "ss_session_id sample_session = ''c''" "\<not> get_blocked (ss_acls sample_session)"
    by (simp_all add: sample_session_def default_session_def default_not_blocked)
  have "\<exists>w'. sample_refresh sample_refresh_message refresh_world = (Inr (''c'', tr), w')"
    unfolding sample_refresh_def authentication_refresh_Inr
    by (simp add: sample_envelope_def sample_refresh_message_def sample_auth_message_def sample_types
        sample_claims_token memory_world_sessions get_session_world refresh_world_live refresh_world_accounts x t
        get_refresh_token_hash_world update_refresh_token_hash_world get_refresh_token_hash_def on_world_def
        get_session_result update_refresh_token_hash_def put_session_def jwt_exp_is_expired_def jwt_exp_leeway_secs_def
        wrap_u64_def)
  with t refresh_token_later [OF t] show ?thesis by blast
qed

theorem refresh_token_single_use_witness:
  "\<exists>tr w'. sample_refresh sample_refresh_message refresh_world = (Inr (''c'', tr), w') \<and>
     \<not> is_ok (fst (sample_refresh sample_refresh_message w'))"
proof -
  obtain tr w' where r: "sample_refresh sample_refresh_message refresh_world = (Inr (''c'', tr), w')"
      "tr_refresh_token tr = sample_token (claims_for ''did:a'' ''c'' 146)"
    using sample_refresh_ok by blast
  have m: "en_unpack (sample_envelope sample_refresh_message) = Inr (sample_refresh_message,
      \<lparr>um_encrypted = True, um_authenticated = True, um_encrypted_from_kid = None, um_sign_from = None\<rparr>)"
    "bd_refresh_token (dm_body sample_refresh_message) = Some (JString (sample_token (claims_for ''did:a'' ''c'' 150)))"
    by (simp_all add: sample_envelope_def sample_refresh_message_def)
  have "tr_refresh_token tr \<noteq> sample_token (claims_for ''did:a'' ''c'' 150)"
    using r(2) by (simp add: sample_token_inject wrap_u64_def)
  from refresh_token_single_use [OF refresh_world_reachable m(1) r(1) [unfolded sample_refresh_def] m(1) refl m(2) this] r(1)
  show ?thesis unfolding sample_refresh_def by blast
qed

text \<open>A refresh is not bound to its sender: a refresh that succeeds for one envelope succeeds, with the same
  tokens for the session's own DID and the same store, when another DID with an unblocked account sends it, since the
  block check reads the sender's ACLs and nothing compares the sender with the session.\<close>
theorem refresh_sender_unbound:
  assumes "authentication_refresh digest (memory_world digest ck) keys cfg now (Inr envelope) w = (Inr (i, tr), w')"
    and "accounts (wo_store w) (digest other) = Some a" "grants (ar_acls a) NotBlocked" "other \<noteq> []"
    and "reachable digest (wo_store w)"
  shows "authentication_refresh digest (memory_world digest ck) keys cfg now
      (Inr (envelope\<lparr>en_from_did := Some other\<rparr>)) w = (Inr (i, tr), w')"
proof -
  from assms(1) obtain did msg metadata token claims session w1 stored w2 h where
    e: "en_unpack envelope = Inr (msg, metadata)" "um_authenticated metadata" "um_encrypted metadata"
      "message_type_of (dm_typ msg) = AffinidiAuthenticateRefresh" "\<exists>t > now. dm_expires_time msg = Some t"
      "bd_refresh_token (dm_body msg) = Some (JString token)"
      "jw_decode keys token = Inr claims" "\<not> jwt_exp_is_expired (cl_exp claims) now"
    and g: "ms_get_session (memory_world digest ck) (cl_session_id claims) did w = (Inr session, w1)"
    and c: "ss_state session = Authenticated" "i = ss_session_id session"
      "issue_tokens digest keys cfg now (ss_did session) i = Inr (tr, h)"
      "get_refresh_token_hash (ms_get_session (memory_world digest ck)) i w1 = (Inr stored, w2)"
      "stored = None \<or> stored = Some (digest token)"
      "update_refresh_token_hash (ms_get_session (memory_world digest ck)) (ms_put_session (memory_world digest ck))
       i h w2 = (Inr (), w')"
    unfolding authentication_refresh_Inr by auto
  obtain y where y: "w1 = w" "live_at (sk_secs ck) (wo_store w) (cl_session_id claims) = Some y"
      "ss_session_id session = cl_session_id claims" "ss_did session = ss_did y" "ss_state session = ss_state y"
    using get_session_found [OF assms(5) g] by metis
  let ?session = "y\<lparr>ss_acls := ar_acls a, ss_account_type := ar_role a\<rparr>"
  have g': "ms_get_session (memory_world digest ck) (cl_session_id claims) other w = (Inr ?session, w)"
    using y(2) assms(2,4) by (simp add: memory_world_sessions get_session_world)
  have i: "ss_session_id ?session = i" "ss_did ?session = ss_did session" "ss_state ?session = Authenticated"
    "\<not> get_blocked (ss_acls ?session)"
    using y c(1,2) live_session_id [OF assms(5) y(2)] assms(3) by simp_all
  show ?thesis
    unfolding authentication_refresh_Inr
    by (rule exI [of _ "envelope\<lparr>en_from_did := Some other\<rparr>"], rule exI [of _ other], rule exI [of _ msg],
        rule exI [of _ metadata], rule exI [of _ token], rule exI [of _ claims], rule exI [of _ ?session],
        rule exI [of _ w], rule exI [of _ stored], rule exI [of _ w2], rule exI [of _ h])
      (use e g' c i y(1) in simp)
qed

theorem refresh_sender_unbound_witness:
  "\<exists>tr w'. authentication_refresh (\<lambda>b. b) (memory_world (\<lambda>b. b) \<lparr>sk_ms = 101000, sk_secs = 101\<rparr>) sample_keys
     sample_auth_config 101 (Inr ((sample_envelope sample_refresh_message)\<lparr>en_from_did := Some ''did:b''\<rparr>)) refresh_world =
     (Inr (''c'', tr), w') \<and> tr_refresh_token tr = sample_token (claims_for ''did:a'' ''c'' 146)"
proof -
  obtain tr w' where r: "sample_refresh sample_refresh_message refresh_world = (Inr (''c'', tr), w')"
      "tr_refresh_token tr = sample_token (claims_for ''did:a'' ''c'' 146)"
    using sample_refresh_ok by blast
  have "accounts (wo_store refresh_world) ((\<lambda>b. b) ''did:b'') = Some (default_account_record\<lparr>ar_acls := default_acl_set\<rparr>)"
    by (simp add: refresh_world_accounts)
  from refresh_sender_unbound [OF r(1) [unfolded sample_refresh_def] this _ _ refresh_world_reachable] r(2)
  show ?thesis by (auto simp: default_not_blocked)
qed

section \<open>Bearer tokens\<close>

text \<open>A bearer token is admitted exactly when it decodes, has not expired beyond the leeway, names a live session
  of the token's own subject, and that DID is not blocked now; the session handed to the request carries the
  account's current ACLs and the token's expiry.\<close>
theorem authenticate_token_exact:
  assumes "cl_sub claims \<noteq> []" "jw_decode keys token = Inr claims"
    and "accounts (wo_store w) (digest (cl_sub claims)) = Some a"
  shows "authenticate_token (memory_world digest ck) keys now token w = (Inr session, w') \<longleftrightarrow>
    \<not> jwt_exp_is_expired (cl_exp claims) now \<and> w' = w \<and>
    (\<exists>y. live_at (sk_secs ck) (wo_store w) (cl_session_id claims) = Some y \<and> ss_did y = cl_sub claims \<and>
       grants (ar_acls a) NotBlocked \<and>
       session = y\<lparr>ss_acls := ar_acls a, ss_account_type := ar_role a, ss_expires_at := cl_exp claims\<rparr>)"
  using assms
  by (cases "live_at (sk_secs ck) (wo_store w) (cl_session_id claims)")
    (auto simp: authenticate_token_def memory_world_sessions on_world_def get_session_result require_capability_def)

theorem authenticate_token_exact_witness:
  "authenticate_token (memory_world (\<lambda>b. b) \<lparr>sk_ms = 0, sk_secs = 100\<rparr>) sample_keys 210
      (sample_token (claims_for ''did:a'' ''c'' 150)) sample_world =
     (Inr (sample_session\<lparr>ss_acls := default_acl_set, ss_account_type := ar_role default_account_record,
        ss_expires_at := 150\<rparr>), sample_world) \<and>
   \<not> is_ok (fst (authenticate_token (memory_world (\<lambda>b. b) \<lparr>sk_ms = 0, sk_secs = 100\<rparr>) sample_keys 211
      (sample_token (claims_for ''did:a'' ''c'' 150)) sample_world))"
proof -
  have d: "ss_did sample_session = ''did:a''" by (simp add: sample_session_def)
  have a: "accounts (wo_store sample_world) ((\<lambda>b. b) (cl_sub (claims_for ''did:a'' ''c'' 150))) =
      Some (default_account_record\<lparr>ar_acls := default_acl_set\<rparr>)"
    by (simp add: sample_world_accounts)
  note exact = authenticate_token_exact [where digest = "\<lambda>b. b", OF _ sample_claims_token a]
  have "\<not> is_ok (fst (authenticate_token (memory_world (\<lambda>b. b) \<lparr>sk_ms = 0, sk_secs = 100\<rparr>) sample_keys 211
      (sample_token (claims_for ''did:a'' ''c'' 150)) sample_world))" (is "\<not> is_ok (fst ?r)")
    using exact by (cases ?r; cases "fst ?r")
      (auto simp: jwt_exp_is_expired_def jwt_exp_leeway_secs_def wrap_u64_def)
  then show ?thesis
    using exact
    by (simp add: jwt_exp_is_expired_def jwt_exp_leeway_secs_def wrap_u64_def sample_world_live d default_not_blocked)
qed

text \<open>Nothing tells an access token from a refresh token: after a completed authentication both open, as
  bearer tokens, the session that was created, each until its own expiry.\<close>
theorem issued_tokens_open_session:
  assumes "reachable digest (wo_store w)" "jwt_faithful keys" "sk_secs ck' < sk_secs ck + 86400" "did \<noteq> []"
    and "authentication_response digest (memory_world digest ck) keys cfg now new_id (Inr envelope) w = (Inr (i, tr), w')"
    and "en_from_did envelope = Some did" "accounts (wo_store w') (digest did) = Some a" "grants (ar_acls a) NotBlocked"
    and "(token, expires) \<in> {(tr_access_token tr, tr_access_expires_at tr), (tr_refresh_token tr, tr_refresh_expires_at tr)}"
    and "\<not> jwt_exp_is_expired expires now'"
  shows "\<exists>session. authenticate_token (memory_world digest ck') keys now' token w' = (Inr session, w') \<and>
    ss_session_id session = new_id \<and> ss_did session = did \<and> ss_expires_at session = expires \<and>
    ss_state session = Authenticated"
proof -
  from assms(5,6) obtain known msg metadata challenge sid session w1 where
      g: "ms_get_session (memory_world digest ck) sid did w = (Inr session, w1)"
    and c: "ss_did session = did"
      "complete_authentication digest (memory_world digest ck) keys cfg now new_id session w1 = (Inr (i, tr), w')"
    unfolding authentication_response_Inr by auto
  obtain y where y: "w1 = w" "live_at (sk_secs ck) (wo_store w) (ss_session_id session) = Some y" "ss_did session = ss_did y"
    using get_session_found [OF assms(1) g] by metis
  from complete_authentication_memory [OF c(2) [unfolded y(1)] y(2,3)] obtain x where
    t: "issue_tokens digest keys cfg now did new_id = Inr (tr, digest (tr_refresh_token tr))"
    and x: "live_at (sk_secs ck') (wo_store w') new_id = Some x" "ss_session_id x = new_id" "ss_state x = Authenticated"
      "ss_did x = did"
    using assms(3) c(1) y(3) by metis
  have "jw_decode keys token = Inr \<lparr>cl_aud = ''ATM'', cl_sub = did, cl_session_id = new_id, cl_exp = expires\<rparr>"
    using assms(2,9) issue_tokens_Inr(1-4) [OF t] by (auto simp: jwt_faithful_def claims_for_def)
  then show ?thesis
    using x assms(4,7,8,10)
    by (simp add: authenticate_token_def memory_world_sessions on_world_def get_session_result require_capability_def)
qed

theorem issued_tokens_open_session_witness:
  "\<exists>tr w' session. sample_response sample_world = (Inr (''n'', tr), w') \<and>
     authenticate_token (memory_world (\<lambda>b. b) \<lparr>sk_ms = 0, sk_secs = 140\<rparr>) sample_keys 140 (tr_refresh_token tr) w' =
       (Inr session, w') \<and> ss_did session = ''did:a''"
proof -
  obtain tr w' where r: "sample_response sample_world = (Inr (''n'', tr), w')"
      "issue_tokens (\<lambda>b. b) sample_keys sample_auth_config 100 ''did:a'' ''n'' = Inr (tr, tr_refresh_token tr)"
      "accounts (wo_store w') ((\<lambda>b. b) ''did:a'') = Some (default_account_record\<lparr>ar_acls := default_acl_set\<rparr>)"
    using sample_response_ok by blast
  have e: "tr_refresh_expires_at tr = 145"
    using issue_tokens_Inr(4) [OF r(2)] by (simp add: sample_auth_config_def refresh_expiry_def wrap_u64_def)
  have k: "sk_secs \<lparr>sk_ms = 0, sk_secs = 140\<rparr> < sk_secs \<lparr>sk_ms = 100000, sk_secs = 100\<rparr> + 86400" by simp
  have f: "en_from_did (sample_envelope sample_auth_message) = Some ''did:a''"
    by (simp add: sample_envelope_def sample_auth_message_def)
  have "\<exists>session. authenticate_token (memory_world (\<lambda>b. b) \<lparr>sk_ms = 0, sk_secs = 140\<rparr>) sample_keys 140
      (tr_refresh_token tr) w' = (Inr session, w') \<and> ss_session_id session = ''n'' \<and> ss_did session = ''did:a'' \<and>
      ss_expires_at session = 145 \<and> ss_state session = Authenticated"
    by (rule issued_tokens_open_session [OF sample_world_reachable sample_keys_faithful k _
          r(1) [unfolded sample_response_def] f r(3)])
      (simp_all add: e default_not_blocked jwt_exp_is_expired_def jwt_exp_leeway_secs_def wrap_u64_def)
  with r(1) show ?thesis by blast
qed

section \<open>Anonymous relays\<close>

lemma relay_grants: "grants relay_anonymous_acls c \<longleftrightarrow> c \<in> {NotBlocked, SendMessages, SendForwarded}"
proof -
  have "map (grants relay_anonymous_acls) [NotBlocked, Local, SendMessages, ReceiveMessages, SendForwarded,
      ReceiveForwarded, CreateInvites, AnonReceive] = [True, False, True, False, True, False, False, False]"
    by code_simp
  then show ?thesis by (cases c) simp_all
qed

lemma authenticate_token_error:
  "authenticate_token ops keys now token s = (Inl e, s') \<Longrightarrow> e \<noteq> MissingCredentials"
  by (auto simp: authenticate_token_def split: sum.splits prod.splits if_splits)

text \<open>A request without credentials is let in only as an anonymous relay, when relaying is configured or the
  default ACLs let forwarded messages in; its session may send and forward and nothing else. A request that
  presents a token is never let in anonymously.\<close>
theorem anonymous_least_privilege:
  assumes "maybe_session ops keys cfg now peer bearer s = (Inr session, s')"
    and "fst (session_from_request ops keys now peer bearer s) \<noteq> Inr session"
  shows "(bearer = None \<or> \<not> peer) \<and> s' = s \<and>
    (au_enable_inter_mediator_relay cfg \<or> grants (cf_global_acl_default (au_base cfg)) SendForwarded) \<and>
    session = default_session\<lparr>ss_session_id := ''ANON-INBOUND'', ss_acls := relay_anonymous_acls\<rparr> \<and>
    (\<forall>c. grants (ss_acls session) c \<longleftrightarrow> c \<in> {NotBlocked, SendMessages, SendForwarded})"
proof -
  obtain e where e: "session_from_request ops keys now peer bearer s = (Inl e, s')"
    and anon: "anonymous_session_for e (au_enable_inter_mediator_relay cfg) (cf_global_acl_default (au_base cfg)) = Some session"
    using assms unfolding maybe_session_def
    by (cases "session_from_request ops keys now peer bearer s"; cases "fst (session_from_request ops keys now peer bearer s)")
      (auto split: option.splits)
  have m: "e = MissingCredentials"
    and session: "session = default_session\<lparr>ss_session_id := ''ANON-INBOUND'', ss_acls := relay_anonymous_acls\<rparr>"
    and cfg: "au_enable_inter_mediator_relay cfg \<or> grants (cf_global_acl_default (au_base cfg)) SendForwarded"
    using anon unfolding anonymous_session_for_def anonymous_inbound_allowed_def by (simp_all split: if_splits)
  have b: "(bearer = None \<or> \<not> peer) \<and> s' = s"
    using e m authenticate_token_error by (fastforce simp: session_from_request_def split: if_splits option.splits)
  have "ss_acls session = relay_anonymous_acls" by (simp add: session)
  then show ?thesis using b cfg session relay_grants by metis
qed

theorem anonymous_least_privilege_witness:
  "maybe_session (memory_world (\<lambda>b. b) \<lparr>sk_ms = 0, sk_secs = 100\<rparr>) sample_keys
     (sample_auth_config\<lparr>au_enable_inter_mediator_relay := True\<rparr>) 100 True None sample_world =
     (Inr (default_session\<lparr>ss_session_id := ''ANON-INBOUND'', ss_acls := relay_anonymous_acls\<rparr>), sample_world) \<and>
   grants relay_anonymous_acls SendForwarded \<and> \<not> grants relay_anonymous_acls ReceiveMessages"
proof -
  let ?r = "default_session\<lparr>ss_session_id := ''ANON-INBOUND'', ss_acls := relay_anonymous_acls\<rparr>"
  let ?ops = "memory_world (\<lambda>b. b) \<lparr>sk_ms = 0, sk_secs = 100\<rparr>"
  let ?cfg = "sample_auth_config\<lparr>au_enable_inter_mediator_relay := True\<rparr>"
  have m: "maybe_session ?ops sample_keys ?cfg 100 True None sample_world = (Inr ?r, sample_world)"
    by (simp add: maybe_session_def session_from_request_def anonymous_session_for_def)
  have n: "fst (session_from_request ?ops sample_keys 100 True None sample_world) \<noteq> Inr ?r"
    by (simp add: session_from_request_def)
  have "grants relay_anonymous_acls SendForwarded" "\<not> grants relay_anonymous_acls ReceiveMessages"
    using anonymous_least_privilege [OF m n] by (simp_all del: grants.simps)
  with m show ?thesis by blast
qed

section \<open>TSP\<close>

text \<open>The TSP response does verify the challenge: tokens are issued only for a 64-byte signature over the
  challenge text of a live session, sent to the same \<open>did:\<close> VID, that verifies under the VID's resolved key; the
  challenge session is consumed and replaced as for a DIDComm response.\<close>
theorem tsp_response_sound:
  assumes "reachable digest (wo_store w)" "v < sk_secs ck + 86400"
    and "tsp_authentication_response digest (memory_world digest ck) keys cfg now new_id session_id vid decoded resolved
      verify w = (Inr (i, tr), w')"
  shows "\<exists>y x signature key. is_prefix ''did:'' vid \<and> live_at (sk_secs ck) (wo_store w) session_id = Some y \<and>
    ss_state y = ChallengeSent \<and> ss_did y = vid \<and> decoded = Inr signature \<and> length signature = 64 \<and>
    resolved = Inr key \<and> verify (ss_challenge y) signature key \<and>
    i = new_id \<and> (session_id \<noteq> new_id \<longrightarrow> live_at v (wo_store w') session_id = None) \<and>
    live_at v (wo_store w') new_id = Some x \<and> ss_state x = Authenticated \<and> ss_did x = vid \<and>
    ss_refresh_token_hash x = Some (digest (tr_refresh_token tr))"
proof -
  from assms(3) obtain session w1 signature key h where
    e: "is_prefix ''did:'' vid" "decoded = Inr signature" "length signature = 64" "resolved = Inr key" "i = new_id"
    and g: "ms_get_session (memory_world digest ck) session_id vid w = (Inr session, w1)"
    and c: "ss_state session = ChallengeSent" "ss_did session = vid" "verify (ss_challenge session) signature key"
      "issue_tokens digest keys cfg now (ss_did session) new_id = Inr (tr, h)"
      "authenticate_store digest (memory_world digest ck) (ss_session_id session) new_id (ss_did session) h w1 = (Inr (), w')"
    unfolding tsp_authentication_response_def by (auto simp: success_simps split: prod.splits)
  obtain y where y: "w1 = w" "live_at (sk_secs ck) (wo_store w) session_id = Some y" "ss_state session = ss_state y"
      "ss_did session = ss_did y" "ss_challenge session = ss_challenge y"
    using g by (auto simp: memory_world_sessions get_session_world split: if_splits option.splits)
  have id: "ss_session_id session = session_id" using get_session_found [OF assms(1) g] by metis
  have "update_session_authenticated digest (get_session digest (sk_secs ck)) delete_session
      (put_session (sk_secs ck)) stats_increment_ok session_id new_id (ss_did session) h (wo_store w) = (Inr (), wo_store w')"
    using c(5) id y(1) by (auto simp: authenticate_store_def memory_world_sessions update_session_authenticated_world
        on_world_def split: prod.splits)
  from authenticated_memory [OF y(2,4) this] obtain x where
    "\<And>v j. live_at v (wo_store w') j = (if j = new_id then (if v < sk_secs ck + 86400 then Some x else None)
       else if j = session_id then None else live_at v (wo_store w) j)"
    "ss_state x = Authenticated" "ss_did x = ss_did y" "ss_refresh_token_hash x = Some h" by metis
  with e c(1-3) y assms(2) issue_tokens_Inr(5) [OF c(4)] show ?thesis by (auto intro!: exI [of _ y] exI [of _ x])
qed

theorem tsp_response_sound_witness:
  "\<exists>tr w'. tsp_authentication_response (\<lambda>b. b) (memory_world (\<lambda>b. b) \<lparr>sk_ms = 0, sk_secs = 100\<rparr>) sample_keys
      sample_auth_config 100 ''n'' ''c'' ''did:a'' (Inr (replicate 64 CHR ''s'')) (Inr ''key'')
      (\<lambda>text signature key. hd signature = CHR ''s'' \<and> key = ''key'') sample_world = (Inr (''n'', tr), w') \<and>
     live_at 101 (wo_store w') ''c'' = None"
proof -
  let ?ops = "memory_world (\<lambda>b. b) \<lparr>sk_ms = 0, sk_secs = 100\<rparr>"
  let ?verify = "\<lambda>text signature key. hd signature = CHR ''s'' \<and> key = ''key''"
  have d: "ss_did sample_session = ''did:a''" "ss_state sample_session = ChallengeSent"
    "ss_session_id sample_session = ''c''" by (simp_all add: sample_session_def)
  obtain tr where t: "issue_tokens (\<lambda>b. b) sample_keys sample_auth_config 100 ''did:a'' ''n'' = Inr (tr, tr_refresh_token tr)"
    using issue_tokens_ok [of sample_keys "\<lambda>b. b" sample_auth_config 100 "''did:a''" "''n''"] by (auto simp: sample_keys_def)
  obtain w' where w: "authenticate_store (\<lambda>b. b) ?ops ''c'' ''n'' ''did:a'' (tr_refresh_token tr) sample_world = (Inr (), w')"
    using authenticate_store_ok by blast
  have r: "tsp_authentication_response (\<lambda>b. b) ?ops sample_keys sample_auth_config 100 ''n'' ''c'' ''did:a''
      (Inr (replicate 64 CHR ''s'')) (Inr ''key'') ?verify sample_world = (Inr (''n'', tr), w')"
    unfolding tsp_authentication_response_def
    by (simp add: success_simps memory_world_sessions get_session_world sample_world_live sample_world_accounts d t w)
  have "101 < sk_secs \<lparr>sk_ms = 0, sk_secs = 100\<rparr> + 86400" by simp
  from tsp_response_sound [OF sample_world_reachable this r] r show ?thesis by auto
qed

end
