(* ===== verification/MessageFlow.thy ===== *)
theory MessageFlow
  imports MessageOps Authz AclRules
begin

text \<open>
  Messages the mediator sends: the response a protocol handler builds (\<open>messages/mod.rs\<close>), packing it,
  storing or streaming it (\<open>messages/store.rs\<close>), the error response (\<open>error_response.rs\<close>), and the two
  protocols that only answer, trust ping (\<open>ping.rs\<close>) and discover features (\<open>discover_features.rs\<close> and
  the matching of the SDK's \<open>DiscoverFeatures\<close>).

  DID resolution, envelope parsing, encryption, base64 and URL parsing are other crates: they are the
  fields of the record \<open>wire\<close>. A handler reads the clock once (\<open>fl_now\<close> in seconds, \<open>fl_now_ms\<close> in
  milliseconds) and draws one random id (\<open>fl_uuid\<close>).
\<close>

section \<open>Configuration and environment\<close>

datatype relay_mode = Blind | Rewrap

record message_config =
  mo_base :: mediator_config
  mo_to_recipients :: nat
  mo_message_expiry_seconds :: nat
  mo_attachments_max_count :: nat
  mo_forward_task_queue :: nat
  mo_queued_send_messages_soft :: int
  mo_queued_receive_messages_soft :: int
  mo_force_session_did_match :: bool
  mo_block_anonymous_outer_envelope :: bool
  mo_local_direct_delivery_allowed :: bool
  mo_local_direct_delivery_allow_anon :: bool
  mo_external_forwarding :: bool
  mo_future_time_limit :: nat
  mo_relay_mode :: relay_mode
  mo_relay_trusted_mediators :: "string list"
  mo_max_hops :: nat
  mo_self_authorities :: "(string \<times> nat) list"

record flow_env =
  fl_now :: nat
  fl_now_ms :: nat
  fl_uuid :: string

section \<open>Responses\<close>

record status_reply =
  sp_recipient_did :: string
  sp_message_count :: nat
  sp_longest_waited_seconds :: "nat option"
  sp_newest_received_time :: "nat option"
  sp_oldest_received_time :: "nat option"
  sp_total_bytes :: nat
  sp_live_delivery :: bool

record disclosure =
  di_feature_type :: feature_type
  di_id :: string

datatype out_body =
    OutEmpty
  | OutStatus status_reply
  | OutDelivery string \<comment> \<open>recipient DID\<close>
  | OutProblem problem_report
  | OutDisclosures "disclosure list"
  | OutForward string \<comment> \<open>next hop\<close>

record out_message =
  om_id :: string
  om_typ :: string
  om_body :: out_body
  om_thid :: "string option"
  om_pthid :: "string option"
  om_to :: "string list option"
  om_from :: "string option"
  om_created_time :: "nat option"
  om_expires_time :: "nat option"
  om_attachments :: "(string option \<times> string) list" \<comment> \<open>id and base64 data\<close>
  om_hop_count :: "nat option" \<comment> \<open>extra header\<close>
  om_ack :: "string list option" \<comment> \<open>extra header\<close>

definition message_build :: "string \<Rightarrow> string \<Rightarrow> out_body \<Rightarrow> out_message" where
  "message_build i typ body = \<lparr>om_id = i, om_typ = typ, om_body = body, om_thid = None, om_pthid = None,
     om_to = None, om_from = None, om_created_time = None, om_expires_time = None, om_attachments = [],
     om_hop_count = None, om_ack = None\<rparr>"

datatype wrapper_type = WrapNone | WrapMessage out_message | WrapEnvelope string string nat

record process_message_response =
  pr_store_message :: bool
  pr_force_live_delivery :: bool
  pr_forward_message :: bool
  pr_data :: wrapper_type

definition default_response :: process_message_response where
  "default_response = \<lparr>pr_store_message = False, pr_force_live_delivery = False, pr_forward_message = False,
     pr_data = WrapNone\<rparr>"

datatype inbound_message_response =
    Stored "(string \<times> string) list" "(string \<times> string) list" \<comment> \<open>stored ids and errors, by recipient\<close>
  | Ephemeral string
  | Forwarded

datatype endpoint = EndpointUrl string | EndpointArray "string option list" | EndpointObject "string option" | EndpointOther
  \<comment> \<open>a URL, or a JSON value with the JSON text of its \<open>uri\<close> members\<close>

record did_service =
  dv_types :: "string list"
  dv_endpoint :: endpoint

record parsed_url =
  pu_scheme :: string
  pu_host :: "string option"
  pu_port :: "nat option"

record wire =
  wi_envelope :: "string \<Rightarrow> string + meta_envelope"
  wi_resolve :: "string \<Rightarrow> string + did_service list"
  wi_pack_encrypted :: "out_message \<Rightarrow> string \<Rightarrow> string option \<Rightarrow> string + string"
  wi_url :: "string \<Rightarrow> parsed_url option"
  wi_base64_encode :: "string \<Rightarrow> string"
  wi_base64_decode :: "string \<Rightarrow> string + string" \<comment> \<open>bytes that are UTF-8\<close>

definition pack_message ::
  "wire \<Rightarrow> string \<Rightarrow> string \<Rightarrow> unpack_metadata \<Rightarrow> out_message \<Rightarrow> mediator_error + string" where
  "pack_message wi session_id to_did metadata message =
     (case wi_resolve wi to_did of
        Inl e \<Rightarrow> Inl (problem_with_log 74 session_id (Some (om_id message)) SorterError ScopeProtocol ''did.resolve''
           (''DID ({1}) couldn'' @ [CHR 0x27] @ ''t be resolved: {2}'') [to_did, e] 400
           (''DID ('' @ to_did @ '') couldn'' @ [CHR 0x27] @ ''t be resolved: '' @ e))
      | Inr _ \<Rightarrow>
          if um_encrypted metadata
          then (case wi_pack_encrypted wi message to_did (om_from message) of
              Inr packed \<Rightarrow> Inr packed
            | Inl e \<Rightarrow> Inl (problem_with_log 47 session_id (Some (om_id message)) SorterError ScopeProtocol ''message.pack''
                (''Couldn'' @ [CHR 0x27] @ ''t pack DIDComm message: {1}'') [e] 400
                (''Couldn'' @ [CHR 0x27] @ ''t pack DIDComm message: '' @ e)))
          else Inl (problem 66 session_id (Some (om_id message)) SorterError ScopeProtocol ''me.not_implemented''
            ''Mediator only supports encrypted message packing'' [] 501))"

section \<open>Storing and streaming\<close>

definition live_stream :: "'s message_store \<Rightarrow> string \<Rightarrow> string \<Rightarrow> bool \<Rightarrow> 's \<Rightarrow> 's" where
  \<comment> \<open>\<open>streaming_is_client_live\<close>, then \<open>_live_stream\<close>, whose errors are ignored\<close>
  "live_stream ops did_hash message force_live_delivery s =
     (case ms_streaming_is_client_live ops did_hash force_live_delivery s of
        Some stream_uuid \<Rightarrow> ms_streaming_publish_message ops did_hash stream_uuid message force_live_delivery s
      | None \<Rightarrow> s)"

definition stream_and_store ::
  "'s message_store \<Rightarrow> process_message_response \<Rightarrow> string \<Rightarrow> string \<Rightarrow> string option \<Rightarrow> nat \<Rightarrow> 's \<Rightarrow>
   (store_error + string) \<times> 's" where
  "stream_and_store ops response data to_did_hash from_did_hash expires s =
     ms_store_message ops data to_did_hash from_did_hash expires
       (live_stream ops to_did_hash data (pr_force_live_delivery response) s)"

definition capped_expiry :: "message_config \<Rightarrow> nat \<Rightarrow> nat option \<Rightarrow> nat" where
  "capped_expiry cfg now expires_time =
     (let latest = wrap_u64 (now + mo_message_expiry_seconds cfg)
      in case expires_time of
           Some expires_at \<Rightarrow> if expires_at > latest then latest else expires_at
         | None \<Rightarrow> latest)"

definition note_stored ::
  "string \<Rightarrow> store_error + string \<Rightarrow> (string \<times> string) list \<times> (string \<times> string) list \<Rightarrow>
   (string \<times> string) list \<times> (string \<times> string) list" where
  "note_stored recipient r acc =
     (case r of Inr msg_id \<Rightarrow> (fst acc @ [(recipient, msg_id)], snd acc)
      | Inl e \<Rightarrow> (fst acc, snd acc @ [(recipient, show_store_error e)]))"

fun store_for_recipients ::
  "(string \<Rightarrow> string) \<Rightarrow> 's message_store \<Rightarrow> wire \<Rightarrow> message_config \<Rightarrow> session \<Rightarrow> process_message_response \<Rightarrow>
   unpack_metadata \<Rightarrow> out_message \<Rightarrow> nat \<Rightarrow> string list \<Rightarrow> (string \<times> string) list \<times> (string \<times> string) list \<Rightarrow> 's \<Rightarrow>
   (mediator_error + (string \<times> string) list \<times> (string \<times> string) list) \<times> 's" where
  "store_for_recipients digest ops wi cfg session response metadata message expires_at [] acc s = (Inr acc, s)"
| "store_for_recipients digest ops wi cfg session response metadata message expires_at (recipient # to_dids) acc s =
     (case pack_message wi (ss_session_id session) recipient metadata message of
        Inl e \<Rightarrow> (Inl e, s)
      | Inr packed \<Rightarrow>
          let (r, s1) = stream_and_store ops response packed (digest recipient)
                (Some (cf_mediator_did_hash (mo_base cfg))) expires_at s
          in store_for_recipients digest ops wi cfg session response metadata message expires_at to_dids
               (note_stored recipient r acc) s1)"

definition store_message_to ::
  "(string \<Rightarrow> string) \<Rightarrow> 's message_store \<Rightarrow> wire \<Rightarrow> message_config \<Rightarrow> nat \<Rightarrow> session \<Rightarrow> process_message_response \<Rightarrow>
   unpack_metadata \<Rightarrow> out_message \<Rightarrow> 's \<Rightarrow> (mediator_error + inbound_message_response) \<times> 's" where
  \<comment> \<open>the branch of \<open>store_message\<close> for a message still to be packed\<close>
  "store_message_to digest ops wi cfg now session response metadata message s =
     (case om_to message of
        None \<Rightarrow> (Inl (problem 75 (ss_session_id session) (Some (om_id message)) SorterError ScopeProtocol
           ''message.recipients.missing'' ''Message has no recipients'' [] 500), s)
      | Some to_dids \<Rightarrow>
          let counts = [show_nat (length to_dids), show_nat (mo_to_recipients cfg)] in
          require (length to_dids \<le> mo_to_recipients cfg)
            (problem_with_log 76 (ss_session_id session) (Some (om_id message)) SorterError ScopeProtocol
               ''message.recipients.too_many'' ''Message has too many recipients ({1}). Max: {2}'' counts 500
               (''Message has too many recipients ('' @ counts ! 0 @ ''). Max: '' @ counts ! 1)) s (\<lambda>s.
          on_result id
            (store_for_recipients digest ops wi cfg session response metadata message
               (capped_expiry cfg now (om_expires_time message)) to_dids ([], []) s)
            (\<lambda>(stored, errors) s. (Inr (Stored stored errors), s))))"

definition store_response ::
  "(string \<Rightarrow> string) \<Rightarrow> 's message_store \<Rightarrow> wire \<Rightarrow> message_config \<Rightarrow> nat \<Rightarrow> session \<Rightarrow> process_message_response \<Rightarrow>
   unpack_metadata \<Rightarrow> 's \<Rightarrow> (mediator_error + inbound_message_response) \<times> 's" where
  \<comment> \<open>\<open>store_message\<close> of \<open>messages/store.rs\<close>\<close>
  "store_response digest ops wi cfg now session response metadata s =
     (if pr_forward_message response then (Inr Forwarded, s)
      else if pr_store_message response then
        (case pr_data response of
           WrapNone \<Rightarrow> (Inr (Stored [] []), s)
         | WrapMessage message \<Rightarrow> store_message_to digest ops wi cfg now session response metadata message s
         | WrapEnvelope to_did message expires \<Rightarrow>
             let (r, s1) = stream_and_store ops response message (digest to_did) (Some (ss_did_hash session)) expires s;
                 (stored, errors) = note_stored to_did r ([], [])
             in (Inr (Stored stored errors), s1))
      else
        (case pr_data response of
           WrapMessage message \<Rightarrow>
             on_result id (pack_message wi (ss_session_id session) (ss_did session) metadata message, s)
               (\<lambda>packed s. (Inr (Ephemeral packed),
                  live_stream ops (ss_did_hash session) packed (pr_force_live_delivery response) s))
         | _ \<Rightarrow> (Inl (problem 77 (ss_session_id session) None SorterError ScopeProtocol ''me.storage.message.error''
               ''Expected a message to store, instead got None'' [] 500), s)))"

definition store_forwarded_message ::
  "(string \<Rightarrow> string) \<Rightarrow> 's message_store \<Rightarrow> message_config \<Rightarrow> nat \<Rightarrow> string \<Rightarrow> string option \<Rightarrow> string \<Rightarrow> nat option \<Rightarrow>
   's \<Rightarrow> (mediator_error + unit) \<times> 's" where
  \<comment> \<open>a storage error is only logged\<close>
  "store_forwarded_message digest ops cfg now message sender_hash recipient expires_at s =
     (Inr (), snd (ms_store_message ops message (digest recipient) sender_hash (capped_expiry cfg now expires_at)
        (live_stream ops (digest recipient) message False s)))"

definition generate_error_response ::
  "message_config \<Rightarrow> flow_env \<Rightarrow> session \<Rightarrow> string \<Rightarrow> problem_report \<Rightarrow> bool \<Rightarrow> process_message_response" where
  "generate_error_response cfg env session thid report store =
     \<lparr>pr_store_message = store, pr_force_live_delivery = False, pr_forward_message = False,
      pr_data = WrapMessage ((message_build (fl_uuid env) ''https://didcomm.org/report-problem/2.0/problem-report''
          (OutProblem report))\<lparr>om_pthid := Some thid, om_to := Some [ss_did session],
          om_from := Some (cf_mediator_did (mo_base cfg)), om_created_time := Some (fl_now env),
          om_expires_time := Some (wrap_u64 (fl_now env + 300)), om_ack := Some [thid]\<rparr>)\<rparr>"

section \<open>Checks the protocols share\<close>

definition message_expired :: "string \<Rightarrow> string option \<Rightarrow> nat \<Rightarrow> didcomm_message \<Rightarrow> mediator_error option" where
  "message_expired session_id msg_id now msg =
     (case dm_expires_time msg of
        Some expires \<Rightarrow>
          if expires \<le> now
          then Some (problem_with_log 31 session_id msg_id SorterError ScopeProtocol ''message.expired''
                 ''Message has expired: {1}'' [show_nat expires] 400 ''Message has expired'')
          else None
      | None \<Rightarrow> None)"

definition first_to :: "session \<Rightarrow> didcomm_message \<Rightarrow> mediator_error + string" where
  "first_to session msg =
     (let err = (\<lambda>comment. problem 51 (ss_session_id session) (Some (dm_id msg)) SorterWarning ScopeMessage
            ''message.to'' comment [] 400)
      in case dm_to msg of
           Some (first # _) \<Rightarrow> Inr first
         | Some [] \<Rightarrow> Inl (err (''Invalid to: header, couldn'' @ [CHR 0x27] @ ''t get first DID from the field.''))
         | None \<Rightarrow> Inl (err ''Missing to: header in message''))"

definition anonymous_error :: "session \<Rightarrow> didcomm_message \<Rightarrow> string \<Rightarrow> mediator_error" where
  "anonymous_error session msg comment =
     problem 50 (ss_session_id session) (Some (dm_id msg)) SorterWarning ScopeMessage ''message.anonymous'' comment [] 400"

section \<open>Trust ping\<close>

definition ping_process :: "flow_env \<Rightarrow> session \<Rightarrow> didcomm_message \<Rightarrow> mediator_error + process_message_response" where
  "ping_process env session msg =
     (case message_expired (ss_session_id session) (Some (dm_id msg)) (fl_now env) msg of
        Some e \<Rightarrow> Inl e
      | None \<Rightarrow>
          and_then (first_to session msg) (\<lambda>to_did.
          if (case bd_ping (dm_body msg) of Inr b \<Rightarrow> b | Inl _ \<Rightarrow> True)
          then (case dm_from msg of
              None \<Rightarrow> Inl (anonymous_error session msg
                ''Trust-Ping requires a from: header when response_requested is true'')
            | Some from_did \<Rightarrow>
                Inr \<lparr>pr_store_message = True, pr_force_live_delivery = False, pr_forward_message = False,
                  pr_data = WrapMessage ((message_build (fl_uuid env) ''https://didcomm.org/trust-ping/2.0/ping'' OutEmpty)
                    \<lparr>om_thid := Some (dm_id msg), om_to := Some [from_did], om_from := Some to_did,
                     om_created_time := Some (fl_now env), om_expires_time := Some (wrap_u64 (fl_now env + 300))\<rparr>)\<rparr>)
          else Inr default_response))"

section \<open>Discover features\<close>

record discover_features =
  df_protocols :: "string list"
  df_goal_codes :: "string list"
  df_headers :: "string list"

fun features_of :: "discover_features \<Rightarrow> feature_type \<Rightarrow> string list" where
  "features_of st FeatureProtocol = df_protocols st"
| "features_of st FeatureGoalCode = df_goal_codes st"
| "features_of st FeatureHeader = df_headers st"

definition matching_features :: "string \<Rightarrow> string list \<Rightarrow> string list" where
  \<comment> \<open>a trailing \<open>*\<close> matches by prefix; a \<open>*\<close> elsewhere in such a pattern matches nothing\<close>
  "matching_features pat features =
     (if pat \<noteq> [] \<and> last pat = CHR ''*''
      then (if CHR ''*'' \<in> set (butlast pat) then [] else filter (is_prefix (butlast pat)) features)
      else filter (\<lambda>f. f = pat) features)"

definition calculate_disclosure :: "discover_features \<Rightarrow> feature_query list \<Rightarrow> disclosure list" where
  "calculate_disclosure st queries =
     concat (map (\<lambda>q. map (\<lambda>f. \<lparr>di_feature_type = fq_feature_type q, di_id = f\<rparr>)
       (matching_features (fq_match q) (features_of st (fq_feature_type q)))) queries)"

definition generate_disclosure_message ::
  "discover_features \<Rightarrow> flow_env \<Rightarrow> string \<Rightarrow> string \<Rightarrow> didcomm_message \<Rightarrow> disclosure list option \<Rightarrow> out_message" where
  "generate_disclosure_message st env from_did to_did query response_body =
     (message_build (fl_uuid env) ''https://didcomm.org/discover-features/2.0/disclose''
        (OutDisclosures (case response_body of Some body \<Rightarrow> body
           | None \<Rightarrow> (case bd_queries (dm_body query) of Inr q \<Rightarrow> calculate_disclosure st q | Inl _ \<Rightarrow> []))))
     \<lparr>om_to := Some [to_did], om_from := Some from_did, om_created_time := Some (fl_now env),
      om_expires_time := Some (wrap_u64 (fl_now env + 300)), om_thid := Some (dm_id query)\<rparr>"

definition discover_process ::
  "discover_features \<Rightarrow> flow_env \<Rightarrow> session \<Rightarrow> didcomm_message \<Rightarrow> mediator_error + process_message_response" where
  "discover_process st env session msg =
     (case message_expired (ss_session_id session) (Some (dm_id msg)) (fl_now env) msg of
        Some e \<Rightarrow> Inl e
      | None \<Rightarrow>
          and_then (first_to session msg) (\<lambda>to_did.
          case dm_from msg of
            None \<Rightarrow> Inl (anonymous_error session msg ''Discover Features requires a from: header to generate a response'')
          | Some from_did \<Rightarrow>
              Inr \<lparr>pr_store_message = True, pr_force_live_delivery = False, pr_forward_message = False,
                pr_data = WrapMessage (generate_disclosure_message st env to_did from_did msg None)\<rparr>))"

end
