(* ===== verification/MessagePickup.thy ===== *)
theory MessagePickup
  imports MessageFlow
begin

text \<open>
  Message Pickup 3.0 (\<open>messages/protocols/message_pickup.rs\<close>): status, delivery, acknowledgement and
  live-delivery changes, each behind \<open>_validate_msg\<close>. The channel to the streaming task is an argument,
  the outcome of sending a signal on it; \<open>None\<close> when there is no such task.
\<close>

section \<open>Checks\<close>

definition max_retrieved_msgs :: nat where "max_retrieved_msgs = 100"

definition min_retrieved_msgs :: nat where "min_retrieved_msgs = 1"

definition pickup_to_error :: "session \<Rightarrow> didcomm_message \<Rightarrow> string \<Rightarrow> mediator_error" where
  "pickup_to_error session msg to_did =
     problem_with_log 51 (ss_session_id session) (Some (dm_id msg)) SorterWarning ScopeMessage ''message.to''
       ''Message Pickup messages must be addressed to the Mediator DID. Received to: {1}'' [to_did] 400
       ''Message Pickup messages must be addressed to the Mediator DID''"

definition return_route_error :: "session \<Rightarrow> didcomm_message \<Rightarrow> (json_value \<Rightarrow> string) \<Rightarrow> mediator_error option" where
  "return_route_error session msg show_json =
     (case dm_extra msg ''return_route'' of
        Some header \<Rightarrow>
          if as_str header \<noteq> Some ''all''
          then Some (problem_with_log 49 (ss_session_id session) (Some (dm_id msg)) SorterWarning ScopeMessage
                 ''protocol.pickup.return_route''
                 ''return_route header is incorrect. Expected (all) but it contains ({1})'' [show_json header] 400
                 (''return_route header is incorrect. Expected (all) but received ('' @ show_json header @ '')''))
          else None
      | None \<Rightarrow> Some (problem 49 (ss_session_id session) (Some (dm_id msg)) SorterWarning ScopeMessage
          ''protocol.pickup.return_route'' ''return_route header is missing'' [] 400))"

definition validate_msg ::
  "message_config \<Rightarrow> (json_value \<Rightarrow> string) \<Rightarrow> nat \<Rightarrow> session \<Rightarrow> didcomm_message \<Rightarrow> mediator_error + unit" where
  "validate_msg cfg show_json now session msg =
     (case message_expired [] None now msg of
        Some e \<Rightarrow> Inl e
      | None \<Rightarrow>
          and_then (first_to session msg) (\<lambda>to_did.
          if to_did \<noteq> cf_mediator_did (mo_base cfg) then Inl (pickup_to_error session msg to_did)
          else if dm_from msg = None
          then Inl (anonymous_error session msg ''Message Pickup 3.0 requires a from: header for permission validation'')
          else (case return_route_error session msg show_json of Some e \<Rightarrow> Inl e | None \<Rightarrow> Inr ())))"

definition did_mismatch_error :: "session \<Rightarrow> didcomm_message \<Rightarrow> string \<Rightarrow> mediator_error" where
  "did_mismatch_error session msg recipient_did =
     problem_with_log 52 (ss_session_id session) (Some (dm_id msg)) SorterError ScopeProtocol
       ''authorization.did.session_mismatch'' ''Recipient DID ({1}) does not match session DID'' [recipient_did] 400
       (''recipient_did doesn'' @ [CHR 0x27] @ ''t match session.did'')"

definition pickup_parse_error :: "session \<Rightarrow> didcomm_message \<Rightarrow> string \<Rightarrow> string \<Rightarrow> mediator_error" where
  "pickup_parse_error session msg what e =
     problem_with_log 54 (ss_session_id session) (Some (dm_id msg)) SorterWarning ScopeMessage
       ''protocol.pickup.parse'' (''Couldn'' @ [CHR 0x27] @ ''t parse '' @ what @ '' body. Reason: {1}'') [e] 400
       (''Couldn'' @ [CHR 0x27] @ ''t parse '' @ what @ '' body. Reason: '' @ e)"

definition thread_id :: "didcomm_message \<Rightarrow> string" where
  "thread_id msg = (case dm_thid msg of Some thid \<Rightarrow> thid | None \<Rightarrow> dm_id msg)"

section \<open>Status\<close>

definition pickup_storage_error :: "session \<Rightarrow> string \<Rightarrow> store_error \<Rightarrow> mediator_error" where
  "pickup_storage_error session thid e =
     problem_with_log 14 (ss_session_id session) (Some thid) SorterError ScopeProtocol ''me.res.storage.error''
       ''Database transaction error: {1}'' [show_store_error e] 503 (''Database transaction error: '' @ show_store_error e)"

definition parse_stream_secs :: "string \<Rightarrow> nat option" where
  "parse_stream_secs raw =
     map_option (\<lambda>ms. ms div 1000) (u64_from_str_radix 10 (case split_once (CHR ''-'') raw of Some (head, _) \<Rightarrow> head | None \<Rightarrow> raw))"

definition generate_status_reply ::
  "'s message_store \<Rightarrow> message_config \<Rightarrow> flow_env \<Rightarrow> session \<Rightarrow> string \<Rightarrow> string \<Rightarrow> bool \<Rightarrow> bool option \<Rightarrow> 's \<Rightarrow>
   (mediator_error + process_message_response) \<times> 's" where
  "generate_status_reply ops cfg env session did_hash thid force_live_delivery override_live_delivery s =
     on_result (pickup_storage_error session thid) (ms_inbox_status ops did_hash s) (\<lambda>inbox s.
       let oldest = parse_stream_secs (is_oldest_received inbox);
           status = \<lparr>sp_recipient_did = ss_did session,
             sp_message_count = (if is_message_count inbox \<le> u32_max then is_message_count inbox else u32_max),
             sp_longest_waited_seconds = map_option (\<lambda>t. wrap_u64 (fl_now env + 18446744073709551616 - t)) oldest,
             sp_newest_received_time = parse_stream_secs (is_newest_received inbox),
             sp_oldest_received_time = oldest,
             sp_total_bytes = is_total_bytes inbox,
             sp_live_delivery = (case override_live_delivery of Some b \<Rightarrow> b | None \<Rightarrow> is_live_delivery inbox)\<rparr>
       in (Inr \<lparr>pr_store_message = False, pr_force_live_delivery = force_live_delivery, pr_forward_message = False,
             pr_data = WrapMessage ((message_build (fl_uuid env) ''https://didcomm.org/messagepickup/3.0/status''
               (OutStatus status))\<lparr>om_thid := Some thid, om_to := Some [ss_did session],
               om_from := Some (cf_mediator_did (mo_base cfg)), om_created_time := Some (fl_now env),
               om_expires_time := Some (wrap_u64 (fl_now env + 300))\<rparr>)\<rparr>, s))"

definition status_request ::
  "(string \<Rightarrow> string) \<Rightarrow> 's message_store \<Rightarrow> message_config \<Rightarrow> (json_value \<Rightarrow> string) \<Rightarrow> flow_env \<Rightarrow> session \<Rightarrow>
   didcomm_message \<Rightarrow> 's \<Rightarrow> (mediator_error + process_message_response) \<times> 's" where
  "status_request digest ops cfg show_json env session msg s =
     on_result id (validate_msg cfg show_json (fl_now env) session msg, s) (\<lambda>_ s.
     case bd_status_request (dm_body msg) of
       Inr (Some recipient_did) \<Rightarrow>
         require (recipient_did = ss_did session) (did_mismatch_error session msg recipient_did) s (\<lambda>s.
         generate_status_reply ops cfg env session (digest recipient_did) (thread_id msg) False None s)
     | _ \<Rightarrow> generate_status_reply ops cfg env session (ss_did_hash session) (thread_id msg) False None s)"

section \<open>Live delivery\<close>

datatype streaming_update = StreamStart string | StreamStop string

definition signal_name :: "streaming_update \<Rightarrow> string" where
  "signal_name u = (case u of StreamStart _ \<Rightarrow> ''START'' | StreamStop _ \<Rightarrow> ''STOP'')"

definition toggle_live_delivery ::
  "'s message_store \<Rightarrow> message_config \<Rightarrow> (json_value \<Rightarrow> string) \<Rightarrow> (streaming_update \<Rightarrow> 's \<Rightarrow> (string + unit) \<times> 's) option \<Rightarrow>
   flow_env \<Rightarrow> session \<Rightarrow> didcomm_message \<Rightarrow> 's \<Rightarrow> (mediator_error + process_message_response) \<times> 's" where
  "toggle_live_delivery ops cfg show_json channel env session msg s =
     on_result id (validate_msg cfg show_json (fl_now env) session msg, s) (\<lambda>_ s.
     on_result (pickup_parse_error session msg ''live_delivery'') (bd_live_delivery (dm_body msg), s) (\<lambda>live s.
     let update = (if live then StreamStart (ss_did_hash session) else StreamStop (ss_did_hash session))
     in on_result (\<lambda>e. problem_with_log 55 (ss_session_id session) (Some (dm_id msg)) SorterError ScopeProtocol
            ''protocol.pickup.live_streaming''
            (''Couldn'' @ [CHR 0x27] @ ''t send '' @ signal_name update @ '' signal to streaming task. Reason: {1}'') [e] 500
            (''Couldn'' @ [CHR 0x27] @ ''t send '' @ signal_name update @ '' signal to streaming task. Reason: '' @ e))
          (case channel of Some send \<Rightarrow> send update s | None \<Rightarrow> (Inr (), s)) (\<lambda>_ s.
        generate_status_reply ops cfg env session (ss_did_hash session) (thread_id msg) True (Some live) s)))"

section \<open>Delivery\<close>

definition parse_delivery_request :: "session \<Rightarrow> didcomm_message \<Rightarrow> mediator_error + string \<times> nat" where
  "parse_delivery_request session msg =
     (case bd_delivery_request (dm_body msg) of
        Inl e \<Rightarrow> Inl (pickup_parse_error session msg ''delivery-request'' e)
      | Inr (recipient_did, limit) \<Rightarrow>
          if ss_did session \<noteq> recipient_did then Inl (did_mismatch_error session msg recipient_did)
          else if \<not> (min_retrieved_msgs \<le> limit \<and> limit \<le> max_retrieved_msgs)
          then Inl (problem_with_log 53 (ss_session_id session) (Some (dm_id msg)) SorterWarning ScopeMessage
                 ''protocol.pickup.delivery_request.limit''
                 ''limit must be between 1 and 100 inclusive. Received limit({1})'' [show_nat limit] 400
                 (''limit must be between 1 and 100 inclusive. Received limit('' @ show_nat limit @ '')''))
          else Inr (recipient_did, limit))"

definition delivery_attachments :: "wire \<Rightarrow> message_list_element list \<Rightarrow> (string option \<times> string) list" where
  "delivery_attachments wi elements =
     List.map_filter (\<lambda>e. map_option (\<lambda>m. (Some (me_msg_id e), wi_base64_encode wi m)) (me_msg e)) elements"

definition delivery_request ::
  "(string \<Rightarrow> string) \<Rightarrow> 's message_store \<Rightarrow> wire \<Rightarrow> message_config \<Rightarrow> (json_value \<Rightarrow> string) \<Rightarrow> flow_env \<Rightarrow> session \<Rightarrow>
   didcomm_message \<Rightarrow> 's \<Rightarrow> (mediator_error + process_message_response) \<times> 's" where
  "delivery_request digest ops wi cfg show_json env session msg s =
     on_result id (validate_msg cfg show_json (fl_now env) session msg, s) (\<lambda>_ s.
     on_result id (parse_delivery_request session msg, s) (\<lambda>(recipient_did, limit) s.
     on_result StoreError
       (ms_fetch_messages ops (digest recipient_did)
          \<lparr>fo_limit = limit, fo_start_id = None, fo_delete_policy = DoNotDelete\<rparr> s) (\<lambda>found s.
     if gr_success found \<noteq> []
     then (Inr \<lparr>pr_store_message = False, pr_force_live_delivery = False, pr_forward_message = False,
             pr_data = WrapMessage ((message_build (fl_uuid env) ''https://didcomm.org/messagepickup/3.0/delivery''
               (OutDelivery recipient_did))\<lparr>om_thid := Some (thread_id msg),
               om_attachments := delivery_attachments wi (gr_success found), om_to := Some [ss_did session],
               om_from := Some (cf_mediator_did (mo_base cfg)), om_created_time := Some (fl_now env),
               om_expires_time := Some (wrap_u64 (fl_now env + 300))\<rparr>)\<rparr>, s)
     else generate_status_reply ops cfg env session (digest recipient_did) (thread_id msg) False None s)))"

section \<open>Acknowledgement\<close>

fun ack_messages :: "'s message_store \<Rightarrow> string \<Rightarrow> string list \<Rightarrow> 's \<Rightarrow> 's" where
  \<comment> \<open>read, then delete as owner; errors are only logged\<close>
  "ack_messages ops did_hash [] s = s"
| "ack_messages ops did_hash (msg_id # msg_ids) s =
     (case ms_get_message ops did_hash msg_id s of
        (Inr _, s1) \<Rightarrow> ack_messages ops did_hash msg_ids (snd (ms_delete_message ops msg_id (Owner did_hash) s1))
      | (Inl _, s1) \<Rightarrow> ack_messages ops did_hash msg_ids s1)"

definition messages_received ::
  "'s message_store \<Rightarrow> message_config \<Rightarrow> (json_value \<Rightarrow> string) \<Rightarrow> flow_env \<Rightarrow> session \<Rightarrow>
   didcomm_message \<Rightarrow> 's \<Rightarrow> (mediator_error + process_message_response) \<times> 's" where
  "messages_received ops cfg show_json env session msg s =
     on_result id (validate_msg cfg show_json (fl_now env) session msg, s) (\<lambda>_ s.
     on_result (pickup_parse_error session msg ''messages-received'') (bd_messages_received (dm_body msg), s)
       (\<lambda>message_id_list s.
     generate_status_reply ops cfg env session (ss_did_hash session) (thread_id msg) False None
       (ack_messages ops (ss_did_hash session) message_id_list s)))"

end
