(* ===== verification/Routing.thy ===== *)
theory Routing
  imports MessageFlow
begin

text \<open>
  Routing 2.0 (\<open>messages/protocols/routing.rs\<close>): the \<open>forward\<close> handler, from the checks on next hop, sender,
  access list, queues and delay to delivery, which live-streams an ephemeral message, enqueues one for
  a remote mediator (re-encrypted in \<open>Rewrap\<close> mode) or stores a local one.
\<close>

section \<open>Relays\<close>

definition forward_type :: string where
  "forward_type = ''https://didcomm.org/routing/2.0/forward''"

definition relay_sender_acls :: "mediator_acl_set \<Rightarrow> mediator_acl_set" where
  "relay_sender_acls global_acl_default =
     (let acls = (case from_string_ruleset ''DENY_ALL'' of Inr a \<Rightarrow> a | Inl _ \<Rightarrow> default_acl_set)
      in if grants global_acl_default SendForwarded
         then (case set_send_forwarded acls True False True of Inr a \<Rightarrow> a | Inl _ \<Rightarrow> acls)
         else acls)"

definition rewrap_for_relay ::
  "wire \<Rightarrow> message_config \<Rightarrow> flow_env \<Rightarrow> session \<Rightarrow> string \<Rightarrow> string \<Rightarrow> nat \<Rightarrow> mediator_error + string" where
  "rewrap_for_relay wi cfg env session inner next_did hop_count =
     (let forward = (message_build (fl_uuid env) forward_type (OutForward next_did))
            \<lparr>om_to := Some [next_did], om_from := Some (cf_mediator_did (mo_base cfg)),
             om_attachments := [(None, wi_base64_encode wi inner)], om_hop_count := Some hop_count\<rparr>
      in case wi_pack_encrypted wi forward next_did (Some (cf_mediator_did (mo_base cfg))) of
           Inr packed \<Rightarrow> Inr packed
         | Inl e \<Rightarrow> Inl (problem_with_log 47 (ss_session_id session) None SorterError ScopeProtocol ''message.pack''
             (''Couldn'' @ [CHR 0x27] @ ''t re-wrap forward for relay: {1}'') [e] 400
             (''Couldn'' @ [CHR 0x27] @ ''t re-wrap forward for relay: '' @ e)))"

definition rewrap_inner_attachment :: "wire \<Rightarrow> string \<Rightarrow> didcomm_message \<Rightarrow> string option" where
  "rewrap_inner_attachment wi mediator_did msg =
     (if dm_typ msg \<noteq> forward_type then None
      else (case bd_forward (dm_body msg) of
          Inr (Some next_did) \<Rightarrow>
            if next_did \<noteq> mediator_did then None
            else (case dm_attachments msg of
                Some (a # _) \<Rightarrow> (case at_base64 a of
                    Some b64 \<Rightarrow> (case wi_base64_decode wi b64 of Inr inner \<Rightarrow> Some inner | Inl _ \<Rightarrow> None)
                  | None \<Rightarrow> None)
              | _ \<Rightarrow> None)
        | _ \<Rightarrow> None))"

definition relay_peer_trusted :: "string list \<Rightarrow> string option \<Rightarrow> bool" where
  "relay_peer_trusted allow from_did = (allow = [] \<or> (case from_did of Some did \<Rightarrow> did \<in> set allow | None \<Rightarrow> False))"

section \<open>Checks\<close>

definition forward_problem ::
  "session \<Rightarrow> didcomm_message \<Rightarrow> nat \<Rightarrow> problem_report_sorter \<Rightarrow> problem_report_scope \<Rightarrow> string \<Rightarrow> string \<Rightarrow> string list \<Rightarrow>
   nat \<Rightarrow> mediator_error" where
  "forward_problem session msg code sorter scope descriptor comment args http_status =
     problem code (ss_session_id session) (Some (dm_id msg)) sorter scope descriptor comment args http_status"

definition forward_problem_log ::
  "session \<Rightarrow> didcomm_message \<Rightarrow> nat \<Rightarrow> problem_report_sorter \<Rightarrow> problem_report_scope \<Rightarrow> string \<Rightarrow> string \<Rightarrow> string list \<Rightarrow>
   nat \<Rightarrow> string \<Rightarrow> mediator_error" where
  "forward_problem_log session msg code sorter scope descriptor comment args http_status log_msg =
     problem_with_log code (ss_session_id session) (Some (dm_id msg)) sorter scope descriptor comment args http_status log_msg"

definition parse_next_did :: "session \<Rightarrow> didcomm_message \<Rightarrow> mediator_error + string" where
  "parse_next_did session msg =
     (case bd_forward (dm_body msg) of
        Inr (Some next_did) \<Rightarrow> Inr next_did
      | Inr None \<Rightarrow> Inl (forward_problem session msg 56 SorterWarning ScopeMessage ''protocol.forwarding.next.missing''
          ''Forwarding message is missing next field'' [] 400)
      | Inl e \<Rightarrow> Inl (forward_problem_log session msg 57 SorterWarning ScopeMessage ''protocol.forwarding.parse''
          ''Failed to parse forwarding message body. Reason: {1}'' [e] 400
          (''Failed to parse forwarding message body. Reason: '' @ e)))"

definition queue_at_capacity :: "nat \<Rightarrow> nat \<Rightarrow> int \<Rightarrow> bool \<Rightarrow> bool" where
  \<comment> \<open>all in \<open>u32\<close>: the sum wraps, a negative limit is cast\<close>
  "queue_at_capacity queued incoming limit ephemeral =
     (limit \<noteq> - 1 \<and> \<not> ephemeral \<and> nat (limit mod 4294967296) \<le> (queued + incoming mod 4294967296) mod 4294967296)"

definition validate_sender_queue_limit ::
  "message_config \<Rightarrow> session \<Rightarrow> didcomm_message \<Rightarrow> account \<Rightarrow> nat \<Rightarrow> bool \<Rightarrow> mediator_error + unit" where
  "validate_sender_queue_limit cfg session msg from_account attachment_count ephemeral =
     (if queue_at_capacity (ac_send_queue_count from_account) attachment_count
           (or_default (mo_queued_send_messages_soft cfg) (ac_queue_send_limit from_account)) ephemeral
      then Inl (forward_problem session msg 61 SorterError ScopeProtocol ''limits.queue.sender''
             ''Sender has too many messages waiting to be delivered'' [] 503)
      else Inr ())"

definition validate_recipient_queue_limit ::
  "message_config \<Rightarrow> session \<Rightarrow> didcomm_message \<Rightarrow> account \<Rightarrow> nat \<Rightarrow> bool \<Rightarrow> mediator_error + unit" where
  "validate_recipient_queue_limit cfg session msg next_account attachment_count ephemeral =
     (if queue_at_capacity (ac_receive_queue_count next_account) attachment_count
           (or_default (mo_queued_receive_messages_soft cfg) (ac_queue_receive_limit next_account)) ephemeral
      then Inl (forward_problem session msg 62 SorterError ScopeProtocol ''limits.queue.recipient''
             ''Recipient (next) has too many messages waiting to be delivered'' [] 503)
      else Inr ())"

definition decode_first_attachment :: "wire \<Rightarrow> session \<Rightarrow> didcomm_message \<Rightarrow> attachment list \<Rightarrow> mediator_error + string" where
  "decode_first_attachment wi session msg attachments =
     (case attachments of
        [] \<Rightarrow> Inl (forward_problem session msg 59 SorterWarning ScopeMessage ''protocol.forwarding.attachments.missing''
           ''Forward message has empty attachments list'' [] 400)
      | a # _ \<Rightarrow>
          (case at_base64 a of
             Some b64 \<Rightarrow> (case wi_base64_decode wi b64 of
                 Inr data \<Rightarrow> Inr data
               | Inl e \<Rightarrow> Inl (forward_problem_log session msg 68 SorterWarning ScopeMessage
                   ''protocol.forwarding.attachments.base64'' ''Failed to decode base64 attachment. Reason: {1}'' [e] 400
                   (''Failed to decode base64 attachment. Reason: '' @ e)))
           | None \<Rightarrow>
               (case at_json a of
                  Some data \<Rightarrow>
                    if at_jws a \<noteq> None
                    then Inl (forward_problem session msg 66 SorterError ScopeProtocol ''me.not_implemented''
                           ''JWS verified attachments are not yet supported by this mediator'' [] 501)
                    else (case data of
                            Inr data \<Rightarrow> Inr data
                          | Inl e \<Rightarrow> Inl (forward_problem_log session msg 67 SorterWarning ScopeMessage
                              ''protocol.forwarding.attachments.json.invalid'' ''Invalid attachment JSON schema. Reason: {1}'' [e] 400
                              (''Invalid attachment JSON schema. Reason: '' @ e)))
                | None \<Rightarrow>
                    if at_links a \<noteq> None
                    then Inl (forward_problem session msg 66 SorterError ScopeProtocol ''me.not_implemented''
                           ''Linked attachments are not yet supported by this mediator'' [] 501)
                    else Inl (forward_problem session msg 67 SorterWarning ScopeMessage
                           ''protocol.forwarding.attachments.unknown'' ''Attachment data format is not supported'' [] 400))))"

section \<open>Where the next hop is\<close>

definition get_uris :: "endpoint \<Rightarrow> string list" where
  "get_uris e =
     (case e of
        EndpointUrl uri \<Rightarrow> [uri]
      | EndpointArray xs \<Rightarrow> List.map_filter id xs
      | EndpointObject x \<Rightarrow> (case x of Some uri \<Rightarrow> [uri] | None \<Rightarrow> [])
      | EndpointOther \<Rightarrow> [])"

definition normalize_host :: "string \<Rightarrow> string" where
  "normalize_host host =
     to_ascii_lowercase
       (if host \<noteq> [] \<and> hd host = CHR ''['' \<and> tl host \<noteq> [] \<and> last host = CHR '']'' then butlast (tl host) else host)"

definition default_port_for :: "parsed_url \<Rightarrow> nat option" where
  "default_port_for url =
     (case pu_port url of
        Some port \<Rightarrow> Some port
      | None \<Rightarrow> if pu_scheme url \<in> {''http'', ''ws''} then Some 80
                else if pu_scheme url \<in> {''https'', ''wss''} then Some 443 else None)"

definition uri_points_at_self :: "wire \<Rightarrow> string \<Rightarrow> (string \<times> nat) list \<Rightarrow> bool" where
  "uri_points_at_self wi uri self_authorities =
     (case wi_url wi uri of
        None \<Rightarrow> False
      | Some url \<Rightarrow> (case pu_host url of
          None \<Rightarrow> False
        | Some host \<Rightarrow> (case default_port_for url of
            None \<Rightarrow> False
          | Some port \<Rightarrow> (normalize_host host, port) \<in> set self_authorities)))"

definition trim_quotes :: "string \<Rightarrow> string" where
  \<comment> \<open>\<open>trim_matches\<close> with the double quote\<close>
  "trim_quotes s = rev (dropWhile (\<lambda>c. c = CHR 0x22) (rev (dropWhile (\<lambda>c. c = CHR 0x22) s)))"

fun endpoint_in_uris :: "wire \<Rightarrow> message_config \<Rightarrow> string list \<Rightarrow> string option option" where
  \<comment> \<open>\<open>Some\<close> when one of the URIs decides: the remote endpoint, or \<open>Some None\<close> for local\<close>
  "endpoint_in_uris wi cfg [] = None"
| "endpoint_in_uris wi cfg (uri # uris) =
     (let uri_clean = trim_quotes uri in
      if uri_clean = cf_mediator_did (mo_base cfg) then Some None
      else if list_ex (\<lambda>p. is_prefix p uri_clean) [''http://'', ''https://'', ''ws://'', ''wss://'']
      then (if uri_points_at_self wi uri_clean (mo_self_authorities cfg) then Some None else Some (Some uri_clean))
      else endpoint_in_uris wi cfg uris)"

fun service_endpoint_for_remote :: "wire \<Rightarrow> message_config \<Rightarrow> did_service list \<Rightarrow> string option" where
  "service_endpoint_for_remote wi cfg [] = None"
| "service_endpoint_for_remote wi cfg (service # services) =
     (if ''DIDCommMessaging'' \<notin> set (dv_types service) then service_endpoint_for_remote wi cfg services
      else (case endpoint_in_uris wi cfg (get_uris (dv_endpoint service)) of
          Some r \<Rightarrow> r
        | None \<Rightarrow> service_endpoint_for_remote wi cfg services))"

definition remote_endpoint :: "wire \<Rightarrow> message_config \<Rightarrow> string \<Rightarrow> string option" where
  "remote_endpoint wi cfg next_did =
     (if mo_external_forwarding cfg
      then (case wi_resolve wi next_did of Inr services \<Rightarrow> service_endpoint_for_remote wi cfg services | Inl _ \<Rightarrow> None)
      else None)"

section \<open>Delivery\<close>

definition message_hop_count :: "didcomm_message \<Rightarrow> nat" where
  "message_hop_count msg =
     as_u32 (case dm_extra msg ''hop_count'' of Some v \<Rightarrow> or_default 0 (as_u64 v) | None \<Rightarrow> 0)"

definition enqueue_remote ::
  "'s message_store \<Rightarrow> wire \<Rightarrow> message_config \<Rightarrow> flow_env \<Rightarrow> session \<Rightarrow> didcomm_message \<Rightarrow> string \<Rightarrow> string \<Rightarrow> account \<Rightarrow>
   string \<Rightarrow> int \<Rightarrow> nat \<Rightarrow> string \<Rightarrow> 's \<Rightarrow> (mediator_error + unit) \<times> 's" where
  "enqueue_remote ops wi cfg env session msg next_did next_did_hash from_account data delay_milli expires_at endpoint_url s =
     (let hop_count = message_hop_count msg; limit = show_nat (mo_max_hops cfg) in
      require (\<not> mo_max_hops cfg \<le> hop_count)
        (forward_problem_log session msg 94 SorterError ScopeProtocol ''protocol.forwarding.loop_detected''
           ''Message exceeded maximum hop count ({1}), possible forwarding loop'' [limit] 508
           (''Message exceeded maximum hop count ('' @ limit @ ''), possible forwarding loop'')) s (\<lambda>s.
      on_result id
        (case mo_relay_mode cfg of
           Blind \<Rightarrow> Inr data
         | Rewrap \<Rightarrow> rewrap_for_relay wi cfg env session data next_did (as_u32 (hop_count + 1)), s) (\<lambda>relay_message s.
      on_result (\<lambda>e. forward_problem_log session msg 90 SorterError ScopeProtocol ''me.res.forwarding.enqueue''
           ''Failed to enqueue message for remote forwarding: {1}'' [show_store_error e] 503
           (''Failed to enqueue message for remote forwarding: '' @ show_store_error e))
        (ms_forward_queue_enqueue ops
           \<lparr>fe_stream_id = [], fe_message = relay_message, fe_to_did_hash = next_did_hash,
            fe_from_did_hash = ac_did_hash from_account, fe_from_did = or_default [] (dm_from msg), fe_to_did = next_did,
            fe_endpoint_url = endpoint_url, fe_received_at_ms = fl_now_ms env, fe_delay_milli = delay_milli,
            fe_expires_at = expires_at, fe_retry_count = 0, fe_hop_count = as_u32 (hop_count + 1)\<rparr>
           (mo_forward_task_queue cfg) s)
        (\<lambda>_ s. (Inr (), s)))))"

definition deliver_forward ::
  "(string \<Rightarrow> string) \<Rightarrow> 's message_store \<Rightarrow> wire \<Rightarrow> message_config \<Rightarrow> flow_env \<Rightarrow> session \<Rightarrow> didcomm_message \<Rightarrow> string \<Rightarrow>
   mediator_acl_set \<Rightarrow> account \<Rightarrow> string \<Rightarrow> int \<Rightarrow> nat \<Rightarrow> bool \<Rightarrow> 's \<Rightarrow> (mediator_error + unit) \<times> 's" where
  "deliver_forward digest ops wi cfg env session msg next_did next_acls from_account data delay_milli expires_at ephemeral s =
     on_result (\<lambda>e. forward_problem_log session msg 37 SorterError ScopeProtocol ''message.envelope.read''
         (''Couldn'' @ [CHR 0x27] @ ''t read forward attached DIDComm envelope: {1}'') [e] 400
         (''Couldn'' @ [CHR 0x27] @ ''t read DIDComm envelope: '' @ e)) (wi_envelope wi data, s) (\<lambda>next_envelope s.
     require (\<not> (en_from_did next_envelope = None \<and> \<not> fst (get_anon_receive next_acls)))
       (forward_problem session msg 69 SorterError ScopeProtocol ''authorization.receive_anon''
          (''Recipient isn'' @ [CHR 0x27] @ ''t accepting anonymous messages'') [] 403) s (\<lambda>s.
     if ephemeral then (Inr (), live_stream ops (digest next_did) data False s)
     else (case remote_endpoint wi cfg next_did of
         Some endpoint_url \<Rightarrow>
           enqueue_remote ops wi cfg env session msg next_did (digest next_did) from_account data delay_milli expires_at
             endpoint_url s
       | None \<Rightarrow>
           store_forwarded_message digest ops cfg (fl_now env) data (Some (ac_did_hash from_account)) next_did
             (Some expires_at) s)))"

definition forward_storage_error :: "session \<Rightarrow> didcomm_message \<Rightarrow> store_error \<Rightarrow> mediator_error" where
  "forward_storage_error session msg e =
     forward_problem_log session msg 14 SorterError ScopeProtocol ''me.res.storage.error''
       ''Database transaction error: {1}'' [show_store_error e] 503 (''Database transaction error: '' @ show_store_error e)"

definition resolve_account ::
  "'s message_store \<Rightarrow> session \<Rightarrow> didcomm_message \<Rightarrow> string \<Rightarrow> mediator_acl_set \<Rightarrow> 's \<Rightarrow> (mediator_error + account) \<times> 's" where
  \<comment> \<open>\<open>account_get\<close>, else \<open>account_add\<close> with the given ACLs\<close>
  "resolve_account ops session msg did_hash acls s =
     on_result (forward_storage_error session msg) (ms_account_get ops did_hash s) (\<lambda>found s.
       case found of
         Some account \<Rightarrow> (Inr account, s)
       | None \<Rightarrow> on_result (forward_storage_error session msg) (ms_account_add ops did_hash acls None s)
                   (\<lambda>account s. (Inr account, s)))"

definition resolve_next_account ::
  "'s message_store \<Rightarrow> message_config \<Rightarrow> session \<Rightarrow> didcomm_message \<Rightarrow> string \<Rightarrow> 's \<Rightarrow> (mediator_error + account) \<times> 's" where
  "resolve_next_account ops cfg session msg next_did_hash s =
     resolve_account ops session msg next_did_hash (cf_global_acl_default (mo_base cfg)) s"

definition send_forwarded_error :: "session \<Rightarrow> didcomm_message \<Rightarrow> mediator_error" where
  "send_forwarded_error session msg =
     forward_problem session msg 60 SorterError ScopeProtocol ''authorization.send_forwarded''
       (''Sender isn'' @ [CHR 0x27] @ ''t allowed to send forwarded messages'') [] 403"

definition default_account :: account where
  \<comment> \<open>\<open>Account::default\<close>\<close>
  "default_account = \<lparr>ac_did_hash = [], ac_acls = 0, ac_type = Standard, ac_access_list_count = 0,
     ac_queue_send_limit = None, ac_queue_receive_limit = None, ac_send_queue_count = 0, ac_send_queue_bytes = 0,
     ac_receive_queue_count = 0, ac_receive_queue_bytes = 0\<rparr>"

definition resolve_forward_sender ::
  "(string \<Rightarrow> string) \<Rightarrow> 's message_store \<Rightarrow> message_config \<Rightarrow> session \<Rightarrow> didcomm_message \<Rightarrow> 's \<Rightarrow> (mediator_error + account) \<times> 's" where
  "resolve_forward_sender digest ops cfg session msg s =
     (case dm_from msg of
        Some from_did \<Rightarrow>
          on_result id (resolve_account ops session msg (digest from_did)
            (relay_sender_acls (cf_global_acl_default (mo_base cfg))) s) (\<lambda>from_account s.
          require (is_ok (require_capability (from_u64 (ac_acls from_account)) SendForwarded))
            (send_forwarded_error session msg) s (\<lambda>s. (Inr from_account, s)))
      | None \<Rightarrow>
          require (is_ok (require_capability (ss_acls session) SendForwarded)) (send_forwarded_error session msg) s (\<lambda>s.
            (Inr (default_account\<lparr>ac_acls := to_u64 (cf_global_acl_default (mo_base cfg))\<rparr>), s)))"

section \<open>The handler\<close>

definition ephemeral_header ::
  "(string \<Rightarrow> string) \<Rightarrow> 's message_store \<Rightarrow> wire \<Rightarrow> message_config \<Rightarrow> flow_env \<Rightarrow> session \<Rightarrow> unpack_metadata \<Rightarrow>
   didcomm_message \<Rightarrow> 's \<Rightarrow> (mediator_error + bool) \<times> 's" where
  \<comment> \<open>a header that is not a boolean is reported to the sender and taken as false\<close>
  "ephemeral_header digest ops wi cfg env session metadata msg s =
     (case dm_extra msg ''ephemeral'' of
        None \<Rightarrow> (Inr False, s)
      | Some v \<Rightarrow> (case as_bool v of
          Some b \<Rightarrow> (Inr b, s)
        | None \<Rightarrow>
            on_result id
              (store_response digest ops wi cfg (fl_now env) session
                 (generate_error_response cfg env session (dm_id msg)
                    (problem_report_new SorterWarning ScopeMessage ''message.header.ephemera.invalid''
                       (''Ephemeral header isn'' @ [CHR 0x27] @
                        ''t a JSON bool value. Defaults to false and still sends message'') [] None) True)
                 metadata s)
              (\<lambda>_ s. (Inr False, s))))"

definition delay_of :: "didcomm_message \<Rightarrow> int" where
  "delay_of msg = (case dm_extra msg ''delay_milli'' of Some v \<Rightarrow> or_default 0 (as_i64 v) | None \<Rightarrow> 0)"

definition delay_ok :: "message_config \<Rightarrow> int \<Rightarrow> bool" where
  \<comment> \<open>in \<open>i64\<close>: the absolute value and the product wrap\<close>
  "delay_ok cfg delay_milli =
     (\<not> wrap_i64 (wrap_i64 (int (mo_future_time_limit cfg)) * 1000) < wrap_i64 \<bar>delay_milli\<bar>)"

definition forward_checks ::
  "(string \<Rightarrow> string) \<Rightarrow> 's message_store \<Rightarrow> message_config \<Rightarrow> session \<Rightarrow> didcomm_message \<Rightarrow> bool \<Rightarrow> attachment list \<Rightarrow>
   account \<Rightarrow> string \<Rightarrow> account \<Rightarrow> 's \<Rightarrow> (mediator_error + unit) \<times> 's" where
  \<comment> \<open>access list, queue, attachment and delay limits\<close>
  "forward_checks digest ops cfg session msg ephemeral attachments next_account next_did_hash from_account s =
     (let n = show_nat (length attachments); m = show_nat (mo_attachments_max_count cfg);
          future = show_nat (wrap_u64 (mo_future_time_limit cfg * 1000)) in
     require (is_ok (check_access_list (ms_access_list_allowed ops) next_did_hash (Some (ac_did_hash from_account)) s))
       (forward_problem session msg 73 SorterError ScopeProtocol ''authorization.access_list.denied''
          ''Delivery blocked due to ACLs (access_list denied)'' [] 403) s (\<lambda>s.
     on_result id (validate_sender_queue_limit cfg session msg from_account (length attachments) ephemeral, s) (\<lambda>_ s.
     on_result id (validate_recipient_queue_limit cfg session msg next_account (length attachments) ephemeral, s) (\<lambda>_ s.
     require (length attachments \<le> mo_attachments_max_count cfg)
       (forward_problem_log session msg 63 SorterWarning ScopeMessage ''protocol.forwarding.attachments.too_many''
          ''Forwarded message has too many attachments ({1}). Limit is ({2})'' [n, m] 400
          (''Forwarded message has too many attachments ('' @ n @ ''). Limit is ('' @ m @ '')'')) s (\<lambda>s.
     on_result StoreError (if ephemeral then (Inr None, s)
         else map_prod (map_sum id Some) id (ms_forward_queue_len ops s)) (\<lambda>queued s.
     require (case queued of None \<Rightarrow> True | Some q \<Rightarrow> \<not> mo_forward_task_queue cfg \<le> q)
       (forward_problem session msg 64 SorterError ScopeProtocol ''me.res.forwarding.queue.limit''
          ''Mediator forwarding queue is at max limit, try again later'' [n, m] 503) s (\<lambda>s.
     require (delay_ok cfg (delay_of msg))
       (forward_problem_log session msg 65 SorterWarning ScopeMessage ''protocol.forwarding.delay_milli''
          (''Forward delay_milli field isn'' @ [CHR 0x27] @ ''t valid. Max field value: {1}'') [future] 400
          (''Forward delay_milli field isn'' @ [CHR 0x27] @ ''t valid. Max field value: '' @ future)) s
       (\<lambda>s. (Inr (), s)))))))))"

definition routing_process ::
  "(string \<Rightarrow> string) \<Rightarrow> 's message_store \<Rightarrow> wire \<Rightarrow> message_config \<Rightarrow> flow_env \<Rightarrow> session \<Rightarrow> unpack_metadata \<Rightarrow>
   didcomm_message \<Rightarrow> 's \<Rightarrow> (mediator_error + process_message_response) \<times> 's" where
  "routing_process digest ops wi cfg env session metadata msg s =
     on_result id (ephemeral_header digest ops wi cfg env session metadata msg s) (\<lambda>ephemeral s.
     on_result id (parse_next_did session msg, s) (\<lambda>next_did s.
     on_result id (resolve_next_account ops cfg session msg (digest next_did) s) (\<lambda>next_account s.
     let next_acls = from_u64 (ac_acls next_account) in
     require (is_ok (require_capability next_acls ReceiveForwarded))
       (forward_problem session msg 58 SorterError ScopeProtocol ''authorization.receive_forwarded''
          (''Recipient isn'' @ [CHR 0x27] @ ''t accepting forwarded messages'') [] 403) s (\<lambda>s.
     case dm_attachments msg of
       None \<Rightarrow> (Inl (forward_problem session msg 59 SorterWarning ScopeMessage ''protocol.forwarding.attachments.missing''
          ''There were no attachments for this forward message'' [] 400), s)
     | Some attachments \<Rightarrow>
         on_result id (resolve_forward_sender digest ops cfg session msg s) (\<lambda>from_account s.
         on_result id (forward_checks digest ops cfg session msg ephemeral attachments next_account (digest next_did)
           from_account s) (\<lambda>_ s.
         on_result id (decode_first_attachment wi session msg attachments, s) (\<lambda>data s.
         on_result id (deliver_forward digest ops wi cfg env session msg next_did next_acls from_account data
             (delay_of msg) (capped_expiry cfg (fl_now env) (dm_expires_time msg)) ephemeral s) (\<lambda>_ s.
         (Inr \<lparr>pr_store_message = False, pr_force_live_delivery = False, pr_forward_message = True,
              pr_data = WrapNone\<rparr>, s)))))))))"

end
