(* ===== verification/Inbound.thy ===== *)
theory Inbound
  imports MessagePickup Routing
begin

text \<open>
  Messages coming in (\<open>messages/inbound.rs\<close>, \<open>MessageType::process\<close> of \<open>messages/mod.rs\<close>): the rate limit,
  the stripping of relay layers, the dispatch of a message for the mediator to its protocol, the direct
  delivery of one for a local account, and the TSP path.

  The administration protocols and trust tasks are a parameter of the dispatch, \<open>others\<close>; the former are
  modelled in their own theories. What the TSP library does with a raw message (parsing its envelope,
  unpacking a layer, sealing one) is the record \<open>tsp_wire\<close>.
\<close>

section \<open>Dispatch\<close>

record 's protocols =
  po_others :: "message_type \<Rightarrow> didcomm_message \<Rightarrow> unpack_metadata \<Rightarrow> session \<Rightarrow> 's \<Rightarrow>
     (mediator_error + process_message_response) \<times> 's"
  po_features :: discover_features
  po_show_json :: "json_value \<Rightarrow> string"
  po_streaming :: "(streaming_update \<Rightarrow> 's \<Rightarrow> (string + unit) \<times> 's) option"

definition not_processed :: "session \<Rightarrow> didcomm_message \<Rightarrow> nat \<Rightarrow> string \<Rightarrow> nat \<Rightarrow> mediator_error" where
  "not_processed session msg code comment http_status =
     problem code (ss_session_id session) (Some (dm_id msg)) SorterError ScopeProtocol ''me.not_implemented'' comment []
       http_status"

definition process_type ::
  "(string \<Rightarrow> string) \<Rightarrow> 's message_store \<Rightarrow> wire \<Rightarrow> message_config \<Rightarrow> 's protocols \<Rightarrow> flow_env \<Rightarrow> session \<Rightarrow> unpack_metadata \<Rightarrow>
   didcomm_message \<Rightarrow> message_type \<Rightarrow> 's \<Rightarrow> (mediator_error + process_message_response) \<times> 's" where
  "process_type digest ops wi cfg po env session metadata msg typ s =
     (case typ of
        MediatorAdministrationType \<Rightarrow> po_others po typ msg metadata session s
      | MediatorAccountManagementType \<Rightarrow> po_others po typ msg metadata session s
      | MediatorACLManagementType \<Rightarrow> po_others po typ msg metadata session s
      | TrustTaskEnvelope \<Rightarrow> po_others po typ msg metadata session s
      | TrustPing \<Rightarrow> (ping_process env session msg, s)
      | MessagePickupStatusRequest \<Rightarrow> status_request digest ops cfg (po_show_json po) env session msg s
      | MessagePickupStatusResponse \<Rightarrow>
          (Inl (not_processed session msg 66 ''Mediator does not process Message Pickup status responses'' 501), s)
      | MessagePickupDeliveryRequest \<Rightarrow> delivery_request digest ops wi cfg (po_show_json po) env session msg s
      | MessagePickupMessagesReceived \<Rightarrow> messages_received ops cfg (po_show_json po) env session msg s
      | MessagePickupLiveDeliveryChange \<Rightarrow>
          toggle_live_delivery ops cfg (po_show_json po) (po_streaming po) env session msg s
      | AffinidiAuthenticate \<Rightarrow> (Inl (not_processed session msg 66
          ''Authentication must use the /authenticate endpoint, not the message handler'' 400), s)
      | AffinidiAuthenticateRefresh \<Rightarrow> (Inl (not_processed session msg 66
          ''Authentication refresh must use the /authenticate/refresh endpoint, not the message handler'' 400), s)
      | ForwardRequest \<Rightarrow> routing_process digest ops wi cfg env session metadata msg s
      | ProblemReportType \<Rightarrow>
          (Inl (not_processed session msg 66 ''Mediator does not process inbound Problem Report messages'' 501), s)
      | DiscoverFeaturesQueries \<Rightarrow> (discover_process (po_features po) env session msg, s)
      | DiscoverFeaturesDisclose \<Rightarrow>
          (Inl (not_processed session msg 88 ''Mediator does not process Discover Features disclosure responses'' 501), s)
      | OtherType t \<Rightarrow>
          (Inl (problem_with_log 66 (ss_session_id session) (Some (dm_id msg)) SorterError ScopeProtocol ''me.not_implemented''
             ''Unsupported message type: {1}'' [t] 501 (''Unsupported message type: '' @ t)), s))"

definition process_message ::
  "(string \<Rightarrow> string) \<Rightarrow> 's message_store \<Rightarrow> wire \<Rightarrow> message_config \<Rightarrow> 's protocols \<Rightarrow> flow_env \<Rightarrow> session \<Rightarrow> unpack_metadata \<Rightarrow>
   didcomm_message \<Rightarrow> 's \<Rightarrow> (mediator_error + process_message_response) \<times> 's" where
  "process_message digest ops wi cfg po env session metadata msg s =
     (case message_expired (ss_session_id session) (Some (dm_id msg)) (fl_now env) msg of
        Some e \<Rightarrow> (Inl e, s)
      | None \<Rightarrow> process_type digest ops wi cfg po env session metadata msg (message_type_of (dm_typ msg)) s)"

section \<open>Relay layers\<close>

function peel_layers ::
  "wire \<Rightarrow> message_config \<Rightarrow> session \<Rightarrow> nat \<Rightarrow> string \<Rightarrow> mediator_error + string" where
  "peel_layers wi cfg session depth current =
     (case wi_envelope wi current of
        Inl _ \<Rightarrow> Inr current
      | Inr envelope \<Rightarrow>
          if en_to_did envelope \<noteq> Some (cf_mediator_did (mo_base cfg)) then Inr current
          else (case en_unpack envelope of
              Inl _ \<Rightarrow> Inr current
            | Inr (msg, _) \<Rightarrow>
                (case rewrap_inner_attachment wi (cf_mediator_did (mo_base cfg)) msg of
                   None \<Rightarrow> Inr current
                 | Some inner \<Rightarrow>
                     if \<not> relay_peer_trusted (mo_relay_trusted_mediators cfg) (dm_from msg)
                     then Inl (problem 60 (ss_session_id session) (Some (dm_id msg)) SorterError ScopeProtocol
                            ''authorization.relay.untrusted_peer''
                            ''Relaying mediator is not in the trusted relay allowlist'' [] 403)
                     else if mo_max_hops cfg < depth + 1
                     then Inl (problem 94 (ss_session_id session) (Some (dm_id msg)) SorterError ScopeProtocol
                            ''protocol.forwarding.loop_detected''
                            ''Re-wrap relay exceeded maximum hop count, possible loop'' [] 508)
                     else peel_layers wi cfg session (depth + 1) inner)))"
  by pat_completeness auto
termination
  by (relation "measure (\<lambda>(wi, cfg, session, depth, current). mo_max_hops cfg - depth)") auto

definition peel_relay_rewrap_layers :: "wire \<Rightarrow> message_config \<Rightarrow> session \<Rightarrow> string \<Rightarrow> mediator_error + string" where
  "peel_relay_rewrap_layers wi cfg session message = peel_layers wi cfg session 0 message"

section \<open>DIDComm\<close>

definition check_session_sender_match :: "session \<Rightarrow> string \<Rightarrow> string option \<Rightarrow> mediator_error + unit" where
  "check_session_sender_match session msg_id kid =
     (let shown = (case kid of Some k \<Rightarrow> k | None \<Rightarrow> ''anonymous'') in
      if (case kid of None \<Rightarrow> False
          | Some k \<Rightarrow> (case split_once (CHR ''#'') k of None \<Rightarrow> False | Some (did, _) \<Rightarrow> did = ss_did session))
      then Inr ()
      else Inl (problem_with_log 52 (ss_session_id session) (Some msg_id) SorterError ScopeProtocol
             ''authorization.did.session_mismatch'' (''Sender DID ({1}) doesn'' @ [CHR 0x27] @ ''t match session DID'') [shown]
             400 (''Sender DID ('' @ shown @ '') doesn'' @ [CHR 0x27] @ ''t match session DID'')))"

definition kid_of_sender :: "unpack_metadata \<Rightarrow> string option" where
  "kid_of_sender metadata = (case um_sign_from metadata of Some k \<Rightarrow> Some k | None \<Rightarrow> um_encrypted_from_kid metadata)"

definition message_to_mediator ::
  "(string \<Rightarrow> string) \<Rightarrow> 's message_store \<Rightarrow> wire \<Rightarrow> message_config \<Rightarrow> 's protocols \<Rightarrow> flow_env \<Rightarrow> session \<Rightarrow> string \<Rightarrow>
   meta_envelope \<Rightarrow> 's \<Rightarrow> (mediator_error + inbound_message_response) \<times> 's" where
  "message_to_mediator digest ops wi cfg po env session message envelope s =
     on_result (\<lambda>e. problem_with_log 32 (ss_session_id session) None SorterError ScopeProtocol ''message.unpack''
         ''Message unpack failed: envelope {1} Reason: {2}'' [message, e] 403 (''Message unpack failed. Reason: '' @ e))
       (en_unpack envelope, s) (\<lambda>(msg, metadata) s.
     require (\<not> (\<not> um_authenticated metadata \<and> um_sign_from metadata = None \<and> mo_block_anonymous_outer_envelope cfg))
       (anonymous_error session msg ''Mediator is not allowing anonymous messages (no authcrypt or JWS signature)'') s (\<lambda>s.
     on_result id
       (if mo_force_session_did_match cfg \<and> ss_authenticated session
        then check_session_sender_match session (dm_id msg) (kid_of_sender metadata) else Inr (), s) (\<lambda>_ s.
     on_result id (process_message digest ops wi cfg po env session metadata msg s) (\<lambda>response s.
     store_response digest ops wi cfg (fl_now env) session response metadata s))))"

definition inbound_problem :: "session \<Rightarrow> nat \<Rightarrow> problem_report_sorter \<Rightarrow> problem_report_scope \<Rightarrow> string \<Rightarrow> string \<Rightarrow> mediator_error" where
  "inbound_problem session code sorter scope descriptor comment =
     problem code (ss_session_id session) None sorter scope descriptor comment [] 403"

definition no_metadata :: unpack_metadata where
  \<comment> \<open>\<open>UnpackMetadata::default\<close>\<close>
  "no_metadata = \<lparr>um_encrypted = False, um_authenticated = False, um_encrypted_from_kid = None, um_sign_from = None\<rparr>"

definition sender_may_send ::
  "(string \<Rightarrow> string) \<Rightarrow> 's message_store \<Rightarrow> message_config \<Rightarrow> session \<Rightarrow> string option \<Rightarrow> 's \<Rightarrow> (mediator_error + unit) \<times> 's" where
  "sender_may_send digest ops cfg session from_did s =
     (case from_did of
        Some d \<Rightarrow>
          on_result StoreError (ms_get_did_acl ops (digest d) s) (\<lambda>found s.
          require (is_ok (require_capability (or_default (cf_global_acl_default (mo_base cfg)) found) SendMessages))
            (inbound_problem session 44 SorterError ScopeProtocol ''authorization.send''
               ''Sender DID is not authorized to send messages through this mediator'') s (\<lambda>s. (Inr (), s)))
      | None \<Rightarrow>
          require (mo_local_direct_delivery_allow_anon cfg)
            (inbound_problem session 50 SorterWarning ScopeMessage ''message.anonymous''
               ''Anonymous direct delivery is not allowed by this mediator'') s (\<lambda>s. (Inr (), s)))"

definition direct_delivery ::
  "(string \<Rightarrow> string) \<Rightarrow> 's message_store \<Rightarrow> wire \<Rightarrow> message_config \<Rightarrow> flow_env \<Rightarrow> session \<Rightarrow> string \<Rightarrow> meta_envelope \<Rightarrow> string \<Rightarrow>
   's \<Rightarrow> (mediator_error + inbound_message_response) \<times> 's" where
  "direct_delivery digest ops wi cfg env session message envelope to_did s =
     (let claimed = (case en_from_did envelope of Some d \<Rightarrow> d | None \<Rightarrow> ''anonymous'') in
     require (mo_local_direct_delivery_allowed cfg)
       (inbound_problem session 71 SorterWarning ScopeMessage ''direct_delivery.denied''
          ''Mediator is not accepting direct delivery of DIDComm messages. They must be wrapped in a forwarding envelope'') s (\<lambda>s.
     on_result StoreError (ms_account_exists ops (digest to_did) s) (\<lambda>exists s.
     require exists (inbound_problem session 72 SorterWarning ScopeMessage ''direct_delivery.recipient.unknown''
          ''Direct Delivery Recipient is not known on this Mediator'') s (\<lambda>s.
     require (\<not> (mo_force_session_did_match cfg \<and> en_from_did envelope \<noteq> Some (ss_did session)))
       (problem_with_log 52 (ss_session_id session) None SorterError ScopeProtocol ''authorization.did.session_mismatch''
          (''Sender DID ({1}) doesn'' @ [CHR 0x27] @ ''t match session DID'') [claimed] 400
          (''Direct-delivery envelope sender ('' @ claimed @ '') doesn'' @ [CHR 0x27] @ ''t match session DID'')) s (\<lambda>s.
     on_result id (sender_may_send digest ops cfg session (en_from_did envelope) s) (\<lambda>_ s.
     require (is_ok (check_access_list (ms_access_list_allowed ops) (digest to_did) (map_option digest (en_from_did envelope)) s))
       (inbound_problem session 73 SorterError ScopeProtocol ''authorization.access_list.denied''
          ''Delivery blocked due to ACLs (access_list denied)'') s (\<lambda>s.
     store_response digest ops wi cfg (fl_now env) session
       \<lparr>pr_store_message = True, pr_force_live_delivery = False, pr_forward_message = False,
        pr_data = WrapEnvelope to_did message (wrap_u64 (fl_now env + mo_message_expiry_seconds cfg))\<rparr> no_metadata s)))))))"

definition handle_inbound_didcomm ::
  "(string \<Rightarrow> string) \<Rightarrow> 's message_store \<Rightarrow> wire \<Rightarrow> message_config \<Rightarrow> 's protocols \<Rightarrow> flow_env \<Rightarrow> session \<Rightarrow> string \<Rightarrow>
   's \<Rightarrow> (mediator_error + inbound_message_response) \<times> 's" where
  "handle_inbound_didcomm digest ops wi cfg po env session outer s =
     on_result id (if mo_relay_mode cfg = Rewrap then peel_relay_rewrap_layers wi cfg session outer else Inr outer, s)
       (\<lambda>message s.
     on_result (\<lambda>e. problem_with_log 37 (ss_session_id session) None SorterError ScopeProtocol ''message.envelope.read''
         (''Couldn'' @ [CHR 0x27] @ ''t read DIDComm envelope: {1}'') [e] 400
         (''Couldn'' @ [CHR 0x27] @ ''t read DIDComm envelope: '' @ e)) (wi_envelope wi message, s) (\<lambda>envelope s.
     case en_to_did envelope of
       Some to_did \<Rightarrow>
         if to_did = cf_mediator_did (mo_base cfg)
         then message_to_mediator digest ops wi cfg po env session message envelope s
         else direct_delivery digest ops wi cfg env session message envelope to_did s
     | None \<Rightarrow> (Inl (problem_with_log 51 (ss_session_id session) None SorterError ScopeProtocol ''message.to''
         (''There is no to_did on the envelope! Can'' @ [CHR 0x27] @ ''t deliver an unknown message. Message: {1}'') [message] 422
         (''There is no to_did on the envelope! Can'' @ [CHR 0x27] @ ''t deliver an unknown message.'')), s)))"

section \<open>Rate limit\<close>

definition per_did_rate_limit_applies :: "account_type \<Rightarrow> string \<Rightarrow> bool" where
  "per_did_rate_limit_applies account_type did_hash = (\<not> is_admin account_type \<and> did_hash \<noteq> [])"

definition handle_inbound ::
  "(string \<Rightarrow> string) \<Rightarrow> 's message_store \<Rightarrow> wire \<Rightarrow> message_config \<Rightarrow> 's protocols \<Rightarrow> (string \<Rightarrow> 's \<Rightarrow> bool \<times> 's) \<Rightarrow> flow_env \<Rightarrow>
   session \<Rightarrow> string \<Rightarrow> 's \<Rightarrow> (mediator_error + inbound_message_response) \<times> 's" where
  \<comment> \<open>\<open>limiter\<close>: \<open>DidRateLimiter::check\<close>, which counts the request\<close>
  "handle_inbound digest ops wi cfg po limiter env session message s =
     (let (allowed, s1) = (if per_did_rate_limit_applies (ss_account_type session) (ss_did_hash session)
           then limiter (ss_did_hash session) s else (True, s))
      in require allowed (problem 95 (ss_session_id session) None SorterWarning ScopeMessage ''rate.limit.did''
           ''Per-DID rate limit exceeded; reduce request rate'' [] 429) s1
           (handle_inbound_didcomm digest ops wi cfg po env session message))"

end
