(* ===== verification/PickupProperties.thy ===== *)
theory PickupProperties
  imports MessagePickup
begin

text \<open>
  What Message Pickup and the answering protocols guarantee: a pickup request touches nothing but the
  inbox of the session's own DID, an acknowledgement deletes exactly what that DID owns, and a
  disclosure lists exactly the features a query matches.
\<close>

section \<open>Acknowledging\<close>

definition owned_by :: "string \<Rightarrow> message_record \<Rightarrow> bool" where
  "owned_by d r = (mr_to_did_hash r = d \<or> mr_from_did_hash r = Some d)"

lemma delete_owned:
  "messages (snd (delete_message h (Owner d) s)) =
     (\<lambda>m. if m = h \<and> (\<exists>r. messages s m = Some r \<and> owned_by d r) then None else messages s m)"
  by (auto simp: delete_message_def owned_by_def fun_eq_iff split: option.splits)

lemma ack_step: "ack_messages (memory_world digest ck) d (i # ids) w =
    ack_messages (memory_world digest ck) d ids (w\<lparr>wo_store := snd (delete_message i (Owner d) (wo_store w))\<rparr>)"
  by simp

lemma ack_messages_effect:
  "messages (wo_store (ack_messages (memory_world digest ck) d ids w)) =
     (\<lambda>m. if m \<in> set ids \<and> (\<exists>r. messages (wo_store w) m = Some r \<and> owned_by d r) then None
          else messages (wo_store w) m)"
proof (induction ids arbitrary: w)
  case (Cons i ids)
  show ?case unfolding ack_step Cons.IH by (auto simp: delete_owned fun_eq_iff)
qed simp

lemma status_reply_memory [simp]:
  "is_ok (fst (generate_status_reply (memory_world digest ck) cfg env session d thid force ovr w))"
  "snd (generate_status_reply (memory_world digest ck) cfg env session d thid force ovr w) = w"
  by (simp_all add: generate_status_reply_def Let_def)

lemma validate_msg_Inr:
  "validate_msg cfg show_json now session msg = Inr u \<longleftrightarrow>
     (\<forall>t. dm_expires_time msg = Some t \<longrightarrow> now < t) \<and>
     (\<exists>rest. dm_to msg = Some (cf_mediator_did (mo_base cfg) # rest)) \<and> dm_from msg \<noteq> None \<and>
     dm_extra msg ''return_route'' = Some (JString ''all'')"
  by (auto simp: validate_msg_def message_expired_def first_to_def and_then_def return_route_error_def as_str_def Let_def
      split: option.splits list.splits json_value.splits)

text \<open>A \<open>messages-received\<close> request either is refused and changes nothing, or deletes exactly the listed
  messages that the session's DID received or sent, leaves every other message in place, and is answered.\<close>
theorem messages_received_exact:
  "case (validate_msg cfg show_json (fl_now env) session msg, bd_messages_received (dm_body msg)) of
      (Inl e, _) \<Rightarrow> messages_received (memory_world digest ck) cfg show_json env session msg w = (Inl e, w)
    | (Inr _, Inl e) \<Rightarrow> messages_received (memory_world digest ck) cfg show_json env session msg w =
        (Inl (pickup_parse_error session msg ''messages-received'' e), w)
    | (Inr _, Inr ids) \<Rightarrow> is_ok (fst (messages_received (memory_world digest ck) cfg show_json env session msg w)) \<and>
        messages (wo_store (snd (messages_received (memory_world digest ck) cfg show_json env session msg w))) =
          (\<lambda>m. if m \<in> set ids \<and> (\<exists>r. messages (wo_store w) m = Some r \<and> owned_by (ss_did_hash session) r) then None
               else messages (wo_store w) m)"
  by (simp add: messages_received_def ack_messages_effect split: sum.split)

section \<open>Delivery\<close>

lemma fetch_loop_bodies:
  assumes "fetch_loop d False es rs s = (rs', s')" "e \<in> set (gr_success rs')"
    and "\<And>e. e \<in> set (gr_success rs) \<Longrightarrow> me_msg e = map_option mr_body (messages s (me_msg_id e))"
  shows "me_msg e = map_option mr_body (messages s (me_msg_id e))"
  using assms
proof (induction es arbitrary: rs)
  case (Cons x es)
  obtain sid entry where x: "x = (sid, entry)" by fastforce
  let ?el = "default_element\<lparr>me_msg_id := se_msg_id entry, me_receive_id := Some (format_stream_id sid),
      me_size := se_bytes entry, me_timestamp := sid_ms sid, me_from_address := Some (se_peer_did entry),
      me_to_address := Some d, me_msg := map_option mr_body (messages s (se_msg_id entry))\<rparr>"
  have "fetch_loop d False es (rs\<lparr>gr_success := gr_success rs @ [?el]\<rparr>) s = (rs', s')"
    using Cons.prems(1) by (simp add: x Let_def)
  then show ?case
  proof (rule Cons.IH [OF _ Cons.prems(2)])
    show "me_msg e = map_option mr_body (messages s (me_msg_id e))"
      if "e \<in> set (gr_success (rs\<lparr>gr_success := gr_success rs @ [?el]\<rparr>))" for e
      using that Cons.prems(3) by auto
  qed
qed auto

lemma fetch_memory:
  assumes "fetch_messages d \<lparr>fo_limit = n, fo_start_id = None, fo_delete_policy = DoNotDelete\<rparr> s = (found, s')"
  shows "s' = s" "length (gr_success found) \<le> n"
    "e \<in> set (gr_success found) \<Longrightarrow> me_msg_id e \<in> (se_msg_id \<circ> snd) ` set (stream_of (inbox s) d)"
    "e \<in> set (gr_success found) \<Longrightarrow> me_msg e = map_option mr_body (messages s (me_msg_id e))"
proof -
  let ?r0 = "\<lparr>gr_success = [], gr_get_errors = [], gr_delete_errors = []\<rparr>"
  have loop: "fetch_loop d False (take n (stream_of (inbox s) d)) ?r0 s = (found, s')"
    using assms by (simp add: fetch_messages_def Let_def split: option.splits)
  then show "s' = s" by (rule fetch_loop_keeps)
  have ids: "map me_msg_id (gr_success found) = map (se_msg_id \<circ> snd) (take n (stream_of (inbox s) d))"
    using fetch_loop_ids [of d False "take n (stream_of (inbox s) d)" ?r0 s] loop by simp
  then show "length (gr_success found) \<le> n" using map_eq_imp_length_eq [OF ids] by simp
  show "me_msg_id e \<in> (se_msg_id \<circ> snd) ` set (stream_of (inbox s) d)" if "e \<in> set (gr_success found)"
  proof -
    have "me_msg_id e \<in> set (map me_msg_id (gr_success found))" using that by simp
    then show ?thesis unfolding ids by (auto dest: in_set_takeD)
  qed
  show "me_msg e = map_option mr_body (messages s (me_msg_id e))" if "e \<in> set (gr_success found)"
    using fetch_loop_bodies [OF loop that] by simp
qed

lemma fetch_loop_elements:
  "gr_success (fst (fetch_loop d False es rs s)) = gr_success rs @ map (\<lambda>(sid, entry). default_element\<lparr>me_msg_id := se_msg_id entry,
      me_receive_id := Some (format_stream_id sid), me_size := se_bytes entry, me_timestamp := sid_ms sid,
      me_from_address := Some (se_peer_did entry), me_to_address := Some d,
      me_msg := map_option mr_body (messages s (se_msg_id entry))\<rparr>) es"
proof (induction es arbitrary: rs)
  case (Cons x es)
  then show ?case by (cases x) (simp add: Let_def)
qed simp

definition inbox_attachment :: "wire \<Rightarrow> memory_state \<Rightarrow> stream_id \<times> stream_entry \<Rightarrow> (string option \<times> string) option" where
  \<comment> \<open>the attachment for an entry of an inbox whose message is stored\<close>
  "inbox_attachment wi s = (\<lambda>(sid, entry). map_option (\<lambda>r. (Some (se_msg_id entry), wi_base64_encode wi (mr_body r))) (messages s (se_msg_id entry)))"

lemma delivery_attachments_fetched:
  assumes "fetch_messages d \<lparr>fo_limit = n, fo_start_id = None, fo_delete_policy = DoNotDelete\<rparr> s = (found, s')"
  shows "delivery_attachments wi (gr_success found) = List.map_filter (inbox_attachment wi s) (take n (stream_of (inbox s) d))"
    "gr_success found = [] \<longleftrightarrow> take n (stream_of (inbox s) d) = []"
proof -
  have loop: "found = fst (fetch_loop d False (take n (stream_of (inbox s) d)) \<lparr>gr_success = [], gr_get_errors = [], gr_delete_errors = []\<rparr> s)"
    using assms by (auto simp: fetch_messages_def Let_def split: option.splits)
  have attach: "List.map_filter (\<lambda>e. map_option (\<lambda>m. (Some (me_msg_id e), wi_base64_encode wi m)) (me_msg e))
      (map (\<lambda>(sid, entry). default_element\<lparr>me_msg_id := se_msg_id entry,
      me_receive_id := Some (format_stream_id sid), me_size := se_bytes entry, me_timestamp := sid_ms sid,
      me_from_address := Some (se_peer_did entry), me_to_address := Some d,
      me_msg := map_option mr_body (messages s (se_msg_id entry))\<rparr>) xs) = List.map_filter (inbox_attachment wi s) xs" for xs
    by (induction xs) (auto simp: List.map_filter_simps inbox_attachment_def option.map_comp comp_def split: option.split)
  show "delivery_attachments wi (gr_success found) = List.map_filter (inbox_attachment wi s) (take n (stream_of (inbox s) d))"
    unfolding loop fetch_loop_elements delivery_attachments_def using attach by simp
  show "gr_success found = [] \<longleftrightarrow> take n (stream_of (inbox s) d) = []" unfolding loop fetch_loop_elements by simp
qed

text \<open>C35. A delivery request is answered, for the session's own DID only, from the beginning of its inbox: the limit is between
  1 and 100, and the answer is a delivery message with the stored bodies of the first entries, in order and up to the
  limit; an entry whose message is no longer stored is left out. Where the inbox is empty the answer is a status
  message, with nothing attached, that counts the account's messages. The store is not changed.\<close>
theorem delivery_own_inbox:
  assumes "delivery_request digest (memory_world digest ck) wi cfg show_json env session msg w = (Inr response, w')"
  defines "stream \<equiv> stream_of (inbox (wo_store w)) (digest (ss_did session))"
  shows "w' = w \<and> (\<exists>limit m. bd_delivery_request (dm_body msg) = Inr (ss_did session, limit) \<and> 1 \<le> limit \<and> limit \<le> 100 \<and>
      pr_data response = WrapMessage m \<and> \<not> pr_store_message response \<and> om_to m = Some [ss_did session] \<and>
      om_attachments m = List.map_filter (inbox_attachment wi (wo_store w)) (take limit stream) \<and>
      (stream \<noteq> [] \<longrightarrow> om_typ m = ''https://didcomm.org/messagepickup/3.0/delivery'' \<and> om_body m = OutDelivery (ss_did session)) \<and>
      (stream = [] \<longrightarrow> om_typ m = ''https://didcomm.org/messagepickup/3.0/status'' \<and> (\<exists>status. om_body m = OutStatus status \<and>
         sp_recipient_did status = ss_did session \<and>
         sp_message_count status = min u32_max (is_message_count (inbox_status (digest (ss_did session)) (wo_store w))))))"
proof -
  obtain limit where l: "bd_delivery_request (dm_body msg) = Inr (ss_did session, limit)" "1 \<le> limit" "limit \<le> 100"
      "validate_msg cfg show_json (fl_now env) session msg = Inr ()"
      "parse_delivery_request session msg = Inr (ss_did session, limit)"
    using assms(1)
    by (auto simp: delivery_request_def on_result_pure parse_delivery_request_def min_retrieved_msgs_def max_retrieved_msgs_def
        split: sum.splits if_splits)
  let ?opts = "\<lparr>fo_limit = limit, fo_start_id = None, fo_delete_policy = DoNotDelete\<rparr>"
  obtain found t where f: "fetch_messages (digest (ss_did session)) ?opts (wo_store w) = (found, t)" by fastforce
  note fm = fetch_memory(1) [OF f] and at = delivery_attachments_fetched [OF f, folded stream_def]
  have call: "on_world (\<lambda>s. map_prod Inr id (fetch_messages (digest (ss_did session)) ?opts s)) w = (Inr found, w)"
    using f fm by (simp add: on_world_ok)
  have e: "gr_success found = [] \<longleftrightarrow> stream = []" using at(2) l(2) by simp
  show ?thesis
  proof (cases "stream = []")
    case True
    then have "generate_status_reply (memory_world digest ck) cfg env session (digest (ss_did session)) (thread_id msg)
        False None w = (Inr response, w')"
      using assms(1) e by (simp add: delivery_request_def l call)
    then show ?thesis using l(1-3) True
      by (auto simp: generate_status_reply_def Let_def message_build_def List.map_filter_simps min_def)
  next
    case False
    then have "w' = w" "pr_data response = WrapMessage ((message_build (fl_uuid env) ''https://didcomm.org/messagepickup/3.0/delivery''
               (OutDelivery (ss_did session)))\<lparr>om_thid := Some (thread_id msg),
               om_attachments := delivery_attachments wi (gr_success found), om_to := Some [ss_did session],
               om_from := Some (cf_mediator_did (mo_base cfg)), om_created_time := Some (fl_now env),
               om_expires_time := Some (wrap_u64 (fl_now env + 300))\<rparr>)" "\<not> pr_store_message response"
      using assms(1) e by (auto simp: delivery_request_def l call)
    then show ?thesis using l(1-3) False at(1) by (auto simp: message_build_def)
  qed
qed

definition sample_flow :: flow_env where
  "sample_flow = \<lparr>fl_now = 100, fl_now_ms = 100000, fl_uuid = ''u''\<rparr>"

definition sample_wire :: wire where
  \<comment> \<open>text stands for its own base64 form; an envelope is \<open>from>to\<close>\<close>
  "sample_wire = \<lparr>wi_envelope = (\<lambda>t. case split_once (CHR ''>'') t of None \<Rightarrow> Inl ''no envelope''
       | Some (f, d) \<Rightarrow> Inr \<lparr>en_authenticated = f \<noteq> [], en_encrypted = True, en_from_did = (if f = [] then None else Some f),
            en_to_did = Some d, en_unpack = Inl ''opaque''\<rparr>),
     wi_resolve = (\<lambda>_. Inr []), wi_pack_encrypted = (\<lambda>m d f. Inr (om_typ m)), wi_url = (\<lambda>_. None),
     wi_base64_encode = (\<lambda>t. t), wi_base64_decode = Inr\<rparr>"

definition allow_all_acls :: mediator_acl_set where
  "allow_all_acls = (case from_string_ruleset ''ALLOW_ALL'' of Inr a \<Rightarrow> a | Inl _ \<Rightarrow> default_acl_set)"

definition sample_message_config :: message_config where
  "sample_message_config = \<lparr>mo_base = \<lparr>cf_mediator_did = ''did:m'', cf_mediator_did_hash = ''did:m'', cf_admin_did = ''did:r'',
       cf_admin_messages_expiry = 1, cf_block_remote_admin_msgs = False, cf_mediator_acl_mode = ExplicitDeny,
       cf_global_acl_default = allow_all_acls, cf_access_list_limit = 10, cf_queued_send_messages_hard = 10,
       cf_queued_receive_messages_hard = 10\<rparr>, mo_to_recipients = 5, mo_message_expiry_seconds = 1000,
     mo_attachments_max_count = 5, mo_forward_task_queue = 5, mo_queued_send_messages_soft = 10,
     mo_queued_receive_messages_soft = 10, mo_force_session_did_match = True, mo_block_anonymous_outer_envelope = True,
     mo_local_direct_delivery_allowed = True, mo_local_direct_delivery_allow_anon = False, mo_external_forwarding = False,
     mo_future_time_limit = 10, mo_relay_mode = Blind, mo_relay_trusted_mediators = [], mo_max_hops = 3,
     mo_self_authorities = []\<rparr>"

definition empty_body :: message_body where
  "empty_body = \<lparr>bd_challenge = Inl [], bd_refresh_token = None, bd_status_request = Inl [], bd_live_delivery = Inl [],
     bd_delivery_request = Inl [], bd_messages_received = Inl [], bd_forward = Inl [], bd_ping = Inl [], bd_queries = Inl []\<rparr>"

definition pickup_message :: "string \<Rightarrow> message_body \<Rightarrow> didcomm_message" where
  "pickup_message typ body = \<lparr>dm_id = ''1'', dm_typ = typ, dm_from = Some ''did:a'', dm_to = Some [''did:m''], dm_body = body,
     dm_thid = None, dm_created_time = None, dm_expires_time = None, dm_attachments = None,
     dm_extra = [''return_route'' \<mapsto> JString ''all'']\<rparr>"

definition pickup_world :: world where
  "pickup_world = \<lparr>wo_store = snd (store_message (\<lambda>b. b) 7 7 7 ''m'' ''did:a'' (Some ''did:b'') 9 empty_state),
     wo_channels = [], wo_published = []\<rparr>"

definition pickup_session :: session where
  "pickup_session = default_session\<lparr>ss_did := ''did:a'', ss_did_hash := ''did:a'', ss_authenticated := True\<rparr>"

definition pickup_request :: didcomm_message where
  "pickup_request = pickup_message ''https://didcomm.org/messagepickup/3.0/delivery-request''
     (empty_body\<lparr>bd_delivery_request := Inr (''did:a'', 5)\<rparr>)"

lemma pickup_fetch:
  "fetch_messages ''did:a'' \<lparr>fo_limit = 5, fo_start_id = None, fo_delete_policy = DoNotDelete\<rparr> (wo_store pickup_world) =
     (\<lparr>gr_success = [default_element\<lparr>me_msg_id := ''m'', me_receive_id := Some (format_stream_id (inbox_id 7 empty_state)),
        me_size := 1, me_timestamp := sid_ms (inbox_id 7 empty_state), me_from_address := Some ''did:b'',
        me_to_address := Some ''did:a'', me_msg := Some ''m''\<rparr>], gr_get_errors = [], gr_delete_errors = []\<rparr>,
      wo_store pickup_world)"
  by (simp add: fetch_messages_def pickup_world_def store_message_inbox store_message_messages empty_state_def put_stream_def
      Let_def or_default_def sender_name_def)

theorem delivery_own_inbox_witness:
  "\<exists>response m. delivery_request (\<lambda>b. b) (memory_world (\<lambda>b. b) \<lparr>sk_ms = 8, sk_secs = 0\<rparr>) sample_wire sample_message_config
      (\<lambda>_. []) sample_flow pickup_session pickup_request pickup_world = (Inr response, pickup_world) \<and>
     pr_data response = WrapMessage m \<and> om_attachments m = [(Some ''m'', ''m'')] \<and>
     om_typ m = ''https://didcomm.org/messagepickup/3.0/delivery''"
proof -
  have v: "validate_msg sample_message_config (\<lambda>_. []) (fl_now sample_flow) pickup_session pickup_request = Inr ()"
    by (simp add: validate_msg_Inr pickup_request_def pickup_message_def sample_message_config_def)
  have q: "parse_delivery_request pickup_session pickup_request = Inr (''did:a'', 5)"
    by (simp add: parse_delivery_request_def pickup_request_def pickup_message_def pickup_session_def min_retrieved_msgs_def
        max_retrieved_msgs_def)
  obtain response m where d: "delivery_request (\<lambda>b. b) (memory_world (\<lambda>b. b) \<lparr>sk_ms = 8, sk_secs = 0\<rparr>) sample_wire
      sample_message_config (\<lambda>_. []) sample_flow pickup_session pickup_request pickup_world = (Inr response, pickup_world)"
      "pr_data response = WrapMessage m" "om_attachments m = [(Some ''m'', ''m'')]"
    by (simp add: delivery_request_def v q on_world_ok pickup_fetch delivery_attachments_def map_filter_simps sample_wire_def
        message_build_def)
  have "om_typ m = ''https://didcomm.org/messagepickup/3.0/delivery''"
    using delivery_own_inbox [OF d(1)] d(2,3) by (cases "stream_of (inbox (wo_store pickup_world)) ''did:a'' = []")
      (auto simp: pickup_session_def List.map_filter_simps)
  with d show ?thesis by blast
qed

section \<open>Features\<close>

text \<open>A disclosure lists, for each query in turn, exactly the features of its kind that equal the pattern or,
  when the pattern ends in \<open>*\<close>, begin with what precedes it; a pattern with another \<open>*\<close> before the
  last discloses nothing.\<close>
theorem disclosure_exact:
  "x \<in> set (calculate_disclosure st queries) \<longleftrightarrow>
     (\<exists>q \<in> set queries. di_feature_type x = fq_feature_type q \<and> di_id x \<in> set (features_of st (fq_feature_type q)) \<and>
        (fq_match q = di_id x \<and> \<not> (\<exists>p. fq_match q = p @ ''*'') \<or>
         (\<exists>p rest. fq_match q = p @ ''*'' \<and> CHR ''*'' \<notin> set p \<and> di_id x = p @ rest)))"
proof -
  have pre: "is_prefix p f \<longleftrightarrow> (\<exists>rest. f = p @ rest)" for p f :: string
    by (induction p f rule: is_prefix.induct) auto
  have star: "pat \<noteq> [] \<and> last pat = CHR ''*'' \<longleftrightarrow> (\<exists>p. pat = p @ ''*'')" for pat
    by (metis append_butlast_last_id last_snoc snoc_eq_iff_butlast)
  have "f \<in> set (matching_features pat fs) \<longleftrightarrow> f \<in> set fs \<and> (pat = f \<and> \<not> (\<exists>p. pat = p @ ''*'') \<or>
      (\<exists>p rest. pat = p @ ''*'' \<and> CHR ''*'' \<notin> set p \<and> f = p @ rest))" for f pat fs
    unfolding matching_features_def star pre by auto
  then show ?thesis
    by (cases x) (auto simp: calculate_disclosure_def, blast+)
qed

end
