(* ===== verification/RoutingProperties.thy ===== *)
theory RoutingProperties
  imports Routing PickupProperties
begin

text \<open>
  What routing guarantees on the in-memory store: the checks an accepted forward has passed, where it
  ends up, how little an unknown relay sender is granted, and how the limits behave at their edges.
\<close>

section \<open>Accounts on first contact\<close>

definition register_if_new :: "string \<Rightarrow> mediator_acl_set \<Rightarrow> world \<Rightarrow> world" where
  "register_if_new d acls w =
     (if account_exists d (wo_store w) then w else w\<lparr>wo_store := snd (account_add d acls None (wo_store w))\<rparr>)"

lemma from_u64_grants: "grants (from_u64 (to_u64 a)) c = grants a c"
  by (cases c) (simp_all add: acl_get_bits to_u64_def to_le_def)

lemma register_if_new_account: "\<exists>r. accounts (wo_store (register_if_new d acls w)) d = Some r"
  by (auto simp: register_if_new_def account_exists_def account_add_def Let_def)

lemma register_if_new_keeps:
  "accounts (wo_store w) k = Some r \<Longrightarrow> accounts (wo_store (register_if_new d acls w)) k = Some r"
  by (auto simp: register_if_new_def account_exists_def account_add_def Let_def)

lemma resolve_account_memory:
  "\<exists>r n. resolve_account (memory_world digest ck) session msg d acls w = (Inr (into_account r d n), register_if_new d acls w) \<and>
     accounts (wo_store (register_if_new d acls w)) d = Some r"
  by (cases "accounts (wo_store w) d")
    (auto simp: resolve_account_def register_if_new_def account_exists_def account_get_def on_world_def account_add_def Let_def)

definition sender_registered :: "(string \<Rightarrow> string) \<Rightarrow> message_config \<Rightarrow> didcomm_message \<Rightarrow> world \<Rightarrow> world" where
  \<comment> \<open>the world in which an accepted forward is checked and delivered: both ends have an account\<close>
  "sender_registered digest cfg msg w =
     (case dm_from msg of
        Some f \<Rightarrow> register_if_new (digest f) (relay_sender_acls (cf_global_acl_default (mo_base cfg))) w
      | None \<Rightarrow> w)"

definition sender_hash :: "(string \<Rightarrow> string) \<Rightarrow> didcomm_message \<Rightarrow> string" where
  "sender_hash digest msg = (case dm_from msg of Some f \<Rightarrow> digest f | None \<Rightarrow> [])"

definition sender_granted :: "(string \<Rightarrow> string) \<Rightarrow> session \<Rightarrow> didcomm_message \<Rightarrow> world \<Rightarrow> bool" where
  "sender_granted digest session msg w =
     (case dm_from msg of
        Some f \<Rightarrow> (\<exists>r. accounts (wo_store w) (digest f) = Some r \<and> grants (ar_acls r) SendForwarded)
      | None \<Rightarrow> grants (ss_acls session) SendForwarded)"

lemma resolve_forward_sender_memory:
  assumes "resolve_forward_sender digest (memory_world digest ck) cfg session msg w = (Inr account, w')"
  shows "w' = sender_registered digest cfg msg w" "ac_did_hash account = sender_hash digest msg"
    "sender_granted digest session msg w'"
proof -
  have "w' = sender_registered digest cfg msg w \<and> ac_did_hash account = sender_hash digest msg \<and>
      sender_granted digest session msg w'"
  proof (cases "dm_from msg")
    case None
    with assms show ?thesis
      by (auto simp: resolve_forward_sender_def require_Inr require_capability_def sender_registered_def sender_hash_def
          sender_granted_def default_account_def split: if_splits)
  next
    case (Some f)
    obtain r n where r: "resolve_account (memory_world digest ck) session msg (digest f)
        (relay_sender_acls (cf_global_acl_default (mo_base cfg))) w = (Inr (into_account r (digest f) n),
        register_if_new (digest f) (relay_sender_acls (cf_global_acl_default (mo_base cfg))) w)"
      "accounts (wo_store (register_if_new (digest f) (relay_sender_acls (cf_global_acl_default (mo_base cfg))) w))
        (digest f) = Some r"
      using resolve_account_memory by blast
    with assms Some show ?thesis
      by (auto simp: resolve_forward_sender_def require_Inr require_capability_def sender_registered_def sender_hash_def
          sender_granted_def into_account_def from_u64_grants simp del: grants.simps split: if_splits)
  qed
  then show "w' = sender_registered digest cfg msg w" "ac_did_hash account = sender_hash digest msg"
    "sender_granted digest session msg w'" by blast+
qed

lemma forward_checks_memory:
  assumes "forward_checks digest (memory_world digest ck) cfg session msg ephemeral attachments next_account d account w = (Inr u, w')"
  shows "w' = w" "access_list_allowed d (Some (ac_did_hash account)) (wo_store w)"
    "length attachments \<le> mo_attachments_max_count cfg" "delay_ok cfg (delay_of msg)"
    "\<not> ephemeral \<Longrightarrow> forward_queue_len (wo_store w) < mo_forward_task_queue cfg"
    "\<not> queue_at_capacity (ac_send_queue_count account) (length attachments)
       (or_default (mo_queued_send_messages_soft cfg) (ac_queue_send_limit account)) ephemeral"
    "\<not> queue_at_capacity (ac_receive_queue_count next_account) (length attachments)
       (or_default (mo_queued_receive_messages_soft cfg) (ac_queue_receive_limit next_account)) ephemeral"
  using assms
  by (auto simp: forward_checks_def Let_def require_Inr on_result_pure on_result_Inr check_access_list_def
      validate_sender_queue_limit_def validate_recipient_queue_limit_def on_world_read split: if_splits)

section \<open>Accepted forwards\<close>

lemma routing_process_memory:
  assumes "routing_process digest (memory_world digest ck) wi cfg env session metadata msg w = (Inr response, w')"
  obtains ephemeral w0 next_did attachments data r account w2 where
    "ephemeral_header digest (memory_world digest ck) wi cfg env session metadata msg w = (Inr ephemeral, w0)"
    "bd_forward (dm_body msg) = Inr (Some next_did)" "dm_attachments msg = Some attachments"
    "decode_first_attachment wi session msg attachments = Inr data" "ac_did_hash account = sender_hash digest msg"
    "w2 = sender_registered digest cfg msg (register_if_new (digest next_did) (cf_global_acl_default (mo_base cfg)) w0)"
    "accounts (wo_store w2) (digest next_did) = Some r" "grants (ar_acls r) ReceiveForwarded"
    "sender_granted digest session msg w2" "access_list_allowed (digest next_did) (Some (sender_hash digest msg)) (wo_store w2)"
    "length attachments \<le> mo_attachments_max_count cfg" "delay_ok cfg (delay_of msg)"
    "\<not> ephemeral \<longrightarrow> forward_queue_len (wo_store w2) < mo_forward_task_queue cfg"
    "deliver_forward digest (memory_world digest ck) wi cfg env session msg next_did (from_u64 (to_u64 (ar_acls r))) account data
        (delay_of msg) (capped_expiry cfg (fl_now env) (dm_expires_time msg)) ephemeral w2 = (Inr (), w')"
    "response = \<lparr>pr_store_message = False, pr_force_live_delivery = False, pr_forward_message = True, pr_data = WrapNone\<rparr>"
proof -
  from assms obtain ephemeral w0 next_did next_account w1 attachments account w2' w3 data where
    e: "ephemeral_header digest (memory_world digest ck) wi cfg env session metadata msg w = (Inr ephemeral, w0)"
      "parse_next_did session msg = Inr next_did" "dm_attachments msg = Some attachments"
      "decode_first_attachment wi session msg attachments = Inr data"
      "response = \<lparr>pr_store_message = False, pr_force_live_delivery = False, pr_forward_message = True, pr_data = WrapNone\<rparr>"
    and n: "resolve_next_account (memory_world digest ck) cfg session msg (digest next_did) w0 = (Inr next_account, w1)"
      "is_ok (require_capability (from_u64 (ac_acls next_account)) ReceiveForwarded)"
    and f: "resolve_forward_sender digest (memory_world digest ck) cfg session msg w1 = (Inr account, w2')"
    and c: "forward_checks digest (memory_world digest ck) cfg session msg ephemeral attachments next_account (digest next_did)
        account w2' = (Inr (), w3)"
    and d: "deliver_forward digest (memory_world digest ck) wi cfg env session msg next_did (from_u64 (ac_acls next_account)) account
        data (delay_of msg) (capped_expiry cfg (fl_now env) (dm_expires_time msg)) ephemeral w3 = (Inr (), w')"
    unfolding routing_process_def
    by (auto simp: on_result_Inr on_result_pure require_Inr Let_def split: option.splits)
  obtain r m where r: "next_account = into_account r (digest next_did) m"
      "w1 = register_if_new (digest next_did) (cf_global_acl_default (mo_base cfg)) w0"
      "accounts (wo_store w1) (digest next_did) = Some r"
    using resolve_account_memory [of digest ck session msg "digest next_did" "cf_global_acl_default (mo_base cfg)" w0] n(1)
    by (auto simp: resolve_next_account_def)
  note s = resolve_forward_sender_memory [OF f]
  have "accounts (wo_store w2') (digest next_did) = Some r"
    using r(3) s(1) register_if_new_keeps by (auto simp: sender_registered_def split: option.splits)
  moreover have "grants (ar_acls r) ReceiveForwarded"
    using n(2) r(1) by (simp add: require_capability_def into_account_def from_u64_grants del: grants.simps split: if_splits)
  moreover have "bd_forward (dm_body msg) = Inr (Some next_did)"
    using e(2) by (simp add: parse_next_did_def split: sum.splits option.splits)
  ultimately show ?thesis
    using forward_checks_memory [OF c] s d r(1,2) e(1,3-5)
    by (intro that [of ephemeral w0 next_did attachments data account w2' r]) (auto simp: into_account_def)
qed

lemma deliver_forward_envelope:
  assumes "deliver_forward digest ops wi cfg env session msg next_did acls account data delay ex ephemeral s = (Inr u, s')"
  shows "\<exists>envelope. wi_envelope wi data = Inr envelope \<and> (en_from_did envelope \<noteq> None \<or> grants acls AnonReceive)"
  using assms by (auto simp: deliver_forward_def on_result_pure require_Inr)

lemma delay_within:
  assumes "delay_ok cfg (delay_of msg)" "mo_future_time_limit cfg * 1000 < 2 ^ 63"
  shows "\<bar>delay_of msg\<bar> \<le> int (mo_future_time_limit cfg) * 1000 \<or> delay_of msg = - (2 ^ 63)"
proof -
  have w: "wrap_i64 x = x" if "- (2 ^ 63) \<le> x" "x < 2 ^ 63" for x using that by (simp add: wrap_i64_def)
  have l: "int (mo_future_time_limit cfg) * 1000 < 2 ^ 63" using assms(2) by simp
  have d: "- (2 ^ 63) \<le> delay_of msg" "delay_of msg < 2 ^ 63"
    by (auto simp: delay_of_def as_i64_def or_default_def split: option.split json_value.split)
  have "wrap_i64 (int (mo_future_time_limit cfg)) = int (mo_future_time_limit cfg)" by (rule w) (use l in simp_all)
  moreover have "wrap_i64 (int (mo_future_time_limit cfg) * 1000) = int (mo_future_time_limit cfg) * 1000" by (rule w) (use l in simp_all)
  moreover have "delay_of msg \<noteq> - (2 ^ 63) \<Longrightarrow> wrap_i64 \<bar>delay_of msg\<bar> = \<bar>delay_of msg\<bar>" by (rule w) (use d in simp_all)
  ultimately show ?thesis using assms(1) by (auto simp: delay_ok_def)
qed

text \<open>C8. A forward is accepted only if the next hop, registered with the default ACLs when it was unknown, accepts
  forwarded messages; the sender, registered with the relay ACLs when unknown, may forward (for an anonymous
  forward: the session may); the next hop's access list lets the sender's hash in, which for an anonymous forward is
  the empty text and not the hash of the session's DID; there is at least one attachment and no more than allowed;
  unless the forward is ephemeral, the forwarding queue is below its limit; the delay, where the limit fits 64 bits in
  milliseconds, is within the limit or is the least 64-bit integer, whose absolute value wraps around; and the inner
  envelope can be read and names a sender unless the next hop takes anonymous messages.\<close>
theorem forward_accepted_sound:
  assumes "routing_process digest (memory_world digest ck) wi cfg env session metadata msg w = (Inr response, w')"
  shows "\<exists>ephemeral w0 next_did a attachments data envelope r w2.
    ephemeral_header digest (memory_world digest ck) wi cfg env session metadata msg w = (Inr ephemeral, w0) \<and>
    bd_forward (dm_body msg) = Inr (Some next_did) \<and>
    w2 = sender_registered digest cfg msg (register_if_new (digest next_did) (cf_global_acl_default (mo_base cfg)) w0) \<and>
    accounts (wo_store w2) (digest next_did) = Some r \<and> grants (ar_acls r) ReceiveForwarded \<and>
    sender_granted digest session msg w2 \<and>
    access_list_allowed (digest next_did) (Some (case dm_from msg of Some f \<Rightarrow> digest f | None \<Rightarrow> [])) (wo_store w2) \<and>
    dm_attachments msg = Some (a # attachments) \<and> length attachments < mo_attachments_max_count cfg \<and>
    (mo_future_time_limit cfg * 1000 < 2 ^ 63 \<longrightarrow>
       \<bar>delay_of msg\<bar> \<le> int (mo_future_time_limit cfg) * 1000 \<or> delay_of msg = - (2 ^ 63)) \<and> (\<not> ephemeral \<longrightarrow> forward_queue_len (wo_store w2) < mo_forward_task_queue cfg) \<and>
    decode_first_attachment wi session msg (a # attachments) = Inr data \<and> wi_envelope wi data = Inr envelope \<and>
    (en_from_did envelope \<noteq> None \<or> grants (ar_acls r) AnonReceive)"
proof -
  obtain ephemeral w0 next_did attachments data r account w2 where p: "ephemeral_header digest (memory_world digest ck) wi cfg env session metadata msg w = (Inr ephemeral, w0)"
    "bd_forward (dm_body msg) = Inr (Some next_did)" "dm_attachments msg = Some attachments"
    "decode_first_attachment wi session msg attachments = Inr data" "ac_did_hash account = sender_hash digest msg"
    "w2 = sender_registered digest cfg msg (register_if_new (digest next_did) (cf_global_acl_default (mo_base cfg)) w0)"
    "accounts (wo_store w2) (digest next_did) = Some r" "grants (ar_acls r) ReceiveForwarded"
    "sender_granted digest session msg w2" "access_list_allowed (digest next_did) (Some (sender_hash digest msg)) (wo_store w2)"
    "length attachments \<le> mo_attachments_max_count cfg" "delay_ok cfg (delay_of msg)"
    "\<not> ephemeral \<longrightarrow> forward_queue_len (wo_store w2) < mo_forward_task_queue cfg"
    "deliver_forward digest (memory_world digest ck) wi cfg env session msg next_did (from_u64 (to_u64 (ar_acls r))) account data
        (delay_of msg) (capped_expiry cfg (fl_now env) (dm_expires_time msg)) ephemeral w2 = (Inr (), w')"
    "response = \<lparr>pr_store_message = False, pr_force_live_delivery = False, pr_forward_message = True, pr_data = WrapNone\<rparr>"
  proof (rule routing_process_memory [OF assms], goal_cases)
    case 1
    show ?thesis by (rule that [OF 1(2-16)])
  qed
  obtain a rest where a: "attachments = a # rest"
    using p(4) by (cases attachments) (auto simp: decode_first_attachment_def)
  obtain envelope where "wi_envelope wi data = Inr envelope" "en_from_did envelope \<noteq> None \<or> grants (ar_acls r) AnonReceive"
    using deliver_forward_envelope [OF p(14)] from_u64_grants by blast
  moreover have "length rest < mo_attachments_max_count cfg" using p(11) a by simp
  ultimately show ?thesis using p(1-4,6-10,13) delay_within [OF p(12)] unfolding a sender_hash_def by blast
qed

lemma live_stream_store [simp]: "wo_store (live_stream (memory_world digest ck) d m b w) = wo_store w"
  by (simp add: live_stream_def streaming_publish_message_def split: option.splits)

lemma bt_insert_member: "(k, v) \<in> set (bt_insert k v m)"
  by (induction k v m rule: bt_insert.induct) auto

text \<open>A forward accepted for a local next hop is stored: the decoded attachment is in the next hop's inbox under
  its digest, attributed to the sender of the forward, and expires no later than the configured lifetime.\<close>
theorem forward_stored_locally:
  assumes "routing_process digest (memory_world digest ck) wi cfg env session metadata msg w = (Inr response, w')"
    and "dm_extra msg ''ephemeral'' = None" "bd_forward (dm_body msg) = Inr (Some next_did)" "remote_endpoint wi cfg next_did = None"
  shows "\<exists>attachments data r. dm_attachments msg = Some attachments \<and>
    decode_first_attachment wi session msg attachments = Inr data \<and> messages (wo_store w') (digest data) = Some r \<and>
    mr_body r = data \<and> mr_to_did_hash r = digest next_did \<and> mr_from_did_hash r = recorded_sender (Some (sender_hash digest msg)) \<and>
    mr_expires_at r \<le> wrap_u64 (fl_now env + mo_message_expiry_seconds cfg) \<and>
    digest data \<in> (se_msg_id \<circ> snd) ` set (stream_of (inbox (wo_store w')) (digest next_did)) \<and> response =
      \<lparr>pr_store_message = False, pr_force_live_delivery = False, pr_forward_message = True, pr_data = WrapNone\<rparr>"
proof -
  obtain attachments data account w2 acls where
    p: "dm_attachments msg = Some attachments" "decode_first_attachment wi session msg attachments = Inr data"
      "ac_did_hash account = sender_hash digest msg"
      "deliver_forward digest (memory_world digest ck) wi cfg env session msg next_did acls account data
        (delay_of msg) (capped_expiry cfg (fl_now env) (dm_expires_time msg)) False w2 = (Inr (), w')"
      "response = \<lparr>pr_store_message = False, pr_force_live_delivery = False, pr_forward_message = True, pr_data = WrapNone\<rparr>"
  proof (rule routing_process_memory [OF assms(1)], goal_cases)
    case (1 ephemeral w0 next_did' attachments data r account w2)
    then have "\<not> ephemeral" "next_did' = next_did" using assms(2,3) by (auto simp: ephemeral_header_def)
    with 1 show ?thesis by (intro that) auto
  qed
  let ?ex = "capped_expiry cfg (fl_now env) (Some (capped_expiry cfg (fl_now env) (dm_expires_time msg)))"
  have s: "wo_store w' = snd (store_message digest (sk_ms ck) (sk_ms ck) (sk_ms ck) data (digest next_did)
      (Some (sender_hash digest msg)) ?ex (wo_store w2))"
    using p(3,4) assms(4)
    by (auto simp: deliver_forward_def on_result_pure require_Inr store_forwarded_message_def on_world_ok)
  have "?ex \<le> wrap_u64 (fl_now env + mo_message_expiry_seconds cfg)" by (simp add: capped_expiry_def Let_def)
  moreover have "digest data \<in> (se_msg_id \<circ> snd) ` set (stream_of (inbox (wo_store w')) (digest next_did))"
    unfolding s store_message_inbox using bt_insert_member by (force simp: put_stream_apply)
  ultimately show ?thesis using p(1,2,5) unfolding s by (simp add: store_message_messages)
qed

definition forward_message_sample :: didcomm_message where
  "forward_message_sample = (pickup_message forward_type (empty_body\<lparr>bd_forward := Inr (Some ''did:b'')\<rparr>))\<lparr>dm_extra := Map.empty,
     dm_attachments := Some [\<lparr>at_base64 = Some ''did:a>did:b'', at_json = None, at_jws = None, at_links = None\<rparr>]\<rparr>"

definition empty_world :: world where
  "empty_world = \<lparr>wo_store = empty_state, wo_channels = [], wo_published = []\<rparr>"

definition plain_metadata :: unpack_metadata where
  "plain_metadata = \<lparr>um_encrypted = True, um_authenticated = True, um_encrypted_from_kid = Some ''did:a#1'', um_sign_from = None\<rparr>"

definition run_forward :: "world \<Rightarrow> (mediator_error + process_message_response) \<times> world" where
  "run_forward = routing_process (\<lambda>b. b) (memory_world (\<lambda>b. b) \<lparr>sk_ms = 100000, sk_secs = 100\<rparr>) sample_wire
     sample_message_config sample_flow pickup_session plain_metadata forward_message_sample"

lemma sample_acls:
  "grants allow_all_acls ReceiveForwarded" "grants (relay_sender_acls allow_all_acls) SendForwarded"
  "access_list_allowed_op allow_all_acls (Known False)"
  by code_simp+

lemma acls_into_account: "ac_acls (into_account r d n) = to_u64 (ar_acls r)"
  by (simp add: into_account_def)

lemma sample_forward_response: "\<exists>w'. run_forward empty_world =
    (Inr \<lparr>pr_store_message = False, pr_force_live_delivery = False, pr_forward_message = True, pr_data = WrapNone\<rparr>, w')"
proof -
  let ?ops = "memory_world (\<lambda>b. b) \<lparr>sk_ms = 100000, sk_secs = 100\<rparr>"
  let ?r = "default_account_record\<lparr>ar_acls := allow_all_acls\<rparr>"
  let ?f = "default_account_record\<lparr>ar_acls := relay_sender_acls allow_all_acls\<rparr>"
  let ?w1 = "empty_world\<lparr>wo_store := snd (account_add ''did:b'' allow_all_acls None empty_state)\<rparr>"
  let ?w2 = "empty_world\<lparr>wo_store := snd (account_add ''did:a'' (relay_sender_acls allow_all_acls) None
      (snd (account_add ''did:b'' allow_all_acls None empty_state)))\<rparr>"
  have m: "dm_from forward_message_sample = Some ''did:a''" "dm_extra forward_message_sample = Map.empty"
    "bd_forward (dm_body forward_message_sample) = Inr (Some ''did:b'')" "dm_expires_time forward_message_sample = None"
    "dm_attachments forward_message_sample =
       Some [\<lparr>at_base64 = Some ''did:a>did:b'', at_json = None, at_jws = None, at_links = None\<rparr>]"
    by (simp_all add: forward_message_sample_def pickup_message_def)
  have acls: "cf_global_acl_default (mo_base sample_message_config) = allow_all_acls"
    by (simp add: sample_message_config_def)
  have n: "resolve_next_account ?ops sample_message_config pickup_session forward_message_sample ''did:b'' empty_world =
      (Inr (into_account ?r ''did:b'' 0), ?w1)"
    by (simp add: resolve_next_account_def resolve_account_def acls account_get_def empty_world_def empty_state_def on_world_def
        account_add_def Let_def)
  have f: "resolve_forward_sender (\<lambda>b. b) ?ops sample_message_config pickup_session forward_message_sample ?w1 =
      (Inr (into_account ?f ''did:a'' 0), ?w2)"
    using sample_acls(2)
    by (simp add: resolve_forward_sender_def m resolve_account_def acls account_get_def empty_world_def empty_state_def on_world_def
        account_add_def Let_def into_account_def require_capability_def from_u64_grants del: grants.simps)
  have c: "forward_checks (\<lambda>b. b) ?ops sample_message_config pickup_session forward_message_sample False
      [\<lparr>at_base64 = Some ''did:a>did:b'', at_json = None, at_jws = None, at_links = None\<rparr>] (into_account ?r ''did:b'' 0) ''did:b''
      (into_account ?f ''did:a'' 0) ?w2 = (Inr (), ?w2)"
    using sample_acls(3)
    by (simp add: forward_checks_def Let_def check_access_list_def access_list_allowed_def account_add_def empty_state_def
        validate_sender_queue_limit_def validate_recipient_queue_limit_def queue_at_capacity_def into_account_def
        default_account_record_def sample_message_config_def or_default_def on_world_def forward_queue_len_def delay_ok_def delay_of_def
        m wrap_i64_def)
  have d: "decode_first_attachment sample_wire pickup_session forward_message_sample
      [\<lparr>at_base64 = Some ''did:a>did:b'', at_json = None, at_jws = None, at_links = None\<rparr>] = Inr ''did:a>did:b''"
    by (simp add: decode_first_attachment_def sample_wire_def)
  have x: "\<exists>w'. deliver_forward (\<lambda>b. b) ?ops sample_wire sample_message_config sample_flow pickup_session forward_message_sample ''did:b''
      acls account ''did:a>did:b'' delay ex False ?w2 = (Inr (), w')" for acls account delay ex
    by (simp add: deliver_forward_def sample_wire_def remote_endpoint_def sample_message_config_def store_forwarded_message_def)
  show ?thesis
    using x [of "from_u64 (ac_acls (into_account ?r ''did:b'' 0))" "into_account ?f ''did:a'' 0"
        "delay_of forward_message_sample" "capped_expiry sample_message_config (fl_now sample_flow) None"] sample_acls(1)
    unfolding run_forward_def routing_process_def
    by (auto simp: ephemeral_header_def m parse_next_did_def n f c d require_capability_def acls_into_account from_u64_grants
        simp del: grants.simps)
qed

theorem forward_accepted_sound_witness:
  "\<exists>response w'. run_forward empty_world = (Inr response, w') \<and>
     delay_of forward_message_sample = 0 \<and>
     access_list_allowed ''did:b'' (Some ''did:a'') (wo_store (sender_registered (\<lambda>b. b) sample_message_config forward_message_sample
       (register_if_new ''did:b'' allow_all_acls empty_world)))"
proof -
  obtain response w' where r: "run_forward empty_world = (Inr response, w')" using sample_forward_response by blast
  from forward_accepted_sound [OF r [unfolded run_forward_def]] r show ?thesis
    by (auto simp: ephemeral_header_def forward_message_sample_def pickup_message_def delay_of_def sample_message_config_def)
qed

theorem forward_stored_locally_witness:
  "\<exists>response w' r. run_forward empty_world = (Inr response, w') \<and>
     messages (wo_store w') ''did:a>did:b'' = Some r \<and> mr_to_did_hash r = ''did:b''"
proof -
  obtain response w' where r: "run_forward empty_world = (Inr response, w')" using sample_forward_response by blast
  have "dm_extra forward_message_sample ''ephemeral'' = None"
    "bd_forward (dm_body forward_message_sample) = Inr (Some ''did:b'')" "remote_endpoint sample_wire sample_message_config ''did:b'' = None"
    by (simp_all add: forward_message_sample_def pickup_message_def remote_endpoint_def sample_message_config_def)
  from forward_stored_locally [OF r [unfolded run_forward_def] this] r show ?thesis
    by (auto simp: forward_message_sample_def decode_first_attachment_def sample_wire_def)
qed

section \<open>Limits and privileges\<close>

lemma relay_sender_values:
  "relay_sender_acls global =
     (if grants global SendForwarded
      then (case set_send_forwarded (case from_string_ruleset ''DENY_ALL'' of Inr a \<Rightarrow> a | Inl _ \<Rightarrow> default_acl_set) True False True of
          Inr a \<Rightarrow> a | Inl _ \<Rightarrow> default_acl_set)
      else (case from_string_ruleset ''DENY_ALL'' of Inr a \<Rightarrow> a | Inl _ \<Rightarrow> default_acl_set))"
proof -
  have "is_ok (set_send_forwarded (case from_string_ruleset ''DENY_ALL'' of Inr a \<Rightarrow> a | Inl _ \<Rightarrow> default_acl_set) True False True)"
    by code_simp
  then show ?thesis by (auto simp: relay_sender_acls_def Let_def is_ok_iff)
qed

text \<open>An unknown sender is registered with the least privilege: whatever the default ACLs are, the account it
  gets may forward, and only when the default lets it, and has no other capability.\<close>
theorem relay_sender_least_privilege:
  "grants (relay_sender_acls global) c \<longleftrightarrow> c = NotBlocked \<or> c = SendForwarded \<and> grants global SendForwarded"
proof -
  let ?deny = "case from_string_ruleset ''DENY_ALL'' of Inr a \<Rightarrow> a | Inl _ \<Rightarrow> default_acl_set"
  let ?caps = "[NotBlocked, Local, SendMessages, ReceiveMessages, SendForwarded, ReceiveForwarded, CreateInvites, AnonReceive]"
  have "map (grants ?deny) ?caps = [True, False, False, False, False, False, False, False]" by code_simp
  moreover have "map (grants (case set_send_forwarded ?deny True False True of Inr a \<Rightarrow> a | Inl _ \<Rightarrow> default_acl_set)) ?caps =
      [True, False, False, False, True, False, False, False]" by code_simp
  ultimately show ?thesis unfolding relay_sender_values by (cases c) (simp_all del: grants.simps)
qed

text \<open>The queue limit is exact for a non-negative limit as long as the count does not overflow 32 bits: a forward
  is refused exactly when it would meet or exceed the limit. The limit \<open>-1\<close> never refuses, and neither does any other
  negative limit with fewer than \<open>2 ^ 31\<close> messages queued, since it is read as an unsigned number.\<close>
theorem queue_limit_exact:
  assumes "queued + incoming < 2 ^ 32" "- (2 ^ 31) \<le> limit" "limit < 2 ^ 31"
  shows "(0 \<le> limit \<longrightarrow> (queue_at_capacity queued incoming limit False \<longleftrightarrow> limit \<le> int (queued + incoming))) \<and>
    (limit < 0 \<and> queued + incoming < 2 ^ 31 \<longrightarrow> \<not> queue_at_capacity queued incoming limit False) \<and>
    \<not> queue_at_capacity queued incoming limit True"
proof (intro conjI impI)
  have m: "(queued + incoming mod 4294967296) mod 4294967296 = queued + incoming"
    using assms(1) by simp
  show "queue_at_capacity queued incoming limit False \<longleftrightarrow> limit \<le> int (queued + incoming)" if "0 \<le> limit"
    using that assms(3) unfolding queue_at_capacity_def m by (auto simp: nat_le_iff)
  show "\<not> queue_at_capacity queued incoming limit False" if that: "limit < 0 \<and> queued + incoming < 2 ^ 31"
  proof -
    have "limit mod 4294967296 = (limit + 4294967296) mod 4294967296" by simp
    also have "\<dots> = limit + 4294967296" using that assms(2) by (intro mod_pos_pos_trivial) simp_all
    finally have "limit mod 4294967296 = limit + 4294967296" .
    then show ?thesis using that assms(2) unfolding queue_at_capacity_def m by (auto simp: nat_le_iff)
  qed
  show "\<not> queue_at_capacity queued incoming limit True" by (simp add: queue_at_capacity_def)
qed

theorem queue_limit_exact_witness:
  "queue_at_capacity 9 1 10 False \<and> \<not> queue_at_capacity 8 1 10 False \<and> \<not> queue_at_capacity 8 1 (- 2) False"
  using queue_limit_exact [of 9 1 10] queue_limit_exact [of 8 1 10] queue_limit_exact [of 8 1 "- 2"] by simp

text \<open>The delay check compares absolute values, so that a delay within the limit either way passes and one beyond it
  is refused, with one exception: the least 64-bit integer, whose absolute value overflows to itself, always passes.\<close>
theorem delay_limit:
  assumes "- (2 ^ 63) \<le> delay" "delay < 2 ^ 63" "int (mo_future_time_limit cfg) * 1000 < 2 ^ 63"
  shows "delay_ok cfg delay \<longleftrightarrow> \<bar>delay\<bar> \<le> int (mo_future_time_limit cfg) * 1000 \<or> delay = - (2 ^ 63)"
proof -
  have w: "wrap_i64 x = x" if "0 \<le> x" "x < 2 ^ 63" for x
    using that by (simp add: wrap_i64_def)
  have "wrap_i64 (wrap_i64 (int (mo_future_time_limit cfg)) * 1000) = int (mo_future_time_limit cfg) * 1000"
    using assms(3) by (simp add: w)
  moreover have "wrap_i64 \<bar>delay\<bar> = (if delay = - (2 ^ 63) then - (2 ^ 63) else \<bar>delay\<bar>)"
    using assms(1,2) w [of "\<bar>delay\<bar>"] by (auto simp: wrap_i64_def)
  ultimately show ?thesis by (auto simp: delay_ok_def)
qed

theorem delay_limit_witness:
  "delay_ok sample_message_config (- 10000) \<and> \<not> delay_ok sample_message_config 10001 \<and>
   delay_ok sample_message_config (- 9223372036854775808)"
proof -
  have f: "mo_future_time_limit sample_message_config = 10" by (simp add: sample_message_config_def)
  show ?thesis
    using delay_limit [of "- 10000" sample_message_config] delay_limit [of 10001 sample_message_config]
      delay_limit [of "- 9223372036854775808" sample_message_config]
    by (simp add: f)
qed

end
