(* ===== verification/InboundProperties.thy ===== *)
theory InboundProperties
  imports Inbound RoutingProperties
begin

text \<open>
  What the inbound path guarantees: who may have a message processed or delivered directly, that the
  stripping of relay layers ends and what it leaves, and how answers of the protocols reach the sender.
\<close>

section \<open>Relay layers\<close>

definition relay_layer :: "wire \<Rightarrow> message_config \<Rightarrow> string \<Rightarrow> (didcomm_message \<times> string) option" where
  \<comment> \<open>the message and the inner text of a layer addressed to this mediator\<close>
  "relay_layer wi cfg current =
     (case wi_envelope wi current of
        Inl _ \<Rightarrow> None
      | Inr envelope \<Rightarrow>
          if en_to_did envelope \<noteq> Some (cf_mediator_did (mo_base cfg)) then None
          else (case en_unpack envelope of
              Inl _ \<Rightarrow> None
            | Inr (msg, _) \<Rightarrow> map_option (\<lambda>inner. (msg, inner)) (rewrap_inner_attachment wi (cf_mediator_did (mo_base cfg)) msg)))"


lemma peel_layers_step:
  "peel_layers wi cfg session depth current =
     (case relay_layer wi cfg current of
        None \<Rightarrow> Inr current
      | Some (msg, inner) \<Rightarrow>
          if \<not> relay_peer_trusted (mo_relay_trusted_mediators cfg) (dm_from msg)
          then Inl (problem 60 (ss_session_id session) (Some (dm_id msg)) SorterError ScopeProtocol
                 ''authorization.relay.untrusted_peer'' ''Relaying mediator is not in the trusted relay allowlist'' [] 403)
          else if mo_max_hops cfg < depth + 1
          then Inl (problem 94 (ss_session_id session) (Some (dm_id msg)) SorterError ScopeProtocol
                 ''protocol.forwarding.loop_detected'' ''Re-wrap relay exceeded maximum hop count, possible loop'' [] 508)
          else peel_layers wi cfg session (depth + 1) inner)"
  by (subst peel_layers.simps) (auto simp: relay_layer_def simp del: peel_layers.simps split: sum.split prod.split option.split)

declare peel_layers.simps [simp del]




definition drop_extra :: "wire \<Rightarrow> wire" where
  "drop_extra wi = wi\<lparr>wi_envelope := (\<lambda>t. map_sum id (\<lambda>e. e\<lparr>en_unpack :=
     map_sum id (\<lambda>(msg, metadata). (msg\<lparr>dm_extra := Map.empty\<rparr>, metadata)) (en_unpack e)\<rparr>) (wi_envelope wi t))\<rparr>"

lemma relay_layer_drop_extra:
  "relay_layer (drop_extra wi) cfg t = map_option (\<lambda>(msg, inner). (msg\<lparr>dm_extra := Map.empty\<rparr>, inner)) (relay_layer wi cfg t)"
  by (auto simp: relay_layer_def drop_extra_def rewrap_inner_attachment_def split: sum.splits option.splits list.splits)

lemma peel_drop_extra: "peel_layers (drop_extra wi) cfg session depth t = peel_layers wi cfg session depth t"
proof (induction wi cfg session depth t rule: peel_layers.induct)
  case (1 wi cfg session depth t)
  show ?case
  proof (cases "relay_layer wi cfg t")
    case None
    then show ?thesis by (simp add: peel_layers_step [of _ cfg session depth t] relay_layer_drop_extra)
  next
    case (Some p)
    obtain msg inner where p: "p = (msg, inner)" by fastforce
    obtain envelope metadata where e: "wi_envelope wi t = Inr envelope" "en_to_did envelope = Some (cf_mediator_did (mo_base cfg))"
        "en_unpack envelope = Inr (msg, metadata)" "rewrap_inner_attachment wi (cf_mediator_did (mo_base cfg)) msg = Some inner"
      using Some by (auto simp: p relay_layer_def split: sum.splits if_splits)
    show ?thesis
      using 1 [OF e(1) _ e(3) refl e(4)] e(2)
      by (auto simp: peel_layers_step [of _ cfg session depth t] relay_layer_drop_extra Some p)
  qed
qed

text \<open>The extra headers of the layers play no part in it: with all of them removed the same text or error comes
  out. So the hop count a relaying mediator puts on its layer is dropped with the layer, and the count the
  next hop starts from is that of the inner message.\<close>
theorem peel_ignores_extra:
  "peel_relay_rewrap_layers (drop_extra wi) cfg session t = peel_relay_rewrap_layers wi cfg session t"
  unfolding peel_relay_rewrap_layers_def by (rule peel_drop_extra)

section \<open>Messages for the mediator\<close>

lemma check_session_sender_match_Inr:
  "check_session_sender_match session i kid = Inr u \<longleftrightarrow>
     (\<exists>k frag. kid = Some k \<and> split_once (CHR ''#'') k = Some (ss_did session, frag))"
  by (auto simp: check_session_sender_match_def Let_def split: option.splits)

lemma split_once_hash: "split_once c k = Some (l, r) \<Longrightarrow> k = l @ c # r"
  by (induction c k arbitrary: l r rule: split_once.induct) (auto split: if_splits option.splits)

text \<open>C17. When session matching is enforced, a message for the mediator from an authenticated session is processed only
  if a key of the session's own DID signed or authcrypted it; with anonymous messages blocked, it is processed only
  if it is signed or authcrypted at all.\<close>
theorem mediator_message_sender:
  assumes "message_to_mediator digest ops wi cfg po env session message envelope s = (Inr r, s')"
  shows "\<exists>msg metadata. en_unpack envelope = Inr (msg, metadata) \<and>
    (mo_force_session_did_match cfg \<and> ss_authenticated session \<longrightarrow>
       (\<exists>frag. kid_of_sender metadata = Some (ss_did session @ ''#'' @ frag))) \<and>
    (mo_block_anonymous_outer_envelope cfg \<longrightarrow> um_authenticated metadata \<or> um_sign_from metadata \<noteq> None)"
  using assms
  by (auto simp: message_to_mediator_def on_result_Inr on_result_pure require_Inr check_session_sender_match_Inr
      split: if_splits prod.splits dest!: split_once_hash)

section \<open>Direct delivery\<close>

lemma store_envelope_memory:
  "store_response digest (memory_world digest ck) wi cfg now session
     \<lparr>pr_store_message = True, pr_force_live_delivery = False, pr_forward_message = False, pr_data = WrapEnvelope to_did m ex\<rparr>
     metadata w =
   (Inr (Stored [(to_did, digest m)] []), (live_stream (memory_world digest ck) (digest to_did) m False w)
      \<lparr>wo_store := snd (store_message digest (sk_ms ck) (sk_ms ck) (sk_ms ck) m (digest to_did) (Some (ss_did_hash session)) ex (wo_store w))\<rparr>)"
  by (simp add: store_response_def stream_and_store_def note_stored_def on_world_ok)

text \<open>C16. An envelope for another DID is stored only when direct delivery is enabled, the recipient has an account, the
  claimed sender is the session's DID (when that is enforced) and may send, or anonymous delivery is enabled, and the
  recipient's access list lets it in; then it is stored, unread, for that recipient alone.\<close>
theorem direct_delivery_sound:
  assumes "direct_delivery digest (memory_world digest ck) wi cfg env session message envelope to_did w = (Inr r, w')"
  shows "mo_local_direct_delivery_allowed cfg \<and> account_exists (digest to_did) (wo_store w) \<and>
    (mo_force_session_did_match cfg \<longrightarrow> en_from_did envelope = Some (ss_did session)) \<and>
    (case en_from_did envelope of
       Some d \<Rightarrow> grants (or_default (cf_global_acl_default (mo_base cfg)) (get_did_acl (digest d) (wo_store w))) SendMessages
     | None \<Rightarrow> mo_local_direct_delivery_allow_anon cfg) \<and>
    access_list_allowed (digest to_did) (map_option digest (en_from_did envelope)) (wo_store w) \<and>
    r = Stored [(to_did, digest message)] [] \<and>
    wo_store w' = snd (store_message digest (sk_ms ck) (sk_ms ck) (sk_ms ck) message (digest to_did)
      (Some (ss_did_hash session)) (wrap_u64 (fl_now env + mo_message_expiry_seconds cfg)) (wo_store w))"
proof (cases "en_from_did envelope")
  case None
  with assms show ?thesis
    by (auto simp: direct_delivery_def Let_def on_result_Inr on_result_pure require_Inr sender_may_send_def check_access_list_def
        store_envelope_memory split: if_splits)
next
  case (Some d)
  with assms show ?thesis
    by (auto simp: direct_delivery_def Let_def on_result_Inr on_result_pure require_Inr sender_may_send_def check_access_list_def
        store_envelope_memory require_capability_def simp del: grants.simps split: if_splits)
qed

section \<open>Pings that ask for no answer\<close>

text \<open>A valid ping that asks for no response is not accepted: the handler returns an empty response, which the
  inbound path reports to the sender as an internal error, code 77.\<close>
theorem silent_ping_fails:
  assumes "en_unpack envelope = Inr (msg, metadata)" "message_type_of (dm_typ msg) = TrustPing"
    and "bd_ping (dm_body msg) = Inr False" "dm_to msg = Some (to_did # rest)" "dm_expires_time msg = None"
    and "um_authenticated metadata" "kid_of_sender metadata = Some (ss_did session @ ''#'' @ frag)"
      "CHR ''#'' \<notin> set (ss_did session)"
  shows "message_to_mediator digest ops wi cfg po env session message envelope s =
    (Inl (problem 77 (ss_session_id session) None SorterError ScopeProtocol ''me.storage.message.error''
       ''Expected a message to store, instead got None'' [] 500), s)"
proof -
  have "check_session_sender_match session (dm_id msg) (kid_of_sender metadata) = Inr ()"
    using split_once_append [OF assms(8), of frag] by (simp add: check_session_sender_match_Inr assms(7))
  then show ?thesis
    using assms(1-6)
    by (simp add: message_to_mediator_def process_message_def message_expired_def process_type_def ping_process_def
        first_to_def and_then_def store_response_def default_response_def Let_def)
qed

definition silent_ping :: didcomm_message where
  "silent_ping = pickup_message ''https://didcomm.org/trust-ping/2.0/ping'' (empty_body\<lparr>bd_ping := Inr False\<rparr>)"

definition no_protocols :: "world protocols" where
  "no_protocols = \<lparr>po_others = (\<lambda>typ msg metadata session s. (Inr default_response, s)),
     po_features = \<lparr>df_protocols = [], df_goal_codes = [], df_headers = []\<rparr>, po_show_json = (\<lambda>_. []), po_streaming = None\<rparr>"

definition envelope_of :: "didcomm_message \<Rightarrow> unpack_metadata \<Rightarrow> meta_envelope" where
  "envelope_of msg metadata = \<lparr>en_authenticated = True, en_encrypted = True, en_from_did = dm_from msg, en_to_did = Some ''did:m'',
     en_unpack = Inr (msg, metadata)\<rparr>"

theorem silent_ping_fails_witness:
  "error_code (projl (fst (message_to_mediator (\<lambda>b. b) (memory_world (\<lambda>b. b) \<lparr>sk_ms = 0, sk_secs = 0\<rparr>) sample_wire sample_message_config
     no_protocols sample_flow pickup_session [] (envelope_of silent_ping plain_metadata) empty_world))) = 77"
proof -
  have "message_type_of (dm_typ silent_ping) = TrustPing"
    by (simp add: silent_ping_def pickup_message_def message_type_of_def message_types_def)
  moreover have "kid_of_sender plain_metadata = Some (ss_did pickup_session @ ''#'' @ ''1'')" "um_authenticated plain_metadata"
    "CHR ''#'' \<notin> set (ss_did pickup_session)"
    by (simp_all add: kid_of_sender_def plain_metadata_def pickup_session_def)
  moreover have "en_unpack (envelope_of silent_ping plain_metadata) = Inr (silent_ping, plain_metadata)"
    "bd_ping (dm_body silent_ping) = Inr False" "dm_to silent_ping = Some (''did:m'' # [])" "dm_expires_time silent_ping = None"
    by (simp_all add: envelope_of_def silent_ping_def pickup_message_def)
  ultimately show ?thesis by (subst silent_ping_fails) (simp_all add: problem_def)
qed

section \<open>Concrete runs\<close>

definition answered_ping :: didcomm_message where
  "answered_ping = pickup_message ''https://didcomm.org/trust-ping/2.0/ping'' (empty_body\<lparr>bd_ping := Inr True\<rparr>)"

theorem mediator_message_sender_witness:
  "\<exists>w'. message_to_mediator (\<lambda>b. b) (memory_world (\<lambda>b. b) \<lparr>sk_ms = 7, sk_secs = 7\<rparr>) sample_wire sample_message_config
      no_protocols sample_flow pickup_session [] (envelope_of answered_ping plain_metadata) empty_world =
      (Inr (Stored [(''did:a'', ''https://didcomm.org/trust-ping/2.0/ping'')] []), w') \<and>
     (\<exists>frag. kid_of_sender plain_metadata = Some (ss_did pickup_session @ ''#'' @ frag))"
proof -
  let ?run = "message_to_mediator (\<lambda>b. b) (memory_world (\<lambda>b. b) \<lparr>sk_ms = 7, sk_secs = 7\<rparr>) sample_wire sample_message_config
      no_protocols sample_flow pickup_session [] (envelope_of answered_ping plain_metadata) empty_world"
  have t: "message_type_of (dm_typ answered_ping) = TrustPing" "dm_expires_time answered_ping = None"
    by (simp_all add: answered_ping_def pickup_message_def message_type_of_def message_types_def)
  have c: "mo_to_recipients sample_message_config = 5" "mo_force_session_did_match sample_message_config"
    "ss_authenticated pickup_session" by (simp_all add: sample_message_config_def pickup_session_def)
  have k: "pack_message sample_wire i d plain_metadata x = Inr (om_typ x)" for i d x
    by (simp add: pack_message_def sample_wire_def plain_metadata_def)
  have u: "um_authenticated plain_metadata" by (simp add: plain_metadata_def)
  have p: "ping_process sample_flow pickup_session answered_ping =
      Inr \<lparr>pr_store_message = True, pr_force_live_delivery = False, pr_forward_message = False,
        pr_data = WrapMessage ((message_build ''u'' ''https://didcomm.org/trust-ping/2.0/ping'' OutEmpty)
          \<lparr>om_thid := Some ''1'', om_to := Some [''did:a''], om_from := Some ''did:m'', om_created_time := Some 100,
           om_expires_time := Some (wrap_u64 400)\<rparr>)\<rparr>"
    by (simp add: ping_process_def answered_ping_def pickup_message_def message_expired_def first_to_def and_then_def sample_flow_def)
  have m: "check_session_sender_match pickup_session i (kid_of_sender plain_metadata) = Inr ()" for i
    by (simp add: check_session_sender_match_Inr kid_of_sender_def plain_metadata_def pickup_session_def)
  obtain w' where r: "?run = (Inr (Stored [(''did:a'', ''https://didcomm.org/trust-ping/2.0/ping'')] []), w')"
    by (simp add: message_to_mediator_def envelope_of_def m process_message_def message_expired_def process_type_def p t u
        store_response_def store_message_to_def message_build_def k c stream_and_store_def on_world_ok note_stored_def)
  moreover have "\<exists>frag. kid_of_sender plain_metadata = Some (ss_did pickup_session @ ''#'' @ frag)"
    using mediator_message_sender [OF r] by (auto simp: envelope_of_def sample_message_config_def pickup_session_def)
  ultimately show ?thesis by blast
qed

definition delivery_world :: world where
  "delivery_world = empty_world\<lparr>wo_store := snd (account_add ''did:b'' allow_all_acls None empty_state)\<rparr>"

theorem direct_delivery_sound_witness:
  "\<exists>w' r. direct_delivery (\<lambda>b. b) (memory_world (\<lambda>b. b) \<lparr>sk_ms = 7, sk_secs = 7\<rparr>) sample_wire sample_message_config sample_flow
      pickup_session ''did:a>did:b'' (envelope_of answered_ping plain_metadata) ''did:b'' delivery_world =
      (Inr (Stored [(''did:b'', ''did:a>did:b'')] []), w') \<and>
     messages (wo_store w') ''did:a>did:b'' = Some r \<and> mr_to_did_hash r = ''did:b''"
proof -
  let ?run = "direct_delivery (\<lambda>b. b) (memory_world (\<lambda>b. b) \<lparr>sk_ms = 7, sk_secs = 7\<rparr>) sample_wire sample_message_config sample_flow
      pickup_session ''did:a>did:b'' (envelope_of answered_ping plain_metadata) ''did:b'' delivery_world"
  have acls: "fst (get_send_messages allow_all_acls)" "access_list_allowed_op allow_all_acls (Known False)" by code_simp+
  obtain w' where r: "?run = (Inr (Stored [(''did:b'', ''did:a>did:b'')] []), w')"
    using acls
    by (simp add: direct_delivery_def Let_def sample_message_config_def delivery_world_def account_exists_def account_add_def
        envelope_of_def answered_ping_def pickup_message_def pickup_session_def sender_may_send_def get_did_acl_def
        empty_world_def empty_state_def or_default_def require_capability_def check_access_list_def access_list_allowed_def
        store_envelope_memory)
  then show ?thesis using direct_delivery_sound [OF r] by (simp add: store_message_messages)
qed

end
