(* ===== verification/CesrTables.thy ===== *)
theory CesrTables
  imports Prelude
begin

text \<open>
  The CESR code tables and the base64url helpers: \<open>tables.rs\<close>, \<open>codec.rs\<close>, \<open>error.rs\<close> and \<open>sniff.rs\<close> of
  \<open>src/crates/core/affinidi-cesr/src\<close>. The three tables are association lists in the order of the source.
  Base64 itself is the crate \<open>base64ct\<close>, an argument of type \<open>b64_codec\<close>; \<open>rfc4648\<close> states what its
  documentation promises for whole groups, three bytes against four characters of the alphabet.
  A \<open>str\<close> is its UTF-8 bytes; \<open>InvalidCharacter\<close> keeps the position and leaves out the character.
\<close>

section \<open>Errors and sizes\<close>

type_synonym byte = "8 word"

datatype cesr_error =
    UnknownCode string
  | InvalidCodeSize nat nat \<comment> \<open>expected, got\<close>
  | InvalidRawSize nat nat \<comment> \<open>expected, got\<close>
  | Base64Decode string
  | UnexpectedEnd
  | InvalidCharacter nat \<comment> \<open>position\<close>
  | InvalidLeadBytes nat
  | Conversion string
  | EmptyInput
  | UnknownFormat

record sizage =
  sz_hs :: nat
  sz_ss :: nat
  sz_fs :: nat
  sz_ls :: nat

definition sizage_of :: "nat \<Rightarrow> nat \<Rightarrow> nat \<Rightarrow> sizage" where
  \<comment> \<open>every entry of the tables has \<open>ls: 0\<close>\<close>
  "sizage_of hs ss fs = \<lparr>sz_hs = hs, sz_ss = ss, sz_fs = fs, sz_ls = 0\<rparr>"

definition hardage :: "char \<Rightarrow> nat option" where
  "hardage c =
     (let n = (of_char c :: nat) in
      if (65 \<le> n \<and> n \<le> 90) \<or> (97 \<le> n \<and> n \<le> 122) then Some 1
      else if c = CHR ''0'' then Some 2
      else if c \<in> {CHR ''1'', CHR ''2'', CHR ''3''} then Some 4
      else if c \<in> {CHR ''4'', CHR ''5'', CHR ''6''} then Some 2
      else if c \<in> {CHR ''7'', CHR ''8'', CHR ''9''} then Some 4
      else if c = CHR ''-'' then Some 2
      else None)"

definition matter_table :: "(string \<times> sizage) list" where
  "matter_table =
     [(''B'', sizage_of 1 0 44), (''D'', sizage_of 1 0 44), (''E'', sizage_of 1 0 44), (''F'', sizage_of 1 0 44),
      (''G'', sizage_of 1 0 44), (''H'', sizage_of 1 0 44), (''I'', sizage_of 1 0 44), (''J'', sizage_of 1 0 24),
      (''K'', sizage_of 1 0 44), (''L'', sizage_of 1 0 24), (''C'', sizage_of 1 0 44), (''A'', sizage_of 1 0 44),
      (''1AAA'', sizage_of 4 0 48), (''1AAB'', sizage_of 4 0 48), (''1AAC'', sizage_of 4 0 80),
      (''1AAD'', sizage_of 4 0 80), (''1AAE'', sizage_of 4 0 156), (''1AAF'', sizage_of 4 0 8),
      (''1AAG'', sizage_of 4 0 36), (''1AAI'', sizage_of 4 0 48), (''1AAJ'', sizage_of 4 0 48),
      (''1AAH'', sizage_of 4 0 92), (''1AAK'', sizage_of 4 0 92), (''1AAL'', sizage_of 4 0 92),
      (''1AAM'', sizage_of 4 0 92),
      (''0A'', sizage_of 2 0 24), (''0B'', sizage_of 2 0 88), (''0C'', sizage_of 2 0 88), (''0D'', sizage_of 2 0 88),
      (''0E'', sizage_of 2 0 88), (''0F'', sizage_of 2 0 88), (''0G'', sizage_of 2 0 88), (''0I'', sizage_of 2 0 88),
      (''4A'', sizage_of 2 2 0), (''4B'', sizage_of 2 2 0), (''5A'', sizage_of 2 2 0), (''5B'', sizage_of 2 2 0),
      (''6A'', sizage_of 2 2 0), (''6B'', sizage_of 2 2 0), (''7AAA'', sizage_of 4 4 0), (''7AAB'', sizage_of 4 4 0),
      (''8AAA'', sizage_of 4 4 0), (''8AAB'', sizage_of 4 4 0), (''9AAA'', sizage_of 4 4 0), (''9AAB'', sizage_of 4 4 0)]"

definition matter_sizage :: "string \<Rightarrow> sizage option" where
  "matter_sizage code = map_of matter_table code"

definition counter_table :: "(string \<times> sizage) list" where
  "counter_table =
     [(''-A'', sizage_of 2 2 4), (''-0A'', sizage_of 3 5 8), (''-B'', sizage_of 2 2 4), (''-0B'', sizage_of 3 5 8),
      (''-C'', sizage_of 2 2 4), (''-0C'', sizage_of 3 5 8), (''-D'', sizage_of 2 2 4), (''-0D'', sizage_of 3 5 8),
      (''-E'', sizage_of 2 2 4), (''-0E'', sizage_of 3 5 8), (''-F'', sizage_of 2 2 4), (''-0F'', sizage_of 3 5 8),
      (''-G'', sizage_of 2 2 4), (''-0G'', sizage_of 3 5 8), (''-H'', sizage_of 2 2 4), (''-0H'', sizage_of 3 5 8),
      (''-I'', sizage_of 2 2 4), (''-0I'', sizage_of 3 5 8), (''-J'', sizage_of 2 2 4), (''-0J'', sizage_of 3 5 8),
      (''-V'', sizage_of 2 2 4), (''-0V'', sizage_of 3 5 8)]"

definition counter_sizage :: "string \<Rightarrow> sizage option" where
  "counter_sizage code = map_of counter_table code"

definition indexer_table :: "(string \<times> sizage) list" where
  "indexer_table =
     [(''A'', sizage_of 1 1 88), (''B'', sizage_of 1 1 88), (''C'', sizage_of 1 1 88), (''D'', sizage_of 1 1 88),
      (''E'', sizage_of 1 1 88), (''F'', sizage_of 1 1 88), (''2A'', sizage_of 2 4 92), (''2B'', sizage_of 2 4 92),
      (''2C'', sizage_of 2 4 92), (''2D'', sizage_of 2 4 92), (''2E'', sizage_of 2 4 92), (''2F'', sizage_of 2 4 92),
      (''3A'', sizage_of 2 4 156), (''3B'', sizage_of 2 4 156)]"

definition indexer_sizage :: "string \<Rightarrow> sizage option" where
  "indexer_sizage code = map_of indexer_table code"

section \<open>Base64url\<close>

definition b64_chars :: string where
  "b64_chars = ''ABCDEFGHIJKLMNOPQRSTUVWXYZabcdefghijklmnopqrstuvwxyz0123456789-_''"

definition b64_index :: "char \<Rightarrow> nat option" where
  \<comment> \<open>the table \<open>B64_DECODE\<close>, \<open>None\<close> for its entry 255\<close>
  "b64_index c = map_of (zip b64_chars [0..<64]) c"

definition ensure_ascii :: "string \<Rightarrow> cesr_error + unit" where
  "ensure_ascii qb64 =
     (case find (\<lambda>i. (of_char (qb64 ! i) :: nat) \<ge> 128) [0..<length qb64] of
        Some position \<Rightarrow> Inl (InvalidCharacter position)
      | None \<Rightarrow> Inr ())"

record b64_codec =
  b64_encode :: "byte list \<Rightarrow> string"
  b64_decode_vec :: "string \<Rightarrow> string + byte list"

definition b64_decode :: "b64_codec \<Rightarrow> string \<Rightarrow> cesr_error + byte list" where
  "b64_decode b s = (case b64_decode_vec b s of Inl e \<Rightarrow> Inl (Base64Decode e) | Inr bytes \<Rightarrow> Inr bytes)"

definition is_b64_char :: "char \<Rightarrow> bool" where
  "is_b64_char c \<longleftrightarrow> b64_index c \<noteq> None"

definition b64_char_to_index :: "char \<Rightarrow> cesr_error + nat" where
  "b64_char_to_index c = (case b64_index c of None \<Rightarrow> Inl (InvalidCharacter 0) | Some i \<Rightarrow> Inr i)"

definition index_to_b64_char :: "nat \<Rightarrow> cesr_error + char" where
  "index_to_b64_char idx =
     (if idx \<ge> 64 then Inl (Conversion (''index '' @ show_nat idx @ '' out of range for base64''))
      else Inr (b64_chars ! idx))"

definition lead_bytes :: "nat \<Rightarrow> nat" where
  "lead_bytes raw_size = (3 - raw_size mod 3) mod 3"

definition pad_size :: "nat \<Rightarrow> nat" where
  "pad_size raw_size = (3 - raw_size mod 3) mod 3"

definition qb64_to_qb2 :: "b64_codec \<Rightarrow> string \<Rightarrow> cesr_error + byte list" where
  "qb64_to_qb2 b qb64 =
     (if length qb64 mod 4 \<noteq> 0 then Inl (InvalidCodeSize ((length qb64 + 3) div 4 * 4) (length qb64))
      else b64_decode b qb64)"

definition qb2_to_qb64 :: "b64_codec \<Rightarrow> byte list \<Rightarrow> cesr_error + string" where
  "qb2_to_qb64 b qb2 =
     (if length qb2 mod 3 \<noteq> 0 then Inl (InvalidRawSize ((length qb2 + 2) div 3 * 3) (length qb2))
      else Inr (b64_encode b qb2))"

definition encode_qb64 :: "b64_codec \<Rightarrow> string \<Rightarrow> byte list \<Rightarrow> nat \<Rightarrow> cesr_error + string" where
  \<comment> \<open>\<open>fs - hs\<close> wraps when the full size is less than the code\<close>
  "encode_qb64 b code raw fs =
     (let cs = (if length code \<le> fs then fs - length code else 2 ^ 64 + fs - length code);
          encoded = b64_encode b (replicate (lead_bytes (length raw)) 0 @ raw)
      in if length encoded < cs then Inl (InvalidRawSize cs (length encoded))
         else Inr (code @ drop (length encoded - cs) encoded))"

definition decode_qb64 :: "b64_codec \<Rightarrow> string \<Rightarrow> nat \<Rightarrow> nat \<Rightarrow> nat \<Rightarrow> (cesr_error + byte list) option" where
  \<comment> \<open>\<open>None\<close>: the slice \<open>hs..fs\<close> panics\<close>
  "decode_qb64 b qb64 hs fs ls =
     (if length qb64 < fs then Some (Inl UnexpectedEnd)
      else if fs < hs then None
      else Some (and_then (b64_decode b (replicate ls (CHR ''A'') @ take (fs - hs) (drop hs qb64))) (\<lambda>decoded.
             if length decoded < ls then Inl (InvalidRawSize ls (length decoded)) else Inr (drop ls decoded))))"

section \<open>Counts in base 64\<close>

fun b64_count_from :: "nat \<Rightarrow> string \<Rightarrow> cesr_error + nat" where
  "b64_count_from count [] = Inr count"
| "b64_count_from count (c # cs) =
     and_then (b64_char_to_index c) (\<lambda>val. b64_count_from (wrap_u64 (count * 64 + val)) cs)"

definition b64_to_count :: "string \<Rightarrow> cesr_error + nat" where
  "b64_to_count s = b64_count_from 0 s"

fun count_chars :: "nat \<Rightarrow> nat \<Rightarrow> cesr_error + string \<times> nat" where
  \<comment> \<open>the last \<open>length\<close> base-64 digits, filled in from the right, and what remains\<close>
  "count_chars 0 remaining = Inr ([], remaining)"
| "count_chars (Suc n) remaining =
     and_then (index_to_b64_char (remaining mod 64)) (\<lambda>c.
     and_then (count_chars n (remaining div 64)) (\<lambda>(cs, rest). Inr (cs @ [c], rest)))"

definition count_to_b64 :: "nat \<Rightarrow> nat \<Rightarrow> cesr_error + string" where
  "count_to_b64 count len =
     and_then (count_chars len count) (\<lambda>(cs, remaining).
       if remaining > 0
       then Inl (Conversion (''count '' @ show_nat count @ '' too large for '' @ show_nat len @ '' base64 chars''))
       else Inr cs)"

section \<open>Sniffing\<close>

datatype stream_format = Json | Cbor | MessagePack | CesrText | CesrBinary

definition sniff :: "byte list \<Rightarrow> cesr_error + stream_format" where
  "sniff data =
     (case data of
        [] \<Rightarrow> Inl EmptyInput
      | b # _ \<Rightarrow>
          (let n = unat b in
           if n = 0x7b then Inr Json
           else if (0xa0 \<le> n \<and> n \<le> 0xb7) \<or> n \<in> {0xb8, 0xb9, 0xba, 0xbb, 0xbf} then Inr Cbor
           else if (0x80 \<le> n \<and> n \<le> 0x8f) \<or> n \<in> {0xde, 0xdf} then Inr MessagePack
           else if (0x41 \<le> n \<and> n \<le> 0x5a) \<or> (0x61 \<le> n \<and> n \<le> 0x7a) \<or> (0x30 \<le> n \<and> n \<le> 0x39) \<or> n \<in> {0x2d, 0x5f}
           then Inr CesrText
           else Inr CesrBinary))"

definition bytes_of :: "string \<Rightarrow> byte list" where
  "bytes_of s = map of_char s"

definition has_version_string :: "byte list \<Rightarrow> bool" where
  "has_version_string data =
     (if length data < 17 then False else take 4 data \<in> {bytes_of ''KERI'', bytes_of ''ACDC'', bytes_of ''SAID''})"

fun utf8_valid :: "byte list \<Rightarrow> bool" where
  \<comment> \<open>\<open>str::from_utf8\<close>: well-formed UTF-8\<close>
  "utf8_valid [] = True"
| "utf8_valid (a # xs) =
     (let n = unat a; cont = (\<lambda>x. 0x80 \<le> unat x \<and> unat x \<le> (0xbf :: nat)) in
      if n < 0x80 then utf8_valid xs
      else if 0xc2 \<le> n \<and> n \<le> 0xdf then (case xs of b # r \<Rightarrow> cont b \<and> utf8_valid r | _ \<Rightarrow> False)
      else if 0xe0 \<le> n \<and> n \<le> 0xef then
        (case xs of b # c # r \<Rightarrow> cont b \<and> cont c \<and> (n = 0xe0 \<longrightarrow> 0xa0 \<le> unat b) \<and> (n = 0xed \<longrightarrow> unat b \<le> 0x9f) \<and> utf8_valid r
         | _ \<Rightarrow> False)
      else if 0xf0 \<le> n \<and> n \<le> 0xf4 then
        (case xs of b # c # d # r \<Rightarrow> cont b \<and> cont c \<and> cont d \<and> (n = 0xf0 \<longrightarrow> 0x90 \<le> unat b) \<and>
              (n = 0xf4 \<longrightarrow> unat b \<le> 0x8f) \<and> utf8_valid r
         | _ \<Rightarrow> False)
      else False)"

definition text_of :: "byte list \<Rightarrow> string" where
  "text_of b = map (\<lambda>w. char_of (unat w)) b"

definition from_utf8 :: "byte list \<Rightarrow> string option" where
  \<comment> \<open>\<open>String::from_utf8\<close>\<close>
  "from_utf8 b = (if utf8_valid b then Some (text_of b) else None)"

definition version_string_size :: "byte list \<Rightarrow> cesr_error + nat" where
  "version_string_size data =
     (if length data < 17 then Inl UnexpectedEnd
      else let size_bytes = take 6 (drop 10 data); size_str = map (char_of \<circ> unat) size_bytes
           in if \<not> utf8_valid size_bytes then Inl (Conversion ''invalid version string'')
              else (case u64_from_str_radix 16 size_str of
                      None \<Rightarrow> Inl (Conversion (''invalid hex size in version string: '' @ size_str))
                    | Some v \<Rightarrow> Inr v))"

lemma unat_of_char: "unat (of_char c :: byte) = of_char c"
proof -
  have "unat (of_nat (of_char c) :: byte) = of_char c" unfolding unat_of_nat by simp
  then show ?thesis by (simp only: of_nat_of_char)
qed

lemma from_utf8_bytes_of: "utf8_valid (bytes_of v) \<Longrightarrow> from_utf8 (bytes_of v) = Some v"
  by (simp add: from_utf8_def text_of_def bytes_of_def comp_def unat_of_char)

end
