(* ===== verification/TspWire.thy ===== *)
theory TspWire
  imports CesrTables
begin

unbundle bit_operations_syntax

text \<open>
  The binary framing of the Trust Spanning Protocol: \<open>src/crates/messaging/affinidi-tsp/src/message/wire.rs\<close>.
  A header is a \<open>32 word\<close> built and taken apart bitwise as in the source, of which the low 24 bits are sent. An
  encoder returns the bytes it appends; a decoder takes the position and returns the value with the new
  position, \<open>None\<close> leaving the position as it was. The lemmas are the round trips of the frames,
  at any position of a stream.
\<close>

section \<open>Errors and bytes\<close>

datatype tsp_error =
    TspCesr cesr_error
  | TspHpke string
  | TspSigning string
  | TspVerification string
  | TspInvalidMessage string
  | TspVid string
  | TspVidNotFound string
  | TspRelationship string
  | TspNoEncryptionKey string
  | TspNoSigningKey string
  | TspStore string
  | TspSerialization string
  | TspDidResolution string

type_synonym u32 = "32 word"

definition next_multiple_of_3 :: "nat \<Rightarrow> nat" where
  "next_multiple_of_3 n = (n + 2) div 3 * 3"

definition get_range :: "'a list \<Rightarrow> nat \<Rightarrow> nat \<Rightarrow> 'a list option" where
  \<comment> \<open>\<open>slice.get(a..b)\<close>\<close>
  "get_range xs a b = (if a \<le> b \<and> b \<le> length xs then Some (take (b - a) (drop a xs)) else None)"

definition bits :: "u32 \<Rightarrow> nat \<Rightarrow> u32" where
  "bits value n = value AND mask n"

definition low_bytes :: "u32 \<Rightarrow> byte list" where
  \<comment> \<open>\<open>u32::to_be_bytes(word)[1..]\<close>\<close>
  "low_bytes w = [ucast (drop_bit 16 w), ucast (drop_bit 8 w), ucast w]"

definition extract_triplet :: "byte list \<Rightarrow> u32" where
  "extract_triplet q = push_bit 16 (ucast (q ! 0)) OR push_bit 8 (ucast (q ! 1)) OR ucast (q ! 2)"

section \<open>Codes\<close>

definition D0 :: u32 where "D0 = 52"
definition D1 :: u32 where "D1 = D0 + 1"
definition D4 :: u32 where "D4 = D0 + 4"
definition D5 :: u32 where "D5 = D0 + 5"
definition D6 :: u32 where "D6 = D0 + 6"
definition D7 :: u32 where "D7 = D0 + 7"
definition D8 :: u32 where "D8 = D0 + 8"
definition D9 :: u32 where "D9 = D0 + 9"
definition DASH :: u32 where "DASH = 62"

definition max_field_size :: nat where
  "max_field_size = 3 * 2 ^ 24"

definition cesr_symbol :: "char \<Rightarrow> 64 word" where
  "cesr_symbol c =
     (let n = (of_char c :: nat) in
      if 65 \<le> n \<and> n \<le> 90 then of_nat (n - 65)
      else if 97 \<le> n \<and> n \<le> 122 then of_nat (n - 97 + 26)
      else if 48 \<le> n \<and> n \<le> 57 then of_nat (n - 48 + 52)
      else if c = CHR ''-'' then 62
      else if c = CHR ''_'' then 63
      else 0)"

definition cesr_int :: "string \<Rightarrow> 64 word" where
  "cesr_int s = foldl (\<lambda>acc c. push_bit 6 acc OR cesr_symbol c) 0 s"

definition cesr_data3 :: "string \<Rightarrow> byte list" where
  \<comment> \<open>\<open>cesr_data::<3>\<close>\<close>
  "cesr_data3 s = low_bytes (ucast (cesr_int s))"

definition TSP_PLAINTEXT :: u32 where "TSP_PLAINTEXT = ucast (cesr_int ''B'')"
definition TSP_VID :: u32 where "TSP_VID = ucast (cesr_int ''B'')"
definition TSP_HPKEAUTH_CIPHERTEXT :: u32 where "TSP_HPKEAUTH_CIPHERTEXT = ucast (cesr_int ''G'')"
definition ED25519_SIGNATURE :: u32 where "ED25519_SIGNATURE = ucast (cesr_int ''B'')"
definition TSP_TMP :: u32 where "TSP_TMP = ucast (cesr_int ''X'')"
definition TSP_ETS_WRAPPER :: "16 word" where "TSP_ETS_WRAPPER = ucast (cesr_int ''E'')"
definition TSP_PAYLOAD :: "16 word" where "TSP_PAYLOAD = ucast (cesr_int ''Z'')"
definition TSP_HOP_LIST :: "16 word" where "TSP_HOP_LIST = ucast (cesr_int ''J'')"
definition TSP_ATTACH_GRP :: "16 word" where "TSP_ATTACH_GRP = ucast (cesr_int ''C'')"
definition TSP_INDEX_SIG_GRP :: "16 word" where "TSP_INDEX_SIG_GRP = ucast (cesr_int ''K'')"

definition XSCS :: "byte list" where "XSCS = cesr_data3 ''XSCS''"
definition XHOP :: "byte list" where "XHOP = cesr_data3 ''XHOP''"
definition YTSP :: "byte list" where "YTSP = cesr_data3 ''YTSP''"

definition TSP_VERSION_MAJOR :: "16 word" where "TSP_VERSION_MAJOR = 0"

definition encoded_version :: "16 word" where
  "encoded_version = push_bit 6 0 OR 1"

definition MAX_HOPS :: nat where "MAX_HOPS = 16"

section \<open>Encoding\<close>

definition fixed_header :: "u32 \<Rightarrow> nat \<Rightarrow> u32" where
  \<comment> \<open>the header word for 1, 2 or 3 header bytes\<close>
  "fixed_header identifier hdr_bytes =
     (if hdr_bytes = 1 then push_bit 18 (bits identifier 6)
      else if hdr_bytes = 2 then push_bit 18 D0 OR push_bit 12 (bits identifier 6)
      else push_bit 18 D1 OR bits identifier 18)"

definition encode_fixed_data :: "u32 \<Rightarrow> byte list \<Rightarrow> byte list" where
  "encode_fixed_data identifier payload =
     (let hdr_bytes = next_multiple_of_3 (length payload + 1) - length payload
      in take hdr_bytes (low_bytes (fixed_header identifier hdr_bytes)) @ payload)"

definition encode_variable_data :: "u32 \<Rightarrow> byte list \<Rightarrow> byte list" where
  "encode_variable_data identifier payload =
     (let padded_size = next_multiple_of_3 (length payload);
          lead_bytes = padded_size - length payload;
          selector = D4 + of_nat lead_bytes;
          quads = (of_nat (padded_size div 3) :: u32)
      in (if quads < 64 * 64 \<and> identifier < 64
          then low_bytes (push_bit 18 (bits selector 6) OR push_bit 12 (bits identifier 6) OR bits quads 12)
          else low_bytes (push_bit 18 (bits (selector + 3) 6) OR bits identifier 18) @ low_bytes (bits quads 24)) @
         replicate lead_bytes 0 @ payload)"

definition encode_count :: "16 word \<Rightarrow> u32 \<Rightarrow> byte list" where
  "encode_count identifier count =
     (if count < 4096
      then low_bytes (push_bit 18 DASH OR push_bit 12 (bits (ucast identifier) 6) OR bits count 12)
      else low_bytes (push_bit 18 DASH OR push_bit 12 D0 OR push_bit 6 (bits (ucast identifier) 6) OR
             bits (drop_bit 24 count) 6) @ low_bytes (bits count 24))"

definition encode_version :: "byte list" where
  "encode_version = YTSP @ encode_count TSP_VERSION_MAJOR (ucast encoded_version)"

definition encode_hops :: "byte list list \<Rightarrow> byte list" where
  "encode_hops hops = encode_count TSP_HOP_LIST (of_nat (length hops)) @ concat (map (encode_variable_data TSP_VID) hops)"

section \<open>Decoding\<close>

definition decode_count :: "16 word \<Rightarrow> byte list \<Rightarrow> nat \<Rightarrow> (u32 \<times> nat) option" where
  "decode_count identifier stream pos =
     (case get_range stream pos (pos + 3) of
        None \<Rightarrow> None
      | Some s \<Rightarrow>
          let word = extract_triplet s; index = word AND mask 12
          in if word = push_bit 18 DASH OR push_bit 12 (bits (ucast identifier) 6) OR bits index 12
             then Some (index, pos + 3)
             else if word = push_bit 18 DASH OR push_bit 12 D0 OR push_bit 6 (bits (ucast identifier) 6) OR bits (index AND 0x3F) 6
             then (case get_range stream (pos + 3) (pos + 6) of
                     None \<Rightarrow> None
                   | Some s2 \<Rightarrow> Some (push_bit 24 index OR extract_triplet s2, pos + 6))
             else None)"

definition decode_fixed_data :: "nat \<Rightarrow> u32 \<Rightarrow> byte list \<Rightarrow> nat \<Rightarrow> (byte list \<times> nat) option" where
  "decode_fixed_data n identifier stream pos =
     (let total_size = next_multiple_of_3 (n + 1); hdr_bytes = total_size - n
      in case get_range stream pos (pos + hdr_bytes) of
           None \<Rightarrow> None
         | Some hdr \<Rightarrow>
             if hdr \<noteq> take hdr_bytes (low_bytes (fixed_header identifier hdr_bytes)) then None
             else (case get_range stream (pos + hdr_bytes) (pos + total_size) of
                     None \<Rightarrow> None
                   | Some data \<Rightarrow> if length data = n then Some (data, pos + total_size) else None))"

definition decode_variable_data_range :: "u32 \<Rightarrow> byte list \<Rightarrow> nat \<Rightarrow> ((nat \<times> nat) \<times> nat) option" where
  \<comment> \<open>the range of the data in the stream, and the new position, which is its end\<close>
  "decode_variable_data_range identifier stream pos =
     (if length stream < pos then None
      else let s = drop pos stream in
        case get_range s 0 3 of
          None \<Rightarrow> None
        | Some head \<Rightarrow>
            let input = extract_triplet head; selector = drop_bit 18 input;
                found =
                  (if selector \<in> {D4, D5, D6} then Some (drop_bit 12 input AND mask 6, input AND mask 12)
                   else if selector \<in> {D7, D8, D9}
                   then (case get_range s 3 6 of None \<Rightarrow> None | Some s2 \<Rightarrow> Some (input AND mask 18, extract_triplet s2))
                   else None)
            in case found of
                 None \<Rightarrow> None
               | Some (found_id, quads) \<Rightarrow>
                   if found_id \<noteq> identifier then None
                   else if unat quads * 3 > max_field_size then None
                   else let offset = unat (selector - D4);
                            data_begin = offset + 3;
                            data_end = next_multiple_of_3 (offset + 1) + 3 * unat quads
                        in case get_range s data_begin data_end of
                             None \<Rightarrow> None
                           | Some _ \<Rightarrow> Some ((data_begin + pos, data_end + pos), data_end + pos))"

definition decode_variable_data :: "u32 \<Rightarrow> byte list \<Rightarrow> nat \<Rightarrow> (byte list \<times> nat) option" where
  "decode_variable_data identifier stream pos =
     (case decode_variable_data_range identifier stream pos of
        None \<Rightarrow> None
      | Some ((a, b), p) \<Rightarrow> Some (take (b - a) (drop a stream), p))"

fun decode_hop_list :: "nat \<Rightarrow> byte list \<Rightarrow> nat \<Rightarrow> tsp_error + byte list list \<times> nat" where
  "decode_hop_list 0 stream pos = Inr ([], pos)"
| "decode_hop_list (Suc n) stream pos =
     (case decode_variable_data TSP_VID stream pos of
        None \<Rightarrow> Inl (TspInvalidMessage ''malformed hop VID'')
      | Some (hop, p) \<Rightarrow> and_then (decode_hop_list n stream p) (\<lambda>(hops, q). Inr (hop # hops, q)))"

definition decode_hops :: "byte list \<Rightarrow> nat \<Rightarrow> tsp_error + byte list list \<times> nat" where
  "decode_hops stream pos =
     (case decode_count TSP_HOP_LIST stream pos of
        None \<Rightarrow> Inl (TspInvalidMessage ''missing -J hop list'')
      | Some (count, p) \<Rightarrow>
          if unat count > MAX_HOPS then Inl (TspInvalidMessage ''hop list too long'')
          else decode_hop_list (unat count) stream p)"

definition decode_version :: "byte list \<Rightarrow> nat \<Rightarrow> tsp_error + nat" where
  "decode_version stream pos =
     (case get_range stream pos (pos + length YTSP) of
        None \<Rightarrow> Inl (TspInvalidMessage ''truncated version marker'')
      | Some hdr \<Rightarrow>
          if hdr \<noteq> YTSP then Inl (TspInvalidMessage ''not a YTSP version marker'')
          else (case decode_count TSP_VERSION_MAJOR stream (pos + length YTSP) of
                  None \<Rightarrow> Inl (TspInvalidMessage ''bad TSP version count code'')
                | Some (_, p) \<Rightarrow> Inr p))"

section \<open>Header words\<close>

lemma length_low_bytes [simp]: "length (low_bytes w) = 3"
  by (simp add: low_bytes_def)

lemma triplet_low: "extract_triplet (low_bytes w) = w AND mask 24"
proof (rule bit_word_eqI)
  fix n :: nat
  consider "n < 8" | "8 \<le> n" "n < 16" | "16 \<le> n" by linarith
  then show "bit (extract_triplet (low_bytes w)) n = bit (w AND mask 24) n"
    by cases (auto simp: extract_triplet_def low_bytes_def bit_simps)
qed

lemma bits_id: "unat v < 2 ^ n \<Longrightarrow> bits v n = v"
proof -
  assume "unat v < 2 ^ n"
  then have "uint v < 2 ^ n" by (metis of_nat_less_iff of_nat_numeral of_nat_power uint_nat)
  then show ?thesis by (simp add: bits_def mask_eq_iff)
qed

lemma short_header:
  fixes a b c :: u32
  defines "w \<equiv> push_bit 18 (bits a 6) OR push_bit 12 (bits b 6) OR bits c 12"
  shows "w AND mask 24 = w" "drop_bit 18 w = bits a 6" "drop_bit 12 w AND mask 6 = bits b 6" "w AND mask 12 = bits c 12"
  unfolding w_def bits_def by (rule bit_word_eqI; auto simp: bit_simps)+

lemma long_header:
  fixes a b :: u32
  defines "w \<equiv> push_bit 18 (bits a 6) OR bits b 18"
  shows "w AND mask 24 = w" "drop_bit 18 w = bits a 6" "w AND mask 18 = bits b 18"
  unfolding w_def bits_def by (rule bit_word_eqI; auto simp: bit_simps)+

lemma bits_mask: "m \<le> n \<Longrightarrow> bits a m AND mask n = bits a m"
  unfolding bits_def by (rule bit_word_eqI) (auto simp: bit_simps)

lemma get_range_at: "n = length ys \<Longrightarrow> get_range (xs @ ys @ zs) (length xs) (length xs + n) = Some ys"
  by (simp add: get_range_def)

lemma code_values:
  "TSP_PLAINTEXT = 1" "TSP_VID = 1" "TSP_HPKEAUTH_CIPHERTEXT = 6" "ED25519_SIGNATURE = 1" "TSP_TMP = 23"
  "TSP_ETS_WRAPPER = 4" "TSP_PAYLOAD = 25" "TSP_HOP_LIST = 9" "TSP_ATTACH_GRP = 2" "TSP_INDEX_SIG_GRP = 10"
  by code_simp+

lemma marker_values: "XSCS = [0x5d, 0x20, 0x92]" "XHOP = [0x5c, 0x73, 0x8f]" "YTSP = [0x61, 0x34, 0x8f]"
  by code_simp+

section \<open>Round trips\<close>

lemma next_multiple: "n \<le> next_multiple_of_3 n" "next_multiple_of_3 n < n + 3" "next_multiple_of_3 n mod 3 = 0"
  "next_multiple_of_3 n = 3 * (next_multiple_of_3 n div 3)"
  unfolding next_multiple_of_3_def by presburger+

definition field_ok :: "u32 \<Rightarrow> byte list \<Rightarrow> bool" where
  \<comment> \<open>the identifier has 18 bits and the padded length 24\<close>
  "field_ok identifier payload \<longleftrightarrow> unat identifier < 2 ^ 18 \<and> next_multiple_of_3 (length payload) div 3 < 2 ^ 24"

lemma selector_values:
  "l < 3 \<Longrightarrow> D4 + of_nat l \<in> {D4, D5, D6}" "l < 3 \<Longrightarrow> D4 + of_nat l + 3 \<in> {D7, D8, D9}"
  "l < 3 \<Longrightarrow> D4 + of_nat l + 3 \<notin> {D4, D5, D6}"
  "l < 3 \<Longrightarrow> unat (D4 + of_nat l) < 64" "l < 3 \<Longrightarrow> unat (D4 + of_nat l + 3) < 64"
proof -
  have l: "l < 3 \<Longrightarrow> l = 0 \<or> l = 1 \<or> l = 2" by linarith
  show "l < 3 \<Longrightarrow> D4 + of_nat l \<in> {D4, D5, D6}" "l < 3 \<Longrightarrow> D4 + of_nat l + 3 \<in> {D7, D8, D9}"
    "l < 3 \<Longrightarrow> D4 + of_nat l + 3 \<notin> {D4, D5, D6}" "l < 3 \<Longrightarrow> unat (D4 + of_nat l) < 64" "l < 3 \<Longrightarrow> unat (D4 + of_nat l + 3) < 64"
    by (drule l; auto simp: D4_def D5_def D6_def D7_def D8_def D9_def D0_def)+
qed

lemma pad_multiple: "l < 3 \<Longrightarrow> next_multiple_of_3 (l + 1) = 3" "l < 3 \<Longrightarrow> next_multiple_of_3 (l + 3 + 1) = 6"
  unfolding next_multiple_of_3_def by presburger+

lemma variable_parts:
  assumes "field_ok identifier payload"
  obtains h l q where "encode_variable_data identifier payload = h @ replicate l 0 @ payload" "l < 3" "l + length payload = 3 * q" "q < 2 ^ 24"
    "length h = 3 \<and> drop_bit 18 (extract_triplet h) = D4 + of_nat l \<and> drop_bit 12 (extract_triplet h) AND mask 6 = identifier \<and>
       extract_triplet h AND mask 12 = of_nat q \<or>
     length h = 6 \<and> drop_bit 18 (extract_triplet (take 3 h)) = D4 + of_nat l + 3 \<and>
       extract_triplet (take 3 h) AND mask 18 = identifier \<and> extract_triplet (drop 3 h) = of_nat q"
proof -
  define n where "n = next_multiple_of_3 (length payload)"
  define l where "l = n - length payload"
  define q where "q = n div 3"
  have l: "l < 3" "l + length payload = 3 * q"
    using next_multiple [of "length payload"] unfolding l_def q_def n_def by linarith+
  have q: "q < 2 ^ 24" and i: "unat identifier < 2 ^ 18" using assms by (auto simp: field_ok_def q_def n_def)
  have uq: "unat (of_nat q :: u32) = q" using q by (simp add: unat_of_nat)
  show thesis
  proof (cases "(of_nat q :: u32) < 64 * 64 \<and> identifier < 64")
    case True
    let ?w = "push_bit 18 (bits (D4 + of_nat l) 6) OR push_bit 12 (bits identifier 6) OR bits (of_nat q) 12"
    have "unat (of_nat q :: u32) < 2 ^ 12" "unat identifier < 2 ^ 6" using True by (simp_all add: word_less_nat_alt)
    then have "bits (D4 + of_nat l) 6 = D4 + of_nat l" "bits identifier 6 = identifier" "bits (of_nat q :: u32) 12 = of_nat q"
      using selector_values(4) [OF l(1)] by (simp_all only: bits_id) (simp_all add: bits_id)
    then have "drop_bit 18 (extract_triplet (low_bytes ?w)) = D4 + of_nat l" "drop_bit 12 (extract_triplet (low_bytes ?w)) AND mask 6 = identifier"
      "extract_triplet (low_bytes ?w) AND mask 12 = of_nat q"
      unfolding triplet_low short_header by this
    moreover have "encode_variable_data identifier payload = low_bytes ?w @ replicate l 0 @ payload"
      using True by (simp add: encode_variable_data_def Let_def flip: n_def l_def q_def)
    ultimately show thesis using that [of "low_bytes ?w" l q] l q by simp
  next
    case False
    let ?w = "push_bit 18 (bits (D4 + of_nat l + 3) 6) OR bits identifier 18"
    have "bits (D4 + of_nat l + 3) 6 = D4 + of_nat l + 3" "bits identifier 18 = identifier" "bits (of_nat q :: u32) 24 = of_nat q"
      using selector_values(5) [OF l(1)] i q uq by (simp_all add: bits_id)
    then have "drop_bit 18 (extract_triplet (low_bytes ?w)) = D4 + of_nat l + 3" "extract_triplet (low_bytes ?w) AND mask 18 = identifier"
      "extract_triplet (low_bytes (bits (of_nat q) 24)) = of_nat q"
      unfolding triplet_low long_header bits_mask [OF order_refl] by this
    moreover have "encode_variable_data identifier payload = (low_bytes ?w @ low_bytes (bits (of_nat q) 24)) @ replicate l 0 @ payload"
      using False by (auto simp add: encode_variable_data_def Let_def simp flip: n_def l_def q_def)
    ultimately show thesis using that [of "low_bytes ?w @ low_bytes (bits (of_nat q) 24)" l q] l q by simp
  qed
qed

lemma range_at:
  assumes "field_ok identifier payload"
  shows "decode_variable_data_range identifier (xs @ encode_variable_data identifier payload @ zs) (length xs) =
    (let p = length xs + length (encode_variable_data identifier payload) in Some ((p - length payload, p), p))"
proof -
  obtain h l q where e: "encode_variable_data identifier payload = h @ replicate l 0 @ payload" "l < 3" "l + length payload = 3 * q" "q < 2 ^ 24"
    and h: "length h = 3 \<and> drop_bit 18 (extract_triplet h) = D4 + of_nat l \<and> drop_bit 12 (extract_triplet h) AND mask 6 = identifier \<and>
       extract_triplet h AND mask 12 = of_nat q \<or>
     length h = 6 \<and> drop_bit 18 (extract_triplet (take 3 h)) = D4 + of_nat l + 3 \<and>
       extract_triplet (take 3 h) AND mask 18 = identifier \<and> extract_triplet (drop 3 h) = of_nat q"
    by (rule variable_parts [OF assms]) iprover
  have uq: "unat (of_nat q :: u32) = q" "q * 3 \<le> max_field_size" using e(4) by (simp_all add: unat_of_nat max_field_size_def)
  have ul: "unat (of_nat l :: u32) = l" "unat (of_nat l + 3 :: u32) = l + 3"
    using e(2) by (simp_all add: unat_of_nat unat_word_ariths)
  from h show ?thesis
  proof
    assume "length h = 3 \<and> drop_bit 18 (extract_triplet h) = D4 + of_nat l \<and> drop_bit 12 (extract_triplet h) AND mask 6 = identifier \<and>
       extract_triplet h AND mask 12 = of_nat q"
    then show ?thesis
      using e(2,3) uq ul selector_values(1) [OF e(2)] pad_multiple(1) [OF e(2)] unfolding e(1)
      by (simp add: decode_variable_data_range_def Let_def get_range_def)
  next
    assume "length h = 6 \<and> drop_bit 18 (extract_triplet (take 3 h)) = D4 + of_nat l + 3 \<and>
       extract_triplet (take 3 h) AND mask 18 = identifier \<and> extract_triplet (drop 3 h) = of_nat q"
    then show ?thesis
      using e(2,3) uq ul selector_values(2,3) [OF e(2)] pad_multiple(2) [OF e(2)] unfolding e(1)
      by (simp add: decode_variable_data_range_def Let_def get_range_def)
  qed
qed

lemma variable_at:
  assumes "field_ok identifier payload"
  shows "decode_variable_data identifier (xs @ encode_variable_data identifier payload @ zs) (length xs) =
    Some (payload, length xs + length (encode_variable_data identifier payload))"
proof -
  obtain h where "encode_variable_data identifier payload = h @ payload" by (simp add: encode_variable_data_def Let_def)
  then show ?thesis using range_at [OF assms, of xs zs] by (simp add: decode_variable_data_def Let_def)
qed

lemma quad_header:
  fixes a d i c :: u32
  defines "w \<equiv> push_bit 18 (bits a 6) OR push_bit 12 (bits d 6) OR push_bit 6 (bits i 6) OR bits c 6"
  shows "w AND mask 24 = w" "w AND mask 12 = push_bit 6 (bits i 6) OR bits c 6" "drop_bit 12 w AND mask 6 = bits d 6"
    "(w AND mask 12) AND mask 6 = bits c 6"
  unfolding w_def bits_def by (rule bit_word_eqI; auto simp: bit_simps)+

lemma bits_codes: "bits DASH 6 = DASH" "bits D0 6 = D0" "bits (bits x n) n = bits x n" "(0x3F :: u32) = mask 6"
  by (simp_all add: bits_id DASH_def D0_def bits_def mask_eq_exp_minus_1)

lemmas count_header = quad_header [of DASH D0, unfolded bits_codes] and short_count_header = short_header [of DASH, unfolded bits_codes]

lemma short_count_at:
  assumes "c < 4096"
  shows "decode_count i (xs @ encode_count i c @ zs) (length xs) = Some (c, length xs + 3)"
proof -
  let ?w = "push_bit 18 DASH OR push_bit 12 (bits (ucast i) 6) OR bits c 12"
  have "bits c 12 = c" using assms by (intro bits_id) (simp add: word_less_nat_alt)
  then have "extract_triplet (low_bytes ?w) = ?w" "?w AND mask 12 = c"
    unfolding triplet_low short_count_header by simp_all
  then show ?thesis using assms get_range_at [of 3 "low_bytes ?w" xs zs]
    by (simp add: decode_count_def encode_count_def Let_def)
qed

lemma long_count_at:
  assumes "\<not> c < 4096" "bits (ucast i) 6 \<noteq> D0"
  shows "decode_count i (xs @ encode_count i c @ zs) (length xs) =
    Some (push_bit 24 (push_bit 6 (bits (ucast i) 6) OR bits (drop_bit 24 c) 6) OR bits c 24, length xs + 6)"
proof -
  let ?w = "push_bit 18 DASH OR push_bit 12 D0 OR push_bit 6 (bits (ucast i) 6) OR bits (drop_bit 24 c) 6"
  let ?short = "push_bit 18 DASH OR push_bit 12 (bits (ucast i) 6) OR bits (?w AND mask 12) 12"
  have w: "extract_triplet (low_bytes ?w) = ?w" unfolding triplet_low count_header by (rule refl)
  have n: "?w \<noteq> ?short"
  proof
    assume "?w = ?short"
    then have "drop_bit 12 ?w AND mask 6 = drop_bit 12 ?short AND mask 6" by (rule arg_cong)
    then show False unfolding count_header short_count_header using assms(2) by simp
  qed
  have l: "?w = push_bit 18 DASH OR push_bit 12 D0 OR push_bit 6 (bits (ucast i) 6) OR bits ((?w AND mask 12) AND 0x3F) 6"
    unfolding bits_codes(4) count_header(4) bits_codes(3) by (rule refl)
  have d: "decode_count i (xs @ low_bytes w @ low_bytes v @ zs) (length xs) = Some (push_bit 24 m OR v, length xs + 6)"
    if "extract_triplet (low_bytes w) = w" "extract_triplet (low_bytes v) = v" "w AND mask 12 = m"
      "w \<noteq> push_bit 18 DASH OR push_bit 12 (bits (ucast i) 6) OR bits m 12"
      "w = push_bit 18 DASH OR push_bit 12 D0 OR push_bit 6 (bits (ucast i) 6) OR bits (m AND 0x3F) 6" for w v m
  proof -
    have "get_range (xs @ low_bytes w @ low_bytes v @ zs) (length xs) (length xs + 3) = Some (low_bytes w)"
      by (rule get_range_at) simp
    moreover have "get_range (xs @ low_bytes w @ low_bytes v @ zs) (length xs + 3) (length xs + 6) = Some (low_bytes v)"
      by (simp add: get_range_def)
    ultimately show ?thesis
      using that(1-4) that(5) [symmetric] unfolding decode_count_def by (simp add: Let_def)
  qed
  have "extract_triplet (low_bytes (bits c 24)) = bits c 24" by (simp add: triplet_low bits_mask)
  from d [OF w this refl n l] show ?thesis using assms(1) unfolding count_header by (simp add: encode_count_def)
qed

lemma count_at:
  assumes "bits (ucast i) 6 \<noteq> D0"
  shows "\<exists>v. decode_count i (xs @ encode_count i c @ zs) (length xs) = Some (v, length xs + length (encode_count i c))"
proof (cases "c < 4096")
  case True
  then show ?thesis using short_count_at [OF True, of i xs zs] by (simp add: encode_count_def)
next
  case False
  then show ?thesis using long_count_at [OF False assms, of xs zs] by (simp add: encode_count_def)
qed

lemma long_count_value:
  fixes c j :: u32
  assumes "c < 2 ^ 30"
  shows "push_bit 24 (push_bit 6 (bits j 6) OR bits (drop_bit 24 c) 6) OR bits c 24 = c \<longleftrightarrow> \<not> bit j 0 \<and> \<not> bit j 1"
    (is "?w = c \<longleftrightarrow> _")
proof -
  have "c AND mask 30 = c" using assms by (rule less_mask_eq)
  then have hi: "\<not> bit c n" if "30 \<le> n" for n using that by (metis bit_and_iff bit_mask_iff not_less)
  have lo: "bit ?w n = bit c n" if "n < 30" for n using that by (auto simp: bits_def bit_simps)
  have top: "bit ?w 30 = bit j 0" "bit ?w 31 = bit j 1" by (auto simp: bits_def bit_simps)
  show ?thesis
  proof
    assume "?w = c"
    then show "\<not> bit j 0 \<and> \<not> bit j 1" using top hi [of 30] hi [of 31] by simp
  next
    assume "\<not> bit j 0 \<and> \<not> bit j 1"
    then have j: "bit ?w 30 = bit c 30" "bit ?w 31 = bit c 31" using top hi [of 30] hi [of 31] by simp_all
    have "bit ?w n = bit c n" if "n < 32" for n
    proof -
      have "n < 30 \<or> n = 30 \<or> n = 31" using that by arith
      then show ?thesis using lo j by blast
    qed
    then show "?w = c" by (intro bit_word_eqI) simp
  qed
qed

lemma fixed_at:
  "n = length payload \<Longrightarrow> decode_fixed_data n identifier (xs @ encode_fixed_data identifier payload @ zs) (length xs) =
     Some (payload, length xs + length (encode_fixed_data identifier payload))"
proof -
  assume n: "n = length payload"
  let ?h = "next_multiple_of_3 (n + 1) - n"
  have "?h \<le> 3" "n \<le> next_multiple_of_3 (n + 1)" using next_multiple [of "n + 1"] by linarith+
  then show ?thesis
    using n by (simp add: decode_fixed_data_def encode_fixed_data_def Let_def get_range_def min_def)
qed

lemma version_at: "decode_version (xs @ encode_version @ zs) (length xs) = Inr (length xs + length encode_version)"
proof -
  let ?c = "encode_count TSP_VERSION_MAJOR (ucast encoded_version)"
  have c: "(ucast encoded_version :: u32) < 4096" "length ?c = 3" by code_simp+
  have "get_range (xs @ YTSP @ ?c @ zs) (length xs) (length xs + length YTSP) = Some YTSP" by (rule get_range_at) simp
  moreover have "decode_count TSP_VERSION_MAJOR (xs @ YTSP @ ?c @ zs) (length xs + length YTSP) =
      Some (ucast encoded_version, length xs + length YTSP + 3)"
    using short_count_at [OF c(1), of TSP_VERSION_MAJOR "xs @ YTSP" zs] by simp
  ultimately show ?thesis using c(2) by (simp add: decode_version_def encode_version_def)
qed

lemma hop_list_at:
  "\<forall>h \<in> set hops. field_ok TSP_VID h \<Longrightarrow>
   decode_hop_list (length hops) (xs @ concat (map (encode_variable_data TSP_VID) hops) @ zs) (length xs) =
     Inr (hops, length xs + length (concat (map (encode_variable_data TSP_VID) hops)))"
proof (induction hops arbitrary: xs)
  case (Cons h hops)
  let ?e = "encode_variable_data TSP_VID"
  have "decode_variable_data TSP_VID (xs @ ?e h @ concat (map ?e hops) @ zs) (length xs) = Some (h, length xs + length (?e h))"
    using Cons.prems by (intro variable_at) simp
  moreover have "decode_hop_list (length hops) ((xs @ ?e h) @ concat (map ?e hops) @ zs) (length (xs @ ?e h)) =
      Inr (hops, length (xs @ ?e h) + length (concat (map ?e hops)))"
    using Cons.prems by (intro Cons.IH) simp
  ultimately show ?case by simp
qed simp

lemma hops_at:
  assumes "\<forall>h \<in> set hops. field_ok TSP_VID h" "length hops \<le> MAX_HOPS"
  shows "decode_hops (xs @ encode_hops hops @ zs) (length xs) = Inr (hops, length xs + length (encode_hops hops))"
proof -
  let ?n = "of_nat (length hops) :: u32" and ?f = "concat (map (encode_variable_data TSP_VID) hops)"
  have n: "unat ?n = length hops" "?n < 4096"
    using assms(2) by (simp_all add: MAX_HOPS_def unat_of_nat word_less_nat_alt)
  have c: "length (encode_count TSP_HOP_LIST ?n) = 3" using n(2) by (simp add: encode_count_def)
  have "decode_count TSP_HOP_LIST (xs @ encode_count TSP_HOP_LIST ?n @ ?f @ zs) (length xs) = Some (?n, length xs + 3)"
    by (rule short_count_at [OF n(2)])
  moreover have "decode_hop_list (length hops) ((xs @ encode_count TSP_HOP_LIST ?n) @ ?f @ zs) (length xs + 3) =
      Inr (hops, length xs + 3 + length ?f)"
    using hop_list_at [OF assms(1), of "xs @ encode_count TSP_HOP_LIST ?n" zs] c by simp
  ultimately show ?thesis using n(1) assms(2) c by (simp add: decode_hops_def encode_hops_def)
qed

lemma length_fields: "length (encode_variable_data identifier payload) mod 3 = 0" "length (encode_hops hops) mod 3 = 0"
proof -
  have v: "length (encode_variable_data i p) mod 3 = 0" for i p
  proof -
    have "length (encode_variable_data i p) = 3 + next_multiple_of_3 (length p) \<or>
        length (encode_variable_data i p) = 6 + next_multiple_of_3 (length p)"
      using next_multiple(1) [of "length p"] by (auto simp: encode_variable_data_def Let_def)
    then show ?thesis using next_multiple(3) [of "length p"] by presburger
  qed
  have "length (concat (map (encode_variable_data TSP_VID) hops)) mod 3 = 0"
    by (induction hops) (simp_all add: v mod_add_left_eq [symmetric])
  then show "length (encode_hops hops) mod 3 = 0" by (auto simp: encode_hops_def encode_count_def mod_add_left_eq [symmetric])
  show "length (encode_variable_data identifier payload) mod 3 = 0" by (rule v)
qed

section \<open>What a decoder accepts\<close>

lemma get_range_SomeD:
  assumes "get_range xs a b = Some ys"
  shows "a \<le> b" "b \<le> length xs" "length ys = b - a" "drop a xs = ys @ drop b xs"
proof -
  show *: "a \<le> b" "b \<le> length xs" using assms by (auto simp: get_range_def split: if_splits)
  have y: "ys = take (b - a) (drop a xs)" using assms by (auto simp: get_range_def split: if_splits)
  with * show "length ys = b - a" by simp
  have "drop b xs = drop (b - a) (drop a xs)" using * by simp
  then show "drop a xs = ys @ drop b xs" unfolding y by (simp only: append_take_drop_id)
qed

lemma low_triplet: "length s = 3 \<Longrightarrow> low_bytes (extract_triplet s) = s"
proof -
  assume "length s = 3"
  then obtain a b c where s: "s = [a, b, c]" by (auto simp: numeral_3_eq_3 length_Suc_conv)
  show ?thesis unfolding s low_bytes_def extract_triplet_def
    by (simp, intro conjI; rule bit_word_eqI; auto simp: bit_simps dest: bit_imp_le_length)
qed

lemma count_accepted:
  assumes "decode_count i xs p = Some (v, q)" "bit i 1" "v < 4096"
  shows "q = p + 3" "drop p xs = encode_count i v @ drop q xs"
proof -
  obtain s where s: "get_range xs p (p + 3) = Some s" using assms(1) by (auto simp: decode_count_def split: option.splits)
  define w where "w = extract_triplet s"
  have "v AND mask 12 = v" using assms(3) by (intro less_mask_eq) simp
  moreover have "\<not> bit (v AND mask 12) 31" by (simp add: bit_simps)
  ultimately have top: "\<not> bit v 31" by simp
  have long: False if l: "w = push_bit 18 DASH OR push_bit 12 D0 OR push_bit 6 (bits (ucast i) 6) OR bits ((w AND mask 12) AND 0x3F) 6"
    and x: "v = push_bit 24 (w AND mask 12) OR x" for x
  proof -
    have "w AND mask 12 = push_bit 6 (bits (ucast i) 6) OR bits ((w AND mask 12) AND 0x3F) 6"
      by (subst l) (rule count_header(2))
    moreover have "bit (push_bit 6 (bits (ucast i) 6) OR bits y 6 :: u32) 7" for y using assms(2) by (simp add: bits_def bit_simps)
    ultimately have "bit (w AND mask 12) 7" by metis
    then have "bit v 31" unfolding x by (simp add: bit_simps)
    with top show False ..
  qed
  define S where "S = push_bit 18 DASH OR push_bit 12 (bits (ucast i) 6) OR bits (w AND mask 12) 12"
  define L where "L = push_bit 18 DASH OR push_bit 12 D0 OR push_bit 6 (bits (ucast i) 6) OR bits ((w AND mask 12) AND 0x3F) 6"
  have run: "decode_count i xs p = (if w = S then Some (w AND mask 12, p + 3) else if w = L
      then (case get_range xs (p + 3) (p + 6) of None \<Rightarrow> None
        | Some t \<Rightarrow> Some (push_bit 24 (w AND mask 12) OR extract_triplet t, p + 6)) else None)"
    unfolding decode_count_def s option.case Let_def w_def [symmetric] S_def [symmetric] L_def [symmetric] by (rule refl)
  have "w = S"
  proof (rule ccontr)
    assume "w \<noteq> S"
    then obtain x where "w = L" "v = push_bit 24 (w AND mask 12) OR x" using assms(1) unfolding run by (auto split: if_splits option.splits)
    then show False using long unfolding L_def by blast
  qed
  then have "v = w AND mask 12 \<and> q = p + 3" using assms(1) unfolding run by simp
  with \<open>w = S\<close> have *: "w = push_bit 18 DASH OR push_bit 12 (bits (ucast i) 6) OR bits v 12 \<and> q = p + 3" unfolding S_def by blast
  then show "q = p + 3" by blast
  have "length s = 3" using get_range_SomeD(3) [OF s] by simp
  then have "s = low_bytes w" unfolding w_def by (rule low_triplet [symmetric])
  with * have "encode_count i v = s" using assms(3) by (simp add: encode_count_def)
  then show "drop p xs = encode_count i v @ drop q xs" using get_range_SomeD(4) [OF s] * by simp
qed

lemma fixed_accepted:
  assumes "decode_fixed_data n i xs p = Some (d, q)"
  shows "length d = n" "drop p xs = encode_fixed_data i d @ drop q xs"
proof -
  let ?t = "next_multiple_of_3 (n + 1)"
  obtain hdr where h: "get_range xs p (p + (?t - n)) = Some hdr" "hdr = take (?t - n) (low_bytes (fixed_header i (?t - n)))"
    "get_range xs (p + (?t - n)) (p + ?t) = Some d" "length d = n" "q = p + ?t"
    using assms by (auto simp: decode_fixed_data_def Let_def split: option.splits if_splits)
  show "length d = n" by (rule h(4))
  show "drop p xs = encode_fixed_data i d @ drop q xs"
    using get_range_SomeD(4) [OF h(1)] get_range_SomeD(4) [OF h(3)] h(2,4,5) by (simp add: encode_fixed_data_def Let_def)
qed

end
