(* ===== verification/TspCrypto.thy ===== *)
theory TspCrypto
  imports TspWire
begin

text \<open>
  The cryptography of the Trust Spanning Protocol: HPKE in authenticated mode as
  \<open>src/crates/messaging/affinidi-tsp/src/crypto/hpke.rs\<close> builds it from X25519, HKDF-SHA256 and
  ChaCha20Poly1305, and the Ed25519 calls of \<open>crypto/signing.rs\<close>. The primitives are third-party crates: they
  are the fields of the record \<open>primitives\<close>, and \<open>primitives_ok\<close> states what those crates document. The ephemeral secret
  that the source draws from the operating system is an argument of \<open>seal\<close>.
\<close>

section \<open>Primitives\<close>

record primitives =
  x25519_public :: "byte list \<Rightarrow> byte list" \<comment> \<open>\<open>PublicKey::from(&secret)\<close>\<close>
  diffie_hellman :: "byte list \<Rightarrow> byte list \<Rightarrow> byte list" \<comment> \<open>secret, public\<close>
  hkdf_extract :: "byte list \<Rightarrow> byte list \<Rightarrow> byte list" \<comment> \<open>salt, input\<close>
  hkdf_from_prk :: "byte list \<Rightarrow> string + byte list"
  hkdf_expand :: "byte list \<Rightarrow> byte list \<Rightarrow> nat \<Rightarrow> string + byte list" \<comment> \<open>key, info, length\<close>
  chacha_new :: "byte list \<Rightarrow> string + byte list" \<comment> \<open>\<open>new_from_slice\<close>\<close>
  chacha_encrypt :: "byte list \<Rightarrow> byte list \<Rightarrow> byte list \<Rightarrow> byte list \<Rightarrow> string + byte list" \<comment> \<open>key, nonce, aad, plaintext\<close>
  chacha_decrypt :: "byte list \<Rightarrow> byte list \<Rightarrow> byte list \<Rightarrow> byte list \<Rightarrow> byte list option"
  ed25519_public :: "byte list \<Rightarrow> byte list"
  ed25519_sign :: "byte list \<Rightarrow> byte list \<Rightarrow> byte list" \<comment> \<open>secret, data\<close>
  ed25519_from_bytes :: "byte list \<Rightarrow> string + byte list" \<comment> \<open>\<open>VerifyingKey::from_bytes\<close>\<close>
  ed25519_verify :: "byte list \<Rightarrow> byte list \<Rightarrow> byte list \<Rightarrow> string + unit" \<comment> \<open>key, data, signature\<close>
  sha256_bytes :: "byte list \<Rightarrow> byte list"
  blake2s_bytes :: "byte list \<Rightarrow> byte list"

definition map_err :: "('e \<Rightarrow> 'f) \<Rightarrow> 'e + 'a \<Rightarrow> 'f + 'a" where
  "map_err f r = (case r of Inl e \<Rightarrow> Inl (f e) | Inr a \<Rightarrow> Inr a)"

definition ok_or :: "'e \<Rightarrow> 'a option \<Rightarrow> 'e + 'a" where
  "ok_or e r = (case r of None \<Rightarrow> Inl e | Some a \<Rightarrow> Inr a)"

lemma result_simps [simp]:
  "map_err f (Inl e) = Inl (f e)" "map_err f (Inr a) = Inr a" "ok_or d None = Inl d" "ok_or d (Some a) = Inr a"
  "map_err f r = Inr a \<longleftrightarrow> r = Inr a" "ok_or d x = Inr a \<longleftrightarrow> x = Some a"
  by (auto simp: map_err_def ok_or_def split: sum.splits option.splits)

section \<open>HPKE\<close>

definition MODE_AUTH :: byte where "MODE_AUTH = 2"
definition N_SECRET :: nat where "N_SECRET = 32"
definition N_K :: nat where "N_K = 32"
definition N_N :: nat where "N_N = 12"

definition KEM_SUITE_ID :: "byte list" where
  "KEM_SUITE_ID = bytes_of ''KEM'' @ [0, 0x20]"

definition HPKE_SUITE_ID :: "byte list" where
  "HPKE_SUITE_ID = bytes_of ''HPKE'' @ [0, 0x20, 0, 1, 0, 3]"

definition u16_be :: "16 word \<Rightarrow> byte list" where
  \<comment> \<open>\<open>u16::to_be_bytes\<close>\<close>
  "u16_be w = [ucast (drop_bit 8 w), ucast w]"

definition labeled_extract :: "primitives \<Rightarrow> byte list \<Rightarrow> byte list \<Rightarrow> byte list \<Rightarrow> byte list \<Rightarrow> tsp_error + byte list" where
  "labeled_extract c suite_id salt label ikm =
     Inr (hkdf_extract c salt (bytes_of ''HPKE-v1'' @ suite_id @ label @ ikm))"

definition labeled_expand :: "primitives \<Rightarrow> byte list \<Rightarrow> byte list \<Rightarrow> byte list \<Rightarrow> byte list \<Rightarrow> nat \<Rightarrow> tsp_error + byte list" where
  "labeled_expand c suite_id prk label info n =
     (let labeled_info = u16_be (of_nat n) @ bytes_of ''HPKE-v1'' @ suite_id @ label @ info
      in and_then (map_err (\<lambda>e. TspHpke (''HKDF from_prk failed: '' @ e)) (hkdf_from_prk c prk)) (\<lambda>hkdf.
         map_err (\<lambda>e. TspHpke (''HKDF expand failed: '' @ e)) (hkdf_expand c hkdf labeled_info n)))"

definition extract_and_expand :: "primitives \<Rightarrow> byte list \<Rightarrow> byte list \<Rightarrow> tsp_error + byte list" where
  "extract_and_expand c dh kem_context =
     and_then (labeled_extract c KEM_SUITE_ID [] (bytes_of ''eae_prk'') dh) (\<lambda>prk.
     labeled_expand c KEM_SUITE_ID prk (bytes_of ''shared_secret'') kem_context N_SECRET)"

definition auth_encap :: "primitives \<Rightarrow> byte list \<Rightarrow> byte list \<Rightarrow> byte list \<Rightarrow> tsp_error + byte list \<times> byte list" where
  \<comment> \<open>\<open>sk_e\<close>: the random ephemeral secret; the shared secret and the encapsulated key\<close>
  "auth_encap c sk_e pk_r sk_s =
     (let enc = x25519_public c sk_e;
          dh = diffie_hellman c sk_e pk_r @ diffie_hellman c sk_s pk_r;
          kem_context = enc @ pk_r @ x25519_public c sk_s
      in and_then (extract_and_expand c dh kem_context) (\<lambda>shared_secret. Inr (shared_secret, enc)))"

definition auth_decap :: "primitives \<Rightarrow> byte list \<Rightarrow> byte list \<Rightarrow> byte list \<Rightarrow> tsp_error + byte list" where
  "auth_decap c enc sk_r pk_s =
     (let dh = diffie_hellman c sk_r enc @ diffie_hellman c sk_r pk_s;
          kem_context = enc @ x25519_public c sk_r @ pk_s
      in extract_and_expand c dh kem_context)"

definition key_schedule :: "primitives \<Rightarrow> byte list \<Rightarrow> byte list \<Rightarrow> tsp_error + byte list \<times> byte list" where
  "key_schedule c shared_secret info =
     and_then (labeled_extract c HPKE_SUITE_ID [] (bytes_of ''psk_id_hash'') []) (\<lambda>psk_id_hash.
     and_then (labeled_extract c HPKE_SUITE_ID [] (bytes_of ''info_hash'') info) (\<lambda>info_hash.
     let ks_context = MODE_AUTH # psk_id_hash @ info_hash in
     and_then (labeled_extract c HPKE_SUITE_ID shared_secret (bytes_of ''secret'') []) (\<lambda>secret.
     and_then (labeled_expand c HPKE_SUITE_ID secret (bytes_of ''key'') ks_context N_K) (\<lambda>key.
     and_then (labeled_expand c HPKE_SUITE_ID secret (bytes_of ''base_nonce'') ks_context N_N) (\<lambda>base_nonce.
     Inr (key, base_nonce))))))"

record seal_result =
  sr_enc :: "byte list"
  sr_ciphertext :: "byte list"

definition seal ::
  "primitives \<Rightarrow> byte list \<Rightarrow> byte list \<Rightarrow> byte list \<Rightarrow> byte list \<Rightarrow> byte list \<Rightarrow> byte list \<Rightarrow> tsp_error + seal_result" where
  "seal c sk_e plaintext aad sender_sk recipient_pk info =
     and_then (auth_encap c sk_e recipient_pk sender_sk) (\<lambda>(shared_secret, enc).
     and_then (key_schedule c shared_secret info) (\<lambda>(key, base_nonce).
     and_then (map_err (\<lambda>e. TspHpke (''ChaCha20Poly1305 invalid key: '' @ e)) (chacha_new c key)) (\<lambda>cipher.
     and_then (map_err (\<lambda>e. TspHpke (''ChaCha20Poly1305 seal failed: '' @ e)) (chacha_encrypt c cipher base_nonce aad plaintext)) (\<lambda>ciphertext.
     Inr \<lparr>sr_enc = enc, sr_ciphertext = ciphertext\<rparr>))))"

definition hpke_open ::
  "primitives \<Rightarrow> byte list \<Rightarrow> byte list \<Rightarrow> byte list \<Rightarrow> byte list \<Rightarrow> byte list \<Rightarrow> byte list \<Rightarrow> tsp_error + byte list" where
  "hpke_open c ciphertext aad enc recipient_sk sender_pk info =
     and_then (auth_decap c enc recipient_sk sender_pk) (\<lambda>shared_secret.
     and_then (key_schedule c shared_secret info) (\<lambda>(key, base_nonce).
     and_then (map_err (\<lambda>e. TspHpke (''ChaCha20Poly1305 invalid key: '' @ e)) (chacha_new c key)) (\<lambda>cipher.
     ok_or (TspHpke ''ChaCha20Poly1305 open failed: authentication tag mismatch'') (chacha_decrypt c cipher base_nonce aad ciphertext))))"

section \<open>Signing\<close>

definition sign :: "primitives \<Rightarrow> byte list \<Rightarrow> byte list \<Rightarrow> tsp_error + byte list" where
  "sign c data private_key = Inr (ed25519_sign c private_key data)"

definition verify :: "primitives \<Rightarrow> byte list \<Rightarrow> byte list \<Rightarrow> byte list \<Rightarrow> tsp_error + unit" where
  "verify c data signature public_key =
     and_then (map_err (\<lambda>e. TspVerification (''invalid public key: '' @ e)) (ed25519_from_bytes c public_key)) (\<lambda>verifying_key.
     map_err (\<lambda>e. TspVerification (''signature verification failed: '' @ e)) (ed25519_verify c verifying_key data signature))"

definition public_key_from_private :: "primitives \<Rightarrow> byte list \<Rightarrow> byte list" where
  "public_key_from_private c private_key = ed25519_public c private_key"

section \<open>What the primitives promise\<close>

definition primitives_ok :: "primitives \<Rightarrow> bool" where
  \<comment> \<open>documented behaviour of \<open>x25519_dalek\<close>, \<open>hkdf\<close>, \<open>chacha20poly1305\<close> and \<open>ed25519_dalek\<close>\<close>
  "primitives_ok c \<longleftrightarrow>
     (\<forall>a. length a = 32 \<longrightarrow> length (x25519_public c a) = 32) \<and>
     (\<forall>a b. length a = 32 \<and> length b = 32 \<longrightarrow>
        diffie_hellman c a (x25519_public c b) = diffie_hellman c b (x25519_public c a)) \<and>
     (\<forall>salt ikm. length (hkdf_extract c salt ikm) = 32) \<and>
     (\<forall>prk. 32 \<le> length prk \<longrightarrow> hkdf_from_prk c prk = Inr prk) \<and>
     (\<forall>prk info n. n \<le> 255 * 32 \<longrightarrow> (\<exists>okm. hkdf_expand c prk info n = Inr okm \<and> length okm = n)) \<and>
     (\<forall>key. length key = 32 \<longrightarrow> chacha_new c key = Inr key) \<and>
     (\<forall>key nonce aad plaintext. length key = 32 \<and> length nonce = 12 \<and> length plaintext < 2 ^ 32 \<longrightarrow>
        (\<exists>ct. chacha_encrypt c key nonce aad plaintext = Inr ct \<and> length ct = length plaintext + 16 \<and>
              chacha_decrypt c key nonce aad ct = Some plaintext)) \<and>
     (\<forall>a. length a = 32 \<longrightarrow> length (ed25519_public c a) = 32 \<and> ed25519_from_bytes c (ed25519_public c a) = Inr (ed25519_public c a)) \<and>
     (\<forall>a data. length a = 32 \<longrightarrow> length (ed25519_sign c a data) = 64 \<and>
        ed25519_verify c (ed25519_public c a) data (ed25519_sign c a data) = Inr ()) \<and>
     (\<forall>b. length (sha256_bytes c b) = 32 \<and> length (blake2s_bytes c b) = 32)"

lemma primitives_okD:
  assumes "primitives_ok c"
  shows "length a = 32 \<Longrightarrow> length (x25519_public c a) = 32"
    "length a = 32 \<Longrightarrow> length b = 32 \<Longrightarrow> diffie_hellman c a (x25519_public c b) = diffie_hellman c b (x25519_public c a)"
    "length (hkdf_extract c salt ikm) = 32"
    "32 \<le> length prk \<Longrightarrow> hkdf_from_prk c prk = Inr prk"
    "n \<le> 8160 \<Longrightarrow> \<exists>okm. hkdf_expand c prk info n = Inr okm \<and> length okm = n"
    "length key = 32 \<Longrightarrow> chacha_new c key = Inr key"
    "length key = 32 \<Longrightarrow> length nonce = 12 \<Longrightarrow> length plaintext < 2 ^ 32 \<Longrightarrow>
       \<exists>ct. chacha_encrypt c key nonce aad plaintext = Inr ct \<and> length ct = length plaintext + 16 \<and>
            chacha_decrypt c key nonce aad ct = Some plaintext"
    "length a = 32 \<Longrightarrow> length (ed25519_public c a) = 32"
    "length a = 32 \<Longrightarrow> ed25519_from_bytes c (ed25519_public c a) = Inr (ed25519_public c a)"
    "length a = 32 \<Longrightarrow> length (ed25519_sign c a data) = 64"
    "length a = 32 \<Longrightarrow> ed25519_verify c (ed25519_public c a) data (ed25519_sign c a data) = Inr ()"
    "length (blake2s_bytes c b) = 32"
  using assms by (simp_all add: primitives_ok_def)

lemma labeled_extract_ok:
  "primitives_ok c \<Longrightarrow> \<exists>prk. labeled_extract c suite salt label ikm = Inr prk \<and> length prk = 32"
  by (simp add: labeled_extract_def primitives_okD(3))

lemma labeled_expand_ok:
  assumes "primitives_ok c" "length prk = 32" "n \<le> 32"
  shows "\<exists>okm. labeled_expand c suite prk label info n = Inr okm \<and> length okm = n"
proof -
  have "hkdf_from_prk c prk = Inr prk" using primitives_okD(4) [OF assms(1)] assms(2) by simp
  moreover have "\<exists>okm. hkdf_expand c prk i n = Inr okm \<and> length okm = n" for i
    using primitives_okD(5) [OF assms(1)] assms(3) by simp
  ultimately show ?thesis by (force simp: labeled_expand_def Let_def and_then_def)
qed

lemma extract_and_expand_ok:
  assumes "primitives_ok c" shows "\<exists>s. extract_and_expand c dh ctx = Inr s \<and> length s = 32"
proof -
  obtain prk where "labeled_extract c KEM_SUITE_ID [] (bytes_of ''eae_prk'') dh = Inr prk" "length prk = 32"
    using labeled_extract_ok [OF assms] by blast
  then show ?thesis using labeled_expand_ok [OF assms, of prk N_SECRET]
    by (simp add: extract_and_expand_def and_then_def N_SECRET_def)
qed

lemma key_schedule_ok:
  assumes "primitives_ok c"
  shows "\<exists>key nonce. key_schedule c s info = Inr (key, nonce) \<and> length key = 32 \<and> length nonce = 12"
proof -
  obtain p where p: "labeled_extract c HPKE_SUITE_ID [] (bytes_of ''psk_id_hash'') [] = Inr p"
    using labeled_extract_ok [OF assms] by blast
  obtain i where i: "labeled_extract c HPKE_SUITE_ID [] (bytes_of ''info_hash'') info = Inr i"
    using labeled_extract_ok [OF assms] by blast
  obtain t where t: "labeled_extract c HPKE_SUITE_ID s (bytes_of ''secret'') [] = Inr t" "length t = 32"
    using labeled_extract_ok [OF assms] by blast
  obtain k where k: "labeled_expand c HPKE_SUITE_ID t (bytes_of ''key'') (MODE_AUTH # p @ i) N_K = Inr k" "length k = 32"
    using labeled_expand_ok [OF assms t(2), of N_K] by (force simp: N_K_def)
  obtain n where n: "labeled_expand c HPKE_SUITE_ID t (bytes_of ''base_nonce'') (MODE_AUTH # p @ i) N_N = Inr n" "length n = 12"
    using labeled_expand_ok [OF assms t(2), of N_N] by (force simp: N_N_def)
  show ?thesis using p i t k n by (simp add: key_schedule_def and_then_def Let_def)
qed

lemma encap_decap:
  assumes "primitives_ok c" "length sk_e = 32" "length sk_s = 32" "length sk_r = 32"
  shows "\<exists>s. auth_encap c sk_e (x25519_public c sk_r) sk_s = Inr (s, x25519_public c sk_e) \<and>
    auth_decap c (x25519_public c sk_e) sk_r (x25519_public c sk_s) = Inr s"
proof -
  note dh = primitives_okD(2) [OF assms(1)]
  obtain s where "extract_and_expand c
      (diffie_hellman c sk_e (x25519_public c sk_r) @ diffie_hellman c sk_s (x25519_public c sk_r))
      (x25519_public c sk_e @ x25519_public c sk_r @ x25519_public c sk_s) = Inr s"
    using extract_and_expand_ok [OF assms(1)] by blast
  then show ?thesis using dh [OF assms(4,2)] dh [OF assms(4,3)]
    by (simp add: auth_encap_def auth_decap_def Let_def and_then_def)
qed

lemma seal_open:
  assumes "primitives_ok c" "length sk_e = 32" "length sk_s = 32" "length sk_r = 32" "length plaintext < 2 ^ 32"
  shows "\<exists>ct. seal c sk_e plaintext aad sk_s (x25519_public c sk_r) info = Inr \<lparr>sr_enc = x25519_public c sk_e, sr_ciphertext = ct\<rparr> \<and>
    length ct = length plaintext + 16 \<and>
    hpke_open c ct aad (x25519_public c sk_e) sk_r (x25519_public c sk_s) info = Inr plaintext"
proof -
  obtain s where s: "auth_encap c sk_e (x25519_public c sk_r) sk_s = Inr (s, x25519_public c sk_e)"
    "auth_decap c (x25519_public c sk_e) sk_r (x25519_public c sk_s) = Inr s"
    using encap_decap [OF assms(1-4)] by blast
  obtain key nonce where k: "key_schedule c s info = Inr (key, nonce)" "length key = 32" "length nonce = 12"
    using key_schedule_ok [OF assms(1)] by blast
  obtain ct where "chacha_encrypt c key nonce aad plaintext = Inr ct" "length ct = length plaintext + 16"
    "chacha_decrypt c key nonce aad ct = Some plaintext"
    using primitives_okD(7) [OF assms(1) k(2,3) assms(5)] by blast
  then show ?thesis using s k primitives_okD(6) [OF assms(1) k(2)] by (simp add: seal_def hpke_open_def and_then_def)
qed

lemma sign_verify:
  assumes "primitives_ok c" "length sk = 32"
  shows "\<exists>s. sign c data sk = Inr s \<and> length s = 64 \<and> verify c data s (public_key_from_private c sk) = Inr ()"
  using primitives_okD(9-11) [OF assms] by (simp add: sign_def verify_def public_key_from_private_def and_then_def)

end
