(* ===== verification/TspMessage.thy ===== *)
theory TspMessage
  imports TspCrypto
begin

text \<open>
  The messages of the Trust Spanning Protocol: \<open>message/envelope.rs\<close>, \<open>meta.rs\<close>, \<open>direct.rs\<close> and \<open>routed.rs\<close> of
  \<open>src/crates/messaging/affinidi-tsp/src\<close>. A VID is a Rust string, so a \<open>string\<close> whose bytes are valid UTF-8. The lemmas are the
  round trip of a packed message, for every kind, and what an unpacked message proves of the bytes.
\<close>

section \<open>Message types\<close>

datatype tsp_message_type = TspDirect | TspNested | TspRouted | TspControl

definition message_type_from_byte :: "byte \<Rightarrow> tsp_error + tsp_message_type" where
  "message_type_from_byte b =
     (if b = 0 then Inr TspDirect else if b = 1 then Inr TspNested else if b = 2 then Inr TspRouted
      else if b = 3 then Inr TspControl
      else Inl (TspInvalidMessage (''unknown message type: 0x'' @ pad_left 2 (CHR ''0'') (show_radix 16 (unat b)))))"

section \<open>Envelope\<close>

record envelope =
  ev_version :: byte
  ev_message_type :: tsp_message_type
  ev_sender :: string
  ev_receiver :: string

definition TSP_VERSION :: byte where "TSP_VERSION = 1"

definition envelope_new :: "tsp_message_type \<Rightarrow> string \<Rightarrow> string \<Rightarrow> envelope" where
  "envelope_new message_type sender receiver =
     \<lparr>ev_version = TSP_VERSION, ev_message_type = message_type, ev_sender = sender, ev_receiver = receiver\<rparr>"

definition envelope_encode :: "envelope \<Rightarrow> tsp_error + byte list" where
  "envelope_encode e =
     (let body = encode_version @ encode_variable_data TSP_VID (bytes_of (ev_sender e)) @
            encode_variable_data TSP_VID (bytes_of (ev_receiver e)) @ encode_fixed_data TSP_TMP [0, 0]
      in if length body mod 3 \<noteq> 0 then Inl (TspInvalidMessage ''envelope body not a multiple of 3 bytes'')
         else Inr (encode_count TSP_ETS_WRAPPER (of_nat (length body div 3)) @ body))"

definition envelope_decode :: "byte list \<Rightarrow> tsp_error + envelope \<times> nat" where
  \<comment> \<open>\<open>decode_full\<close>, and \<open>decode\<close>, which differs in the type of the pair\<close>
  "envelope_decode data =
     and_then (ok_or (TspInvalidMessage ''missing -E envelope wrapper'') (decode_count TSP_ETS_WRAPPER data 0)) (\<lambda>(_, p).
     and_then (decode_version data p) (\<lambda>p.
     and_then (ok_or (TspInvalidMessage ''missing sender VID'') (decode_variable_data TSP_VID data p)) (\<lambda>(sender_bytes, p).
     and_then (ok_or (TspInvalidMessage ''invalid sender VID encoding'') (from_utf8 sender_bytes)) (\<lambda>sender.
     and_then (ok_or (TspInvalidMessage ''missing receiver VID'') (decode_variable_data TSP_VID data p)) (\<lambda>(receiver_bytes, p).
     and_then (ok_or (TspInvalidMessage ''invalid receiver VID encoding'') (from_utf8 receiver_bytes)) (\<lambda>receiver.
     let p = (case decode_fixed_data 2 TSP_TMP data p of None \<Rightarrow> p | Some (_, q) \<Rightarrow> q) in
     Inr (\<lparr>ev_version = TSP_VERSION, ev_message_type = TspDirect, ev_sender = sender, ev_receiver = receiver\<rparr>, p)))))))"

section \<open>Metadata without keys\<close>

definition TSP_MAGIC_BYTE :: byte where "TSP_MAGIC_BYTE = 0xF8"

definition is_tsp :: "byte list \<Rightarrow> bool" where
  "is_tsp bytes = (case bytes of [] \<Rightarrow> False | b # _ \<Rightarrow> b = TSP_MAGIC_BYTE)"

record tsp_meta_envelope =
  te_sender :: string
  te_receiver :: string
  te_message_type :: tsp_message_type
  te_sha256 :: "byte list"

definition meta_parse :: "primitives \<Rightarrow> byte list \<Rightarrow> tsp_error + tsp_meta_envelope" where
  "meta_parse c wire =
     and_then (envelope_decode wire) (\<lambda>(e, _).
     Inr \<lparr>te_sender = ev_sender e, te_receiver = ev_receiver e, te_message_type = ev_message_type e,
          te_sha256 = sha256_bytes c wire\<rparr>)"

section \<open>Payload and signature frames\<close>

definition ENC_LEN :: nat where "ENC_LEN = 32"
definition TAG_LEN :: nat where "TAG_LEN = 16"
definition SIG_LEN :: nat where "SIG_LEN = 64"

definition CONTROL_MARKER :: "byte list" where
  \<comment> \<open>\<open>payload_marker::CONTROL\<close>; \<open>DIRECT\<close> and \<open>HOP\<close> are \<open>XSCS\<close> and \<open>XHOP\<close>\<close>
  "CONTROL_MARKER = bytes_of ''ACT''"

definition encode_payload_frame :: "byte list \<Rightarrow> tsp_message_type \<Rightarrow> string list \<Rightarrow> byte list" where
  "encode_payload_frame body kind hops =
     (let frame_body =
        (case kind of
           TspDirect \<Rightarrow> XSCS
         | TspNested \<Rightarrow> XHOP @ encode_hops []
         | TspRouted \<Rightarrow> XHOP @ encode_hops (map bytes_of hops)
         | TspControl \<Rightarrow> CONTROL_MARKER) @ encode_variable_data TSP_PLAINTEXT body
      in encode_count TSP_PAYLOAD (of_nat (length frame_body div 3)) @ frame_body)"

fun hop_strings :: "byte list list \<Rightarrow> tsp_error + string list" where
  "hop_strings [] = Inr []"
| "hop_strings (h # hs) =
     and_then (ok_or (TspInvalidMessage ''hop VID not UTF-8'') (from_utf8 h)) (\<lambda>s.
     and_then (hop_strings hs) (\<lambda>ss. Inr (s # ss)))"

definition decode_payload_kind :: "byte list \<Rightarrow> byte list \<Rightarrow> nat \<Rightarrow> tsp_error + (tsp_message_type \<times> string list) \<times> nat" where
  \<comment> \<open>the three branches on the marker, \<open>pos\<close> at the marker\<close>
  "decode_payload_kind frame marker pos =
     (if marker = XSCS then Inr ((TspDirect, []), pos + 3)
      else if marker = XHOP
      then and_then (decode_hops frame (pos + 3)) (\<lambda>(hop_bytes, p).
           and_then (hop_strings hop_bytes) (\<lambda>hops.
           Inr (if hops = [] then (TspNested, hops) else (TspRouted, hops), p)))
      else if marker = CONTROL_MARKER then Inr ((TspControl, []), pos + 3)
      else Inl (TspInvalidMessage ''unsupported TSP payload type marker''))"

definition decode_payload_frame :: "byte list \<Rightarrow> tsp_error + tsp_message_type \<times> string list \<times> byte list" where
  "decode_payload_frame frame =
     and_then (ok_or (TspInvalidMessage ''missing -Z payload frame'') (decode_count TSP_PAYLOAD frame 0)) (\<lambda>(_, p).
     let p = (case decode_variable_data TSP_VID frame p of None \<Rightarrow> p | Some (_, q) \<Rightarrow> q) in
     and_then (ok_or (TspInvalidMessage ''missing payload type marker'') (get_range frame p (p + 3))) (\<lambda>marker.
     and_then (decode_payload_kind frame marker p) (\<lambda>((kind, hops), p).
     and_then (ok_or (TspInvalidMessage ''missing payload plaintext'') (decode_variable_data TSP_PLAINTEXT frame p)) (\<lambda>(body, _).
     Inr (kind, hops, body)))))"

definition encode_signature_frame :: "byte list \<Rightarrow> byte list" where
  "encode_signature_frame signature =
     (let quadlets = of_nat ((length signature + 2) div 3)
      in encode_count TSP_ATTACH_GRP quadlets @ encode_count TSP_INDEX_SIG_GRP quadlets @
         encode_fixed_data ED25519_SIGNATURE signature)"

definition decode_signature_frame :: "byte list \<Rightarrow> nat \<Rightarrow> tsp_error + byte list \<times> nat" where
  "decode_signature_frame data pos =
     and_then (ok_or (TspInvalidMessage ''missing -C signature group'') (decode_count TSP_ATTACH_GRP data pos)) (\<lambda>(a, p).
     and_then (ok_or (TspInvalidMessage ''missing -K signature group'') (decode_count TSP_INDEX_SIG_GRP data p)) (\<lambda>(k, p).
     let want = of_nat ((SIG_LEN + 2) div 3) in
     if a \<noteq> want \<or> k \<noteq> want then Inl (TspInvalidMessage ''unexpected signature group size'')
     else ok_or (TspInvalidMessage ''missing Ed25519 signature'') (decode_fixed_data SIG_LEN ED25519_SIGNATURE data p)))"

section \<open>Packing and unpacking\<close>

record unpacked_message =
  um_payload :: "byte list"
  um_hops :: "string list"
  um_sender :: string
  um_receiver :: string
  um_message_type :: tsp_message_type

definition pack_with_hops ::
  "primitives \<Rightarrow> byte list \<Rightarrow> byte list \<Rightarrow> tsp_message_type \<Rightarrow> string list \<Rightarrow> string \<Rightarrow> string \<Rightarrow>
   byte list \<Rightarrow> byte list \<Rightarrow> byte list \<Rightarrow> tsp_error + byte list" where
  \<comment> \<open>\<open>sk_e\<close>: the ephemeral secret drawn by \<open>seal\<close>\<close>
  "pack_with_hops c sk_e body message_type hops sender_vid receiver_vid sender_signing_key sender_encryption_key receiver_encryption_key =
     and_then (envelope_encode (envelope_new message_type sender_vid receiver_vid)) (\<lambda>envelope_bytes.
     and_then (seal c sk_e (encode_payload_frame body message_type hops) [] sender_encryption_key receiver_encryption_key envelope_bytes) (\<lambda>sealed.
     let g_payload = sr_ciphertext sealed @ sr_enc sealed;
         wire_bytes = envelope_bytes @ encode_variable_data TSP_HPKEAUTH_CIPHERTEXT g_payload
     in and_then (sign c wire_bytes sender_signing_key) (\<lambda>signature.
        Inr (wire_bytes @ encode_signature_frame signature))))"

definition pack ::
  "primitives \<Rightarrow> byte list \<Rightarrow> byte list \<Rightarrow> tsp_message_type \<Rightarrow> string \<Rightarrow> string \<Rightarrow>
   byte list \<Rightarrow> byte list \<Rightarrow> byte list \<Rightarrow> tsp_error + byte list" where
  "pack c sk_e body message_type sender_vid receiver_vid sender_signing_key sender_encryption_key receiver_encryption_key =
     pack_with_hops c sk_e body message_type [] sender_vid receiver_vid sender_signing_key sender_encryption_key receiver_encryption_key"

definition unpack :: "primitives \<Rightarrow> byte list \<Rightarrow> byte list \<Rightarrow> byte list \<Rightarrow> byte list \<Rightarrow> tsp_error + unpacked_message" where
  "unpack c wire_bytes receiver_decryption_key sender_encryption_key sender_signing_key =
     (if length wire_bytes < 48 then Inl (TspInvalidMessage ''message too short'')
      else
        and_then (envelope_decode wire_bytes) (\<lambda>(envelope, header_len).
        let envelope_bytes = take header_len wire_bytes in
        and_then (ok_or (TspInvalidMessage ''missing G ciphertext frame'')
            (decode_variable_data_range TSP_HPKEAUTH_CIPHERTEXT wire_bytes header_len)) (\<lambda>((a, b), signed_end).
        if b - a > max_field_size then Inl (TspInvalidMessage ''ciphertext too large'')
        else if b - a < ENC_LEN + TAG_LEN then Inl (TspInvalidMessage ''ciphertext truncated'')
        else
          and_then (decode_signature_frame wire_bytes signed_end) (\<lambda>(signature, pos).
          if pos \<noteq> length wire_bytes then Inl (TspInvalidMessage ''trailing bytes after signature'')
          else
            and_then (verify c (take signed_end wire_bytes) signature sender_signing_key) (\<lambda>_.
            let g_payload = take (b - a) (drop a wire_bytes);
                enc_start = length g_payload - ENC_LEN;
                enc = drop enc_start g_payload;
                ct_and_tag = take enc_start g_payload
            in and_then (hpke_open c ct_and_tag [] enc receiver_decryption_key sender_encryption_key envelope_bytes) (\<lambda>payload_frame.
               and_then (decode_payload_frame payload_frame) (\<lambda>(message_type, hops, payload).
               Inr \<lparr>um_payload = payload, um_hops = hops, um_sender = ev_sender envelope, um_receiver = ev_receiver envelope,
                    um_message_type = message_type\<rparr>)))))))"

definition message_digest :: "primitives \<Rightarrow> byte list \<Rightarrow> byte list" where
  "message_digest c packed = blake2s_bytes c packed"

section \<open>Routed and nested mode\<close>

definition pack_routed ::
  "primitives \<Rightarrow> byte list \<Rightarrow> byte list \<Rightarrow> string list \<Rightarrow> string \<Rightarrow> string \<Rightarrow>
   byte list \<Rightarrow> byte list \<Rightarrow> byte list \<Rightarrow> tsp_error + byte list" where
  "pack_routed c sk_e inner remaining_route sender_vid first_hop_vid sender_signing_key sender_encryption_key first_hop_encryption_key =
     (if remaining_route = [] then Inl (TspInvalidMessage ''a routed message requires at least one onward hop'')
      else if length remaining_route > MAX_HOPS
      then Inl (TspInvalidMessage (''route has '' @ show_nat (length remaining_route) @ '' hops, exceeds maximum of '' @ show_nat MAX_HOPS))
      else pack_with_hops c sk_e inner TspRouted remaining_route sender_vid first_hop_vid
             sender_signing_key sender_encryption_key first_hop_encryption_key)"

definition pack_nested ::
  "primitives \<Rightarrow> byte list \<Rightarrow> byte list \<Rightarrow> string \<Rightarrow> string \<Rightarrow> byte list \<Rightarrow> byte list \<Rightarrow> byte list \<Rightarrow> tsp_error + byte list" where
  "pack_nested c sk_e inner sender_vid intermediary_vid sender_signing_key sender_encryption_key intermediary_encryption_key =
     pack c sk_e inner TspNested sender_vid intermediary_vid sender_signing_key sender_encryption_key intermediary_encryption_key"

datatype route_step = RouteForward string "string list" "byte list" | RouteDeliver "byte list"
  \<comment> \<open>next hop, remaining hops, inner message; the inner message\<close>

definition next_hop_parts :: "string list \<Rightarrow> byte list \<Rightarrow> tsp_error + route_step" where
  "next_hop_parts hops inner =
     (case hops of [] \<Rightarrow> Inr (RouteDeliver inner) | next_vid # rest \<Rightarrow> Inr (RouteForward next_vid rest inner))"

definition next_hop :: "unpacked_message \<Rightarrow> tsp_error + route_step" where
  "next_hop unpacked = next_hop_parts (um_hops unpacked) (um_payload unpacked)"

section \<open>Round trips of the frames\<close>

lemma code_not_D0:
  "bits (ucast TSP_ETS_WRAPPER) 6 \<noteq> D0" "bits (ucast TSP_PAYLOAD) 6 \<noteq> D0"
  "bits (ucast TSP_ATTACH_GRP) 6 \<noteq> D0" "bits (ucast TSP_INDEX_SIG_GRP) 6 \<noteq> D0"
  by code_simp+

definition vid_ok :: "string \<Rightarrow> bool" where
  \<comment> \<open>a Rust string that fits a variable-data field\<close>
  "vid_ok v \<longleftrightarrow> utf8_valid (bytes_of v) \<and> length v < 3 * (2 ^ 24 - 1)"

lemma field_ok_bytes: "unat i < 2 ^ 18 \<Longrightarrow> length b \<le> 3 * (2 ^ 24 - 1) \<Longrightarrow> field_ok i b"
  unfolding field_ok_def next_multiple_of_3_def by simp

lemma vid_ok_field: "vid_ok v \<Longrightarrow> field_ok TSP_VID (bytes_of v)"
  by (rule field_ok_bytes) (simp_all add: vid_ok_def bytes_of_def code_values)

lemma length_version: "length encode_version = 6" by code_simp

lemma length_tmp: "length (encode_fixed_data TSP_TMP [0, 0]) = 3" by code_simp

lemma count_first_byte: "is_tsp (encode_count TSP_ETS_WRAPPER n @ r) \<longleftrightarrow> n < 4096"
proof (cases "n < 4096")
  case True
  let ?k = "push_bit 18 DASH OR push_bit 12 (bits (ucast TSP_ETS_WRAPPER) 6) :: u32"
  have "drop_bit 16 (?k OR bits n 12) = drop_bit 16 ?k"
    unfolding drop_bit_or bits_def by (rule bit_word_eqI) (auto simp: bit_simps)
  moreover have "ucast (drop_bit 16 ?k) = TSP_MAGIC_BYTE" by code_simp
  ultimately have "ucast (drop_bit 16 (?k OR bits n 12)) = TSP_MAGIC_BYTE" by simp
  with True show ?thesis by (simp add: encode_count_def low_bytes_def is_tsp_def or.assoc)
next
  case False
  have "bit (ucast (drop_bit 16 (push_bit 18 DASH OR push_bit 12 D0 OR push_bit 6 (bits (ucast TSP_ETS_WRAPPER) 6) OR bits (drop_bit 24 n) 6)) :: byte) 0"
    unfolding bits_def DASH_def D0_def by (simp add: bit_simps)
  moreover have "\<not> bit TSP_MAGIC_BYTE 0" by (simp add: TSP_MAGIC_BYTE_def)
  ultimately show ?thesis using False by (auto simp: encode_count_def low_bytes_def is_tsp_def)
qed

lemma length_variable: "length (encode_variable_data i p) \<le> length p + 8" "length p \<le> length (encode_variable_data i p)"
  using next_multiple [of "length p"] by (auto simp: encode_variable_data_def Let_def)

lemma envelope_at:
  assumes "vid_ok sender" "vid_ok receiver"
  obtains eb where "envelope_encode (envelope_new kind sender receiver) = Inr eb" "eb \<noteq> []" "9 \<le> length eb"
    "\<And>rest. envelope_decode (eb @ rest) = Inr (envelope_new TspDirect sender receiver, length eb)"
    "\<And>rest. is_tsp (eb @ rest) \<longleftrightarrow> length eb \<le> 12288" "length eb \<le> length sender + length receiver + 31"
proof -
  let ?s = "encode_variable_data TSP_VID (bytes_of sender)" and ?r = "encode_variable_data TSP_VID (bytes_of receiver)"
  let ?t = "encode_fixed_data TSP_TMP [0, 0]"
  define body where "body = encode_version @ ?s @ ?r @ ?t"
  define cnt where "cnt = encode_count TSP_ETS_WRAPPER (of_nat (length body div 3))"
  have m: "length body mod 3 = 0"
    unfolding body_def using length_fields(1) [of TSP_VID "bytes_of sender"] length_fields(1) [of TSP_VID "bytes_of receiver"]
      length_version length_tmp by (simp add: mod_eq_0_iff_dvd dvd_add)
  have "envelope_decode ((cnt @ body) @ rest) = Inr (envelope_new TspDirect sender receiver, length (cnt @ body))" for rest
  proof -
    obtain v where "decode_count TSP_ETS_WRAPPER (cnt @ body @ rest) 0 = Some (v, length cnt)"
      unfolding cnt_def using count_at [OF code_not_D0(1), of "[]"] by auto
    moreover have "decode_version (cnt @ encode_version @ ?s @ ?r @ ?t @ rest) (length cnt) = Inr (length cnt + length encode_version)"
      by (rule version_at)
    moreover have "decode_variable_data TSP_VID ((cnt @ encode_version) @ ?s @ ?r @ ?t @ rest) (length (cnt @ encode_version)) =
        Some (bytes_of sender, length (cnt @ encode_version) + length ?s)"
      by (rule variable_at [OF vid_ok_field [OF assms(1)]])
    moreover have "decode_variable_data TSP_VID ((cnt @ encode_version @ ?s) @ ?r @ ?t @ rest) (length (cnt @ encode_version @ ?s)) =
        Some (bytes_of receiver, length (cnt @ encode_version @ ?s) + length ?r)"
      by (rule variable_at [OF vid_ok_field [OF assms(2)]])
    moreover have "decode_fixed_data 2 TSP_TMP ((cnt @ encode_version @ ?s @ ?r) @ ?t @ rest) (length (cnt @ encode_version @ ?s @ ?r)) =
        Some ([0, 0], length (cnt @ encode_version @ ?s @ ?r) + length ?t)"
      by (rule fixed_at) simp
    ultimately show ?thesis using assms from_utf8_bytes_of
      by (simp add: envelope_decode_def body_def vid_ok_def envelope_new_def add.assoc)
  qed
  moreover have "envelope_encode (envelope_new kind sender receiver) = Inr (cnt @ body)"
    using m unfolding cnt_def body_def by (simp add: envelope_encode_def envelope_new_def Let_def del: append_assoc)
  moreover have "9 \<le> length (cnt @ body)" "cnt @ body \<noteq> []"
    using length_version by (auto simp: body_def cnt_def encode_count_def)
  moreover have len: "length (cnt @ body) \<le> length sender + length receiver + 31"
    using length_variable(1) [of TSP_VID "bytes_of sender"] length_variable(1) [of TSP_VID "bytes_of receiver"]
      length_version length_tmp by (auto simp: body_def cnt_def encode_count_def bytes_of_def)
  moreover have "is_tsp ((cnt @ body) @ rest) \<longleftrightarrow> length (cnt @ body) \<le> 12288" for rest
  proof -
    obtain n where n: "length body = 3 * n" using m by (metis dvdE dvd_eq_mod_eq_0)
    then have "n < 2 ^ 32" using len assms unfolding vid_ok_def by simp
    then have "(of_nat (length body div 3) :: u32) < 4096 \<longleftrightarrow> n < 4096"
      unfolding n by (simp add: word_less_nat_alt unat_of_nat)
    moreover have "is_tsp (cnt @ body @ rest) \<longleftrightarrow> (of_nat (length body div 3) :: u32) < 4096" unfolding cnt_def by (rule count_first_byte)
    moreover have "length cnt = (if (of_nat (length body div 3) :: u32) < 4096 then 3 else 6)" by (simp add: cnt_def encode_count_def)
    ultimately show ?thesis using n by auto
  qed
  ultimately show thesis using that [of "cnt @ body"] by blast
qed

lemma signature_at:
  assumes "length sig = SIG_LEN"
  shows "decode_signature_frame (xs @ encode_signature_frame sig) (length xs) = Inr (sig, length (xs @ encode_signature_frame sig))"
proof -
  let ?q = "of_nat ((SIG_LEN + 2) div 3) :: u32"
  let ?a = "encode_count TSP_ATTACH_GRP ?q" and ?k = "encode_count TSP_INDEX_SIG_GRP ?q" and ?f = "encode_fixed_data ED25519_SIGNATURE sig"
  have q: "?q < 4096" by code_simp
  have len: "length ?a = 3" "length ?k = 3" using q by (simp_all add: encode_count_def)
  have "decode_count TSP_ATTACH_GRP (xs @ ?a @ ?k @ ?f) (length xs) = Some (?q, length xs + 3)" by (rule short_count_at [OF q])
  moreover have "decode_count TSP_INDEX_SIG_GRP ((xs @ ?a) @ ?k @ ?f) (length (xs @ ?a)) = Some (?q, length (xs @ ?a) + 3)"
    by (rule short_count_at [OF q])
  moreover have "decode_fixed_data SIG_LEN ED25519_SIGNATURE ((xs @ ?a @ ?k) @ ?f @ []) (length (xs @ ?a @ ?k)) =
      Some (sig, length (xs @ ?a @ ?k) + length ?f)"
    using assms by (intro fixed_at) simp
  ultimately show ?thesis using len assms
    by (simp add: decode_signature_frame_def encode_signature_frame_def Let_def add.assoc)
qed

lemma length_signature_frame: "length sig = 64 \<Longrightarrow> length (encode_signature_frame sig) = 72"
proof -
  assume "length sig = 64"
  moreover have "next_multiple_of_3 65 = 66" "(22 :: u32) < 4096" by code_simp+
  ultimately show ?thesis by (simp add: encode_signature_frame_def encode_fixed_data_def encode_count_def Let_def)
qed

lemma marker_not_vid:
  assumes "m \<in> {XSCS, XHOP, CONTROL_MARKER}"
  shows "decode_variable_data TSP_VID (xs @ m @ zs) (length xs) = None" "length m = 3"
proof -
  have m: "length m = 3" "drop_bit 18 (extract_triplet m) \<notin> {D4, D5, D6}" "drop_bit 18 (extract_triplet m) \<notin> {D7, D8, D9}"
    using assms by (auto simp only: insert_iff empty_iff) code_simp+
  then show "length m = 3" by simp
  have "get_range (m @ zs) 0 3 = Some m" using m(1) by (simp add: get_range_def)
  with m(2,3) show "decode_variable_data TSP_VID (xs @ m @ zs) (length xs) = None"
    by (simp add: decode_variable_data_def decode_variable_data_range_def Let_def)
qed

lemma hop_strings_bytes: "\<forall>h \<in> set hops. utf8_valid (bytes_of h) \<Longrightarrow> hop_strings (map bytes_of hops) = Inr hops"
  by (induction hops) (simp_all add: from_utf8_bytes_of)

definition carried_kind :: "tsp_message_type \<Rightarrow> string list \<Rightarrow> tsp_message_type \<times> string list" where
  \<comment> \<open>what the payload frame conveys of a kind and a route\<close>
  "carried_kind kind hops = (if kind = TspRouted \<and> hops \<noteq> [] then (TspRouted, hops)
     else if kind = TspRouted then (TspNested, []) else (kind, []))"

lemma payload_kind_at:
  assumes "\<forall>h \<in> set hops. vid_ok h" "length hops \<le> MAX_HOPS"
  obtains m t where "encode_payload_frame body kind hops =
      encode_count TSP_PAYLOAD (of_nat (length (m @ t @ encode_variable_data TSP_PLAINTEXT body) div 3)) @ m @ t @ encode_variable_data TSP_PLAINTEXT body"
    "m \<in> {XSCS, XHOP, CONTROL_MARKER}"
    "\<And>xs zs. decode_payload_kind (xs @ m @ t @ zs) m (length xs) = Inr (carried_kind kind hops, length (xs @ m @ t))"
proof -
  have d: "XSCS \<noteq> XHOP" "XSCS \<noteq> CONTROL_MARKER" "XHOP \<noteq> CONTROL_MARKER" "length XSCS = 3" "length XHOP = 3" "length CONTROL_MARKER = 3"
    by code_simp+
  note d = d d(1-3) [symmetric]
  have hop: "decode_payload_kind (xs @ XHOP @ encode_hops (map bytes_of hs) @ zs) XHOP (length xs) =
      Inr (if hs = [] then (TspNested, []) else (TspRouted, hs), length (xs @ XHOP @ encode_hops (map bytes_of hs)))"
    if "\<forall>h \<in> set hs. vid_ok h" "length hs \<le> MAX_HOPS" for hs xs zs
  proof -
    have "decode_hops ((xs @ XHOP) @ encode_hops (map bytes_of hs) @ zs) (length (xs @ XHOP)) =
        Inr (map bytes_of hs, length (xs @ XHOP) + length (encode_hops (map bytes_of hs)))"
      using that vid_ok_field by (intro hops_at) auto
    moreover have "hop_strings (map bytes_of hs) = Inr hs" using that(1) by (intro hop_strings_bytes) (simp add: vid_ok_def)
    ultimately show ?thesis using d by (simp add: decode_payload_kind_def)
  qed
  show thesis
  proof (cases kind)
    case TspDirect
    then show ?thesis using d by (intro that [of XSCS "[]"]) (simp_all add: encode_payload_frame_def Let_def decode_payload_kind_def carried_kind_def)
  next
    case TspNested
    then show ?thesis using hop [of "[]"]
      by (intro that [of XHOP "encode_hops []"]) (simp_all add: encode_payload_frame_def Let_def carried_kind_def)
  next
    case TspRouted
    then show ?thesis using hop [OF assms]
      by (intro that [of XHOP "encode_hops (map bytes_of hops)"]) (simp_all add: encode_payload_frame_def Let_def carried_kind_def)
  next
    case TspControl
    then show ?thesis using d
      by (intro that [of CONTROL_MARKER "[]"]) (simp_all add: encode_payload_frame_def Let_def decode_payload_kind_def carried_kind_def)
  qed
qed

lemma payload_frame_round_trip:
  assumes "\<forall>h \<in> set hops. vid_ok h" "length hops \<le> MAX_HOPS" "length body \<le> 3 * (2 ^ 24 - 1)"
  shows "decode_payload_frame (encode_payload_frame body kind hops) = Inr (fst (carried_kind kind hops), snd (carried_kind kind hops), body)"
proof -
  let ?b = "encode_variable_data TSP_PLAINTEXT body"
  obtain m t where f: "encode_payload_frame body kind hops = encode_count TSP_PAYLOAD (of_nat (length (m @ t @ ?b) div 3)) @ m @ t @ ?b"
    and m: "m \<in> {XSCS, XHOP, CONTROL_MARKER}"
    and k: "\<And>xs zs. decode_payload_kind (xs @ m @ t @ zs) m (length xs) = Inr (carried_kind kind hops, length (xs @ m @ t))"
    by (rule payload_kind_at [OF assms(1,2)]) blast
  define cnt where "cnt = encode_count TSP_PAYLOAD (of_nat (length (m @ t @ ?b) div 3))"
  obtain v where "decode_count TSP_PAYLOAD (cnt @ m @ t @ ?b) 0 = Some (v, length cnt)"
    unfolding cnt_def using count_at [OF code_not_D0(2), of "[]"] by auto
  moreover have "decode_variable_data TSP_VID (cnt @ m @ t @ ?b) (length cnt) = None" by (rule marker_not_vid(1) [OF m])
  moreover have "get_range (cnt @ m @ t @ ?b) (length cnt) (length cnt + 3) = Some m"
    using marker_not_vid(2) [OF m] by (intro get_range_at) simp
  moreover have "decode_variable_data TSP_PLAINTEXT ((cnt @ m @ t) @ ?b @ []) (length (cnt @ m @ t)) =
      Some (body, length (cnt @ m @ t) + length ?b)"
    using assms(3) by (intro variable_at field_ok_bytes) (simp_all add: code_values)
  ultimately show ?thesis using k [of cnt ?b] unfolding f cnt_def [symmetric]
    by (simp add: decode_payload_frame_def split: prod.split)
qed

section \<open>Packed messages\<close>

lemma length_payload_frame: "length body \<le> length (encode_payload_frame body kind hops)"
  using length_variable(2) [of body TSP_PLAINTEXT] by (simp add: encode_payload_frame_def Let_def)

lemma length_hops: "length (encode_hops (map bytes_of hops)) \<le> 6 + (\<Sum>h\<leftarrow>hops. length h + 8)"
proof -
  have "length (concat (map (encode_variable_data TSP_VID) (map bytes_of hops))) \<le> (\<Sum>h\<leftarrow>hops. length h + 8)"
  proof (induction hops)
    case (Cons h hops)
    then show ?case using length_variable(1) [of TSP_VID "bytes_of h"] by (simp add: bytes_of_def)
  qed simp
  then show ?thesis by (auto simp: encode_hops_def encode_count_def)
qed

lemma length_frame: "length (encode_payload_frame body kind hops) \<le> length body + (\<Sum>h\<leftarrow>hops. length h + 8) + 23"
proof -
  have "length XSCS = 3" "length XHOP = 3" "length CONTROL_MARKER = 3" "length (encode_hops []) = 3" by code_simp+
  then show ?thesis
    using length_variable(1) [of TSP_PLAINTEXT body] length_hops [of hops]
    by (cases kind) (auto simp: encode_payload_frame_def Let_def encode_count_def)
qed

text \<open>Packing succeeds whenever the fields fit the wire format, and the holder of the receiver's secret recovers kind, route and
  body.\<close>

definition packable :: "byte list \<Rightarrow> tsp_message_type \<Rightarrow> string list \<Rightarrow> string \<Rightarrow> string \<Rightarrow> bool" where
  "packable body kind hops sender receiver \<longleftrightarrow> vid_ok sender \<and> vid_ok receiver \<and> (\<forall>h \<in> set hops. vid_ok h) \<and> length hops \<le> MAX_HOPS \<and>
     length (encode_payload_frame body kind hops) + 48 \<le> 3 * (2 ^ 24 - 1)"

lemma packable_small:
  assumes "vid_ok sender" "vid_ok receiver" "\<forall>h \<in> set hops. vid_ok h" "length hops \<le> MAX_HOPS"
    and "length body + (\<Sum>h\<leftarrow>hops. length h + 8) \<le> 50000000"
  shows "packable body kind hops sender receiver"
  using assms length_frame [of body kind hops] by (simp add: packable_def)

lemma pack_unpack:
  assumes "primitives_ok c" "packable body kind hops sender receiver"
    and k: "length sk_e = 32" "length ssk = 32" "length sek = 32" "length rsk = 32"
  obtains w n where "pack_with_hops c sk_e body kind hops sender receiver ssk sek (x25519_public c rsk) = Inr w"
    "envelope_decode w = Inr (envelope_new TspDirect sender receiver, n)" "is_tsp w \<longleftrightarrow> n \<le> 12288" "n \<le> length sender + length receiver + 31"
    "length w \<le> n + length (encode_payload_frame body kind hops) + 128"
    "unpack c w rsk (x25519_public c sek) (public_key_from_private c ssk) =
       Inr \<lparr>um_payload = body, um_hops = snd (carried_kind kind hops), um_sender = sender, um_receiver = receiver,
            um_message_type = fst (carried_kind kind hops)\<rparr>"
proof -
  let ?pf = "encode_payload_frame body kind hops"
  have v: "vid_ok sender" "vid_ok receiver" "\<forall>h \<in> set hops. vid_ok h" "length hops \<le> MAX_HOPS" "length ?pf + 48 \<le> 3 * (2 ^ 24 - 1)"
    using assms(2) by (simp_all add: packable_def)
  obtain eb where e: "envelope_encode (envelope_new kind sender receiver) = Inr eb" "eb \<noteq> []" "9 \<le> length eb"
    "\<And>rest. envelope_decode (eb @ rest) = Inr (envelope_new TspDirect sender receiver, length eb)"
    "\<And>rest. is_tsp (eb @ rest) \<longleftrightarrow> length eb \<le> 12288" "length eb \<le> length sender + length receiver + 31"
    by (rule envelope_at [OF v(1,2)]) blast
  obtain ct where ct: "seal c sk_e ?pf [] sek (x25519_public c rsk) eb = Inr \<lparr>sr_enc = x25519_public c sk_e, sr_ciphertext = ct\<rparr>"
    "length ct = length ?pf + 16" "hpke_open c ct [] (x25519_public c sk_e) rsk (x25519_public c sek) eb = Inr ?pf"
    using seal_open [OF assms(1) k(1,3,4), of ?pf "[]" eb] v(5) by auto
  define g where "g = ct @ x25519_public c sk_e"
  have g: "length g = length ?pf + 48" using ct(2) primitives_okD(1) [OF assms(1) k(1)] by (simp add: g_def)
  define ge where "ge = encode_variable_data TSP_HPKEAUTH_CIPHERTEXT g"
  obtain sig where sig: "sign c (eb @ ge) ssk = Inr sig" "length sig = 64" "verify c (eb @ ge) sig (public_key_from_private c ssk) = Inr ()"
    using sign_verify [OF assms(1) k(2)] by blast
  define w where "w = (eb @ ge) @ encode_signature_frame sig"
  have p: "pack_with_hops c sk_e body kind hops sender receiver ssk sek (x25519_public c rsk) = Inr w"
    using e(1) ct(1) sig(1) unfolding w_def ge_def g_def by (simp add: pack_with_hops_def Let_def)
  obtain h where ge: "ge = h @ g" by (simp add: ge_def encode_variable_data_def Let_def)
  define a where "a = length eb + length h"
  define z where "z = a + length g"
  have z: "z = length (eb @ ge)" "z - a = length g" by (simp_all add: z_def a_def ge)
  have r: "decode_variable_data_range TSP_HPKEAUTH_CIPHERTEXT w (length eb) = Some ((a, z), z)"
    using range_at [OF field_ok_bytes, of TSP_HPKEAUTH_CIPHERTEXT g eb "encode_signature_frame sig"] v(5) g
    unfolding w_def ge_def [symmetric] by (simp add: code_values Let_def z_def a_def ge)
  have sf: "decode_signature_frame w z = Inr (sig, length w)"
    using signature_at [of sig "eb @ ge"] sig(2) unfolding z(1) by (simp add: w_def SIG_LEN_def)
  have l: "\<not> length w < 48" "\<not> max_field_size < z - a" "\<not> z - a < ENC_LEN + TAG_LEN"
    using g v(5) ge unfolding z(2) by (simp_all add: w_def max_field_size_def ENC_LEN_def TAG_LEN_def)
  have t: "take z w = eb @ ge" "take (length eb) w = eb" "take (z - a) (drop a w) = g"
    unfolding w_def z ge by (simp_all add: a_def)
  have s: "take (length g - ENC_LEN) g = ct" "drop (length g - ENC_LEN) g = x25519_public c sk_e"
    using primitives_okD(1) [OF assms(1) k(1)] by (simp_all add: g_def ENC_LEN_def)
  have b: "length body \<le> 3 * (2 ^ 24 - 1)" using length_payload_frame [of body kind hops] v(5) by linarith
  have d: "envelope_decode w = Inr (envelope_new TspDirect sender receiver, length eb)" "is_tsp w \<longleftrightarrow> length eb \<le> 12288"
    unfolding w_def append_assoc by (rule e(4), rule e(5))
  have "unpack c w rsk (x25519_public c sek) (public_key_from_private c ssk) =
      Inr \<lparr>um_payload = body, um_hops = snd (carried_kind kind hops), um_sender = sender, um_receiver = receiver,
           um_message_type = fst (carried_kind kind hops)\<rparr>"
    unfolding unpack_def d(1)
    by (simp add: l r sf t s ct(3) sig(3) payload_frame_round_trip [OF v(3,4) b] envelope_new_def)
  moreover have "length w \<le> length eb + length ?pf + 128"
    using length_variable(1) [of TSP_HPKEAUTH_CIPHERTEXT g] g length_signature_frame [of sig] sig(2) by (simp add: w_def ge_def)
  ultimately show thesis using that p d e(6) by blast
qed

section \<open>What an unpacked message proves\<close>

lemma signature_accepted:
  assumes "decode_signature_frame w z = Inr (sig, length w)"
  shows "length sig = SIG_LEN" "drop z w = encode_signature_frame sig"
proof -
  let ?q = "of_nat ((SIG_LEN + 2) div 3) :: u32"
  obtain p p' where d: "decode_count TSP_ATTACH_GRP w z = Some (?q, p)" "decode_count TSP_INDEX_SIG_GRP w p = Some (?q, p')"
    "decode_fixed_data SIG_LEN ED25519_SIGNATURE w p' = Some (sig, length w)"
    using assms by (auto simp: decode_signature_frame_def and_then_Inr Let_def split: if_splits)
  have q: "?q < 4096" "bit TSP_ATTACH_GRP 1" "bit TSP_INDEX_SIG_GRP 1" by code_simp+
  show l: "length sig = SIG_LEN" by (rule fixed_accepted(1) [OF d(3)])
  show "drop z w = encode_signature_frame sig"
    using count_accepted(2) [OF d(1) q(2,1)] count_accepted(2) [OF d(2) q(3,1)] fixed_accepted(2) [OF d(3)] l
    by (simp add: encode_signature_frame_def Let_def)
qed

lemma range_accepted:
  assumes "decode_variable_data_range i w n = Some ((a, b), z)"
  shows "n \<le> a" "z = b" "b \<le> length w"
proof -
  obtain x where "get_range (drop n w) (a - n) (b - n) = Some x" "n \<le> a" "n \<le> b" "z = b" "n \<le> length w"
    using assms by (auto simp: decode_variable_data_range_def Let_def not_less split: if_splits option.splits)
  then show "n \<le> a" "z = b" "b \<le> length w" using get_range_SomeD(2) [of "drop n w" "a - n" "b - n" x] by auto
qed

lemma unpack_accepted:
  assumes "unpack c w rk spk svk = Inr m"
  obtains e n ct enc sig frame signed where "envelope_decode w = Inr (e, n)" "ev_sender e = um_sender m" "ev_receiver e = um_receiver m"
    "w = signed @ encode_signature_frame sig" "length sig = SIG_LEN" "verify c signed sig svk = Inr ()"
    "n \<le> length signed" "\<exists>h. signed = h @ ct @ enc" "length enc = ENC_LEN" "TAG_LEN \<le> length ct"
    "hpke_open c ct [] enc rk spk (take n signed) = Inr frame"
    "decode_payload_frame frame = Inr (um_message_type m, um_hops m, um_payload m)"
proof -
  obtain e n where e: "envelope_decode w = Inr (e, n)" using assms by (auto simp: unpack_def and_then_Inr split: if_splits)
  obtain a b z where r: "decode_variable_data_range TSP_HPKEAUTH_CIPHERTEXT w n = Some ((a, b), z)"
    "\<not> b - a > max_field_size" "\<not> b - a < ENC_LEN + TAG_LEN"
    using assms e by (auto simp: unpack_def and_then_Inr split: if_splits prod.splits)
  obtain sig where sf: "decode_signature_frame w z = Inr (sig, length w)"
    using assms e r by (auto simp: unpack_def and_then_Inr split: if_splits prod.splits)
  define signed where "signed = take z w"
  define g where "g = take (b - a) (drop a w)"
  have v: "verify c signed sig svk = Inr ()"
    using assms e r sf by (auto simp: unpack_def and_then_Inr signed_def split: if_splits prod.splits)
  obtain frame where f: "hpke_open c (take (length g - ENC_LEN) g) [] (drop (length g - ENC_LEN) g) rk spk (take n w) = Inr frame"
    "decode_payload_frame frame = Inr (um_message_type m, um_hops m, um_payload m)" "ev_sender e = um_sender m" "ev_receiver e = um_receiver m"
    using assms e r sf v unfolding unpack_def by (auto simp: and_then_Inr signed_def g_def Let_def split: if_splits prod.splits)
  note k = range_accepted [OF r(1)]
  have s: "w = signed @ encode_signature_frame sig" "take n w = take n signed" "n \<le> length signed"
    using signature_accepted(2) [OF sf] k r(3) unfolding signed_def by (metis append_take_drop_id, auto simp: ENC_LEN_def)
  have "signed = take a w @ g" using k(2) r(3) by (simp add: signed_def g_def ENC_LEN_def take_add [symmetric])
  then have h: "\<exists>h. signed = h @ take (length g - ENC_LEN) g @ drop (length g - ENC_LEN) g" by auto
  have "length g = b - a" using k by (simp add: g_def)
  then have "length (drop (length g - ENC_LEN) g) = ENC_LEN" "TAG_LEN \<le> length (take (length g - ENC_LEN) g)" using r(3) by auto
  then show thesis using that e f v s h signature_accepted(1) [OF sf] by metis
qed

end
