(* ===== verification/TspAgent.thy ===== *)
theory TspAgent
  imports TspMessage
begin

text \<open>
  The TSP agent: control messages (\<open>message/control.rs\<close>), the relationship state machine
  (\<open>relationship.rs\<close>), the store of identities and relationships (\<open>store.rs\<close>), VIDs and their resolution
  (\<open>vid/mod.rs\<close>, \<open>vid/resolver.rs\<close>) and \<open>TspAgent\<close> (\<open>lib.rs\<close>) of \<open>src/crates/messaging/affinidi-tsp/src\<close>.
  The agent is the record \<open>tsp_agent\<close>; an operation that changes it returns the new agent. What the source
  draws at random (ephemeral secrets, nonces, generated keys) is an argument, and the resolver for DIDs, a trait object, is a function.
\<close>

section \<open>Control messages\<close>

datatype control_type = RelationshipFormingInvite | RelationshipFormingAccept | RelationshipCancel

definition control_type_byte :: "control_type \<Rightarrow> byte" where
  \<comment> \<open>\<open>control_type as u8\<close>\<close>
  "control_type_byte t = (case t of RelationshipFormingInvite \<Rightarrow> 0 | RelationshipFormingAccept \<Rightarrow> 1 | RelationshipCancel \<Rightarrow> 2)"

definition control_type_from_byte :: "byte \<Rightarrow> tsp_error + control_type" where
  "control_type_from_byte b =
     (if b = 0 then Inr RelationshipFormingInvite else if b = 1 then Inr RelationshipFormingAccept
      else if b = 2 then Inr RelationshipCancel
      else Inl (TspInvalidMessage (''unknown control type: 0x'' @ pad_left 2 (CHR ''0'') (show_radix 16 (unat b)))))"

record control_message =
  cm_control_type :: control_type
  cm_thread_id :: "byte list option"
  cm_nonce :: "byte list option" \<comment> \<open>16 bytes\<close>

definition control_invite :: "byte list \<Rightarrow> control_message" where
  "control_invite nonce = \<lparr>cm_control_type = RelationshipFormingInvite, cm_thread_id = None, cm_nonce = Some nonce\<rparr>"

definition control_accept :: "byte list \<Rightarrow> byte list \<Rightarrow> control_message" where
  "control_accept nonce invite_digest =
     \<lparr>cm_control_type = RelationshipFormingAccept, cm_thread_id = Some invite_digest, cm_nonce = Some nonce\<rparr>"

definition control_cancel :: control_message where
  "control_cancel = \<lparr>cm_control_type = RelationshipCancel, cm_thread_id = None, cm_nonce = None\<rparr>"

definition control_encode :: "control_message \<Rightarrow> byte list" where
  "control_encode m =
     control_type_byte (cm_control_type m) #
     (case cm_thread_id m of Some digest \<Rightarrow> 1 # u16_be (of_nat (length digest)) @ digest | None \<Rightarrow> [0]) @
     (case cm_nonce m of Some nonce \<Rightarrow> 1 # nonce | None \<Rightarrow> [0])"

definition from_be_u16 :: "byte \<Rightarrow> byte \<Rightarrow> nat" where
  \<comment> \<open>\<open>u16::from_be_bytes([a, b]) as usize\<close>\<close>
  "from_be_u16 a b = unat a * 256 + unat b"

definition decode_thread_id :: "byte list \<Rightarrow> tsp_error + byte list option \<times> nat" where
  "decode_thread_id data =
     (if data ! 1 \<noteq> 0
      then if length data < 4 then Inl (TspInvalidMessage ''thread_id length truncated'')
           else let len = from_be_u16 (data ! 2) (data ! 3)
                in if length data < 4 + len then Inl (TspInvalidMessage ''thread_id data truncated'')
                   else Inr (Some (take len (drop 4 data)), 4 + len)
      else Inr (None, 2))"

definition decode_nonce :: "byte list \<Rightarrow> nat \<Rightarrow> tsp_error + byte list option" where
  "decode_nonce data offset =
     (if offset < length data
      then if data ! offset \<noteq> 0
           then if length data < offset + 1 + 16 then Inl (TspInvalidMessage ''nonce data truncated'')
                else Inr (Some (take 16 (drop (offset + 1) data)))
           else Inr None
      else Inr None)"

definition control_decode :: "byte list \<Rightarrow> tsp_error + control_message" where
  "control_decode data =
     (if length data < 2 then Inl (TspInvalidMessage ''control message too short'')
      else
        and_then (control_type_from_byte (data ! 0)) (\<lambda>t.
        and_then (decode_thread_id data) (\<lambda>(thread_id, offset).
        and_then (decode_nonce data offset) (\<lambda>nonce.
        Inr \<lparr>cm_control_type = t, cm_thread_id = thread_id, cm_nonce = nonce\<rparr>))))"

section \<open>Relationship states\<close>

datatype relationship_state = RelNone | RelPending | RelInviteReceived | RelBidirectional

datatype relationship_event = SendInvite | ReceiveInvite | SendAccept | ReceiveAccept | SendCancel | ReceiveCancel

definition can_send :: "relationship_state \<Rightarrow> bool" where
  "can_send s \<longleftrightarrow> s = RelBidirectional"

fun transition :: "relationship_state \<Rightarrow> relationship_event \<Rightarrow> (relationship_state \<times> relationship_event) + relationship_state" where
  \<comment> \<open>an error is the pair \<open>InvalidTransition\<close>\<close>
  "transition RelNone SendInvite = Inr RelPending"
| "transition RelNone ReceiveInvite = Inr RelInviteReceived"
| "transition RelPending ReceiveAccept = Inr RelBidirectional"
| "transition RelPending ReceiveCancel = Inr RelNone"
| "transition RelPending SendCancel = Inr RelNone"
| "transition RelInviteReceived SendAccept = Inr RelBidirectional"
| "transition RelInviteReceived SendCancel = Inr RelNone"
| "transition RelBidirectional SendCancel = Inr RelNone"
| "transition RelBidirectional ReceiveCancel = Inr RelNone"
| "transition s e = Inl (s, e)"

definition show_relationship_state :: "relationship_state \<Rightarrow> string" where
  "show_relationship_state s =
     (case s of RelNone \<Rightarrow> ''None'' | RelPending \<Rightarrow> ''Pending'' | RelInviteReceived \<Rightarrow> ''InviteReceived''
      | RelBidirectional \<Rightarrow> ''Bidirectional'')"

definition show_relationship_event :: "relationship_event \<Rightarrow> string" where
  "show_relationship_event e =
     (case e of SendInvite \<Rightarrow> ''SendInvite'' | ReceiveInvite \<Rightarrow> ''ReceiveInvite'' | SendAccept \<Rightarrow> ''SendAccept''
      | ReceiveAccept \<Rightarrow> ''ReceiveAccept'' | SendCancel \<Rightarrow> ''SendCancel'' | ReceiveCancel \<Rightarrow> ''ReceiveCancel'')"

definition show_invalid_transition :: "relationship_state \<times> relationship_event \<Rightarrow> string" where
  "show_invalid_transition x =
     ''invalid transition: '' @ show_relationship_event (snd x) @ '' in state '' @ show_relationship_state (fst x)"

section \<open>VIDs\<close>

record resolved_vid =
  rv_id :: string
  rv_signing_key :: "byte list"
  rv_encryption_key :: "byte list"
  rv_endpoints :: "string list"

record private_vid =
  pv_id :: string
  pv_signing_key :: "byte list"
  pv_decryption_key :: "byte list"
  pv_verifying_key :: "byte list"
  pv_encryption_key :: "byte list"
  pv_endpoints :: "string list"

definition private_vid_from_keys :: "primitives \<Rightarrow> string \<Rightarrow> byte list \<Rightarrow> byte list \<Rightarrow> private_vid" where
  \<comment> \<open>\<open>from_keys\<close>; \<open>generate\<close> is this function on two random secrets\<close>
  "private_vid_from_keys c vid signing_key decryption_key =
     \<lparr>pv_id = vid, pv_signing_key = signing_key, pv_decryption_key = decryption_key,
      pv_verifying_key = public_key_from_private c signing_key, pv_encryption_key = x25519_public c decryption_key, pv_endpoints = []\<rparr>"

definition with_endpoints :: "private_vid \<Rightarrow> string list \<Rightarrow> private_vid" where
  "with_endpoints v endpoints = v\<lparr>pv_endpoints := endpoints\<rparr>"

definition to_resolved :: "private_vid \<Rightarrow> resolved_vid" where
  "to_resolved v = \<lparr>rv_id = pv_id v, rv_signing_key = pv_verifying_key v, rv_encryption_key = pv_encryption_key v,
     rv_endpoints = pv_endpoints v\<rparr>"

definition is_did :: "string \<Rightarrow> bool" where
  "is_did vid \<longleftrightarrow> take 4 vid = ''did:''"

definition validate_vid :: "string \<Rightarrow> tsp_error + unit" where
  "validate_vid vid = (if vid = [] then Inl (TspVid ''VID cannot be empty'') else Inr ())"

section \<open>Store\<close>

record tsp_store =
  private_vids :: "(string, private_vid) hash_map"
  remote_vids :: "string \<rightharpoonup> resolved_vid"
  relationships :: "(string, relationship_state) hash_map"

definition tsp_store_new :: tsp_store where
  "tsp_store_new = \<lparr>private_vids = [], remote_vids = Map.empty, relationships = []\<rparr>"

definition relationship_key :: "string \<Rightarrow> string \<Rightarrow> string" where
  "relationship_key our_vid their_vid = our_vid @ [CHR 0x00] @ their_vid"

definition their_vid_from_key :: "string \<Rightarrow> string" where
  "their_vid_from_key key = (case split_once (CHR 0x00) key of None \<Rightarrow> key | Some (_, their) \<Rightarrow> their)"

definition key_belongs_to :: "string \<Rightarrow> string \<Rightarrow> bool" where
  "key_belongs_to key our_vid \<longleftrightarrow>
     take (length our_vid) key = our_vid \<and> length our_vid < length key \<and> key ! length our_vid = CHR 0x00"

definition store_add_private_vid :: "private_vid \<Rightarrow> tsp_store \<Rightarrow> tsp_store" where
  "store_add_private_vid v s =
     s\<lparr>remote_vids := (remote_vids s)(pv_id v \<mapsto> to_resolved v), private_vids := AList.update (pv_id v) v (private_vids s)\<rparr>"

definition get_private_vid :: "tsp_store \<Rightarrow> string \<Rightarrow> tsp_error + private_vid" where
  "get_private_vid s vid = ok_or (TspNoSigningKey vid) (map_of (private_vids s) vid)"

definition list_private_vids :: "tsp_store \<Rightarrow> string list" where
  "list_private_vids s = map fst (private_vids s)"

definition add_remote_vid :: "resolved_vid \<Rightarrow> tsp_store \<Rightarrow> tsp_store" where
  "add_remote_vid v s = s\<lparr>remote_vids := (remote_vids s)(rv_id v \<mapsto> v)\<rparr>"

definition get_remote_vid :: "tsp_store \<Rightarrow> string \<Rightarrow> tsp_error + resolved_vid" where
  "get_remote_vid s vid = ok_or (TspVidNotFound vid) (remote_vids s vid)"

definition relationship_of :: "tsp_store \<Rightarrow> string \<Rightarrow> string \<Rightarrow> relationship_state" where
  "relationship_of s our_vid their_vid =
     (case map_of (relationships s) (relationship_key our_vid their_vid) of None \<Rightarrow> RelNone | Some r \<Rightarrow> r)"

definition transition_relationship ::
  "string \<Rightarrow> string \<Rightarrow> relationship_event \<Rightarrow> tsp_store \<Rightarrow> (tsp_error + relationship_state) \<times> tsp_store" where
  "transition_relationship our_vid their_vid event s =
     (let key = relationship_key our_vid their_vid;
          current = (case map_of (relationships s) key of None \<Rightarrow> RelNone | Some r \<Rightarrow> r)
      in case transition current event of
           Inl e \<Rightarrow> (Inl (TspRelationship (our_vid @ '' '' @ [CHR 0xE2, CHR 0x86, CHR 0x92] @ '' '' @ their_vid @ '' via '' @
             show_relationship_event event @ '': '' @ show_invalid_transition e)), s)
         | Inr new_state \<Rightarrow>
             (Inr new_state,
              s\<lparr>relationships := if new_state = RelNone then AList.delete key (relationships s)
                                else AList.update key new_state (relationships s)\<rparr>))"

definition list_relationships :: "tsp_store \<Rightarrow> string \<Rightarrow> (string \<times> relationship_state) list" where
  "list_relationships s our_vid =
     map (\<lambda>(k, v). (their_vid_from_key k, v)) (filter (\<lambda>(k, _). key_belongs_to k our_vid) (relationships s))"

section \<open>Agent\<close>

record tsp_agent =
  ag_store :: tsp_store
  ag_memory :: "string \<rightharpoonup> resolved_vid" \<comment> \<open>\<open>DelegatingVidResolver::memory\<close>\<close>
  ag_did_resolver :: "(string \<Rightarrow> tsp_error + resolved_vid) option"

definition agent_new :: tsp_agent where
  "agent_new = \<lparr>ag_store = tsp_store_new, ag_memory = Map.empty, ag_did_resolver = None\<rparr>"

definition agent_with_did_resolver :: "(string \<Rightarrow> tsp_error + resolved_vid) \<Rightarrow> tsp_agent" where
  "agent_with_did_resolver r = \<lparr>ag_store = tsp_store_new, ag_memory = Map.empty, ag_did_resolver = Some r\<rparr>"

definition memory_resolve :: "(string \<rightharpoonup> resolved_vid) \<Rightarrow> string \<Rightarrow> tsp_error + resolved_vid" where
  "memory_resolve vids vid = ok_or (TspVidNotFound vid) (vids vid)"

definition resolve :: "tsp_agent \<Rightarrow> string \<Rightarrow> tsp_error + resolved_vid" where
  "resolve ag vid =
     (case memory_resolve (ag_memory ag) vid of
        Inr resolved \<Rightarrow> Inr resolved
      | Inl _ \<Rightarrow>
          (case ag_did_resolver ag of
             Some did_resolver \<Rightarrow> if is_did vid then did_resolver vid else Inl (TspVidNotFound vid)
           | None \<Rightarrow> Inl (TspVidNotFound vid)))"

definition add_private_vid :: "private_vid \<Rightarrow> tsp_agent \<Rightarrow> tsp_agent" where
  "add_private_vid v ag =
     ag\<lparr>ag_memory := (ag_memory ag)(pv_id v \<mapsto> to_resolved v), ag_store := store_add_private_vid v (ag_store ag)\<rparr>"

definition add_verified_vid :: "resolved_vid \<Rightarrow> tsp_agent \<Rightarrow> tsp_agent" where
  "add_verified_vid v ag =
     ag\<lparr>ag_memory := (ag_memory ag)(rv_id v \<mapsto> v), ag_store := add_remote_vid v (ag_store ag)\<rparr>"

definition agent_transition :: "string \<Rightarrow> string \<Rightarrow> relationship_event \<Rightarrow> tsp_agent \<Rightarrow> (tsp_error + relationship_state) \<times> tsp_agent" where
  \<comment> \<open>\<open>self.store.transition_relationship(..)\<close>\<close>
  "agent_transition our_vid their_vid event ag =
     (case transition_relationship our_vid their_vid event (ag_store ag) of (r, s) \<Rightarrow> (r, ag\<lparr>ag_store := s\<rparr>))"

definition agent_pack :: "primitives \<Rightarrow> byte list \<Rightarrow> string \<Rightarrow> string \<Rightarrow> byte list \<Rightarrow> tsp_message_type \<Rightarrow> tsp_agent \<Rightarrow> tsp_error + byte list" where
  \<comment> \<open>\<open>pack_message\<close>\<close>
  "agent_pack c sk_e our_vid their_vid body msg_type ag =
     and_then (get_private_vid (ag_store ag) our_vid) (\<lambda>our_private.
     and_then (resolve ag their_vid) (\<lambda>their_resolved.
     pack c sk_e body msg_type our_vid their_vid (pv_signing_key our_private) (pv_decryption_key our_private)
       (rv_encryption_key their_resolved)))"

definition pack_control :: "primitives \<Rightarrow> byte list \<Rightarrow> string \<Rightarrow> string \<Rightarrow> control_message \<Rightarrow> tsp_agent \<Rightarrow> tsp_error + byte list" where
  "pack_control c sk_e our_vid their_vid control ag = agent_pack c sk_e our_vid their_vid (control_encode control) TspControl ag"

definition send_control ::
  "primitives \<Rightarrow> byte list \<Rightarrow> control_message \<Rightarrow> relationship_event \<Rightarrow> string \<Rightarrow> string \<Rightarrow> tsp_agent \<Rightarrow> (tsp_error + byte list) \<times> tsp_agent" where
  \<comment> \<open>the common body of the three operations that follow\<close>
  "send_control c sk_e control event our_vid their_vid ag =
     (case pack_control c sk_e our_vid their_vid control ag of
        Inl e \<Rightarrow> (Inl e, ag)
      | Inr packed \<Rightarrow>
          (case agent_transition our_vid their_vid event ag of
             (Inl e, ag') \<Rightarrow> (Inl e, ag')
           | (Inr _, ag') \<Rightarrow> (Inr packed, ag')))"

definition send_relationship_invite ::
  "primitives \<Rightarrow> byte list \<Rightarrow> byte list \<Rightarrow> string \<Rightarrow> string \<Rightarrow> tsp_agent \<Rightarrow> (tsp_error + byte list) \<times> tsp_agent" where
  "send_relationship_invite c sk_e nonce our_vid their_vid ag = send_control c sk_e (control_invite nonce) SendInvite our_vid their_vid ag"

definition send_relationship_accept ::
  "primitives \<Rightarrow> byte list \<Rightarrow> byte list \<Rightarrow> string \<Rightarrow> string \<Rightarrow> byte list \<Rightarrow> tsp_agent \<Rightarrow> (tsp_error + byte list) \<times> tsp_agent" where
  "send_relationship_accept c sk_e nonce our_vid their_vid invite_digest ag =
     send_control c sk_e (control_accept nonce invite_digest) SendAccept our_vid their_vid ag"

definition send_relationship_cancel ::
  "primitives \<Rightarrow> byte list \<Rightarrow> string \<Rightarrow> string \<Rightarrow> tsp_agent \<Rightarrow> (tsp_error + byte list) \<times> tsp_agent" where
  "send_relationship_cancel c sk_e our_vid their_vid ag = send_control c sk_e control_cancel SendCancel our_vid their_vid ag"

definition agent_send :: "primitives \<Rightarrow> byte list \<Rightarrow> string \<Rightarrow> string \<Rightarrow> byte list \<Rightarrow> tsp_agent \<Rightarrow> tsp_error + byte list" where
  \<comment> \<open>\<open>send\<close>\<close>
  "agent_send c sk_e our_vid their_vid body ag =
     (let state = relationship_of (ag_store ag) our_vid their_vid
      in if \<not> can_send state
         then Inl (TspRelationship (''cannot send: relationship with '' @ their_vid @ '' is '' @ show_relationship_state state @
                '', not Bidirectional''))
         else agent_pack c sk_e our_vid their_vid body TspDirect ag)"

definition create_vid :: "primitives \<Rightarrow> byte list \<Rightarrow> byte list \<Rightarrow> string \<Rightarrow> tsp_agent \<Rightarrow> resolved_vid \<times> tsp_agent" where
  \<comment> \<open>the two secrets drawn by \<open>PrivateVid::generate\<close>\<close>
  "create_vid c ed_sk x_sk vid ag =
     (let v = private_vid_from_keys c vid ed_sk x_sk in (to_resolved v, add_private_vid v ag))"

record received_message =
  rm_payload :: "byte list"
  rm_sender :: string
  rm_receiver :: string
  rm_message_type :: tsp_message_type
  rm_control :: "control_message option"

definition handle_control :: "string \<Rightarrow> string \<Rightarrow> control_message \<Rightarrow> tsp_agent \<Rightarrow> (tsp_error + unit) \<times> tsp_agent" where
  "handle_control our_vid their_vid control ag =
     (let event = (case cm_control_type control of
            RelationshipFormingInvite \<Rightarrow> ReceiveInvite
          | RelationshipFormingAccept \<Rightarrow> ReceiveAccept
          | RelationshipCancel \<Rightarrow> ReceiveCancel)
      in case agent_transition our_vid their_vid event ag of
           (Inl e, ag') \<Rightarrow> (Inl e, ag')
         | (Inr _, ag') \<Rightarrow> (Inr (), ag'))"

definition open_layer :: "primitives \<Rightarrow> string \<Rightarrow> string \<Rightarrow> byte list \<Rightarrow> tsp_agent \<Rightarrow> tsp_error + unpacked_message" where
  \<comment> \<open>the common first part of \<open>receive\<close> and \<open>forward_routed\<close>; \<open>what\<close>: the first words of the error\<close>
  "open_layer c what our_vid wire ag =
     and_then (envelope_decode wire) (\<lambda>(envelope, _).
     if ev_receiver envelope \<noteq> our_vid
     then Inl (TspInvalidMessage (what @ '' addressed to '' @ ev_receiver envelope @ '', not '' @ our_vid))
     else
       and_then (get_private_vid (ag_store ag) our_vid) (\<lambda>our_private.
       and_then (resolve ag (ev_sender envelope)) (\<lambda>sender_resolved.
       unpack c wire (pv_decryption_key our_private) (rv_encryption_key sender_resolved) (rv_signing_key sender_resolved))))"

definition receive :: "primitives \<Rightarrow> string \<Rightarrow> byte list \<Rightarrow> tsp_agent \<Rightarrow> (tsp_error + received_message) \<times> tsp_agent" where
  "receive c our_vid wire ag =
     (case open_layer c ''message'' our_vid wire ag of
        Inl e \<Rightarrow> (Inl e, ag)
      | Inr unpacked \<Rightarrow>
          let received = (\<lambda>control. \<lparr>rm_payload = um_payload unpacked, rm_sender = um_sender unpacked, rm_receiver = um_receiver unpacked,
                rm_message_type = um_message_type unpacked, rm_control = control\<rparr>)
          in if um_message_type unpacked = TspControl
             then (case control_decode (um_payload unpacked) of
                     Inl e \<Rightarrow> (Inl e, ag)
                   | Inr control \<Rightarrow>
                       (case handle_control our_vid (um_sender unpacked) control ag of
                          (Inl e, ag') \<Rightarrow> (Inl e, ag')
                        | (Inr _, ag') \<Rightarrow> (Inr (received (Some control)), ag')))
             else (Inr (received None), ag))"

definition send_routed ::
  "primitives \<Rightarrow> byte list \<Rightarrow> byte list \<Rightarrow> string \<Rightarrow> string \<Rightarrow> string list \<Rightarrow> byte list \<Rightarrow> tsp_agent \<Rightarrow> tsp_error + byte list" where
  \<comment> \<open>\<open>sk_e\<close> and \<open>sk_e'\<close>: the ephemeral secrets of the inner message and of the routing layer\<close>
  "send_routed c sk_e sk_e' our_vid final_vid intermediaries body ag =
     and_then (agent_pack c sk_e our_vid final_vid body TspDirect ag) (\<lambda>inner.
     case intermediaries of
       [] \<Rightarrow> Inr inner
     | first_hop # rest \<Rightarrow>
         and_then (get_private_vid (ag_store ag) our_vid) (\<lambda>our_private.
         and_then (resolve ag first_hop) (\<lambda>first_resolved.
         pack_routed c sk_e' inner (rest @ [final_vid]) our_vid first_hop (pv_signing_key our_private) (pv_decryption_key our_private)
           (rv_encryption_key first_resolved))))"

definition send_nested ::
  "primitives \<Rightarrow> byte list \<Rightarrow> string \<Rightarrow> string \<Rightarrow> byte list \<Rightarrow> tsp_agent \<Rightarrow> tsp_error + byte list" where
  "send_nested c sk_e our_vid intermediary_vid inner ag =
     and_then (get_private_vid (ag_store ag) our_vid) (\<lambda>our_private.
     and_then (resolve ag intermediary_vid) (\<lambda>intermediary.
     pack_nested c sk_e inner our_vid intermediary_vid (pv_signing_key our_private) (pv_decryption_key our_private)
       (rv_encryption_key intermediary)))"

datatype forward_outcome = Relay string "byte list" | Deliver string "byte list"

definition show_message_type :: "tsp_message_type \<Rightarrow> string" where
  "show_message_type t = (case t of TspDirect \<Rightarrow> ''Direct'' | TspNested \<Rightarrow> ''Nested'' | TspRouted \<Rightarrow> ''Routed'' | TspControl \<Rightarrow> ''Control'')"

definition forward_routed :: "primitives \<Rightarrow> byte list \<Rightarrow> string \<Rightarrow> byte list \<Rightarrow> tsp_agent \<Rightarrow> tsp_error + forward_outcome" where
  "forward_routed c sk_e our_vid wire ag =
     and_then (open_layer c ''routed message'' our_vid wire ag) (\<lambda>unpacked.
     if um_message_type unpacked \<noteq> TspRouted
     then Inl (TspInvalidMessage (''expected a Routed message, got '' @ show_message_type (um_message_type unpacked)))
     else
       and_then (get_private_vid (ag_store ag) our_vid) (\<lambda>our_private.
       and_then (next_hop unpacked) (\<lambda>step. case step of
         RouteForward next_vid remaining inner \<Rightarrow>
           if remaining = [] then Inr (Deliver next_vid inner)
           else
             and_then (resolve ag next_vid) (\<lambda>next_resolved.
             and_then (pack_routed c sk_e inner remaining our_vid next_vid (pv_signing_key our_private) (pv_decryption_key our_private)
               (rv_encryption_key next_resolved)) (\<lambda>relayed.
             Inr (Relay next_vid relayed)))
       | RouteDeliver inner \<Rightarrow> Inr (Deliver our_vid inner))))"

end
