(* ===== verification/TspProperties.thy ===== *)
theory TspProperties
  imports TspAgent
begin

text \<open>
  Properties of the Trust Spanning Protocol stack: packed messages, control messages, relationships between
  agents and routed delivery. The cryptographic primitives enter through \<open>primitives_ok\<close>; \<open>sample_primitives\<close> shows that it can hold.
\<close>

section \<open>Sample primitives\<close>

definition sample_primitives :: primitives where
  \<comment> \<open>insecure functions with the documented laws\<close>
  "sample_primitives =
     \<lparr>x25519_public = (\<lambda>a. a), diffie_hellman = (\<lambda>a b. replicate 32 (sum_list a + sum_list b)), hkdf_extract = (\<lambda>salt ikm. take 32 (ikm @ replicate 32 0)),
      hkdf_from_prk = Inr, hkdf_expand = (\<lambda>prk info n. Inr (replicate n 0)), chacha_new = Inr,
      chacha_encrypt = (\<lambda>key nonce aad p. Inr (p @ replicate 16 0)),
      chacha_decrypt = (\<lambda>key nonce aad ct. Some (take (length ct - 16) ct)),
      ed25519_public = (\<lambda>a. a), ed25519_sign = (\<lambda>a data. replicate 64 0), ed25519_from_bytes = Inr,
      ed25519_verify = (\<lambda>key data sig. if sig = replicate 64 0 then Inr () else Inl ''bad signature''),
      sha256_bytes = (\<lambda>b. take 32 (b @ replicate 32 0)), blake2s_bytes = (\<lambda>b. take 32 (b @ replicate 32 0))\<rparr>"

lemma sample_primitives_ok: "primitives_ok sample_primitives"
  by (auto simp: primitives_ok_def sample_primitives_def add.commute min_def)

section \<open>Packed messages\<close>

text \<open>Count codes of the TSP framing: the position after a count is always found again, and a count below
  4096 is read back exactly; a larger one (below \<open>2 ^ 30\<close>) is read back exactly only for identifiers that are a
  multiple of four, because the decoder shifts the low bits of the identifier into the value.\<close>
theorem tsp_count_round_trip:
  assumes "bits (ucast i) 6 \<noteq> D0" "c < 2 ^ 30"
  shows "\<exists>v. decode_count i (xs @ encode_count i c @ zs) (length xs) = Some (v, length xs + length (encode_count i c)) \<and>
    (v = c \<longleftrightarrow> c < 4096 \<or> \<not> bit i 0 \<and> \<not> bit i 1)"
proof (cases "c < 4096")
  case True
  then show ?thesis using short_count_at [OF True, of i xs zs] by (simp add: encode_count_def)
next
  case False
  then show ?thesis using long_count_at [OF False assms(1), of xs zs] long_count_value [OF assms(2), of "ucast i"]
    by (simp add: encode_count_def bit_simps)
qed

theorem tsp_count_round_trip_witness:
  "(\<exists>v. decode_count TSP_PAYLOAD ([7] @ encode_count TSP_PAYLOAD 5000 @ []) (length [7 :: byte]) =
      Some (v, length [7 :: byte] + length (encode_count TSP_PAYLOAD 5000)) \<and> (v = 5000 \<longleftrightarrow> (5000 :: u32) < 4096 \<or> \<not> bit TSP_PAYLOAD 0 \<and> \<not> bit TSP_PAYLOAD 1)) \<and>
   bit TSP_PAYLOAD 0"
proof
  show "bit TSP_PAYLOAD 0" by code_simp
qed (rule tsp_count_round_trip [OF code_not_D0(2)], simp)

text \<open>C4. Packing and unpacking agree: for every kind of message, when the VIDs are strings, the route has at most
  \<open>MAX_HOPS\<close> hops and the sealed frame fits a field, packing succeeds, the sender and the receiver can be read
  without keys, and the receiver gets back the body, the sender, the receiver, the kind and the route. Two
  things are not kept: a routed message with an empty route arrives as a nested one, and hops given to another kind are dropped. The message
  starts with the TSP byte exactly when its envelope is at most 12288 bytes long.\<close>
theorem tsp_pack_unpack:
  assumes "primitives_ok c" "packable body kind hops sender receiver"
    and "length sk_e = 32" "length sign_sk = 32" "length enc_sk = 32" "length recv_sk = 32"
  shows "\<exists>w n. pack_with_hops c sk_e body kind hops sender receiver sign_sk enc_sk (x25519_public c recv_sk) = Inr w \<and>
    envelope_decode w = Inr (envelope_new TspDirect sender receiver, n) \<and> (is_tsp w \<longleftrightarrow> n \<le> 12288) \<and>
    meta_parse c w = Inr \<lparr>te_sender = sender, te_receiver = receiver, te_message_type = TspDirect, te_sha256 = sha256_bytes c w\<rparr> \<and>
    unpack c w recv_sk (x25519_public c enc_sk) (public_key_from_private c sign_sk) =
      Inr \<lparr>um_payload = body, um_hops = (if kind = TspRouted then hops else []), um_sender = sender, um_receiver = receiver,
           um_message_type = (if kind = TspRouted \<and> hops = [] then TspNested else kind)\<rparr>"
proof -
  obtain w n where w: "pack_with_hops c sk_e body kind hops sender receiver sign_sk enc_sk (x25519_public c recv_sk) = Inr w"
    "envelope_decode w = Inr (envelope_new TspDirect sender receiver, n)" "is_tsp w \<longleftrightarrow> n \<le> 12288" "n \<le> length sender + length receiver + 31"
    "length w \<le> n + length (encode_payload_frame body kind hops) + 128"
    "unpack c w recv_sk (x25519_public c enc_sk) (public_key_from_private c sign_sk) =
       Inr \<lparr>um_payload = body, um_hops = snd (carried_kind kind hops), um_sender = sender, um_receiver = receiver,
            um_message_type = fst (carried_kind kind hops)\<rparr>"
    by (rule pack_unpack [OF assms]) blast
  have k: "snd (carried_kind kind hops) = (if kind = TspRouted then hops else [])"
    "fst (carried_kind kind hops) = (if kind = TspRouted \<and> hops = [] then TspNested else kind)"
    by (simp_all add: carried_kind_def)
  have "meta_parse c w = Inr \<lparr>te_sender = sender, te_receiver = receiver, te_message_type = TspDirect, te_sha256 = sha256_bytes c w\<rparr>"
    using w(2) by (simp add: meta_parse_def envelope_new_def)
  then show ?thesis using w k by (intro exI [of _ w] exI [of _ n]) simp
qed

theorem tsp_pack_unpack_witness:
  "\<exists>w n. pack_with_hops sample_primitives (replicate 32 1) [1, 2, 3] TspRouted [''h''] ''a'' ''b'' (replicate 32 2) (replicate 32 3)
       (x25519_public sample_primitives (replicate 32 4)) = Inr w \<and>
    envelope_decode w = Inr (envelope_new TspDirect ''a'' ''b'', n) \<and> (is_tsp w \<longleftrightarrow> n \<le> 12288) \<and>
    meta_parse sample_primitives w = Inr \<lparr>te_sender = ''a'', te_receiver = ''b'', te_message_type = TspDirect, te_sha256 = sha256_bytes sample_primitives w\<rparr> \<and>
    unpack sample_primitives w (replicate 32 4) (x25519_public sample_primitives (replicate 32 3)) (public_key_from_private sample_primitives (replicate 32 2)) =
      Inr \<lparr>um_payload = [1, 2, 3], um_hops = (if TspRouted = TspRouted then [''h''] else []), um_sender = ''a'', um_receiver = ''b'',
           um_message_type = (if TspRouted = TspRouted \<and> [''h''] = [] then TspNested else TspRouted)\<rparr>"
proof (rule tsp_pack_unpack [OF sample_primitives_ok])
  have "utf8_valid (bytes_of ''h'')" "utf8_valid (bytes_of ''a'')" "utf8_valid (bytes_of ''b'')" by code_simp+
  then show "packable [1, 2, 3] TspRouted [''h''] ''a'' ''b''"
    by (intro packable_small) (simp_all add: vid_ok_def MAX_HOPS_def)
qed simp_all

text \<open>C7. What an accepted message proves: if unpacking succeeds, the bytes are a signed part followed by exactly the frame of
  a 64-byte signature of it that verifies under the key given for the sender; the sender and the receiver that are
  reported are those of the signed envelope; and the kind, the route and the body come from a frame that
  opens with the receiver's secret and the sender's public key, bound to that envelope.\<close>
theorem tsp_unpack_sound:
  assumes "unpack c w recv_sk sender_pk sender_vk = Inr m"
  shows "\<exists>e n h ct enc frame signed sig. w = signed @ encode_signature_frame sig \<and> length sig = 64 \<and> verify c signed sig sender_vk = Inr () \<and>
    envelope_decode w = Inr (e, n) \<and> n \<le> length signed \<and> um_sender m = ev_sender e \<and> um_receiver m = ev_receiver e \<and>
    signed = h @ ct @ enc \<and> length enc = 32 \<and> hpke_open c ct [] enc recv_sk sender_pk (take n signed) = Inr frame \<and>
    decode_payload_frame frame = Inr (um_message_type m, um_hops m, um_payload m)"
proof -
  obtain e n ct enc sig frame signed where "envelope_decode w = Inr (e, n)" "ev_sender e = um_sender m" "ev_receiver e = um_receiver m"
    "w = signed @ encode_signature_frame sig" "length sig = SIG_LEN" "verify c signed sig sender_vk = Inr ()"
    "n \<le> length signed" "\<exists>h. signed = h @ ct @ enc" "length enc = ENC_LEN" "TAG_LEN \<le> length ct"
    "hpke_open c ct [] enc recv_sk sender_pk (take n signed) = Inr frame"
    "decode_payload_frame frame = Inr (um_message_type m, um_hops m, um_payload m)"
    by (rule unpack_accepted [OF assms]) iprover
  then show ?thesis unfolding SIG_LEN_def ENC_LEN_def by (elim exE) (intro exI conjI; (assumption | erule sym))
qed

theorem tsp_unpack_sound_witness:
  "\<exists>w (m :: unpacked_message) e n h ct enc frame signed sig. w = signed @ encode_signature_frame sig \<and> length sig = 64 \<and>
    verify sample_primitives signed sig (replicate 32 2) = Inr () \<and>
    envelope_decode w = Inr (e, n) \<and> n \<le> length signed \<and> um_sender m = ev_sender e \<and> um_receiver m = ev_receiver e \<and>
    signed = h @ ct @ enc \<and> length enc = 32 \<and> hpke_open sample_primitives ct [] enc (replicate 32 4) (replicate 32 3) (take n signed) = Inr frame \<and>
    decode_payload_frame frame = Inr (um_message_type m, um_hops m, um_payload m)"
proof -
  have v: "packable [1, 2, 3] TspDirect [] ''a'' ''b''"
  proof -
    have "utf8_valid (bytes_of ''a'')" "utf8_valid (bytes_of ''b'')" by code_simp+
    then show ?thesis by (intro packable_small) (simp_all add: vid_ok_def)
  qed
  have k: "x25519_public sample_primitives (replicate 32 3) = replicate 32 3" "public_key_from_private sample_primitives (replicate 32 2) = replicate 32 2"
    by (simp_all add: sample_primitives_def public_key_from_private_def)
  obtain w m where u: "unpack sample_primitives w (replicate 32 4) (replicate 32 3) (replicate 32 2) = Inr m"
    by (rule pack_unpack [OF sample_primitives_ok v length_replicate length_replicate length_replicate length_replicate,
          of 1 2 3 4, unfolded k]) iprover
  show ?thesis by (rule exI [where x = w], rule exI [where x = m], rule tsp_unpack_sound [OF u])
qed

section \<open>Control messages\<close>

lemma u16_be_value: "from_be_u16 (ucast (drop_bit 8 (of_nat n :: 16 word))) (ucast (of_nat n :: 16 word)) = n mod 65536"
proof -
  let ?w = "of_nat n :: 16 word"
  have "unat (ucast (drop_bit 8 ?w) :: byte) = unat ?w div 256" "unat (ucast ?w :: byte) = unat ?w mod 256"
    using unsigned_less [where 'a = nat, of ?w] by (simp_all add: unsigned_ucast_eq unsigned_drop_bit_eq take_bit_eq_mod drop_bit_eq_div unat_div less_mult_imp_div_less)
  then show ?thesis by (simp add: from_be_u16_def unat_of_nat)
qed

lemma control_round_trip:
  assumes "\<forall>n. cm_nonce m = Some n \<longrightarrow> length n = 16"
  shows "control_decode (control_encode m) = Inr m \<longleftrightarrow> (\<forall>d. cm_thread_id m = Some d \<longrightarrow> length d < 65536)"
proof -
  have t: "control_type_from_byte (control_type_byte (cm_control_type m)) = Inr (cm_control_type m)"
    by (cases "cm_control_type m") (simp_all add: control_type_byte_def control_type_from_byte_def)
  define tail where "tail = (case cm_nonce m of Some nonce \<Rightarrow> 1 # nonce | None \<Rightarrow> [0])"
  have n: "decode_nonce (xs @ tail) (length xs) = Inr (cm_nonce m)" for xs
    using assms by (cases "cm_nonce m") (simp_all add: decode_nonce_def tail_def)
  show ?thesis
  proof (cases "cm_thread_id m")
    case None
    let ?e = "[control_type_byte (cm_control_type m), 0] :: byte list"
    have "control_encode m = ?e @ tail" using None by (simp add: control_encode_def tail_def)
    moreover have "decode_thread_id (?e @ tail) = Inr (None, length ?e)" by (simp add: decode_thread_id_def)
    ultimately show ?thesis using t n [of ?e] None by (simp add: control_decode_def del: append_Cons) simp
  next
    case (Some d)
    let ?e = "control_type_byte (cm_control_type m) # 1 # u16_be (of_nat (length d)) @ d"
    have e: "control_encode m = ?e @ tail" using Some by (simp add: control_encode_def tail_def)
    have th: "decode_thread_id (?e @ tail) = Inr (Some (take (length d mod 65536) (d @ tail)), 4 + length d mod 65536)"
      by (simp add: decode_thread_id_def u16_be_def u16_be_value Let_def)
    show ?thesis
    proof (cases "length d < 65536")
      case True
      have "length ?e = 4 + length d" by (simp add: u16_be_def)
      with True have "control_decode (?e @ tail) = Inr m"
        using t th n [of ?e] Some by (simp add: control_decode_def del: append_Cons length_append list.size) simp
      then show ?thesis using True Some e by simp
    next
      case False
      have "length (take (length d mod 65536) (d @ tail)) \<le> length d mod 65536" by simp
      also have "\<dots> < 65536" by simp
      finally have "length (take (length d mod 65536) (d @ tail)) < 65536" .
      with False have "take (length d mod 65536) (d @ tail) \<noteq> d" by metis
      then have "control_decode (?e @ tail) \<noteq> Inr m" using t th Some
        by (cases m) (auto simp: control_decode_def and_then_Inr)
      then show ?thesis using False Some e by auto
    qed
  qed
qed

text \<open>A control message whose nonce, if any, has 16 bytes is read back from its encoding, unless its digest has 65536 bytes or more:
  the length is sent in 16 bits, and such a message is never read back.\<close>
theorem tsp_control_round_trip:
  assumes "\<forall>n. cm_nonce m = Some n \<longrightarrow> length n = 16"
  shows "control_decode (control_encode m) = Inr m \<longleftrightarrow> (\<forall>d. cm_thread_id m = Some d \<longrightarrow> length d < 65536)"
  using assms by (rule control_round_trip)

theorem tsp_control_round_trip_witness:
  "control_decode (control_encode (control_accept (replicate 16 7) [1, 2])) = Inr (control_accept (replicate 16 7) [1, 2])"
  using tsp_control_round_trip [of "control_accept (replicate 16 7) [1, 2]"] by (simp add: control_accept_def)

section \<open>Two agents\<close>

definition party :: "primitives \<Rightarrow> private_vid \<Rightarrow> bool" where
  "party c v \<longleftrightarrow> vid_ok (pv_id v) \<and> length (pv_id v) \<le> 4096 \<and> length (pv_signing_key v) = 32 \<and> length (pv_decryption_key v) = 32 \<and>
     pv_verifying_key v = public_key_from_private c (pv_signing_key v) \<and> pv_encryption_key v = x25519_public c (pv_decryption_key v)"

definition knows :: "tsp_agent \<Rightarrow> private_vid \<Rightarrow> bool" where
  "knows ag v \<longleftrightarrow> (\<exists>r. resolve ag (pv_id v) = Inr r \<and> rv_signing_key r = pv_verifying_key v \<and> rv_encryption_key r = pv_encryption_key v)"

definition endpoint_of :: "tsp_agent \<Rightarrow> private_vid \<Rightarrow> private_vid \<Rightarrow> bool" where
  \<comment> \<open>the agent acts for the first VID and resolves the second to its public keys\<close>
  "endpoint_of ag us them \<longleftrightarrow> get_private_vid (ag_store ag) (pv_id us) = Inr us \<and> knows ag them"

definition rel :: "tsp_agent \<Rightarrow> private_vid \<Rightarrow> private_vid \<Rightarrow> relationship_state" where
  "rel ag us them = relationship_of (ag_store ag) (pv_id us) (pv_id them)"

definition set_rel :: "private_vid \<Rightarrow> private_vid \<Rightarrow> relationship_state \<Rightarrow> tsp_agent \<Rightarrow> tsp_agent" where
  "set_rel us them st ag = ag\<lparr>ag_store := (ag_store ag)\<lparr>relationships :=
     (let key = relationship_key (pv_id us) (pv_id them) in
      if st = RelNone then AList.delete key (relationships (ag_store ag)) else AList.update key st (relationships (ag_store ag)))\<rparr>\<rparr>"

lemma resolve_store [simp]: "resolve (ag\<lparr>ag_store := s\<rparr>) v = resolve ag v"
  by (simp add: resolve_def split: sum.split option.split)

lemma set_rel_simps [simp]:
  "rel (set_rel us them st ag) us them = st" "endpoint_of (set_rel us them st ag) a b = endpoint_of ag a b"
  by (auto simp: rel_def set_rel_def relationship_of_def Let_def delete_conv' update_conv' endpoint_of_def knows_def
      get_private_vid_def)

lemma agent_transition_result:
  "agent_transition (pv_id us) (pv_id them) event ag =
     (case transition (rel ag us them) event of
        Inr st \<Rightarrow> (Inr st, set_rel us them st ag)
      | Inl e \<Rightarrow> (Inl (TspRelationship (pv_id us @ '' '' @ [CHR 0xE2, CHR 0x86, CHR 0x92] @ '' '' @ pv_id them @ '' via '' @
             show_relationship_event event @ '': '' @ show_invalid_transition e)), ag))"
  by (simp add: agent_transition_def transition_relationship_def rel_def relationship_of_def set_rel_def Let_def split: sum.split)

lemma delivered:
  assumes "primitives_ok c" "party c a" "party c b" "endpoint_of A a b" "length sk_e = 32" "length body \<le> 40000000"
  obtains w where "agent_pack c sk_e (pv_id a) (pv_id b) body kind A = Inr w" "length w \<le> length body + length (pv_id a) + length (pv_id b) + 300"
    "\<And>what B. endpoint_of B b a \<Longrightarrow> open_layer c what (pv_id b) w B = Inr \<lparr>um_payload = body, um_hops = [], um_sender = pv_id a, um_receiver = pv_id b,
       um_message_type = if kind = TspRouted then TspNested else kind\<rparr>"
proof -
  have p: "packable body kind [] (pv_id a) (pv_id b)"
    using assms(2,3,6) by (intro packable_small) (simp_all add: party_def)
  have k: "length (pv_signing_key a) = 32" "length (pv_decryption_key a) = 32" "length (pv_decryption_key b) = 32"
    using assms(2,3) by (simp_all add: party_def)
  obtain w n where w: "pack_with_hops c sk_e body kind [] (pv_id a) (pv_id b) (pv_signing_key a) (pv_decryption_key a)
      (x25519_public c (pv_decryption_key b)) = Inr w"
    "envelope_decode w = Inr (envelope_new TspDirect (pv_id a) (pv_id b), n)" "n \<le> length (pv_id a) + length (pv_id b) + 31"
    "length w \<le> n + length (encode_payload_frame body kind []) + 128"
    "unpack c w (pv_decryption_key b) (x25519_public c (pv_decryption_key a)) (public_key_from_private c (pv_signing_key a)) =
       Inr \<lparr>um_payload = body, um_hops = snd (carried_kind kind []), um_sender = pv_id a, um_receiver = pv_id b,
            um_message_type = fst (carried_kind kind [])\<rparr>"
    by (rule pack_unpack [OF assms(1) p assms(5) k]) iprover
  have "agent_pack c sk_e (pv_id a) (pv_id b) body kind A = Inr w"
    using w(1) assms(3,4) by (auto simp: agent_pack_def endpoint_of_def knows_def party_def pack_def)
  moreover have "open_layer c what (pv_id b) w B = Inr \<lparr>um_payload = body, um_hops = [], um_sender = pv_id a, um_receiver = pv_id b,
       um_message_type = if kind = TspRouted then TspNested else kind\<rparr>" if "endpoint_of B b a" for what B
    using w(2,5) assms(2) that by (auto simp: open_layer_def endpoint_of_def knows_def party_def envelope_new_def carried_kind_def)
  moreover have "length w \<le> length body + length (pv_id a) + length (pv_id b) + 300"
    using w(3,4) length_frame [of body kind "[]"] by simp
  ultimately show thesis using that by blast
qed

definition control_ok :: "control_message \<Rightarrow> bool" where
  "control_ok m \<longleftrightarrow> (\<forall>n. cm_nonce m = Some n \<longrightarrow> length n = 16) \<and> (\<forall>d. cm_thread_id m = Some d \<longrightarrow> length d < 65536)"

definition received_event :: "control_message \<Rightarrow> relationship_event" where
  "received_event m = (case cm_control_type m of
     RelationshipFormingInvite \<Rightarrow> ReceiveInvite | RelationshipFormingAccept \<Rightarrow> ReceiveAccept | RelationshipCancel \<Rightarrow> ReceiveCancel)"

definition control_received :: "private_vid \<Rightarrow> private_vid \<Rightarrow> control_message \<Rightarrow> received_message" where
  "control_received a b m = \<lparr>rm_payload = control_encode m, rm_sender = pv_id a, rm_receiver = pv_id b, rm_message_type = TspControl,
     rm_control = Some m\<rparr>"

lemma control_encode_length: "control_ok m \<Longrightarrow> length (control_encode m) \<le> 70000"
  by (force simp: control_ok_def control_encode_def u16_be_def split: option.splits)

lemma control_exchange:
  assumes "primitives_ok c" "party c a" "party c b" "endpoint_of A a b" "length sk_e = 32" "control_ok m"
    and "transition (rel A a b) event = Inr st"
  obtains w where "send_control c sk_e m event (pv_id a) (pv_id b) A = (Inr w, set_rel a b st A)"
    "\<And>B st'. endpoint_of B b a \<Longrightarrow> transition (rel B b a) (received_event m) = Inr st' \<Longrightarrow>
       receive c (pv_id b) w B = (Inr (control_received a b m), set_rel b a st' B)"
    "\<And>B e. endpoint_of B b a \<Longrightarrow> transition (rel B b a) (received_event m) = Inl e \<Longrightarrow>
       \<exists>t. receive c (pv_id b) w B = (Inl (TspRelationship t), B)"
proof -
  have len: "length (control_encode m) \<le> 40000000" using control_encode_length [OF assms(6)] by simp
  obtain w where w: "agent_pack c sk_e (pv_id a) (pv_id b) (control_encode m) TspControl A = Inr w"
    "\<And>what B. endpoint_of B b a \<Longrightarrow> open_layer c what (pv_id b) w B = Inr \<lparr>um_payload = control_encode m, um_hops = [], um_sender = pv_id a,
       um_receiver = pv_id b, um_message_type = if TspControl = TspRouted then TspNested else TspControl\<rparr>"
    by (rule delivered [OF assms(1-5) len, where kind = TspControl]) iprover
  have d: "control_decode (control_encode m) = Inr m"
    using assms(6) by (simp add: control_ok_def control_round_trip)
  have "send_control c sk_e m event (pv_id a) (pv_id b) A = (Inr w, set_rel a b st A)"
    using w(1) assms(7) by (simp add: send_control_def pack_control_def agent_transition_result)
  then show thesis using w(2) d
    by (intro that [of w])
      (simp_all add: receive_def handle_control_def agent_transition_result control_received_def received_event_def Let_def)
qed

text \<open>C10. The handshake: two agents that hold their own keys and resolve each other, with no relationship yet, reach a bidirectional
  relationship on both sides by an invite and an accept, whatever secrets and nonces are drawn, and from then on a message that the inviter sends is
  received by the other with its sender and its body; before that, sending is refused.\<close>
theorem tsp_handshake:
  assumes "primitives_ok c" "party c a" "party c b" "endpoint_of A a b" "endpoint_of B b a"
    and "rel A a b = RelNone" "rel B b a = RelNone"
    and "length n1 = 16" "length n2 = 16" "length k1 = 32" "length k2 = 32" "length k3 = 32" "length body \<le> 40000000"
  shows "\<exists>w1 w2 w3 A1 A2 B1 B2.
    send_relationship_invite c k1 n1 (pv_id a) (pv_id b) A = (Inr w1, A1) \<and>
    receive c (pv_id b) w1 B = (Inr (control_received a b (control_invite n1)), B1) \<and>
    send_relationship_accept c k2 n2 (pv_id b) (pv_id a) (message_digest c w1) B1 = (Inr w2, B2) \<and>
    receive c (pv_id a) w2 A1 = (Inr (control_received b a (control_accept n2 (message_digest c w1))), A2) \<and>
    rel A2 a b = RelBidirectional \<and> rel B2 b a = RelBidirectional \<and>
    agent_send c k3 (pv_id a) (pv_id b) body A2 = Inr w3 \<and>
    receive c (pv_id b) w3 B2 = (Inr \<lparr>rm_payload = body, rm_sender = pv_id a, rm_receiver = pv_id b, rm_message_type = TspDirect,
      rm_control = None\<rparr>, B2) \<and>
    \<not> is_ok (agent_send c k3 (pv_id a) (pv_id b) body A)"
proof -
  have t: "transition (rel A a b) SendInvite = Inr RelPending" using assms(6) by simp
  have o1: "control_ok (control_invite n1)" using assms(8) by (simp add: control_ok_def control_invite_def)
  obtain w1 where w1: "send_control c k1 (control_invite n1) SendInvite (pv_id a) (pv_id b) A = (Inr w1, set_rel a b RelPending A)"
    "\<And>B st'. endpoint_of B b a \<Longrightarrow> transition (rel B b a) (received_event (control_invite n1)) = Inr st' \<Longrightarrow>
       receive c (pv_id b) w1 B = (Inr (control_received a b (control_invite n1)), set_rel b a st' B)"
    by (rule control_exchange [OF assms(1-4,10) o1 t]) iprover
  let ?A1 = "set_rel a b RelPending A" and ?B1 = "set_rel b a RelInviteReceived B"
  have r1: "receive c (pv_id b) w1 B = (Inr (control_received a b (control_invite n1)), ?B1)"
    using w1(2) [OF assms(5), of RelInviteReceived] assms(7) by (simp add: received_event_def control_invite_def)
  let ?m = "control_accept n2 (message_digest c w1)"
  have t2: "transition (rel ?B1 b a) SendAccept = Inr RelBidirectional" and e2: "endpoint_of ?B1 b a" using assms(5) by simp_all
  have o2: "control_ok ?m" using assms(9) primitives_okD(12) [OF assms(1)] by (simp add: control_ok_def control_accept_def message_digest_def)
  obtain w2 where w2: "send_control c k2 ?m SendAccept (pv_id b) (pv_id a) ?B1 = (Inr w2, set_rel b a RelBidirectional ?B1)"
    "\<And>B st'. endpoint_of B a b \<Longrightarrow> transition (rel B a b) (received_event ?m) = Inr st' \<Longrightarrow>
       receive c (pv_id a) w2 B = (Inr (control_received b a ?m), set_rel a b st' B)"
    by (rule control_exchange [OF assms(1,3,2) e2 assms(11) o2 t2]) iprover
  let ?A2 = "set_rel a b RelBidirectional ?A1" and ?B2 = "set_rel b a RelBidirectional ?B1"
  have r2: "receive c (pv_id a) w2 ?A1 = (Inr (control_received b a ?m), ?A2)"
    using w2(2) [of ?A1 RelBidirectional] assms(4) by (simp add: received_event_def control_accept_def)
  have e3: "endpoint_of ?A2 a b" using assms(4) by simp
  obtain w3 where w3: "agent_pack c k3 (pv_id a) (pv_id b) body TspDirect ?A2 = Inr w3"
    "\<And>what B. endpoint_of B b a \<Longrightarrow> open_layer c what (pv_id b) w3 B = Inr \<lparr>um_payload = body, um_hops = [], um_sender = pv_id a,
       um_receiver = pv_id b, um_message_type = if TspDirect = TspRouted then TspNested else TspDirect\<rparr>"
    by (rule delivered [OF assms(1-3) e3 assms(12,13), where kind = TspDirect]) iprover
  have "agent_send c k3 (pv_id a) (pv_id b) body ?A2 = Inr w3"
    using w3(1) set_rel_simps(1) [of a b RelBidirectional ?A1] by (simp add: agent_send_def can_send_def rel_def)
  moreover have "receive c (pv_id b) w3 ?B2 = (Inr \<lparr>rm_payload = body, rm_sender = pv_id a, rm_receiver = pv_id b, rm_message_type = TspDirect,
      rm_control = None\<rparr>, ?B2)"
    using w3(2) [of ?B2] assms(5) by (simp add: receive_def)
  moreover have "\<not> is_ok (agent_send c k3 (pv_id a) (pv_id b) body A)"
    using assms(6) by (simp add: agent_send_def can_send_def rel_def is_ok_def)
  ultimately show ?thesis using w1(1) r1 w2(1) r2
    by (intro exI conjI) (simp_all add: send_relationship_invite_def send_relationship_accept_def)
qed

text \<open>C40. An invite cannot be withdrawn: when the inviter cancels before the other side has answered, the other side refuses the
  cancellation and keeps the invite; its accept then makes the relationship bidirectional on its side only, since the inviter, back
  at no relationship, refuses the accept.\<close>
theorem tsp_withdrawn_invite:
  assumes "primitives_ok c" "party c a" "party c b" "endpoint_of A a b" "endpoint_of B b a"
    and "rel A a b = RelPending" "rel B b a = RelInviteReceived"
    and "length nonce = 16" "length k1 = 32" "length k2 = 32" "length digest < 65536"
  shows "\<exists>w1 w2 A1 B1 t1 t2.
    send_relationship_cancel c k1 (pv_id a) (pv_id b) A = (Inr w1, A1) \<and> rel A1 a b = RelNone \<and>
    receive c (pv_id b) w1 B = (Inl (TspRelationship t1), B) \<and>
    send_relationship_accept c k2 nonce (pv_id b) (pv_id a) digest B = (Inr w2, B1) \<and> rel B1 b a = RelBidirectional \<and>
    receive c (pv_id a) w2 A1 = (Inl (TspRelationship t2), A1)"
proof -
  have t: "transition (rel A a b) SendCancel = Inr RelNone" "transition (rel B b a) SendAccept = Inr RelBidirectional"
    using assms(6,7) by simp_all
  have ok: "control_ok control_cancel" "control_ok (control_accept nonce digest)"
    using assms(8,11) by (simp_all add: control_ok_def control_cancel_def control_accept_def)
  obtain w1 where w1: "send_control c k1 control_cancel SendCancel (pv_id a) (pv_id b) A = (Inr w1, set_rel a b RelNone A)"
    "\<And>B e. endpoint_of B b a \<Longrightarrow> transition (rel B b a) (received_event control_cancel) = Inl e \<Longrightarrow>
       \<exists>t. receive c (pv_id b) w1 B = (Inl (TspRelationship t), B)"
    by (rule control_exchange [OF assms(1-4,9) ok(1) t(1)]) iprover
  obtain w2 where w2: "send_control c k2 (control_accept nonce digest) SendAccept (pv_id b) (pv_id a) B = (Inr w2, set_rel b a RelBidirectional B)"
    "\<And>B e. endpoint_of B a b \<Longrightarrow> transition (rel B a b) (received_event (control_accept nonce digest)) = Inl e \<Longrightarrow>
       \<exists>t. receive c (pv_id a) w2 B = (Inl (TspRelationship t), B)"
    by (rule control_exchange [OF assms(1,3,2,5,10) ok(2) t(2)]) iprover
  obtain t1 where "receive c (pv_id b) w1 B = (Inl (TspRelationship t1), B)"
    using w1(2) [OF assms(5)] assms(7) by (auto simp: received_event_def control_cancel_def)
  moreover obtain t2 where "receive c (pv_id a) w2 (set_rel a b RelNone A) = (Inl (TspRelationship t2), set_rel a b RelNone A)"
    using w2(2) [of "set_rel a b RelNone A"] assms(4) by (auto simp: received_event_def control_accept_def)
  moreover have "rel (set_rel a b RelNone A) a b = RelNone" "rel (set_rel b a RelBidirectional B) b a = RelBidirectional" by simp_all
  ultimately show ?thesis using w1(1) w2(1)
    unfolding send_relationship_cancel_def send_relationship_accept_def by blast
qed

lemma from_keys_party:
  "vid_ok v \<Longrightarrow> length v \<le> 4096 \<Longrightarrow> length sk = 32 \<Longrightarrow> length dk = 32 \<Longrightarrow> party c (private_vid_from_keys c v sk dk)"
  by (simp add: party_def private_vid_from_keys_def)

definition add_others :: "private_vid list \<Rightarrow> tsp_agent \<Rightarrow> tsp_agent" where
  "add_others others = fold (\<lambda>v. add_verified_vid (to_resolved v)) others"

definition agent_for :: "private_vid \<Rightarrow> private_vid list \<Rightarrow> tsp_agent" where
  \<comment> \<open>an agent that registered its own VID and then the public keys of others\<close>
  "agent_for v others = add_others others (add_private_vid v agent_new)"

lemma add_others_store:
  "get_private_vid (ag_store (add_others vs ag)) i = get_private_vid (ag_store ag) i"
  "relationships (ag_store (add_others vs ag)) = relationships (ag_store ag)"
  by (induction vs arbitrary: ag) (simp_all add: add_others_def add_verified_vid_def add_remote_vid_def get_private_vid_def)

lemma add_others_memory:
  "i \<notin> pv_id ` set vs \<Longrightarrow> ag_memory (add_others vs ag) i = ag_memory ag i"
  "distinct (map pv_id vs) \<Longrightarrow> w \<in> set vs \<Longrightarrow> ag_memory (add_others vs ag) (pv_id w) = Some (to_resolved w)"
proof -
  show *: "i \<notin> pv_id ` set vs \<Longrightarrow> ag_memory (add_others vs ag) i = ag_memory ag i" for i vs and ag :: tsp_agent
    by (induction vs arbitrary: ag) (simp_all add: add_others_def add_verified_vid_def to_resolved_def)
  show "distinct (map pv_id vs) \<Longrightarrow> w \<in> set vs \<Longrightarrow> ag_memory (add_others vs ag) (pv_id w) = Some (to_resolved w)"
  proof (induction vs arbitrary: ag)
    case (Cons v vs)
    show ?case
    proof (cases "w = v")
      case True
      then show ?thesis using Cons.prems * [of "pv_id v" vs "add_verified_vid (to_resolved v) ag"]
        by (simp add: add_others_def add_verified_vid_def to_resolved_def)
    qed (use Cons in \<open>simp add: add_others_def\<close>)
  qed simp
qed

lemma agent_for_endpoint:
  assumes "distinct (map pv_id others)" "w \<in> set others"
  shows "endpoint_of (agent_for v others) v w" "rel (agent_for v others) v w = RelNone"
  using add_others_memory(2) [OF assms] add_others_store
  by (simp_all add: endpoint_of_def agent_for_def knows_def resolve_def memory_resolve_def to_resolved_def rel_def relationship_of_def
      add_private_vid_def store_add_private_vid_def get_private_vid_def agent_new_def tsp_store_new_def)

definition sample_vid :: "string \<Rightarrow> byte \<Rightarrow> private_vid" where
  "sample_vid v k = private_vid_from_keys sample_primitives v (replicate 32 k) (replicate 32 (k + 1))"

lemma sample_party: "v \<in> {''did:a'', ''did:b'', ''did:c''} \<Longrightarrow> party sample_primitives (sample_vid v k)"
proof -
  assume v: "v \<in> {''did:a'', ''did:b'', ''did:c''}"
  have "utf8_valid (bytes_of ''did:a'')" "utf8_valid (bytes_of ''did:b'')" "utf8_valid (bytes_of ''did:c'')" by code_simp+
  with v show ?thesis unfolding sample_vid_def by (intro from_keys_party) (auto simp: vid_ok_def)
qed

theorem tsp_handshake_witness:
  "\<exists>w1 w2 w3 A1 A2 B1 B2.
    send_relationship_invite sample_primitives (replicate 32 1) (replicate 16 1) ''did:a'' ''did:b'' (agent_for (sample_vid ''did:a'' 1) [sample_vid ''did:b'' 2]) = (Inr w1, A1) \<and>
    receive sample_primitives ''did:b'' w1 (agent_for (sample_vid ''did:b'' 2) [sample_vid ''did:a'' 1]) = (Inr (control_received (sample_vid ''did:a'' 1) (sample_vid ''did:b'' 2) (control_invite (replicate 16 1))), B1) \<and>
    send_relationship_accept sample_primitives (replicate 32 2) (replicate 16 2) ''did:b'' ''did:a'' (message_digest sample_primitives w1) B1 = (Inr w2, B2) \<and>
    receive sample_primitives ''did:a'' w2 A1 = (Inr (control_received (sample_vid ''did:b'' 2) (sample_vid ''did:a'' 1) (control_accept (replicate 16 2) (message_digest sample_primitives w1))), A2) \<and>
    rel A2 (sample_vid ''did:a'' 1) (sample_vid ''did:b'' 2) = RelBidirectional \<and> rel B2 (sample_vid ''did:b'' 2) (sample_vid ''did:a'' 1) = RelBidirectional \<and>
    agent_send sample_primitives (replicate 32 3) ''did:a'' ''did:b'' [1, 2, 3] A2 = Inr w3 \<and>
    receive sample_primitives ''did:b'' w3 B2 = (Inr \<lparr>rm_payload = [1, 2, 3], rm_sender = ''did:a'', rm_receiver = ''did:b'', rm_message_type = TspDirect,
      rm_control = None\<rparr>, B2) \<and>
    \<not> is_ok (agent_send sample_primitives (replicate 32 3) ''did:a'' ''did:b'' [1, 2, 3] (agent_for (sample_vid ''did:a'' 1) [sample_vid ''did:b'' 2]))"
proof -
  let ?a = "sample_vid ''did:a'' 1" and ?b = "sample_vid ''did:b'' 2"
  have i: "pv_id ?a = ''did:a''" "pv_id ?b = ''did:b''" by (simp_all add: sample_vid_def private_vid_from_keys_def)
  show ?thesis
    by (rule tsp_handshake [OF sample_primitives_ok, of ?a ?b "agent_for ?a [?b]" "agent_for ?b [?a]", unfolded i])
      (simp_all add: sample_party agent_for_endpoint)
qed

theorem tsp_withdrawn_invite_witness:
  "\<exists>w1 w2 A1 B1 t1 t2.
    send_relationship_cancel sample_primitives (replicate 32 1) ''did:a'' ''did:b''
      (set_rel (sample_vid ''did:a'' 1) (sample_vid ''did:b'' 2) RelPending (agent_for (sample_vid ''did:a'' 1) [sample_vid ''did:b'' 2])) = (Inr w1, A1) \<and>
    rel A1 (sample_vid ''did:a'' 1) (sample_vid ''did:b'' 2) = RelNone \<and>
    receive sample_primitives ''did:b'' w1
        (set_rel (sample_vid ''did:b'' 2) (sample_vid ''did:a'' 1) RelInviteReceived (agent_for (sample_vid ''did:b'' 2) [sample_vid ''did:a'' 1])) =
      (Inl (TspRelationship t1), set_rel (sample_vid ''did:b'' 2) (sample_vid ''did:a'' 1) RelInviteReceived (agent_for (sample_vid ''did:b'' 2) [sample_vid ''did:a'' 1])) \<and>
    send_relationship_accept sample_primitives (replicate 32 2) (replicate 16 2) ''did:b'' ''did:a'' [1]
      (set_rel (sample_vid ''did:b'' 2) (sample_vid ''did:a'' 1) RelInviteReceived (agent_for (sample_vid ''did:b'' 2) [sample_vid ''did:a'' 1])) = (Inr w2, B1) \<and>
    rel B1 (sample_vid ''did:b'' 2) (sample_vid ''did:a'' 1) = RelBidirectional \<and>
    receive sample_primitives ''did:a'' w2 A1 = (Inl (TspRelationship t2), A1)"
proof -
  let ?a = "sample_vid ''did:a'' 1" and ?b = "sample_vid ''did:b'' 2"
  have i: "pv_id ?a = ''did:a''" "pv_id ?b = ''did:b''" by (simp_all add: sample_vid_def private_vid_from_keys_def)
  show ?thesis
    by (rule tsp_withdrawn_invite [OF sample_primitives_ok, of ?a ?b "set_rel ?a ?b RelPending (agent_for ?a [?b])"
          "set_rel ?b ?a RelInviteReceived (agent_for ?b [?a])", unfolded i])
      (simp_all add: sample_party agent_for_endpoint)
qed

section \<open>Any sequence of operations\<close>

datatype agent_op =
    OpInvite "byte list" "byte list" string string
  | OpAccept "byte list" "byte list" string string "byte list"
  | OpCancel "byte list" string string
  | OpReceive string "byte list"
  | OpAddPrivate private_vid
  | OpAddVerified resolved_vid

fun agent_step :: "primitives \<Rightarrow> agent_op \<Rightarrow> tsp_agent \<Rightarrow> tsp_agent" where
  "agent_step c (OpInvite k n us them) ag = snd (send_relationship_invite c k n us them ag)"
| "agent_step c (OpAccept k n us them d) ag = snd (send_relationship_accept c k n us them d ag)"
| "agent_step c (OpCancel k us them) ag = snd (send_relationship_cancel c k us them ag)"
| "agent_step c (OpReceive us w) ag = snd (receive c us w ag)"
| "agent_step c (OpAddPrivate v) ag = add_private_vid v ag"
| "agent_step c (OpAddVerified v) ag = add_verified_vid v ag"

fun agent_run :: "primitives \<Rightarrow> agent_op list \<Rightarrow> tsp_agent \<Rightarrow> tsp_agent" where
  "agent_run c [] ag = ag"
| "agent_run c (op # ops) ag = agent_run c ops (agent_step c op ag)"

fun consents :: "agent_op \<Rightarrow> (string \<times> string) set" where
  \<comment> \<open>the pair for which the application of this agent offered or accepted a relationship\<close>
  "consents (OpInvite k n us them) = {(us, them)}"
| "consents (OpAccept k n us them d) = {(us, them)}"
| "consents op = {}"

definition relationships_inv :: "string set \<Rightarrow> (string, relationship_state) hash_map \<Rightarrow> bool" where
  "relationships_inv S rs \<longleftrightarrow> distinct (map fst rs) \<and>
     (\<forall>k st. map_of rs k = Some st \<longrightarrow> st \<noteq> RelNone \<and> (st = RelInviteReceived \<or> k \<in> S))"

definition sends_consent :: "relationship_event \<Rightarrow> bool" where
  "sends_consent e \<longleftrightarrow> e = SendInvite \<or> e = SendAccept"

lemma transition_consent:
  "transition st e = Inr st' \<Longrightarrow> st' \<noteq> RelNone \<Longrightarrow> st' \<noteq> RelInviteReceived \<Longrightarrow> sends_consent e \<or> st = RelPending"
  by (cases "(st, e)" rule: transition.cases) (auto simp: sends_consent_def)

lemma relationships_inv_mono: "relationships_inv S rs \<Longrightarrow> S \<subseteq> T \<Longrightarrow> relationships_inv T rs"
  unfolding relationships_inv_def by blast

lemma agent_transition_inv:
  assumes "relationships_inv S (relationships (ag_store ag))" "sends_consent e \<longrightarrow> relationship_key us them \<in> S"
  shows "relationships_inv S (relationships (ag_store (snd (agent_transition us them e ag))))"
proof -
  let ?rs = "relationships (ag_store ag)" and ?k = "relationship_key us them"
  let ?st = "case map_of ?rs ?k of None \<Rightarrow> RelNone | Some r \<Rightarrow> r"
  show ?thesis
  proof (cases "transition ?st e")
    case (Inr st)
    have "relationships (ag_store (snd (agent_transition us them e ag))) =
        (if st = RelNone then AList.delete ?k ?rs else AList.update ?k st ?rs)"
      using Inr by (simp add: agent_transition_def transition_relationship_def Let_def)
    moreover have "relationships_inv S (AList.delete ?k ?rs)"
      using assms(1) by (simp add: relationships_inv_def distinct_delete delete_conv')
    moreover have "relationships_inv S (AList.update ?k st ?rs)" if "st \<noteq> RelNone"
    proof -
      have "st \<noteq> RelInviteReceived \<Longrightarrow> ?k \<in> S"
        using transition_consent [OF Inr that] assms by (force simp: relationships_inv_def split: option.splits)
      then show ?thesis using assms(1) that by (auto simp: relationships_inv_def distinct_update update_conv' simp del: map_of_eq_Some_iff)
    qed
    ultimately show ?thesis by auto
  qed (use assms in \<open>simp add: agent_transition_def transition_relationship_def Let_def\<close>)
qed

lemma agent_step_inv:
  assumes "relationships_inv S (relationships (ag_store ag))" "\<forall>(us, them) \<in> consents op. relationship_key us them \<in> S"
  shows "relationships_inv S (relationships (ag_store (agent_step c op ag)))"
proof -
  have send: "relationships_inv S (relationships (ag_store (snd (send_control c k m e us them ag))))"
    if "sends_consent e \<longrightarrow> relationship_key us them \<in> S" for k m e us them
    using agent_transition_inv [OF assms(1) that] assms(1)
    by (auto simp: send_control_def split: sum.split prod.splits)
  have handle: "relationships_inv S (relationships (ag_store (snd (handle_control us them m ag))))" for us them m
  proof -
    have "relationships_inv S (relationships (ag_store (snd (agent_transition us them (received_event m) ag))))"
      using assms(1) by (rule agent_transition_inv) (simp add: sends_consent_def received_event_def split: control_type.split)
    then show ?thesis by (auto simp: handle_control_def received_event_def Let_def split: prod.splits sum.splits)
  qed
  have rec: "relationships_inv S (relationships (ag_store (snd (receive c us w ag))))" for us w
  proof (cases "open_layer c ''message'' us w ag")
    case (Inr u)
    then show ?thesis using assms(1) handle
      by (cases "control_decode (um_payload u)") (auto simp: receive_def Let_def split: prod.splits sum.splits, (metis snd_conv)+)
  qed (use assms(1) in \<open>simp add: receive_def\<close>)
  show ?thesis
    using assms send rec
    by (cases op) (simp_all add: send_relationship_invite_def send_relationship_accept_def send_relationship_cancel_def sends_consent_def
      add_private_vid_def store_add_private_vid_def add_verified_vid_def add_remote_vid_def)
qed

definition consent_keys :: "agent_op list \<Rightarrow> string set" where
  "consent_keys ops = (\<lambda>(us, them). relationship_key us them) ` (\<Union>op \<in> set ops. consents op)"

lemma agent_run_inv:
  "relationships_inv S (relationships (ag_store ag)) \<Longrightarrow>
   relationships_inv (S \<union> consent_keys ops) (relationships (ag_store (agent_run c ops ag)))"
proof (induction ops arbitrary: ag S)
  case (Cons op ops)
  have eq: "S \<union> consent_keys [op] \<union> consent_keys ops = S \<union> consent_keys (op # ops)"
    by (simp add: consent_keys_def image_Un Un_assoc)
  have "relationships_inv (S \<union> consent_keys [op]) (relationships (ag_store (agent_step c op ag)))"
  proof (rule agent_step_inv)
    show "relationships_inv (S \<union> consent_keys [op]) (relationships (ag_store ag))" by (rule relationships_inv_mono [OF Cons.prems]) simp
    have "(\<lambda>(us, them). relationship_key us them) p \<in> consent_keys [op]" if "p \<in> consents op" for p
      unfolding consent_keys_def using that by (intro imageI) simp
    then show "\<forall>(us, them) \<in> consents op. relationship_key us them \<in> S \<union> consent_keys [op]" by (simp add: case_prod_unfold)
  qed
  from Cons.IH [OF this] show ?case unfolding eq agent_run.simps .
qed (simp add: consent_keys_def)

lemma split_once_key: "sep \<notin> set a \<Longrightarrow> split_once sep (a @ sep # b) = Some (a, b)"
  by (induction a) auto

lemma split_relationship_key: "CHR 0x00 \<notin> set a \<Longrightarrow> split_once (CHR 0x00) (relationship_key a t) = Some (a, t)"
  by (simp add: relationship_key_def split_once_key)

lemma relationship_key_inj:
  "CHR 0x00 \<notin> set a \<Longrightarrow> CHR 0x00 \<notin> set b \<Longrightarrow> relationship_key a t = relationship_key b u \<Longrightarrow> a = b \<and> t = u"
  by (metis split_relationship_key option.inject prod.inject)

text \<open>C13. A relationship needs consent: whatever an agent that starts without relationships sends and receives, in any
  order and from anybody, a relationship of one of its VIDs is pending or bidirectional only if the agent itself sent an invite or an accept for
  exactly that pair; received messages alone never let it send. VIDs of the agent must not contain the separator of the store's keys.\<close>
theorem tsp_relationship_consent:
  assumes "relationships (ag_store ag) = []" "CHR 0x00 \<notin> set us"
    and "\<forall>op \<in> set ops. \<forall>(v, _) \<in> consents op. CHR 0x00 \<notin> set v"
    and "relationship_of (ag_store (agent_run c ops ag)) us them \<in> {RelPending, RelBidirectional}"
  shows "\<exists>op \<in> set ops. (us, them) \<in> consents op"
proof -
  have "relationships_inv {} (relationships (ag_store ag))" using assms(1) by (simp add: relationships_inv_def)
  from agent_run_inv [OF this, of ops c]
  obtain v t op where "op \<in> set ops" "(v, t) \<in> consents op" "relationship_key us them = relationship_key v t"
    using assms(4) unfolding relationships_inv_def relationship_of_def consent_keys_def by (force split: option.splits)
  moreover from this have "us = v \<and> them = t" using assms(2,3) by (intro relationship_key_inj) auto
  ultimately show ?thesis by blast
qed

text \<open>Listing relationships is exact: after any operations, the listing of a VID holds exactly the peers with which it has
  a relationship, each once and with its state.\<close>
theorem tsp_relationships_listed:
  assumes "relationships (ag_store ag) = []" "CHR 0x00 \<notin> set us"
  shows "((them, st) \<in> set (list_relationships (ag_store (agent_run c ops ag)) us) \<longleftrightarrow>
      relationship_of (ag_store (agent_run c ops ag)) us them = st \<and> st \<noteq> RelNone) \<and>
    distinct (map fst (list_relationships (ag_store (agent_run c ops ag)) us))"
proof -
  let ?rs = "relationships (ag_store (agent_run c ops ag))"
  have "relationships_inv {} (relationships (ag_store ag))" using assms(1) by (simp add: relationships_inv_def)
  from agent_run_inv [OF this, of ops c]
  have d: "distinct (map fst ?rs)" and n: "\<And>k st. map_of ?rs k = Some st \<Longrightarrow> st \<noteq> RelNone" by (auto simp: relationships_inv_def)
  have k: "key_belongs_to key us \<longleftrightarrow> (\<exists>t. key = relationship_key us t)" for key
  proof
    assume "key_belongs_to key us"
    then have "key = us @ drop (length us) key" "drop (length us) key = CHR 0x00 # drop (Suc (length us)) key"
      unfolding key_belongs_to_def by (metis append_take_drop_id, metis Cons_nth_drop_Suc)
    then show "\<exists>t. key = relationship_key us t" unfolding relationship_key_def by (metis append_Cons append_Nil)
  qed (auto simp: key_belongs_to_def relationship_key_def)
  have t: "their_vid_from_key (relationship_key us t) = t" for t
    by (simp add: their_vid_from_key_def split_relationship_key [OF assms(2)])
  have "(them, st) \<in> set (list_relationships (ag_store (agent_run c ops ag)) us) \<longleftrightarrow> (relationship_key us them, st) \<in> set ?rs"
  proof
    assume "(them, st) \<in> set (list_relationships (ag_store (agent_run c ops ag)) us)"
    then obtain key where "(key, st) \<in> set ?rs" "key_belongs_to key us" "their_vid_from_key key = them"
      by (auto simp: list_relationships_def)
    then show "(relationship_key us them, st) \<in> set ?rs" using k t by metis
  next
    assume "(relationship_key us them, st) \<in> set ?rs"
    moreover have "key_belongs_to (relationship_key us them) us" using k by blast
    ultimately have "(their_vid_from_key (relationship_key us them), st) \<in> set (list_relationships (ag_store (agent_run c ops ag)) us)"
      unfolding list_relationships_def by force
    then show "(them, st) \<in> set (list_relationships (ag_store (agent_run c ops ag)) us)" unfolding t .
  qed
  also have "\<dots> \<longleftrightarrow> map_of ?rs (relationship_key us them) = Some st" using d by simp
  also have "\<dots> \<longleftrightarrow> relationship_of (ag_store (agent_run c ops ag)) us them = st \<and> st \<noteq> RelNone"
    using n by (auto simp: relationship_of_def split: option.splits)
  finally have "(them, st) \<in> set (list_relationships (ag_store (agent_run c ops ag)) us) \<longleftrightarrow>
      relationship_of (ag_store (agent_run c ops ag)) us them = st \<and> st \<noteq> RelNone" .
  moreover have "inj_on (their_vid_from_key \<circ> fst) (set (filter (\<lambda>(k, _). key_belongs_to k us) ?rs))"
    using k t d by (auto simp: inj_on_def) (metis eq_key_imp_eq_value)
  then have "distinct (map fst (list_relationships (ag_store (agent_run c ops ag)) us))"
    using d by (simp add: list_relationships_def distinct_map distinct_filter comp_def case_prod_unfold)
  ultimately show ?thesis by blast
qed

lemma invite_pending:
  assumes "primitives_ok c" "party c a" "party c b" "endpoint_of A a b" "length k = 32" "length n = 16" "rel A a b = RelNone"
  shows "relationship_of (ag_store (agent_run c [OpInvite k n (pv_id a) (pv_id b)] A)) (pv_id a) (pv_id b) = RelPending"
proof -
  have t: "transition (rel A a b) SendInvite = Inr RelPending" using assms(7) by simp
  have m: "control_ok (control_invite n)" using assms(6) by (simp add: control_ok_def control_invite_def)
  obtain w where "send_control c k (control_invite n) SendInvite (pv_id a) (pv_id b) A = (Inr w, set_rel a b RelPending A)"
    by (rule control_exchange [OF assms(1-5) m t]) iprover
  then show ?thesis using set_rel_simps(1) [of a b RelPending A] by (simp add: send_relationship_invite_def rel_def)
qed

lemma sample_pending:
  "relationship_of (ag_store (agent_run sample_primitives [OpInvite (replicate 32 1) (replicate 16 1) ''did:a'' ''did:b'']
     (agent_for (sample_vid ''did:a'' 1) [sample_vid ''did:b'' 2]))) ''did:a'' ''did:b'' = RelPending"
proof -
  let ?a = "sample_vid ''did:a'' 1" and ?b = "sample_vid ''did:b'' 2"
  have i: "pv_id ?a = ''did:a''" "pv_id ?b = ''did:b''" by (simp_all add: sample_vid_def private_vid_from_keys_def)
  show ?thesis
    by (rule invite_pending [OF sample_primitives_ok, of ?a ?b "agent_for ?a [?b]", unfolded i]) (simp_all add: sample_party agent_for_endpoint)
qed

lemma agent_for_relationships: "relationships (ag_store (agent_for v others)) = []"
  by (simp add: agent_for_def add_others_store add_private_vid_def store_add_private_vid_def agent_new_def tsp_store_new_def)

theorem tsp_relationship_consent_witness:
  "\<exists>op \<in> set [OpInvite (replicate 32 1) (replicate 16 1) ''did:a'' ''did:b'']. (''did:a'', ''did:b'') \<in> consents op"
  by (rule tsp_relationship_consent [of "agent_for (sample_vid ''did:a'' 1) [sample_vid ''did:b'' 2]" _ _ sample_primitives])
    (simp_all add: agent_for_relationships sample_pending del: agent_run.simps)

theorem tsp_relationships_listed_witness:
  "(''did:b'', RelPending) \<in> set (list_relationships (ag_store (agent_run sample_primitives
     [OpInvite (replicate 32 1) (replicate 16 1) ''did:a'' ''did:b''] (agent_for (sample_vid ''did:a'' 1) [sample_vid ''did:b'' 2]))) ''did:a'')"
  using tsp_relationships_listed [where ag = "agent_for (sample_vid ''did:a'' 1) [sample_vid ''did:b'' 2]" and us = "''did:a''" and them = "''did:b''"
      and st = RelPending and c = sample_primitives and ops = "[OpInvite (replicate 32 1) (replicate 16 1) ''did:a'' ''did:b'']"]
    agent_for_relationships sample_pending
  by (simp del: agent_run.simps)

section \<open>Routed delivery\<close>

lemma routed_delivered:
  assumes "primitives_ok c" "party c a" "party c b" "length k = 32" "length inner \<le> 40000000"
    and "\<forall>v \<in> set route. party c v" "route \<noteq> []" "length route \<le> MAX_HOPS"
  obtains w n where "pack_routed c k inner (map pv_id route) (pv_id a) (pv_id b) (pv_signing_key a) (pv_decryption_key a) (pv_encryption_key b) = Inr w"
    "\<And>what B. endpoint_of B b a \<Longrightarrow> open_layer c what (pv_id b) w B = Inr \<lparr>um_payload = inner, um_hops = map pv_id route,
       um_sender = pv_id a, um_receiver = pv_id b, um_message_type = TspRouted\<rparr>"
    "envelope_decode w = Inr (envelope_new TspDirect (pv_id a) (pv_id b), n)"
    "unpack c w (pv_decryption_key b) (pv_encryption_key a) (pv_verifying_key a) = Inr \<lparr>um_payload = inner, um_hops = map pv_id route,
       um_sender = pv_id a, um_receiver = pv_id b, um_message_type = TspRouted\<rparr>"
proof -
  have "(\<Sum>h\<leftarrow>map pv_id route. length h + 8) \<le> (\<Sum>h\<leftarrow>route. 4104)"
    using assms(6) unfolding map_map by (intro sum_list_mono) (simp add: party_def)
  then have "(\<Sum>h\<leftarrow>map pv_id route. length h + 8) \<le> 65664" using assms(8) by (simp add: sum_list_triv MAX_HOPS_def)
  then have p: "packable inner TspRouted (map pv_id route) (pv_id a) (pv_id b)"
    using assms(2,3,5,6,8) by (intro packable_small) (auto simp: party_def)
  have k: "length (pv_signing_key a) = 32" "length (pv_decryption_key a) = 32" "length (pv_decryption_key b) = 32"
    using assms(2,3) by (simp_all add: party_def)
  obtain w n where w: "pack_with_hops c k inner TspRouted (map pv_id route) (pv_id a) (pv_id b) (pv_signing_key a) (pv_decryption_key a)
      (x25519_public c (pv_decryption_key b)) = Inr w"
    "envelope_decode w = Inr (envelope_new TspDirect (pv_id a) (pv_id b), n)"
    "unpack c w (pv_decryption_key b) (x25519_public c (pv_decryption_key a)) (public_key_from_private c (pv_signing_key a)) =
       Inr \<lparr>um_payload = inner, um_hops = snd (carried_kind TspRouted (map pv_id route)), um_sender = pv_id a, um_receiver = pv_id b,
            um_message_type = fst (carried_kind TspRouted (map pv_id route))\<rparr>"
    by (rule pack_unpack [OF assms(1) p assms(4) k]) iprover
  have "pack_routed c k inner (map pv_id route) (pv_id a) (pv_id b) (pv_signing_key a) (pv_decryption_key a) (pv_encryption_key b) = Inr w"
    using w(1) assms(3,7,8) by (simp add: pack_routed_def party_def)
  moreover have "open_layer c what (pv_id b) w B = Inr \<lparr>um_payload = inner, um_hops = map pv_id route,
       um_sender = pv_id a, um_receiver = pv_id b, um_message_type = TspRouted\<rparr>" if "endpoint_of B b a" for what B
    using w(2,3) assms(2,7) that by (auto simp: open_layer_def endpoint_of_def knows_def party_def envelope_new_def carried_kind_def)
  moreover have "unpack c w (pv_decryption_key b) (pv_encryption_key a) (pv_verifying_key a) = Inr \<lparr>um_payload = inner, um_hops = map pv_id route,
       um_sender = pv_id a, um_receiver = pv_id b, um_message_type = TspRouted\<rparr>"
    using w(3) assms(2,7) by (simp add: party_def carried_kind_def)
  ultimately show thesis using that w(2) by blast
qed

fun relay_chain :: "primitives \<Rightarrow> (string \<Rightarrow> tsp_agent) \<Rightarrow> byte list list \<Rightarrow> string \<Rightarrow> byte list \<Rightarrow> (string \<times> byte list) option" where
  \<comment> \<open>every intermediary forwards what it gets, drawing one ephemeral secret each; who receives which inner message\<close>
  "relay_chain c net [] hop w = None"
| "relay_chain c net (k # ks) hop w =
     (case forward_routed c k hop w (net hop) of
        Inl _ \<Rightarrow> None
      | Inr (Relay to_vid m) \<Rightarrow> relay_chain c net ks to_vid m
      | Inr (Deliver to_vid m) \<Rightarrow> Some (to_vid, m))"

lemma relay_chain_delivers:
  assumes "primitives_ok c" "length inner \<le> 40000000" "\<forall>k \<in> set ks. length k = 32"
    and "length ks = length route" "route \<noteq> []" "length route \<le> MAX_HOPS" "\<forall>v \<in> set (h # route). party c v"
    and "\<forall>v \<in> set (h # butlast route). \<forall>u \<in> set (h # route). endpoint_of (net (pv_id v)) v u"
    and "open_layer c ''routed message'' (pv_id h) w (net (pv_id h)) = Inr \<lparr>um_payload = inner, um_hops = map pv_id route,
       um_sender = s, um_receiver = pv_id h, um_message_type = TspRouted\<rparr>"
  shows "relay_chain c net ks (pv_id h) w = Some (pv_id (last route), inner)"
  using assms(3-)
proof (induction route arbitrary: h ks w s)
  case (Cons v route)
  from Cons.prems(2) obtain k ks' where ks: "ks = k # ks'" "length ks' = length route" by (cases ks) auto
  have h: "get_private_vid (ag_store (net (pv_id h))) (pv_id h) = Inr h" using Cons.prems(6) by (auto simp: endpoint_of_def)
  show ?case
  proof (cases route)
    case Nil
    then show ?thesis using Cons.prems(7) h by (simp add: ks forward_routed_def next_hop_def next_hop_parts_def)
  next
    case (Cons u rest)
    have e: "endpoint_of (net (pv_id h)) h v" "endpoint_of (net (pv_id v)) v h" using Cons.prems(6) Cons by auto
    obtain w' where w': "pack_routed c k inner (map pv_id route) (pv_id h) (pv_id v) (pv_signing_key h) (pv_decryption_key h) (pv_encryption_key v) = Inr w'"
      "\<And>what B. endpoint_of B v h \<Longrightarrow> open_layer c what (pv_id v) w' B = Inr \<lparr>um_payload = inner, um_hops = map pv_id route,
         um_sender = pv_id h, um_receiver = pv_id v, um_message_type = TspRouted\<rparr>"
      by (rule routed_delivered [OF assms(1), of h v k inner route])
        (use Cons.prems Cons ks assms(2) in auto)
    have "forward_routed c k (pv_id h) w (net (pv_id h)) = Inr (Relay (pv_id v) w')"
      using Cons.prems(7) h w'(1) e(1) Cons
      by (auto simp: forward_routed_def next_hop_def next_hop_parts_def endpoint_of_def knows_def)
    moreover have "relay_chain c net ks' (pv_id v) w' = Some (pv_id (last route), inner)"
      using Cons.prems Cons ks w'(2) [OF e(2)] by (intro Cons.IH) auto
    ultimately show ?thesis using Cons by (simp add: ks)
  qed
qed simp

lemma send_routed_set_rel: "send_routed c k1 k2 i j hops body (set_rel us them st ag) = send_routed c k1 k2 i j hops body ag"
  by (cases hops) (simp_all add: send_routed_def agent_pack_def set_rel_def get_private_vid_def)

text \<open>C15. Routed delivery: a body of at most 1000000 bytes sent through any intermediaries, at most \<open>MAX_HOPS\<close> and each of them
  able to resolve the others, is relayed by each in turn, whatever ephemeral secrets they draw, and the last one hands the final
  recipient exactly the inner message that the sender sealed for it, which is received as the body in a direct message of the
  original sender. The relationship between the two plays no part: \<open>send_routed\<close> gives the same message in every state of it,
  and none at all is needed, although the documentation of \<open>send_routed\<close> requires a bidirectional one.\<close>
theorem tsp_routed_delivery:
  assumes "primitives_ok c" "\<forall>v \<in> set (a # hs @ [f]). party c v" "hs \<noteq> []" "length hs \<le> MAX_HOPS"
    and "endpoint_of A a f" "endpoint_of A a (hd hs)" "endpoint_of F f a"
    and "\<forall>h \<in> set hs. \<forall>v \<in> set (a # hs @ [f]). endpoint_of (net (pv_id h)) h v"
    and "length k1 = 32" "length k2 = 32" "\<forall>k \<in> set ks. length k = 32" "length ks = length hs" "length body \<le> 1000000"
  shows "\<exists>w inner. agent_pack c k1 (pv_id a) (pv_id f) body TspDirect A = Inr inner \<and>
    (\<forall>st. send_routed c k1 k2 (pv_id a) (pv_id f) (map pv_id hs) body (set_rel a f st A) = Inr w) \<and>
    send_routed c k1 k2 (pv_id a) (pv_id f) (map pv_id hs) body A = Inr w \<and>
    relay_chain c net ks (pv_id (hd hs)) w = Some (pv_id f, inner) \<and>
    receive c (pv_id f) inner F = (Inr \<lparr>rm_payload = body, rm_sender = pv_id a, rm_receiver = pv_id f, rm_message_type = TspDirect,
      rm_control = None\<rparr>, F)"
proof -
  obtain h rest where hs: "hs = h # rest" using assms(3) by (cases hs) auto
  have p: "party c a" "party c f" "party c h" "\<forall>v \<in> set (rest @ [f]). party c v" using assms(2) hs by auto
  have b: "length body \<le> 40000000" using assms(13) by simp
  obtain inner where i: "agent_pack c k1 (pv_id a) (pv_id f) body TspDirect A = Inr inner"
    "length inner \<le> length body + length (pv_id a) + length (pv_id f) + 300"
    "\<And>what B. endpoint_of B f a \<Longrightarrow> open_layer c what (pv_id f) inner B = Inr \<lparr>um_payload = body, um_hops = [], um_sender = pv_id a,
       um_receiver = pv_id f, um_message_type = if TspDirect = TspRouted then TspNested else TspDirect\<rparr>"
    by (rule delivered [OF assms(1) p(1,2) assms(5,9) b, where kind = TspDirect]) iprover
  have l: "length inner \<le> 40000000" using i(2) p(1,2) assms(13) by (simp add: party_def)
  have r: "rest @ [f] \<noteq> []" "length (rest @ [f]) \<le> MAX_HOPS" using assms(4) hs by simp_all
  obtain w where w: "pack_routed c k2 inner (map pv_id (rest @ [f])) (pv_id a) (pv_id h) (pv_signing_key a) (pv_decryption_key a) (pv_encryption_key h) = Inr w"
    "\<And>what B. endpoint_of B h a \<Longrightarrow> open_layer c what (pv_id h) w B = Inr \<lparr>um_payload = inner, um_hops = map pv_id (rest @ [f]),
       um_sender = pv_id a, um_receiver = pv_id h, um_message_type = TspRouted\<rparr>"
    by (rule routed_delivered [OF assms(1) p(1,3) assms(10) l p(4) r]) iprover
  have "send_routed c k1 k2 (pv_id a) (pv_id f) (map pv_id hs) body A = Inr w"
    using i(1) w(1) assms(6) hs by (auto simp: send_routed_def endpoint_of_def knows_def)
  moreover note i(1)
  moreover have "relay_chain c net ks (pv_id h) w = Some (pv_id (last (rest @ [f])), inner)"
  proof (rule relay_chain_delivers [OF assms(1) l assms(11) _ r])
    show "open_layer c ''routed message'' (pv_id h) w (net (pv_id h)) = Inr \<lparr>um_payload = inner, um_hops = map pv_id (rest @ [f]),
        um_sender = pv_id a, um_receiver = pv_id h, um_message_type = TspRouted\<rparr>"
      using assms(8) hs by (intro w(2)) simp
  qed (use assms(8,12) p hs in auto)
  moreover have "receive c (pv_id f) inner F = (Inr \<lparr>rm_payload = body, rm_sender = pv_id a, rm_receiver = pv_id f,
      rm_message_type = TspDirect, rm_control = None\<rparr>, F)"
    using i(3) [OF assms(7), of "''message''"] by (simp add: receive_def Let_def)
  ultimately show ?thesis using hs by (simp add: send_routed_set_rel)
qed

theorem tsp_routed_delivery_witness:
  "\<exists>w inner. send_routed sample_primitives (replicate 32 1) (replicate 32 2) ''did:a'' ''did:c'' [''did:b''] [1, 2, 3]
      (agent_for (sample_vid ''did:a'' 1) [sample_vid ''did:b'' 2, sample_vid ''did:c'' 3]) = Inr w \<and>
    relay_chain sample_primitives (\<lambda>_. agent_for (sample_vid ''did:b'' 2) [sample_vid ''did:a'' 1, sample_vid ''did:b'' 2, sample_vid ''did:c'' 3])
      [replicate 32 5] ''did:b'' w = Some (''did:c'', inner) \<and>
    receive sample_primitives ''did:c'' inner (agent_for (sample_vid ''did:c'' 3) [sample_vid ''did:a'' 1]) =
      (Inr \<lparr>rm_payload = [1, 2, 3], rm_sender = ''did:a'', rm_receiver = ''did:c'', rm_message_type = TspDirect, rm_control = None\<rparr>,
       agent_for (sample_vid ''did:c'' 3) [sample_vid ''did:a'' 1])"
proof -
  let ?a = "sample_vid ''did:a'' 1" and ?b = "sample_vid ''did:b'' 2" and ?c = "sample_vid ''did:c'' 3"
  have i: "pv_id ?a = ''did:a''" "pv_id ?b = ''did:b''" "pv_id ?c = ''did:c''" by (simp_all add: sample_vid_def private_vid_from_keys_def)
  show ?thesis
    using tsp_routed_delivery [OF sample_primitives_ok, of ?a "[?b]" ?c "agent_for ?a [?b, ?c]" "agent_for ?c [?a]"
        "\<lambda>_. agent_for ?b [?a, ?b, ?c]" "replicate 32 1" "replicate 32 2" "[replicate 32 5]" "[1, 2, 3]"]
    by (auto simp: i sample_party agent_for_endpoint MAX_HOPS_def)
qed

end
