(* ===== verification/TspInbound.thy ===== *)
theory TspInbound
  imports Inbound TspProperties
begin

text \<open>
  The TSP side of the inbound path (\<open>handle_inbound_tsp\<close> of \<open>messages/inbound.rs\<close>): carrying an opaque
  message to a local account, acting as a relay hop or privacy intermediary for one addressed to the
  mediator, and enqueueing for a remote next hop. The message layer is that of the theories \<open>TspMessage\<close> and \<open>TspAgent\<close>.

  What the handler takes from elsewhere is the record \<open>tsp_wire\<close>: the cryptographic primitives, the mediator's keys,
  the keys and endpoints a DID document publishes for a VID, URL parsing, and the ephemeral secret drawn for a layer.
\<close>

section \<open>Library\<close>

definition show_tsp_error :: "(cesr_error \<Rightarrow> string) \<Rightarrow> tsp_error \<Rightarrow> string" where
  \<comment> \<open>\<open>show_cesr\<close>: the text of a \<open>CesrError\<close>, which the TSP layer never returns\<close>
  "show_tsp_error show_cesr e =
     (case e of
        TspCesr c \<Rightarrow> ''CESR encoding error: '' @ show_cesr c
      | TspHpke t \<Rightarrow> ''HPKE error: '' @ t
      | TspSigning t \<Rightarrow> ''signing error: '' @ t
      | TspVerification t \<Rightarrow> ''verification failed: '' @ t
      | TspInvalidMessage t \<Rightarrow> ''invalid message: '' @ t
      | TspVid t \<Rightarrow> ''VID error: '' @ t
      | TspVidNotFound t \<Rightarrow> ''VID not found: '' @ t
      | TspRelationship t \<Rightarrow> ''relationship error: '' @ t
      | TspNoEncryptionKey t \<Rightarrow> ''no encryption key available for VID: '' @ t
      | TspNoSigningKey t \<Rightarrow> ''no signing key available for VID: '' @ t
      | TspStore t \<Rightarrow> ''store error: '' @ t
      | TspSerialization t \<Rightarrow> ''serialization error: '' @ t
      | TspDidResolution t \<Rightarrow> ''DID resolution error: '' @ t)"

record tsp_identity =
  ti_vid :: string
  ti_signing_key :: "byte list"
  ti_decryption_key :: "byte list"

record tsp_wire =
  tw_crypto :: primitives
  tw_identity :: "mediator_error + tsp_identity"
  tw_resolve :: "string \<Rightarrow> tsp_error + resolved_vid" \<comment> \<open>\<open>DidVidResolver::resolve_did\<close>\<close>
  tw_ephemeral :: "byte list"
  tw_utf8_error :: "byte list \<Rightarrow> string" \<comment> \<open>text of a \<open>Utf8Error\<close>\<close>
  tw_cesr_text :: "cesr_error \<Rightarrow> string"
  tw_url_default_port :: "string \<Rightarrow> (string \<times> nat) option" \<comment> \<open>host and port, known defaults included\<close>

definition tsp_text :: "tsp_wire \<Rightarrow> tsp_error \<Rightarrow> string" where
  "tsp_text tw e = show_tsp_error (tw_cesr_text tw) e"

definition tsp_problem :: "session \<Rightarrow> nat \<Rightarrow> string \<Rightarrow> string \<Rightarrow> nat \<Rightarrow> mediator_error" where
  "tsp_problem session code descriptor message http_status =
     problem code (ss_session_id session) None SorterError ScopeProtocol descriptor message [] http_status"

definition resolve_tsp_vid :: "tsp_wire \<Rightarrow> session \<Rightarrow> string \<Rightarrow> mediator_error + resolved_vid" where
  "resolve_tsp_vid tw session did =
     (case tw_resolve tw did of
        Inr resolved \<Rightarrow> Inr resolved
      | Inl e \<Rightarrow> Inl (problem 58 (ss_session_id session) None SorterError ScopeProtocol ''message.tsp.resolve''
          (''couldn'' @ [CHR 0x27] @ ''t resolve TSP VID: {1}'') [did @ '': '' @ tsp_text tw e] 502))"

section \<open>Delivery\<close>

definition deliver_opaque ::
  "(string \<Rightarrow> string) \<Rightarrow> 's message_store \<Rightarrow> wire \<Rightarrow> tsp_wire \<Rightarrow> message_config \<Rightarrow> flow_env \<Rightarrow> session \<Rightarrow> string \<Rightarrow> string \<Rightarrow> byte list \<Rightarrow>
   's \<Rightarrow> (mediator_error + inbound_message_response) \<times> 's" where
  "deliver_opaque digest ops wi tw cfg env session to_vid from_vid bytes s =
     on_result StoreError (ms_account_exists ops (digest to_vid) s) (\<lambda>exists s.
     require exists (tsp_problem session 58 ''direct_delivery.recipient.unknown''
       ''TSP recipient is not local to this mediator (remote forwarding not yet enabled)'' 404) s (\<lambda>s.
     require (is_ok (check_access_list (ms_access_list_allowed ops) (digest to_vid) (Some (digest from_vid)) s))
       (tsp_problem session 73 ''authorization.access_list.denied'' ''Delivery blocked due to ACLs (access_list denied)'' 403) s (\<lambda>s.
     on_result (\<lambda>e. tsp_problem session 37 ''message.bridge.malformed''
         (''bridged inner is neither a TSP message nor valid UTF-8 text: '' @ e) 400)
       (if is_tsp bytes then Inr (wi_base64_encode wi (text_of bytes)) else ok_or (tw_utf8_error tw bytes) (from_utf8 bytes), s) (\<lambda>encoded s.
     store_response digest ops wi cfg (fl_now env) session
       \<lparr>pr_store_message = True, pr_force_live_delivery = False, pr_forward_message = False,
        pr_data = WrapEnvelope to_vid encoded (wrap_u64 (fl_now env + mo_message_expiry_seconds cfg))\<rparr> no_metadata s))))"

definition deliver_tsp_local ::
  "(string \<Rightarrow> string) \<Rightarrow> 's message_store \<Rightarrow> wire \<Rightarrow> tsp_wire \<Rightarrow> message_config \<Rightarrow> flow_env \<Rightarrow> session \<Rightarrow> byte list \<Rightarrow>
   's \<Rightarrow> (mediator_error + inbound_message_response) \<times> 's" where
  "deliver_tsp_local digest ops wi tw cfg env session bytes s =
     on_result (\<lambda>e. tsp_problem session 37 ''message.tsp.malformed'' (''malformed TSP message: '' @ tsp_text tw e) 400) (meta_parse (tw_crypto tw) bytes, s)
       (\<lambda>meta s. deliver_opaque digest ops wi tw cfg env session (te_receiver meta) (te_sender meta) bytes s)"

definition tsp_endpoint_is_self :: "tsp_wire \<Rightarrow> string \<Rightarrow> (string \<times> nat) list \<Rightarrow> bool" where
  \<comment> \<open>\<open>url::Url::host_str\<close> is ASCII, where \<open>to_lowercase\<close> and \<open>to_ascii_lowercase\<close> agree\<close>
  "tsp_endpoint_is_self tw endpoint_url self_authorities =
     (case tw_url_default_port tw endpoint_url of
        None \<Rightarrow> False
      | Some (host, port) \<Rightarrow> (to_ascii_lowercase host, port) \<in> set self_authorities)"

definition forward_tsp_remote ::
  "(string \<Rightarrow> string) \<Rightarrow> 's message_store \<Rightarrow> wire \<Rightarrow> tsp_wire \<Rightarrow> message_config \<Rightarrow> flow_env \<Rightarrow> session \<Rightarrow> string \<Rightarrow> string \<Rightarrow> byte list \<Rightarrow>
   's \<Rightarrow> (mediator_error + inbound_message_response) \<times> 's" where
  "forward_tsp_remote digest ops wi tw cfg env session next_vid from_vid bytes s =
     on_result id (resolve_tsp_vid tw session next_vid, s) (\<lambda>resolved s.
     case rv_endpoints resolved of
       [] \<Rightarrow> (Inl (tsp_problem session 58 ''message.tsp.no_endpoint''
          (''next hop '' @ next_vid @ '' publishes no TSP transport endpoint'') 404), s)
     | endpoint_url # _ \<Rightarrow>
         require (\<not> tsp_endpoint_is_self tw endpoint_url (mo_self_authorities cfg))
           (tsp_problem session 94 ''protocol.forwarding.loop_detected''
              (''TSP next hop '' @ next_vid @ '' resolves back to this mediator'') 508) s (\<lambda>s.
         on_result (\<lambda>e. tsp_problem session 90 ''message.tsp.forward.enqueue''
             (''couldn'' @ [CHR 0x27] @ ''t enqueue TSP message for remote forwarding: '' @ show_store_error e) 503)
           (ms_forward_queue_enqueue ops
              \<lparr>fe_stream_id = [], fe_message = wi_base64_encode wi (text_of bytes), fe_to_did_hash = digest next_vid,
               fe_from_did_hash = digest from_vid, fe_from_did = from_vid, fe_to_did = next_vid,
               fe_endpoint_url = endpoint_url, fe_received_at_ms = fl_now_ms env, fe_delay_milli = 0,
               fe_expires_at = wrap_u64 (fl_now env + mo_message_expiry_seconds cfg), fe_retry_count = 0, fe_hop_count = 1\<rparr>
              (mo_forward_task_queue cfg) s)
           (\<lambda>_ s. (Inr Forwarded, s))))"

definition forward_to_next ::
  "(string \<Rightarrow> string) \<Rightarrow> 's message_store \<Rightarrow> wire \<Rightarrow> tsp_wire \<Rightarrow> message_config \<Rightarrow> flow_env \<Rightarrow> session \<Rightarrow> string \<Rightarrow> string \<Rightarrow> byte list \<Rightarrow>
   's \<Rightarrow> (mediator_error + inbound_message_response) \<times> 's" where
  "forward_to_next digest ops wi tw cfg env session next_vid from_vid bytes s =
     on_result StoreError (ms_account_exists ops (digest next_vid) s) (\<lambda>exists s.
       if exists then deliver_opaque digest ops wi tw cfg env session next_vid from_vid bytes s
       else forward_tsp_remote digest ops wi tw cfg env session next_vid from_vid bytes s)"

section \<open>The handler\<close>

definition relay_routed ::
  "(string \<Rightarrow> string) \<Rightarrow> 's message_store \<Rightarrow> wire \<Rightarrow> tsp_wire \<Rightarrow> message_config \<Rightarrow> flow_env \<Rightarrow> session \<Rightarrow> tsp_identity \<Rightarrow> string \<Rightarrow> unpacked_message \<Rightarrow>
   's \<Rightarrow> (mediator_error + inbound_message_response) \<times> 's" where
  \<comment> \<open>the branch for a routed layer; \<open>sender\<close>: the sender of the layer\<close>
  "relay_routed digest ops wi tw cfg env session identity sender unpacked s =
     on_result (\<lambda>e. tsp_problem session 37 ''message.tsp.route'' (''malformed TSP route: '' @ tsp_text tw e) 400) (next_hop unpacked, s)
       (\<lambda>step s. case step of
          RouteForward next_vid remaining inner \<Rightarrow>
            if remaining = [] then forward_to_next digest ops wi tw cfg env session next_vid sender inner s
            else on_result id (resolve_tsp_vid tw session next_vid, s) (\<lambda>next_resolved s.
              on_result (\<lambda>e. tsp_problem session 37 ''message.tsp.reseal''
                  (''couldn'' @ [CHR 0x27] @ ''t re-seal routed TSP message: '' @ tsp_text tw e) 500)
                (pack_routed (tw_crypto tw) (tw_ephemeral tw) inner remaining (ti_vid identity) next_vid (ti_signing_key identity)
                   (ti_decryption_key identity) (rv_encryption_key next_resolved), s)
                (\<lambda>resealed s. forward_to_next digest ops wi tw cfg env session next_vid (ti_vid identity) resealed s))
        | RouteDeliver inner \<Rightarrow> deliver_tsp_local digest ops wi tw cfg env session inner s)"

definition handle_inbound_tsp ::
  "(string \<Rightarrow> string) \<Rightarrow> 's message_store \<Rightarrow> wire \<Rightarrow> tsp_wire \<Rightarrow> message_config \<Rightarrow> flow_env \<Rightarrow> session \<Rightarrow> byte list \<Rightarrow>
   's \<Rightarrow> (mediator_error + inbound_message_response) \<times> 's" where
  "handle_inbound_tsp digest ops wi tw cfg env session raw s =
     on_result (\<lambda>e. problem 37 (ss_session_id session) None SorterError ScopeMessage ''message.tsp.malformed''
         ''Malformed TSP message envelope: {1}'' [tsp_text tw e] 400) (meta_parse (tw_crypto tw) raw, s) (\<lambda>meta s.
     if te_receiver meta \<noteq> cf_mediator_did (mo_base cfg) then deliver_tsp_local digest ops wi tw cfg env session raw s
     else
       on_result id (tw_identity tw, s) (\<lambda>identity s.
       on_result id (resolve_tsp_vid tw session (te_sender meta), s) (\<lambda>sender s.
       on_result (\<lambda>e. tsp_problem session 37 ''message.tsp.unpack''
           (''couldn'' @ [CHR 0x27] @ ''t unpack TSP layer addressed to mediator: '' @ tsp_text tw e) 400)
         (unpack (tw_crypto tw) raw (ti_decryption_key identity) (rv_encryption_key sender) (rv_signing_key sender), s)
         (\<lambda>unpacked s. case um_message_type unpacked of
            TspRouted \<Rightarrow> relay_routed digest ops wi tw cfg env session identity (te_sender meta) unpacked s
          | TspNested \<Rightarrow>
              on_result (\<lambda>e. tsp_problem session 37 ''message.tsp.malformed''
                  (''malformed nested inner TSP envelope: '' @ tsp_text tw e) 400) (meta_parse (tw_crypto tw) (um_payload unpacked), s)
                (\<lambda>inner_meta s. forward_to_next digest ops wi tw cfg env session (te_receiver inner_meta) (te_sender meta)
                   (um_payload unpacked) s)
          | _ \<Rightarrow> deliver_tsp_local digest ops wi tw cfg env session raw s))))"

section \<open>Properties\<close>

lemma store_envelope_is_ok:
  "\<exists>r s'. store_response digest ops wi cfg now session
     \<lparr>pr_store_message = True, pr_force_live_delivery = b, pr_forward_message = False, pr_data = WrapEnvelope to_did m ex\<rparr>
     metadata s = (Inr r, s')"
  by (simp add: store_response_def note_stored_def split: prod.split)

text \<open>For a TSP message to another recipient the sender the access list is asked about is the one its cleartext
  envelope claims, and nothing binds it to the session: if the message is delivered for one session it is
  delivered for any other, also when session matching is enforced.\<close>
theorem tsp_sender_unbound:
  assumes "meta_parse (tw_crypto tw) raw = Inr meta" "te_receiver meta \<noteq> cf_mediator_did (mo_base cfg)"
    and "is_ok (fst (handle_inbound_tsp digest ops wi tw cfg env session raw s))"
  shows "is_ok (fst (handle_inbound_tsp digest ops wi tw cfg env other raw s)) \<and>
    (\<exists>s1. ms_account_exists ops (digest (te_receiver meta)) s = (Inr True, s1) \<and>
       ms_access_list_allowed ops (digest (te_receiver meta)) (Some (digest (te_sender meta))) s1)"
proof -
  obtain r s1 where e: "ms_account_exists ops (digest (te_receiver meta)) s = (r, s1)" by fastforce
  have run: "handle_inbound_tsp digest ops wi tw cfg env x raw s = deliver_opaque digest ops wi tw cfg env x (te_receiver meta) (te_sender meta) raw s" for x
    using assms(1,2) by (simp add: handle_inbound_tsp_def deliver_tsp_local_def)
  have c: "r = Inr True" "ms_access_list_allowed ops (digest (te_receiver meta)) (Some (digest (te_sender meta))) s1"
    "is_ok (if is_tsp raw then Inr (wi_base64_encode wi (text_of raw)) else ok_or (tw_utf8_error tw raw) (from_utf8 raw))"
    using assms(3) unfolding run deliver_opaque_def e
    by (cases r; auto simp: require_def check_access_list_def on_result_def split: if_splits sum.splits)+
  then obtain encoded where "(if is_tsp raw then Inr (wi_base64_encode wi (text_of raw)) else ok_or (tw_utf8_error tw raw) (from_utf8 raw)) = Inr encoded"
    by (auto simp: is_ok_iff)
  moreover obtain q s2 where "store_response digest ops wi cfg (fl_now env) other
       \<lparr>pr_store_message = True, pr_force_live_delivery = False, pr_forward_message = False,
        pr_data = WrapEnvelope (te_receiver meta) encoded (wrap_u64 (fl_now env + mo_message_expiry_seconds cfg))\<rparr> no_metadata s1 = (Inr q, s2)"
    using store_envelope_is_ok [of digest ops wi cfg "fl_now env" other False "te_receiver meta" encoded
        "wrap_u64 (fl_now env + mo_message_expiry_seconds cfg)" no_metadata s1] by blast
  ultimately have "is_ok (fst (handle_inbound_tsp digest ops wi tw cfg env other raw s))"
    using c unfolding run deliver_opaque_def e by (simp add: check_access_list_def)
  with c e show ?thesis by simp
qed

text \<open>What the mediator acts on as a relay is authenticated: a message addressed to the mediator is accepted only if it opens
  with the mediator's key and carries a signature, over everything but the signature itself, that verifies under the key
  published for the sender its envelope names.\<close>
theorem tsp_relay_authenticated:
  assumes "meta_parse (tw_crypto tw) raw = Inr meta" "te_receiver meta = cf_mediator_did (mo_base cfg)"
    and "is_ok (fst (handle_inbound_tsp digest ops wi tw cfg env session raw s))"
  shows "\<exists>identity sender m signed sig. tw_identity tw = Inr identity \<and> tw_resolve tw (te_sender meta) = Inr sender \<and>
    unpack (tw_crypto tw) raw (ti_decryption_key identity) (rv_encryption_key sender) (rv_signing_key sender) = Inr m \<and>
    um_sender m = te_sender meta \<and> raw = signed @ encode_signature_frame sig \<and>
    verify (tw_crypto tw) signed sig (rv_signing_key sender) = Inr ()"
proof -
  obtain identity where i: "tw_identity tw = Inr identity" using assms by (cases "tw_identity tw") (auto simp: handle_inbound_tsp_def)
  obtain sender where r: "tw_resolve tw (te_sender meta) = Inr sender"
    using assms i by (cases "tw_resolve tw (te_sender meta)") (auto simp: handle_inbound_tsp_def resolve_tsp_vid_def)
  obtain m where m: "unpack (tw_crypto tw) raw (ti_decryption_key identity) (rv_encryption_key sender) (rv_signing_key sender) = Inr m"
    using assms i r
    by (cases "unpack (tw_crypto tw) raw (ti_decryption_key identity) (rv_encryption_key sender) (rv_signing_key sender)")
      (auto simp: handle_inbound_tsp_def resolve_tsp_vid_def)
  obtain e n sig signed where "envelope_decode raw = Inr (e, n)" "ev_sender e = um_sender m"
    "raw = signed @ encode_signature_frame sig" "verify (tw_crypto tw) signed sig (rv_signing_key sender) = Inr ()"
    by (rule unpack_accepted [OF m]) iprover
  moreover from this have "um_sender m = te_sender meta" using assms(1) by (auto simp: meta_parse_def)
  ultimately show ?thesis using i r m by blast
qed

definition mediator_keys :: "tsp_wire \<Rightarrow> private_vid \<Rightarrow> bool" where
  "mediator_keys tw m \<longleftrightarrow> tw_identity tw = Inr \<lparr>ti_vid = pv_id m, ti_signing_key = pv_signing_key m, ti_decryption_key = pv_decryption_key m\<rparr>"

definition published :: "tsp_wire \<Rightarrow> private_vid \<Rightarrow> bool" where
  "published tw v \<longleftrightarrow> (\<exists>r. tw_resolve tw (pv_id v) = Inr r \<and> rv_signing_key r = pv_verifying_key v \<and> rv_encryption_key r = pv_encryption_key v)"

lemma relay_run:
  assumes "primitives_ok (tw_crypto tw)" "party (tw_crypto tw) a" "party (tw_crypto tw) m" "\<forall>u \<in> set route. party (tw_crypto tw) u"
    and "route \<noteq> []" "length route \<le> MAX_HOPS" "mediator_keys tw m" "pv_id m = cf_mediator_did (mo_base cfg)" "published tw a"
    and "length k = 32" "length inner \<le> 40000000"
  obtains w where "pack_routed (tw_crypto tw) k inner (map pv_id route) (pv_id a) (pv_id m) (pv_signing_key a) (pv_decryption_key a)
      (pv_encryption_key m) = Inr w"
    "meta_parse (tw_crypto tw) w = Inr \<lparr>te_sender = pv_id a, te_receiver = pv_id m, te_message_type = TspDirect, te_sha256 = sha256_bytes (tw_crypto tw) w\<rparr>"
    "\<And>digest ops wi env session s. handle_inbound_tsp digest ops wi tw cfg env session w s = relay_routed digest ops wi tw cfg env session
      \<lparr>ti_vid = pv_id m, ti_signing_key = pv_signing_key m, ti_decryption_key = pv_decryption_key m\<rparr> (pv_id a)
      \<lparr>um_payload = inner, um_hops = map pv_id route, um_sender = pv_id a, um_receiver = pv_id m, um_message_type = TspRouted\<rparr> s"
proof -
  let ?c = "tw_crypto tw"
  let ?um = "\<lparr>um_payload = inner, um_hops = map pv_id route, um_sender = pv_id a, um_receiver = pv_id m, um_message_type = TspRouted\<rparr>"
  obtain w n where w: "pack_routed ?c k inner (map pv_id route) (pv_id a) (pv_id m) (pv_signing_key a) (pv_decryption_key a) (pv_encryption_key m) = Inr w"
    "envelope_decode w = Inr (envelope_new TspDirect (pv_id a) (pv_id m), n)"
    "unpack ?c w (pv_decryption_key m) (pv_encryption_key a) (pv_verifying_key a) = Inr ?um"
    by (rule routed_delivered [OF assms(1-3,10,11,4-6)]) iprover
  obtain ra where ra: "tw_resolve tw (pv_id a) = Inr ra" "rv_signing_key ra = pv_verifying_key a" "rv_encryption_key ra = pv_encryption_key a"
    using assms(9) by (auto simp: published_def)
  have "meta_parse ?c w = Inr \<lparr>te_sender = pv_id a, te_receiver = pv_id m, te_message_type = TspDirect, te_sha256 = sha256_bytes ?c w\<rparr>"
    using w(2) by (simp add: meta_parse_def envelope_new_def)
  moreover from this have "handle_inbound_tsp digest ops wi tw cfg env session w s = relay_routed digest ops wi tw cfg env session
      \<lparr>ti_vid = pv_id m, ti_signing_key = pv_signing_key m, ti_decryption_key = pv_decryption_key m\<rparr> (pv_id a) ?um s" for digest ops wi env session s
    using w(3) ra assms(7,8) by (simp add: handle_inbound_tsp_def mediator_keys_def resolve_tsp_vid_def)
  ultimately show thesis using that w(1) by blast
qed

text \<open>C25. The mediator as a hop: a routed layer that a client packs for the mediator is opened by it; with one hop left the inner
  message goes to that hop unchanged, on behalf of the authenticated client; with more, the mediator seals a new layer, which the next
  hop opens as one of the mediator with the rest of the route and the same inner message.\<close>
theorem tsp_mediator_relays:
  assumes "primitives_ok (tw_crypto tw)" "\<forall>u \<in> set (a # m # v # rest). party (tw_crypto tw) u" "length (v # rest) \<le> MAX_HOPS"
    and "mediator_keys tw m" "pv_id m = cf_mediator_did (mo_base cfg)" "published tw a" "published tw v"
    and "length k = 32" "length (tw_ephemeral tw) = 32" "length inner \<le> 40000000"
  shows "\<exists>w out. pack_routed (tw_crypto tw) k inner (map pv_id (v # rest)) (pv_id a) (pv_id m) (pv_signing_key a) (pv_decryption_key a)
      (pv_encryption_key m) = Inr w \<and>
    handle_inbound_tsp digest ops wi tw cfg env session w s =
      forward_to_next digest ops wi tw cfg env session (pv_id v) (if rest = [] then pv_id a else pv_id m) out s \<and>
    (if rest = [] then out = inner
     else \<forall>B. endpoint_of B v m \<longrightarrow> open_layer (tw_crypto tw) ''routed message'' (pv_id v) out B =
       Inr \<lparr>um_payload = inner, um_hops = map pv_id rest, um_sender = pv_id m, um_receiver = pv_id v, um_message_type = TspRouted\<rparr>)"
proof -
  let ?c = "tw_crypto tw"
  have p: "party ?c a" "party ?c m" "party ?c v" "\<forall>u \<in> set (v # rest). party ?c u" "\<forall>u \<in> set rest. party ?c u" using assms(2) by auto
  have r: "v # rest \<noteq> []" by simp
  obtain w where w: "pack_routed ?c k inner (map pv_id (v # rest)) (pv_id a) (pv_id m) (pv_signing_key a) (pv_decryption_key a) (pv_encryption_key m) = Inr w"
    and run: "handle_inbound_tsp digest ops wi tw cfg env session w s = relay_routed digest ops wi tw cfg env session
      \<lparr>ti_vid = pv_id m, ti_signing_key = pv_signing_key m, ti_decryption_key = pv_decryption_key m\<rparr> (pv_id a)
      \<lparr>um_payload = inner, um_hops = map pv_id (v # rest), um_sender = pv_id a, um_receiver = pv_id m, um_message_type = TspRouted\<rparr> s"
    by (rule relay_run [OF assms(1) p(1,2,4) r assms(3-6,8,10)]) iprover
  show ?thesis
  proof (cases "rest = []")
    case True
    then have "handle_inbound_tsp digest ops wi tw cfg env session w s = forward_to_next digest ops wi tw cfg env session (pv_id v) (pv_id a) inner s"
      unfolding run by (simp add: relay_routed_def next_hop_def next_hop_parts_def)
    then show ?thesis using w True by auto
  next
    case False
    have l: "length rest \<le> MAX_HOPS" using assms(3) by simp
    obtain x where x: "pack_routed ?c (tw_ephemeral tw) inner (map pv_id rest) (pv_id m) (pv_id v) (pv_signing_key m) (pv_decryption_key m) (pv_encryption_key v) = Inr x"
      "\<And>what B. endpoint_of B v m \<Longrightarrow> open_layer ?c what (pv_id v) x B = Inr \<lparr>um_payload = inner, um_hops = map pv_id rest,
         um_sender = pv_id m, um_receiver = pv_id v, um_message_type = TspRouted\<rparr>"
      by (rule routed_delivered [OF assms(1) p(2,3) assms(9,10) p(5) False l]) iprover
    have "handle_inbound_tsp digest ops wi tw cfg env session w s = forward_to_next digest ops wi tw cfg env session (pv_id v) (pv_id m) x s"
      using assms(7) x(1) False unfolding run
      by (auto simp: relay_routed_def next_hop_def next_hop_parts_def published_def resolve_tsp_vid_def)
    then show ?thesis using w x(2) False by auto
  qed
qed

text \<open>The two loop guards disagree on IPv6 literals: the authorities of the mediator hold the bare address, the
  DIDComm guard strips the brackets of the URL's host, the TSP guard does not, so an endpoint that is the
  mediator's own is found by the former and missed by the latter.\<close>
theorem tsp_ipv6_self_missed:
  assumes "wi_url wi uri = Some \<lparr>pu_scheme = ''https'', pu_host = Some (''['' @ host @ '']''), pu_port = Some port\<rparr>"
    and "tw_url_default_port tw uri = Some (''['' @ host @ '']'', port)"
    and "(to_ascii_lowercase host, port) \<in> set auths" "\<forall>(h, p) \<in> set auths. CHR ''['' \<notin> set h"
  shows "uri_points_at_self wi uri auths \<and> \<not> tsp_endpoint_is_self tw uri auths"
proof -
  have "normalize_host (''['' @ host @ '']'') = to_ascii_lowercase host" by (simp add: normalize_host_def)
  moreover have "CHR ''['' \<in> set (to_ascii_lowercase (''['' @ host @ '']''))"
    by (simp add: to_ascii_lowercase_def ascii_lower_def Let_def)
  ultimately show ?thesis
    using assms by (auto simp: uri_points_at_self_def default_port_for_def tsp_endpoint_is_self_def)
qed

definition sample_tsp :: tsp_wire where
  "sample_tsp = \<lparr>tw_crypto = sample_primitives,
     tw_identity = Inr \<lparr>ti_vid = ''did:c'', ti_signing_key = replicate 32 3, ti_decryption_key = replicate 32 4\<rparr>,
     tw_resolve = (\<lambda>v. Inr (to_resolved (sample_vid v (if v = ''did:a'' then 1 else 2)))), tw_ephemeral = replicate 32 9,
     tw_utf8_error = (\<lambda>_. ''invalid utf-8''), tw_cesr_text = (\<lambda>_. []),
     tw_url_default_port = (\<lambda>u. if u = ''https://[::1]:7037/'' then Some (''[::1]'', 7037) else None)\<rparr>"

theorem tsp_ipv6_self_missed_witness:
  "uri_points_at_self \<lparr>wi_envelope = (\<lambda>_. Inl []), wi_resolve = (\<lambda>_. Inl []), wi_pack_encrypted = (\<lambda>m d f. Inl []),
       wi_url = (\<lambda>_. Some \<lparr>pu_scheme = ''https'', pu_host = Some ''[::1]'', pu_port = Some 7037\<rparr>),
       wi_base64_encode = (\<lambda>t. t), wi_base64_decode = Inr\<rparr> ''https://[::1]:7037/'' [(''::1'', 7037)] \<and>
   \<not> tsp_endpoint_is_self sample_tsp ''https://[::1]:7037/'' [(''::1'', 7037)]"
proof (rule tsp_ipv6_self_missed [where host = "''::1''" and port = 7037])
  show "(to_ascii_lowercase ''::1'', 7037 :: nat) \<in> set [(''::1'', 7037)]" by code_simp
qed (simp_all add: sample_tsp_def)

definition tsp_world :: world where
  "tsp_world = \<lparr>wo_store = snd (account_add ''did:b'' (case from_string_ruleset ''ALLOW_ALL'' of Inr a \<Rightarrow> a | Inl _ \<Rightarrow> default_acl_set)
     None empty_state), wo_channels = [], wo_published = []\<rparr>"

definition tsp_config :: message_config where
  "tsp_config = \<lparr>mo_base = \<lparr>cf_mediator_did = ''did:c'', cf_mediator_did_hash = ''did:c'', cf_admin_did = ''did:r'',
       cf_admin_messages_expiry = 1, cf_block_remote_admin_msgs = False, cf_mediator_acl_mode = ExplicitDeny,
       cf_global_acl_default = default_acl_set, cf_access_list_limit = 10, cf_queued_send_messages_hard = 10,
       cf_queued_receive_messages_hard = 10\<rparr>, mo_to_recipients = 5, mo_message_expiry_seconds = 1000,
     mo_attachments_max_count = 5, mo_forward_task_queue = 5, mo_queued_send_messages_soft = 10,
     mo_queued_receive_messages_soft = 10, mo_force_session_did_match = True, mo_block_anonymous_outer_envelope = True,
     mo_local_direct_delivery_allowed = True, mo_local_direct_delivery_allow_anon = False, mo_external_forwarding = False,
     mo_future_time_limit = 10, mo_relay_mode = Blind, mo_relay_trusted_mediators = [], mo_max_hops = 3,
     mo_self_authorities = []\<rparr>"

definition sample_wire :: wire where
  "sample_wire = \<lparr>wi_envelope = (\<lambda>_. Inl []), wi_resolve = (\<lambda>_. Inl []), wi_pack_encrypted = (\<lambda>m d f. Inl []), wi_url = (\<lambda>_. None),
     wi_base64_encode = (\<lambda>t. t), wi_base64_decode = Inr\<rparr>"

definition run_tsp :: "session \<Rightarrow> byte list \<Rightarrow> world \<Rightarrow> (mediator_error + inbound_message_response) \<times> world" where
  "run_tsp session = handle_inbound_tsp (\<lambda>b. b) (memory_world (\<lambda>b. b) \<lparr>sk_ms = 7, sk_secs = 7\<rparr>) sample_wire sample_tsp tsp_config \<lparr>fl_now = 7, fl_now_ms = 7000, fl_uuid = []\<rparr>
     session"

lemma sample_packed:
  obtains w where "meta_parse sample_primitives w =
      Inr \<lparr>te_sender = ''did:a'', te_receiver = ''did:b'', te_message_type = TspDirect, te_sha256 = sha256_bytes sample_primitives w\<rparr>" "is_tsp w"
proof -
  have u: "utf8_valid (bytes_of ''did:a'')" "utf8_valid (bytes_of ''did:b'')" by code_simp+
  have p: "packable [1, 2, 3] TspDirect [] ''did:a'' ''did:b''" using u by (intro packable_small) (auto simp: vid_ok_def)
  obtain w n where "envelope_decode w = Inr (envelope_new TspDirect ''did:a'' ''did:b'', n)" "is_tsp w \<longleftrightarrow> n \<le> 12288"
      "n \<le> length ''did:a'' + length ''did:b'' + 31"
    by (rule pack_unpack [OF sample_primitives_ok p length_replicate length_replicate length_replicate length_replicate, of 1 2 3 4]) iprover
  then show thesis using that [of w] by (auto simp: meta_parse_def envelope_new_def)
qed

lemma sample_delivers:
  assumes "is_tsp bytes \<or> utf8_valid bytes"
  shows "is_ok (fst (deliver_opaque (\<lambda>b. b) (memory_world (\<lambda>b. b) \<lparr>sk_ms = 7, sk_secs = 7\<rparr>) sample_wire sample_tsp tsp_config
    \<lparr>fl_now = 7, fl_now_ms = 7000, fl_uuid = []\<rparr> session ''did:b'' sender bytes tsp_world))"
proof -
  have acls: "access_list_allowed_op (case from_string_ruleset ''ALLOW_ALL'' of Inr a \<Rightarrow> a | Inl _ \<Rightarrow> default_acl_set) (Known False)"
    by code_simp
  then show ?thesis using assms
    by (auto simp: deliver_opaque_def tsp_world_def account_exists_def from_utf8_def
        account_add_def Let_def check_access_list_def access_list_allowed_def empty_state_def store_response_def note_stored_def
        stream_and_store_def on_world_ok)
qed

theorem tsp_sender_unbound_witness:
  "\<exists>raw. is_ok (fst (run_tsp (default_session\<lparr>ss_did := ''did:a''\<rparr>) raw tsp_world)) \<and>
   is_ok (fst (run_tsp (default_session\<lparr>ss_did := ''did:mallory''\<rparr>) raw tsp_world))"
proof -
  let ?meta = "\<lambda>w. \<lparr>te_sender = ''did:a'', te_receiver = ''did:b'', te_message_type = TspDirect, te_sha256 = sha256_bytes sample_primitives w\<rparr>"
  obtain w where w: "meta_parse sample_primitives w = Inr (?meta w)" "is_tsp w"
    by (rule sample_packed) iprover
  have p: "meta_parse (tw_crypto sample_tsp) w = Inr (?meta w)" "te_receiver (?meta w) \<noteq> cf_mediator_did (mo_base tsp_config)"
    using w(1) by (simp_all add: sample_tsp_def tsp_config_def)
  have a: "is_ok (fst (run_tsp (default_session\<lparr>ss_did := ''did:a''\<rparr>) w tsp_world))"
    using p w(2) sample_delivers [of w] by (simp add: run_tsp_def handle_inbound_tsp_def deliver_tsp_local_def)
  show ?thesis
    using a tsp_sender_unbound [OF p a [unfolded run_tsp_def]] unfolding run_tsp_def by blast
qed

lemma sample_published:
  "mediator_keys sample_tsp (sample_vid ''did:c'' 3)" "published sample_tsp (sample_vid ''did:a'' 1)" "published sample_tsp (sample_vid ''did:b'' 2)"
  "pv_id (sample_vid v k) = v" "cf_mediator_did (mo_base tsp_config) = ''did:c''" "tw_crypto sample_tsp = sample_primitives"
  by (simp_all add: mediator_keys_def published_def sample_tsp_def sample_vid_def private_vid_from_keys_def to_resolved_def tsp_config_def)

theorem tsp_relay_authenticated_witness:
  "\<exists>raw identity sender m signed sig. is_ok (fst (run_tsp default_session raw tsp_world)) \<and>
    tw_identity sample_tsp = Inr identity \<and> tw_resolve sample_tsp ''did:a'' = Inr sender \<and>
    unpack sample_primitives raw (ti_decryption_key identity) (rv_encryption_key sender) (rv_signing_key sender) = Inr m \<and>
    um_sender m = ''did:a'' \<and> raw = signed @ encode_signature_frame sig \<and> verify sample_primitives signed sig (rv_signing_key sender) = Inr ()"
proof -
  let ?a = "sample_vid ''did:a'' 1" and ?b = "sample_vid ''did:b'' 2" and ?m = "sample_vid ''did:c'' 3"
  have r: "party (tw_crypto sample_tsp) ?a" "party (tw_crypto sample_tsp) ?m" "\<forall>u \<in> set [?b]. party (tw_crypto sample_tsp) u"
    "primitives_ok (tw_crypto sample_tsp)" "[?b] \<noteq> []" "length [?b] \<le> MAX_HOPS" "length ([0x61] :: byte list) \<le> 40000000"
    "pv_id ?m = cf_mediator_did (mo_base tsp_config)"
    by (simp_all add: sample_published sample_party sample_primitives_ok MAX_HOPS_def)
  obtain w where w: "meta_parse (tw_crypto sample_tsp) w = Inr \<lparr>te_sender = pv_id ?a, te_receiver = pv_id ?m, te_message_type = TspDirect,
      te_sha256 = sha256_bytes (tw_crypto sample_tsp) w\<rparr>"
    and run: "\<And>digest (ops :: world message_store) wi env session s. handle_inbound_tsp digest ops wi sample_tsp tsp_config env session w s =
      relay_routed digest ops wi sample_tsp tsp_config env session
        \<lparr>ti_vid = pv_id ?m, ti_signing_key = pv_signing_key ?m, ti_decryption_key = pv_decryption_key ?m\<rparr> (pv_id ?a)
        \<lparr>um_payload = [0x61], um_hops = map pv_id [?b], um_sender = pv_id ?a, um_receiver = pv_id ?m, um_message_type = TspRouted\<rparr> s"
    by (rule relay_run [OF r(4,1-3,5,6) sample_published(1) r(8) sample_published(2) length_replicate r(7), of 7]) iprover
  have "utf8_valid [0x61]" by code_simp
  then have ok: "is_ok (fst (run_tsp default_session w tsp_world))"
    using sample_delivers [of "[0x61]" default_session "''did:a''"] unfolding run_tsp_def run
    by (simp add: relay_routed_def next_hop_def next_hop_parts_def forward_to_next_def sample_published account_exists_def tsp_world_def
        account_add_def Let_def empty_state_def on_world_ok)
  have m: "te_receiver \<lparr>te_sender = pv_id ?a, te_receiver = pv_id ?m, te_message_type = TspDirect, te_sha256 = sha256_bytes (tw_crypto sample_tsp) w\<rparr> =
      cf_mediator_did (mo_base tsp_config)"
    using r(8) by simp
  show ?thesis
    using tsp_relay_authenticated [OF w m ok [unfolded run_tsp_def]] ok by (simp add: sample_published) blast
qed

theorem tsp_mediator_relays_witness:
  "\<exists>w out. pack_routed sample_primitives (replicate 32 7) [0x61] [''did:b''] ''did:a'' ''did:c'' (replicate 32 1) (replicate 32 2) (replicate 32 4) = Inr w \<and>
    run_tsp default_session w tsp_world =
      forward_to_next (\<lambda>b. b) (memory_world (\<lambda>b. b) \<lparr>sk_ms = 7, sk_secs = 7\<rparr>) sample_wire sample_tsp tsp_config
        \<lparr>fl_now = 7, fl_now_ms = 7000, fl_uuid = []\<rparr> default_session ''did:b'' ''did:a'' out tsp_world \<and> out = [0x61]"
proof -
  let ?a = "sample_vid ''did:a'' 1" and ?b = "sample_vid ''did:b'' 2" and ?m = "sample_vid ''did:c'' 3"
  have k: "pv_signing_key ?a = replicate 32 1" "pv_decryption_key ?a = replicate 32 2" "pv_encryption_key ?m = replicate 32 4"
    by (simp_all add: sample_vid_def private_vid_from_keys_def sample_primitives_def)
  have e: "tw_ephemeral sample_tsp = replicate 32 9" by (simp add: sample_tsp_def)
  show ?thesis
    using tsp_mediator_relays [where tw = sample_tsp and a = ?a and m = ?m and v = ?b and rest = "[]" and cfg = tsp_config and k = "replicate 32 7"
        and inner = "[0x61]" and digest = "\<lambda>b. b" and ops = "memory_world (\<lambda>b. b) \<lparr>sk_ms = 7, sk_secs = 7\<rparr>" and wi = sample_wire
        and env = "\<lparr>fl_now = 7, fl_now_ms = 7000, fl_uuid = []\<rparr>" and session = default_session and s = tsp_world]
    by (simp add: sample_published sample_party sample_primitives_ok MAX_HOPS_def run_tsp_def k e)
qed

end
