(* ===== verification/RateLimit.thy ===== *)
theory RateLimit
  imports Prelude
begin

text \<open>
  Which client address a request is rate-limited by (\<open>common/rate_limiter.rs\<close>). Parsing an address and
  membership in a network are other crates: \<open>parse\<close> turns the text of a hop into an address and
  \<open>trusted\<close> says whether an address lies in a trusted proxy network. The token bucket itself is the crate
  \<open>governor\<close>.
\<close>

fun walk_hops :: "(string \<Rightarrow> 'ip option) \<Rightarrow> ('ip \<Rightarrow> bool) \<Rightarrow> 'ip \<Rightarrow> string list \<Rightarrow> 'ip" where
  "walk_hops parse trusted peer [] = peer"
| "walk_hops parse trusted peer (hop # hops) =
     (case parse (trim hop) of
        Some ip \<Rightarrow> if trusted ip then walk_hops parse trusted peer hops else ip
      | None \<Rightarrow> peer)"

definition resolve_client_ip :: "(string \<Rightarrow> 'ip option) \<Rightarrow> ('ip \<Rightarrow> bool) list \<Rightarrow> 'ip \<Rightarrow> string option \<Rightarrow> 'ip" where
  \<comment> \<open>\<open>nets\<close>: membership in each trusted network\<close>
  "resolve_client_ip parse nets peer xff =
     (let trusted = (\<lambda>ip. list_ex (\<lambda>net. net ip) nets) in
      if nets = [] \<or> \<not> trusted peer then peer
      else (case xff of
          None \<Rightarrow> peer
        | Some hops \<Rightarrow> walk_hops parse trusted peer (rev (split_on (CHR '','') hops))))"

lemma walk_hops_append:
  assumes "\<exists>h \<in> set near. case parse (trim h) of Some ip \<Rightarrow> \<not> trusted ip | None \<Rightarrow> True"
  shows "walk_hops parse trusted peer (near @ far) = walk_hops parse trusted peer near"
  using assms by (induction near) (auto split: option.splits)

lemma walk_hops_result:
  "walk_hops parse trusted peer hops = peer \<or>
   (\<exists>h \<in> set hops. parse (trim h) = Some (walk_hops parse trusted peer hops) \<and> \<not> trusted (walk_hops parse trusted peer hops))"
  by (induction hops) (auto split: option.splits)

lemma rev_split_append: "rev (split_on c (a @ c # b)) = rev (split_on c b) @ rev (split_on c a)"
  by (simp add: split_on_append)

text \<open>A client cannot choose the address it is limited by. Without a trusted proxy as its peer the header is
  ignored; with one, whatever was in the header before what the proxies appended plays no part once they appended
  an address that is not a trusted proxy's (or anything malformed), and the outcome is the peer or an
  untrusted address of the header.\<close>
theorem client_ip_not_chosen:
  assumes "\<not> list_ex (\<lambda>net. net peer) nets \<or>
    (\<exists>h \<in> set (split_on (CHR '','') appended). case parse (trim h) of Some ip \<Rightarrow> \<not> list_ex (\<lambda>net. net ip) nets | None \<Rightarrow> True)"
  shows "resolve_client_ip parse nets peer (Some (spoofed @ '','' @ appended)) = resolve_client_ip parse nets peer (Some appended) \<and>
    (let ip = resolve_client_ip parse nets peer (Some (spoofed @ '','' @ appended)) in
       ip = peer \<or> \<not> list_ex (\<lambda>net. net ip) nets \<and> (\<exists>h \<in> set (split_on (CHR '','') appended). parse (trim h) = Some ip))"
proof (cases "list_ex (\<lambda>net. net peer) nets")
  case True
  let ?t = "\<lambda>ip. list_ex (\<lambda>net. net ip) nets"
  have ne: "nets \<noteq> []" using True by auto
  have eq: "walk_hops parse ?t peer (rev (split_on (CHR '','') (spoofed @ CHR '','' # appended))) =
      walk_hops parse ?t peer (rev (split_on (CHR '','') appended))"
    unfolding rev_split_append by (rule walk_hops_append) (use assms True in auto)
  show ?thesis
    using ne True eq walk_hops_result [of parse ?t peer "rev (split_on (CHR '','') appended)"]
    by (auto simp: resolve_client_ip_def Let_def)
qed (simp add: resolve_client_ip_def Let_def)

theorem client_ip_not_chosen_witness:
  "resolve_client_ip (\<lambda>t. if t = [] then None else Some (length t)) [\<lambda>ip. ip = 1] 1 (Some (''xx,'' @ ''yyy, p'')) = 3"
proof -
  let ?parse = "\<lambda>t :: string. if t = [] then None else Some (length t)"
  have items: "split_on (CHR '','') ''yyy, p'' = [''yyy'', '' p'']" by code_simp
  have trims: "trim ''yyy'' = ''yyy''" "trim '' p'' = ''p''" by code_simp+
  have "resolve_client_ip ?parse [\<lambda>ip. ip = 1] 1 (Some (''xx'' @ '','' @ ''yyy, p'')) =
      resolve_client_ip ?parse [\<lambda>ip. ip = 1] 1 (Some ''yyy, p'')"
    using client_ip_not_chosen [of 1 "[\<lambda>ip. ip = 1]" "''yyy, p''" ?parse "''xx''"] by (simp add: items trims)
  then show ?thesis by (simp add: resolve_client_ip_def Let_def items trims)
qed

end
