(* ===== verification/Cesr.thy ===== *)
theory Cesr
  imports CesrTables
begin

text \<open>
  The CESR primitives: \<open>matter.rs\<close>, \<open>indexer.rs\<close> and \<open>counter.rs\<close> of \<open>src/crates/core/affinidi-cesr/src\<close>,
  one record per type, one definition per function. The properties are in \<open>CesrProperties\<close>.
\<close>

section \<open>Matter\<close>

record matter =
  mt_code :: string
  mt_raw :: "byte list"
  mt_sizage :: sizage

definition raw_size_from_sizage :: "sizage \<Rightarrow> nat" where
  "raw_size_from_sizage sz =
     (if sz_fs sz = 0 then 0
      else let total_bytes = sz_fs sz * 3 div 4
           in if sz_hs sz = 1 then total_bytes - 1
              else if sz_hs sz = 2 then total_bytes - 2
              else if sz_hs sz = 4 then total_bytes - 3
              else total_bytes)"

definition matter_new :: "string \<Rightarrow> byte list \<Rightarrow> cesr_error + matter" where
  "matter_new code raw =
     (case matter_sizage code of
        None \<Rightarrow> Inl (UnknownCode code)
      | Some sz \<Rightarrow>
          if sz_fs sz > 0 \<and> length raw \<noteq> raw_size_from_sizage sz
          then Inl (InvalidRawSize (raw_size_from_sizage sz) (length raw))
          else Inr \<lparr>mt_code = code, mt_raw = raw, mt_sizage = sz\<rparr>)"

definition matter_extract_raw :: "b64_codec \<Rightarrow> string \<Rightarrow> sizage \<Rightarrow> nat \<Rightarrow> cesr_error + byte list" where
  "matter_extract_raw b qb64 sz fs =
     and_then (b64_decode b (take fs qb64)) (\<lambda>all_bytes.
       let lead = (if sz_hs sz = 1 then 1 else if sz_hs sz = 2 then 2 else if sz_hs sz = 4 then 3 else 0)
       in if length all_bytes \<le> lead then Inl (InvalidRawSize (lead + 1) (length all_bytes))
          else Inr (drop lead all_bytes))"

definition count_leading_zeros :: "byte list \<Rightarrow> nat \<Rightarrow> nat" where
  "count_leading_zeros data mx = length (takeWhile (\<lambda>x. x = 0) (take mx data))"

definition code_of :: "string \<Rightarrow> (string \<Rightarrow> sizage option) \<Rightarrow> cesr_error + nat \<times> string \<times> sizage" where
  \<comment> \<open>the hard size by the first character, then the code and its sizes\<close>
  "code_of text table =
     (case text of
        [] \<Rightarrow> Inl EmptyInput
      | first_char # _ \<Rightarrow>
          (case hardage first_char of
             None \<Rightarrow> Inl (UnknownCode [first_char])
           | Some hs \<Rightarrow>
               if length text < hs then Inl UnexpectedEnd
               else (case table (take hs text) of
                       None \<Rightarrow> Inl (UnknownCode (take hs text))
                     | Some sz \<Rightarrow> Inr (hs, take hs text, sz))))"

definition matter_from_qb64 :: "b64_codec \<Rightarrow> string \<Rightarrow> cesr_error + matter" where
  "matter_from_qb64 b qb64 =
     (if qb64 = [] then Inl EmptyInput
      else and_then (ensure_ascii qb64) (\<lambda>_. and_then (code_of qb64 matter_sizage) (\<lambda>(hs, code, sz).
        if sz_fs sz > 0
        then if length qb64 < sz_fs sz then Inl UnexpectedEnd
             else and_then (matter_extract_raw b qb64 sz (sz_fs sz))
                    (\<lambda>raw. Inr \<lparr>mt_code = code, mt_raw = raw, mt_sizage = sz\<rparr>)
        else if length qb64 < hs + sz_ss sz then Inl UnexpectedEnd
        else and_then (b64_to_count (take (sz_ss sz) (drop hs qb64))) (\<lambda>count.
          let fs = hs + sz_ss sz + count * 4
          in if length qb64 < fs then Inl UnexpectedEnd
             else and_then (b64_decode b (drop (hs + sz_ss sz) (take fs qb64))) (\<lambda>all_bytes.
               Inr \<lparr>mt_code = code, mt_raw = drop (count_leading_zeros all_bytes 2) all_bytes, mt_sizage = sz\<rparr>)))))"

definition matter_from_qb2 :: "b64_codec \<Rightarrow> byte list \<Rightarrow> cesr_error + matter" where
  "matter_from_qb2 b qb2 =
     (if qb2 = [] then Inl EmptyInput
      else if min (length qb2) 6 < 3 then Inl UnexpectedEnd
      else and_then (code_of (b64_encode b (take (min (length qb2) 6 div 3 * 3) qb2)) matter_sizage) (\<lambda>(hs, code, sz).
        if sz_fs sz > 0
        then let bs = sz_fs sz * 3 div 4
             in if length qb2 < bs then Inl UnexpectedEnd
                else and_then (matter_extract_raw b (b64_encode b (take bs qb2)) sz (sz_fs sz))
                       (\<lambda>raw. Inr \<lparr>mt_code = code, mt_raw = raw, mt_sizage = sz\<rparr>)
        else let header_chars = sz_hs sz + sz_ss sz; header_bytes = header_chars * 3 div 4
             in if length qb2 < header_bytes then Inl UnexpectedEnd
                else and_then (b64_to_count (take (sz_ss sz) (drop (sz_hs sz) (b64_encode b (take header_bytes qb2))))) (\<lambda>count.
                  let fs = header_chars + count * 4; bs = fs * 3 div 4
                  in if length qb2 < bs then Inl UnexpectedEnd
                     else and_then (b64_decode b (drop header_chars (take fs (b64_encode b (take bs qb2))))) (\<lambda>all_bytes.
                       Inr \<lparr>mt_code = code, mt_raw = drop (count_leading_zeros all_bytes 2) all_bytes, mt_sizage = sz\<rparr>))))"

definition compute_lead :: "matter \<Rightarrow> nat" where
  "compute_lead m = lead_bytes (length (mt_raw m))"

definition matter_qb64 :: "b64_codec \<Rightarrow> matter \<Rightarrow> cesr_error + string" where
  "matter_qb64 b m =
     (let sz = mt_sizage m; encoded = b64_encode b (replicate (compute_lead m) 0 @ mt_raw m)
      in if sz_fs sz > 0
         then let cs = sz_fs sz - sz_hs sz
              in if length encoded < cs then Inl (InvalidRawSize cs (length encoded))
                 else Inr (mt_code m @ drop (length encoded - cs) encoded)
         else if length encoded mod 4 \<noteq> 0
         then Inl (Conversion ''padded raw bytes did not produce aligned base64'')
         else and_then (count_to_b64 (length encoded div 4) (sz_ss sz)) (\<lambda>count_b64.
                Inr (mt_code m @ count_b64 @ encoded)))"

definition matter_qb2 :: "b64_codec \<Rightarrow> matter \<Rightarrow> cesr_error + byte list" where
  "matter_qb2 b m = and_then (matter_qb64 b m) (\<lambda>qb64. qb64_to_qb2 b qb64)"

definition matter_full_size :: "matter \<Rightarrow> nat" where
  "matter_full_size m =
     (if sz_fs (mt_sizage m) > 0 then sz_fs (mt_sizage m)
      else sz_hs (mt_sizage m) + sz_ss (mt_sizage m) + (compute_lead m + length (mt_raw m)) div 3 * 4)"

definition matter_full_size_qb2 :: "matter \<Rightarrow> nat" where
  "matter_full_size_qb2 m = matter_full_size m * 3 div 4"

section \<open>Counter\<close>

record counter =
  cn_code :: string
  cn_count :: nat

definition counter_new :: "string \<Rightarrow> nat \<Rightarrow> cesr_error + counter" where
  "counter_new code count =
     (case counter_sizage code of None \<Rightarrow> Inl (UnknownCode code) | Some _ \<Rightarrow> Inr \<lparr>cn_code = code, cn_count = count\<rparr>)"

definition counter_from_qb64 :: "string \<Rightarrow> cesr_error + counter" where
  "counter_from_qb64 qb64 =
     (case qb64 of
        [] \<Rightarrow> Inl EmptyInput
      | first_char # rest \<Rightarrow>
          and_then (ensure_ascii qb64) (\<lambda>_.
          if first_char \<noteq> CHR ''-''
          then Inl (UnknownCode (''counter must start with '' @ [CHR 0x27] @ ''-'' @ [CHR 0x27] @ '', got '' @
                 [CHR 0x27, first_char, CHR 0x27]))
          else (case rest of
              [] \<Rightarrow> Inl UnexpectedEnd
            | second_char # _ \<Rightarrow>
                if second_char = CHR ''0'' \<and> length qb64 < 3 then Inl UnexpectedEnd
                else let ss_start = (if second_char = CHR ''0'' then 3 else 2); code = take ss_start qb64
                     in (case counter_sizage code of
                           None \<Rightarrow> Inl (UnknownCode code)
                         | Some sz \<Rightarrow>
                             if length qb64 < sz_fs sz then Inl UnexpectedEnd
                             else and_then (b64_to_count (drop ss_start (take (sz_fs sz) qb64)))
                                    (\<lambda>count. Inr \<lparr>cn_code = code, cn_count = count\<rparr>)))))"

definition counter_qb64 :: "counter \<Rightarrow> cesr_error + string" where
  "counter_qb64 c =
     (case counter_sizage (cn_code c) of
        None \<Rightarrow> Inl (UnknownCode (cn_code c))
      | Some sz \<Rightarrow> and_then (count_to_b64 (cn_count c) (sz_ss sz)) (\<lambda>count_b64. Inr (cn_code c @ count_b64)))"

definition counter_full_size :: "counter \<Rightarrow> nat option" where
  \<comment> \<open>\<open>None\<close>: \<open>unwrap\<close> panics\<close>
  "counter_full_size c = map_option sz_fs (counter_sizage (cn_code c))"

section \<open>Indexer\<close>

record indexer =
  ix_code :: string
  ix_index :: nat
  ix_ondex :: "nat option"
  ix_raw :: "byte list"

definition is_current_only :: "string \<Rightarrow> bool" where
  "is_current_only code \<longleftrightarrow> code \<in> {''A'', ''C'', ''E'', ''2A'', ''2C'', ''2E'', ''3A''}"

definition raw_size_from_code :: "string \<Rightarrow> cesr_error + nat" where
  "raw_size_from_code code =
     (if code \<in> {''A'', ''B'', ''C'', ''D'', ''E'', ''F''} then Inr 64
      else if code \<in> {''2A'', ''2B'', ''2C'', ''2D'', ''2E'', ''2F''} then Inr 64
      else if code \<in> {''3A'', ''3B''} then Inr 114
      else Inl (UnknownCode code))"

definition indexer_new :: "string \<Rightarrow> nat \<Rightarrow> nat option \<Rightarrow> byte list \<Rightarrow> cesr_error + indexer" where
  "indexer_new code index ondex raw =
     (case indexer_sizage code of
        None \<Rightarrow> Inl (UnknownCode code)
      | Some _ \<Rightarrow> and_then (raw_size_from_code code) (\<lambda>expected_raw.
          if length raw \<noteq> expected_raw then Inl (InvalidRawSize expected_raw (length raw))
          else Inr \<lparr>ix_code = code, ix_index = index, ix_ondex = (if is_current_only code then None else ondex), ix_raw = raw\<rparr>))"

definition indexer_extract_raw :: "b64_codec \<Rightarrow> string \<Rightarrow> sizage \<Rightarrow> cesr_error + byte list" where
  "indexer_extract_raw b qb64 sz =
     and_then (b64_decode b (take (sz_fs sz) qb64)) (\<lambda>all_bytes.
     and_then (raw_size_from_code (take (sz_hs sz) qb64)) (\<lambda>raw_size.
       if length all_bytes < raw_size then Inl (InvalidRawSize raw_size (length all_bytes))
       else Inr (drop (length all_bytes - raw_size) all_bytes)))"

definition indexer_from_qb64_big :: "b64_codec \<Rightarrow> string \<Rightarrow> sizage \<Rightarrow> string \<Rightarrow> nat \<Rightarrow> nat \<Rightarrow> cesr_error + indexer" where
  "indexer_from_qb64_big b code sz qb64 index ondex =
     and_then (indexer_extract_raw b qb64 sz)
       (\<lambda>raw. Inr \<lparr>ix_code = code, ix_index = index, ix_ondex = Some ondex, ix_raw = raw\<rparr>)"

definition indexer_from_qb64 :: "b64_codec \<Rightarrow> string \<Rightarrow> cesr_error + indexer" where
  "indexer_from_qb64 b qb64 =
     (if qb64 = [] then Inl EmptyInput
      else and_then (ensure_ascii qb64) (\<lambda>_. and_then (code_of qb64 indexer_sizage) (\<lambda>(hs, code, sz).
        if length qb64 < sz_fs sz then Inl UnexpectedEnd
        else let ss = sz_ss sz; soft = take ss (drop hs qb64)
          in and_then (b64_to_count soft) (\<lambda>index.
             if sz_hs sz \<ge> 2 \<and> \<not> is_current_only code
             then and_then (b64_to_count (take (ss div 2) soft)) (\<lambda>index_val.
                  and_then (b64_to_count (drop (ss div 2) soft)) (\<lambda>ondex_val.
                  indexer_from_qb64_big b code sz qb64 index_val ondex_val))
             else and_then (indexer_extract_raw b qb64 sz) (\<lambda>raw.
                  Inr \<lparr>ix_code = code, ix_index = index,
                       ix_ondex = (if is_current_only code then None else Some index), ix_raw = raw\<rparr>)))))"

definition indexer_qb64 :: "b64_codec \<Rightarrow> indexer \<Rightarrow> cesr_error + string" where
  "indexer_qb64 b i =
     (case indexer_sizage (ix_code i) of
        None \<Rightarrow> Inl (UnknownCode (ix_code i))
      | Some sz \<Rightarrow>
          let ss = sz_ss sz
          in and_then
               (case (2 \<le> sz_hs sz, ix_ondex i) of
                  (True, Some ondex) \<Rightarrow>
                    and_then (count_to_b64 (ix_index i) (ss div 2)) (\<lambda>idx_str.
                    and_then (count_to_b64 ondex (ss div 2)) (\<lambda>ondex_str. Inr (idx_str @ ondex_str)))
                | _ \<Rightarrow> count_to_b64 (ix_index i) ss) (\<lambda>index_b64.
             let encoded = b64_encode b (replicate (lead_bytes (length (ix_raw i))) 0 @ ix_raw i);
                 raw_chars = sz_fs sz - sz_hs sz - sz_ss sz
             in if length encoded < raw_chars then Inl (InvalidRawSize raw_chars (length encoded))
                else Inr (ix_code i @ index_b64 @ drop (length encoded - raw_chars) encoded)))"

end
