(* ===== verification/CesrProperties.thy ===== *)
theory CesrProperties
  imports Cesr
begin

text \<open>
  Round trips of the CESR primitives. \<open>groups_index\<close> and \<open>groups_decode\<close> are base64 on whole groups, as
  numbers below 64; \<open>rfc4648\<close> says that the codec agrees with them. Everything else is about how the
  code characters, the count and the lead bytes share the groups with the raw bytes.
\<close>

section \<open>Base64 on whole groups\<close>

fun groups_index :: "byte list \<Rightarrow> nat list" where
  "groups_index (x # y # z # r) =
     (let v = unat x * 65536 + unat y * 256 + unat z
      in [v div 262144, v div 4096 mod 64, v div 64 mod 64, v mod 64]) @ groups_index r"
| "groups_index _ = []"

fun groups_decode :: "nat list \<Rightarrow> byte list" where
  "groups_decode (i # j # k # l # r) =
     (let v = i * 262144 + j * 4096 + k * 64 + l
      in [word_of_nat (v div 65536), word_of_nat (v div 256), word_of_nat v]) @ groups_decode r"
| "groups_decode _ = []"

definition rfc4648 :: "b64_codec \<Rightarrow> bool" where
  "rfc4648 b \<longleftrightarrow>
     (\<forall>data. length data mod 3 = 0 \<longrightarrow> b64_encode b data = map ((!) b64_chars) (groups_index data)) \<and>
     (\<forall>s. length s mod 4 = 0 \<and> list_all is_b64_char s \<longrightarrow> b64_decode_vec b s = Inr (groups_decode (map (the \<circ> b64_index) s)))"

lemma alphabet: "list_all (\<lambda>i. b64_index (b64_chars ! i) = Some i \<and> (of_char (b64_chars ! i) :: nat) < 128) [0..<64]"
  by code_simp

lemma b64_index_char: "i < 64 \<Longrightarrow> b64_index (b64_chars ! i) = Some i" "i < 64 \<Longrightarrow> (of_char (b64_chars ! i) :: nat) < 128"
  using alphabet by (simp_all add: list_all_iff)

lemma length_b64_chars: "length b64_chars = 64" by (simp add: b64_chars_def)

lemma b64_index_Some: "b64_index c = Some i \<Longrightarrow> i < 64 \<and> c = b64_chars ! i"
  unfolding b64_index_def by (drule map_of_SomeD) (auto simp: set_zip length_b64_chars)

lemma three_cases: "length xs mod 3 = 0 \<Longrightarrow> xs = [] \<or> (\<exists>x y z r. xs = x # y # z # r \<and> length r mod 3 = 0)"
  by (cases xs; cases "tl xs"; cases "tl (tl xs)") (auto simp: mod_Suc split: if_splits)

lemma four_cases: "length xs mod 4 = 0 \<Longrightarrow> xs = [] \<or> (\<exists>x y z u r. xs = x # y # z # u # r \<and> length r mod 4 = 0)"
  by (cases xs; cases "tl xs"; cases "tl (tl xs)"; cases "tl (tl (tl xs))") (auto simp: mod_Suc split: if_splits)

lemma three_induct [consumes 1, case_names Nil group]:
  assumes "length xs mod 3 = 0" "P []"
    and "\<And>x y z r. length r mod 3 = 0 \<Longrightarrow> P r \<Longrightarrow> P (x # y # z # r)"
  shows "P xs"
  using assms(1)
proof (induction "length xs" arbitrary: xs rule: less_induct)
  case less
  from three_cases [OF less.prems] show ?case
    using assms(2,3) less.hyps by fastforce
qed

lemma four_induct [consumes 1, case_names Nil group]:
  assumes "length xs mod 4 = 0" "P []"
    and "\<And>x y z u r. length r mod 4 = 0 \<Longrightarrow> P r \<Longrightarrow> P (x # y # z # u # r)"
  shows "P xs"
  using assms(1)
proof (induction "length xs" arbitrary: xs rule: less_induct)
  case less
  from four_cases [OF less.prems] show ?case
    using assms(2,3) less.hyps by fastforce
qed

lemma length_groups_index: "length xs mod 3 = 0 \<Longrightarrow> length (groups_index xs) = length xs div 3 * 4"
  by (induction xs rule: three_induct) (simp_all add: Let_def div_add_self1)

lemma length_groups_decode: "length xs mod 4 = 0 \<Longrightarrow> length (groups_decode xs) = length xs div 4 * 3"
  by (induction xs rule: four_induct) (simp_all add: Let_def div_add_self1)

lemma unat_byte: "unat (x :: byte) < 256"
  using unsigned_less [of x] by simp

lemma groups_index_less: "\<forall>i \<in> set (groups_index xs). i < 64"
proof (induction xs rule: groups_index.induct)
  case (1 x y z r)
  have "unat x * 65536 + unat y * 256 + unat z < 16777216"
    using unat_byte [of x] unat_byte [of y] unat_byte [of z] by linarith
  with 1 show ?case by (auto simp: Let_def)
qed simp_all

lemma word_of_nat_byte: "word_of_nat n = (word_of_nat (n mod 256) :: byte)"
  by (simp add: word_of_nat_eq_iff take_bit_eq_mod)

lemma unat_word_of_nat_byte: "unat (word_of_nat n :: byte) = n mod 256"
  by (simp add: unat_of_nat)

lemma six_bits: "(v div 262144) * 262144 + (v div 4096 mod 64) * 4096 + (v div 64 mod 64) * 64 + v mod 64 = (v :: nat)"
proof -
  have d: "v div 4096 = v div 64 div 64" "v div 262144 = v div 64 div 64 div 64" by (simp_all add: div_mult2_eq)
  show ?thesis
    unfolding d using div_mult_mod_eq [of v 64] div_mult_mod_eq [of "v div 64" 64]
      div_mult_mod_eq [of "v div 64 div 64" 64] by linarith
qed

lemma digit: "l < b \<Longrightarrow> (q * b + l) div b = q" "l < b \<Longrightarrow> (q * b + l) mod b = (l :: nat)"
  by simp_all

lemma six_bits_unique:
  fixes i j k l :: nat
  assumes "i < 64" "j < 64" "k < 64" "l < 64" and v: "v = i * 262144 + j * 4096 + k * 64 + l"
  shows "v div 262144 = i" "v div 4096 mod 64 = j" "v div 64 mod 64 = k" "v mod 64 = l"
proof -
  have e: "v = ((i * 64 + j) * 64 + k) * 64 + l" using v by simp
  have d: "v div 64 = (i * 64 + j) * 64 + k" "v mod 64 = l" unfolding e by (rule digit [OF assms(4)])+
  have d2: "v div 4096 = i * 64 + j"
    using div_mult2_eq [of v 64 64] digit(1) [OF assms(3), of "i * 64 + j"] unfolding d by simp
  have "v div 262144 = i"
    using div_mult2_eq [of v 4096 64] digit(1) [OF assms(2), of i] unfolding d2 by simp
  then show "v div 262144 = i" "v div 4096 mod 64 = j" "v div 64 mod 64 = k" "v mod 64 = l"
    unfolding d d2 by (simp_all only: digit [OF assms(2)] digit [OF assms(3)])
qed

lemma eight_bits:
  fixes x y z :: byte
  assumes v: "v = unat x * 65536 + unat y * 256 + unat z"
  shows "word_of_nat (v div 65536) = x" "word_of_nat (v div 256) = y" "word_of_nat v = z"
proof -
  have e: "v = (unat x * 256 + unat y) * 256 + unat z" using v by simp
  have d: "v div 256 = unat x * 256 + unat y" "v mod 256 = unat z" unfolding e by (rule digit [OF unat_byte])+
  have "v div 65536 = unat x"
    using div_mult2_eq [of v 256 256] digit(1) [OF unat_byte, of "unat x" y] unfolding d by simp
  then show "word_of_nat (v div 65536) = x" by simp
  show "word_of_nat (v div 256) = y"
    unfolding d by (subst word_of_nat_byte) (simp only: digit [OF unat_byte], simp)
  show "word_of_nat v = z" by (subst word_of_nat_byte) (simp add: d)
qed

lemma groups_index_group:
  "v = unat x * 65536 + unat y * 256 + unat z \<Longrightarrow>
   groups_index (x # y # z # r) = v div 262144 # v div 4096 mod 64 # v div 64 mod 64 # v mod 64 # groups_index r"
  by (simp only: groups_index.simps Let_def append.simps)

lemma groups_decode_group:
  "v = i * 262144 + j * 4096 + k * 64 + l \<Longrightarrow>
   groups_decode (i # j # k # l # r) = word_of_nat (v div 65536) # word_of_nat (v div 256) # word_of_nat v # groups_decode r"
  by (simp only: groups_decode.simps Let_def append.simps)

lemma decode_index: "length xs mod 3 = 0 \<Longrightarrow> groups_decode (groups_index xs) = xs"
proof (induction xs rule: three_induct)
  case (group x y z r)
  define v where "v = unat x * 65536 + unat y * 256 + unat z"
  have "groups_decode (groups_index (x # y # z # r)) =
      word_of_nat (v div 65536) # word_of_nat (v div 256) # word_of_nat v # groups_decode (groups_index r)"
    unfolding groups_index_group [OF v_def] by (rule groups_decode_group) (simp only: six_bits)
  with group.IH show ?case by (simp only: eight_bits [OF v_def])
qed simp

lemma byte_groups: "v < 16777216 \<Longrightarrow> (v div 65536 mod 256) * 65536 + (v div 256 mod 256) * 256 + v mod 256 = (v :: nat)"
proof -
  assume "v < 16777216"
  then have "v div 65536 mod 256 = v div 256 div 256" using div_mult2_eq [of v 256 256] by simp
  then show ?thesis using div_mult_mod_eq [of v 256] div_mult_mod_eq [of "v div 256" 256] by linarith
qed

lemma index_decode: "length is mod 4 = 0 \<Longrightarrow> \<forall>i \<in> set is. i < 64 \<Longrightarrow> groups_index (groups_decode is) = is"
proof (induction "is" rule: four_induct)
  case (group i j k l r)
  define v where "v = i * 262144 + j * 4096 + k * 64 + l"
  have less: "i < 64" "j < 64" "k < 64" "l < 64" using group.prems by simp_all
  then have "v < 16777216" unfolding v_def by linarith
  then have "groups_index (groups_decode (i # j # k # l # r)) =
      v div 262144 # v div 4096 mod 64 # v div 64 mod 64 # v mod 64 # groups_index (groups_decode r)"
    unfolding groups_decode_group [OF v_def]
    by (intro groups_index_group) (simp only: unat_word_of_nat_byte byte_groups)
  with group show ?case by (simp only: six_bits_unique [OF less v_def]) simp
qed simp

declare groups_index.simps(1) [simp del] groups_decode.simps(1) [simp del]

section \<open>Texts of the alphabet\<close>

lemma encode_groups:
  "rfc4648 b \<Longrightarrow> length data mod 3 = 0 \<Longrightarrow> b64_encode b data = map ((!) b64_chars) (groups_index data)"
  by (simp add: rfc4648_def)

lemma decode_chars:
  assumes "rfc4648 b" "\<forall>i \<in> set is. i < 64" "length is mod 4 = 0"
  shows "b64_decode b (map ((!) b64_chars) is) = Inr (groups_decode is)"
proof -
  have "list_all is_b64_char (map ((!) b64_chars) is)"
    using assms(2) by (simp add: list_all_iff is_b64_char_def b64_index_char)
  moreover have "map (the \<circ> b64_index) (map ((!) b64_chars) is) = is"
    using assms(2) by (simp add: map_idI b64_index_char)
  ultimately show ?thesis
    using assms(1,3) by (simp add: b64_decode_def rfc4648_def)
qed

lemma ensure_ascii_Inr: "ensure_ascii s = Inr () \<longleftrightarrow> (\<forall>c \<in> set s. (of_char c :: nat) < 128)"
proof (cases "find (\<lambda>i. (of_char (s ! i) :: nat) \<ge> 128) [0..<length s]")
  case None
  then have "\<forall>c \<in> set s. (of_char c :: nat) < 128" by (auto simp: find_None_iff all_set_conv_all_nth not_le)
  with None show ?thesis by (simp add: ensure_ascii_def)
next
  case (Some i)
  then have "i < length s" "(of_char (s ! i) :: nat) \<ge> 128" by (auto simp: find_Some_iff)
  with Some show ?thesis by (auto simp: ensure_ascii_def not_le all_set_conv_all_nth intro!: exI [of _ i])
qed

lemma ascii_chars: "\<forall>i \<in> set is. i < 64 \<Longrightarrow> c \<in> set (map ((!) b64_chars) is) \<Longrightarrow> (of_char c :: nat) < 128"
  by (auto simp: b64_index_char)

lemma alphabet_text: "list_all is_b64_char c \<Longrightarrow> \<exists>is. c = map ((!) b64_chars) is \<and> (\<forall>i \<in> set is. i < 64)"
proof (induction c)
  case (Cons a c)
  then obtain "is" i where "c = map ((!) b64_chars) is" "\<forall>i \<in> set is. i < 64" "b64_index a = Some i"
    by (auto simp: is_b64_char_def)
  then have "a # c = map ((!) b64_chars) (i # is)" "\<forall>j \<in> set (i # is). j < 64"
    using b64_index_Some by auto
  then show ?case by (intro exI [of _ "i # is"] conjI)
qed simp

section \<open>Codes and raw bytes share groups\<close>

lemma shared_one:
  assumes "k < 64" "length raw mod 3 = 2"
  shows "\<exists>a. groups_decode (k # drop 1 (groups_index (0 # raw))) = a # raw"
proof -
  obtain y z r where raw: "raw = y # z # r" "length r mod 3 = 0"
    using three_cases [of "0 # raw"] assms(2) by (auto simp: mod_Suc)
  define v where "v = unat (0 :: byte) * 65536 + unat y * 256 + unat z"
  have v: "v div 262144 = 0" "v < 65536" using unat_byte [of y] unat_byte [of z] by (simp_all add: v_def)
  define w where "w = k * 262144 + v"
  have "w = k * 262144 + (v div 4096 mod 64) * 4096 + (v div 64 mod 64) * 64 + v mod 64"
    using six_bits [of v] v(1) by (simp add: w_def)
  from groups_decode_group [OF this]
  have "groups_decode (k # drop 1 (groups_index (0 # raw))) =
      word_of_nat (w div 65536) # word_of_nat (w div 256) # word_of_nat w # r"
    using raw(2) by (simp add: raw(1) groups_index_group [OF v_def] decode_index)
  moreover have w: "w = k * 1024 * 256 + v" by (simp add: w_def)
  have "w div 256 = k * 4 * 256 + v div 256" unfolding w by (subst div_mult_self3) simp_all
  then have "w div 256 mod 256 = v div 256 mod 256" "w mod 256 = v mod 256"
    unfolding w by (simp_all only: mod_mult_self3)
  then have "(word_of_nat (w div 256) :: byte) = word_of_nat (v div 256)" "(word_of_nat w :: byte) = word_of_nat v"
    by (metis word_of_nat_byte)+
  ultimately show ?thesis using eight_bits(2,3) [OF v_def] raw by simp
qed

lemma shared_two:
  assumes "length raw mod 3 = 1"
  shows "\<exists>a b. groups_decode (k1 # k2 # drop 2 (groups_index (0 # 0 # raw))) = a # b # raw"
proof -
  obtain z r where raw: "raw = z # r" "length r mod 3 = 0"
    using three_cases [of "0 # 0 # raw"] assms by (auto simp: mod_Suc)
  define v where "v = unat (0 :: byte) * 65536 + unat (0 :: byte) * 256 + unat z"
  have v: "v < 256" using unat_byte [of z] by (simp add: v_def)
  then have z: "v div 64 mod 64 * 64 + v mod 64 = v" using six_bits [of v] by simp
  define w where "w = k1 * 262144 + k2 * 4096 + v"
  then have "w = k1 * 262144 + k2 * 4096 + (v div 64 mod 64) * 64 + v mod 64" using z by linarith
  from groups_decode_group [OF this]
  have "groups_decode (k1 # k2 # drop 2 (groups_index (0 # 0 # raw))) =
      word_of_nat (w div 65536) # word_of_nat (w div 256) # word_of_nat w # r"
    using raw(2) by (simp add: raw(1) groups_index_group [OF v_def] decode_index numeral_2_eq_2)
  moreover have w: "w = (k1 * 1024 + k2 * 16) * 256 + v" by (simp add: w_def)
  have "w mod 256 = v mod 256" unfolding w by (rule mod_mult_self3)
  then have "(word_of_nat w :: byte) = word_of_nat v" by (metis word_of_nat_byte)
  ultimately show ?thesis using eight_bits(3) [OF v_def] raw by simp
qed

definition lead_of :: "nat \<Rightarrow> nat" where
  \<comment> \<open>the bytes before the raw ones in the decoded text of a fixed-length code\<close>
  "lead_of hs = (if hs = 4 then 3 else hs)"

lemma shared_groups:
  assumes "hs \<in> {1, 2, 4}" "length ks = hs" "\<forall>k \<in> set ks. k < 64" "(lead_of hs + length raw) mod 3 = 0"
  shows "\<exists>l. length l = lead_of hs \<and>
    groups_decode (ks @ drop (hs mod 4) (groups_index (replicate (hs mod 4) 0 @ raw))) = l @ raw"
proof -
  consider "hs = 1" | "hs = 2" | "hs = 4" using assms(1) by blast
  then show ?thesis
  proof cases
    case 1
    then obtain k where "ks = [k]" "k < 64" using assms(2,3) by (auto simp: length_Suc_conv)
    moreover have "length raw mod 3 = 2" using assms(4) 1 by (simp add: lead_of_def) presburger
    ultimately obtain a where "groups_decode (k # drop 1 (groups_index (0 # raw))) = [a] @ raw"
      using shared_one by fastforce
    with 1 \<open>ks = [k]\<close> show ?thesis by (intro exI [of _ "[a]"]) (simp add: lead_of_def)
  next
    case 2
    then obtain k1 k2 where "ks = [k1, k2]" using assms(2) by (auto simp: length_Suc_conv numeral_2_eq_2)
    moreover have "length raw mod 3 = 1" using assms(4) 2 by (simp add: lead_of_def) presburger
    then obtain a c where "groups_decode (k1 # k2 # drop 2 (groups_index (0 # 0 # raw))) = [a, c] @ raw"
      using shared_two [of raw k1 k2] by fastforce
    moreover have "replicate 2 (0 :: byte) = [0, 0]" by (simp add: numeral_2_eq_2)
    ultimately show ?thesis using 2 by (intro exI [of _ "[a, c]"]) (simp add: lead_of_def)
  next
    case 3
    then obtain i j k l where ks: "ks = [i, j, k, l]" using assms(2) by (auto simp: length_Suc_conv numeral_eq_Suc)
    from 3 assms(4) have "length raw mod 3 = 0" by (simp add: lead_of_def)
    then have "groups_decode (ks @ groups_index raw) = groups_decode ks @ raw" unfolding ks
      by (simp add: decode_index groups_decode_group [OF refl])
    with 3 show ?thesis by (intro exI [of _ "groups_decode ks"]) (simp add: lead_of_def ks groups_decode_group [OF refl])
  qed
qed

section \<open>Counts\<close>

fun count_index :: "nat \<Rightarrow> nat \<Rightarrow> nat list" where
  "count_index 0 r = []"
| "count_index (Suc n) r = count_index n (r div 64) @ [r mod 64]"

lemma count_index_less: "\<forall>i \<in> set (count_index n r). i < 64"
  by (induction n arbitrary: r) auto

lemma length_count_index [simp]: "length (count_index n r) = n"
  by (induction n arbitrary: r) auto

lemma count_chars_index: "count_chars n r = Inr (map ((!) b64_chars) (count_index n r), r div 64 ^ n)"
  by (induction n arbitrary: r) (simp_all add: index_to_b64_char_def and_then_def div_mult2_eq)

lemma count_to_b64_Inr: "count_to_b64 r n = Inr t \<longleftrightarrow> r < 64 ^ n \<and> t = map ((!) b64_chars) (count_index n r)"
  by (auto simp: count_to_b64_def count_chars_index and_then_def div_greater_zero_iff)

lemma count_from_append: "b64_count_from a (xs @ ys) = and_then (b64_count_from a xs) (\<lambda>a. b64_count_from a ys)"
  by (induction xs arbitrary: a) (auto simp: and_then_def split: sum.split)

lemma count_from_index:
  "(a + 1) * 64 ^ n \<le> 18446744073709551616 \<Longrightarrow>
   b64_count_from a (map ((!) b64_chars) (count_index n r)) = Inr (a * 64 ^ n + r mod 64 ^ n)"
proof (induction n arbitrary: r)
  case (Suc n)
  let ?c = "a * 64 ^ n + r div 64 mod 64 ^ n"
  have e: "?c * 64 + r mod 64 = a * 64 ^ Suc n + r mod 64 ^ Suc n"
    using mod_mult2_eq [of r 64 "64 ^ n"] by (simp add: algebra_simps)
  have "r mod 64 ^ Suc n < 64 ^ Suc n" by simp
  then have "a * 64 ^ Suc n + r mod 64 ^ Suc n < 18446744073709551616"
    using Suc.prems unfolding distrib_right by linarith
  moreover have "b64_count_from a (map ((!) b64_chars) (count_index n (r div 64))) = Inr ?c"
    using Suc.prems by (intro Suc.IH) simp
  ultimately show ?case
    using e by (simp add: count_from_append b64_char_to_index_def b64_index_char and_then_def wrap_u64_def del: power_Suc)
qed simp

lemma count_round_trip:
  assumes "r < 64 ^ n" "n \<le> 10" shows "b64_to_count (map ((!) b64_chars) (count_index n r)) = Inr r"
proof -
  have "(64 :: nat) ^ n \<le> 64 ^ 10" by (rule power_increasing [OF assms(2)]) simp
  then show ?thesis using count_from_index [of 0 n r] assms(1) by (simp add: b64_to_count_def)
qed

section \<open>Matter\<close>

definition matter_entry_ok :: "string \<times> sizage \<Rightarrow> bool" where
  "matter_entry_ok e \<longleftrightarrow> (case e of (c, sz) \<Rightarrow>
     length c = sz_hs sz \<and> hardage (hd c) = Some (sz_hs sz) \<and> list_all is_b64_char c \<and>
     (if sz_fs sz > 0
      then sz_hs sz \<in> {1, 2, 4} \<and> sz_ss sz = 0 \<and> sz_fs sz mod 4 = 0 \<and> 8 \<le> sz_fs sz
      else (sz_hs sz, sz_ss sz) \<in> {(2, 2), (4, 4)}))"

lemma matter_entries: "list_all matter_entry_ok matter_table"
  by code_simp

lemma matter_sizage_ok: "matter_sizage code = Some sz \<Longrightarrow> matter_entry_ok (code, sz)"
  using matter_entries by (auto simp: matter_sizage_def list_all_iff dest: map_of_SomeD)

lemma matter_new_Inr:
  "matter_new code raw = Inr m \<longleftrightarrow> (\<exists>sz. matter_sizage code = Some sz \<and> (sz_fs sz > 0 \<longrightarrow> length raw = raw_size_from_sizage sz) \<and>
     m = \<lparr>mt_code = code, mt_raw = raw, mt_sizage = sz\<rparr>)"
  by (auto simp: matter_new_def split: option.split if_splits)

lemma code_of_table:
  assumes "table code = Some sz" "hardage (hd code) = Some (length code)" "code \<noteq> []"
  shows "code_of (code @ u) table = Inr (length code, code, sz)"
  using assms by (cases code) (auto simp: code_of_def)

lemma hardage_range: "hardage c = Some hs \<Longrightarrow> 1 \<le> hs \<and> hs \<le> 4"
  by (auto simp: hardage_def Let_def split: if_splits)

lemma code_of_prefix:
  assumes "4 \<le> length t" "4 \<le> length u" "take 4 t = take 4 u"
  shows "code_of t table = code_of u table"
proof -
  obtain a t' u' where t: "t = a # t'" "u = a # u'"
    using assms by (cases t; cases u) auto
  show ?thesis
  proof (cases "hardage a")
    case (Some hs)
    then have "hs \<le> 4" using hardage_range by blast
    then have "take hs t = take hs u" "hs \<le> length t" "hs \<le> length u"
      using assms by (metis min.absorb1 take_take) (use assms \<open>hs \<le> 4\<close> in linarith)+
    with Some t show ?thesis by (simp only: code_of_def list.case option.case not_less [symmetric] if_False)
  qed (simp add: t code_of_def)
qed

lemma lead_bytes_values: "lead_bytes (3 * q) = 0" "lead_bytes (3 * q + 1) = 2" "lead_bytes (3 * q + 2) = 1"
proof -
  have "3 * q mod 3 = 0" "(3 * q + 1) mod 3 = 1" "(3 * q + 2) mod 3 = 2" by presburger+
  then show "lead_bytes (3 * q) = 0" "lead_bytes (3 * q + 1) = 2" "lead_bytes (3 * q + 2) = 1"
    by (simp_all only: lead_bytes_def) simp_all
qed

lemma three_times: obtains q where "n = 3 * q" | q where "n = 3 * q + 1" | q where "n = 3 * q + (2 :: nat)"
proof -
  have "(\<exists>q. n = 3 * q) \<or> (\<exists>q. n = 3 * q + 1) \<or> (\<exists>q. n = 3 * q + 2)" by presburger
  then show thesis using that by blast
qed

lemma lead_bytes_mod: "(lead_bytes n + n) mod 3 = 0"
proof (cases n rule: three_times)
  case (2 q)
  have "lead_bytes n + n = 3 * (q + 1)" unfolding 2 lead_bytes_values by simp
  then show ?thesis by simp
next
  case (3 q)
  have "lead_bytes n + n = 3 * (q + 1)" unfolding 3 lead_bytes_values by simp
  then show ?thesis by simp
qed (simp add: lead_bytes_values)

lemma lead_bytes_two: "lead_bytes n = 2 \<longleftrightarrow> n mod 3 = 1" "lead_bytes n \<le> 2"
proof -
  show "lead_bytes n \<le> 2" by (simp add: lead_bytes_def less_Suc_eq_le [symmetric])
  show "lead_bytes n = 2 \<longleftrightarrow> n mod 3 = 1"
  proof (cases n rule: three_times)
    case (2 q)
    then show ?thesis using lead_bytes_values(2) [of q] by simp
  next
    case (3 q)
    then show ?thesis using lead_bytes_values(3) [of q] by simp presburger
  qed (simp add: lead_bytes_values)
qed

lemma fixed_sizes:
  assumes "matter_entry_ok (code, sz)" "sz_fs sz > 0" "n = raw_size_from_sizage sz"
  shows "lead_bytes n = sz_hs sz mod 4" "(lead_of (sz_hs sz) + n) mod 3 = 0" "lead_of (sz_hs sz) + n = sz_fs sz * 3 div 4"
    "(sz_hs sz mod 4 + n) div 3 * 4 = sz_fs sz - sz_hs sz + sz_hs sz mod 4" "0 < n"
proof -
  from assms obtain k where "sz_fs sz = 4 * k" "2 \<le> k" and hs: "sz_hs sz = 1 \<or> sz_hs sz = 2 \<or> sz_hs sz = 4"
    by (auto simp: matter_entry_ok_def elim!: dvdE)
  then obtain j where k: "sz_fs sz = 4 * j + 8" by (metis add.commute distrib_left_numeral le_Suc_ex mult_2_right numeral_Bit0)
  have n: "n = 3 * j + 6 - lead_of (sz_hs sz)"
    using assms(3) hs by (auto simp: raw_size_from_sizage_def lead_of_def k)
  have "lead_bytes (3 * j + 5) = 1" "lead_bytes (3 * j + 4) = 2" "lead_bytes (3 * j + 3) = 0"
    using lead_bytes_values [of "j + 1"] by (simp_all add: algebra_simps)
  then show "lead_bytes n = sz_hs sz mod 4" "(lead_of (sz_hs sz) + n) mod 3 = 0" "lead_of (sz_hs sz) + n = sz_fs sz * 3 div 4"
    "(sz_hs sz mod 4 + n) div 3 * 4 = sz_fs sz - sz_hs sz + sz_hs sz mod 4" "0 < n"
    using hs by (auto simp: n k lead_of_def add.commute [of _ "3 * j"])
qed

lemma matter_fixed_text:
  assumes "rfc4648 b" "matter_entry_ok (code, sz)" "sz_fs sz > 0" "length raw = raw_size_from_sizage sz"
  obtains ks "is" l where "code = map ((!) b64_chars) ks" "\<forall>i \<in> set is. i < 64" "length is = sz_fs sz"
    "matter_qb64 b \<lparr>mt_code = code, mt_raw = raw, mt_sizage = sz\<rparr> = Inr (map ((!) b64_chars) is)"
    "take (sz_hs sz) is = ks" "groups_decode is = l @ raw" "length l = lead_of (sz_hs sz)" "length ks = sz_hs sz"
proof -
  have e: "length code = sz_hs sz" "list_all is_b64_char code" "sz_hs sz \<in> {1, 2, 4}" "sz_fs sz \<ge> 8"
    using assms(2,3) by (auto simp: matter_entry_ok_def)
  obtain ks where ks: "code = map ((!) b64_chars) ks" "\<forall>k \<in> set ks. k < 64" "length ks = sz_hs sz"
    using alphabet_text [OF e(2)] e(1) by auto
  note z = fixed_sizes [OF assms(2,3,4)]
  let ?h = "sz_hs sz mod 4"
  let ?g = "groups_index (replicate ?h 0 @ raw)"
  have g: "length ?g = sz_fs sz - sz_hs sz + ?h"
    using z(4) lead_bytes_mod [of "length raw"] z(1) by (subst length_groups_index) simp_all
  obtain l where l: "length l = lead_of (sz_hs sz)" "groups_decode (ks @ drop ?h ?g) = l @ raw"
    using shared_groups [OF e(3) ks(3,2) z(2)] by blast
  have "b64_encode b (replicate ?h 0 @ raw) = map ((!) b64_chars) ?g"
    using lead_bytes_mod [of "length raw"] z(1) by (intro encode_groups assms(1)) simp
  then have "matter_qb64 b \<lparr>mt_code = code, mt_raw = raw, mt_sizage = sz\<rparr> = Inr (map ((!) b64_chars) (ks @ drop ?h ?g))"
    using assms(3) z(1) g ks(1) by (simp add: matter_qb64_def compute_lead_def Let_def drop_map)
  moreover have "length (ks @ drop ?h ?g) = sz_fs sz" using g ks(3) e(3,4) by auto
  moreover have "\<forall>i \<in> set (ks @ drop ?h ?g). i < 64"
    using ks(2) groups_index_less in_set_dropD by fastforce
  ultimately show thesis using that [of ks "ks @ drop ?h ?g" l] ks l by simp
qed

lemma matter_code:
  assumes "matter_sizage code = Some sz"
  shows "code \<noteq> []" "length code = sz_hs sz" "code_of (code @ u) matter_sizage = Inr (sz_hs sz, code, sz)" "sz_hs sz \<le> 4"
proof -
  have "matter_entry_ok (code, sz)" by (rule matter_sizage_ok [OF assms])
  then have e: "length code = sz_hs sz" "hardage (hd code) = Some (sz_hs sz)" by (auto simp: matter_entry_ok_def)
  then have "1 \<le> sz_hs sz" "sz_hs sz \<le> 4" using hardage_range by auto
  then show c: "code \<noteq> []" "length code = sz_hs sz" "sz_hs sz \<le> 4" using e(1) by auto
  show "code_of (code @ u) matter_sizage = Inr (sz_hs sz, code, sz)"
    using code_of_table [of matter_sizage code sz u] assms c(1) e by simp
qed

lemma matter_extract:
  assumes "rfc4648 b" "\<forall>i \<in> set is. i < 64" "length is = sz_fs sz" "sz_fs sz mod 4 = 0" "sz_hs sz \<in> {1, 2, 4}"
    and "groups_decode is = l @ raw" "length l = lead_of (sz_hs sz)" "raw \<noteq> []"
  shows "matter_extract_raw b (map ((!) b64_chars) is @ rest) sz (sz_fs sz) = Inr raw"
  using assms(3-) decode_chars [OF assms(1,2)]
  by (auto simp: matter_extract_raw_def and_then_def lead_of_def Let_def)

lemma fixed_from_qb64:
  assumes "rfc4648 b" "matter_sizage code = Some sz" "sz_fs sz > 0" "length raw = raw_size_from_sizage sz"
    and "\<forall>c \<in> set rest. (of_char c :: nat) < 128" and m: "m = \<lparr>mt_code = code, mt_raw = raw, mt_sizage = sz\<rparr>"
  shows "\<exists>t. matter_qb64 b m = Inr t \<and> length t = sz_fs sz \<and> matter_from_qb64 b (t @ rest) = Inr m"
proof -
  note ok = matter_sizage_ok [OF assms(2)]
  obtain ks "is" l where i: "code = map ((!) b64_chars) ks" "\<forall>i \<in> set is. i < 64" "length is = sz_fs sz"
    "matter_qb64 b m = Inr (map ((!) b64_chars) is)" "take (sz_hs sz) is = ks" "groups_decode is = l @ raw"
    "length l = lead_of (sz_hs sz)"
    using matter_fixed_text [OF assms(1) ok assms(3,4)] m by metis
  let ?t = "map ((!) b64_chars) is"
  have "?t @ rest = code @ drop (sz_hs sz) ?t @ rest"
    using i(1,5) by (metis append.assoc append_take_drop_id take_map)
  then have "code_of (?t @ rest) matter_sizage = Inr (sz_hs sz, code, sz)" using matter_code(3) [OF assms(2)] by (simp only:)
  moreover have "ensure_ascii (?t @ rest) = Inr ()"
    using ascii_chars [OF i(2)] assms(5) unfolding ensure_ascii_Inr by auto
  moreover have "raw \<noteq> []" using fixed_sizes(5) [OF ok assms(3,4)] by auto
  then have "matter_extract_raw b (?t @ rest) sz (sz_fs sz) = Inr raw"
    using ok assms(3) i by (intro matter_extract [OF assms(1) i(2,3)]) (auto simp: matter_entry_ok_def)
  moreover have "?t @ rest \<noteq> []" using i(3) assms(3) by auto
  ultimately have "matter_from_qb64 b (?t @ rest) = Inr m"
    using assms(3) i(3) m by (simp add: matter_from_qb64_def and_then_def)
  with i(3,4) show ?thesis by auto
qed

lemma stripped_raw:
  "l \<le> 2 \<Longrightarrow> drop (count_leading_zeros (replicate l 0 @ raw) 2) (replicate l 0 @ raw) = raw \<longleftrightarrow> l = 2 \<or> raw = [] \<or> hd raw \<noteq> 0"
proof -
  assume "l \<le> 2"
  then consider "l = 0" | "l = 1" | "l = 2" by linarith
  then show ?thesis
  proof cases
    case 1
    then show ?thesis
      by (cases raw; cases "tl raw") (auto simp: count_leading_zeros_def numeral_2_eq_2 dest: arg_cong [where f = length])
  next
    case 2
    then show ?thesis by (cases raw) (auto simp: count_leading_zeros_def numeral_2_eq_2 dest: arg_cong [where f = length])
  next
    case 3
    then show ?thesis by (simp add: count_leading_zeros_def numeral_2_eq_2)
  qed
qed

lemma matter_variable_text:
  assumes "rfc4648 b" "matter_sizage code = Some sz" "sz_fs sz = 0"
  obtains ks where "code = map ((!) b64_chars) ks" "\<forall>i \<in> set ks. i < 64" "length ks = sz_hs sz"
    "(sz_hs sz, sz_ss sz) \<in> {(2, 2), (4, 4)}"
    "\<And>raw t. matter_qb64 b \<lparr>mt_code = code, mt_raw = raw, mt_sizage = sz\<rparr> = Inr t \<longleftrightarrow>
       (lead_bytes (length raw) + length raw) div 3 < 64 ^ sz_ss sz \<and>
       t = map ((!) b64_chars) (ks @ count_index (sz_ss sz) ((lead_bytes (length raw) + length raw) div 3) @
             groups_index (replicate (lead_bytes (length raw)) 0 @ raw))"
proof -
  have ok: "matter_entry_ok (code, sz)" by (rule matter_sizage_ok [OF assms(2)])
  then obtain ks where ks: "code = map ((!) b64_chars) ks" "\<forall>i \<in> set ks. i < 64" "length ks = sz_hs sz"
    using alphabet_text [of code] by (auto simp: matter_entry_ok_def)
  show thesis
  proof (rule that [OF ks])
    show "(sz_hs sz, sz_ss sz) \<in> {(2, 2), (4, 4)}" using ok assms(3) by (auto simp: matter_entry_ok_def)
    fix raw :: "byte list" and t
    let ?p = "replicate (lead_bytes (length raw)) 0 @ raw"
    have n: "length ?p mod 3 = 0" using lead_bytes_mod by simp
    have "length (groups_index ?p) = length ?p div 3 * 4" by (rule length_groups_index [OF n])
    then show "matter_qb64 b \<lparr>mt_code = code, mt_raw = raw, mt_sizage = sz\<rparr> = Inr t \<longleftrightarrow>
       (lead_bytes (length raw) + length raw) div 3 < 64 ^ sz_ss sz \<and>
       t = map ((!) b64_chars) (ks @ count_index (sz_ss sz) ((lead_bytes (length raw) + length raw) div 3) @ groups_index ?p)"
      using assms(3) ks(1) encode_groups [OF assms(1) n]
      by (auto simp: matter_qb64_def compute_lead_def Let_def and_then_Inr count_to_b64_Inr)
  qed
qed

lemma variable_from_qb64:
  assumes "rfc4648 b" "matter_sizage code = Some sz" "sz_fs sz = 0"
    and "matter_qb64 b \<lparr>mt_code = code, mt_raw = raw, mt_sizage = sz\<rparr> = Inr t"
    and "\<forall>c \<in> set rest. (of_char c :: nat) < 128"
  shows "matter_from_qb64 b (t @ rest) = Inr \<lparr>mt_code = code, mt_raw =
     drop (count_leading_zeros (replicate (lead_bytes (length raw)) 0 @ raw) 2) (replicate (lead_bytes (length raw)) 0 @ raw),
     mt_sizage = sz\<rparr>"
proof -
  obtain ks where ks: "code = map ((!) b64_chars) ks" "\<forall>i \<in> set ks. i < 64" "length ks = sz_hs sz"
    and ss: "(sz_hs sz, sz_ss sz) \<in> {(2, 2), (4, 4)}" and encoded: "\<And>raw t. matter_qb64 b \<lparr>mt_code = code, mt_raw = raw, mt_sizage = sz\<rparr> = Inr t \<longleftrightarrow>
       (lead_bytes (length raw) + length raw) div 3 < 64 ^ sz_ss sz \<and>
       t = map ((!) b64_chars) (ks @ count_index (sz_ss sz) ((lead_bytes (length raw) + length raw) div 3) @
             groups_index (replicate (lead_bytes (length raw)) 0 @ raw))"
    by (rule matter_variable_text [OF assms(1-3)]) iprover
  let ?p = "replicate (lead_bytes (length raw)) 0 @ raw"
  let ?n = "(lead_bytes (length raw) + length raw) div 3"
  let ?c = "map ((!) b64_chars) (count_index (sz_ss sz) ?n)" and ?d = "map ((!) b64_chars) (groups_index ?p)"
  have p: "length ?p mod 3 = 0" using lead_bytes_mod by simp
  have t: "t = code @ ?c @ ?d" and n: "?n < 64 ^ sz_ss sz" using assms(4) unfolding encoded by (simp_all add: ks(1))
  have len: "length ?c = sz_ss sz" "length ?d = ?n * 4" "length code = sz_hs sz"
    using length_groups_index [OF p] ks by simp_all
  have "ensure_ascii (t @ rest) = Inr ()"
    using ascii_chars [of "ks @ count_index (sz_ss sz) ?n @ groups_index ?p"] ks(2) count_index_less [of "sz_ss sz" ?n]
      groups_index_less [of ?p] assms(5) unfolding ensure_ascii_Inr t ks(1) map_append [symmetric] set_append by blast
  moreover have "code_of (t @ rest) matter_sizage = Inr (sz_hs sz, code, sz)"
    using matter_code(3) [OF assms(2), of "?c @ ?d @ rest"] by (simp add: t)
  moreover have "b64_to_count ?c = Inr ?n" using count_round_trip [OF n] ss by auto
  moreover have "b64_decode b ?d = Inr ?p"
    using decode_chars [OF assms(1) groups_index_less] length_groups_index [OF p] decode_index [OF p] by simp
  moreover have "take (sz_ss sz) (drop (sz_hs sz) (t @ rest)) = ?c"
    "drop (sz_hs sz + sz_ss sz) (take (sz_hs sz + sz_ss sz + ?n * 4) (t @ rest)) = ?d"
    "length (t @ rest) = sz_hs sz + sz_ss sz + ?n * 4 + length rest"
    using len by (simp_all add: t)
  moreover have "t @ rest \<noteq> []" using t matter_code(1) [OF assms(2)] by simp
  ultimately show ?thesis using assms(3) by (simp add: matter_from_qb64_def and_then_def Let_def)
qed

section \<open>Text and binary domain\<close>

lemma index_take: "groups_index (take (3 * k) xs) = take (4 * k) (groups_index xs)"
proof (induction k arbitrary: xs)
  case (Suc k)
  show ?case
  proof (cases "length xs < 3")
    case True
    then have "groups_index xs = []" by (cases xs; cases "tl xs"; cases "tl (tl xs)") auto
    with True show ?thesis by simp
  next
    case False
    then obtain x y z r where "xs = x # y # z # r" by (cases xs; cases "tl xs"; cases "tl (tl xs)") auto
    moreover have "3 * Suc k = Suc (Suc (Suc (3 * k)))" "4 * Suc k = Suc (Suc (Suc (Suc (4 * k))))" by simp_all
    ultimately show ?thesis using Suc.IH [of r] by (simp only: take_Suc_Cons groups_index_group [OF refl])
  qed
qed simp

lemma code_of_Inr:
  assumes "code_of t matter_sizage = Inr (hs, code, sz)"
  shows "matter_sizage code = Some sz" "hs = sz_hs sz" "matter_entry_ok (code, sz)"
proof -
  show t: "matter_sizage code = Some sz" using assms by (auto simp: code_of_def split: list.splits option.splits if_splits)
  then show "matter_entry_ok (code, sz)" by (rule matter_sizage_ok)
  moreover have "length code = hs" using assms by (auto simp: code_of_def split: list.splits option.splits if_splits)
  ultimately show "hs = sz_hs sz" by (simp add: matter_entry_ok_def)
qed

lemma encode_take:
  assumes "rfc4648 b" "length xs mod 3 = 0" "3 * k \<le> length xs"
  shows "b64_encode b (take (3 * k) xs) = take (4 * k) (b64_encode b xs)"
  using assms encode_groups [OF assms(1), of "take (3 * k) xs"] by (simp add: encode_groups [OF assms(1,2)] index_take take_map)

lemma qb2_code:
  assumes "rfc4648 b" "length qb2 mod 3 = 0" "qb2 \<noteq> []"
  shows "\<not> min (length qb2) 6 < 3" "code_of (b64_encode b (take (min (length qb2) 6 div 3 * 3) qb2)) table = code_of (b64_encode b qb2) table"
proof -
  from assms(2,3) obtain k where k: "length qb2 = 3 * k" "1 \<le> k" by (metis dvdE dvd_eq_mod_eq_0 length_0_conv less_one mult_0_right not_le)
  then show "\<not> min (length qb2) 6 < 3" by simp
  define j where "j = min (length qb2) 6 div 3"
  then have j: "1 \<le> j" "3 * j \<le> length qb2" using k by (auto simp: min_def)
  have e: "b64_encode b (take (j * 3) qb2) = take (4 * j) (b64_encode b qb2)"
    using encode_take [OF assms(1,2) j(2)] by (simp add: mult.commute)
  have "length (b64_encode b qb2) = 4 * k"
    using encode_groups [OF assms(1,2)] length_groups_index [OF assms(2)] k by simp
  with j e k show "code_of (b64_encode b (take (min (length qb2) 6 div 3 * 3) qb2)) table = code_of (b64_encode b qb2) table"
    unfolding j_def [symmetric] by (intro code_of_prefix) (auto simp: min_def)
qed

lemma qb2_text:
  assumes "rfc4648 b" "qb2_to_qb64 b qb2 = Inr t"
  obtains k where "length qb2 mod 3 = 0" "t = b64_encode b qb2" "length qb2 = 3 * k" "length t = 4 * k" "ensure_ascii t = Inr ()"
    "\<forall>j \<le> k. b64_encode b (take (3 * j) qb2) = take (4 * j) t"
proof -
  have m: "length qb2 mod 3 = 0" and t: "t = b64_encode b qb2" using assms(2) by (auto simp: qb2_to_qb64_def split: if_splits)
  then obtain k where k: "length qb2 = 3 * k" by (metis dvdE dvd_eq_mod_eq_0)
  have len: "length t = 4 * k" using t encode_groups [OF assms(1) m] length_groups_index [OF m] k by simp
  have a: "ensure_ascii t = Inr ()"
    using ascii_chars [OF groups_index_less] unfolding t encode_groups [OF assms(1) m] ensure_ascii_Inr by blast
  have tk: "\<forall>j \<le> k. b64_encode b (take (3 * j) qb2) = take (4 * j) t"
    using encode_take [OF assms(1) m] k t by simp
  show ?thesis by (rule that [OF m t k len a tk])
qed

lemma variable_domains_agree:
  assumes "rfc4648 b" "qb2_to_qb64 b qb2 = Inr t" "qb2 \<noteq> []" "code_of t matter_sizage = Inr (hs, code, sz)" "sz_fs sz = 0"
  shows "matter_from_qb2 b qb2 = matter_from_qb64 b t"
proof -
  obtain k where m: "length qb2 mod 3 = 0" and t: "t = b64_encode b qb2" and k: "length qb2 = 3 * k" and len: "length t = 4 * k"
    and a: "ensure_ascii t = Inr ()" and tk: "\<forall>j \<le> k. b64_encode b (take (3 * j) qb2) = take (4 * j) t"
    by (rule qb2_text [OF assms(1,2)])
  note c = qb2_code(1) [OF assms(1) m assms(3)] qb2_code(2) [OF assms(1) m assms(3), where table = matter_sizage, folded t]
  note h = code_of_Inr [OF assms(4)]
  obtain j where j: "sz_hs sz + sz_ss sz = 4 * j" "sz_hs sz = sz_ss sz"
    using h(3) assms(5) by (auto simp: matter_entry_ok_def)
  have b: "4 * n * 3 div 4 = 3 * n" "4 * j + n * 4 = 4 * (j + n)" "\<not> 0 < sz_fs sz" for n using assms(5) by simp_all
  have t0: "t \<noteq> []" using len k assms(3) by auto
  have h1: "take (sz_ss sz) (drop (sz_hs sz) (take (4 * j) t)) = take (sz_ss sz) (drop (sz_hs sz) t)"
    using j(1) by (simp add: take_drop add.commute)
  have run: "matter_from_qb64 b t = (if length t < 4 * j then Inl UnexpectedEnd
      else and_then (b64_to_count (take (sz_ss sz) (drop (sz_hs sz) t))) (\<lambda>n.
        if length t < 4 * (j + n) then Inl UnexpectedEnd
        else and_then (b64_decode b (drop (4 * j) (take (4 * (j + n)) t))) (\<lambda>all_bytes.
          Inr \<lparr>mt_code = code, mt_raw = drop (count_leading_zeros all_bytes 2) all_bytes, mt_sizage = sz\<rparr>)))"
    "matter_from_qb2 b qb2 = (if length qb2 < 3 * j then Inl UnexpectedEnd
      else and_then (b64_to_count (take (sz_ss sz) (drop (sz_hs sz) (b64_encode b (take (3 * j) qb2))))) (\<lambda>n.
        if length qb2 < 3 * (j + n) then Inl UnexpectedEnd
        else and_then (b64_decode b (drop (4 * j) (take (4 * (j + n)) (b64_encode b (take (3 * (j + n)) qb2))))) (\<lambda>all_bytes.
          Inr \<lparr>mt_code = code, mt_raw = drop (count_leading_zeros all_bytes 2) all_bytes, mt_sizage = sz\<rparr>)))"
    by (simp_all only: matter_from_qb64_def matter_from_qb2_def a c assms(4) t0 assms(3) and_then_simps prod.case if_False
        Let_def h(2) j(1) b)
  show ?thesis
  proof (cases "k < j")
    case False
    then have "b64_encode b (take (3 * j) qb2) = take (4 * j) t" using tk by simp
    then show ?thesis using False unfolding run k len
      by (cases "b64_to_count (take (sz_ss sz) (drop (sz_hs sz) t))") (simp_all add: h1 tk del: distrib_left_numeral)
  qed (simp add: run k len)
qed

text \<open>C39. The binary and the text domain agree: parsing an aligned binary stream gives what parsing its text gives,
  the same primitive or the same error.\<close>
theorem cesr_domains_agree:
  assumes "rfc4648 b" "qb2_to_qb64 b qb2 = Inr t"
  shows "matter_from_qb2 b qb2 = matter_from_qb64 b t"
proof (cases "qb2 = []")
  case True
  then show ?thesis using assms encode_groups [OF assms(1), of "[]"]
    by (auto simp: matter_from_qb2_def matter_from_qb64_def qb2_to_qb64_def split: if_splits)
next
  case False
  obtain k where m: "length qb2 mod 3 = 0" and t: "t = b64_encode b qb2" and k: "length qb2 = 3 * k" and len: "length t = 4 * k"
    and a: "ensure_ascii t = Inr ()" and tk: "\<forall>j \<le> k. b64_encode b (take (3 * j) qb2) = take (4 * j) t"
    by (rule qb2_text [OF assms])
  note c = qb2_code(1) [OF assms(1) m False] qb2_code(2) [OF assms(1) m False, where table = matter_sizage, folded t]
  show ?thesis
  proof (cases "code_of t matter_sizage")
    case (Inl e)
    then show ?thesis using a c False len k by (auto simp: matter_from_qb2_def matter_from_qb64_def and_then_def)
  next
    case (Inr x)
    then obtain hs code sz where x: "code_of t matter_sizage = Inr (hs, code, sz)" by (cases x) auto
    show ?thesis
    proof (cases "sz_fs sz > 0")
      case True
      then obtain j where j: "sz_fs sz = 4 * j" using code_of_Inr(3) [OF x] by (auto simp: matter_entry_ok_def elim!: dvdE)
      then show ?thesis
        using True a c x False k len spec [OF tk, of j] by (auto simp: matter_from_qb2_def matter_from_qb64_def and_then_def matter_extract_raw_def)
    qed (use variable_domains_agree [OF assms False x] in simp)
  qed
qed

text \<open>C22. A primitive that can be made can be written unless its count does not fit its code, the text has
  the announced size, and reading it back, whatever ASCII text follows, gives the primitive, with one exception:
  for a variable-length code leading zero bytes of the raw data are taken for padding, so the
  round trip fails exactly when the raw data begins with a zero byte and its length is not one more than a multiple of three.\<close>
theorem cesr_matter_round_trip:
  assumes "rfc4648 b" "matter_new code raw = Inr m" "\<forall>c \<in> set rest. (of_char c :: nat) < 128"
  shows "if sz_fs (mt_sizage m) > 0 \<or> (lead_bytes (length raw) + length raw) div 3 < 64 ^ sz_ss (mt_sizage m)
    then \<exists>t. matter_qb64 b m = Inr t \<and> length t = matter_full_size m \<and>
      (matter_from_qb64 b (t @ rest) = Inr m \<longleftrightarrow>
         sz_fs (mt_sizage m) > 0 \<or> raw = [] \<or> hd raw \<noteq> 0 \<or> length raw mod 3 = 1)
    else \<not> is_ok (matter_qb64 b m)"
proof -
  from assms(2) obtain sz where sz: "matter_sizage code = Some sz" "sz_fs sz > 0 \<longrightarrow> length raw = raw_size_from_sizage sz"
    "m = \<lparr>mt_code = code, mt_raw = raw, mt_sizage = sz\<rparr>" by (auto simp: matter_new_Inr)
  show ?thesis
  proof (cases "sz_fs sz > 0")
    case True
    with fixed_from_qb64 [OF assms(1) sz(1) True _ assms(3) sz(3)] sz show ?thesis by (auto simp: matter_full_size_def)
  next
    case False
    then have fs: "sz_fs sz = 0" by simp
    let ?n = "(lead_bytes (length raw) + length raw) div 3"
    have p: "length (replicate (lead_bytes (length raw)) 0 @ raw) mod 3 = 0" using lead_bytes_mod by simp
    obtain ks where ks: "length ks = sz_hs sz" "\<And>t. matter_qb64 b m = Inr t \<longleftrightarrow> ?n < 64 ^ sz_ss sz \<and>
        t = map ((!) b64_chars) (ks @ count_index (sz_ss sz) ?n @ groups_index (replicate (lead_bytes (length raw)) 0 @ raw))"
      unfolding sz(3) by (rule matter_variable_text [OF assms(1) sz(1) fs]) iprover
    show ?thesis
    proof (cases "?n < 64 ^ sz_ss sz")
      case True
      then obtain t where t: "matter_qb64 b m = Inr t" "length t = sz_hs sz + sz_ss sz + ?n * 4"
        using ks length_groups_index [OF p] by simp
      have "matter_from_qb64 b (t @ rest) = Inr m \<longleftrightarrow> lead_bytes (length raw) = 2 \<or> raw = [] \<or> hd raw \<noteq> 0"
        using variable_from_qb64 [OF assms(1) sz(1) fs _ assms(3), of raw t] t(1) stripped_raw [OF lead_bytes_two(2), of "length raw" raw]
        by (simp add: sz(3))
      with True t fs show ?thesis by (auto simp: sz(3) matter_full_size_def compute_lead_def lead_bytes_two(1))
    next
      case False
      then have "\<not> is_ok (matter_qb64 b m)" using ks(2) by (cases "matter_qb64 b m") auto
      with False fs show ?thesis by (simp add: sz(3))
    qed
  qed
qed

section \<open>Counters and indexed signatures\<close>

definition counter_entry_ok :: "string \<times> sizage \<Rightarrow> bool" where
  "counter_entry_ok e \<longleftrightarrow> (case e of (c, sz) \<Rightarrow>
     list_all is_b64_char c \<and> c ! 0 = CHR ''-'' \<and> length c = sz_hs sz \<and> sz_ss sz \<le> 5 \<and>
     sz_fs sz = sz_hs sz + sz_ss sz \<and> sz_hs sz = (if c ! 1 = CHR ''0'' then 3 else 2))"

lemma counter_entries: "list_all counter_entry_ok counter_table"
  by code_simp

lemma ascii_alphabet: "list_all is_b64_char c \<Longrightarrow> x \<in> set c \<Longrightarrow> (of_char x :: nat) < 128"
  using alphabet_text ascii_chars by blast

text \<open>A counter can be written exactly when its count has no more base-64 digits than its code provides, and then
  reads back as it was, whatever ASCII text follows.\<close>
theorem cesr_counter_round_trip:
  assumes "counter_new code count = Inr c" "\<forall>x \<in> set rest. (of_char x :: nat) < 128"
  shows "\<exists>sz. counter_sizage code = Some sz \<and>
    (if count < 64 ^ sz_ss sz
     then \<exists>t. counter_qb64 c = Inr t \<and> Some (length t) = counter_full_size c \<and> counter_from_qb64 (t @ rest) = Inr c
     else \<not> is_ok (counter_qb64 c))"
proof -
  from assms(1) obtain sz where sz: "counter_sizage code = Some sz" and c: "c = \<lparr>cn_code = code, cn_count = count\<rparr>"
    by (auto simp: counter_new_def split: option.splits)
  have "counter_entry_ok (code, sz)"
    using counter_entries sz by (auto simp: counter_sizage_def list_all_iff dest: map_of_SomeD)
  then have e: "list_all is_b64_char code" "code ! 0 = CHR ''-''" "length code = sz_hs sz" "sz_ss sz \<le> 5"
    "sz_fs sz = sz_hs sz + sz_ss sz" "sz_hs sz = (if code ! 1 = CHR ''0'' then 3 else 2)"
    by (auto simp: counter_entry_ok_def)
  obtain d code' where code: "code = CHR ''-'' # d # code'"
    using e(2,3,6) by (cases code; cases "tl code") (auto split: if_splits)
  show ?thesis
  proof (cases "count < 64 ^ sz_ss sz")
    case True
    let ?d = "map ((!) b64_chars) (count_index (sz_ss sz) count)"
    have q: "counter_qb64 c = Inr (code @ ?d)"
      using True count_to_b64_Inr [of count "sz_ss sz" ?d] by (simp add: counter_qb64_def c sz)
    have "ensure_ascii (code @ ?d @ rest) = Inr ()"
      using ascii_alphabet [OF e(1)] ascii_chars [OF count_index_less] assms(2) unfolding ensure_ascii_Inr set_append by blast
    moreover have "take (sz_hs sz) (code @ ?d @ rest) = code" "drop (sz_hs sz) (take (sz_fs sz) (code @ ?d @ rest)) = ?d"
      using e(3,5) by simp_all
    moreover have "b64_to_count ?d = Inr count" using count_round_trip True e(4) by simp
    ultimately have "counter_from_qb64 (code @ ?d @ rest) = Inr c"
      using e(3,5,6) sz c by (auto simp add: counter_from_qb64_def code and_then_def Let_def split: if_splits)
    with q sz True e show ?thesis by (auto simp: counter_full_size_def c)
  next
    case False
    then have "\<not> is_ok (counter_qb64 c)"
      using count_to_b64_Inr [of count "sz_ss sz"] by (auto simp: counter_qb64_def c sz and_then_def is_ok_def split: sum.split)
    with False sz show ?thesis by auto
  qed
qed

definition indexer_entry_ok :: "string \<times> sizage \<Rightarrow> bool" where
  "indexer_entry_ok e \<longleftrightarrow> (case e of (c, sz) \<Rightarrow>
     list_all is_b64_char c \<and> length c = sz_hs sz \<and>
     (if length c = 1 then sz = sizage_of 1 1 88 \<and> hardage (c ! 0) = Some 1 \<and> raw_size_from_code c = Inr 64
      else length c = 2 \<and> hardage (c ! 0) = Some 4 \<and> sz_ss sz = 4))"

lemma indexer_entries: "list_all indexer_entry_ok indexer_table"
  by code_simp

lemma indexer_sizage_ok: "indexer_sizage code = Some sz \<Longrightarrow> indexer_entry_ok (code, sz)"
  using indexer_entries by (auto simp: indexer_sizage_def list_all_iff dest: map_of_SomeD)

lemma small_indexer_text:
  assumes "rfc4648 b" "length raw = 64" "k < 64" "index < 64"
  obtains "is" a c where "b64_encode b (replicate (lead_bytes (length raw)) 0 @ raw) = map ((!) b64_chars) (groups_index (0 # 0 # raw))"
    "is = k # index # drop 2 (groups_index (0 # 0 # raw))" "length is = 88" "\<forall>i \<in> set is. i < 64" "groups_decode is = a # c # raw"
proof -
  have r: "replicate (lead_bytes (length raw)) 0 @ raw = 0 # 0 # raw"
    using assms(2) by (simp add: lead_bytes_def numeral_2_eq_2)
  have n: "length (0 # 0 # raw) mod 3 = 0" "length (groups_index (0 # 0 # raw)) = 88"
    using assms(2) by (simp_all add: length_groups_index)
  obtain a c where "groups_decode (k # index # drop 2 (groups_index (0 # 0 # raw))) = a # c # raw"
    using shared_two [of raw k index] assms(2) by auto
  moreover have "\<forall>i \<in> set (k # index # drop 2 (groups_index (0 # 0 # raw))). i < 64"
    using assms(3,4) groups_index_less [of "0 # 0 # raw"] by (auto dest: in_set_dropD)
  ultimately show thesis using that r n encode_groups [OF assms(1) n(1)] by simp
qed

lemma indexer_text:
  assumes "indexer_qb64 b i = Inr t" "indexer_sizage (ix_code i) = Some sz" "even (sz_ss sz)"
  shows "\<exists>idx u. t = ix_code i @ idx @ u \<and> length idx = sz_ss sz"
proof -
  define s where "s = (case (2 \<le> sz_hs sz, ix_ondex i) of
      (True, Some ondex) \<Rightarrow> and_then (count_to_b64 (ix_index i) (sz_ss sz div 2)) (\<lambda>idx_str.
        and_then (count_to_b64 ondex (sz_ss sz div 2)) (\<lambda>ondex_str. Inr (idx_str @ ondex_str)))
    | _ \<Rightarrow> count_to_b64 (ix_index i) (sz_ss sz))"
  have "length x = sz_ss sz" if "s = Inr x" for x
    using that assms(3) by (auto simp: s_def and_then_Inr count_to_b64_Inr split: bool.splits option.splits)
  moreover obtain x where "s = Inr x" "\<exists>u. t = ix_code i @ x @ u"
    using assms(1) unfolding indexer_qb64_def assms(2) option.case Let_def s_def [symmetric] and_then_Inr
    by (auto split: if_splits)
  ultimately show ?thesis by blast
qed

lemma big_indexer_unread:
  assumes "indexer_entry_ok (code, sz)" "length code \<noteq> 1" "4 \<le> length (code @ u)"
  shows "\<not> is_ok (indexer_from_qb64 b (code @ u))"
proof -
  have h: "length code = 2" "hardage (code ! 0) = Some 4" using assms(1,2) by (simp_all add: indexer_entry_ok_def)
  then obtain c1 c2 where c: "code = [c1, c2]" "hardage c1 = Some 4"
    by (cases code; cases "tl code") auto
  have "indexer_sizage x = None" if "length x = 4" for x
  proof (rule ccontr)
    assume "indexer_sizage x \<noteq> None"
    then obtain y where "indexer_sizage x = Some y" by blast
    then have "indexer_entry_ok (x, y)" by (rule indexer_sizage_ok)
    with that show False by (auto simp: indexer_entry_ok_def split: if_splits)
  qed
  then have "\<not> is_ok (code_of (code @ u) indexer_sizage)"
    using c assms(3) by (simp add: code_of_def)
  then show ?thesis
    by (cases "code_of (code @ u) indexer_sizage"; cases "ensure_ascii (code @ u)")
      (simp_all add: indexer_from_qb64_def)
qed

text \<open>An indexed signature reads back as it was exactly for the one-character codes, and for those that carry a
  second index only when it equals the first: a different second index is not written, and no text of
  a two-character code can be read, because the hard size of its first character is four.\<close>
theorem cesr_indexer_round_trip:
  assumes "rfc4648 b" "indexer_new code index ondex raw = Inr i" "indexer_qb64 b i = Inr t"
    and "\<forall>c \<in> set rest. (of_char c :: nat) < 128"
  shows "indexer_from_qb64 b (t @ rest) = Inr i \<longleftrightarrow> length code = 1 \<and> (is_current_only code \<or> ondex = Some index)"
proof -
  from assms(2) obtain sz n where sz: "indexer_sizage code = Some sz" "raw_size_from_code code = Inr n" "length raw = n"
    and i: "i = \<lparr>ix_code = code, ix_index = index, ix_ondex = (if is_current_only code then None else ondex), ix_raw = raw\<rparr>"
    by (auto simp: indexer_new_def and_then_Inr split: option.splits if_splits)
  have ok: "indexer_entry_ok (code, sz)" by (rule indexer_sizage_ok [OF sz(1)])
  show ?thesis
  proof (cases "length code = 1")
    case False
    then have "sz_ss sz = 4" "length code = 2" using ok by (auto simp: indexer_entry_ok_def)
    then obtain idx u where t: "t = code @ idx @ u" "length idx = 4"
      using indexer_text [OF assms(3)] sz(1) by (auto simp: i)
    with big_indexer_unread [OF ok False, of "idx @ u @ rest" b] False \<open>length code = 2\<close> show ?thesis
      by (auto simp: is_ok_def)
  next
    case True
    then have s: "sz = sizage_of 1 1 88" "hardage (code ! 0) = Some 1" "raw_size_from_code code = Inr 64" "list_all is_b64_char code"
      using ok unfolding indexer_entry_ok_def prod.case by (simp_all only: simp_thms if_True)
    obtain k where k: "code = [b64_chars ! k]" "k < 64"
      using True alphabet_text [OF s(4)] by (auto simp: length_Suc_conv)
    have raw: "length raw = 64" using sz s(3) by simp
    have q: "and_then (count_to_b64 index 1) (\<lambda>index_b64.
         let encoded = b64_encode b (replicate (lead_bytes (length raw)) 0 @ raw)
         in if length encoded < 86 then Inl (InvalidRawSize 86 (length encoded))
            else Inr (code @ index_b64 @ drop (length encoded - 86) encoded)) = Inr t"
      using assms(3) by (simp add: indexer_qb64_def i sz(1) s(1) sizage_of_def Let_def cong: if_cong)
    then have "index < 64" by (auto simp: and_then_Inr count_to_b64_Inr)
    then obtain "is" a c where "is": "b64_encode b (replicate (lead_bytes (length raw)) 0 @ raw) = map ((!) b64_chars) (groups_index (0 # 0 # raw))"
      "is = k # index # drop 2 (groups_index (0 # 0 # raw))" "length is = 88" "\<forall>i \<in> set is. i < 64" "groups_decode is = a # c # raw"
      using small_indexer_text [OF assms(1) raw k(2)] by metis
    have "length (groups_index (0 # 0 # raw)) = 88" using raw by (simp add: length_groups_index)
    then have t: "t = map ((!) b64_chars) is"
      using q "is"(1,2) k \<open>index < 64\<close> by (auto simp: and_then_Inr count_to_b64_Inr Let_def drop_map)
    have "ensure_ascii (t @ rest) = Inr ()"
      using ascii_chars [OF "is"(4)] assms(4) unfolding ensure_ascii_Inr t set_append by blast
    moreover have "code_of (code @ drop 1 t @ rest) indexer_sizage = Inr (1, code, sz)"
      using code_of_table [of indexer_sizage code sz "drop 1 t @ rest"] sz(1) s(2) k by simp
    then have "code_of (t @ rest) indexer_sizage = Inr (1, code, sz)" using t "is"(2) k by simp
    moreover have "indexer_extract_raw b (t @ rest) sz = Inr raw"
      using decode_chars [OF assms(1) "is"(4)] "is"(2,3,5) s(1,3) raw k(1) t
      by (simp add: indexer_extract_raw_def sizage_of_def and_then_def)
    moreover have "b64_to_count (take 1 (drop 1 (t @ rest))) = Inr index"
      using count_round_trip [of index 1] \<open>index < 64\<close> t "is"(2) by simp
    moreover have "t @ rest \<noteq> []" "88 \<le> length (t @ rest)" using t "is"(3) by auto
    ultimately have "indexer_from_qb64 b (t @ rest) =
        Inr \<lparr>ix_code = code, ix_index = index, ix_ondex = (if is_current_only code then None else Some index), ix_raw = raw\<rparr>"
      by (simp add: indexer_from_qb64_def s(1) sizage_of_def Let_def)
    with True show ?thesis by (auto simp: i)
  qed
qed

section \<open>Instances\<close>

definition group_codec :: b64_codec where
  "group_codec = \<lparr>b64_encode = (\<lambda>data. map ((!) b64_chars) (groups_index data)),
     b64_decode_vec = (\<lambda>s. if length s mod 4 = 0 \<and> list_all is_b64_char s
        then Inr (groups_decode (map (the \<circ> b64_index) s)) else Inl ''invalid'')\<rparr>"

lemma group_codec_rfc4648: "rfc4648 group_codec"
  by (simp add: rfc4648_def group_codec_def)

theorem cesr_domains_agree_witness:
  "\<exists>t. qb2_to_qb64 group_codec [0xe0, 0x10, 0x01, 0x61, 0x62, 0x63] = Inr t \<and>
     matter_from_qb2 group_codec [0xe0, 0x10, 0x01, 0x61, 0x62, 0x63] = matter_from_qb64 group_codec t"
proof -
  obtain t where "qb2_to_qb64 group_codec [0xe0, 0x10, 0x01, 0x61, 0x62, 0x63] = Inr t" by (simp add: qb2_to_qb64_def)
  with cesr_domains_agree [OF group_codec_rfc4648] show ?thesis by blast
qed

theorem cesr_matter_round_trip_witness:
  "\<exists>m t. matter_new ''4B'' [0, 1, 2] = Inr m \<and> matter_qb64 group_codec m = Inr t \<and> matter_from_qb64 group_codec t \<noteq> Inr m"
proof -
  define m where "m = \<lparr>mt_code = ''4B'', mt_raw = [0, 1, 2], mt_sizage = sizage_of 2 2 0\<rparr>"
  have new: "matter_new ''4B'' [0, 1, 2] = Inr m"
    by (simp add: matter_new_def matter_sizage_def matter_table_def m_def sizage_of_def)
  have "\<forall>c \<in> set []. (of_char c :: nat) < 128" by simp
  from cesr_matter_round_trip [OF group_codec_rfc4648 new this] obtain t
    where "matter_qb64 group_codec m = Inr t" "matter_from_qb64 group_codec (t @ []) \<noteq> Inr m"
    by (auto simp: m_def sizage_of_def lead_bytes_def)
  with new show ?thesis by (auto intro!: exI [of _ m])
qed

theorem cesr_counter_round_trip_witness:
  "\<exists>t. counter_qb64 \<lparr>cn_code = ''-A'', cn_count = 1\<rparr> = Inr t \<and>
     counter_from_qb64 (t @ ''0B'') = Inr \<lparr>cn_code = ''-A'', cn_count = 1\<rparr>"
proof -
  have new: "counter_new ''-A'' 1 = Inr \<lparr>cn_code = ''-A'', cn_count = 1\<rparr>"
    and sz: "counter_sizage ''-A'' = Some (sizage_of 2 2 4)"
    by (simp_all add: counter_new_def counter_sizage_def counter_table_def)
  have "\<forall>x \<in> set ''0B''. (of_char x :: nat) < 128" by simp
  from cesr_counter_round_trip [OF new this] sz show ?thesis by (auto simp: sizage_of_def)
qed

theorem cesr_indexer_round_trip_witness:
  "\<exists>i t. indexer_new ''B'' 3 (Some 3) (replicate 64 7) = Inr i \<and> indexer_qb64 group_codec i = Inr t \<and>
     indexer_from_qb64 group_codec (t @ ''-AAB'') = Inr i"
proof -
  define i where "i = \<lparr>ix_code = ''B'', ix_index = 3, ix_ondex = Some 3, ix_raw = replicate 64 (7 :: byte)\<rparr>"
  have new: "indexer_new ''B'' 3 (Some 3) (replicate 64 7) = Inr i"
    by (simp add: indexer_new_def indexer_sizage_def indexer_table_def raw_size_from_code_def is_current_only_def i_def)
  have "count_to_b64 3 1 = Inr ''D''" by code_simp
  moreover have "length (b64_encode group_codec (replicate (lead_bytes 64) 0 @ replicate 64 (7 :: byte))) = 88"
    by (simp add: group_codec_def lead_bytes_def length_groups_index)
  ultimately have "is_ok (indexer_qb64 group_codec i)"
    by (simp add: i_def indexer_qb64_def indexer_sizage_def indexer_table_def sizage_of_def Let_def)
  then obtain t where t: "indexer_qb64 group_codec i = Inr t" by (auto simp: is_ok_iff)
  have "\<forall>c \<in> set ''-AAB''. (of_char c :: nat) < 128" by simp
  from cesr_indexer_round_trip [OF group_codec_rfc4648 new t this] t new show ?thesis by (auto simp: is_current_only_def)
qed

end
