(* ===== verification/StatusList.thy ===== *)
theory StatusList
  imports CesrTables
begin

unbundle bit_operations_syntax

text \<open>
  Credential status: \<open>src/crates/credentials/affinidi-status-list/src\<close> (\<open>bitstring.rs\<close>, \<open>revocation_list.rs\<close>,
  \<open>error.rs\<close>). Random choices are arguments: \<open>allocate_index\<close> takes the number drawn below the number of free
  slots, \<open>add_decoys\<close> the sequence of indices drawn, and \<open>None\<close> when that sequence ends before the loop does.
  Gzip is the crate \<open>flate2\<close>, an argument. The locale \<open>status_registry\<close> is the contract that both kinds
  of list fulfil.
\<close>

section \<open>Data\<close>

datatype status_list_error =
    IndexOutOfBounds nat nat \<comment> \<open>index, size\<close>
  | StatusCompression string
  | StatusEncoding string
  | StatusInvalid string

definition MIN_BITSTRING_SIZE :: nat where "MIN_BITSTRING_SIZE = 131072"
definition DEFAULT_BITSTRING_SIZE :: nat where "DEFAULT_BITSTRING_SIZE = MIN_BITSTRING_SIZE"

datatype status_purpose = Revocation | Suspension

definition show_status_purpose :: "status_purpose \<Rightarrow> string" where
  "show_status_purpose p = (case p of Revocation \<Rightarrow> ''revocation'' | Suspension \<Rightarrow> ''suspension'')"

record bitstring_status_list =
  sl_bits :: "byte list"
  sl_size :: nat
  sl_purpose :: status_purpose
  sl_assigned :: "bool list"

definition div_ceil :: "nat \<Rightarrow> nat \<Rightarrow> nat" where
  "div_ceil a b = (a + b - 1) div b"

section \<open>Bitstring operations\<close>

definition status_list_new :: "nat \<Rightarrow> status_purpose \<Rightarrow> bitstring_status_list" where
  "status_list_new n purpose =
     \<lparr>sl_bits = replicate (div_ceil n 8) 0, sl_size = n, sl_purpose = purpose, sl_assigned = replicate n False\<rparr>"

definition with_default_size :: "status_purpose \<Rightarrow> bitstring_status_list" where
  "with_default_size purpose = status_list_new DEFAULT_BITSTRING_SIZE purpose"

definition available :: "bitstring_status_list \<Rightarrow> nat list" where
  "available l = filter (\<lambda>i. \<not> sl_assigned l ! i) [0..<sl_size l]"

definition allocate_index :: "nat \<Rightarrow> bitstring_status_list \<Rightarrow> nat option \<times> bitstring_status_list" where
  \<comment> \<open>\<open>pick\<close>: the number drawn from \<open>0..available.len()\<close>\<close>
  "allocate_index pick l =
     (if available l = [] then (None, l)
      else let index = available l ! pick
           in (Some index, l\<lparr>sl_assigned := (sl_assigned l)[index := True]\<rparr>))"

definition status_get :: "bitstring_status_list \<Rightarrow> nat \<Rightarrow> status_list_error + bool" where
  "status_get l index =
     (if index \<ge> sl_size l then Inl (IndexOutOfBounds index (sl_size l))
      else let byte_index = index div 8; bit_index = 7 - index mod 8
           in Inr (drop_bit bit_index (sl_bits l ! byte_index) AND 1 = 1))"

definition set_bit_at :: "nat \<Rightarrow> bool \<Rightarrow> byte list \<Rightarrow> byte list" where
  "set_bit_at index b bits =
     (let byte_index = index div 8; bit_index = 7 - index mod 8
      in if b then bits[byte_index := bits ! byte_index OR push_bit bit_index 1]
         else bits[byte_index := bits ! byte_index AND NOT (push_bit bit_index 1)])"

definition status_set :: "nat \<Rightarrow> bool \<Rightarrow> bitstring_status_list \<Rightarrow> (status_list_error + unit) \<times> bitstring_status_list" where
  "status_set index revoked l =
     (if index \<ge> sl_size l then (Inl (IndexOutOfBounds index (sl_size l)), l)
      else (Inr (), l\<lparr>sl_bits := set_bit_at index revoked (sl_bits l), sl_assigned := (sl_assigned l)[index := True]\<rparr>))"

fun add_decoys :: "nat \<Rightarrow> nat list \<Rightarrow> bitstring_status_list \<Rightarrow> bitstring_status_list option" where
  \<comment> \<open>the list: the indices drawn from \<open>0..self.size\<close>; drawing from an empty range panics\<close>
  "add_decoys 0 draws l = Some l"
| "add_decoys (Suc n) [] l = None"
| "add_decoys (Suc n) (index # draws) l =
     (if sl_size l = 0 then None
      else if \<not> sl_assigned l ! index
      then add_decoys n draws
             (l\<lparr>sl_assigned := (sl_assigned l)[index := True], sl_bits := set_bit_at index True (sl_bits l)\<rparr>)
      else add_decoys (Suc n) draws l)"

record gzip_codec =
  gz_compress :: "byte list \<Rightarrow> string + byte list"
  gz_read :: "nat \<Rightarrow> byte list \<Rightarrow> string + byte list" \<comment> \<open>\<open>GzDecoder::new(..).take(limit)\<close>, read to its end\<close>

definition status_encode :: "b64_codec \<Rightarrow> gzip_codec \<Rightarrow> bitstring_status_list \<Rightarrow> status_list_error + string" where
  "status_encode b z l =
     (case gz_compress z (sl_bits l) of
        Inl e \<Rightarrow> Inl (StatusCompression e)
      | Inr compressed \<Rightarrow> Inr (b64_encode b compressed))"

definition status_decode ::
  "b64_codec \<Rightarrow> gzip_codec \<Rightarrow> string \<Rightarrow> nat \<Rightarrow> status_purpose \<Rightarrow> status_list_error + bitstring_status_list" where
  "status_decode b z encoded n purpose =
     (case b64_decode_vec b encoded of
        Inl e \<Rightarrow> Inl (StatusEncoding e)
      | Inr compressed \<Rightarrow>
          let expected_bytes = div_ceil n 8;
              limit = sat_add u64_max expected_bytes 1
          in case gz_read z limit compressed of
               Inl e \<Rightarrow> Inl (StatusCompression e)
             | Inr bits \<Rightarrow>
                 if length bits < expected_bytes
                 then Inl (StatusInvalid (''decoded bitstring too short: '' @ show_nat (length bits) @
                        '' bytes, expected '' @ show_nat expected_bytes))
                 else Inr \<lparr>sl_bits = take expected_bytes bits, sl_size = n, sl_purpose = purpose,
                           sl_assigned = replicate n False\<rparr>)"

definition count_ones :: "byte \<Rightarrow> nat" where
  "count_ones b = length (filter (bit b) [0..<8])"

definition count_set :: "bitstring_status_list \<Rightarrow> nat" where
  "count_set l = sum_list (map count_ones (sl_bits l))"

record status_list_entry =
  se_id :: "string option"
  se_entry_type :: string
  se_status_purpose :: status_purpose
  se_status_list_credential :: string
  se_status_list_index :: string

definition status_list_entry_new :: "string \<Rightarrow> nat \<Rightarrow> status_purpose \<Rightarrow> status_list_entry" where
  "status_list_entry_new credential_uri index purpose =
     \<lparr>se_id = Some (credential_uri @ ''#'' @ show_nat index), se_entry_type = ''BitstringStatusListEntry'',
      se_status_purpose = purpose, se_status_list_credential = credential_uri, se_status_list_index = show_nat index\<rparr>"

section \<open>Revocation list\<close>

record revocation_list =
  revoked :: "string list" \<comment> \<open>the \<open>HashSet\<close>, without duplicates\<close>

definition revocation_list_new :: revocation_list where
  "revocation_list_new = \<lparr>revoked = []\<rparr>"

definition revoke :: "string \<Rightarrow> revocation_list \<Rightarrow> revocation_list" where
  "revoke credential_id l = l\<lparr>revoked := push_new credential_id (revoked l)\<rparr>"

definition unrevoke :: "string \<Rightarrow> revocation_list \<Rightarrow> bool \<times> revocation_list" where
  "unrevoke credential_id l =
     (credential_id \<in> set (revoked l), l\<lparr>revoked := filter (\<lambda>x. x \<noteq> credential_id) (revoked l)\<rparr>)"

definition is_revoked :: "revocation_list \<Rightarrow> string \<Rightarrow> bool" where
  "is_revoked l credential_id \<longleftrightarrow> credential_id \<in> set (revoked l)"

definition revocation_len :: "revocation_list \<Rightarrow> nat" where
  "revocation_len l = length (revoked l)"

definition revocation_is_empty :: "revocation_list \<Rightarrow> bool" where
  "revocation_is_empty l \<longleftrightarrow> revoked l = []"


section \<open>The bits of a list\<close>

definition status_bit :: "byte list \<Rightarrow> nat \<Rightarrow> bool" where
  "status_bit bits i = bit (bits ! (i div 8)) (7 - i mod 8)"

lemma drop_bit_and_one: "drop_bit k (b :: byte) AND 1 = 1 \<longleftrightarrow> bit b k"
  by (simp add: and_one_eq bit_iff_odd_drop_bit odd_iff_mod_2_eq_one)

lemma bit_set_or: "bit ((b :: byte) OR 2 ^ k) j \<longleftrightarrow> bit b j \<or> j = k \<and> k < 8"
  by (auto simp: bit_simps)

lemma bit_set_and: "bit ((b :: byte) AND NOT (2 ^ k)) j \<longleftrightarrow> bit b j \<and> j \<noteq> k"
  by (auto simp: bit_simps dest: bit_imp_le_length)

lemma length_set_bit_at [simp]: "length (set_bit_at i b bits) = length bits"
  by (simp add: set_bit_at_def Let_def)

lemma status_bit_set_bit_at:
  assumes "i div 8 < length bits"
  shows "status_bit (set_bit_at i b bits) j = (if j = i then b else status_bit bits j)"
proof (cases "j div 8 = i div 8")
  case True
  have "7 - j mod 8 = 7 - i mod 8 \<longleftrightarrow> j mod 8 = i mod 8"
    by linarith
  moreover have "j mod 8 = i mod 8 \<longleftrightarrow> j = i" using True by (metis div_mult_mod_eq)
  ultimately have "7 - j mod 8 = 7 - i mod 8 \<longleftrightarrow> j = i" by blast
  then show ?thesis using assms True
    by (auto simp: status_bit_def set_bit_at_def Let_def bit_set_or bit_set_and)
next
  case False
  then show ?thesis by (auto simp: status_bit_def set_bit_at_def Let_def)
qed

lemma status_bit_zeros [simp]: "i < 8 * n \<Longrightarrow> \<not> status_bit (replicate n 0) i"
  by (simp add: status_bit_def)

lemma status_bit_take: "i < 8 * n \<Longrightarrow> status_bit (take n bits) i = status_bit bits i"
  by (simp add: status_bit_def)

lemma less_div_ceil: "i < n \<Longrightarrow> i div 8 < div_ceil n 8"
  unfolding div_ceil_def by linarith

definition status_list_inv :: "bitstring_status_list \<Rightarrow> bool" where
  "status_list_inv l \<longleftrightarrow> length (sl_bits l) = div_ceil (sl_size l) 8 \<and> length (sl_assigned l) = sl_size l"

definition no_padding_set :: "bitstring_status_list \<Rightarrow> bool" where
  \<comment> \<open>the bits of the last byte that stand for no entry\<close>
  "no_padding_set l \<longleftrightarrow> (\<forall>i. sl_size l \<le> i \<longrightarrow> i < 8 * length (sl_bits l) \<longrightarrow> \<not> status_bit (sl_bits l) i)"

lemma status_list_new_inv [simp]: "status_list_inv (status_list_new n p)" "no_padding_set (status_list_new n p)"
  by (simp_all add: status_list_inv_def no_padding_set_def status_list_new_def)

lemma status_get_bit: "status_get l i = (if i < sl_size l then Inr (status_bit (sl_bits l) i) else Inl (IndexOutOfBounds i (sl_size l)))"
  by (simp add: status_get_def status_bit_def Let_def drop_bit_and_one)

lemma status_set_simps:
  "i < sl_size l \<Longrightarrow> snd (status_set i b l) = l\<lparr>sl_bits := set_bit_at i b (sl_bits l), sl_assigned := (sl_assigned l)[i := True]\<rparr>"
  by (simp add: status_set_def)

lemma count_ones_card: "count_ones b = card {i. i < 8 \<and> bit b (7 - i)}"
proof -
  have "bij_betw (\<lambda>i. 7 - i) {i. i < 8 \<and> bit b (7 - i)} (set (filter (bit b) [0..<8]))"
    by (rule bij_betw_byWitness [where f' = "\<lambda>i. 7 - i"]) auto
  then show ?thesis unfolding count_ones_def
    by (metis bij_betw_same_card distinct_card distinct_filter distinct_upt)
qed

lemma sum_count_ones: "sum_list (map count_ones bits) = card {i. i < 8 * length bits \<and> status_bit bits i}"
proof (induction bits)
  case (Cons b bits)
  let ?A = "{i. i < 8 \<and> bit b (7 - i)}" and ?B = "{i. i < 8 * length bits \<and> status_bit bits i}"
  have split: "{i. i < 8 * length (b # bits) \<and> status_bit (b # bits) i} = ?A \<union> (\<lambda>i. i + 8) ` ?B"
  proof (rule set_eqI)
    fix i
    show "i \<in> {i. i < 8 * length (b # bits) \<and> status_bit (b # bits) i} \<longleftrightarrow> i \<in> ?A \<union> (\<lambda>i. i + 8) ` ?B"
    proof (cases "i < 8")
      case False
      then obtain j where j: "i = j + 8" by (metis add.commute le_Suc_ex not_less)
      have "(j + 8) div 8 = Suc (j div 8)" by simp
      then show ?thesis by (auto simp: j status_bit_def image_iff)
    qed (auto simp: status_bit_def)
  qed
  have "card (?A \<union> (\<lambda>i. i + 8) ` ?B) = card ?A + card ?B"
    by (subst card_Un_disjoint) (auto simp: card_image)
  then show ?case unfolding split by (simp add: Cons.IH count_ones_card [of b])
qed simp

lemma count_set_card:
  assumes "status_list_inv l" "no_padding_set l"
  shows "count_set l = card {i. i < sl_size l \<and> status_get l i = Inr True}"
proof -
  have "sl_size l \<le> 8 * length (sl_bits l)" using assms(1) unfolding status_list_inv_def div_ceil_def by linarith
  then have "{i. i < 8 * length (sl_bits l) \<and> status_bit (sl_bits l) i} = {i. i < sl_size l \<and> status_get l i = Inr True}"
    using assms(2) by (auto simp: status_get_bit no_padding_set_def not_less)
  then show ?thesis by (simp add: count_set_def sum_count_ones)
qed

lemma status_set_keeps:
  assumes "status_list_inv l" "i < sl_size l"
  shows "status_list_inv (snd (status_set i b l))" "no_padding_set l \<Longrightarrow> no_padding_set (snd (status_set i b l))"
    "sl_size (snd (status_set i b l)) = sl_size l"
  using assms less_div_ceil [OF assms(2)]
  by (auto simp: status_set_simps status_list_inv_def no_padding_set_def status_bit_set_bit_at)

section \<open>The contract of a status registry\<close>

locale status_registry =
  fixes query :: "'s \<Rightarrow> 'k \<Rightarrow> bool"
    and mark :: "'k \<Rightarrow> bool \<Rightarrow> 's \<Rightarrow> 's"
    and known :: "'s \<Rightarrow> 'k \<Rightarrow> bool"
    and good :: "'s \<Rightarrow> bool"
  assumes query_mark: "good s \<Longrightarrow> known s k \<Longrightarrow> known s k' \<Longrightarrow> query (mark k b s) k' = (if k' = k then b else query s k')"
    and good_mark: "good s \<Longrightarrow> known s k \<Longrightarrow> good (mark k b s)"
    and known_mark: "good s \<Longrightarrow> known s k \<Longrightarrow> known (mark k b s) k' = known s k'"
begin

lemma history_good:
  "good s \<Longrightarrow> \<forall>(k, b) \<in> set hist. known s k \<Longrightarrow>
     good (fold (\<lambda>(k, b). mark k b) hist s) \<and> known (fold (\<lambda>(k, b). mark k b) hist s) = known s"
proof (induction hist arbitrary: s)
  case (Cons e hist)
  obtain k b where e: "e = (k, b)" by force
  have "known s k" "good s" using Cons.prems by (auto simp: e)
  then have "good (mark k b s)" "known (mark k b s) = known s" using good_mark known_mark by auto
  then show ?case using Cons.IH [of "mark k b s"] Cons.prems by (simp add: e)
qed simp

lemma query_history:
  assumes "good s" "\<forall>(k, b) \<in> set hist. known s k" "known s k"
  shows "query (fold (\<lambda>(k, b). mark k b) hist s) k = (case map_of (rev hist) k of None \<Rightarrow> query s k | Some b \<Rightarrow> b)"
  using assms
proof (induction hist rule: rev_induct)
  case (snoc e hist)
  obtain k' b where e: "e = (k', b)" by force
  have h: "good (fold (\<lambda>(k, b). mark k b) hist s)" "known (fold (\<lambda>(k, b). mark k b) hist s) = known s"
    using history_good [OF snoc.prems(1)] snoc.prems(2) by auto
  have "known s k'" using snoc.prems(2) by (auto simp: e)
  then show ?case using snoc h query_mark [OF h(1), of k' k b] by (auto simp: e)
qed simp

end

interpretation bitstring: status_registry "\<lambda>l i. status_get l i = Inr True" "\<lambda>i b l. snd (status_set i b l)"
  "\<lambda>l i. i < sl_size l" "\<lambda>l. status_list_inv l \<and> no_padding_set l"
  using less_div_ceil
  by unfold_locales
    (auto simp: status_get_bit status_set_simps status_list_inv_def no_padding_set_def status_bit_set_bit_at)

interpretation revocations: status_registry is_revoked "\<lambda>k b l. if b then revoke k l else snd (unrevoke k l)"
  "\<lambda>_ _. True" "\<lambda>l. distinct (revoked l)"
  by unfold_locales (auto simp: is_revoked_def revoke_def unrevoke_def)

section \<open>Properties\<close>

definition set_all :: "(nat \<times> bool) list \<Rightarrow> bitstring_status_list \<Rightarrow> bitstring_status_list" where
  "set_all hist l = fold (\<lambda>(i, b) l. snd (status_set i b l)) hist l"

definition revoke_all :: "(string \<times> bool) list \<Rightarrow> revocation_list \<Rightarrow> revocation_list" where
  "revoke_all hist r = fold (\<lambda>(k, b) r. if b then revoke k r else snd (unrevoke k r)) hist r"

lemma set_all_exact:
  assumes "\<forall>(i, b) \<in> set hist. i < n"
  shows "status_get (set_all hist (status_list_new n purpose)) j =
      (if j < n then Inr (map_of (rev hist) j = Some True) else Inl (IndexOutOfBounds j n))" (is ?get)
    and "count_set (set_all hist (status_list_new n purpose)) = card {i. i < n \<and> map_of (rev hist) i = Some True}" (is ?count)
proof -
  let ?new = "status_list_new n purpose"
  let ?l = "set_all hist ?new"
  have size_new [simp]: "sl_size ?new = n" by (simp add: status_list_new_def)
  have l: "(status_list_inv ?l \<and> no_padding_set ?l) \<and> (\<lambda>i. i < sl_size ?l) = (\<lambda>i. i < n)"
    using bitstring.history_good [of ?new hist] assms unfolding set_all_def by simp
  then have "i < sl_size ?l \<longleftrightarrow> i < n" for i by meson
  then have sz: "sl_size ?l = n" by (metis linorder_neqE_nat less_irrefl)
  have new: "status_get ?new i \<noteq> Inr True" for i
    using less_div_ceil [of i n] by (simp add: status_get_bit) (simp add: status_list_new_def status_bit_def)
  have known: "(status_get ?l i = Inr True) \<longleftrightarrow> map_of (rev hist) i = Some True" if "i < n" for i
    using bitstring.query_history [of ?new hist i] assms that new unfolding set_all_def by (simp split: option.splits)
  then show ?get using known [of j] by (auto simp: status_get_bit sz)
  have "{i. i < sl_size ?l \<and> status_get ?l i = Inr True} = {i. i < n \<and> map_of (rev hist) i = Some True}"
    using known by (auto simp: sz)
  then show ?count using count_set_card [of ?l] l by simp
qed

lemma revoke_all_exact:
  "is_revoked (revoke_all entries revocation_list_new) k \<longleftrightarrow> map_of (rev entries) k = Some True"
  "revocation_len (revoke_all entries revocation_list_new) = card {k. map_of (rev entries) k = Some True}"
proof -
  let ?r = "revoke_all entries revocation_list_new"
  have r: "distinct (revoked ?r)" using revocations.history_good [of revocation_list_new entries]
    unfolding revoke_all_def by (simp add: revocation_list_new_def)
  have known: "is_revoked ?r k \<longleftrightarrow> map_of (rev entries) k = Some True" for k
    using revocations.query_history [of revocation_list_new entries k] unfolding revoke_all_def
    by (simp add: revocation_list_new_def is_revoked_def split: option.splits)
  then show "is_revoked ?r k \<longleftrightarrow> map_of (rev entries) k = Some True" .
  have "set (revoked ?r) = {k. map_of (rev entries) k = Some True}" using known by (auto simp: is_revoked_def)
  then show "revocation_len ?r = card {k. map_of (rev entries) k = Some True}"
    using distinct_card [OF r] by (simp add: revocation_len_def)
qed

text \<open>C19. Both registries answer with the last status given to an entry, and the count is exact: in a new bitstring
  list of \<open>n\<close> entries, after any history of settings of entries, reading an entry gives the value it was last set
  to and \<open>false\<close> if it never was, reading outside is the bounds error, and \<open>count_set\<close> is the number of entries that
  read \<open>true\<close>; a revocation list after any history of revoking and unrevoking contains exactly the identifiers
  revoked last, each counted once.\<close>
theorem status_registries_exact:
  assumes "\<forall>(i, b) \<in> set hist. i < n"
  shows "status_get (set_all hist (status_list_new n purpose)) j =
      (if j < n then Inr (map_of (rev hist) j = Some True) else Inl (IndexOutOfBounds j n)) \<and>
    count_set (set_all hist (status_list_new n purpose)) = card {i. i < n \<and> map_of (rev hist) i = Some True} \<and>
    (is_revoked (revoke_all entries revocation_list_new) k \<longleftrightarrow> map_of (rev entries) k = Some True) \<and>
    revocation_len (revoke_all entries revocation_list_new) = card {k. map_of (rev entries) k = Some True}"
  using set_all_exact [OF assms] revoke_all_exact by blast

theorem status_registries_exact_witness:
  "status_get (set_all [(3, True), (9, True), (3, False)] (status_list_new 10 Revocation)) 9 = Inr True"
  using status_registries_exact [of "[(3, True), (9, True), (3, False)]" 10 Revocation 9] by simp

lemma div_ceil_mono: "m \<le> n \<Longrightarrow> div_ceil m 8 \<le> div_ceil n 8"
  by (simp add: div_ceil_def div_le_mono)

lemma div_ceil_le: "div_ceil n 8 \<le> n"
  unfolding div_ceil_def by linarith

text \<open>Publishing and reading back: if base64 and gzip decode what they encoded, a published list read back with at
  most its own size shows the same status for every entry; read back with a size that needs more bytes it is
  refused. Whatever the input, a list that is accepted has exactly the bytes its size needs, so a compressed text
  cannot make it larger.\<close>
theorem status_list_round_trip:
  assumes "status_list_inv l" "status_encode b z l = Inr encoded"
    and "\<forall>d. b64_decode_vec b (b64_encode b d) = Inr d"
    and "\<forall>x c. gz_compress z x = Inr c \<longrightarrow> (\<forall>k. gz_read z k c = Inr (take k x))"
    and "n \<le> u64_max"
  shows "(n \<le> sl_size l \<longrightarrow> (\<exists>l'. status_decode b z encoded n p = Inr l' \<and> (\<forall>i < n. status_get l' i = status_get l i))) \<and>
    (div_ceil n 8 > div_ceil (sl_size l) 8 \<longrightarrow> (\<exists>e. status_decode b z encoded n p = Inl (StatusInvalid e))) \<and>
    (\<forall>any m l''. status_decode b z any m p = Inr l'' \<longrightarrow> status_list_inv l'' \<and> sl_size l'' = m)"
proof -
  obtain c where c: "gz_compress z (sl_bits l) = Inr c" "encoded = b64_encode b c"
    using assms(2) by (auto simp: status_encode_def split: sum.splits)
  have len: "length (sl_bits l) = div_ceil (sl_size l) 8" using assms(1) by (simp add: status_list_inv_def)
  have lim: "div_ceil n 8 \<le> sat_add u64_max (div_ceil n 8) 1"
    using div_ceil_le [of n] assms(5) by (simp add: sat_add_def)
  have rd: "gz_read z k c = Inr (take k (sl_bits l))" for k using assms(4) c(1) by blast
  have same: "\<exists>l'. status_decode b z encoded n p = Inr l' \<and> (\<forall>i < n. status_get l' i = status_get l i)" if "n \<le> sl_size l"
  proof -
    have "div_ceil n 8 \<le> length (sl_bits l)" using div_ceil_mono [OF that] len by simp
    moreover have "i < 8 * div_ceil n 8" if "i < n" for i using less_div_ceil [OF that] by linarith
    ultimately show ?thesis using lim that assms(3)
      by (auto simp: status_decode_def c(2) rd Let_def status_get_bit status_bit_take min_def)
  qed
  have short: "\<exists>e. status_decode b z encoded n p = Inl (StatusInvalid e)" if "div_ceil n 8 > div_ceil (sl_size l) 8"
    using that assms(3) len by (auto simp: status_decode_def c(2) rd Let_def)
  have "status_list_inv l'' \<and> sl_size l'' = m" if "status_decode b z any m p = Inr l''" for any m l''
    using that by (auto simp: status_decode_def Let_def status_list_inv_def split: sum.splits if_splits)
  then show ?thesis using same short by blast
qed

definition plain_b64 :: b64_codec where
  \<comment> \<open>one character per byte\<close>
  "plain_b64 = \<lparr>b64_encode = map (\<lambda>w. char_of (unat w)), b64_decode_vec = (\<lambda>s. Inr (map of_char s))\<rparr>"

definition plain_gzip :: gzip_codec where
  "plain_gzip = \<lparr>gz_compress = Inr, gz_read = (\<lambda>k c. Inr (take k c))\<rparr>"

lemma of_char_char_of_byte: "of_char (char_of (unat (w :: byte))) = w"
proof -
  have "unat w < 256" using unsigned_less [of w] by simp
  then have "(of_char (char_of (unat w)) :: nat) = unat w" by (simp add: of_char_of)
  then have "(of_nat (of_char (char_of (unat w))) :: byte) = w" by simp
  then show ?thesis by (simp only: of_nat_of_char)
qed

theorem status_list_round_trip_witness:
  "\<exists>encoded. status_encode plain_b64 plain_gzip (status_list_new 12 Revocation) = Inr encoded \<and>
     (\<exists>l'. status_decode plain_b64 plain_gzip encoded 12 Revocation = Inr l' \<and>
        (\<forall>i < 12. status_get l' i = status_get (status_list_new 12 Revocation) i))"
proof -
  let ?l = "status_list_new 12 Revocation"
  have law: "\<forall>d. b64_decode_vec plain_b64 (b64_encode plain_b64 d) = Inr d"
    by (simp add: plain_b64_def comp_def of_char_char_of_byte)
  have zip: "\<forall>x c. gz_compress plain_gzip x = Inr c \<longrightarrow> (\<forall>k. gz_read plain_gzip k c = Inr (take k x))"
    by (simp add: plain_gzip_def)
  have enc: "status_encode plain_b64 plain_gzip ?l = Inr (b64_encode plain_b64 (sl_bits ?l))"
    by (simp add: status_encode_def plain_gzip_def)
  have "sl_size ?l = 12" by (simp add: status_list_new_def)
  then show ?thesis using status_list_round_trip [OF status_list_new_inv(1) enc law zip, of 12 Revocation] enc
    by (simp add: u64_max_def)
qed

section \<open>Allocation and decoys\<close>

definition free :: "bitstring_status_list \<Rightarrow> nat set" where
  "free l = {i. i < sl_size l \<and> \<not> sl_assigned l ! i}"

lemma set_available: "set (available l) = free l"
  by (auto simp: available_def free_def)

lemma assign_free:
  assumes "status_list_inv l" "i \<in> free l"
  shows "free (l\<lparr>sl_assigned := (sl_assigned l)[i := True], sl_bits := bits\<rparr>) = free l - {i}"
    and "free (l\<lparr>sl_assigned := (sl_assigned l)[i := True]\<rparr>) = free l - {i}"
  using assms by (auto simp: free_def status_list_inv_def nth_list_update split: if_splits)

lemma decoys_exact:
  assumes "status_list_inv l" "\<forall>i \<in> set draws. i < sl_size l" "add_decoys count draws l = Some l'"
  shows "\<exists>D \<subseteq> free l. card D = count \<and> free l' = free l - D \<and> status_list_inv l' \<and> sl_size l' = sl_size l \<and>
     (\<forall>i < sl_size l. status_get l' i = Inr (i \<in> D \<or> status_get l i = Inr True))"
  using assms
proof (induction count draws l rule: add_decoys.induct)
  case (1 draws l)
  have "\<forall>i < sl_size l. status_get l i = Inr (status_get l i = Inr True)" by (simp add: status_get_bit)
  then show ?case using 1 by (intro exI [of _ "{}"]) auto
next
  case (3 n index draws l)
  show ?case
  proof (cases "sl_assigned l ! index")
    case True
    then show ?thesis using 3 by (simp split: if_splits)
  next
    case False
    let ?m = "l\<lparr>sl_assigned := (sl_assigned l)[index := True], sl_bits := set_bit_at index True (sl_bits l)\<rparr>"
    have i: "index < sl_size l" "index \<in> free l" using 3(4) False by (simp_all add: free_def)
    have m: "status_list_inv ?m" using 3(3) by (simp add: status_list_inv_def)
    obtain D where D: "D \<subseteq> free ?m" "card D = n" "free l' = free ?m - D" "status_list_inv l'" "sl_size l' = sl_size l"
      "\<forall>i < sl_size l. status_get l' i = Inr (i \<in> D \<or> status_get ?m i = Inr True)"
      using 3(1) [OF _ _ m] 3(4,5) False i by (auto split: if_splits)
    have fm: "free ?m = free l - {index}" using assign_free [OF 3(3) i(2)] by simp
    have "finite (free l)" by (simp add: free_def)
    then have "finite D" "index \<notin> D" using D(1) fm by (auto intro: finite_subset)
    then have "card (insert index D) = Suc n" using D(2) by simp
    moreover have "status_get ?m j = Inr (j = index \<or> status_get l j = Inr True)" if "j < sl_size l" for j
      using that i(1) less_div_ceil [OF i(1)] 3(3)
      by (simp add: status_get_bit status_list_inv_def status_bit_set_bit_at)
    ultimately show ?thesis using D fm i by (intro exI [of _ "insert index D"]) auto
  qed
qed simp_all

lemma decoys_return:
  assumes "status_list_inv l" "\<forall>i \<in> set draws. i < sl_size l"
  shows "add_decoys count draws l \<noteq> None \<longleftrightarrow> count \<le> card (set draws \<inter> free l)"
  using assms
proof (induction count draws l rule: add_decoys.induct)
  case (3 n index draws l)
  show ?case
  proof (cases "sl_assigned l ! index")
    case True
    then have "set (index # draws) \<inter> free l = set draws \<inter> free l" by (auto simp: free_def)
    then show ?thesis using 3 True by simp
  next
    case False
    let ?m = "l\<lparr>sl_assigned := (sl_assigned l)[index := True], sl_bits := set_bit_at index True (sl_bits l)\<rparr>"
    have i: "index < sl_size l" "index \<in> free l" using 3(4) False by (simp_all add: free_def)
    have m: "status_list_inv ?m" using 3(3) by (simp add: status_list_inv_def)
    have eq: "set (index # draws) \<inter> free l = insert index (set draws \<inter> free ?m)"
      using i(2) assign_free [OF 3(3) i(2)] by auto
    have "index \<notin> set draws \<inter> free ?m" using assign_free [OF 3(3) i(2)] by auto
    then have "card (set (index # draws) \<inter> free l) = Suc (card (set draws \<inter> free ?m))" unfolding eq by simp
    then show ?thesis using 3(1) [OF _ _ m] 3(4) False i by simp
  qed
qed simp_all

text \<open>C33. Decoys never touch a real entry, and adding them ends only if there is room: if \<open>add_decoys\<close> returns, it has
  set exactly as many entries as asked, all free before and reserved after, and every other entry reads as before;
  it returns for a sequence of draws exactly when these hit as many different free entries as asked, so when fewer
  entries are free than asked for it never returns. An index that \<open>allocate_index\<close> hands out was free and is then
  reserved, so it is not handed out again and no decoy falls on it.\<close>
theorem status_decoys_and_allocation:
  assumes "status_list_inv l" "\<forall>i \<in> set draws. i < sl_size l"
  shows "(\<forall>l'. add_decoys count draws l = Some l' \<longrightarrow>
       (\<exists>D \<subseteq> free l. card D = count \<and> free l' = free l - D \<and>
          (\<forall>i < sl_size l. status_get l' i = Inr (i \<in> D \<or> status_get l i = Inr True)))) \<and>
     ((\<exists>l'. add_decoys count draws l = Some l') \<longleftrightarrow> count \<le> card (set draws \<inter> free l)) \<and>
     (card (free l) < count \<longrightarrow> add_decoys count draws l = None) \<and>
     (pick < length (available l) \<longrightarrow>
        (\<exists>i. fst (allocate_index pick l) = Some i \<and> i \<in> free l \<and> free (snd (allocate_index pick l)) = free l - {i})) \<and>
     (fst (allocate_index pick l) = None \<longleftrightarrow> free l = {})"
proof -
  have ret: "add_decoys count draws l \<noteq> None \<longleftrightarrow> count \<le> card (set draws \<inter> free l)" by (rule decoys_return [OF assms])
  have "card (set draws \<inter> free l) \<le> card (free l)" by (rule card_mono) (simp_all add: free_def)
  then have none: "card (free l) < count \<longrightarrow> add_decoys count draws l = None" using ret by auto
  have "available l ! pick \<in> free l" if "pick < length (available l)" using that set_available nth_mem by blast
  then have alloc: "pick < length (available l) \<longrightarrow>
      (\<exists>i. fst (allocate_index pick l) = Some i \<and> i \<in> free l \<and> free (snd (allocate_index pick l)) = free l - {i})"
    using assign_free(2) [OF assms(1)] by (auto simp: allocate_index_def Let_def)
  have full: "fst (allocate_index pick l) = None \<longleftrightarrow> free l = {}"
    using set_available [of l] by (auto simp: allocate_index_def Let_def)
  have exact: "\<exists>D \<subseteq> free l. card D = count \<and> free l' = free l - D \<and>
      (\<forall>i < sl_size l. status_get l' i = Inr (i \<in> D \<or> status_get l i = Inr True))" if "add_decoys count draws l = Some l'" for l'
    using decoys_exact [OF assms that] by (elim exE conjE) (intro exI conjI)
  have "(\<exists>l'. add_decoys count draws l = Some l') \<longleftrightarrow> count \<le> card (set draws \<inter> free l)" using ret by simp
  then show ?thesis using exact none alloc full by (intro conjI) simp_all
qed

theorem status_decoys_and_allocation_witness:
  "add_decoys 3 [0, 1, 0, 1, 0] (status_list_new 2 Suspension) = None \<and>
   (\<exists>l'. add_decoys 2 [1, 1, 0] (status_list_new 2 Suspension) = Some l')"
proof -
  let ?l = "status_list_new 2 Suspension"
  have [simp]: "free ?l = {0, 1}" by (auto simp: free_def status_list_new_def less_2_cases_iff)
  have [simp]: "sl_size ?l = 2" by (simp add: status_list_new_def)
  show ?thesis
    using status_decoys_and_allocation [OF status_list_new_inv(1), of "[0, 1, 0, 1, 0]" 2 Suspension 3 0]
      status_decoys_and_allocation [OF status_list_new_inv(1), of "[1, 1, 0]" 2 Suspension 2 0]
    by simp
qed

end
