(* ===== verification/Json.thy ===== *)
theory Json
  imports OrdMap
begin

text \<open>
  \<open>serde_json::Value\<close> as the sources use it. A \<open>Map\<close> is a \<open>BTreeMap\<close> (no crate of the workspace asks for
  \<open>preserve_order\<close>), so an object is an association list in strictly increasing key order; \<open>json_wf\<close> says so
  for every object inside a value. A float is kept as its bits.
\<close>

datatype json_number = PosInt "64 word" | NegInt "64 word" | Float "64 word"

datatype json =
    JNull
  | JBool bool
  | JNumber json_number
  | JString string
  | JArray "json list"
  | JObject "(string \<times> json) list"

type_synonym json_object = "(string, json) btree"

definition as_str :: "json \<Rightarrow> string option" where
  "as_str v = (case v of JString s \<Rightarrow> Some s | _ \<Rightarrow> None)"

definition as_array :: "json \<Rightarrow> json list option" where
  "as_array v = (case v of JArray a \<Rightarrow> Some a | _ \<Rightarrow> None)"

definition as_object :: "json \<Rightarrow> json_object option" where
  "as_object v = (case v of JObject o' \<Rightarrow> Some o' | _ \<Rightarrow> None)"

definition as_u64 :: "json \<Rightarrow> nat option" where
  "as_u64 v = (case v of JNumber (PosInt n) \<Rightarrow> Some (unat n) | _ \<Rightarrow> None)"

definition json_get :: "json \<Rightarrow> string \<Rightarrow> json option" where
  \<comment> \<open>\<open>Value::get\<close> with a key\<close>
  "json_get v key = (case v of JObject o' \<Rightarrow> bt_get o' key | _ \<Rightarrow> None)"

definition f64_zero :: "64 word \<Rightarrow> bool" where
  "f64_zero w \<longleftrightarrow> w = 0 \<or> w = push_bit 63 1"

fun json_number_eq :: "json_number \<Rightarrow> json_number \<Rightarrow> bool" where
  \<comment> \<open>a number in JSON is finite, so floats are equal when their bits are, or both are zero\<close>
  "json_number_eq (PosInt a) (PosInt b) = (a = b)"
| "json_number_eq (NegInt a) (NegInt b) = (a = b)"
| "json_number_eq (Float a) (Float b) = (a = b \<or> f64_zero a \<and> f64_zero b)"
| "json_number_eq _ _ = False"

fun json_eq :: "json \<Rightarrow> json \<Rightarrow> bool" where
  \<comment> \<open>\<open>==\<close> on values\<close>
  "json_eq JNull JNull = True"
| "json_eq (JBool a) (JBool b) = (a = b)"
| "json_eq (JNumber a) (JNumber b) = json_number_eq a b"
| "json_eq (JString a) (JString b) = (a = b)"
| "json_eq (JArray a) (JArray b) = list_all2 json_eq a b"
| "json_eq (JObject m) (JObject n) = list_all2 (\<lambda>x y. fst x = fst y \<and> json_eq (snd x) (snd y)) m n"
| "json_eq _ _ = False"

fun json_wf :: "json \<Rightarrow> bool" where
  "json_wf (JArray a) = list_all json_wf a"
| "json_wf (JObject o') = (bt_wf o' \<and> list_all (\<lambda>e. json_wf (snd e)) o')"
| "json_wf _ = True"

fun json_keys :: "json \<Rightarrow> string set" where
  \<comment> \<open>the keys of every object inside a value\<close>
  "json_keys (JArray a) = \<Union> (json_keys ` set a)"
| "json_keys (JObject o') = fst ` set o' \<union> \<Union> ((\<lambda>e. json_keys (snd e)) ` set o')"
| "json_keys _ = {}"

fun json_depth :: "json \<Rightarrow> nat" where
  "json_depth (JArray a) = Suc (Max (insert 0 (json_depth ` set a)))"
| "json_depth (JObject o') = Suc (Max (insert 0 ((\<lambda>e. json_depth (snd e)) ` set o')))"
| "json_depth _ = 1"

lemma as_str_simps [simp]: "as_str (JString s) = Some s" "as_str (JArray a) = None" "as_str (JObject m) = None"
  by (simp_all add: as_str_def)

lemma as_array_simps [simp]: "as_array (JArray a) = Some a" "as_array (JString s) = None" "as_array (JObject m) = None"
  by (simp_all add: as_array_def)

lemma as_object_simps [simp]: "as_object (JObject m) = Some m" "as_object (JArray a) = None" "as_object (JString s) = None"
  by (simp_all add: as_object_def)

lemma depth_element: "v \<in> set a \<Longrightarrow> json_depth v < json_depth (JArray a)"
  by (simp add: less_Suc_eq_le)

lemma depth_member: "(k, v) \<in> set m \<Longrightarrow> json_depth v < json_depth (JObject m)"
  by (simp add: less_Suc_eq_le) (metis Max_ge finite_imageI finite_insert finite_set image_eqI insertI2 snd_conv)

section \<open>Objects as sorted maps\<close>

lemma set_bt_insert_wf: "bt_wf m \<Longrightarrow> set (bt_insert k v m) = insert (k, v) {e \<in> set m. fst e \<noteq> k}"
proof -
  assume wf: "bt_wf m"
  have "map_of (bt_insert k v m) = (map_of m)(k \<mapsto> v)" by (rule ext) (simp add: map_of_bt_insert [OF wf])
  moreover have "distinct (map fst m)" "distinct (map fst (bt_insert k v m))"
    using wf bt_wf_insert [OF wf] by (simp_all add: bt_wf_def strict_sorted_iff)
  ultimately have "(a, b) \<in> set (bt_insert k v m) \<longleftrightarrow> ((map_of m)(k \<mapsto> v)) a = Some b" for a b
    by (metis map_of_eq_Some_iff)
  then show ?thesis using \<open>distinct (map fst m)\<close> by (auto split: if_splits)
qed

lemma bt_wf_unique: "bt_wf m \<Longrightarrow> bt_wf m' \<Longrightarrow> set m = set m' \<Longrightarrow> m = m'"
  by (rule map_sorted_distinct_set_unique [of fst]) (simp_all add: bt_wf_def strict_sorted_iff distinct_map)

end
