(* ===== verification/SdJwt.thy ===== *)
theory SdJwt
  imports Json CesrTables
begin

text \<open>
  Selective disclosure: \<open>src/crates/credentials/affinidi-sd-jwt/src\<close> (\<open>disclosure.rs\<close>, \<open>hasher.rs\<close>, \<open>issuer.rs\<close>,
  \<open>holder.rs\<close>, \<open>verifier.rs\<close>, \<open>lib.rs\<close>). The hash function and the JWT signer and verifier are traits of the
  crate and so records of functions; JSON text and base64 are the crates \<open>serde_json\<close> and \<open>base64\<close>, the record
  \<open>sd_codec\<close>. Random bytes are an argument: \<open>rng k n\<close> are the \<open>n\<close> bytes of the draw number \<open>k\<close>, and the number
  of the next draw is threaded through. Restoring claims recurses through the values of disclosures, which
  may contain digests of disclosures again; it gets fuel, \<open>None\<close> being a run that has not ended.
\<close>

section \<open>Errors, hashers, signers\<close>

datatype sd_jwt_error =
    InvalidFormat string
  | InvalidDisclosure string
  | Signing string
  | Verification string
  | InvalidFrame string
  | SdJson string
  | SdBase64 string
  | KeyBinding string

record sd_codec =
  sd_b64 :: b64_codec \<comment> \<open>\<open>URL_SAFE_NO_PAD\<close>\<close>
  json_to_string :: "json \<Rightarrow> string" \<comment> \<open>\<open>serde_json::to_string\<close>, which cannot fail on a \<open>Value\<close>\<close>
  json_array_from_str :: "string \<Rightarrow> string + json list" \<comment> \<open>\<open>serde_json::from_str\<close> to \<open>Vec<Value>\<close>\<close>
  json_from_slice :: "byte list \<Rightarrow> string + json"
  utf8_error :: "byte list \<Rightarrow> string" \<comment> \<open>text of the error of \<open>String::from_utf8\<close>\<close>

record sd_hasher =
  alg_name :: string
  sd_hash :: "byte list \<Rightarrow> byte list"

definition hash_b64 :: "sd_codec \<Rightarrow> sd_hasher \<Rightarrow> byte list \<Rightarrow> string" where
  "hash_b64 c h input = b64_encode (sd_b64 c) (sd_hash h input)"

record jwt_signer =
  sg_algorithm :: string
  sg_key_id :: "string option"
  sign_jwt :: "json \<Rightarrow> json \<Rightarrow> sd_jwt_error + string"

type_synonym jwt_verifier = "string \<Rightarrow> sd_jwt_error + json" \<comment> \<open>\<open>verify_jwt\<close>\<close>

section \<open>Disclosures\<close>

definition RESERVED_CLAIM_NAMES :: "string list" where
  "RESERVED_CLAIM_NAMES = [''_sd'', ''_sd_alg'', ''...'']"

record sd_disclosure =
  d_salt :: string
  d_claim_name :: "string option"
  d_claim_value :: json
  d_serialized :: string
  d_digest :: string

definition disclosure_array :: "string \<Rightarrow> string option \<Rightarrow> json \<Rightarrow> json list" where
  "disclosure_array salt claim_name claim_value =
     [JString salt] @ (case claim_name of None \<Rightarrow> [] | Some name \<Rightarrow> [JString name]) @ [claim_value]"

definition disclosure_build :: "sd_codec \<Rightarrow> sd_hasher \<Rightarrow> string \<Rightarrow> string option \<Rightarrow> json \<Rightarrow> sd_disclosure" where
  "disclosure_build c h salt claim_name claim_value =
     (let json_str = json_to_string c (JArray (disclosure_array salt claim_name claim_value));
          serialized = b64_encode (sd_b64 c) (bytes_of json_str)
      in \<lparr>d_salt = salt, d_claim_name = claim_name, d_claim_value = claim_value, d_serialized = serialized,
          d_digest = hash_b64 c h (bytes_of serialized)\<rparr>)"

type_synonym rng = "nat \<Rightarrow> nat \<Rightarrow> byte list"

definition generate_salt :: "sd_codec \<Rightarrow> rng \<Rightarrow> nat \<Rightarrow> string" where
  "generate_salt c rng k = b64_encode (sd_b64 c) (rng k 16)"

definition new_claim :: "sd_codec \<Rightarrow> sd_hasher \<Rightarrow> rng \<Rightarrow> nat \<Rightarrow> string \<Rightarrow> json \<Rightarrow> sd_disclosure" where
  "new_claim c h rng k name v = disclosure_build c h (generate_salt c rng k) (Some name) v"

definition new_array_element :: "sd_codec \<Rightarrow> sd_hasher \<Rightarrow> rng \<Rightarrow> nat \<Rightarrow> json \<Rightarrow> sd_disclosure" where
  "new_array_element c h rng k v = disclosure_build c h (generate_salt c rng k) None v"

definition generate_decoy_digest :: "sd_codec \<Rightarrow> sd_hasher \<Rightarrow> rng \<Rightarrow> nat \<Rightarrow> string" where
  "generate_decoy_digest c h rng k = hash_b64 c h (bytes_of (b64_encode (sd_b64 c) (rng k 32)))"

definition disclosure_parse :: "sd_codec \<Rightarrow> sd_hasher \<Rightarrow> string \<Rightarrow> sd_jwt_error + sd_disclosure" where
  "disclosure_parse c h serialized =
     (case b64_decode_vec (sd_b64 c) serialized of
        Inl e \<Rightarrow> Inl (InvalidDisclosure (''base64 decode failed: '' @ e))
      | Inr bytes \<Rightarrow>
          (case from_utf8 bytes of
             None \<Rightarrow> Inl (InvalidDisclosure (''invalid UTF-8: '' @ utf8_error c bytes))
           | Some json_str \<Rightarrow>
               (case json_array_from_str c json_str of
                  Inl e \<Rightarrow> Inl (SdJson e)
                | Inr arr \<Rightarrow>
                    let digest = hash_b64 c h (bytes_of serialized);
                        made = (\<lambda>salt name v. \<lparr>d_salt = salt, d_claim_name = name, d_claim_value = v,
                                  d_serialized = serialized, d_digest = digest\<rparr>)
                    in case arr of
                         [s, n, v] \<Rightarrow>
                           (case as_str s of
                              None \<Rightarrow> Inl (InvalidDisclosure ''salt must be a string'')
                            | Some salt \<Rightarrow>
                                (case as_str n of
                                   None \<Rightarrow> Inl (InvalidDisclosure ''claim name must be a string'')
                                 | Some name \<Rightarrow> Inr (made salt (Some name) v)))
                       | [s, v] \<Rightarrow>
                           (case as_str s of
                              None \<Rightarrow> Inl (InvalidDisclosure ''salt must be a string'')
                            | Some salt \<Rightarrow> Inr (made salt None v))
                       | _ \<Rightarrow> Inl (InvalidDisclosure (''expected 2 or 3 elements, got '' @ show_nat (length arr))))))"

section \<open>The compact form\<close>

record sd_jwt =
  sj_jws :: string
  sj_disclosures :: "sd_disclosure list"
  sj_kb_jwt :: "string option"

definition join_tilde :: "string list \<Rightarrow> string" where
  \<comment> \<open>\<open>parts.join("~")\<close>\<close>
  "join_tilde parts = concat (case parts of [] \<Rightarrow> [] | p # ps \<Rightarrow> p # map (\<lambda>q. CHR ''~'' # q) ps)"

definition serialize_without_kb :: "sd_jwt \<Rightarrow> string" where
  "serialize_without_kb s = join_tilde (sj_jws s # map d_serialized (sj_disclosures s)) @ ''~''"

definition serialize :: "sd_jwt \<Rightarrow> string" where
  "serialize s =
     (let base = serialize_without_kb s
      in case sj_kb_jwt s of Some kb \<Rightarrow> base @ kb | None \<Rightarrow> base)"

fun parse_disclosures :: "sd_codec \<Rightarrow> sd_hasher \<Rightarrow> string list \<Rightarrow> sd_jwt_error + sd_disclosure list" where
  "parse_disclosures c h [] = Inr []"
| "parse_disclosures c h (part # parts) =
     (if part = [] then parse_disclosures c h parts
      else and_then (disclosure_parse c h part) (\<lambda>d.
           and_then (parse_disclosures c h parts) (\<lambda>ds. Inr (d # ds))))"

definition sd_jwt_parse :: "sd_codec \<Rightarrow> sd_hasher \<Rightarrow> string \<Rightarrow> sd_jwt_error + sd_jwt" where
  "sd_jwt_parse c h serialized =
     (if serialized = [] then Inl (InvalidFormat ''empty input'')
      else
        let parts = split_on (CHR ''~'') serialized;
            jws = hd parts
        in if length (split_on (CHR ''.'') jws) \<noteq> 3 then Inl (InvalidFormat ''JWS must have 3 dot-separated parts'')
           else if length parts > 1 then
             let lst = last parts;
                 kb_jwt = (if lst = [] then None else if length (split_on (CHR ''.'') lst) = 3 then Some lst else None);
                 disclosure_end = (if lst = [] \<or> length (split_on (CHR ''.'') lst) = 3 then length parts - 1 else length parts)
             in and_then (parse_disclosures c h (drop 1 (take disclosure_end parts))) (\<lambda>disclosures.
                Inr \<lparr>sj_jws = jws, sj_disclosures = disclosures, sj_kb_jwt = kb_jwt\<rparr>)
           else Inr \<lparr>sj_jws = jws, sj_disclosures = [], sj_kb_jwt = None\<rparr>)"

definition splitn3 :: "char \<Rightarrow> string \<Rightarrow> string list" where
  \<comment> \<open>\<open>splitn(3, sep)\<close>\<close>
  "splitn3 sep s =
     (case split_once sep s of
        None \<Rightarrow> [s]
      | Some (a, r) \<Rightarrow> (case split_once sep r of None \<Rightarrow> [a, r] | Some (b, t) \<Rightarrow> [a, b, t]))"

definition decode_jwt_part :: "sd_codec \<Rightarrow> string \<Rightarrow> nat \<Rightarrow> sd_jwt_error + json" where
  "decode_jwt_part c jws part_index =
     (let parts = splitn3 (CHR ''.'') jws
      in if length parts \<noteq> 3 then Inl (InvalidFormat ''invalid JWS format'')
         else case b64_decode_vec (sd_b64 c) (parts ! part_index) of
                Inl e \<Rightarrow> Inl (InvalidFormat (''JWT decode: '' @ e))
              | Inr bytes \<Rightarrow> (case json_from_slice c bytes of Inl e \<Rightarrow> Inl (SdJson e) | Inr v \<Rightarrow> Inr v))"

definition sd_jwt_payload :: "sd_codec \<Rightarrow> sd_jwt \<Rightarrow> sd_jwt_error + json" where
  "sd_jwt_payload c s = decode_jwt_part c (sj_jws s) 1"

definition sd_jwt_header :: "sd_codec \<Rightarrow> sd_jwt \<Rightarrow> sd_jwt_error + json" where
  "sd_jwt_header c s = decode_jwt_part c (sj_jws s) 0"

section \<open>Issuing\<close>

fun validate_no_reserved_keys :: "json \<Rightarrow> sd_jwt_error + unit"
  and validate_members :: "(string \<times> json) list \<Rightarrow> sd_jwt_error + unit"
  and validate_elements :: "json list \<Rightarrow> sd_jwt_error + unit" where
  "validate_no_reserved_keys (JObject m) =
     (if bt_get m ''...'' \<noteq> None
      then Inl (InvalidFrame ''\"...\" is a reserved key and must not appear in claims'')
      else validate_members m)"
| "validate_no_reserved_keys (JArray a) = validate_elements a"
| "validate_no_reserved_keys _ = Inr ()"
| "validate_members [] = Inr ()"
| "validate_members ((k, v) # m) = and_then (validate_no_reserved_keys v) (\<lambda>_. validate_members m)"
| "validate_elements [] = Inr ()"
| "validate_elements (v # a) = and_then (validate_no_reserved_keys v) (\<lambda>_. validate_elements a)"

definition frame_get :: "json_object option \<Rightarrow> string \<Rightarrow> json option" where
  \<comment> \<open>\<open>frame.and_then(|f| f.get(key))\<close>\<close>
  "frame_get frame key = (case frame of None \<Rightarrow> None | Some f \<Rightarrow> bt_get f key)"

definition frame_list :: "json_object option \<Rightarrow> string list" where
  \<comment> \<open>the strings of the array \<open>_sd\<close> of a frame\<close>
  "frame_list frame =
     (case frame_get frame ''_sd'' of
        None \<Rightarrow> []
      | Some v \<Rightarrow> (case as_array v of None \<Rightarrow> [] | Some arr \<Rightarrow> List.map_filter as_str arr))"

definition decoy_count :: "json_object option \<Rightarrow> nat" where
  "decoy_count frame =
     (case frame_get frame ''_sd_decoy'' of
        None \<Rightarrow> 0
      | Some v \<Rightarrow> (case as_u64 v of None \<Rightarrow> 0 | Some n \<Rightarrow> n))"

definition sd_indices :: "json \<Rightarrow> nat list" where
  \<comment> \<open>\<open>s.parse::<usize>().ok()\<close>\<close>
  "sd_indices frame = List.map_filter (u64_from_str_radix 10) (frame_list (as_object frame))"

type_synonym issuing = "nat \<times> sd_disclosure list" \<comment> \<open>number of draws made, disclosures so far\<close>

definition finish_object ::
  "sd_codec \<Rightarrow> sd_hasher \<Rightarrow> rng \<Rightarrow> json_object option \<Rightarrow> json_object \<Rightarrow> string list \<Rightarrow> issuing \<Rightarrow> json_object \<times> issuing" where
  \<comment> \<open>the decoys and the array \<open>_sd\<close>\<close>
  "finish_object c h rng frame result sd_digests st =
     (let n = decoy_count frame;
          digests = sd_digests @ map (generate_decoy_digest c h rng) [fst st..<fst st + n];
          st' = (fst st + n, snd st)
      in if digests = [] then (result, st')
         else (bt_insert ''_sd'' (JArray (map JString (sort digests))) result, st'))"

function process_object ::
    "sd_codec \<Rightarrow> sd_hasher \<Rightarrow> rng \<Rightarrow> json_object \<Rightarrow> json_object option \<Rightarrow> issuing \<Rightarrow> sd_jwt_error + json_object \<times> issuing"
  and process_members ::
    "sd_codec \<Rightarrow> sd_hasher \<Rightarrow> rng \<Rightarrow> json_object option \<Rightarrow> (string \<times> json) list \<Rightarrow> json_object \<Rightarrow> string list \<Rightarrow> issuing \<Rightarrow>
     sd_jwt_error + json_object \<times> string list \<times> issuing"
  and process_value :: "sd_codec \<Rightarrow> sd_hasher \<Rightarrow> rng \<Rightarrow> json \<Rightarrow> json \<Rightarrow> issuing \<Rightarrow> sd_jwt_error + json \<times> issuing"
  and process_array :: "sd_codec \<Rightarrow> sd_hasher \<Rightarrow> rng \<Rightarrow> json \<Rightarrow> nat \<Rightarrow> json list \<Rightarrow> issuing \<Rightarrow> sd_jwt_error + json list \<times> issuing" where
  "process_object c h rng claims frame st =
     (case find (\<lambda>name. name \<in> set RESERVED_CLAIM_NAMES) (frame_list frame) of
        Some name \<Rightarrow>
          Inl (InvalidFrame (''\"'' @ name @ ''\" is a reserved claim name and cannot be selectively disclosed''))
      | None \<Rightarrow>
          and_then (process_members c h rng frame claims [] [] st) (\<lambda>(result, sd_digests, st).
          Inr (finish_object c h rng frame result sd_digests st)))"
| "process_members c h rng frame [] result sd_digests st = Inr (result, sd_digests, st)"
| "process_members c h rng frame ((key, v) # rest) result sd_digests st =
     (if key \<in> set (frame_list frame)
      then and_then (case frame_get frame key of
                       Some sub_frame \<Rightarrow> process_value c h rng v sub_frame st
                     | None \<Rightarrow> Inr (v, st)) (\<lambda>(processed, (k, ds)).
           let d = new_claim c h rng k key processed
           in process_members c h rng frame rest result (sd_digests @ [d_digest d]) (Suc k, ds @ [d]))
      else case frame_get frame key of
             None \<Rightarrow> process_members c h rng frame rest (bt_insert key v result) sd_digests st
           | Some sub_frame \<Rightarrow>
               (case v of
                  JObject m \<Rightarrow>
                    and_then (process_object c h rng m (as_object sub_frame) st) (\<lambda>(nested, st).
                    process_members c h rng frame rest (bt_insert key (JObject nested) result) sd_digests st)
                | JArray a \<Rightarrow>
                    and_then (process_array c h rng sub_frame 0 a st) (\<lambda>(processed, st).
                    process_members c h rng frame rest (bt_insert key (JArray processed) result) sd_digests st)
                | _ \<Rightarrow> process_members c h rng frame rest (bt_insert key v result) sd_digests st))"
| "process_value c h rng v frame st =
     (case v of
        JObject m \<Rightarrow> and_then (process_object c h rng m (as_object frame) st) (\<lambda>(nested, st). Inr (JObject nested, st))
      | JArray a \<Rightarrow> and_then (process_array c h rng frame 0 a st) (\<lambda>(processed, st). Inr (JArray processed, st))
      | _ \<Rightarrow> Inr (v, st))"
| "process_array c h rng frame i [] st = Inr ([], st)"
| "process_array c h rng frame i (element # rest) st =
     (if i \<in> set (sd_indices frame)
      then let d = new_array_element c h rng (fst st) element
           in and_then (process_array c h rng frame (Suc i) rest (Suc (fst st), snd st @ [d])) (\<lambda>(result, st).
              Inr (JObject [(''...'', JString (d_digest d))] # result, st))
      else
        and_then (case frame_get (as_object frame) (show_nat i) of
                    Some sub_frame \<Rightarrow> process_value c h rng element sub_frame st
                  | None \<Rightarrow> Inr (element, st)) (\<lambda>(processed, st).
        and_then (process_array c h rng frame (Suc i) rest st) (\<lambda>(result, st).
        Inr (processed # result, st))))"
  by pat_completeness auto

termination
  by (relation "measure
       (case_sum (case_sum (\<lambda>(c, h, rng, claims, frame, st). 2 * size_list (size_prod (\<lambda>_. 0) size) claims + 1)
                           (\<lambda>(c, h, rng, frame, rest, result, ds, st). 2 * size_list (size_prod (\<lambda>_. 0) size) rest))
                 (case_sum (\<lambda>(c, h, rng, v, frame, st). 2 * size v + 1)
                           (\<lambda>(c, h, rng, frame, i, rest, st). 2 * size_list size rest)))") auto

definition issue ::
  "sd_codec \<Rightarrow> rng \<Rightarrow> json \<Rightarrow> json \<Rightarrow> jwt_signer \<Rightarrow> sd_hasher \<Rightarrow> json option \<Rightarrow> sd_jwt_error + sd_jwt" where
  "issue c rng claims disclosure_frame signer h holder_jwk =
     (case as_object claims of
        None \<Rightarrow> Inl (InvalidFrame ''claims must be a JSON object'')
      | Some claims_obj \<Rightarrow>
          and_then (validate_no_reserved_keys claims) (\<lambda>_.
          and_then (process_object c h rng claims_obj (as_object disclosure_frame) (0, [])) (\<lambda>(payload_obj, (_, disclosures)).
          let p1 = (if disclosures \<noteq> [] then bt_insert ''_sd_alg'' (JString (alg_name h)) payload_obj else payload_obj);
              p2 = (case holder_jwk of Some jwk \<Rightarrow> bt_insert ''cnf'' (JObject [(''jwk'', jwk)]) p1 | None \<Rightarrow> p1);
              header = [(''alg'', JString (sg_algorithm signer)), (''typ'', JString ''sd+jwt'')];
              header' = (case sg_key_id signer of Some kid \<Rightarrow> bt_insert ''kid'' (JString kid) header | None \<Rightarrow> header)
          in and_then (sign_jwt signer (JObject header') (JObject p2)) (\<lambda>jws.
             Inr \<lparr>sj_jws = jws, sj_disclosures = disclosures, sj_kb_jwt = None\<rparr>))))"

section \<open>Presenting\<close>

record kb_jwt_input =
  kb_audience :: string
  kb_nonce :: string
  kb_signer :: jwt_signer
  kb_iat :: "64 word"

definition present ::
  "sd_codec \<Rightarrow> sd_jwt \<Rightarrow> sd_disclosure list \<Rightarrow> kb_jwt_input option \<Rightarrow> sd_hasher \<Rightarrow> sd_jwt_error + sd_jwt" where
  "present c s revealed kb_input h =
     (let presentation = \<lparr>sj_jws = sj_jws s, sj_disclosures = revealed, sj_kb_jwt = None\<rparr>
      in case kb_input of
           None \<Rightarrow> Inr presentation
         | Some kb \<Rightarrow>
             let sd_hash = hash_b64 c h (bytes_of (serialize_without_kb presentation));
                 header = JObject [(''alg'', JString (sg_algorithm (kb_signer kb))), (''typ'', JString ''kb+jwt'')];
                 body = JObject [(''aud'', JString (kb_audience kb)), (''iat'', JNumber (PosInt (kb_iat kb))),
                                 (''nonce'', JString (kb_nonce kb)), (''sd_hash'', JString sd_hash)]
             in and_then (sign_jwt (kb_signer kb) header body) (\<lambda>jwt.
                Inr (presentation\<lparr>sj_kb_jwt := Some jwt\<rparr>)))"

definition select_disclosures :: "sd_jwt \<Rightarrow> string list \<Rightarrow> sd_disclosure list" where
  "select_disclosures s claim_names =
     filter (\<lambda>d. case d_claim_name d of None \<Rightarrow> False | Some name \<Rightarrow> name \<in> set claim_names) (sj_disclosures s)"

definition digest_map :: "sd_disclosure list \<Rightarrow> string \<Rightarrow> sd_disclosure option" where
  \<comment> \<open>collected into a \<open>HashMap\<close>: a later disclosure replaces an earlier one\<close>
  "digest_map disclosures = map_of (rev (map (\<lambda>d. (d_digest d, d)) disclosures))"

definition restore_claims :: "sd_disclosure list \<Rightarrow> json_object \<Rightarrow> json_object" where
  \<comment> \<open>\<open>resolve_object\<close> up to the nested values\<close>
  "restore_claims disclosures m =
     (let rest = bt_remove ''_sd'' m
      in case bt_get m ''_sd'' of
           Some (JArray digests) \<Rightarrow>
             fold (\<lambda>digest_val acc.
                 case as_str digest_val of
                   None \<Rightarrow> acc
                 | Some s \<Rightarrow>
                     (case digest_map disclosures s of
                        None \<Rightarrow> acc
                      | Some d \<Rightarrow> (case d_claim_name d of None \<Rightarrow> acc | Some name \<Rightarrow> bt_insert name (d_claim_value d) acc)))
               digests rest
         | _ \<Rightarrow> rest)"

definition placeholder :: "json \<Rightarrow> string option" where
  \<comment> \<open>the digest of an array element \<open>{"...": digest}\<close>\<close>
  "placeholder v = (case json_get v ''...'' of None \<Rightarrow> None | Some d \<Rightarrow> as_str d)"

definition restore_elements :: "sd_disclosure list \<Rightarrow> json list \<Rightarrow> json list" where
  \<comment> \<open>\<open>resolve_array\<close> up to the nested values\<close>
  "restore_elements disclosures a =
     List.map_filter (\<lambda>v. case placeholder v of
         None \<Rightarrow> Some v
       | Some s \<Rightarrow> map_option d_claim_value (digest_map disclosures s)) a"

fun resolve_value :: "nat \<Rightarrow> sd_disclosure list \<Rightarrow> json \<Rightarrow> json option" where
  \<comment> \<open>\<open>resolve_object\<close> and \<open>resolve_array\<close> with the match on the kind of value that their callers make\<close>
  "resolve_value 0 disclosures v = None"
| "resolve_value (Suc n) disclosures (JObject m) =
     map_option JObject
       (those (map (\<lambda>e. map_option (Pair (fst e)) (resolve_value n disclosures (snd e))) (restore_claims disclosures m)))"
| "resolve_value (Suc n) disclosures (JArray a) =
     map_option JArray (those (map (resolve_value n disclosures) (restore_elements disclosures a)))"
| "resolve_value (Suc n) disclosures v = Some v"

definition resolve_claims :: "nat \<Rightarrow> json \<Rightarrow> sd_disclosure list \<Rightarrow> json option" where
  "resolve_claims fuel payload disclosures =
     (case payload of
        JObject _ \<Rightarrow>
          (case resolve_value fuel disclosures payload of
             Some (JObject m) \<Rightarrow> Some (JObject (bt_remove ''_sd_alg'' (bt_remove ''_sd'' m)))
           | _ \<Rightarrow> None)
      | _ \<Rightarrow> Some payload)"

section \<open>Verifying\<close>

record verification_options =
  vo_verify_kb :: bool
  vo_expected_audience :: "string option"
  vo_expected_nonce :: "string option"

record verification_result =
  vr_claims :: json
  vr_kb_verified :: "bool option"

definition is_verified :: "verification_result \<Rightarrow> bool" where
  "is_verified r = (case vr_kb_verified r of None \<Rightarrow> True | Some b \<Rightarrow> b)"

fun check_duplicate_disclosures :: "string list \<Rightarrow> sd_disclosure list \<Rightarrow> sd_jwt_error + unit" where
  \<comment> \<open>first argument: the digests seen\<close>
  "check_duplicate_disclosures seen [] = Inr ()"
| "check_duplicate_disclosures seen (d # ds) =
     (if d_digest d \<in> set seen then Inl (Verification (''duplicate disclosure digest: '' @ d_digest d))
      else check_duplicate_disclosures (d_digest d # seen) ds)"

fun collect_digests :: "json \<Rightarrow> string set" where
  "collect_digests (JObject m) =
     (case bt_get m ''_sd'' of Some (JArray sd_array) \<Rightarrow> {s. JString s \<in> set sd_array} | _ \<Rightarrow> {}) \<union>
     (case bt_get m ''...'' of Some (JString s) \<Rightarrow> {s} | _ \<Rightarrow> {}) \<union>
     \<Union> (set (map (\<lambda>e. if fst e \<noteq> ''_sd'' then collect_digests (snd e) else {}) m))"
| "collect_digests (JArray a) = \<Union> (set (map collect_digests a))"
| "collect_digests _ = {}"

fun verify_disclosure_digests :: "sd_codec \<Rightarrow> sd_hasher \<Rightarrow> string set \<Rightarrow> sd_disclosure list \<Rightarrow> sd_jwt_error + unit" where
  \<comment> \<open>third argument: \<open>all_digests\<close>, collected from the payload\<close>
  "verify_disclosure_digests c h all_digests [] = Inr ()"
| "verify_disclosure_digests c h all_digests (d # ds) =
     (let expected_digest = hash_b64 c h (bytes_of (d_serialized d))
      in if expected_digest \<notin> all_digests
         then Inl (Verification (''disclosure digest not found in payload: '' @ expected_digest))
         else verify_disclosure_digests c h all_digests ds)"

definition check_kb_claim :: "string \<Rightarrow> string option \<Rightarrow> json \<Rightarrow> sd_jwt_error + unit" where
  \<comment> \<open>the checks of \<open>aud\<close> and \<open>nonce\<close>\<close>
  "check_kb_claim name expected kb_payload =
     (case expected of
        None \<Rightarrow> Inr ()
      | Some ex \<Rightarrow>
          (case Option.bind (json_get kb_payload name) as_str of
             None \<Rightarrow> Inl (KeyBinding (name @ '' missing in KB-JWT''))
           | Some actual \<Rightarrow>
               if actual \<noteq> ex then Inl (KeyBinding (name @ '' mismatch: expected '' @ ex @ '', got '' @ actual)) else Inr ()))"

definition verify_key_binding ::
  "sd_codec \<Rightarrow> sd_hasher \<Rightarrow> json \<Rightarrow> sd_jwt \<Rightarrow> verification_options \<Rightarrow> jwt_verifier option \<Rightarrow> sd_jwt_error + bool option" where
  "verify_key_binding c h payload s options holder_verifier =
     (if vo_verify_kb options
      then case sj_kb_jwt s of
          None \<Rightarrow> Inl (KeyBinding ''key binding verification requested but no KB-JWT present'')
        | Some kb_jwt_str \<Rightarrow>
            (case Option.bind (json_get payload ''cnf'') (\<lambda>v. json_get v ''jwk'') of
               None \<Rightarrow> Inl (KeyBinding ''cnf.jwk required in payload for key binding verification'')
             | Some _ \<Rightarrow>
                 (case holder_verifier of
                    None \<Rightarrow> Inl (KeyBinding ''holder_verifier required when verify_kb is true'')
                  | Some hv \<Rightarrow>
                      and_then (hv kb_jwt_str) (\<lambda>kb_payload.
                      let expected_sd_hash = hash_b64 c h (bytes_of (serialize_without_kb s))
                      in case Option.bind (json_get kb_payload ''sd_hash'') as_str of
                           None \<Rightarrow> Inl (KeyBinding ''sd_hash missing in KB-JWT'')
                         | Some actual_sd_hash \<Rightarrow>
                             if actual_sd_hash \<noteq> expected_sd_hash
                             then Inl (KeyBinding (''sd_hash mismatch: expected '' @ expected_sd_hash @ '', got '' @ actual_sd_hash))
                             else
                               and_then (check_kb_claim ''aud'' (vo_expected_audience options) kb_payload) (\<lambda>_.
                               and_then (check_kb_claim ''nonce'' (vo_expected_nonce options) kb_payload) (\<lambda>_.
                               Inr (Some True))))))
      else Inr (map_option (\<lambda>_. False) (sj_kb_jwt s)))"

definition sd_jwt_verify ::
  "nat \<Rightarrow> sd_codec \<Rightarrow> sd_jwt \<Rightarrow> jwt_verifier \<Rightarrow> sd_hasher \<Rightarrow> verification_options \<Rightarrow> jwt_verifier option \<Rightarrow>
   (sd_jwt_error + verification_result) option" where
  \<comment> \<open>\<open>None\<close>: restoring the claims has not ended\<close>
  "sd_jwt_verify fuel c s issuer_verifier h options holder_verifier =
     (case issuer_verifier (sj_jws s) of
        Inl e \<Rightarrow> Some (Inl e)
      | Inr payload \<Rightarrow>
          if (case Option.bind (json_get payload ''_sd_alg'') as_str of Some alg \<Rightarrow> alg \<noteq> alg_name h | None \<Rightarrow> False)
          then Some (Inl (Verification (''_sd_alg mismatch: expected '' @ alg_name h @ '', got '' @
                 the (Option.bind (json_get payload ''_sd_alg'') as_str))))
          else case check_duplicate_disclosures [] (sj_disclosures s) of
              Inl e \<Rightarrow> Some (Inl e)
            | Inr _ \<Rightarrow>
                (case verify_disclosure_digests c h (collect_digests payload) (sj_disclosures s) of
                   Inl e \<Rightarrow> Some (Inl e)
                 | Inr _ \<Rightarrow>
                     (case resolve_claims fuel payload (sj_disclosures s) of
                        None \<Rightarrow> None
                      | Some claims \<Rightarrow>
                          Some (and_then (verify_key_binding c h payload s options holder_verifier) (\<lambda>kb_verified.
                            Inr \<lparr>vr_claims = claims, vr_kb_verified = kb_verified\<rparr>)))))"

end
