(* ===== verification/Base64Laws.thy ===== *)
theory Base64Laws
  imports CesrTables
begin

text \<open>
  What the token formats rely on of base64url without padding (\<open>URL_SAFE_NO_PAD\<close> of the crate \<open>base64\<close>): a text that
  was encoded decodes to its bytes and holds letters of the alphabet only. \<open>hex_codec\<close> is a codec for which this holds.
\<close>

definition b64_ok :: "b64_codec \<Rightarrow> bool" where
  "b64_ok b \<longleftrightarrow> (\<forall>d. b64_decode_vec b (b64_encode b d) = Inr d \<and> list_all is_b64_char (b64_encode b d)) \<and> b64_decode_vec b [] = Inr []"

lemma b64_okD:
  assumes "b64_ok b"
  shows "b64_decode_vec b (b64_encode b d) = Inr d" "CHR ''.'' \<notin> set (b64_encode b d)" "b64_encode b d = [] \<Longrightarrow> d = []"
proof -
  show "b64_decode_vec b (b64_encode b d) = Inr d" using assms by (simp add: b64_ok_def)
  show "b64_encode b d = [] \<Longrightarrow> d = []" using assms by (metis b64_ok_def sum.inject(2))
  have "\<not> is_b64_char (CHR ''.'')" by code_simp
  then show "CHR ''.'' \<notin> set (b64_encode b d)" using assms by (auto simp: b64_ok_def list_all_iff)
qed

fun hex_text :: "byte list \<Rightarrow> string" where
  "hex_text [] = []"
| "hex_text (w # ws) = b64_chars ! (unat w div 16) # b64_chars ! (unat w mod 16) # hex_text ws"

fun hex_bytes :: "string \<Rightarrow> byte list" where
  "hex_bytes (a # b # r) = of_nat (the (b64_index a) * 16 + the (b64_index b)) # hex_bytes r"
| "hex_bytes _ = []"

definition hex_codec :: b64_codec where
  "hex_codec = \<lparr>b64_encode = hex_text, b64_decode_vec = (\<lambda>t. Inr (hex_bytes t))\<rparr>"

lemma alphabet_16: "list_all (\<lambda>i. b64_index (b64_chars ! i) = Some i) [0..<16]"
  by code_simp

lemma hex_codec_ok: "b64_ok hex_codec"
proof -
  have idx: "b64_index (b64_chars ! i) = Some i" if "i < 16" for i using alphabet_16 that by (simp add: list_all_iff)
  have low: "unat (w :: byte) div 16 < 16" for w
    using unsigned_less [of w, where 'a = nat] by (intro less_mult_imp_div_less) simp
  have "hex_bytes (hex_text d) = d \<and> list_all is_b64_char (hex_text d)" for d
    by (induction d rule: hex_text.induct) (simp_all add: idx low is_b64_char_def)
  then show ?thesis by (simp add: b64_ok_def hex_codec_def)
qed

end
