(* ===== verification/SdJwtProperties.thy ===== *)
theory SdJwtProperties
  imports SdJwt Base64Laws
begin

text \<open>
  What selective disclosure promises, from the issuer through the holder to the verifier. A frame makes some
  places of the claims disclosable; \<open>value_paths\<close> lists these places in the order in which the issuer makes
  disclosures for them, and \<open>prune\<close> removes a set of places from the claims. The main property is that a
  verifier who is shown some of the disclosures gets the claims without the places that were withheld.
\<close>

section \<open>Places in a value\<close>

datatype step = Key string | Idx nat

type_synonym path = "step list"

fun value_paths :: "json \<Rightarrow> json \<Rightarrow> path list"
  and member_paths :: "json_object option \<Rightarrow> (string \<times> json) list \<Rightarrow> path list"
  and element_paths :: "json \<Rightarrow> nat \<Rightarrow> json list \<Rightarrow> path list" where
  "value_paths (JObject m) frame = member_paths (as_object frame) m"
| "value_paths (JArray a) frame = element_paths frame 0 a"
| "value_paths _ frame = []"
| "member_paths frame [] = []"
| "member_paths frame ((k, v) # rest) =
     map (Cons (Key k)) (case frame_get frame k of None \<Rightarrow> [] | Some sub \<Rightarrow> value_paths v sub) @
     (if k \<in> set (frame_list frame) then [[Key k]] else []) @ member_paths frame rest"
| "element_paths frame i [] = []"
| "element_paths frame i (v # rest) =
     (if i \<in> set (sd_indices frame) then [[Idx i]]
      else map (Cons (Idx i)) (case frame_get (as_object frame) (show_nat i) of None \<Rightarrow> [] | Some sub \<Rightarrow> value_paths v sub)) @
     element_paths frame (Suc i) rest"

definition under :: "step \<Rightarrow> path set \<Rightarrow> path set" where
  "under s H = {p. p \<noteq> [] \<and> s # p \<in> H}"

fun prune :: "path set \<Rightarrow> json \<Rightarrow> json"
  and prune_members :: "path set \<Rightarrow> (string \<times> json) list \<Rightarrow> (string \<times> json) list"
  and prune_elements :: "path set \<Rightarrow> nat \<Rightarrow> json list \<Rightarrow> json list" where
  "prune H (JObject m) = JObject (prune_members H m)"
| "prune H (JArray a) = JArray (prune_elements H 0 a)"
| "prune H v = v"
| "prune_members H [] = []"
| "prune_members H ((k, v) # m) =
     (if [Key k] \<in> H then prune_members H m else (k, prune (under (Key k) H) v) # prune_members H m)"
| "prune_elements H i [] = []"
| "prune_elements H i (v # a) =
     (if [Idx i] \<in> H then prune_elements H (Suc i) a else prune (under (Idx i) H) v # prune_elements H (Suc i) a)"

definition nested :: "path list \<Rightarrow> path \<Rightarrow> bool" where
  \<comment> \<open>a place inside another disclosable place\<close>
  "nested ps p \<longleftrightarrow> (\<exists>q r. q \<in> set ps \<and> r \<noteq> [] \<and> p = q @ r)"

definition plain :: "json \<Rightarrow> bool" where
  "plain v \<longleftrightarrow> ''_sd'' \<notin> json_keys v \<and> ''...'' \<notin> json_keys v"

section \<open>Values without digests\<close>

lemma under_empty [simp]: "under s {} = {}"
  by (simp add: under_def)

lemma prune_none [simp]:
  "prune {} v = v" "prune_members {} m = m" "prune_elements {} i a = a"
  by (induction "{} :: path set" v and "{} :: path set" m and "{} :: path set" i a rule: prune_prune_members_prune_elements.induct)
    simp_all

lemma plain_simps [simp]:
  "plain (JObject m) \<longleftrightarrow> ''_sd'' \<notin> fst ` set m \<and> ''...'' \<notin> fst ` set m \<and> (\<forall>(k, v) \<in> set m. plain v)"
  "plain (JArray a) \<longleftrightarrow> (\<forall>v \<in> set a. plain v)"
  by (auto simp: plain_def)

lemma plain_no_digest:
  "plain (JObject m) \<Longrightarrow> bt_get m ''_sd'' = None" "plain (JObject m) \<Longrightarrow> bt_get m ''...'' = None"
  by (simp_all add: bt_get_def map_of_eq_None_iff)

lemma bt_remove_absent: "k \<notin> fst ` set m \<Longrightarrow> bt_remove k m = m"
  by (auto simp: bt_remove_def filter_id_conv)

lemma plain_placeholder: "plain v \<Longrightarrow> placeholder v = None"
  by (cases v) (simp_all add: placeholder_def json_get_def plain_no_digest(2) del: plain_simps)

lemma those_map_Some: "(\<And>x. x \<in> set xs \<Longrightarrow> f x = Some (g x)) \<Longrightarrow> those (map f xs) = Some (map g xs)"
  by (induction xs) simp_all

lemma map_filter_Some: "(\<And>x. x \<in> set xs \<Longrightarrow> f x = Some x) \<Longrightarrow> List.map_filter f xs = xs"
  by (induction xs) (simp_all add: List.map_filter_simps)

lemma resolve_plain: "plain v \<Longrightarrow> json_depth v \<le> n \<Longrightarrow> resolve_value n R v = Some v"
proof (induction n arbitrary: v)
  case 0
  then show ?case by (cases v) simp_all
next
  case (Suc n)
  show ?case
  proof (cases v)
    case (JArray a)
    have "restore_elements R a = a"
      using Suc.prems(1) plain_placeholder by (auto simp: JArray restore_elements_def intro!: map_filter_Some)
    moreover have "those (map (resolve_value n R) a) = Some (map (\<lambda>v. v) a)"
      using Suc JArray depth_element [of _ a] by (intro those_map_Some Suc.IH) fastforce+
    ultimately show ?thesis by (simp add: JArray)
  next
    case (JObject m)
    have rest: "restore_claims R m = m"
      using Suc.prems(1) plain_no_digest(1) [of m] by (simp add: JObject restore_claims_def bt_remove_absent)
    have "resolve_value n R (snd e) = Some (snd e)" if "e \<in> set m" for e
    proof (rule Suc.IH)
      obtain k u where e: "e = (k, u)" by force
      show "plain (snd e)" using Suc.prems(1) that by (auto simp: JObject e)
      show "json_depth (snd e) \<le> n" using that Suc.prems(2) by (force simp: JObject e)
    qed
    then have "those (map (\<lambda>e. map_option (Pair (fst e)) (resolve_value n R (snd e))) m) = Some (map (\<lambda>e. e) m)"
      by (intro those_map_Some) simp
    then show ?thesis by (simp add: JObject rest)
  qed simp_all
qed

lemma collect_plain: "plain v \<Longrightarrow> collect_digests v = {}"
proof (induction v rule: collect_digests.induct)
  case (1 m)
  have "collect_digests (snd e) = {}" if e: "e \<in> set m" for e
  proof (rule 1(1) [OF e])
    show "fst e \<noteq> ''_sd''" using 1(2) e by force
    show "plain (snd e)" using 1(2) e by (cases e) auto
  qed
  then show ?case using plain_no_digest [OF 1(2)] by auto
qed auto

section \<open>What a processed value means\<close>

definition built :: "sd_codec \<Rightarrow> sd_hasher \<Rightarrow> sd_disclosure \<Rightarrow> bool" where
  "built c h d \<longleftrightarrow> d = disclosure_build c h (d_salt d) (d_claim_name d) (d_claim_value d)"

definition covers :: "sd_disclosure list \<Rightarrow> sd_disclosure list \<Rightarrow> path list \<Rightarrow> path set \<Rightarrow> bool" where
  \<comment> \<open>of the disclosures \<open>ds\<close> for the places \<open>ps\<close>, those for \<open>H\<close> are withheld from \<open>R\<close> and the others are in it\<close>
  "covers R ds ps H \<longleftrightarrow> (\<forall>(d, p) \<in> set (zip ds ps). digest_map R (d_digest d) = (if p \<in> H then None else Some d))"

definition decoys :: "sd_codec \<Rightarrow> sd_hasher \<Rightarrow> rng \<Rightarrow> string set" where
  "decoys c h rng = range (generate_decoy_digest c h rng)"

definition outer :: "sd_disclosure list \<Rightarrow> path list \<Rightarrow> string set" where
  "outer ds ps = {d_digest d |d p. (d, p) \<in> set (zip ds ps) \<and> \<not> nested ps p}"

definition restores :: "sd_codec \<Rightarrow> sd_hasher \<Rightarrow> rng \<Rightarrow> json \<Rightarrow> json \<Rightarrow> sd_disclosure list \<Rightarrow> path list \<Rightarrow> bool" where
  "restores c h rng v v' ds ps \<longleftrightarrow>
     (\<forall>R H. H \<subseteq> set ps \<longrightarrow> covers R ds ps H \<longrightarrow> (\<forall>s \<in> decoys c h rng. digest_map R s = None) \<longrightarrow>
        (\<exists>n0. \<forall>n \<ge> n0. resolve_value n R v' = Some (prune H v)))"

definition encodes :: "sd_codec \<Rightarrow> sd_hasher \<Rightarrow> rng \<Rightarrow> json \<Rightarrow> json \<Rightarrow> sd_disclosure list \<Rightarrow> path list \<Rightarrow> bool" where
  "encodes c h rng v v' ds ps \<longleftrightarrow>
     length ds = length ps \<and> distinct ps \<and> [] \<notin> set ps \<and> placeholder v' = None \<and> (\<forall>d \<in> set ds. built c h d) \<and>
     outer ds ps \<subseteq> collect_digests v' \<and> collect_digests v' \<subseteq> outer ds ps \<union> decoys c h rng \<and> restores c h rng v v' ds ps"

lemma encodes_plain: "plain v \<Longrightarrow> encodes c h rng v v [] []"
  using resolve_plain [of v] by (auto simp: encodes_def plain_placeholder outer_def collect_plain restores_def)

lemma encodes_D:
  assumes "encodes c h rng v v' ds ps"
  shows "length ds = length ps" "distinct ps" "[] \<notin> set ps" "placeholder v' = None" "\<forall>d \<in> set ds. built c h d"
    "outer ds ps \<subseteq> collect_digests v'" "collect_digests v' \<subseteq> outer ds ps \<union> decoys c h rng" "restores c h rng v v' ds ps"
  using assms unfolding encodes_def by blast+

lemma zip_concat_map:
  "(\<And>x. x \<in> set xs \<Longrightarrow> length (f x) = length (g x)) \<Longrightarrow>
     zip (concat (map f xs)) (concat (map g xs)) = concat (map (\<lambda>x. zip (f x) (g x)) xs)"
  by (induction xs) simp_all

lemma eventually_all:
  "(\<And>x. x \<in> set xs \<Longrightarrow> \<exists>n0. \<forall>n \<ge> n0. P n x) \<Longrightarrow> \<exists>n0. \<forall>n \<ge> n0. \<forall>x \<in> set xs. P (n :: nat) x"
proof (induction xs)
  case (Cons x xs)
  obtain a where a: "\<forall>n \<ge> a. P n x" using Cons.prems [of x] by auto
  obtain b where b: "\<forall>n \<ge> b. \<forall>y \<in> set xs. P n y" using Cons by auto
  have "\<forall>n \<ge> max a b. \<forall>y \<in> set (x # xs). P n y" using a b by auto
  then show ?case by blast
qed simp

section \<open>Objects\<close>

record member =
  mb_key :: string
  mb_value :: json
  mb_processed :: json
  mb_sub :: "sd_disclosure list"
  mb_paths :: "path list"
  mb_claim :: "sd_disclosure option"

definition mb_ds :: "member \<Rightarrow> sd_disclosure list" where
  "mb_ds m = mb_sub m @ (case mb_claim m of None \<Rightarrow> [] | Some d \<Rightarrow> [d])"

definition mb_ps :: "member \<Rightarrow> path list" where
  "mb_ps m = map (Cons (Key (mb_key m))) (mb_paths m) @ (if mb_claim m = None then [] else [[Key (mb_key m)]])"

definition member_ok :: "sd_codec \<Rightarrow> sd_hasher \<Rightarrow> rng \<Rightarrow> member \<Rightarrow> bool" where
  "member_ok c h rng m \<longleftrightarrow>
     encodes c h rng (mb_value m) (mb_processed m) (mb_sub m) (mb_paths m) \<and> mb_key m \<noteq> ''_sd'' \<and> mb_key m \<noteq> ''...'' \<and>
     (\<forall>d. mb_claim m = Some d \<longrightarrow> d_claim_name d = Some (mb_key m) \<and> d_claim_value d = mb_processed m \<and> built c h d)"

definition claim_digests :: "member list \<Rightarrow> string set" where
  "claim_digests ms = {d_digest d |d m. m \<in> set ms \<and> mb_claim m = Some d}"

definition payload_obj :: "sd_codec \<Rightarrow> sd_hasher \<Rightarrow> rng \<Rightarrow> member list \<Rightarrow> json_object \<Rightarrow> bool" where
  "payload_obj c h rng ms obj \<longleftrightarrow> bt_wf obj \<and>
     (\<exists>digests. claim_digests ms \<subseteq> set digests \<and> set digests \<subseteq> claim_digests ms \<union> decoys c h rng \<and>
        set obj = {(mb_key m, mb_processed m) |m. m \<in> set ms \<and> mb_claim m = None} \<union>
          (if digests = [] then {} else {(''_sd'', JArray (map JString digests))}))"

definition members_ok :: "sd_codec \<Rightarrow> sd_hasher \<Rightarrow> rng \<Rightarrow> member list \<Rightarrow> bool" where
  "members_ok c h rng ms \<longleftrightarrow> (\<forall>m \<in> set ms. member_ok c h rng m) \<and> sorted_wrt (<) (map mb_key ms)"

lemma member_unique:
  "members_ok c h rng ms \<Longrightarrow> m \<in> set ms \<Longrightarrow> m' \<in> set ms \<Longrightarrow> mb_key m = mb_key m' \<Longrightarrow> m = m'"
  unfolding members_ok_def strict_sorted_iff distinct_map inj_on_def by blast

lemma member_lengths: "member_ok c h rng m \<Longrightarrow> length (mb_ds m) = length (mb_ps m)"
  by (auto simp: member_ok_def encodes_def mb_ds_def mb_ps_def split: option.split)

lemma zip_member:
  assumes "member_ok c h rng m"
  shows "set (zip (mb_ds m) (mb_ps m)) =
    {(d, Key (mb_key m) # p) |d p. (d, p) \<in> set (zip (mb_sub m) (mb_paths m))} \<union> {(d, [Key (mb_key m)]) |d. mb_claim m = Some d}"
proof -
  have "length (mb_sub m) = length (mb_paths m)" using assms by (simp add: member_ok_def encodes_def)
  then show ?thesis
    by (auto simp: mb_ds_def mb_ps_def zip_map2 split: option.splits)
qed

lemma zip_members:
  assumes "members_ok c h rng ms"
  shows "set (zip (concat (map mb_ds ms)) (concat (map mb_ps ms))) = (\<Union>m \<in> set ms. set (zip (mb_ds m) (mb_ps m)))"
proof -
  have "length (mb_ds m) = length (mb_ps m)" if "m \<in> set ms" for m
    using assms that member_lengths unfolding members_ok_def by blast
  then show ?thesis by (subst zip_concat_map) simp_all
qed

lemma set_mb_ps: "p \<in> set (mb_ps m) \<longleftrightarrow> (\<exists>q. p = Key (mb_key m) # q \<and> (q \<in> set (mb_paths m) \<or> q = [] \<and> mb_claim m \<noteq> None))"
  by (auto simp: mb_ps_def)

lemma members_distinct:
  assumes "members_ok c h rng ms"
  shows "distinct (concat (map mb_ps ms))" "[] \<notin> set (concat (map mb_ps ms))"
proof -
  show "[] \<notin> set (concat (map mb_ps ms))" by (auto simp: set_mb_ps)
  have one: "distinct (mb_ps m)" if "m \<in> set ms" for m
    using assms that by (auto simp: members_ok_def member_ok_def encodes_def mb_ps_def distinct_map)
  have keys: "distinct (map mb_key ms)" using assms by (simp add: members_ok_def strict_sorted_iff)
  show "distinct (concat (map mb_ps ms))" using one keys
  proof (induction ms)
    case (Cons m ms)
    have "set (mb_ps m) \<inter> set (concat (map mb_ps ms)) = {}"
      using Cons.prems(2) by (auto simp: set_mb_ps)
    then show ?case using Cons by auto
  qed simp
qed

lemma nested_member:
  assumes "members_ok c h rng ms" "m \<in> set ms"
  shows "nested (concat (map mb_ps ms)) (Key (mb_key m) # q) \<longleftrightarrow> (mb_claim m \<noteq> None \<and> q \<noteq> []) \<or> nested (mb_paths m) q"
proof
  assume "nested (concat (map mb_ps ms)) (Key (mb_key m) # q)"
  then obtain q' r m' where q': "m' \<in> set ms" "q' \<in> set (mb_ps m')" "r \<noteq> []" "Key (mb_key m) # q = q' @ r"
    by (auto simp: nested_def)
  then obtain q'' where q'': "q' = Key (mb_key m') # q''" "q'' \<in> set (mb_paths m') \<or> q'' = [] \<and> mb_claim m' \<noteq> None"
    by (auto simp: set_mb_ps)
  have "mb_key m' = mb_key m" "q = q'' @ r" using q'(4) q''(1) by simp_all
  then have "m' = m" "q = q'' @ r" using member_unique [OF assms(1) q'(1) assms(2)] by simp_all
  then show "(mb_claim m \<noteq> None \<and> q \<noteq> []) \<or> nested (mb_paths m) q" using q'' q'(3) by (auto simp: nested_def)
next
  assume "(mb_claim m \<noteq> None \<and> q \<noteq> []) \<or> nested (mb_paths m) q"
  then show "nested (concat (map mb_ps ms)) (Key (mb_key m) # q)"
  proof
    assume "mb_claim m \<noteq> None \<and> q \<noteq> []"
    then have "[Key (mb_key m)] \<in> set (concat (map mb_ps ms))" "Key (mb_key m) # q = [Key (mb_key m)] @ q" "q \<noteq> []"
      using assms(2) by (auto simp: set_mb_ps)
    then show ?thesis unfolding nested_def by blast
  next
    assume "nested (mb_paths m) q"
    then obtain a r where "a \<in> set (mb_paths m)" "r \<noteq> []" "q = a @ r" by (auto simp: nested_def)
    then have "Key (mb_key m) # a \<in> set (concat (map mb_ps ms))" "Key (mb_key m) # q = (Key (mb_key m) # a) @ r" "r \<noteq> []"
      using assms(2) by (auto simp: set_mb_ps)
    then show ?thesis unfolding nested_def by blast
  qed
qed

lemma outer_members:
  assumes "members_ok c h rng ms"
  shows "outer (concat (map mb_ds ms)) (concat (map mb_ps ms)) =
    claim_digests ms \<union> (\<Union>m \<in> {m \<in> set ms. mb_claim m = None}. outer (mb_sub m) (mb_paths m))" (is "?L = ?R")
proof -
  have pairs: "set (zip (concat (map mb_ds ms)) (concat (map mb_ps ms))) =
      (\<Union>m \<in> set ms. {(d, Key (mb_key m) # p) |d p. (d, p) \<in> set (zip (mb_sub m) (mb_paths m))} \<union>
         {(d, [Key (mb_key m)]) |d. mb_claim m = Some d})"
    unfolding zip_members [OF assms]
    using assms zip_member by (intro SUP_cong refl) (auto simp: members_ok_def)
  have nonempty: "q \<noteq> []" if "m \<in> set ms" "(d, q) \<in> set (zip (mb_sub m) (mb_paths m))" for m d q
    using assms that unfolding members_ok_def member_ok_def encodes_def by (metis set_zip_rightD)
  have top: "\<not> nested ps []" for ps by (simp add: nested_def)
  let ?N = "nested (concat (map mb_ps ms))"
  have L: "?L = (\<Union>m \<in> set ms. {d_digest d |d p. (d, p) \<in> set (zip (mb_sub m) (mb_paths m)) \<and> \<not> ?N (Key (mb_key m) # p)} \<union>
       {d_digest d |d. mb_claim m = Some d \<and> \<not> ?N [Key (mb_key m)]})"
    unfolding outer_def pairs by blast
  have one: "{d_digest d |d p. (d, p) \<in> set (zip (mb_sub m) (mb_paths m)) \<and> \<not> ?N (Key (mb_key m) # p)} =
      (if mb_claim m = None then outer (mb_sub m) (mb_paths m) else {})" if "m \<in> set ms" for m
    unfolding nested_member [OF assms that] outer_def using nonempty [OF that] by auto
  have two: "{d_digest d |d. mb_claim m = Some d \<and> \<not> ?N [Key (mb_key m)]} = {d_digest d |d. mb_claim m = Some d}" if "m \<in> set ms" for m
    unfolding nested_member [OF assms that] using top by simp
  have "?L = (\<Union>m \<in> set ms. (if mb_claim m = None then outer (mb_sub m) (mb_paths m) else {}) \<union> {d_digest d |d. mb_claim m = Some d})"
    unfolding L using one two by (intro SUP_cong refl) simp
  then show ?thesis by (auto simp: claim_digests_def split: if_splits)
qed

lemma payload_get:
  assumes "members_ok c h rng ms" "payload_obj c h rng ms obj"
  obtains digests where "claim_digests ms \<subseteq> set digests" "set digests \<subseteq> claim_digests ms \<union> decoys c h rng"
    "set obj = {(mb_key m, mb_processed m) |m. m \<in> set ms \<and> mb_claim m = None} \<union>
       (if digests = [] then {} else {(''_sd'', JArray (map JString digests))})"
    "bt_get obj ''_sd'' = (if digests = [] then None else Some (JArray (map JString digests)))" "bt_get obj ''...'' = None"
proof -
  obtain digests where d: "claim_digests ms \<subseteq> set digests" "set digests \<subseteq> claim_digests ms \<union> decoys c h rng"
      "set obj = {(mb_key m, mb_processed m) |m. m \<in> set ms \<and> mb_claim m = None} \<union>
         (if digests = [] then {} else {(''_sd'', JArray (map JString digests))})"
    using assms(2) unfolding payload_obj_def by blast
  have keys: "\<forall>m \<in> set ms. ''_sd'' \<noteq> mb_key m \<and> ''...'' \<noteq> mb_key m"
    using assms(1) by (auto simp: members_ok_def member_ok_def)
  have dist: "distinct (map fst obj)" using assms(2) by (simp add: payload_obj_def bt_wf_def strict_sorted_iff)
  have sd: "bt_get obj ''_sd'' = (if digests = [] then None else Some (JArray (map JString digests)))"
  proof (cases "digests = []")
    case True
    then have "''_sd'' \<notin> fst ` set obj" using d(3) keys by auto
    then show ?thesis using True by (simp add: bt_get_def map_of_eq_None_iff)
  next
    case False
    then have "(''_sd'', JArray (map JString digests)) \<in> set obj" using d(3) by simp
    then show ?thesis using False dist by (simp add: bt_get_def)
  qed
  have "''...'' \<notin> fst ` set obj" using d(3) keys by (auto split: if_splits)
  then have "bt_get obj ''...'' = None" by (simp add: bt_get_def map_of_eq_None_iff)
  with d sd that show ?thesis by blast
qed

lemma collect_payload:
  assumes "members_ok c h rng ms" "payload_obj c h rng ms obj"
  shows "outer (concat (map mb_ds ms)) (concat (map mb_ps ms)) \<subseteq> collect_digests (JObject obj)"
    and "collect_digests (JObject obj) \<subseteq> outer (concat (map mb_ds ms)) (concat (map mb_ps ms)) \<union> decoys c h rng"
proof -
  obtain digests where d: "claim_digests ms \<subseteq> set digests" "set digests \<subseteq> claim_digests ms \<union> decoys c h rng"
      "set obj = {(mb_key m, mb_processed m) |m. m \<in> set ms \<and> mb_claim m = None} \<union>
         (if digests = [] then {} else {(''_sd'', JArray (map JString digests))})"
      "bt_get obj ''_sd'' = (if digests = [] then None else Some (JArray (map JString digests)))" "bt_get obj ''...'' = None"
    by (rule payload_get [OF assms]) iprover
  have keys: "mb_key m \<noteq> ''_sd''" if "m \<in> set ms" for m using assms(1) that by (auto simp: members_ok_def member_ok_def)
  have "\<Union> (set (map (\<lambda>e. if fst e \<noteq> ''_sd'' then collect_digests (snd e) else {}) obj)) =
      (\<Union>m \<in> {m \<in> set ms. mb_claim m = None}. collect_digests (mb_processed m))"
    unfolding set_map d(3) using keys by (auto split: if_splits)
  then have all: "collect_digests (JObject obj) = set digests \<union> (\<Union>m \<in> {m \<in> set ms. mb_claim m = None}. collect_digests (mb_processed m))"
    using d(4,5) by auto
  have sub: "outer (mb_sub m) (mb_paths m) \<subseteq> collect_digests (mb_processed m)"
      "collect_digests (mb_processed m) \<subseteq> outer (mb_sub m) (mb_paths m) \<union> decoys c h rng" if "m \<in> set ms" for m
    using assms(1) that by (auto simp: members_ok_def member_ok_def encodes_def)
  show "outer (concat (map mb_ds ms)) (concat (map mb_ps ms)) \<subseteq> collect_digests (JObject obj)"
    unfolding all outer_members [OF assms(1)] using d(1) sub(1) by blast
  show "collect_digests (JObject obj) \<subseteq> outer (concat (map mb_ds ms)) (concat (map mb_ps ms)) \<union> decoys c h rng"
    unfolding all outer_members [OF assms(1)] using d(2) sub(2) by blast
qed

lemma fold_restore:
  assumes "bt_wf acc" "bt_wf T" "set acc \<subseteq> set T" "\<And>x e. x \<in> set xs \<Longrightarrow> f x = Some e \<Longrightarrow> e \<in> set T"
  shows "bt_wf (fold (\<lambda>x acc. case f x of None \<Rightarrow> acc | Some (k, v) \<Rightarrow> bt_insert k v acc) xs acc) \<and>
    set (fold (\<lambda>x acc. case f x of None \<Rightarrow> acc | Some (k, v) \<Rightarrow> bt_insert k v acc) xs acc) =
      set acc \<union> {e. \<exists>x \<in> set xs. f x = Some e}"
  using assms(1,3,4)
proof (induction xs arbitrary: acc)
  case (Cons x xs)
  show ?case
  proof (cases "f x")
    case None
    then show ?thesis using Cons.IH [OF Cons.prems(1,2)] Cons.prems(3) by (auto simp del: fold_simps)
  next
    case (Some e)
    obtain k v where e: "e = (k, v)" by force
    have T: "(k, v) \<in> set T" using Cons.prems(3) [of x] Some by (simp add: e)
    have "distinct (map fst T)" using assms(2) by (simp add: bt_wf_def strict_sorted_iff)
    then have single: "v' = v" if "(k, v') \<in> set acc" for v' using that T Cons.prems(2) by (meson eq_key_imp_eq_value subsetD)
    have ins: "set (bt_insert k v acc) = insert (k, v) (set acc)" "bt_wf (bt_insert k v acc)"
      using Cons.prems(1) single by (auto simp: set_bt_insert_wf bt_wf_insert)
    have "set (bt_insert k v acc) \<subseteq> set T" unfolding ins(1) using T Cons.prems(2) by simp
    moreover have "y \<in> set xs \<Longrightarrow> f y = Some e' \<Longrightarrow> e' \<in> set T" for y e' using Cons.prems(3) [of y e'] by simp
    ultimately show ?thesis using Cons.IH [OF ins(2)] by (auto simp: ins(1) Some e)
  qed
qed simp

definition shown :: "path set \<Rightarrow> member list \<Rightarrow> member list" where
  "shown H ms = filter (\<lambda>m. mb_claim m = None \<or> [Key (mb_key m)] \<notin> H) ms"

definition restored :: "sd_disclosure list \<Rightarrow> json \<Rightarrow> (string \<times> json) option" where
  \<comment> \<open>what one entry of an array \<open>_sd\<close> restores\<close>
  "restored R digest_val =
     (case as_str digest_val of
        None \<Rightarrow> None
      | Some s \<Rightarrow>
          (case digest_map R s of
             None \<Rightarrow> None
           | Some d \<Rightarrow> (case d_claim_name d of None \<Rightarrow> None | Some name \<Rightarrow> Some (name, d_claim_value d))))"

lemma restore_claims_fold:
  "restore_claims R m =
     (case bt_get m ''_sd'' of
        Some (JArray digests) \<Rightarrow>
          fold (\<lambda>x acc. case restored R x of None \<Rightarrow> acc | Some (k, v) \<Rightarrow> bt_insert k v acc) digests (bt_remove ''_sd'' m)
      | _ \<Rightarrow> bt_remove ''_sd'' m)"
proof -
  have "(\<lambda>digest_val acc. case as_str digest_val of None \<Rightarrow> acc
      | Some s \<Rightarrow> (case digest_map R s of None \<Rightarrow> acc
          | Some d \<Rightarrow> (case d_claim_name d of None \<Rightarrow> acc | Some name \<Rightarrow> bt_insert name (d_claim_value d) acc))) =
    (\<lambda>x acc. case restored R x of None \<Rightarrow> acc | Some (k, v) \<Rightarrow> bt_insert k v acc)"
    by (intro ext) (simp add: restored_def split: option.split)
  then show ?thesis by (simp only: restore_claims_def Let_def)
qed

lemma covers_member:
  assumes "members_ok c h rng ms" "covers R (concat (map mb_ds ms)) (concat (map mb_ps ms)) H" "m \<in> set ms"
  shows "mb_claim m = Some d \<Longrightarrow> digest_map R (d_digest d) = (if [Key (mb_key m)] \<in> H then None else Some d)"
    and "covers R (mb_sub m) (mb_paths m) (under (Key (mb_key m)) H)"
proof -
  have ok: "member_ok c h rng m" using assms(1,3) by (simp add: members_ok_def)
  have all: "digest_map R (d_digest d) = (if p \<in> H then None else Some d)" if "(d, p) \<in> set (zip (mb_ds m) (mb_ps m))" for d p
    using assms(2,3) that unfolding covers_def zip_members [OF assms(1)] by blast
  then show "mb_claim m = Some d \<Longrightarrow> digest_map R (d_digest d) = (if [Key (mb_key m)] \<in> H then None else Some d)"
    unfolding zip_member [OF ok] by blast
  have ne: "p \<noteq> []" if "(d, p) \<in> set (zip (mb_sub m) (mb_paths m))" for d p
    using ok that unfolding member_ok_def encodes_def by (metis set_zip_rightD)
  show "covers R (mb_sub m) (mb_paths m) (under (Key (mb_key m)) H)"
    using all ne unfolding zip_member [OF ok] covers_def under_def by fastforce
qed

lemma under_member:
  assumes "members_ok c h rng ms" "H \<subseteq> set (concat (map mb_ps ms))" "m \<in> set ms"
  shows "under (Key (mb_key m)) H \<subseteq> set (mb_paths m)" "[Key (mb_key m)] \<in> H \<Longrightarrow> mb_claim m \<noteq> None"
proof -
  have "q \<in> set (mb_paths m) \<or> q = [] \<and> mb_claim m \<noteq> None" if q: "Key (mb_key m) # q \<in> H" for q
  proof -
    obtain m' where m': "m' \<in> set ms" "Key (mb_key m) # q \<in> set (mb_ps m')" using q assms(2) by auto
    then have "mb_key m' = mb_key m" by (auto simp: set_mb_ps)
    then have "m' = m" using member_unique [OF assms(1) m'(1) assms(3)] by blast
    then show ?thesis using m'(2) by (simp add: set_mb_ps)
  qed
  moreover have "[] \<notin> set (mb_paths m)" using assms(1,3) by (auto simp: members_ok_def member_ok_def encodes_def)
  ultimately show "under (Key (mb_key m)) H \<subseteq> set (mb_paths m)" "[Key (mb_key m)] \<in> H \<Longrightarrow> mb_claim m \<noteq> None"
    by (auto simp: under_def)
qed

lemma restore_payload:
  assumes "members_ok c h rng ms" "payload_obj c h rng ms obj"
    and "covers R (concat (map mb_ds ms)) (concat (map mb_ps ms)) H" "\<forall>s \<in> decoys c h rng. digest_map R s = None"
  shows "restore_claims R obj = map (\<lambda>m. (mb_key m, mb_processed m)) (shown H ms)" (is "_ = ?T")
proof -
  obtain digests where d: "claim_digests ms \<subseteq> set digests" "set digests \<subseteq> claim_digests ms \<union> decoys c h rng"
      "set obj = {(mb_key m, mb_processed m) |m. m \<in> set ms \<and> mb_claim m = None} \<union>
         (if digests = [] then {} else {(''_sd'', JArray (map JString digests))})"
      "bt_get obj ''_sd'' = (if digests = [] then None else Some (JArray (map JString digests)))"
    by (rule payload_get [OF assms(1,2)]) iprover
  have keys: "\<forall>m \<in> set ms. ''_sd'' \<noteq> mb_key m" using assms(1) by (auto simp: members_ok_def member_ok_def)
  let ?acc = "bt_remove ''_sd'' obj"
  have acc: "set ?acc = {(mb_key m, mb_processed m) |m. m \<in> set ms \<and> mb_claim m = None}"
    using d(3) keys by (auto split: if_splits)
  have wf: "bt_wf ?acc" "bt_wf ?T"
  proof -
    show "bt_wf ?acc" using assms(2) by (simp add: payload_obj_def)
    have "sorted_wrt (\<lambda>x y. mb_key x < mb_key y) ms" using assms(1) by (simp add: members_ok_def sorted_wrt_map)
    then show "bt_wf ?T" by (simp add: bt_wf_def shown_def sorted_wrt_map sorted_wrt_filter)
  qed
  have hit: "restored R (JString s) = (if [Key (mb_key m)] \<in> H then None else Some (mb_key m, mb_processed m))"
    if "m \<in> set ms" "mb_claim m = Some dd" "s = d_digest dd" for s m dd
    using covers_member(1) [OF assms(1,3) that(1,2)] assms(1) that
    by (auto simp: restored_def members_ok_def member_ok_def)
  have miss: "restored R (JString s) = None" if "s \<in> decoys c h rng" for s using assms(4) that by (simp add: restored_def)
  have some: "{e. \<exists>x \<in> set (map JString digests). restored R x = Some e} =
      {(mb_key m, mb_processed m) |m. m \<in> set ms \<and> mb_claim m \<noteq> None \<and> [Key (mb_key m)] \<notin> H}" (is "?A = ?B")
  proof (intro equalityI subsetI)
    fix e
    assume "e \<in> ?A"
    then obtain s where s: "s \<in> set digests" "restored R (JString s) = Some e" by auto
    then have "s \<in> claim_digests ms" using d(2) miss by fastforce
    then obtain m dd where "m \<in> set ms" "mb_claim m = Some dd" "s = d_digest dd" by (auto simp: claim_digests_def)
    then show "e \<in> ?B" using hit [of m dd s] s(2) by (auto split: if_splits)
  next
    fix e
    assume "e \<in> ?B"
    then obtain m dd where m: "m \<in> set ms" "mb_claim m = Some dd" "[Key (mb_key m)] \<notin> H" "e = (mb_key m, mb_processed m)" by auto
    then have "d_digest dd \<in> set digests" using d(1) by (auto simp: claim_digests_def)
    then show "e \<in> ?A" using hit [OF m(1,2) refl] m(3,4) by auto
  qed
  have T: "set ?T = set ?acc \<union> {e. \<exists>x \<in> set (map JString digests). restored R x = Some e}"
    unfolding some acc by (auto simp: shown_def)
  let ?F = "fold (\<lambda>x acc. case restored R x of None \<Rightarrow> acc | Some (k, v) \<Rightarrow> bt_insert k v acc) (map JString digests) ?acc"
  have F: "bt_wf ?F \<and> set ?F = set ?acc \<union> {e. \<exists>x \<in> set (map JString digests). restored R x = Some e}"
  proof (rule fold_restore [OF wf(1) wf(2)])
    show "set ?acc \<subseteq> set ?T" unfolding T by (rule Un_upper1)
    show "e \<in> set ?T" if "x \<in> set (map JString digests)" "restored R x = Some e" for x e
      unfolding T using that by blast
  qed
  then have "?F = ?T" using T wf(2) by (intro bt_wf_unique) simp_all
  then show ?thesis unfolding restore_claims_fold d(4) by (cases "digests = []") simp_all
qed

definition claims_of :: "member list \<Rightarrow> (string \<times> json) list" where
  "claims_of ms = map (\<lambda>m. (mb_key m, mb_value m)) ms"

lemma prune_shown:
  "\<forall>m \<in> set ms. [Key (mb_key m)] \<in> H \<longrightarrow> mb_claim m \<noteq> None \<Longrightarrow>
     prune_members H (claims_of ms) = map (\<lambda>m. (mb_key m, prune (under (Key (mb_key m)) H) (mb_value m))) (shown H ms)"
  by (induction ms) (auto simp: claims_of_def shown_def)

lemma resolve_payload:
  assumes "members_ok c h rng ms" "payload_obj c h rng ms obj"
  shows "restores c h rng (JObject (claims_of ms)) (JObject obj) (concat (map mb_ds ms)) (concat (map mb_ps ms))"
  unfolding restores_def
proof (intro allI impI)
  fix R H
  assume H: "H \<subseteq> set (concat (map mb_ps ms))" and cov: "covers R (concat (map mb_ds ms)) (concat (map mb_ps ms)) H"
    and dec: "\<forall>s \<in> decoys c h rng. digest_map R s = None"
  have "\<exists>n0. \<forall>n \<ge> n0. resolve_value n R (mb_processed m) = Some (prune (under (Key (mb_key m)) H) (mb_value m))"
    if m: "m \<in> set ms" for m
  proof -
    have "restores c h rng (mb_value m) (mb_processed m) (mb_sub m) (mb_paths m)"
      using assms(1) m by (simp add: members_ok_def member_ok_def encodes_def)
    then show ?thesis
      using under_member(1) [OF assms(1) H m] covers_member(2) [OF assms(1) cov m] dec unfolding restores_def by blast
  qed
  then obtain n0 where n0: "\<forall>n \<ge> n0. \<forall>m \<in> set ms.
      resolve_value n R (mb_processed m) = Some (prune (under (Key (mb_key m)) H) (mb_value m))"
    using eventually_all [of ms "\<lambda>n m. resolve_value n R (mb_processed m) = Some (prune (under (Key (mb_key m)) H) (mb_value m))"] by blast
  have "resolve_value n R (JObject obj) = Some (prune H (JObject (claims_of ms)))" if n: "n \<ge> Suc n0" for n
  proof -
    obtain k where k: "n = Suc k" "k \<ge> n0" using n Suc_le_D by auto
    have "those (map (\<lambda>e. map_option (Pair (fst e)) (resolve_value k R (snd e))) (map (\<lambda>m. (mb_key m, mb_processed m)) (shown H ms))) =
        Some (map (\<lambda>m. (mb_key m, prune (under (Key (mb_key m)) H) (mb_value m))) (shown H ms))"
      unfolding map_map comp_def using n0 k(2) by (intro those_map_Some) (auto simp: shown_def)
    moreover have "\<forall>m \<in> set ms. [Key (mb_key m)] \<in> H \<longrightarrow> mb_claim m \<noteq> None" using under_member(2) [OF assms(1) H] by blast
    ultimately show ?thesis
      unfolding k(1) resolve_value.simps restore_payload [OF assms cov dec] by (simp only: prune_shown prune.simps option.map)
  qed
  then show "\<exists>n0. \<forall>n \<ge> n0. resolve_value n R (JObject obj) = Some (prune H (JObject (claims_of ms)))" by blast
qed

lemma encodes_object:
  assumes "members_ok c h rng ms" "payload_obj c h rng ms obj"
  shows "encodes c h rng (JObject (claims_of ms)) (JObject obj) (concat (map mb_ds ms)) (concat (map mb_ps ms))"
proof -
  have len: "length (concat (map mb_ds ms)) = length (concat (map mb_ps ms))"
    using assms(1) member_lengths unfolding members_ok_def length_concat map_map comp_def
    by (intro arg_cong [of _ _ sum_list] map_cong refl) blast
  have "\<forall>d \<in> set (concat (map mb_ds ms)). built c h d"
    using assms(1) by (auto simp: members_ok_def member_ok_def encodes_def mb_ds_def split: option.splits)
  moreover have "placeholder (JObject obj) = None"
    by (rule payload_get [OF assms]) (simp add: placeholder_def json_get_def)
  ultimately show ?thesis
    unfolding encodes_def using len members_distinct [OF assms(1)] collect_payload [OF assms] resolve_payload [OF assms] by blast
qed

section \<open>Arrays\<close>

definition restores_elements :: "sd_codec \<Rightarrow> sd_hasher \<Rightarrow> rng \<Rightarrow> nat \<Rightarrow> json list \<Rightarrow> json list \<Rightarrow> sd_disclosure list \<Rightarrow> path list \<Rightarrow> bool" where
  "restores_elements c h rng i a a' ds ps \<longleftrightarrow>
     (\<forall>R H. (\<forall>j q. Idx j # q \<in> H \<longrightarrow> i \<le> j \<longrightarrow> Idx j # q \<in> set ps) \<longrightarrow> covers R ds ps H \<longrightarrow>
        (\<forall>s \<in> decoys c h rng. digest_map R s = None) \<longrightarrow>
        (\<exists>n0. \<forall>n \<ge> n0. those (map (resolve_value n R) (restore_elements R a')) = Some (prune_elements H i a)))"

definition encodes_elements :: "sd_codec \<Rightarrow> sd_hasher \<Rightarrow> rng \<Rightarrow> nat \<Rightarrow> json list \<Rightarrow> json list \<Rightarrow> sd_disclosure list \<Rightarrow> path list \<Rightarrow> bool" where
  "encodes_elements c h rng i a a' ds ps \<longleftrightarrow>
     length ds = length ps \<and> distinct ps \<and> (\<forall>p \<in> set ps. \<exists>j q. p = Idx j # q \<and> i \<le> j) \<and> (\<forall>d \<in> set ds. built c h d) \<and>
     outer ds ps \<subseteq> \<Union> (collect_digests ` set a') \<and> \<Union> (collect_digests ` set a') \<subseteq> outer ds ps \<union> decoys c h rng \<and>
     restores_elements c h rng i a a' ds ps"

lemma restoresD:
  "restores c h rng v v' ds ps \<Longrightarrow> H \<subseteq> set ps \<Longrightarrow> covers R ds ps H \<Longrightarrow> \<forall>s \<in> decoys c h rng. digest_map R s = None \<Longrightarrow>
     \<exists>n0. \<forall>n \<ge> n0. resolve_value n R v' = Some (prune H v)"
  unfolding restores_def by iprover

lemma restores_elementsD:
  "restores_elements c h rng i a a' ds ps \<Longrightarrow> (\<And>j q. Idx j # q \<in> H \<Longrightarrow> i \<le> j \<Longrightarrow> Idx j # q \<in> set ps) \<Longrightarrow>
     covers R ds ps H \<Longrightarrow> \<forall>s \<in> decoys c h rng. digest_map R s = None \<Longrightarrow>
     \<exists>n0. \<forall>n \<ge> n0. those (map (resolve_value n R) (restore_elements R a')) = Some (prune_elements H i a)"
  unfolding restores_elements_def by iprover

lemma encodes_array:
  assumes "encodes_elements c h rng 0 a a' ds ps"
  shows "encodes c h rng (JArray a) (JArray a') ds ps"
proof -
  have "restores c h rng (JArray a) (JArray a') ds ps" unfolding restores_def
  proof (intro allI impI)
    fix R H
    assume H: "H \<subseteq> set ps" "covers R ds ps H" "\<forall>s \<in> decoys c h rng. digest_map R s = None"
    have "restores_elements c h rng 0 a a' ds ps" using assms by (simp add: encodes_elements_def)
    then obtain n0 where n0: "\<forall>n \<ge> n0. those (map (resolve_value n R) (restore_elements R a')) = Some (prune_elements H 0 a)"
      using restores_elementsD [OF _ _ H(2,3)] H(1) by blast
    have "resolve_value n R (JArray a') = Some (prune H (JArray a))" if "n \<ge> Suc n0" for n
      using that n0 by (cases n) simp_all
    then show "\<exists>n0. \<forall>n \<ge> n0. resolve_value n R (JArray a') = Some (prune H (JArray a))" by blast
  qed
  moreover have "[] \<notin> set ps" using assms unfolding encodes_elements_def by blast
  moreover have "collect_digests (JArray a') = \<Union> (collect_digests ` set a')" "placeholder (JArray a') = None"
    by (simp_all add: placeholder_def json_get_def)
  moreover have "length ds = length ps" "distinct ps" "\<forall>d \<in> set ds. built c h d"
    "outer ds ps \<subseteq> \<Union> (collect_digests ` set a')" "\<Union> (collect_digests ` set a') \<subseteq> outer ds ps \<union> decoys c h rng"
    using assms unfolding encodes_elements_def by blast+
  ultimately show ?thesis unfolding encodes_def by simp
qed

lemma outer_image: "outer ds ps = (\<lambda>x. d_digest (fst x)) ` {x \<in> set (zip ds ps). \<not> nested ps (snd x)}"
  by (force simp: outer_def)

lemma outer_append:
  assumes "length ds = length ps" "[] \<notin> set ps" "[] \<notin> set qs" "\<forall>p \<in> set ps. \<forall>q \<in> set qs. hd p \<noteq> hd q"
  shows "outer (ds @ es) (ps @ qs) = outer ds ps \<union> outer es qs"
proof -
  have split: "hd (q @ r) = hd q" if "q \<noteq> []" for q r :: path using that by simp
  have "nested (ps @ qs) p \<longleftrightarrow> nested ps p" if "p \<in> set ps" for p
    using assms(2,3,4) that split unfolding nested_def by (metis Un_iff set_append)
  then have one: "nested (ps @ qs) (snd x) \<longleftrightarrow> nested ps (snd x)" if "x \<in> set (zip ds ps)" for x
    using that by (cases x) (auto dest: set_zip_rightD)
  have "nested (ps @ qs) p \<longleftrightarrow> nested qs p" if "p \<in> set qs" for p
    using assms(2,3,4) that split unfolding nested_def by (metis Un_iff set_append)
  then have two: "nested (ps @ qs) (snd x) \<longleftrightarrow> nested qs (snd x)" if "x \<in> set (zip es qs)" for x
    using that by (cases x) (auto dest: set_zip_rightD)
  have "{x \<in> set (zip (ds @ es) (ps @ qs)). \<not> nested (ps @ qs) (snd x)} =
      {x \<in> set (zip ds ps). \<not> nested ps (snd x)} \<union> {x \<in> set (zip es qs). \<not> nested qs (snd x)}"
    using assms(1) one two by auto
  then show ?thesis unfolding outer_image by (simp only: image_Un)
qed

lemma outer_map_Cons: "outer ds (map (Cons s) ps) = outer ds ps" if "[] \<notin> set ps"
proof -
  have "nested (map (Cons s) ps) (s # p) \<longleftrightarrow> nested ps p" for p
    by (auto simp: nested_def Cons_eq_append_conv image_iff)
  then have "{x \<in> set (zip ds (map (Cons s) ps)). \<not> nested (map (Cons s) ps) (snd x)} =
      (\<lambda>x. (fst x, s # snd x)) ` {x \<in> set (zip ds ps). \<not> nested ps (snd x)}"
    by (force simp: zip_map2)
  then show ?thesis unfolding outer_image by (simp add: image_image)
qed

lemma covers_append: "length ds = length ps \<Longrightarrow> covers R (ds @ es) (ps @ qs) H \<longleftrightarrow> covers R ds ps H \<and> covers R es qs H"
  by (auto simp: covers_def)

lemma covers_map_Cons: "[] \<notin> set ps \<Longrightarrow> covers R ds (map (Cons s) ps) H \<Longrightarrow> covers R ds ps (under s H)"
  by (fastforce simp: covers_def zip_map2 under_def dest: set_zip_rightD)

lemma encodes_elements_Nil: "encodes_elements c h rng i [] [] [] []"
  by (simp add: encodes_elements_def outer_def restores_elements_def restore_elements_def List.map_filter_simps)

lemma encodes_elements_step:
  assumes rest: "encodes_elements c h rng (Suc i) a a' es qs"
    and first: "length ds = length ps" "distinct ps" "\<forall>p \<in> set ps. \<exists>q. p = Idx i # q" "\<forall>d \<in> set ds. built c h d"
      "outer ds ps \<subseteq> collect_digests v'" "collect_digests v' \<subseteq> outer ds ps \<union> decoys c h rng"
    and restores: "restores_elements c h rng i (v # a) (v' # a') (ds @ es) (ps @ qs)"
  shows "encodes_elements c h rng i (v # a) (v' # a') (ds @ es) (ps @ qs)"
proof -
  have qs: "\<forall>p \<in> set qs. \<exists>j q. p = Idx j # q \<and> Suc i \<le> j" using rest by (simp add: encodes_elements_def)
  have heads: "[] \<notin> set ps" "[] \<notin> set qs" "\<forall>p \<in> set ps. \<forall>q \<in> set qs. hd p \<noteq> hd q" using first(3) qs by fastforce+
  have "outer (ds @ es) (ps @ qs) = outer ds ps \<union> outer es qs" by (rule outer_append [OF first(1) heads])
  moreover have "set ps \<inter> set qs = {}" using heads(3) by blast
  moreover have "\<forall>p \<in> set (ps @ qs). \<exists>j q. p = Idx j # q \<and> i \<le> j" using first(3) qs by fastforce
  ultimately show ?thesis using rest first restores unfolding encodes_elements_def by auto
qed

lemma encodes_elements_open:
  assumes "encodes c h rng v v' ds ps" "encodes_elements c h rng (Suc i) a a' es qs"
  shows "encodes_elements c h rng i (v # a) (v' # a') (ds @ es) (map (Cons (Idx i)) ps @ qs)"
proof (rule encodes_elements_step [OF assms(2)])
  note v = encodes_D [OF assms(1)]
  have qs: "\<forall>p \<in> set qs. \<exists>j q. p = Idx j # q \<and> Suc i \<le> j" and rest: "restores_elements c h rng (Suc i) a a' es qs"
    using assms(2) by (simp_all add: encodes_elements_def)
  show "length ds = length (map (Cons (Idx i)) ps)" "distinct (map (Cons (Idx i)) ps)" "\<forall>d \<in> set ds. built c h d"
    "\<forall>p \<in> set (map (Cons (Idx i)) ps). \<exists>q. p = Idx i # q"
    using v(1,2,5) by (simp_all add: distinct_map)
  show "outer ds (map (Cons (Idx i)) ps) \<subseteq> collect_digests v'"
    "collect_digests v' \<subseteq> outer ds (map (Cons (Idx i)) ps) \<union> decoys c h rng"
    unfolding outer_map_Cons [OF v(3)] by (fact v(6), fact v(7))
  show "restores_elements c h rng i (v # a) (v' # a') (ds @ es) (map (Cons (Idx i)) ps @ qs)" unfolding restores_elements_def
  proof (intro allI impI)
    fix R H
    assume H: "\<forall>j q. Idx j # q \<in> H \<longrightarrow> i \<le> j \<longrightarrow> Idx j # q \<in> set (map (Cons (Idx i)) ps @ qs)"
      and cov: "covers R (ds @ es) (map (Cons (Idx i)) ps @ qs) H" and dec: "\<forall>s \<in> decoys c h rng. digest_map R s = None"
    have cov1: "covers R ds ps (under (Idx i) H)" and cov2: "covers R es qs H"
      using cov covers_append [of ds "map (Cons (Idx i)) ps"] covers_map_Cons [OF v(3)] v(1) by auto
    have sub: "under (Idx i) H \<subseteq> set ps" using H qs by (fastforce simp: under_def)
    have here: "[Idx i] \<notin> H" using H qs v(3) by fastforce
    obtain n1 where n1: "\<forall>n \<ge> n1. resolve_value n R v' = Some (prune (under (Idx i) H) v)"
      using restoresD [OF v(8) sub cov1 dec] by blast
    have "Idx j # q \<in> set qs" if "Idx j # q \<in> H" "Suc i \<le> j" for j q using H that by fastforce
    then obtain n2 where n2: "\<forall>n \<ge> n2. those (map (resolve_value n R) (restore_elements R a')) = Some (prune_elements H (Suc i) a)"
      using restores_elementsD [OF rest _ cov2 dec] by blast
    have "those (map (resolve_value n R) (restore_elements R (v' # a'))) = Some (prune_elements H i (v # a))" if "n \<ge> max n1 n2" for n
      using that n1 n2 here v(4) by (simp add: restore_elements_def List.map_filter_simps)
    then show "\<exists>n0. \<forall>n \<ge> n0. those (map (resolve_value n R) (restore_elements R (v' # a'))) = Some (prune_elements H i (v # a))"
      by blast
  qed
qed

lemma encodes_elements_closed:
  assumes "plain v" "built c h d" "d_claim_value d = v" "encodes_elements c h rng (Suc i) a a' es qs"
  shows "encodes_elements c h rng i (v # a) (JObject [(''...'', JString (d_digest d))] # a') (d # es) ([Idx i] # qs)"
proof -
  let ?v' = "JObject [(''...'', JString (d_digest d))]"
  have top: "\<not> nested [[Idx i]] [Idx i]" by (auto simp: nested_def)
  then have out: "outer [d] [[Idx i]] = {d_digest d}" by (auto simp: outer_def)
  have col: "collect_digests ?v' = {d_digest d}" by (simp add: bt_get_def)
  have qs: "\<forall>p \<in> set qs. \<exists>j q. p = Idx j # q \<and> Suc i \<le> j" and rest: "restores_elements c h rng (Suc i) a a' es qs"
    using assms(4) by (simp_all add: encodes_elements_def)
  have "restores_elements c h rng i (v # a) (?v' # a') ([d] @ es) ([[Idx i]] @ qs)" unfolding restores_elements_def
  proof (intro allI impI)
    fix R H
    assume H: "\<forall>j q. Idx j # q \<in> H \<longrightarrow> i \<le> j \<longrightarrow> Idx j # q \<in> set ([[Idx i]] @ qs)"
      and cov: "covers R ([d] @ es) ([[Idx i]] @ qs) H" and dec: "\<forall>s \<in> decoys c h rng. digest_map R s = None"
    have found: "digest_map R (d_digest d) = (if [Idx i] \<in> H then None else Some d)" and cov2: "covers R es qs H"
      using cov by (auto simp: covers_def)
    have sub: "under (Idx i) H = {}" using H qs by (fastforce simp: under_def)
    have "Idx j # q \<in> set qs" if "Idx j # q \<in> H" "Suc i \<le> j" for j q using H that by fastforce
    then obtain n2 where n2: "\<forall>n \<ge> n2. those (map (resolve_value n R) (restore_elements R a')) = Some (prune_elements H (Suc i) a)"
      using restores_elementsD [OF rest _ cov2 dec] by blast
    have "those (map (resolve_value n R) (restore_elements R (?v' # a'))) = Some (prune_elements H i (v # a))"
      if "n \<ge> max (json_depth v) n2" for n
      using that n2 found sub resolve_plain [OF assms(1), of n R] assms(3)
      by (simp add: restore_elements_def List.map_filter_simps placeholder_def json_get_def bt_get_def)
    then show "\<exists>n0. \<forall>n \<ge> n0. those (map (resolve_value n R) (restore_elements R (?v' # a'))) = Some (prune_elements H i (v # a))"
      by blast
  qed
  then have "encodes_elements c h rng i (v # a) (?v' # a') ([d] @ es) ([[Idx i]] @ qs)"
    using assms(2) by (intro encodes_elements_step [OF assms(4)]) (simp_all add: out col del: collect_digests.simps)
  then show ?thesis by simp
qed

section \<open>The issuer encodes the claims\<close>

definition processed_ok :: "sd_codec \<Rightarrow> sd_hasher \<Rightarrow> rng \<Rightarrow> json \<Rightarrow> bool" where
  "processed_ok c h rng v \<longleftrightarrow>
     (\<forall>frame st v' st'. json_wf v \<longrightarrow> plain v \<longrightarrow> process_value c h rng v frame st = Inr (v', st') \<longrightarrow>
        (\<exists>ds. snd st' = snd st @ ds \<and> encodes c h rng v v' ds (value_paths v frame)))"

abbreviation process_sub :: "sd_codec \<Rightarrow> sd_hasher \<Rightarrow> rng \<Rightarrow> json \<Rightarrow> json option \<Rightarrow> issuing \<Rightarrow> sd_jwt_error + json \<times> issuing" where
  "process_sub c h rng v sub st \<equiv> (case sub of Some sub_frame \<Rightarrow> process_value c h rng v sub_frame st | None \<Rightarrow> Inr (v, st))"

abbreviation sub_paths :: "json \<Rightarrow> json option \<Rightarrow> path list" where
  "sub_paths v sub \<equiv> (case sub of None \<Rightarrow> [] | Some f \<Rightarrow> value_paths v f)"

lemma process_sub_ok:
  assumes "processed_ok c h rng v" "json_wf v" "plain v" "process_sub c h rng v sub st = Inr (v', st')"
  obtains ds where "snd st' = snd st @ ds" "encodes c h rng v v' ds (sub_paths v sub)"
proof (cases sub)
  case None
  then show ?thesis using assms(3,4) encodes_plain [of v c h rng] by (intro that [of "[]"]) simp_all
next
  case (Some f)
  then have "process_value c h rng v f st = Inr (v', st')" using assms(4) by simp
  then obtain ds where "snd st' = snd st @ ds" "encodes c h rng v v' ds (value_paths v f)"
    using assms(1,2,3) unfolding processed_ok_def by blast
  then show ?thesis using Some by (intro that) simp_all
qed

lemma process_members_open:
  "key \<notin> set (frame_list frame) \<Longrightarrow> process_members c h rng frame ((key, v) # rest) result dg st =
     and_then (process_sub c h rng v (frame_get frame key) st)
       (\<lambda>(processed, st). process_members c h rng frame rest (bt_insert key processed result) dg st)"
  by (cases "frame_get frame key"; cases v) (simp_all add: and_then_def split: sum.split prod.split)

lemma built_new:
  "built c h (new_claim c h rng k name v)" "d_claim_name (new_claim c h rng k name v) = Some name"
  "d_claim_value (new_claim c h rng k name v) = v"
  "built c h (new_array_element c h rng k v)" "d_claim_value (new_array_element c h rng k v) = v"
  by (simp_all add: built_def new_claim_def new_array_element_def disclosure_build_def Let_def)

definition open_members :: "member list \<Rightarrow> (string \<times> json) list" where
  "open_members ms = map (\<lambda>m. (mb_key m, mb_processed m)) (filter (\<lambda>m. mb_claim m = None) ms)"

lemma members_ok_Cons:
  "member_ok c h rng m \<Longrightarrow> members_ok c h rng ms \<Longrightarrow> \<forall>e \<in> set (claims_of ms). mb_key m < fst e \<Longrightarrow> members_ok c h rng (m # ms)"
  by (auto simp: members_ok_def claims_of_def)

lemma process_members_ok:
  assumes "\<forall>(k, v) \<in> set rest. processed_ok c h rng v" "json_wf (JObject rest)" "plain (JObject rest)"
    and "\<forall>e \<in> set result. \<forall>e' \<in> set rest. fst e < fst e'"
    and "process_members c h rng frame rest result dg st = Inr (result', dg', st')"
  shows "\<exists>ms. rest = claims_of ms \<and> members_ok c h rng ms \<and> result' = result @ open_members ms \<and>
    dg' = dg @ map d_digest (List.map_filter mb_claim ms) \<and> snd st' = snd st @ concat (map mb_ds ms) \<and>
    member_paths frame rest = concat (map mb_ps ms)"
  using assms
proof (induction rest arbitrary: result dg st)
  case Nil
  then show ?case by (intro exI [of _ "[]"])
    (simp add: claims_of_def members_ok_def open_members_def List.map_filter_simps)
next
  case (Cons e rest)
  obtain key v where e: "e = (key, v)" by force
  have v: "processed_ok c h rng v" "json_wf v" "plain v" "key \<noteq> ''_sd''" "key \<noteq> ''...''"
    using Cons.prems(1,2,3) by (auto simp: e)
  have rest: "\<forall>(k, v) \<in> set rest. processed_ok c h rng v" "json_wf (JObject rest)" "plain (JObject rest)"
    "\<forall>e' \<in> set rest. key < fst e'"
    using Cons.prems(1,2,3) by (auto simp: e bt_wf_def)
  have below: "\<forall>e \<in> set result. \<forall>e' \<in> set rest. fst e < fst e'" "\<forall>e \<in> set result. fst e < key"
    using Cons.prems(4) by (auto simp: e)
  let ?sub = "frame_get frame key"
  show ?case
  proof (cases "key \<in> set (frame_list frame)")
    case True
    then obtain processed k ds where first: "process_sub c h rng v ?sub st = Inr (processed, (k, ds))"
      and next_step: "process_members c h rng frame rest result (dg @ [d_digest (new_claim c h rng k key processed)])
        (Suc k, ds @ [new_claim c h rng k key processed]) = Inr (result', dg', st')"
      using Cons.prems(5) by (auto simp: e and_then_Inr Let_def)
    obtain sub where sub: "ds = snd st @ sub" "encodes c h rng v processed sub (sub_paths v ?sub)"
      using process_sub_ok [OF v(1,2,3) first] by auto
    obtain ms where ms: "rest = claims_of ms" "members_ok c h rng ms" "result' = result @ open_members ms"
        "dg' = (dg @ [d_digest (new_claim c h rng k key processed)]) @ map d_digest (List.map_filter mb_claim ms)"
        "snd st' = (ds @ [new_claim c h rng k key processed]) @ concat (map mb_ds ms)" "member_paths frame rest = concat (map mb_ps ms)"
      using Cons.IH [OF rest(1,2,3) below(1) next_step] by auto
    let ?m = "\<lparr>mb_key = key, mb_value = v, mb_processed = processed, mb_sub = sub, mb_paths = sub_paths v ?sub,
        mb_claim = Some (new_claim c h rng k key processed)\<rparr>"
    have "member_ok c h rng ?m" using sub(2) v by (simp add: member_ok_def built_new)
    then have "members_ok c h rng (?m # ms)" using ms(1,2) rest(4) by (intro members_ok_Cons) simp_all
    then show ?thesis using ms sub(1) True
      by (intro exI [of _ "?m # ms"])
        (simp add: e claims_of_def open_members_def List.map_filter_simps mb_ds_def [of ?m] mb_ps_def [of ?m])
  next
    case False
    obtain processed st1 where first: "process_sub c h rng v ?sub st = Inr (processed, st1)"
      and next_step: "process_members c h rng frame rest (bt_insert key processed result) dg st1 = Inr (result', dg', st')"
      using Cons.prems(5) unfolding e process_members_open [OF False] by (auto simp: and_then_Inr)
    obtain sub where sub: "snd st1 = snd st @ sub" "encodes c h rng v processed sub (sub_paths v ?sub)"
      using process_sub_ok [OF v(1,2,3) first] by blast
    have ins: "bt_insert key processed result = result @ [(key, processed)]" using below(2) by (rule bt_insert_last)
    have "\<forall>e \<in> set (bt_insert key processed result). \<forall>e' \<in> set rest. fst e < fst e'"
      unfolding ins using below(1) rest(4) by auto
    from Cons.IH [OF rest(1,2,3) this next_step]
    obtain ms where ms: "rest = claims_of ms" "members_ok c h rng ms" "result' = bt_insert key processed result @ open_members ms"
        "dg' = dg @ map d_digest (List.map_filter mb_claim ms)"
        "snd st' = snd st1 @ concat (map mb_ds ms)" "member_paths frame rest = concat (map mb_ps ms)"
      by auto
    let ?m = "\<lparr>mb_key = key, mb_value = v, mb_processed = processed, mb_sub = sub, mb_paths = sub_paths v ?sub, mb_claim = None\<rparr>"
    have "member_ok c h rng ?m" using sub(2) v by (simp add: member_ok_def)
    then have "members_ok c h rng (?m # ms)" using ms(1,2) rest(4) by (intro members_ok_Cons) simp_all
    then show ?thesis using ms sub(1) False
      by (intro exI [of _ "?m # ms"])
        (simp add: e ins claims_of_def open_members_def List.map_filter_simps mb_ds_def [of ?m] mb_ps_def [of ?m])
  qed
qed

lemma set_claims: "claim_digests ms = set (map d_digest (List.map_filter mb_claim ms))"
  by (force simp: claim_digests_def List.map_filter_def)

lemma process_object_ok:
  assumes "\<forall>(k, v) \<in> set claims. processed_ok c h rng v" "json_wf (JObject claims)" "plain (JObject claims)"
    and "process_object c h rng claims frame st = Inr (obj, st')"
  shows "\<exists>ms. claims = claims_of ms \<and> members_ok c h rng ms \<and> payload_obj c h rng ms obj \<and>
    snd st' = snd st @ concat (map mb_ds ms) \<and> member_paths frame claims = concat (map mb_ps ms)"
proof -
  obtain result dg st1 where first: "process_members c h rng frame claims [] [] st = Inr (result, dg, st1)"
    and fin: "finish_object c h rng frame result dg st1 = (obj, st')"
    using assms(4) by (auto simp: and_then_Inr split: option.splits)
  obtain ms where ms: "claims = claims_of ms" "members_ok c h rng ms" "result = open_members ms"
      "dg = map d_digest (List.map_filter mb_claim ms)" "snd st1 = snd st @ concat (map mb_ds ms)"
      "member_paths frame claims = concat (map mb_ps ms)"
    using process_members_ok [OF assms(1,2,3) _ first] by auto
  define D where "D = dg @ map (generate_decoy_digest c h rng) [fst st1..<fst st1 + decoy_count frame]"
  have snd: "snd st' = snd st1" and obj: "obj = (if D = [] then result else bt_insert ''_sd'' (JArray (map JString (sort D))) result)"
    using fin by (auto simp: finish_object_def Let_def D_def split: if_splits)
  have keys: "''_sd'' \<notin> fst ` set result" using ms(2) by (auto simp: ms(3) open_members_def members_ok_def member_ok_def)
  have sorted: "sorted_wrt (\<lambda>x y. mb_key x < mb_key y) ms" using ms(2) by (simp add: members_ok_def sorted_wrt_map)
  have wf: "bt_wf result" unfolding ms(3) open_members_def bt_wf_def
    using sorted_wrt_filter [OF sorted] by (simp add: sorted_wrt_map)
  have set_result: "set result = {(mb_key m, mb_processed m) |m. m \<in> set ms \<and> mb_claim m = None}"
    by (auto simp: ms(3) open_members_def)
  have digs: "claim_digests ms \<subseteq> set (sort D)" "set (sort D) \<subseteq> claim_digests ms \<union> decoys c h rng"
    by (auto simp: set_claims ms(4) decoys_def D_def)
  have "payload_obj c h rng ms obj" unfolding payload_obj_def
  proof (intro conjI exI [of _ "sort D"])
    show "bt_wf obj" using wf by (simp add: obj bt_wf_insert)
    show "claim_digests ms \<subseteq> set (sort D)" "set (sort D) \<subseteq> claim_digests ms \<union> decoys c h rng" by (fact digs)+
    have "(sort D = []) = (D = [])" by (metis length_0_conv length_sort)
    moreover have "{e \<in> set result. fst e \<noteq> ''_sd''} = set result" using keys by force
    ultimately show "set obj = {(mb_key m, mb_processed m) |m. m \<in> set ms \<and> mb_claim m = None} \<union>
        (if sort D = [] then {} else {(''_sd'', JArray (map JString (sort D)))})"
      unfolding set_result [symmetric] obj by (cases "D = []") (simp_all add: set_bt_insert_wf [OF wf])
  qed
  then show ?thesis using ms snd by auto
qed

lemma process_array_ok:
  assumes "\<forall>v \<in> set a. processed_ok c h rng v \<and> json_wf v \<and> plain v"
    and "process_array c h rng frame i a st = Inr (a', st')"
  shows "\<exists>ds. snd st' = snd st @ ds \<and> encodes_elements c h rng i a a' ds (element_paths frame i a)"
  using assms
proof (induction a arbitrary: i st a')
  case Nil
  then show ?case by (simp add: encodes_elements_Nil)
next
  case (Cons v a)
  have v: "processed_ok c h rng v" "json_wf v" "plain v" and a: "\<forall>v \<in> set a. processed_ok c h rng v \<and> json_wf v \<and> plain v"
    using Cons.prems(1) by auto
  show ?case
  proof (cases "i \<in> set (sd_indices frame)")
    case True
    let ?d = "new_array_element c h rng (fst st) v"
    obtain result where result: "process_array c h rng frame (Suc i) a (Suc (fst st), snd st @ [?d]) = Inr (result, st')"
      and a': "a' = JObject [(''...'', JString (d_digest ?d))] # result"
      using Cons.prems(2) True by (auto simp: Let_def and_then_Inr)
    obtain ds where ds: "snd st' = (snd st @ [?d]) @ ds" "encodes_elements c h rng (Suc i) a result ds (element_paths frame (Suc i) a)"
      using Cons.IH [OF a result] by auto
    then show ?thesis using encodes_elements_closed [OF v(3) built_new(4,5) ds(2)] True
      by (intro exI [of _ "?d # ds"]) (simp add: a')
  next
    case False
    let ?sub = "frame_get (as_object frame) (show_nat i)"
    obtain processed st1 result where first: "process_sub c h rng v ?sub st = Inr (processed, st1)"
      and result: "process_array c h rng frame (Suc i) a st1 = Inr (result, st')" and a': "a' = processed # result"
      using Cons.prems(2) False by (auto simp: and_then_Inr)
    obtain sub where sub: "snd st1 = snd st @ sub" "encodes c h rng v processed sub (sub_paths v ?sub)"
      by (rule process_sub_ok [OF v first])
    obtain ds where ds: "snd st' = snd st1 @ ds" "encodes_elements c h rng (Suc i) a result ds (element_paths frame (Suc i) a)"
      using Cons.IH [OF a result] by auto
    then show ?thesis using encodes_elements_open [OF sub(2) ds(2)] False sub(1)
      by (intro exI [of _ "sub @ ds"]) (simp add: a')
  qed
qed

lemma processed_ok_all: "processed_ok c h rng v"
proof (induction v)
  case (JArray a)
  then have IH: "\<forall>v \<in> set a. processed_ok c h rng v" by blast
  show ?case unfolding processed_ok_def
  proof (intro allI impI)
    fix frame st v' st'
    assume wf: "json_wf (JArray a)" "plain (JArray a)" "process_value c h rng (JArray a) frame st = Inr (v', st')"
    then obtain a' where a': "process_array c h rng frame 0 a st = Inr (a', st')" "v' = JArray a'" by (auto simp: and_then_Inr)
    have "\<forall>v \<in> set a. processed_ok c h rng v \<and> json_wf v \<and> plain v" using IH wf(1,2) by (auto simp: list_all_iff)
    from process_array_ok [OF this a'(1)] show "\<exists>ds. snd st' = snd st @ ds \<and> encodes c h rng (JArray a) v' ds (value_paths (JArray a) frame)"
      using a'(2) encodes_array by auto
  qed
next
  case (JObject m)
  then have IH: "\<forall>(k, v) \<in> set m. processed_ok c h rng v" by fastforce
  show ?case unfolding processed_ok_def
  proof (intro allI impI)
    fix frame st v' st'
    assume wf: "json_wf (JObject m)" "plain (JObject m)" "process_value c h rng (JObject m) frame st = Inr (v', st')"
    then obtain obj where obj: "process_object c h rng m (as_object frame) st = Inr (obj, st')" "v' = JObject obj"
      by (auto simp del: process_object.simps simp: and_then_Inr)
    from process_object_ok [OF IH wf(1,2) obj(1)]
    show "\<exists>ds. snd st' = snd st @ ds \<and> encodes c h rng (JObject m) v' ds (value_paths (JObject m) frame)"
      using obj(2) encodes_object by (metis value_paths.simps(1))
  qed
qed (simp_all add: processed_ok_def encodes_plain)

section \<open>The signed payload\<close>

lemma bt_insert_between:
  "\<forall>e \<in> set xs. fst e < k \<Longrightarrow> \<forall>e \<in> set ys. k < fst e \<Longrightarrow> bt_insert k v (xs @ ys) = xs @ (k, v) # ys"
proof (induction xs)
  case Nil
  then show ?case by (cases ys) auto
next
  case (Cons e xs)
  then show ?case by (cases e) (auto simp: not_less_iff_gr_or_eq)
qed

lemma payload_insert:
  assumes "members_ok c h rng ms" "payload_obj c h rng ms obj" "k \<notin> fst ` set (claims_of ms)" "k \<noteq> ''_sd''" "k \<noteq> ''...''" "plain x"
  shows "\<exists>ms'. claims_of ms' = bt_insert k x (claims_of ms) \<and> members_ok c h rng ms' \<and> payload_obj c h rng ms' (bt_insert k x obj) \<and>
    concat (map mb_ds ms') = concat (map mb_ds ms) \<and> concat (map mb_ps ms') = concat (map mb_ps ms)"
proof -
  let ?new = "\<lparr>mb_key = k, mb_value = x, mb_processed = x, mb_sub = [], mb_paths = [], mb_claim = None\<rparr>"
  let ?a = "takeWhile (\<lambda>m. mb_key m < k) ms" and ?b = "dropWhile (\<lambda>m. mb_key m < k) ms"
  let ?ms = "?a @ ?new # ?b"
  have sorted: "sorted_wrt (\<lambda>x y. mb_key x < mb_key y) (?a @ ?b)" using assms(1) by (simp add: members_ok_def sorted_wrt_map)
  have a: "\<forall>m \<in> set ?a. mb_key m < k" by (auto dest: set_takeWhileD)
  have b: "\<forall>m \<in> set ?b. k < mb_key m"
  proof (cases ?b)
    case (Cons m b)
    have "m \<in> set ms" using Cons by (metis list.set_intros(1) set_dropWhileD)
    then have "mb_key m \<noteq> k" using assms(3) by (auto simp: claims_of_def image_image)
    moreover have "\<not> mb_key m < k" using hd_dropWhile [of "\<lambda>m. mb_key m < k" ms] Cons by simp
    ultimately show ?thesis using sorted unfolding Cons by (auto simp: sorted_wrt_append)
  next
    case Nil
    then show ?thesis by (simp only: list.set) simp
  qed
  have "member_ok c h rng ?new" using assms(4,5) encodes_plain [OF assms(6)] by (simp add: member_ok_def)
  moreover have "sorted_wrt (\<lambda>x y. mb_key x < mb_key y) ?ms"
    using sorted [unfolded sorted_wrt_append] a b by (simp add: sorted_wrt_append)
  moreover have sets: "set ?ms = insert ?new (set ms)" 
    using set_append [of ?a ?b] by (simp only: takeWhile_dropWhile_id set_append list.set) blast
  ultimately have ok: "members_ok c h rng ?ms" using assms(1) unfolding members_ok_def sorted_wrt_map by (simp only:) simp
  have claims: "claims_of ?ms = bt_insert k x (claims_of ms)"
  proof -
    have "claims_of ms = claims_of ?a @ claims_of ?b" by (simp add: claims_of_def flip: map_append)
    then show ?thesis using bt_insert_between [of "claims_of ?a" k "claims_of ?b" x] a b by (auto simp: claims_of_def)
  qed
  have "concat (map mb_ds ?ms) = concat (map mb_ds (?a @ ?b))" "concat (map mb_ps ?ms) = concat (map mb_ps (?a @ ?b))"
    by (simp_all add: mb_ds_def [of ?new] mb_ps_def [of ?new] del: takeWhile_dropWhile_id)
  then have same: "concat (map mb_ds ?ms) = concat (map mb_ds ms)" "concat (map mb_ps ?ms) = concat (map mb_ps ms)" by simp_all
  obtain digests where d: "claim_digests ms \<subseteq> set digests" "set digests \<subseteq> claim_digests ms \<union> decoys c h rng"
      "set obj = {(mb_key m, mb_processed m) |m. m \<in> set ms \<and> mb_claim m = None} \<union>
         (if digests = [] then {} else {(''_sd'', JArray (map JString digests))})"
    by (rule payload_get [OF assms(1,2)]) iprover
  have wf: "bt_wf obj" using assms(2) by (simp add: payload_obj_def)
  have "claim_digests ?ms = claim_digests ms" unfolding claim_digests_def sets by auto
  moreover have "\<forall>m \<in> set ms. mb_key m \<noteq> k" using assms(3) by (auto simp: claims_of_def image_image)
  then have "{e \<in> set obj. fst e \<noteq> k} = set obj" using assms(4) by (auto simp: d(3) split: if_splits)
  then have "set (bt_insert k x obj) = insert (k, x) (set obj)" by (simp add: set_bt_insert_wf [OF wf])
  moreover have "{(mb_key m, mb_processed m) |m. m \<in> insert ?new (set ms) \<and> mb_claim m = None} =
      insert (k, x) {(mb_key m, mb_processed m) |m. m \<in> set ms \<and> mb_claim m = None}"
    by (force simp: image_iff)
  ultimately have "payload_obj c h rng ?ms (bt_insert k x obj)" unfolding payload_obj_def sets
    using d bt_wf_insert [OF wf] by (intro conjI exI [of _ digests]) (simp_all only: Un_insert_left)
  then show ?thesis using ok claims same by blast
qed

definition with_cnf :: "json option \<Rightarrow> json_object \<Rightarrow> json_object" where
  "with_cnf holder_jwk m = (case holder_jwk of Some jwk \<Rightarrow> bt_insert ''cnf'' (JObject [(''jwk'', jwk)]) m | None \<Rightarrow> m)"

definition with_alg :: "sd_hasher \<Rightarrow> sd_disclosure list \<Rightarrow> json_object \<Rightarrow> json_object" where
  "with_alg h ds m = (if ds \<noteq> [] then bt_insert ''_sd_alg'' (JString (alg_name h)) m else m)"

definition issuable :: "json_object \<Rightarrow> json option \<Rightarrow> bool" where
  \<comment> \<open>claims without the names SD-JWT uses itself, and a plain holder key\<close>
  "issuable m holder_jwk \<longleftrightarrow> json_wf (JObject m) \<and> plain (JObject m) \<and> ''_sd_alg'' \<notin> fst ` set m \<and>
     (\<forall>jwk. holder_jwk = Some jwk \<longrightarrow> plain jwk \<and> ''cnf'' \<notin> fst ` set m)"

lemma issue_encodes:
  assumes "issuable m jwk" "issue c rng (JObject m) frame signer h jwk = Inr s"
  obtains payload hdr where "sign_jwt signer hdr (JObject payload) = Inr (sj_jws s)" "bt_wf payload" "sj_kb_jwt s = None"
    "encodes c h rng (JObject (with_cnf jwk (with_alg h (sj_disclosures s) m))) (JObject payload) (sj_disclosures s) (value_paths (JObject m) frame)"
    "bt_get payload ''_sd_alg'' = (if sj_disclosures s = [] then None else Some (JString (alg_name h)))"
    "jwk \<noteq> None \<longrightarrow> bt_get payload ''cnf'' = Some (JObject [(''jwk'', the jwk)])"
proof -
  obtain obj n ds hdr where obj: "process_object c h rng m (as_object frame) (0, []) = Inr (obj, (n, ds))"
    and jws: "sign_jwt signer hdr (JObject (with_cnf jwk (with_alg h ds obj))) = Inr (sj_jws s)"
    and s: "sj_disclosures s = ds" "sj_kb_jwt s = None"
    using assms(2) unfolding issue_def
    by (auto simp: and_then_Inr Let_def with_cnf_def with_alg_def simp del: process_object.simps validate_no_reserved_keys.simps)
  have m: "json_wf (JObject m)" "plain (JObject m)" "''_sd_alg'' \<notin> fst ` set m" using assms(1) by (simp_all add: issuable_def)
  have vals: "\<forall>(k, v) \<in> set m. processed_ok c h rng v" using processed_ok_all by fastforce
  obtain ms where ms: "m = claims_of ms" "members_ok c h rng ms" "payload_obj c h rng ms obj" "ds = concat (map mb_ds ms)"
      "member_paths (as_object frame) m = concat (map mb_ps ms)"
    using process_object_ok [OF vals m(1,2) obj] by auto
  have "plain (JString (alg_name h))" by (simp add: plain_def)
  then obtain ms1 where ms1: "claims_of ms1 = with_alg h ds m" "members_ok c h rng ms1" "payload_obj c h rng ms1 (with_alg h ds obj)"
      "concat (map mb_ds ms1) = ds" "concat (map mb_ps ms1) = concat (map mb_ps ms)"
    using payload_insert [OF ms(2,3), of "''_sd_alg''" "JString (alg_name h)"] m(3) ms(1,2,3,4)
    by (cases "ds = []") (auto simp: with_alg_def)
  have fresh: "''cnf'' \<notin> fst ` set (claims_of ms1)" if "jwk \<noteq> None"
    using assms(1) that m(1) unfolding ms1(1) by (auto simp: issuable_def with_alg_def set_bt_insert_wf)
  have jwk_plain: "plain (JObject [(''jwk'', the jwk)])" if "jwk \<noteq> None" using assms(1) that by (auto simp: issuable_def plain_def)
  obtain ms2 where ms2: "claims_of ms2 = with_cnf jwk (with_alg h ds m)" "members_ok c h rng ms2"
      "payload_obj c h rng ms2 (with_cnf jwk (with_alg h ds obj))"
      "concat (map mb_ds ms2) = ds" "concat (map mb_ps ms2) = concat (map mb_ps ms)"
  proof (cases jwk)
    case None
    then show ?thesis using ms1 by (intro that [of ms1]) (simp_all add: with_cnf_def)
  next
    case (Some j)
    then have "plain (JObject [(''jwk'', j)])" "''cnf'' \<notin> fst ` set (claims_of ms1)" using jwk_plain fresh by simp_all
    from payload_insert [OF ms1(2,3) this(2) _ _ this(1)] show ?thesis
      using that ms1 Some by (auto simp: with_cnf_def)
  qed
  have wf: "bt_wf obj" "bt_wf (with_alg h ds obj)" "bt_wf (with_cnf jwk (with_alg h ds obj))"
    using ms(3) ms1(3) ms2(3) by (simp_all add: payload_obj_def)
  have "bt_get obj ''_sd_alg'' = None"
  proof -
    have "''_sd_alg'' \<notin> fst ` set obj"
      using m(3) by (rule_tac payload_get [OF ms(2,3)]) (auto simp: ms(1) claims_of_def image_image split: if_splits)
    then show ?thesis by (simp add: bt_get_def map_of_eq_None_iff)
  qed
  then have alg: "bt_get (with_cnf jwk (with_alg h ds obj)) ''_sd_alg'' = (if ds = [] then None else Some (JString (alg_name h)))"
    using wf by (auto simp: with_cnf_def with_alg_def bt_get_def map_of_bt_insert split: option.split)
  have cnf: "jwk \<noteq> None \<longrightarrow> bt_get (with_cnf jwk (with_alg h ds obj)) ''cnf'' = Some (JObject [(''jwk'', the jwk)])"
    using wf(2) by (auto simp: with_cnf_def bt_get_def map_of_bt_insert)
  have "encodes c h rng (JObject (with_cnf jwk (with_alg h ds m))) (JObject (with_cnf jwk (with_alg h ds obj))) ds (value_paths (JObject m) frame)"
    using encodes_object [OF ms2(2,3)] by (simp add: ms2(1,4,5) ms(5))
  then show ?thesis using that [OF jws wf(3)] alg cnf s by simp
qed

section \<open>Presenting some of the disclosures\<close>

definition collision_free :: "sd_codec \<Rightarrow> sd_hasher \<Rightarrow> rng \<Rightarrow> sd_disclosure list \<Rightarrow> bool" where
  \<comment> \<open>no two disclosures have the same digest, and no decoy has the digest of a disclosure\<close>
  "collision_free c h rng ds \<longleftrightarrow> distinct (map d_digest ds) \<and> d_digest ` set ds \<inter> decoys c h rng = {}"

definition withheld :: "sd_disclosure list \<Rightarrow> path list \<Rightarrow> sd_disclosure list \<Rightarrow> path set" where
  "withheld ds ps R = {p. \<exists>d. (d, p) \<in> set (zip ds ps) \<and> d \<notin> set R}"

lemma digest_map_found: "distinct (map d_digest R) \<Longrightarrow> d \<in> set R \<Longrightarrow> digest_map R (d_digest d) = Some d"
  unfolding digest_map_def by (subst map_of_eq_Some_iff) (auto simp: comp_def distinct_map rev_map)

lemma digest_map_missing: "s \<notin> d_digest ` set R \<Longrightarrow> digest_map R s = None"
  unfolding digest_map_def by (simp add: map_of_eq_None_iff image_image)

lemma check_duplicates:
  "check_duplicate_disclosures seen R = Inr () \<longleftrightarrow> distinct (map d_digest R) \<and> d_digest ` set R \<inter> set seen = {}"
  by (induction R arbitrary: seen) auto

lemma verify_digests:
  "verify_disclosure_digests c h A R = Inr () \<longleftrightarrow> (\<forall>d \<in> set R. hash_b64 c h (bytes_of (d_serialized d)) \<in> A)"
  "verify_disclosure_digests c h A R = Inl e \<Longrightarrow> \<exists>t. e = Verification t"
  by (induction R) (auto simp: Let_def split: if_splits)

lemma built_digest: "built c h d \<Longrightarrow> hash_b64 c h (bytes_of (d_serialized d)) = d_digest d"
  unfolding built_def by (metis (no_types, lifting) sd_disclosure.select_convs(4,5) disclosure_build_def)

lemma collision_free_subset:
  assumes "collision_free c h rng ds" "distinct R" "set R \<subseteq> set ds"
  shows "distinct (map d_digest R)" "\<forall>s \<in> decoys c h rng. digest_map R s = None"
proof -
  have "inj_on d_digest (set ds)" using assms(1) by (simp add: collision_free_def distinct_map)
  then show "distinct (map d_digest R)" using assms(2,3) by (simp add: distinct_map inj_on_subset)
  show "\<forall>s \<in> decoys c h rng. digest_map R s = None"
    using assms(1,3) by (intro ballI digest_map_missing) (auto simp: collision_free_def)
qed

lemma covers_withheld:
  assumes "collision_free c h rng ds" "distinct R" "set R \<subseteq> set ds" "length ds = length ps" "distinct ps"
  shows "covers R ds ps (withheld ds ps R)"
  unfolding covers_def
proof clarify
  fix d p
  assume dp: "(d, p) \<in> set (zip ds ps)"
  have same: "d' = d" if "(d', p) \<in> set (zip ds ps)" for d'
    using that dp assms(5) by (metis in_set_zip nth_eq_iff_index_eq fst_conv snd_conv)
  have inj: "inj_on d_digest (set ds)" using assms(1) by (simp add: collision_free_def distinct_map)
  have d: "d \<in> set ds" using dp by (rule set_zip_leftD)
  have iff: "p \<in> withheld ds ps R \<longleftrightarrow> d \<notin> set R" unfolding withheld_def using same dp by blast
  show "digest_map R (d_digest d) = (if p \<in> withheld ds ps R then None else Some d)"
  proof (cases "d \<in> set R")
    case True
    then show ?thesis using iff digest_map_found [OF collision_free_subset(1) [OF assms(1,2,3)]] by simp
  next
    case False
    then have "d_digest d \<notin> d_digest ` set R" using inj d assms(3) by (auto dest: inj_onD)
    then show ?thesis using iff False digest_map_missing by simp
  qed
qed

lemma prune_remove: "bt_remove k (prune_members H m) = prune_members H (bt_remove k m)"
  by (induction m) (auto simp: bt_remove_def)

lemma remove_alg:
  assumes "issuable m jwk"
  shows "bt_remove ''_sd_alg'' (bt_remove ''_sd'' (with_cnf jwk (with_alg h ds m))) = with_cnf jwk m"
proof -
  have m: "bt_wf m" "''_sd_alg'' \<notin> fst ` set m" "''_sd'' \<notin> fst ` set m" using assms by (auto simp: issuable_def)
  then have wf: "bt_wf (with_alg h ds m)" "bt_wf (with_cnf jwk m)" "bt_wf (with_cnf jwk (with_alg h ds m))"
    by (auto simp: with_alg_def with_cnf_def bt_wf_insert split: option.split)
  have absent: "(''_sd_alg'', x) \<notin> set m" "(''_sd'', x) \<notin> set m" for x using m(2,3) by force+
  have "set (bt_remove ''_sd_alg'' (bt_remove ''_sd'' (with_cnf jwk (with_alg h ds m)))) = set (with_cnf jwk m)"
    using m(1) wf by (auto simp: with_alg_def with_cnf_def set_bt_insert_wf bt_wf_insert absent split: option.splits if_splits)
  then show ?thesis using wf by (intro bt_wf_unique) simp_all
qed

lemma exposed_digest:
  assumes "encodes c h rng v w ds ps" "collision_free c h rng ds" "(d, p) \<in> set (zip ds ps)"
  shows "d_digest d \<in> collect_digests w \<longleftrightarrow> \<not> nested ps p"
proof -
  note E = encodes_D [OF assms(1)]
  have inj: "inj_on d_digest (set ds)" "distinct ds" using assms(2) by (simp_all add: collision_free_def distinct_map)
  have d: "d \<in> set ds" using assms(3) by (rule set_zip_leftD)
  then have nodecoy: "d_digest d \<notin> decoys c h rng" using assms(2) by (auto simp: collision_free_def)
  have "d_digest d \<in> outer ds ps \<longleftrightarrow> \<not> nested ps p"
  proof
    assume "d_digest d \<in> outer ds ps"
    then obtain d' p' where d': "(d', p') \<in> set (zip ds ps)" "d_digest d' = d_digest d" "\<not> nested ps p'" by (auto simp: outer_def)
    have "d' = d" using inj(1) d d'(2) set_zip_leftD [OF d'(1)] by (auto dest: inj_onD)
    then have "p' = p" using d'(1) assms(3) inj(2) by (metis in_set_zip nth_eq_iff_index_eq fst_conv snd_conv)
    then show "\<not> nested ps p" using d'(3) by simp
  qed (use assms(3) in \<open>auto simp: outer_def\<close>)
  then show ?thesis using E(6,7) nodecoy by blast
qed

lemma verify_unbound:
  assumes "verifier (sj_jws s) = Inr payload" "json_get payload ''_sd_alg'' \<in> {None, Some (JString (alg_name h))}"
    and "check_duplicate_disclosures [] (sj_disclosures s) = Inr ()" "sj_kb_jwt s = None" "\<not> vo_verify_kb opts"
  shows "sd_jwt_verify n c s verifier h opts hv =
    (case verify_disclosure_digests c h (collect_digests payload) (sj_disclosures s) of
       Inl e \<Rightarrow> Some (Inl e)
     | Inr _ \<Rightarrow> map_option (\<lambda>claims. Inr \<lparr>vr_claims = claims, vr_kb_verified = None\<rparr>)
                  (resolve_claims n payload (sj_disclosures s)))"
  using assms by (auto simp: sd_jwt_verify_def verify_key_binding_def split: sum.split option.split)

text \<open>C5. Selective disclosure, end to end: claims without the reserved names are issued with a frame, the holder presents any
  of the disclosures, and the verifier checks them; the signature verifies to the payload that was signed, and no two
  digests collide. If no presented disclosure lies inside another disclosable place, the verifier accepts and gets
  the claims (with the holder key) from which exactly the places that were not presented are removed: everything
  the issuer left open is there, everything presented is there with the issuer's value, and nothing else. If some
  presented disclosure does lie inside another one, which the issuer allows, the verifier refuses the
  presentation, because it looks for digests in the signed payload only.\<close>
theorem sd_jwt_presentation:
  assumes "issuable m jwk" "issue c rng (JObject m) frame signer h jwk = Inr s"
    and "\<forall>hdr p jws. sign_jwt signer hdr p = Inr jws \<longrightarrow> verifier jws = Inr p"
    and "collision_free c h rng (sj_disclosures s)" "distinct R" "set R \<subseteq> set (sj_disclosures s)"
    and "\<not> vo_verify_kb opts"
  shows "\<exists>pres. present c s R None h = Inr pres \<and>
    (if \<exists>(d, p) \<in> set (zip (sj_disclosures s) (value_paths (JObject m) frame)). d \<in> set R \<and> nested (value_paths (JObject m) frame) p
     then \<exists>t. \<forall>n. sd_jwt_verify n c pres verifier h opts hv = Some (Inl (Verification t))
     else \<exists>n0. \<forall>n \<ge> n0. sd_jwt_verify n c pres verifier h opts hv =
       Some (Inr \<lparr>vr_claims = prune (withheld (sj_disclosures s) (value_paths (JObject m) frame) R) (JObject (with_cnf jwk m)),
                  vr_kb_verified = None\<rparr>))"
proof -
  let ?ds = "sj_disclosures s" and ?ps = "value_paths (JObject m) frame"
  let ?H = "withheld ?ds ?ps R"
  define pres where "pres = \<lparr>sj_jws = sj_jws s, sj_disclosures = R, sj_kb_jwt = None\<rparr>"
  obtain payload hdr where signed: "sign_jwt signer hdr (JObject payload) = Inr (sj_jws s)"
    and enc: "encodes c h rng (JObject (with_cnf jwk (with_alg h ?ds m))) (JObject payload) ?ds ?ps"
    and alg: "bt_get payload ''_sd_alg'' = (if ?ds = [] then None else Some (JString (alg_name h)))"
    by (rule issue_encodes [OF assms(1,2)])
  note E = encodes_D [OF enc]
  have hashes: "hash_b64 c h (bytes_of (d_serialized d)) = d_digest d" if "d \<in> set R" for d
    using E(5) assms(6) that built_digest by blast
  have dups: "check_duplicate_disclosures [] R = Inr ()"
    using collision_free_subset(1) [OF assms(4,5,6)] by (simp add: check_duplicates)
  note exposed = exposed_digest [OF enc assms(4)]
  have verdict: "verify_disclosure_digests c h (collect_digests (JObject payload)) R = Inr () \<longleftrightarrow>
      \<not> (\<exists>(d, p) \<in> set (zip ?ds ?ps). d \<in> set R \<and> nested ?ps p)"
  proof -
    have "\<exists>p. (d, p) \<in> set (zip ?ds ?ps)" if "d \<in> set R" for d
      using that assms(6) E(1) by (metis in_set_impl_in_set_zip1 subsetD)
    then show ?thesis unfolding verify_digests(1) using hashes exposed by fastforce
  qed
  have pres: "verifier (sj_jws pres) = Inr (JObject payload)" "sj_disclosures pres = R" "sj_kb_jwt pres = None"
    "json_get (JObject payload) ''_sd_alg'' \<in> {None, Some (JString (alg_name h))}"
    using assms(3) signed alg by (simp_all add: pres_def json_get_def)
  note run = verify_unbound [where verifier = verifier and s = pres, OF pres(1,4), unfolded pres(2), OF dups pres(3) assms(7)]
  show ?thesis
  proof (cases "\<exists>(d, p) \<in> set (zip ?ds ?ps). d \<in> set R \<and> nested ?ps p")
    case True
    then obtain e where e: "verify_disclosure_digests c h (collect_digests (JObject payload)) R = Inl e"
      using verdict by (cases "verify_disclosure_digests c h (collect_digests (JObject payload)) R") auto
    then obtain t where "e = Verification t" using verify_digests(2) by blast
    then have "\<exists>t. \<forall>n. sd_jwt_verify n c pres verifier h opts hv = Some (Inl (Verification t))" using e run by auto
    then show ?thesis using True by (intro exI [of _ pres]) (simp only: if_True present_def Let_def option.case pres_def simp_thms)
  next
    case False
    then have ok: "verify_disclosure_digests c h (collect_digests (JObject payload)) R = Inr ()" using verdict by blast
    have "?H \<subseteq> set ?ps" by (auto simp: withheld_def dest: set_zip_rightD)
    then obtain n0 where n0: "\<forall>n \<ge> n0. resolve_value n R (JObject payload) = Some (prune ?H (JObject (with_cnf jwk (with_alg h ?ds m))))"
      using restoresD [OF E(8) _ covers_withheld [OF assms(4,5,6) E(1,2)] collision_free_subset(2) [OF assms(4,5,6)]] by blast
    have "resolve_claims n (JObject payload) R = Some (prune ?H (JObject (with_cnf jwk m)))" if "n \<ge> n0" for n
      using n0 that remove_alg [OF assms(1), of h ?ds] by (simp add: resolve_claims_def prune_remove)
    then have "\<exists>n0. \<forall>n \<ge> n0. sd_jwt_verify n c pres verifier h opts hv =
        Some (Inr \<lparr>vr_claims = prune ?H (JObject (with_cnf jwk m)), vr_kb_verified = None\<rparr>)"
      unfolding run ok by auto
    then show ?thesis using False by (intro exI [of _ pres]) (simp only: if_False present_def Let_def option.case pres_def simp_thms)
  qed
qed

section \<open>Acceptance and key binding\<close>

lemma as_str_Some: "as_str v = Some t \<longleftrightarrow> v = JString t"
  by (cases v) (simp_all add: as_str_def)

lemma check_kb_claim_ok:
  "check_kb_claim name expected kb = Inr () \<longleftrightarrow> (\<forall>x. expected = Some x \<longrightarrow> json_get kb name = Some (JString x))"
proof (cases expected)
  case (Some x)
  have "Option.bind (json_get kb name) as_str = Some x \<longleftrightarrow> json_get kb name = Some (JString x)"
    by (simp add: bind_eq_Some_conv as_str_Some)
  then show ?thesis by (auto simp: check_kb_claim_def Some split: option.split)
qed (simp add: check_kb_claim_def)

lemma key_binding_ok:
  "verify_key_binding c h payload s opts hv = Inr (Some True) \<longleftrightarrow> vo_verify_kb opts \<and>
     (\<exists>kb cnf jwk v kbp. sj_kb_jwt s = Some kb \<and> json_get payload ''cnf'' = Some cnf \<and> json_get cnf ''jwk'' = Some jwk \<and>
        hv = Some v \<and> v kb = Inr kbp \<and> json_get kbp ''sd_hash'' = Some (JString (hash_b64 c h (bytes_of (serialize_without_kb s)))) \<and>
        (\<forall>a. vo_expected_audience opts = Some a \<longrightarrow> json_get kbp ''aud'' = Some (JString a)) \<and>
        (\<forall>n. vo_expected_nonce opts = Some n \<longrightarrow> json_get kbp ''nonce'' = Some (JString n)))"
  (is "?L \<longleftrightarrow> ?R")
proof
  show "?R" if "?L"
    using that unfolding verify_key_binding_def
    by (auto simp: Let_def and_then_Inr check_kb_claim_ok bind_eq_Some_conv as_str_Some split: option.splits if_splits)
  show "?L" if "?R"
    using that unfolding verify_key_binding_def
    by (auto simp: Let_def and_then_Inr check_kb_claim_ok as_str_def)
qed

text \<open>C11. What acceptance proves: if verification succeeds, the issuer's verifier accepted the JWT, the presented disclosures
  have different digests, each one's hash occurs in the signed payload, and the claims are the payload with these
  disclosures restored. If key binding was requested, the payload names a holder key, the holder's verifier accepted
  the key-binding JWT, and that JWT carries the hash of exactly this presentation and the audience and nonce
  that were expected; otherwise the result says that key binding was not verified, so \<open>is_verified\<close> holds only
  without a key-binding JWT.\<close>
theorem sd_jwt_acceptance_sound:
  assumes "sd_jwt_verify n c s verifier h opts hv = Some (Inr r)"
  shows "\<exists>payload. verifier (sj_jws s) = Inr payload \<and> distinct (map d_digest (sj_disclosures s)) \<and>
    (\<forall>d \<in> set (sj_disclosures s). hash_b64 c h (bytes_of (d_serialized d)) \<in> collect_digests payload) \<and>
    resolve_claims n payload (sj_disclosures s) = Some (vr_claims r) \<and>
    (if vo_verify_kb opts
     then vr_kb_verified r = Some True \<and>
       (\<exists>kb cnf jwk v kbp. sj_kb_jwt s = Some kb \<and> json_get payload ''cnf'' = Some cnf \<and> json_get cnf ''jwk'' = Some jwk \<and>
          hv = Some v \<and> v kb = Inr kbp \<and> json_get kbp ''sd_hash'' = Some (JString (hash_b64 c h (bytes_of (serialize_without_kb s)))) \<and>
          (\<forall>a. vo_expected_audience opts = Some a \<longrightarrow> json_get kbp ''aud'' = Some (JString a)) \<and>
          (\<forall>n. vo_expected_nonce opts = Some n \<longrightarrow> json_get kbp ''nonce'' = Some (JString n)))
     else is_verified r \<longleftrightarrow> sj_kb_jwt s = None)"
proof -
  obtain payload where p: "verifier (sj_jws s) = Inr payload" "check_duplicate_disclosures [] (sj_disclosures s) = Inr ()"
      "verify_disclosure_digests c h (collect_digests payload) (sj_disclosures s) = Inr ()"
      "resolve_claims n payload (sj_disclosures s) = Some (vr_claims r)"
      "verify_key_binding c h payload s opts hv = Inr (vr_kb_verified r)"
    using assms unfolding sd_jwt_verify_def
    by (auto simp: and_then_Inr split: sum.splits if_splits option.splits)
  have kb: "vr_kb_verified r = (if vo_verify_kb opts then Some True else map_option (\<lambda>_. False) (sj_kb_jwt s))"
    using p(5) unfolding verify_key_binding_def
    by (auto simp: Let_def and_then_Inr split: if_splits option.splits)
  show ?thesis
  proof (cases "vo_verify_kb opts")
    case True
    then have "verify_key_binding c h payload s opts hv = Inr (Some True)" using p(5) kb by simp
    then show ?thesis using p(1,2,3,4) kb True unfolding key_binding_ok check_duplicates verify_digests(1) by simp
  next
    case False
    then show ?thesis using p(1,2,3,4) kb unfolding check_duplicates verify_digests(1)
      by (auto simp: is_verified_def split: option.splits)
  qed
qed

lemma verify_iff:
  "sd_jwt_verify n c s verifier h opts hv = Some (Inr r) \<longleftrightarrow> (\<exists>payload. verifier (sj_jws s) = Inr payload \<and>
     (\<forall>alg. Option.bind (json_get payload ''_sd_alg'') as_str = Some alg \<longrightarrow> alg = alg_name h) \<and>
     check_duplicate_disclosures [] (sj_disclosures s) = Inr () \<and>
     verify_disclosure_digests c h (collect_digests payload) (sj_disclosures s) = Inr () \<and>
     resolve_claims n payload (sj_disclosures s) = Some (vr_claims r) \<and> verify_key_binding c h payload s opts hv = Inr (vr_kb_verified r))"
  unfolding sd_jwt_verify_def
  by (cases r) (auto simp: and_then_Inr split: sum.splits if_splits option.splits)

text \<open>C18. Key binding works and binds. Take the key-binding JWT of a presentation, in a presentation of any issuer's JWT that names a holder
  key, with any disclosures, and a verifier that asks for key binding and holds a verifier for the holder's key. It
  accepts, with key binding verified, exactly if it accepts the same JWT and disclosures without key binding, the hash of the
  two is that of the original presentation, and the audience and nonce it expects are those the holder used. So
  the JWT moved to other disclosures or another issuer's JWT, with another hash, or to another audience or
  nonce is refused. An audience or nonce that the options leave out is not compared, although their documentation calls
  both required when key binding is verified.\<close>
theorem sd_jwt_key_binding:
  assumes "present c s R (Some kb) h = Inr pres"
    and "\<forall>hdr p jwt. sign_jwt (kb_signer kb) hdr p = Inr jwt \<longrightarrow> holder jwt = Inr p"
    and "verifier (sj_jws other) = Inr payload" "json_get payload ''cnf'' = Some cnf" "json_get cnf ''jwk'' = Some jwk" "vo_verify_kb opts"
    and "sj_kb_jwt other = sj_kb_jwt pres"
  shows "sd_jwt_verify n c other verifier h opts (Some holder) = Some (Inr \<lparr>vr_claims = claims, vr_kb_verified = Some True\<rparr>) \<longleftrightarrow>
      sd_jwt_verify n c (other\<lparr>sj_kb_jwt := None\<rparr>) verifier h (opts\<lparr>vo_verify_kb := False\<rparr>) None =
        Some (Inr \<lparr>vr_claims = claims, vr_kb_verified = None\<rparr>) \<and>
      hash_b64 c h (bytes_of (serialize_without_kb other)) = hash_b64 c h (bytes_of (serialize_without_kb pres)) \<and>
      vo_expected_audience opts \<in> {None, Some (kb_audience kb)} \<and> vo_expected_nonce opts \<in> {None, Some (kb_nonce kb)}"
proof -
  let ?base = "\<lparr>sj_jws = sj_jws s, sj_disclosures = R, sj_kb_jwt = None\<rparr>"
  let ?body = "JObject [(''aud'', JString (kb_audience kb)), (''iat'', JNumber (PosInt (kb_iat kb))), (''nonce'', JString (kb_nonce kb)),
      (''sd_hash'', JString (hash_b64 c h (bytes_of (serialize_without_kb ?base))))]"
  obtain hdr jwt where jwt: "sign_jwt (kb_signer kb) hdr ?body = Inr jwt" "pres = ?base\<lparr>sj_kb_jwt := Some jwt\<rparr>"
    using assms(1) by (auto simp: present_def Let_def and_then_Inr)
  have "serialize_without_kb pres = serialize_without_kb ?base" by (simp add: jwt(2) serialize_without_kb_def)
  moreover have "holder jwt = Inr ?body" using assms(2) jwt(1) by blast
  moreover have "sj_kb_jwt other = Some jwt" using assms(7) jwt(2) by simp
  moreover have "json_get ?body ''aud'' = Some (JString (kb_audience kb))" "json_get ?body ''nonce'' = Some (JString (kb_nonce kb))"
      "json_get ?body ''sd_hash'' = Some (JString (hash_b64 c h (bytes_of (serialize_without_kb ?base))))"
    by (simp_all add: json_get_def bt_get_def)
  ultimately have "verify_key_binding c h payload other opts (Some holder) = Inr (Some True) \<longleftrightarrow>
      hash_b64 c h (bytes_of (serialize_without_kb other)) = hash_b64 c h (bytes_of (serialize_without_kb pres)) \<and>
      vo_expected_audience opts \<in> {None, Some (kb_audience kb)} \<and> vo_expected_nonce opts \<in> {None, Some (kb_nonce kb)}"
    unfolding key_binding_ok using assms(4,5,6) by (cases "vo_expected_audience opts"; cases "vo_expected_nonce opts") auto
  moreover have "verify_key_binding c h payload (other\<lparr>sj_kb_jwt := None\<rparr>) (opts\<lparr>vo_verify_kb := False\<rparr>) None = Inr None"
    by (simp add: verify_key_binding_def)
  ultimately show ?thesis unfolding verify_iff using assms(3) by auto
qed

section \<open>The compact form\<close>

definition compact :: "string \<Rightarrow> bool" where
  \<comment> \<open>three parts with dots between, none of them with a tilde\<close>
  "compact t \<longleftrightarrow> length (split_on (CHR ''.'') t) = 3 \<and> CHR ''~'' \<notin> set t"

definition reads_back :: "sd_codec \<Rightarrow> sd_disclosure \<Rightarrow> bool" where
  \<comment> \<open>\<open>serde_json\<close> reads the text it wrote\<close>
  "reads_back c d \<longleftrightarrow>
     (let arr = disclosure_array (d_salt d) (d_claim_name d) (d_claim_value d); t = json_to_string c (JArray arr)
      in t \<noteq> [] \<and> utf8_valid (bytes_of t) \<and> json_array_from_str c t = Inr arr)"

lemma disclosure_parse_built:
  assumes "b64_ok (sd_b64 c)" "built c h d" "reads_back c d"
  shows "disclosure_parse c h (d_serialized d) = Inr d" "d_serialized d \<noteq> []" "CHR ''~'' \<notin> set (d_serialized d)"
proof -
  let ?arr = "disclosure_array (d_salt d) (d_claim_name d) (d_claim_value d)"
  let ?t = "json_to_string c (JArray ?arr)"
  have t: "?t \<noteq> []" "utf8_valid (bytes_of ?t)" "json_array_from_str c ?t = Inr ?arr" using assms(3) by (simp_all add: reads_back_def Let_def)
  have ser: "d_serialized d = b64_encode (sd_b64 c) (bytes_of ?t)"
    using assms(2) unfolding built_def by (metis (no_types, lifting) sd_disclosure.select_convs(4) disclosure_build_def)
  have dig: "d_digest d = hash_b64 c h (bytes_of (d_serialized d))" using built_digest [OF assms(2)] by simp
  have dec: "b64_decode_vec (sd_b64 c) (d_serialized d) = Inr (bytes_of ?t)" using assms(1) by (simp add: ser b64_ok_def)
  have utf: "from_utf8 (bytes_of ?t) = Some ?t" by (rule from_utf8_bytes_of [OF t(2)])
  show "disclosure_parse c h (d_serialized d) = Inr d"
    unfolding disclosure_parse_def dec sum.case utf option.case t(3)
    by (cases "d_claim_name d") (simp_all add: Let_def disclosure_array_def flip: dig)
  show "d_serialized d \<noteq> []"
    using dec t(1) assms(1) by (auto simp: b64_ok_def bytes_of_def)
  have "list_all is_b64_char (d_serialized d)" using assms(1) by (simp add: ser b64_ok_def)
  moreover have "\<not> is_b64_char (CHR ''~'')" by code_simp
  ultimately show "CHR ''~'' \<notin> set (d_serialized d)" by (auto simp: list_all_iff)
qed

lemma split_on_join:
  "CHR ''~'' \<notin> set p \<Longrightarrow> \<forall>q \<in> set ps. CHR ''~'' \<notin> set q \<Longrightarrow> split_on (CHR ''~'') (join_tilde (p # ps)) = p # ps"
proof (induction ps arbitrary: p)
  case (Cons q ps)
  have "join_tilde (p # q # ps) = p @ CHR ''~'' # join_tilde (q # ps)" by (simp add: join_tilde_def)
  then show ?case using Cons split_on_append [of "CHR ''~''" p] split_on_none by simp
qed (simp add: join_tilde_def split_on_none)

lemma parse_disclosures_built:
  "b64_ok (sd_b64 c) \<Longrightarrow> \<forall>d \<in> set ds. built c h d \<and> reads_back c d \<Longrightarrow> parse_disclosures c h (map d_serialized ds) = Inr ds"
proof (induction ds)
  case (Cons d ds)
  then have "disclosure_parse c h (d_serialized d) = Inr d" "d_serialized d \<noteq> []" using disclosure_parse_built [of c h d] by auto
  then show ?case using Cons by simp
qed simp

text \<open>C31. The compact form round trips: an SD-JWT whose JWT and key-binding JWT are compact and whose disclosures were made by the
  crate reads back from its serialized form as it was, with the same disclosures in the same order and the same digests.\<close>
theorem sd_jwt_round_trip:
  assumes "b64_ok (sd_b64 c)" "compact (sj_jws s)" "\<forall>kb. sj_kb_jwt s = Some kb \<longrightarrow> compact kb"
    and "\<forall>d \<in> set (sj_disclosures s). built c h d \<and> reads_back c d"
  shows "sd_jwt_parse c h (serialize s) = Inr s"
proof -
  let ?last = "case sj_kb_jwt s of None \<Rightarrow> [] | Some kb \<Rightarrow> kb"
  let ?parts = "sj_jws s # map d_serialized (sj_disclosures s) @ [?last]"
  have ser: "serialize s = join_tilde ?parts"
    by (cases "sj_kb_jwt s") (simp_all add: serialize_def serialize_without_kb_def join_tilde_def)
  have free: "CHR ''~'' \<notin> set (sj_jws s)" "\<forall>q \<in> set (map d_serialized (sj_disclosures s) @ [?last]). CHR ''~'' \<notin> set q"
    using assms disclosure_parse_built(3) [OF assms(1)] by (auto simp: compact_def split: option.splits)
  have parts: "split_on (CHR ''~'') (serialize s) = ?parts" unfolding ser by (rule split_on_join [OF free])
  have ne: "serialize s \<noteq> []" by (simp add: ser join_tilde_def split: option.split)
  have kb: "?last = [] \<or> length (split_on (CHR ''.'') ?last) = 3" "(if ?last = [] then None else if length (split_on (CHR ''.'') ?last) = 3 then Some ?last else None) = sj_kb_jwt s"
    using assms(3) by (auto simp: compact_def split: option.splits)
  have "\<lparr>sj_jws = sj_jws s, sj_disclosures = sj_disclosures s, sj_kb_jwt = sj_kb_jwt s\<rparr> = s" by simp
  then show ?thesis unfolding sd_jwt_parse_def Let_def parts
    using ne kb assms(2) parse_disclosures_built [OF assms(1,4)]
    by (cases "sj_kb_jwt s") (simp_all add: compact_def split: if_splits)
qed

section \<open>An example\<close>

fun toy_json :: "json \<Rightarrow> string" where
  "toy_json (JString t) = CHR 0x22 # t @ [CHR 0x22]"
| "toy_json (JArray a) = ''['' @ concat (map (\<lambda>v. toy_json v @ '','') a) @ '']''"
| "toy_json _ = ''null''"

definition sample_sd_hasher :: sd_hasher where
  "sample_sd_hasher = \<lparr>alg_name = ''id'', sd_hash = (\<lambda>b. b)\<rparr>"

definition sample_arr :: "json list" where
  "sample_arr = disclosure_array (hex_text (replicate 16 1)) (Some ''name'') (JString ''A'')"

definition sample_codec :: sd_codec where
  "sample_codec = \<lparr>sd_b64 = \<lparr>b64_encode = hex_text, b64_decode_vec = (\<lambda>t. Inr (hex_bytes t))\<rparr>, json_to_string = toy_json,
     json_array_from_str = (\<lambda>t. if t = toy_json (JArray sample_arr) then Inr sample_arr else Inl ''syntax''),
     json_from_slice = (\<lambda>_. Inl ''syntax''), utf8_error = (\<lambda>_. [])\<rparr>"

definition sample_rng :: rng where
  "sample_rng k n = replicate n (of_nat k)"

definition sample_sd_claims :: json_object where
  "sample_sd_claims = [(''age'', JString ''7''), (''name'', JString ''A''), (''sub'', JString ''u'')]"

definition sample_sd_frame :: json where
  "sample_sd_frame = JObject [(''_sd'', JArray [JString ''age'', JString ''name''])]"

definition sample_age :: sd_disclosure where "sample_age = new_claim sample_codec sample_sd_hasher sample_rng 0 ''age'' (JString ''7'')"
definition sample_name :: sd_disclosure where "sample_name = new_claim sample_codec sample_sd_hasher sample_rng 1 ''name'' (JString ''A'')"

definition sample_payload :: json where
  "sample_payload = JObject [(''_sd'', JArray (map JString (sort [d_digest sample_age, d_digest sample_name]))),
     (''_sd_alg'', JString ''id''), (''sub'', JString ''u'')]"

definition sample_signer :: "json \<Rightarrow> jwt_signer" where
  \<comment> \<open>signs one payload only\<close>
  "sample_signer p = \<lparr>sg_algorithm = ''none'', sg_key_id = None,
     sign_jwt = (\<lambda>_ q. if q = p then Inr ''a.b.c'' else Inl (Signing ''refused''))\<rparr>"

definition sample_verifier :: "json \<Rightarrow> jwt_verifier" where
  "sample_verifier p t = (if t = ''a.b.c'' then Inr p else Inl (Verification ''signature''))"

lemma sample_signer_ok: "\<forall>hdr q jws. sign_jwt (sample_signer p) hdr q = Inr jws \<longrightarrow> sample_verifier p jws = Inr q"
  by (simp add: sample_signer_def sample_verifier_def)

lemma sample_frame_simps:
  "frame_list (as_object sample_sd_frame) = [''age'', ''name'']" "decoy_count (as_object sample_sd_frame) = 0"
  "frame_get (as_object sample_sd_frame) ''age'' = None" "frame_get (as_object sample_sd_frame) ''name'' = None"
  "frame_get (as_object sample_sd_frame) ''sub'' = None" "alg_name sample_sd_hasher = ''id''"
  by (simp_all add: sample_sd_frame_def frame_list_def frame_get_def decoy_count_def bt_get_def List.map_filter_simps sample_sd_hasher_def)

lemma sample_issue:
  "issue sample_codec sample_rng (JObject sample_sd_claims) sample_sd_frame (sample_signer sample_payload) sample_sd_hasher None =
     Inr \<lparr>sj_jws = ''a.b.c'', sj_disclosures = [sample_age, sample_name], sj_kb_jwt = None\<rparr>"
  by (simp add: issue_def sample_sd_claims_def RESERVED_CLAIM_NAMES_def sample_frame_simps finish_object_def Let_def bt_get_def
      sample_payload_def sample_signer_def sample_age_def sample_name_def)

lemma sample_issuable: "issuable sample_sd_claims None"
  by (simp add: issuable_def sample_sd_claims_def bt_wf_def plain_def)

lemma sample_collision_free: "collision_free sample_codec sample_sd_hasher sample_rng [sample_age, sample_name]"
proof -
  have len: "length (hex_text ws) = 2 * length ws" for ws by (induction ws rule: hex_text.induct) simp_all
  have dec: "length s = 128" if "s \<in> decoys sample_codec sample_sd_hasher sample_rng" for s
    using that by (auto simp: decoys_def generate_decoy_digest_def hash_b64_def sample_codec_def sample_sd_hasher_def sample_rng_def
        len bytes_of_def)
  have age: "length (d_digest sample_age) = 188"
    by (simp add: sample_age_def new_claim_def disclosure_build_def generate_salt_def hash_b64_def sample_codec_def
        sample_sd_hasher_def sample_rng_def len bytes_of_def Let_def disclosure_array_def)
  have name: "length (d_digest sample_name) = 192"
    by (simp add: sample_name_def new_claim_def disclosure_build_def generate_salt_def hash_b64_def sample_codec_def
        sample_sd_hasher_def sample_rng_def len bytes_of_def Let_def disclosure_array_def)
  have "d_digest sample_age \<noteq> d_digest sample_name" using age name by auto
  moreover have "d_digest sample_age \<notin> decoys sample_codec sample_sd_hasher sample_rng"
    "d_digest sample_name \<notin> decoys sample_codec sample_sd_hasher sample_rng"
    using dec [of "d_digest sample_age"] dec [of "d_digest sample_name"] age name by auto
  ultimately show ?thesis by (simp add: collision_free_def)
qed

lemma sample_paths: "member_paths (as_object sample_sd_frame) sample_sd_claims = [[Key ''age''], [Key ''name'']]"
  by (simp add: sample_sd_claims_def sample_frame_simps)

theorem sd_jwt_presentation_witness:
  "\<exists>pres n0. present sample_codec \<lparr>sj_jws = ''a.b.c'', sj_disclosures = [sample_age, sample_name], sj_kb_jwt = None\<rparr>
       [sample_name] None sample_sd_hasher = Inr pres \<and>
     (\<forall>n \<ge> n0. sd_jwt_verify n sample_codec pres (sample_verifier sample_payload) sample_sd_hasher
        \<lparr>vo_verify_kb = False, vo_expected_audience = None, vo_expected_nonce = None\<rparr> None =
        Some (Inr \<lparr>vr_claims = JObject [(''name'', JString ''A''), (''sub'', JString ''u'')], vr_kb_verified = None\<rparr>))"
proof -
  have diff: "sample_age \<noteq> sample_name" using sample_collision_free by (auto simp: collision_free_def)
  have hidden: "withheld [sample_age, sample_name] [[Key ''age''], [Key ''name'']] [sample_name] = {[Key ''age'']}"
    using diff by (auto simp: withheld_def)
  have top: "\<not> nested [[Key ''age''], [Key ''name'']] [Key ''name'']" "\<not> nested [[Key ''age''], [Key ''name'']] [Key ''age'']"
    by (auto simp: nested_def)
  have "prune {[Key ''age'']} (JObject (with_cnf None sample_sd_claims)) = JObject [(''name'', JString ''A''), (''sub'', JString ''u'')]"
    by (simp add: with_cnf_def sample_sd_claims_def)
  then show ?thesis
    using sd_jwt_presentation [OF sample_issuable sample_issue sample_signer_ok, of "[sample_name]"
        "\<lparr>vo_verify_kb = False, vo_expected_audience = None, vo_expected_nonce = None\<rparr>" None] sample_collision_free top
    by (simp add: sample_paths hidden)
qed

theorem sd_jwt_acceptance_sound_witness:
  "\<exists>payload. sample_verifier (JObject []) ''a.b.c'' = Inr payload \<and> resolve_claims 1 payload [] = Some (JObject [])"
proof -
  have "sd_jwt_verify 1 sample_codec \<lparr>sj_jws = ''a.b.c'', sj_disclosures = [], sj_kb_jwt = None\<rparr> (sample_verifier (JObject []))
      sample_sd_hasher \<lparr>vo_verify_kb = False, vo_expected_audience = None, vo_expected_nonce = None\<rparr> None =
      Some (Inr \<lparr>vr_claims = JObject [], vr_kb_verified = None\<rparr>)"
    by (simp add: sd_jwt_verify_def sample_verifier_def json_get_def resolve_claims_def restore_claims_def bt_remove_def
        verify_key_binding_def)
  from sd_jwt_acceptance_sound [OF this] show ?thesis by auto
qed

definition sample_bare :: sd_jwt where
  "sample_bare = \<lparr>sj_jws = ''a.b.c'', sj_disclosures = [], sj_kb_jwt = None\<rparr>"

definition sample_kb_body :: json where
  "sample_kb_body = JObject [(''aud'', JString ''v''), (''iat'', JNumber (PosInt 0)), (''nonce'', JString ''n''),
     (''sd_hash'', JString (hash_b64 sample_codec sample_sd_hasher (bytes_of (serialize_without_kb sample_bare))))]"

definition sample_kb :: kb_jwt_input where
  "sample_kb = \<lparr>kb_audience = ''v'', kb_nonce = ''n'', kb_signer = sample_signer sample_kb_body, kb_iat = 0\<rparr>"

theorem sd_jwt_key_binding_witness:
  "let payload = JObject [(''cnf'', JObject [(''jwk'', JNull)])] in
   sd_jwt_verify 9 sample_codec (sample_bare\<lparr>sj_kb_jwt := Some ''a.b.c''\<rparr>) (\<lambda>_. Inr payload) sample_sd_hasher
     \<lparr>vo_verify_kb = True, vo_expected_audience = Some ''v'', vo_expected_nonce = None\<rparr> (Some (sample_verifier sample_kb_body)) =
     Some (Inr \<lparr>vr_claims = payload, vr_kb_verified = Some True\<rparr>)"
proof -
  let ?payload = "JObject [(''cnf'', JObject [(''jwk'', JNull)])]"
  have made: "present sample_codec sample_bare [] (Some sample_kb) sample_sd_hasher = Inr (sample_bare\<lparr>sj_kb_jwt := Some ''a.b.c''\<rparr>)"
    by (simp add: present_def Let_def sample_kb_def sample_signer_def sample_kb_body_def sample_bare_def)
  have law: "\<forall>hdr p jwt. sign_jwt (kb_signer sample_kb) hdr p = Inr jwt \<longrightarrow> sample_verifier sample_kb_body jwt = Inr p"
    using sample_signer_ok by (simp add: sample_kb_def)
  have "resolve_claims 9 ?payload [] = Some ?payload" by code_simp
  then have "sd_jwt_verify 9 sample_codec (sample_bare\<lparr>sj_kb_jwt := None\<rparr>) (\<lambda>_. Inr ?payload) sample_sd_hasher
      \<lparr>vo_verify_kb = False, vo_expected_audience = Some ''v'', vo_expected_nonce = None\<rparr> None =
      Some (Inr \<lparr>vr_claims = ?payload, vr_kb_verified = None\<rparr>)"
    by (simp add: verify_iff verify_key_binding_def sample_bare_def json_get_def bt_get_def)
  then show ?thesis
    using sd_jwt_key_binding [OF made law, where verifier = "\<lambda>_. Inr ?payload" and payload = ?payload and cnf = "JObject [(''jwk'', JNull)]"
        and jwk = JNull and other = "sample_bare\<lparr>sj_kb_jwt := Some ''a.b.c''\<rparr>" and n = 9 and claims = ?payload
        and opts = "\<lparr>vo_verify_kb = True, vo_expected_audience = Some ''v'', vo_expected_nonce = None\<rparr>"]
    by (simp add: json_get_def bt_get_def sample_kb_def)
qed

lemma sample_b64_ok: "b64_ok (sd_b64 sample_codec)"
  using hex_codec_ok by (simp add: sample_codec_def hex_codec_def)

theorem sd_jwt_round_trip_witness:
  "sd_jwt_parse sample_codec sample_sd_hasher (serialize \<lparr>sj_jws = ''a.b.c'', sj_disclosures = [sample_name], sj_kb_jwt = None\<rparr>) =
     Inr \<lparr>sj_jws = ''a.b.c'', sj_disclosures = [sample_name], sj_kb_jwt = None\<rparr>"
proof (rule sd_jwt_round_trip [OF sample_b64_ok])
  show "compact (sj_jws \<lparr>sj_jws = ''a.b.c'', sj_disclosures = [sample_name], sj_kb_jwt = None\<rparr>)" by (simp add: compact_def)
  have arr: "disclosure_array (d_salt sample_name) (d_claim_name sample_name) (d_claim_value sample_name) = sample_arr"
    by (simp add: sample_name_def new_claim_def disclosure_build_def Let_def sample_arr_def generate_salt_def sample_codec_def sample_rng_def)
  have "toy_json (JArray sample_arr) \<noteq> [] \<and> utf8_valid (bytes_of (toy_json (JArray sample_arr)))" by code_simp
  then have "reads_back sample_codec sample_name" by (simp add: reads_back_def arr Let_def sample_codec_def)
  moreover have "built sample_codec sample_sd_hasher sample_name" by (simp add: sample_name_def built_new)
  ultimately show "\<forall>d \<in> set (sj_disclosures \<lparr>sj_jws = ''a.b.c'', sj_disclosures = [sample_name], sj_kb_jwt = None\<rparr>).
      built sample_codec sample_sd_hasher d \<and> reads_back sample_codec d" by simp
qed simp

end
