(* ===== verification/Dcql.thy ===== *)
theory Dcql
  imports Json
begin

text \<open>
  The Digital Credentials Query Language: \<open>src/crates/protocols/affinidi-openid4vp/src/dcql.rs\<close>. A verifier asks for
  credentials and claims; \<open>validate\<close> enforces the structure of a query; \<open>match_credentials\<close> answers it from the
  credentials a holder has. The derived JSON encoding of a query is \<open>serde\<close>'s, so it is an argument; the
  encoding of a path segment, written by hand in the source, is modelled. The second half states what a
  query means (\<open>selects\<close>, \<open>satisfies\<close>, \<open>answerable\<close>) and that validation and matching are exact for it.
\<close>

section \<open>Queries\<close>

datatype oid4vp_error =
    InvalidRequest string
  | InvalidResponse string
  | InvalidPresentationDefinition string
  | InvalidDcqlQuery string
  | NoMatchingCredentials string
  | InvalidVpToken string
  | Oid4vpJson \<comment> \<open>an error of \<open>serde_json\<close>, with its text\<close>

datatype claim_path_segment = Name string | Index "64 word" | Wildcard

type_synonym claim_path = "claim_path_segment list"

record claims_query =
  cl_id :: "string option"
  cl_path :: claim_path
  cl_values :: "json list option"
  cl_intent_to_retain :: "bool option"

datatype trusted_authority_type = Aki | EtsiTl | OpenidFederation

record trusted_authorities_query =
  ta_authority_type :: trusted_authority_type
  ta_values :: "string list"

record credential_query =
  cq_id :: string
  cq_format :: string
  cq_meta :: "json_object option"
  cq_claims :: "claims_query list option"
  cq_claim_sets :: "string list list option"
  cq_trusted_authorities :: "trusted_authorities_query list option"
  cq_require_cryptographic_holder_binding :: "bool option"
  cq_multiple :: "bool option"

record credential_set_query =
  cs_options :: "string list list"
  cs_required :: "bool option"

record dcql_query =
  dq_credentials :: "credential_query list"
  dq_credential_sets :: "credential_set_query list option"

definition unwrap_or :: "'a \<Rightarrow> 'a option \<Rightarrow> 'a" where
  "unwrap_or d x = (case x of None \<Rightarrow> d | Some v \<Rightarrow> v)"

definition require_holder_binding :: "credential_query \<Rightarrow> bool" where
  "require_holder_binding cq = unwrap_or True (cq_require_cryptographic_holder_binding cq)"

definition multiple :: "credential_query \<Rightarrow> bool" where
  "multiple cq = unwrap_or False (cq_multiple cq)"

definition is_required :: "credential_set_query \<Rightarrow> bool" where
  "is_required s = unwrap_or True (cs_required s)"

section \<open>Path segments on the wire\<close>

definition segment_to_json :: "claim_path_segment \<Rightarrow> json" where
  "segment_to_json s = (case s of Name name \<Rightarrow> JString name | Index i \<Rightarrow> JNumber (PosInt i) | Wildcard \<Rightarrow> JNull)"

definition segment_from_json :: "json \<Rightarrow> oid4vp_error + claim_path_segment" where
  "segment_from_json v =
     (case v of
        JString name \<Rightarrow> Inr (Name name)
      | JNull \<Rightarrow> Inr Wildcard
      | JNumber (PosInt i) \<Rightarrow> Inr (Index i)
      | _ \<Rightarrow> Inl Oid4vpJson)"

section \<open>Validation\<close>

definition is_ascii_alphanumeric :: "char \<Rightarrow> bool" where
  "is_ascii_alphanumeric c \<longleftrightarrow>
     (let n = of_char c :: nat in (48 \<le> n \<and> n \<le> 57) \<or> (65 \<le> n \<and> n \<le> 90) \<or> (97 \<le> n \<and> n \<le> 122))"

definition is_valid_id :: "string \<Rightarrow> bool" where
  "is_valid_id i \<longleftrightarrow> i \<noteq> [] \<and> list_all (\<lambda>b. is_ascii_alphanumeric b \<or> b = CHR ''_'' \<or> b = CHR ''-'') i"

definition validate_claim :: "string \<Rightarrow> claims_query \<Rightarrow> oid4vp_error + unit" where
  "validate_claim credential_id claim =
     (if (case cl_id claim of None \<Rightarrow> False | Some i \<Rightarrow> \<not> is_valid_id i)
      then Inl (InvalidDcqlQuery (''credential query `'' @ credential_id @ ''` has a claim id `'' @ the (cl_id claim) @
             ''` that is not a non-empty [A-Za-z0-9_-] string''))
      else if cl_path claim = []
      then Inl (InvalidDcqlQuery (''credential query `'' @ credential_id @ ''` has a claim with an empty `path`''))
      else Inr ())"

fun validate_claims :: "string \<Rightarrow> string list \<Rightarrow> claims_query list \<Rightarrow> oid4vp_error + string list" where
  \<comment> \<open>second argument and result: \<open>claim_ids\<close>\<close>
  "validate_claims cq claim_ids [] = Inr claim_ids"
| "validate_claims cq claim_ids (claim # claims) =
     and_then (validate_claim cq claim) (\<lambda>_.
     case cl_id claim of
       None \<Rightarrow> validate_claims cq claim_ids claims
     | Some cid \<Rightarrow>
         if cid \<in> set claim_ids
         then Inl (InvalidDcqlQuery (''credential query `'' @ cq @ ''` has a duplicate claim id `'' @ cid @ ''`''))
         else validate_claims cq (cid # claim_ids) claims)"

fun validate_options ::
  "(nat \<Rightarrow> string) \<Rightarrow> (string \<Rightarrow> string) \<Rightarrow> string set \<Rightarrow> nat \<Rightarrow> string list list \<Rightarrow> oid4vp_error + unit" where
  \<comment> \<open>the loop over \<open>claim_sets\<close> and the one over \<open>options\<close>, which differ in their messages\<close>
  "validate_options on_empty on_unknown ids i [] = Inr ()"
| "validate_options on_empty on_unknown ids i (opt # opts) =
     (if opt = [] then Inl (InvalidDcqlQuery (on_empty i))
      else case find (\<lambda>cid. cid \<notin> ids) opt of
             Some cid \<Rightarrow> Inl (InvalidDcqlQuery (on_unknown cid))
           | None \<Rightarrow> validate_options on_empty on_unknown ids (Suc i) opts)"

definition validate_credential_query :: "credential_query \<Rightarrow> oid4vp_error + unit" where
  "validate_credential_query cq =
     (if cq_format cq = [] then Inl (InvalidDcqlQuery (''credential query `'' @ cq_id cq @ ''` has an empty `format`''))
      else
        and_then (case cq_claims cq of
            None \<Rightarrow> Inr []
          | Some claims \<Rightarrow>
              if claims = []
              then Inl (InvalidDcqlQuery (''credential query `'' @ cq_id cq @ ''` has an empty `claims` (omit it instead)''))
              else validate_claims (cq_id cq) [] claims) (\<lambda>claim_ids.
        case cq_claim_sets cq of
          None \<Rightarrow> Inr ()
        | Some claim_sets \<Rightarrow>
            if claim_sets = []
            then Inl (InvalidDcqlQuery (''credential query `'' @ cq_id cq @ ''` has an empty `claim_sets` (omit it instead)''))
            else validate_options
                   (\<lambda>i. ''credential query `'' @ cq_id cq @ ''` claim_sets['' @ show_nat i @ ''] is empty'')
                   (\<lambda>cid. ''credential query `'' @ cq_id cq @ ''` claim_sets references unknown claim id `'' @ cid @
                       ''` (every claim referenced by claim_sets must carry that id)'')
                   (set claim_ids) 0 claim_sets))"

definition validate_credential_set :: "string list \<Rightarrow> credential_set_query \<Rightarrow> oid4vp_error + unit" where
  "validate_credential_set credential_ids s =
     (if cs_options s = [] then Inl (InvalidDcqlQuery ''a credential set query has an empty `options`'')
      else validate_options
             (\<lambda>i. ''credential set query options['' @ show_nat i @ ''] is empty'')
             (\<lambda>cid. ''credential set query references unknown credential id `'' @ cid @ ''`'')
             (set credential_ids) 0 (cs_options s))"

fun validate_credentials :: "string list \<Rightarrow> credential_query list \<Rightarrow> oid4vp_error + string list" where
  \<comment> \<open>first argument and result: \<open>credential_ids\<close>\<close>
  "validate_credentials credential_ids [] = Inr credential_ids"
| "validate_credentials credential_ids (cq # cqs) =
     (if \<not> is_valid_id (cq_id cq)
      then Inl (InvalidDcqlQuery (''credential query id `'' @ cq_id cq @ ''` is not a non-empty [A-Za-z0-9_-] string''))
      else if cq_id cq \<in> set credential_ids
      then Inl (InvalidDcqlQuery (''duplicate credential query id `'' @ cq_id cq @ ''`''))
      else and_then (validate_credential_query cq) (\<lambda>_. validate_credentials (cq_id cq # credential_ids) cqs))"

fun validate_sets :: "string list \<Rightarrow> credential_set_query list \<Rightarrow> oid4vp_error + unit" where
  "validate_sets credential_ids [] = Inr ()"
| "validate_sets credential_ids (s # sets) =
     and_then (validate_credential_set credential_ids s) (\<lambda>_. validate_sets credential_ids sets)"

definition dcql_validate :: "dcql_query \<Rightarrow> oid4vp_error + unit" where
  "dcql_validate q =
     (if dq_credentials q = []
      then Inl (InvalidDcqlQuery ''`credentials` must contain at least one credential query'')
      else and_then (validate_credentials [] (dq_credentials q)) (\<lambda>credential_ids.
           case dq_credential_sets q of
             None \<Rightarrow> Inr ()
           | Some sets \<Rightarrow> validate_sets credential_ids sets))"

definition dcql_from_json :: "(json \<Rightarrow> dcql_query option) \<Rightarrow> json \<Rightarrow> oid4vp_error + dcql_query" where
  \<comment> \<open>\<open>from_value\<close>: the derived decoder\<close>
  "dcql_from_json from_value v =
     (case from_value v of
        None \<Rightarrow> Inl Oid4vpJson
      | Some q \<Rightarrow> and_then (dcql_validate q) (\<lambda>_. Inr q))"

section \<open>Matching\<close>

record candidate_credential =
  cd_id :: string
  cd_format :: string
  cd_claims :: json
  cd_vct :: "string option"
  cd_doctype :: "string option"
  cd_supports_holder_binding :: bool

record credential_match =
  cm_credential_query_id :: string
  cm_candidate_id :: string
  cm_disclosed_paths :: "claim_path list"

definition select_segment :: "claim_path_segment \<Rightarrow> json \<Rightarrow> json list" where
  \<comment> \<open>what one value contributes to \<open>next\<close>\<close>
  "select_segment segment v =
     (case segment of
        Name name \<Rightarrow> (case as_object v of None \<Rightarrow> [] | Some m \<Rightarrow> (case bt_get m name of None \<Rightarrow> [] | Some child \<Rightarrow> [child]))
      | Index i \<Rightarrow> (case as_array v of None \<Rightarrow> [] | Some a \<Rightarrow> if unat i < length a then [a ! unat i] else [])
      | Wildcard \<Rightarrow> (case as_array v of None \<Rightarrow> [] | Some a \<Rightarrow> a))"

fun select_loop :: "json list \<Rightarrow> claim_path \<Rightarrow> json list" where
  "select_loop current [] = current"
| "select_loop current (segment # segments) =
     (let following = concat (map (select_segment segment) current)
      in if following = [] then [] else select_loop following segments)"

definition select_path :: "json \<Rightarrow> claim_path \<Rightarrow> json list" where
  "select_path root segments = select_loop [root] segments"

definition is_satisfied_by :: "claims_query \<Rightarrow> json \<Rightarrow> bool" where
  "is_satisfied_by claim claims \<longleftrightarrow>
     (let selected = select_path claims (cl_path claim)
      in if selected = [] then False
         else case cl_values claim of
                None \<Rightarrow> True
              | Some allowed \<Rightarrow> list_ex (\<lambda>v. list_ex (\<lambda>a. json_eq a v) allowed) selected)"

definition format_and_meta_match :: "credential_query \<Rightarrow> candidate_credential \<Rightarrow> bool" where
  "format_and_meta_match cq c \<longleftrightarrow>
     (if cq_format cq \<noteq> cd_format c then False
      else case cq_meta cq of
             None \<Rightarrow> True
           | Some meta \<Rightarrow>
               if (case Option.bind (bt_get meta ''vct_values'') as_array of
                     None \<Rightarrow> False
                   | Some vct_values \<Rightarrow>
                       \<not> (case cd_vct c of None \<Rightarrow> False | Some vct \<Rightarrow> list_ex (\<lambda>v. as_str v = Some vct) vct_values))
               then False
               else case Option.bind (bt_get meta ''doctype_value'') as_str of
                      None \<Rightarrow> True
                    | Some doctype_value \<Rightarrow> cd_doctype c = Some doctype_value)"

fun option_paths :: "json \<Rightarrow> claims_query list \<Rightarrow> string list \<Rightarrow> claim_path list option" where
  "option_paths v claims [] = Some []"
| "option_paths v claims (claim_id # ids) =
     (case find (\<lambda>c. cl_id c = Some claim_id) claims of
        None \<Rightarrow> None
      | Some claim \<Rightarrow>
          if \<not> is_satisfied_by claim v then None
          else map_option ((#) (cl_path claim)) (option_paths v claims ids))"

fun find_map :: "('a \<Rightarrow> 'b option) \<Rightarrow> 'a list \<Rightarrow> 'b option" where
  "find_map f [] = None"
| "find_map f (x # xs) = (case f x of Some y \<Rightarrow> Some y | None \<Rightarrow> find_map f xs)"

fun claim_paths :: "json \<Rightarrow> claims_query list \<Rightarrow> claim_path list option" where
  "claim_paths v [] = Some []"
| "claim_paths v (claim # claims) =
     (if \<not> is_satisfied_by claim v then None else map_option ((#) (cl_path claim)) (claim_paths v claims))"

definition evaluate :: "credential_query \<Rightarrow> candidate_credential \<Rightarrow> claim_path list option" where
  "evaluate cq c =
     (if \<not> format_and_meta_match cq c then None
      else if require_holder_binding cq \<and> \<not> cd_supports_holder_binding c then None
      else case cq_claims cq of
             None \<Rightarrow> Some []
           | Some claims \<Rightarrow>
               (case cq_claim_sets cq of
                  Some claim_sets \<Rightarrow> find_map (option_paths (cd_claims c) claims) claim_sets
                | None \<Rightarrow> claim_paths (cd_claims c) claims))"

fun query_matches :: "credential_query \<Rightarrow> candidate_credential list \<Rightarrow> credential_match list" where
  "query_matches cq [] = []"
| "query_matches cq (c # candidates) =
     (case evaluate cq c of
        None \<Rightarrow> query_matches cq candidates
      | Some disclosed_paths \<Rightarrow>
          \<lparr>cm_credential_query_id = cq_id cq, cm_candidate_id = cd_id c, cm_disclosed_paths = disclosed_paths\<rparr> #
          (if multiple cq then query_matches cq candidates else []))"

definition per_query :: "dcql_query \<Rightarrow> candidate_credential list \<Rightarrow> string \<Rightarrow> credential_match list option" where
  "per_query q candidates = fold (\<lambda>cq m. m(cq_id cq \<mapsto> query_matches cq candidates)) (dq_credentials q) Map.empty"

definition query_matched :: "(string \<Rightarrow> credential_match list option) \<Rightarrow> string \<Rightarrow> bool" where
  "query_matched found i \<longleftrightarrow> (case found i of None \<Rightarrow> False | Some m \<Rightarrow> m \<noteq> [])"

fun select_sets :: "(string \<Rightarrow> bool) \<Rightarrow> string list \<Rightarrow> credential_set_query list \<Rightarrow> oid4vp_error + string list" where
  "select_sets matched selected [] = Inr selected"
| "select_sets matched selected (s # sets) =
     (case find (list_all matched) (cs_options s) of
        Some opt \<Rightarrow> select_sets matched (fold (\<lambda>i acc. if i \<in> set acc then acc else acc @ [i]) opt selected) sets
      | None \<Rightarrow>
          if is_required s
          then Inl (NoMatchingCredentials ''no option of a required credential set could be satisfied'')
          else select_sets matched selected sets)"

fun select_all :: "(string \<Rightarrow> bool) \<Rightarrow> string list \<Rightarrow> credential_query list \<Rightarrow> oid4vp_error + string list" where
  "select_all matched selected [] = Inr selected"
| "select_all matched selected (cq # cqs) =
     (if \<not> matched (cq_id cq)
      then Inl (NoMatchingCredentials (''credential query `'' @ cq_id cq @ ''` matched no held credential''))
      else select_all matched (selected @ [cq_id cq]) cqs)"

definition match_credentials :: "dcql_query \<Rightarrow> candidate_credential list \<Rightarrow> oid4vp_error + credential_match list" where
  "match_credentials q candidates =
     (let found = per_query q candidates; matched = query_matched found
      in and_then (case dq_credential_sets q of
                     Some sets \<Rightarrow> select_sets matched [] sets
                   | None \<Rightarrow> select_all matched [] (dq_credentials q)) (\<lambda>selected.
         Inr (concat (map (\<lambda>cq. if cq_id cq \<in> set selected then unwrap_or [] (found (cq_id cq)) else []) (dq_credentials q)))))"

section \<open>What validation accepts\<close>

definition claim_ids :: "credential_query \<Rightarrow> string set" where
  "claim_ids cq = {i. \<exists>claims claim. cq_claims cq = Some claims \<and> claim \<in> set claims \<and> cl_id claim = Some i}"

definition options_ok :: "string set \<Rightarrow> string list list \<Rightarrow> bool" where
  "options_ok ids opts \<longleftrightarrow> opts \<noteq> [] \<and> (\<forall>opt \<in> set opts. opt \<noteq> [] \<and> set opt \<subseteq> ids)"

definition claims_ok :: "claims_query list \<Rightarrow> bool" where
  "claims_ok claims \<longleftrightarrow> (\<forall>c \<in> set claims. cl_path c \<noteq> [] \<and> (\<forall>i. cl_id c = Some i \<longrightarrow> is_valid_id i)) \<and>
     distinct (List.map_filter cl_id claims)"

definition credential_query_ok :: "credential_query \<Rightarrow> bool" where
  "credential_query_ok cq \<longleftrightarrow> cq_format cq \<noteq> [] \<and>
     (\<forall>claims. cq_claims cq = Some claims \<longrightarrow> claims \<noteq> [] \<and> claims_ok claims) \<and>
     (\<forall>sets. cq_claim_sets cq = Some sets \<longrightarrow> options_ok (claim_ids cq) sets)"

definition query_ok :: "dcql_query \<Rightarrow> bool" where
  "query_ok q \<longleftrightarrow> dq_credentials q \<noteq> [] \<and> distinct (map cq_id (dq_credentials q)) \<and>
     (\<forall>cq \<in> set (dq_credentials q). is_valid_id (cq_id cq) \<and> credential_query_ok cq) \<and>
     (\<forall>sets s. dq_credential_sets q = Some sets \<longrightarrow> s \<in> set sets \<longrightarrow> options_ok (cq_id ` set (dq_credentials q)) (cs_options s))"

definition dcql_refusal :: "oid4vp_error + 'a \<Rightarrow> bool" where
  \<comment> \<open>an error, if any, is \<open>InvalidDcqlQuery\<close>\<close>
  "dcql_refusal r \<longleftrightarrow> (\<forall>e. r = Inl e \<longrightarrow> (\<exists>t. e = InvalidDcqlQuery t))"

lemma dcql_refusal_simps [simp]: "dcql_refusal (Inr x)" "dcql_refusal (Inl (InvalidDcqlQuery t))"
  by (simp_all add: dcql_refusal_def)

lemma dcql_refusal_and_then: "dcql_refusal r \<Longrightarrow> (\<And>x. r = Inr x \<Longrightarrow> dcql_refusal (f x)) \<Longrightarrow> dcql_refusal (and_then r f)"
  by (cases r) (auto simp: dcql_refusal_def)

lemma validate_options_iff:
  "validate_options on_empty on_unknown ids i opts = Inr () \<longleftrightarrow> (\<forall>opt \<in> set opts. opt \<noteq> [] \<and> set opt \<subseteq> ids)"
  "dcql_refusal (validate_options on_empty on_unknown ids i opts)"
  by (induction opts arbitrary: i) (auto simp: find_None_iff find_Some_iff dest: nth_mem subsetD split: option.split)

lemma validate_claim_iff:
  "validate_claim cq c = Inr () \<longleftrightarrow> cl_path c \<noteq> [] \<and> (\<forall>i. cl_id c = Some i \<longrightarrow> is_valid_id i)"
  "dcql_refusal (validate_claim cq c)"
  by (auto simp: validate_claim_def split: option.split)

lemma validate_claims_iff:
  "validate_claims cq seen claims = Inr ids \<longleftrightarrow>
     claims_ok claims \<and> set (List.map_filter cl_id claims) \<inter> set seen = {} \<and> ids = rev (List.map_filter cl_id claims) @ seen"
  "dcql_refusal (validate_claims cq seen claims)"
proof (induction claims arbitrary: seen)
  case (Cons c claims)
  case 1
  show ?case
  proof (cases "validate_claim cq c")
    case (Inl e)
    then show ?thesis using validate_claim_iff(1) [of cq c] by (auto simp: claims_ok_def)
  next
    case (Inr u)
    then show ?thesis using validate_claim_iff(1) [of cq c]
      by (auto simp: claims_ok_def Cons.IH(1) List.map_filter_simps split: option.splits)
  qed
next
  case (Cons c claims)
  case 2
  show ?case using Cons.IH(2) by (auto intro!: dcql_refusal_and_then validate_claim_iff(2) split: option.split)
qed (auto simp: claims_ok_def List.map_filter_simps)

lemma map_filter_ids: "set (List.map_filter f xs) = {y. \<exists>x \<in> set xs. f x = Some y}"
  by (induction xs) (auto simp: List.map_filter_simps split: option.split)

lemma validate_credential_query_iff:
  "validate_credential_query cq = Inr () \<longleftrightarrow> credential_query_ok cq"
  "dcql_refusal (validate_credential_query cq)"
proof -
  show "dcql_refusal (validate_credential_query cq)" unfolding validate_credential_query_def
    by (auto intro!: dcql_refusal_and_then validate_claims_iff(2) validate_options_iff(2) split: option.split)
  show "validate_credential_query cq = Inr () \<longleftrightarrow> credential_query_ok cq"
  proof (cases "cq_claims cq")
    case None
    then show ?thesis
      by (auto simp: validate_credential_query_def credential_query_ok_def claim_ids_def options_ok_def validate_options_iff(1)
          split: option.splits)
  next
    case (Some claims)
    have ids: "claim_ids cq = set (List.map_filter cl_id claims)" using Some by (auto simp: claim_ids_def map_filter_ids)
    show ?thesis
    proof (cases "validate_claims (cq_id cq) [] claims")
      case (Inl e)
      then have "\<not> claims_ok claims" using validate_claims_iff(1) [of "cq_id cq" "[]" claims] by auto
      then show ?thesis using Some Inl by (auto simp: validate_credential_query_def credential_query_ok_def)
    next
      case (Inr seen)
      note Inr [unfolded validate_claims_iff(1)]
      then show ?thesis using Some Inr
        by (auto simp: validate_credential_query_def credential_query_ok_def ids options_ok_def validate_options_iff(1)
            split: option.splits)
    qed
  qed
qed

lemma validate_credentials_iff:
  "validate_credentials seen cqs = Inr ids \<longleftrightarrow>
     (\<forall>cq \<in> set cqs. is_valid_id (cq_id cq) \<and> credential_query_ok cq) \<and> distinct (map cq_id cqs) \<and>
     set (map cq_id cqs) \<inter> set seen = {} \<and> ids = rev (map cq_id cqs) @ seen"
  "dcql_refusal (validate_credentials seen cqs)"
proof (induction cqs arbitrary: seen)
  case (Cons cq cqs)
  case 1
  show ?case
  proof (cases "validate_credential_query cq")
    case (Inl e)
    then show ?thesis using validate_credential_query_iff(1) [of cq] by auto
  next
    case (Inr u)
    then show ?thesis using validate_credential_query_iff(1) [of cq] by (auto simp: Cons.IH(1))
  qed
next
  case (Cons cq cqs)
  case 2
  show ?case using Cons.IH(2) by (auto intro!: dcql_refusal_and_then validate_credential_query_iff(2))
qed auto

lemma validate_sets_iff:
  "validate_sets ids sets = Inr () \<longleftrightarrow> (\<forall>s \<in> set sets. options_ok (set ids) (cs_options s))"
  "dcql_refusal (validate_sets ids sets)"
proof -
  have one: "validate_credential_set ids s = Inr () \<longleftrightarrow> options_ok (set ids) (cs_options s)" "dcql_refusal (validate_credential_set ids s)" for s
    by (auto simp: validate_credential_set_def options_ok_def validate_options_iff)
  show "validate_sets ids sets = Inr () \<longleftrightarrow> (\<forall>s \<in> set sets. options_ok (set ids) (cs_options s))"
  proof (induction sets)
    case (Cons s sets)
    then show ?case using one(1) [of s] by (cases "validate_credential_set ids s") auto
  qed simp
  show "dcql_refusal (validate_sets ids sets)"
    by (induction sets) (auto intro!: dcql_refusal_and_then one(2))
qed

lemma dcql_validate_iff: "dcql_validate q = Inr () \<longleftrightarrow> query_ok q"
proof (cases "validate_credentials [] (dq_credentials q)")
  case (Inl e)
  then have "\<not> ((\<forall>cq \<in> set (dq_credentials q). is_valid_id (cq_id cq) \<and> credential_query_ok cq) \<and> distinct (map cq_id (dq_credentials q)))"
    using validate_credentials_iff(1) [of "[]" "dq_credentials q"] by auto
  then show ?thesis using Inl by (auto simp: dcql_validate_def query_ok_def)
next
  case (Inr ids)
  note ok = Inr [unfolded validate_credentials_iff(1)]
  then have "set ids = cq_id ` set (dq_credentials q)" by auto
  then show ?thesis using ok Inr by (auto simp: dcql_validate_def query_ok_def validate_sets_iff(1) split: option.splits)
qed

text \<open>The documentation requires an id of every claim where claim sets are used; a claim that no set names passes without one.\<close>
lemma claim_sets_allow_missing_id:
  assumes "is_valid_id i" "is_valid_id j" "p \<noteq> []" "p' \<noteq> []" "f \<noteq> []"
    and "cq_id cq = i" "cq_format cq = f" "cq_claims cq = Some [c, d]" "cq_claim_sets cq = Some [[j]]"
    and "cl_id c = Some j" "cl_path c = p" "cl_id d = None" "cl_path d = p'"
    and "dq_credentials q = [cq]" "dq_credential_sets q = None"
  shows "dcql_validate q = Inr ()"
  unfolding dcql_validate_iff using assms
  by (auto simp: query_ok_def credential_query_ok_def claims_ok_def options_ok_def claim_ids_def List.map_filter_simps)

text \<open>C23. Validation is exact: a query is accepted if and only if it has credentials with distinct well-formed ids, each
  with a format, non-empty claims with non-empty paths and, where they have ids, distinct well-formed ones, claim sets
  and credential sets that are non-empty and name existing ids only. An id is required only of the claims that the claim
  sets name, although the documentation requires one of every claim where claim sets are used. A refusal is always
  \<open>InvalidDcqlQuery\<close>. Reading a query from JSON gives exactly the decoded queries that are well formed, and a path
  segment is read back from what was written.\<close>
theorem dcql_validate_exact:
  "(dcql_validate q = Inr () \<longleftrightarrow> query_ok q) \<and> (\<exists>t. dcql_validate q \<in> {Inr (), Inl (InvalidDcqlQuery t)}) \<and>
   (dcql_from_json from_value v = Inr q \<longleftrightarrow> from_value v = Some q \<and> query_ok q) \<and>
   (segment_from_json v = Inr seg \<longleftrightarrow> v = segment_to_json seg)"
proof -
  have "dcql_refusal (dcql_validate q)" unfolding dcql_validate_def
    by (auto intro!: dcql_refusal_and_then validate_credentials_iff(2) validate_sets_iff(2) split: option.split)
  then have t: "\<exists>t. dcql_validate q \<in> {Inr (), Inl (InvalidDcqlQuery t)}"
    by (cases "dcql_validate q") (auto simp: dcql_refusal_def)
  have j: "dcql_from_json from_value v = Inr q \<longleftrightarrow> from_value v = Some q \<and> query_ok q"
  proof (cases "from_value v")
    case (Some p)
    then show ?thesis using dcql_validate_iff [of p] by (cases "dcql_validate p") (auto simp: dcql_from_json_def)
  qed (simp add: dcql_from_json_def)
  have "segment_from_json v = Inr seg \<longleftrightarrow> v = segment_to_json seg"
    by (cases seg) (auto simp: segment_from_json_def segment_to_json_def split: json.splits json_number.splits)
  with t j show ?thesis using dcql_validate_iff by blast
qed

section \<open>What a query means\<close>

inductive selects :: "json \<Rightarrow> claim_path \<Rightarrow> json \<Rightarrow> bool" where
  here: "selects v [] v"
| member: "bt_get m name = Some w \<Longrightarrow> selects w p u \<Longrightarrow> selects (JObject m) (Name name # p) u"
| element: "unat i < length a \<Longrightarrow> selects (a ! unat i) p u \<Longrightarrow> selects (JArray a) (Index i # p) u"
| any_element: "w \<in> set a \<Longrightarrow> selects w p u \<Longrightarrow> selects (JArray a) (Wildcard # p) u"

inductive_simps selects_Nil: "selects v [] u"
inductive_simps selects_Cons: "selects v (seg # p) u"

definition claim_holds :: "claims_query \<Rightarrow> json \<Rightarrow> bool" where
  "claim_holds claim v \<longleftrightarrow> (\<exists>u. selects v (cl_path claim) u \<and> (\<forall>allowed. cl_values claim = Some allowed \<longrightarrow> (\<exists>a \<in> set allowed. json_eq a u)))"

definition satisfies :: "credential_query \<Rightarrow> candidate_credential \<Rightarrow> bool" where
  "satisfies cq c \<longleftrightarrow> format_and_meta_match cq c \<and> (require_holder_binding cq \<longrightarrow> cd_supports_holder_binding c) \<and>
     (\<forall>claims. cq_claims cq = Some claims \<longrightarrow>
        (case cq_claim_sets cq of
           None \<Rightarrow> \<forall>claim \<in> set claims. claim_holds claim (cd_claims c)
         | Some sets \<Rightarrow> \<exists>opt \<in> set sets. \<forall>i \<in> set opt. \<exists>claim \<in> set claims. cl_id claim = Some i \<and> claim_holds claim (cd_claims c)))"

definition answered :: "dcql_query \<Rightarrow> candidate_credential list \<Rightarrow> string \<Rightarrow> bool" where
  "answered q candidates i \<longleftrightarrow> (\<exists>cq \<in> set (dq_credentials q). cq_id cq = i \<and> (\<exists>c \<in> set candidates. satisfies cq c))"

definition answerable :: "dcql_query \<Rightarrow> candidate_credential list \<Rightarrow> bool" where
  "answerable q candidates \<longleftrightarrow>
     (case dq_credential_sets q of
        None \<Rightarrow> \<forall>cq \<in> set (dq_credentials q). answered q candidates (cq_id cq)
      | Some sets \<Rightarrow> \<forall>s \<in> set sets. is_required s \<longrightarrow> (\<exists>opt \<in> set (cs_options s). \<forall>i \<in> set opt. answered q candidates i))"

definition requested :: "credential_query \<Rightarrow> claim_path set" where
  "requested cq = {cl_path claim | claims claim. cq_claims cq = Some claims \<and> claim \<in> set claims}"

lemma selects_segment: "selects v (seg # p) u \<longleftrightarrow> (\<exists>w \<in> set (select_segment seg v). selects w p u)"
  by (cases seg; cases v) (auto simp: selects_Cons select_segment_def as_object_def as_array_def intro: sym split: option.splits)

lemma select_loop_iff: "u \<in> set (select_loop vs p) \<longleftrightarrow> (\<exists>v \<in> set vs. selects v p u)"
proof (induction p arbitrary: vs)
  case (Cons seg p)
  define F where "F = concat (map (select_segment seg) vs)"
  have "(\<exists>v \<in> set vs. selects v (seg # p) u) \<longleftrightarrow> (\<exists>w \<in> set F. selects w p u)" by (auto simp: selects_segment F_def)
  moreover have "select_loop vs (seg # p) = (if F = [] then [] else select_loop F p)" by (simp add: F_def Let_def)
  ultimately show ?case by (cases "F = []") (simp_all add: Cons)
qed (simp add: selects_Nil)

lemma is_satisfied_iff: "is_satisfied_by claim v \<longleftrightarrow> claim_holds claim v"
proof -
  have "set (select_path v (cl_path claim)) = {u. selects v (cl_path claim) u}"
    by (auto simp: select_path_def select_loop_iff)
  moreover have "select_path v (cl_path claim) = [] \<longleftrightarrow> set (select_path v (cl_path claim)) = {}" by simp
  ultimately show ?thesis by (auto simp: is_satisfied_by_def claim_holds_def Let_def list_ex_iff split: option.split)
qed

lemma find_claim:
  assumes "claims_ok claims" "claim \<in> set claims" "cl_id claim = Some i"
  shows "find (\<lambda>c. cl_id c = Some i) claims = Some claim"
  using assms
proof (induction claims)
  case (Cons c claims)
  show ?case
  proof (cases "cl_id c = Some i")
    case True
    then have "i \<notin> set (List.map_filter cl_id claims)" using Cons.prems(1) by (simp add: claims_ok_def List.map_filter_simps)
    then have "claim \<notin> set claims" using Cons.prems(3) by (auto simp: map_filter_ids)
    then show ?thesis using True Cons.prems(2) by simp
  next
    case False
    have "claims_ok claims" using Cons.prems(1) by (auto simp: claims_ok_def List.map_filter_simps split: option.splits)
    then show ?thesis using False Cons by auto
  qed
qed simp

lemma option_paths_Some:
  assumes "option_paths v claims ids = Some ps"
  shows "length ps = length ids \<and> (\<forall>i \<in> set ids. \<exists>claim \<in> set claims. cl_id claim = Some i \<and> claim_holds claim v) \<and>
    (\<forall>p \<in> set ps. \<exists>claim \<in> set claims. cl_path claim = p \<and> claim_holds claim v)"
  using assms
proof (induction ids arbitrary: ps)
  case (Cons i ids)
  then obtain claim qs where c: "find (\<lambda>c. cl_id c = Some i) claims = Some claim" "claim_holds claim v"
    "option_paths v claims ids = Some qs" "ps = cl_path claim # qs"
    by (auto simp: is_satisfied_iff split: option.splits if_splits)
  then have "claim \<in> set claims" "cl_id claim = Some i" by (auto simp: find_Some_iff)
  then show ?case using Cons.IH [OF c(3)] c by auto
qed simp

lemma option_paths_ex:
  assumes "claims_ok claims" "\<forall>i \<in> set ids. \<exists>claim \<in> set claims. cl_id claim = Some i \<and> claim_holds claim v"
  shows "\<exists>ps. option_paths v claims ids = Some ps"
  using assms(2)
proof (induction ids)
  case (Cons i ids)
  then obtain claim where "claim \<in> set claims" "cl_id claim = Some i" "claim_holds claim v" by auto
  then show ?case using Cons find_claim [OF assms(1)] by (auto simp: is_satisfied_iff)
qed simp

lemma find_map_Some: "find_map f xs = Some y \<Longrightarrow> \<exists>x \<in> set xs. f x = Some y"
  by (induction xs) (auto split: option.splits)

lemma find_map_None: "find_map f xs = None \<longleftrightarrow> (\<forall>x \<in> set xs. f x = None)"
  by (induction xs) (auto split: option.splits)

lemma claim_paths_Some:
  "claim_paths v claims = Some ps \<longleftrightarrow> (\<forall>claim \<in> set claims. claim_holds claim v) \<and> ps = map cl_path claims"
  by (induction claims arbitrary: ps) (auto simp: is_satisfied_iff)

lemma evaluate_Some:
  assumes "evaluate cq c = Some ps"
  shows "satisfies cq c" "\<forall>p \<in> set ps. p \<in> requested cq \<and> (\<exists>u. selects (cd_claims c) p u)"
proof -
  have g: "format_and_meta_match cq c" "require_holder_binding cq \<longrightarrow> cd_supports_holder_binding c"
    using assms by (auto simp: evaluate_def split: if_splits)
  have h: "(\<forall>claims. cq_claims cq = Some claims \<longrightarrow>
      (case cq_claim_sets cq of
         None \<Rightarrow> \<forall>claim \<in> set claims. claim_holds claim (cd_claims c)
       | Some sets \<Rightarrow> \<exists>opt \<in> set sets. \<forall>i \<in> set opt. \<exists>claim \<in> set claims. cl_id claim = Some i \<and> claim_holds claim (cd_claims c))) \<and>
    (\<forall>p \<in> set ps. \<exists>claims. cq_claims cq = Some claims \<and> (\<exists>claim \<in> set claims. cl_path claim = p \<and> claim_holds claim (cd_claims c)))"
  proof (cases "cq_claims cq")
    case None
    then show ?thesis using assms by (auto simp: evaluate_def split: if_splits)
  next
    case (Some claims)
    show ?thesis
    proof (cases "cq_claim_sets cq")
      case None
      then show ?thesis using assms Some by (auto simp: evaluate_def claim_paths_Some split: if_splits)
    next
      case sets: (Some sets)
      then obtain opt where "opt \<in> set sets" "option_paths (cd_claims c) claims opt = Some ps"
        using assms Some find_map_Some by (fastforce simp: evaluate_def split: if_splits)
      then show ?thesis using option_paths_Some Some sets by fastforce
    qed
  qed
  show "satisfies cq c" using g h by (simp add: satisfies_def)
  show "\<forall>p \<in> set ps. p \<in> requested cq \<and> (\<exists>u. selects (cd_claims c) p u)"
    using h by (fastforce simp: requested_def claim_holds_def)
qed

lemma evaluate_None:
  assumes "credential_query_ok cq" "evaluate cq c = None"
  shows "\<not> satisfies cq c"
proof
  assume s: "satisfies cq c"
  then obtain claims where c: "cq_claims cq = Some claims"
    using assms(2) by (auto simp: evaluate_def satisfies_def split: if_splits option.splits)
  then have ok: "claims_ok claims" using assms(1) by (simp add: credential_query_ok_def)
  show False
  proof (cases "cq_claim_sets cq")
    case None
    then have "claim_paths (cd_claims c) claims = None" using s assms(2) c by (auto simp: evaluate_def satisfies_def)
    moreover have "claim_paths (cd_claims c) claims = Some (map cl_path claims)"
      using s c None by (simp add: satisfies_def claim_paths_Some)
    ultimately show False by simp
  next
    case (Some sets)
    then obtain opt where opt: "opt \<in> set sets" "\<forall>i \<in> set opt. \<exists>claim \<in> set claims. cl_id claim = Some i \<and> claim_holds claim (cd_claims c)"
      using s c by (auto simp: satisfies_def)
    obtain ps where "option_paths (cd_claims c) claims opt = Some ps" using option_paths_ex [OF ok opt(2)] ..
    then have "find_map (option_paths (cd_claims c) claims) sets \<noteq> None" using opt(1) by (auto simp: find_map_None)
    then show False using s assms(2) c Some by (auto simp: evaluate_def satisfies_def)
  qed
qed

section \<open>Matching is exact\<close>

lemma query_matches_sound:
  "m \<in> set (query_matches cq cs) \<Longrightarrow>
   \<exists>c \<in> set cs. evaluate cq c = Some (cm_disclosed_paths m) \<and> cm_credential_query_id m = cq_id cq \<and> cm_candidate_id m = cd_id c"
  by (induction cs) (auto split: option.splits if_splits)

lemma query_matches_none: "query_matches cq cs = [] \<longleftrightarrow> (\<forall>c \<in> set cs. evaluate cq c = None)"
  by (induction cs) (auto split: option.splits)

lemma query_matches_single: "\<not> multiple cq \<Longrightarrow> length (query_matches cq cs) \<le> 1"
  by (induction cs) (auto split: option.splits)

lemma fold_upd: "fold (\<lambda>x m. m(k x \<mapsto> f x)) xs m0 = m0 ++ map_of (rev (map (\<lambda>x. (k x, f x)) xs))"
  by (induction xs arbitrary: m0) (simp_all add: map_add_def fun_eq_iff split: option.split)

lemma per_query_iff:
  assumes "query_ok q"
  shows "per_query q cs i = Some ms \<longleftrightarrow> (\<exists>cq \<in> set (dq_credentials q). cq_id cq = i \<and> ms = query_matches cq cs)"
proof -
  let ?l = "map (\<lambda>cq. (cq_id cq, query_matches cq cs)) (dq_credentials q)"
  have "distinct (map fst (rev ?l))" using assms by (simp add: query_ok_def comp_def rev_map [symmetric])
  then have "map_of (rev ?l) i = Some ms \<longleftrightarrow> (i, ms) \<in> set ?l" by (simp only: map_of_eq_Some_iff set_rev)
  then show ?thesis by (auto simp: per_query_def fold_upd)
qed

lemma query_matched_iff:
  assumes "query_ok q"
  shows "query_matched (per_query q cs) i \<longleftrightarrow> answered q cs i"
proof -
  have one: "query_matches cq cs \<noteq> [] \<longleftrightarrow> (\<exists>c \<in> set cs. satisfies cq c)" if "cq \<in> set (dq_credentials q)" for cq
  proof -
    have "credential_query_ok cq" using that assms by (simp add: query_ok_def)
    then have "evaluate cq c \<noteq> None \<longleftrightarrow> satisfies cq c" for c
      using evaluate_Some(1) [of cq c] evaluate_None [of cq c] by (cases "evaluate cq c") auto
    then show ?thesis unfolding query_matches_none by blast
  qed
  have "query_matched (per_query q cs) i \<longleftrightarrow> (\<exists>ms. per_query q cs i = Some ms \<and> ms \<noteq> [])"
    by (auto simp: query_matched_def split: option.splits)
  then show ?thesis using one by (auto simp: per_query_iff [OF assms] answered_def)
qed

lemma set_push_all: "set (fold (\<lambda>i acc. if i \<in> set acc then acc else acc @ [i]) xs acc) = set acc \<union> set xs"
  by (induction xs arbitrary: acc) auto

lemma select_sets_ok:
  "(\<exists>sel'. select_sets matched sel sets = Inr sel') \<longleftrightarrow> (\<forall>s \<in> set sets. is_required s \<longrightarrow> (\<exists>opt \<in> set (cs_options s). list_all matched opt))"
  by (induction sets arbitrary: sel) (auto simp: find_None_iff find_Some_iff dest: nth_mem split: option.splits)

lemma select_sets_Inr:
  assumes "select_sets matched sel sets = Inr sel'"
  shows "set sel \<subseteq> set sel' \<and> (\<forall>i \<in> set sel'. i \<in> set sel \<or> matched i) \<and>
    (\<forall>s \<in> set sets. is_required s \<longrightarrow> (\<exists>opt \<in> set (cs_options s). set opt \<subseteq> set sel'))"
  using assms
proof (induction sets arbitrary: sel)
  case (Cons s sets)
  show ?case
  proof (cases "find (list_all matched) (cs_options s)")
    case None
    then show ?thesis using Cons by (auto split: if_splits)
  next
    case (Some opt)
    then have "opt \<in> set (cs_options s)" "list_all matched opt" by (auto simp: find_Some_iff)
    then show ?thesis using Cons.IH Cons.prems Some by (fastforce simp: set_push_all list_all_iff)
  qed
qed simp

lemma select_all_Inr:
  "select_all matched sel cqs = Inr sel' \<longleftrightarrow> (\<forall>cq \<in> set cqs. matched (cq_id cq)) \<and> sel' = sel @ map cq_id cqs"
  by (induction cqs arbitrary: sel) auto

definition chosen :: "dcql_query \<Rightarrow> (string \<Rightarrow> bool) \<Rightarrow> oid4vp_error + string list" where
  "chosen q matched = (case dq_credential_sets q of
     Some sets \<Rightarrow> select_sets matched [] sets | None \<Rightarrow> select_all matched [] (dq_credentials q))"

lemma chosen_ok: "query_ok q \<Longrightarrow> (\<exists>sel. chosen q (answered q cs) = Inr sel) \<longleftrightarrow> answerable q cs"
  by (auto simp: chosen_def answerable_def select_sets_ok select_all_Inr list_all_iff split: option.splits)

lemma chosen_Inr:
  assumes "chosen q (answered q cs) = Inr sel"
  shows "\<forall>i \<in> set sel. answered q cs i"
    and "case dq_credential_sets q of None \<Rightarrow> set sel = cq_id ` set (dq_credentials q)
      | Some sets \<Rightarrow> \<forall>s \<in> set sets. is_required s \<longrightarrow> (\<exists>opt \<in> set (cs_options s). set opt \<subseteq> set sel)"
  using assms select_sets_Inr [of "answered q cs" "[]"] by (auto simp: chosen_def select_all_Inr split: option.splits)

lemma match_credentials_Inr:
  assumes "query_ok q"
  shows "match_credentials q cs =
    map_sum id (\<lambda>sel. concat (map (\<lambda>cq. if cq_id cq \<in> set sel then query_matches cq cs else []) (dq_credentials q)))
      (chosen q (answered q cs))"
proof -
  have m: "query_matched (per_query q cs) = answered q cs" by (rule ext) (rule query_matched_iff [OF assms])
  have "per_query q cs (cq_id cq) = Some (query_matches cq cs)" if "cq \<in> set (dq_credentials q)" for cq
    using that per_query_iff [OF assms] by blast
  then have e: "map (\<lambda>cq. if cq_id cq \<in> set sel then unwrap_or [] (per_query q cs (cq_id cq)) else []) (dq_credentials q) =
      map (\<lambda>cq. if cq_id cq \<in> set sel then query_matches cq cs else []) (dq_credentials q)" for sel
    by (simp add: unwrap_or_def)
  show ?thesis unfolding match_credentials_def Let_def m chosen_def [symmetric] e
    by (cases "chosen q (answered q cs)") simp_all
qed

lemma filter_concat_key:
  assumes "distinct (map k xs)" "\<forall>x \<in> set xs. \<forall>m \<in> set (g x). h m = k x" "x \<in> set xs"
  shows "filter (\<lambda>m. h m = k x) (concat (map g xs)) = g x"
  using assms
proof (induction xs)
  case (Cons y ys)
  have other: "filter (\<lambda>m. h m = k x) (g z) = []" if "z \<in> set (y # ys)" "k z \<noteq> k x" for z
    using that Cons.prems(2) by (auto simp: filter_empty_conv)
  show ?case
  proof (cases "x = y")
    case True
    then have "\<forall>z \<in> set ys. k z \<noteq> k x" using Cons.prems(1) by (auto simp: image_iff)
    then have "filter (\<lambda>m. h m = k x) (concat (map g ys)) = []" using other by (simp add: filter_concat)
    moreover have "filter (\<lambda>m. h m = k x) (g x) = g x" using Cons.prems(2,3) by (auto simp: filter_id_conv)
    ultimately show ?thesis using True by simp
  next
    case False
    then have "x \<in> set ys" using Cons.prems(3) by simp
    moreover from this have "k y \<noteq> k x" using Cons.prems(1) by auto
    ultimately show ?thesis using Cons other [of y] by simp
  qed
qed simp

lemma matches_sound:
  assumes "query_ok q" "match_credentials q cs = Inr ms" "m \<in> set ms"
  shows "\<exists>cq \<in> set (dq_credentials q). \<exists>c \<in> set cs. cm_credential_query_id m = cq_id cq \<and> cm_candidate_id m = cd_id c \<and>
    satisfies cq c \<and> (\<forall>p \<in> set (cm_disclosed_paths m). p \<in> requested cq \<and> (\<exists>u. selects (cd_claims c) p u))"
proof -
  obtain cq where cq: "cq \<in> set (dq_credentials q)" "m \<in> set (query_matches cq cs)"
    using assms(2,3) by (cases "chosen q (answered q cs)") (auto simp: match_credentials_Inr [OF assms(1)] split: if_splits)
  then obtain c where "c \<in> set cs" "evaluate cq c = Some (cm_disclosed_paths m)" "cm_credential_query_id m = cq_id cq"
    "cm_candidate_id m = cd_id c"
    using query_matches_sound by blast
  then show ?thesis using cq(1) evaluate_Some [of cq c] by blast
qed

lemma matches_complete:
  assumes "query_ok q" "match_credentials q cs = Inr ms"
  shows "case dq_credential_sets q of
      None \<Rightarrow> cm_credential_query_id ` set ms = cq_id ` set (dq_credentials q)
    | Some sets \<Rightarrow> \<forall>s \<in> set sets. is_required s \<longrightarrow> (\<exists>opt \<in> set (cs_options s). set opt \<subseteq> cm_credential_query_id ` set ms)"
proof -
  obtain sel where sel: "chosen q (answered q cs) = Inr sel"
    and ms: "ms = concat (map (\<lambda>cq. if cq_id cq \<in> set sel then query_matches cq cs else []) (dq_credentials q))"
    using assms(2) by (cases "chosen q (answered q cs)") (auto simp: match_credentials_Inr [OF assms(1)])
  have "i \<in> cm_credential_query_id ` set ms" if "i \<in> set sel" for i
  proof -
    have "answered q cs i" using chosen_Inr(1) [OF sel] that by (rule bspec)
    then obtain cq c where cq: "cq \<in> set (dq_credentials q)" "cq_id cq = i" "c \<in> set cs" "satisfies cq c"
      unfolding answered_def by (elim bexE conjE)
    have "evaluate cq c \<noteq> None" using evaluate_None [of cq c] cq assms(1) by (auto simp: query_ok_def)
    then obtain m where m: "m \<in> set (query_matches cq cs)" using cq(3) query_matches_none [of cq cs] by (cases "query_matches cq cs") auto
    then have "m \<in> set ms" using cq that by (auto simp: ms)
    moreover have "cm_credential_query_id m = i" using query_matches_sound [OF m] cq(2) by blast
    ultimately show ?thesis by blast
  qed
  then have all: "set sel \<subseteq> cm_credential_query_id ` set ms" ..
  have "cm_credential_query_id ` set ms \<subseteq> cq_id ` set (dq_credentials q)" using matches_sound [OF assms] by blast
  then show ?thesis using all chosen_Inr(2) [OF sel]
    by (cases "dq_credential_sets q") (auto simp del: subset_image_iff, meson subset_trans)
qed

lemma matches_single:
  assumes "query_ok q" "match_credentials q cs = Inr ms" "cq \<in> set (dq_credentials q)" "\<not> multiple cq"
  shows "length (filter (\<lambda>m. cm_credential_query_id m = cq_id cq) ms) \<le> 1"
proof -
  obtain sel where ms: "ms = concat (map (\<lambda>cq. if cq_id cq \<in> set sel then query_matches cq cs else []) (dq_credentials q))"
    using assms(2) by (cases "chosen q (answered q cs)") (auto simp: match_credentials_Inr [OF assms(1)])
  have "filter (\<lambda>m. cm_credential_query_id m = cq_id cq) ms = (if cq_id cq \<in> set sel then query_matches cq cs else [])"
    unfolding ms using assms(1,3) query_matches_sound by (intro filter_concat_key) (fastforce simp: query_ok_def)+
  then show ?thesis using query_matches_single [OF assms(4)] by simp
qed

lemma authorities_ignored:
  "match_credentials (q\<lparr>dq_credentials := map (cq_trusted_authorities_update f) (dq_credentials q)\<rparr>) cs = match_credentials q cs"
proof -
  let ?t = "cq_trusted_authorities_update f"
  have "evaluate (?t cq) c = evaluate cq c" "multiple (?t cq) = multiple cq" for cq c
    by (simp_all add: evaluate_def format_and_meta_match_def require_holder_binding_def multiple_def cong: option.case_cong if_cong)
  then have m: "query_matches (?t cq) cs = query_matches cq cs" for cq by (induction cs) (simp_all split: option.split)
  have a: "select_all matched sel (map ?t cqs) = select_all matched sel cqs" for matched sel cqs
    by (induction cqs arbitrary: sel) simp_all
  show ?thesis by (simp add: match_credentials_def per_query_def fold_map comp_def m a cong: option.case_cong if_cong)
qed

text \<open>C9. Answering a query is exact. For a valid query the holder's credentials are matched if and only if they can answer it:
  without credential sets every requested credential is held, with credential sets every required set has an option
  all of whose credentials are. Every match names a credential of the query and a held one that satisfies it, and
  discloses no other paths than those the query asks for and that are there. Every requested credential (or some option of
  every required set) is among the matches, with one match per credential unless several are allowed. Which authorities a
  query trusts makes no difference.\<close>
theorem dcql_match_exact:
  assumes "dcql_validate q = Inr ()"
  shows "((\<exists>ms. match_credentials q cs = Inr ms) \<longleftrightarrow> answerable q cs) \<and>
    (\<forall>ms. match_credentials q cs = Inr ms \<longrightarrow>
      (\<forall>m \<in> set ms. \<exists>cq \<in> set (dq_credentials q). \<exists>c \<in> set cs. cm_credential_query_id m = cq_id cq \<and> cm_candidate_id m = cd_id c \<and>
         satisfies cq c \<and> (\<forall>p \<in> set (cm_disclosed_paths m). p \<in> requested cq \<and> (\<exists>u. selects (cd_claims c) p u))) \<and>
      (case dq_credential_sets q of
         None \<Rightarrow> cm_credential_query_id ` set ms = cq_id ` set (dq_credentials q)
       | Some sets \<Rightarrow> \<forall>s \<in> set sets. is_required s \<longrightarrow> (\<exists>opt \<in> set (cs_options s). set opt \<subseteq> cm_credential_query_id ` set ms)) \<and>
      (\<forall>cq \<in> set (dq_credentials q). multiple cq \<or> length (filter (\<lambda>m. cm_credential_query_id m = cq_id cq) ms) \<le> 1)) \<and>
    match_credentials (q\<lparr>dq_credentials := map (cq_trusted_authorities_update f) (dq_credentials q)\<rparr>) cs = match_credentials q cs"
proof -
  have ok: "query_ok q" using assms dcql_validate_iff by blast
  have "(\<exists>ms. match_credentials q cs = Inr ms) \<longleftrightarrow> answerable q cs"
    using chosen_ok [OF ok, of cs] by (cases "chosen q (answered q cs)") (simp_all add: match_credentials_Inr [OF ok])
  then show ?thesis
    using matches_sound [OF ok] matches_complete [OF ok] matches_single [OF ok] authorities_ignored by blast
qed

definition sample_query :: dcql_query where
  "sample_query = \<lparr>dq_credentials = [\<lparr>cq_id = ''m'', cq_format = ''dc+sd-jwt'', cq_meta = None,
     cq_claims = Some [\<lparr>cl_id = None, cl_path = [Name ''a'', Wildcard], cl_values = Some [JString ''x''], cl_intent_to_retain = None\<rparr>],
     cq_claim_sets = None, cq_trusted_authorities = None, cq_require_cryptographic_holder_binding = Some False,
     cq_multiple = None\<rparr>], dq_credential_sets = None\<rparr>"

definition sample_candidate :: candidate_credential where
  "sample_candidate = \<lparr>cd_id = ''c'', cd_format = ''dc+sd-jwt'', cd_claims = JObject [(''a'', JArray [JNull, JString ''x''])],
     cd_vct = None, cd_doctype = None, cd_supports_holder_binding = False\<rparr>"

lemma sample_query_valid: "dcql_validate sample_query = Inr ()"
  by (simp add: sample_query_def dcql_validate_def validate_credential_query_def validate_claim_def is_valid_id_def
      is_ascii_alphanumeric_def)

theorem dcql_match_exact_witness:
  "\<exists>ms. match_credentials sample_query [sample_candidate] = Inr ms \<and> cm_credential_query_id ` set ms = {''m''}"
proof -
  have "\<exists>ms. match_credentials sample_query [sample_candidate] = Inr ms"
    by (simp add: sample_query_def sample_candidate_def match_credentials_def per_query_def query_matched_def evaluate_def
        format_and_meta_match_def require_holder_binding_def unwrap_or_def is_satisfied_by_def select_path_def
        select_segment_def multiple_def bt_get_def Let_def)
  then show ?thesis using dcql_match_exact [OF sample_query_valid, of "[sample_candidate]" id]
    by (auto simp: sample_query_def)
qed

end
