(* ===== verification/OidTokens.thy ===== *)
theory OidTokens
  imports Json CesrTables "HOL-Library.AList"
begin

text \<open>
  Tokens of the OpenID protocols, \<open>src/crates/protocols\<close>: compact JWS, nonces and JWK thumbprints of
  \<open>affinidi-oid4vc-core/src\<close> (\<open>jwt.rs\<close>, \<open>nonce.rs\<close>, \<open>lib.rs\<close>), the key-binding proof and credential requests of
  \<open>affinidi-openid4vci/src\<close> (\<open>proof.rs\<close>, \<open>issuer.rs\<close>, \<open>wallet.rs\<close>) and the self-issued ID token and request of
  \<open>affinidi-siopv2/src\<close> (\<open>id_token.rs\<close>, \<open>request.rs\<close>). Base64url, JSON text and SHA-256 are arguments; signer and
  verifier are the implementations of the traits; every reading of a clock is an argument. Debug renderings
  (\<open>{:?}\<close>) inside messages are left out. Times in seconds are \<open>i64\<close>, so sums and differences wrap.
\<close>

section \<open>Compact JWS (\<open>jwt.rs\<close>)\<close>

record jws_codec =
  js_b64 :: b64_codec \<comment> \<open>\<open>URL_SAFE_NO_PAD\<close>\<close>
  js_to_string :: "json \<Rightarrow> string" \<comment> \<open>\<open>serde_json::to_string\<close>, which cannot fail on a \<open>Value\<close>\<close>
  js_from_slice :: "byte list \<Rightarrow> string + json"

datatype jwt_error =
    JwtInvalidFormat string
  | JwtSigning string
  | JwtVerification string
  | JwtJson string
  | JwtBase64 string

definition show_jwt_error :: "jwt_error \<Rightarrow> string" where
  "show_jwt_error e = (case e of
     JwtInvalidFormat t \<Rightarrow> ''Invalid JWT format: '' @ t
   | JwtSigning t \<Rightarrow> ''Signing error: '' @ t
   | JwtVerification t \<Rightarrow> ''Verification error: '' @ t
   | JwtJson t \<Rightarrow> ''JSON error: '' @ t
   | JwtBase64 t \<Rightarrow> ''Base64 error: '' @ t)"

datatype audience = One string | Many "string list"

definition audience_contains :: "audience \<Rightarrow> string \<Rightarrow> bool" where
  "audience_contains aud v = (case aud of One a \<Rightarrow> a = v | Many a \<Rightarrow> list_ex (\<lambda>x. x = v) a)"

definition audience_iter :: "audience \<Rightarrow> string list" where
  "audience_iter aud = (case aud of One a \<Rightarrow> [a] | Many a \<Rightarrow> a)"

definition audience_from_value :: "json \<Rightarrow> audience option" where
  \<comment> \<open>untagged: the variants in order\<close>
  "audience_from_value v = (case v of
     JString a \<Rightarrow> Some (One a)
   | JArray xs \<Rightarrow> map_option Many (those (map as_str xs))
   | _ \<Rightarrow> None)"

record jws_signer =
  js_algorithm :: string
  js_key_id :: "string option"
  js_sign :: "byte list \<Rightarrow> jwt_error + byte list"

type_synonym jws_verifier = "byte list \<Rightarrow> byte list \<Rightarrow> jwt_error + unit"

definition encode_compact_jws :: "jws_codec \<Rightarrow> json \<Rightarrow> json \<Rightarrow> jws_signer \<Rightarrow> jwt_error + string" where
  "encode_compact_jws c header payload signer =
     (let header_b64 = b64_encode (js_b64 c) (bytes_of (js_to_string c header));
          payload_b64 = b64_encode (js_b64 c) (bytes_of (js_to_string c payload));
          signing_input = header_b64 @ ''.'' @ payload_b64
      in and_then (js_sign signer (bytes_of signing_input)) (\<lambda>signature.
         Inr (signing_input @ ''.'' @ b64_encode (js_b64 c) signature)))"

definition splitn_dot :: "string \<Rightarrow> (string \<times> string \<times> string) option" where
  \<comment> \<open>\<open>splitn(3, '.')\<close> that gives three parts\<close>
  "splitn_dot s =
     (case split_once (CHR ''.'') s of
        None \<Rightarrow> None
      | Some (a, rest) \<Rightarrow> (case split_once (CHR ''.'') rest of None \<Rightarrow> None | Some (b, z) \<Rightarrow> Some (a, b, z)))"

definition decode_part :: "jws_codec \<Rightarrow> string \<Rightarrow> string \<Rightarrow> jwt_error + byte list" where
  "decode_part c name part =
     (case b64_decode_vec (js_b64 c) part of Inl e \<Rightarrow> Inl (JwtBase64 (name @ '': '' @ e)) | Inr bytes \<Rightarrow> Inr bytes)"

definition json_part :: "jws_codec \<Rightarrow> byte list \<Rightarrow> jwt_error + json" where
  "json_part c bytes = (case js_from_slice c bytes of Inl e \<Rightarrow> Inl (JwtJson e) | Inr v \<Rightarrow> Inr v)"

definition decode_compact_jws_unverified :: "jws_codec \<Rightarrow> string \<Rightarrow> jwt_error + json \<times> json" where
  "decode_compact_jws_unverified c jws =
     (case splitn_dot jws of
        None \<Rightarrow> Inl (JwtInvalidFormat ''expected 3 dot-separated parts'')
      | Some (h, p, _) \<Rightarrow>
          and_then (decode_part c ''header'' h) (\<lambda>header_bytes.
          and_then (decode_part c ''payload'' p) (\<lambda>payload_bytes.
          and_then (json_part c header_bytes) (\<lambda>header.
          and_then (json_part c payload_bytes) (\<lambda>payload.
          Inr (header, payload))))))"

definition eq_ignore_ascii_case :: "string \<Rightarrow> string \<Rightarrow> bool" where
  "eq_ignore_ascii_case a b \<longleftrightarrow> to_ascii_lowercase a = to_ascii_lowercase b"

definition check_alg :: "string list option \<Rightarrow> json \<Rightarrow> jwt_error + string" where
  "check_alg allowed_algs header =
     (case Option.bind (json_get header ''alg'') as_str of
        None \<Rightarrow> Inl (JwtVerification ''missing alg in JWS header'')
      | Some alg \<Rightarrow>
          if eq_ignore_ascii_case alg ''none'' then Inl (JwtVerification ''alg=none is not permitted'')
          else if (case allowed_algs of None \<Rightarrow> False | Some allowed \<Rightarrow> alg \<notin> set allowed)
          then Inl (JwtVerification (''JWS alg '' @ ''\"'' @ alg @ ''\"'' @ '' is not in the allowed set ''))
          else Inr alg)"

definition decode_compact_jws_checked ::
  "jws_codec \<Rightarrow> string \<Rightarrow> jws_verifier \<Rightarrow> string list option \<Rightarrow> jwt_error + json \<times> json" where
  "decode_compact_jws_checked c jws verifier allowed_algs =
     (case splitn_dot jws of
        None \<Rightarrow> Inl (JwtInvalidFormat ''expected 3 dot-separated parts'')
      | Some (h, p, sig) \<Rightarrow>
          and_then (decode_part c ''header'' h) (\<lambda>header_bytes.
          and_then (json_part c header_bytes) (\<lambda>header.
          and_then (check_alg allowed_algs header) (\<lambda>_.
          if sig = [] then Inl (JwtVerification ''empty JWS signature'')
          else
            and_then (decode_part c ''signature'' sig) (\<lambda>signature.
            and_then (verifier (bytes_of (h @ ''.'' @ p)) signature) (\<lambda>_.
            and_then (decode_part c ''payload'' p) (\<lambda>payload_bytes.
            and_then (json_part c payload_bytes) (\<lambda>payload.
            Inr (header, payload)))))))))"

definition decode_compact_jws_verified_with_algs ::
  "jws_codec \<Rightarrow> string \<Rightarrow> jws_verifier \<Rightarrow> string list \<Rightarrow> jwt_error + json \<times> json" where
  "decode_compact_jws_verified_with_algs c jws verifier allowed_algs = decode_compact_jws_checked c jws verifier (Some allowed_algs)"

definition decode_compact_jws_verified :: "jws_codec \<Rightarrow> string \<Rightarrow> jws_verifier \<Rightarrow> jwt_error + json \<times> json" where
  "decode_compact_jws_verified c jws verifier = decode_compact_jws_checked c jws verifier None"

definition extract_payload :: "jws_codec \<Rightarrow> string \<Rightarrow> jwt_error + json" where
  "extract_payload c jws = and_then (decode_compact_jws_unverified c jws) (\<lambda>(_, payload). Inr payload)"

definition extract_header :: "jws_codec \<Rightarrow> string \<Rightarrow> jwt_error + json" where
  "extract_header c jws = and_then (decode_compact_jws_unverified c jws) (\<lambda>(header, _). Inr header)"

section \<open>Nonces (\<open>nonce.rs\<close>)\<close>

type_synonym nonce_store = "(string \<times> nat) list" \<comment> \<open>nonce and expiry instant, one entry per nonce\<close>

definition nonce_store_new :: nonce_store where "nonce_store_new = []"

definition retain_live :: "nat \<Rightarrow> nonce_store \<Rightarrow> nonce_store" where
  "retain_live now s = filter (\<lambda>e. snd e > now) s"

definition nonce_register :: "nat \<Rightarrow> string \<Rightarrow> nat \<Rightarrow> nonce_store \<Rightarrow> nonce_store" where
  "nonce_register now nonce ttl s = AList.update nonce (now + ttl) (retain_live now s)"

definition nonce_consume :: "nat \<Rightarrow> string \<Rightarrow> nonce_store \<Rightarrow> bool \<times> nonce_store" where
  "nonce_consume now nonce s =
     ((case map_of s nonce of Some expires \<Rightarrow> expires > now | None \<Rightarrow> False), AList.delete nonce s)"

definition nonce_len :: "nat \<Rightarrow> nonce_store \<Rightarrow> nat \<times> nonce_store" where
  "nonce_len now s = (length (retain_live now s), retain_live now s)"

definition nonce_is_empty :: "nat \<Rightarrow> nonce_store \<Rightarrow> bool \<times> nonce_store" where
  "nonce_is_empty now s = (fst (nonce_len now s) = 0, snd (nonce_len now s))"

section \<open>JWK thumbprints (\<open>lib.rs\<close>)\<close>

definition str_member :: "json \<Rightarrow> string \<Rightarrow> string option" where
  "str_member jwk key = Option.bind (json_get jwk key) as_str"

definition quoted :: "string \<Rightarrow> string" where "quoted s = ''\"'' @ s @ ''\"''"

definition canonical_jwk :: "json \<Rightarrow> string option" where
  "canonical_jwk jwk =
     (case str_member jwk ''kty'' of
        None \<Rightarrow> None
      | Some kty \<Rightarrow>
          if kty = ''EC'' then
            (case (str_member jwk ''crv'', str_member jwk ''x'', str_member jwk ''y'') of
               (Some crv, Some x, Some y) \<Rightarrow>
                 Some (''{'' @ quoted ''crv'' @ '':'' @ quoted crv @ '','' @ quoted ''kty'' @ '':'' @ quoted ''EC'' @ '','' @
                   quoted ''x'' @ '':'' @ quoted x @ '','' @ quoted ''y'' @ '':'' @ quoted y @ ''}'')
             | _ \<Rightarrow> None)
          else if kty = ''OKP'' then
            (case (str_member jwk ''crv'', str_member jwk ''x'') of
               (Some crv, Some x) \<Rightarrow>
                 Some (''{'' @ quoted ''crv'' @ '':'' @ quoted crv @ '','' @ quoted ''kty'' @ '':'' @ quoted ''OKP'' @ '','' @
                   quoted ''x'' @ '':'' @ quoted x @ ''}'')
             | _ \<Rightarrow> None)
          else if kty = ''RSA'' then
            (case (str_member jwk ''e'', str_member jwk ''n'') of
               (Some e, Some n) \<Rightarrow>
                 Some (''{'' @ quoted ''e'' @ '':'' @ quoted e @ '','' @ quoted ''kty'' @ '':'' @ quoted ''RSA'' @ '','' @
                   quoted ''n'' @ '':'' @ quoted n @ ''}'')
             | _ \<Rightarrow> None)
          else None)"

definition compute_jwk_thumbprint :: "jws_codec \<Rightarrow> (byte list \<Rightarrow> byte list) \<Rightarrow> json \<Rightarrow> string option" where
  "compute_jwk_thumbprint c sha256 jwk =
     map_option (\<lambda>canonical. b64_encode (js_b64 c) (sha256 (bytes_of canonical))) (canonical_jwk jwk)"

datatype response_type = IdToken | VpToken | VpTokenIdToken | Code

datatype response_mode = Fragment | DirectPost | DirectPostJwt

datatype subject_syntax_type = JwkThumbprint | Did string

definition JWK_THUMBPRINT_URN :: string where "JWK_THUMBPRINT_URN = ''urn:ietf:params:oauth:jwk-thumbprint''"

definition subject_syntax_parse :: "string \<Rightarrow> subject_syntax_type" where
  "subject_syntax_parse s = (if s = JWK_THUMBPRINT_URN then JwkThumbprint else Did s)"

definition subject_syntax_str :: "subject_syntax_type \<Rightarrow> string" where
  "subject_syntax_str t = (case t of JwkThumbprint \<Rightarrow> JWK_THUMBPRINT_URN | Did m \<Rightarrow> m)"

section \<open>Key-binding proofs (\<open>proof.rs\<close>)\<close>

datatype oid4vci_error =
    InvalidMetadata string
  | InvalidOffer string
  | VciInvalidRequest string
  | Authorization string
  | InvalidProof string
  | VciJson string

definition KEY_PROOF_TYP :: string where "KEY_PROOF_TYP = ''openid4vci-proof+jwt''"
definition DEFAULT_PROOF_ALGS :: "string list" where "DEFAULT_PROOF_ALGS = [''ES256'', ''EdDSA'']"
definition IAT_FUTURE_LEEWAY_SECS :: int where "IAT_FUTURE_LEEWAY_SECS = 60"

record key_proof_claims =
  kp_iss :: "string option"
  kp_aud :: audience
  kp_iat :: int
  kp_nonce :: "string option"

record key_proof =
  kp_jwt :: string
  kp_alg :: string
  kp_kid :: "string option"
  kp_jwk :: "json option"
  kp_claims :: key_proof_claims

record proof_policy =
  pp_audience :: string
  pp_nonce :: "string option"
  pp_now :: int
  pp_max_age_secs :: int

definition jwt_err :: "jwt_error + 'a \<Rightarrow> oid4vci_error + 'a" where
  "jwt_err r = map_sum (\<lambda>e. InvalidProof (show_jwt_error e)) id r"

definition json_as_i64 :: "json \<Rightarrow> int option" where
  "json_as_i64 v = (case v of
     JNumber (PosInt n) \<Rightarrow> if unat n < 2 ^ 63 then Some (int (unat n)) else None
   | JNumber (NegInt n) \<Rightarrow> Some (sint n)
   | _ \<Rightarrow> None)"

definition json_of_i64 :: "int \<Rightarrow> json" where
  "json_of_i64 i = JNumber (if i \<ge> 0 then PosInt (word_of_int i) else NegInt (word_of_int i))"

definition proof_claims :: "json \<Rightarrow> oid4vci_error + key_proof_claims" where
  "proof_claims payload =
     (case json_get payload ''aud'' of
        None \<Rightarrow> Inl (InvalidProof ''proof missing `aud`'')
      | Some aud_value \<Rightarrow>
          (case audience_from_value aud_value of
             None \<Rightarrow> Inl (InvalidProof ''invalid `aud`: data did not match any variant of untagged enum Audience'')
           | Some aud \<Rightarrow>
               (case Option.bind (json_get payload ''iat'') json_as_i64 of
                  None \<Rightarrow> Inl (InvalidProof ''proof missing numeric `iat`'')
                | Some iat \<Rightarrow>
                    Inr \<lparr>kp_iss = str_member payload ''iss'', kp_aud = aud, kp_iat = iat, kp_nonce = str_member payload ''nonce''\<rparr>)))"

definition key_proof_parse :: "jws_codec \<Rightarrow> string \<Rightarrow> oid4vci_error + key_proof" where
  "key_proof_parse c jwt =
     and_then (jwt_err (decode_compact_jws_unverified c jwt)) (\<lambda>(header, payload).
     if str_member header ''typ'' \<noteq> Some KEY_PROOF_TYP
     then Inl (InvalidProof (''proof `typ` must be `'' @ KEY_PROOF_TYP @ ''` (got )''))
     else
       case str_member header ''alg'' of
         None \<Rightarrow> Inl (InvalidProof ''proof header missing `alg` (or `alg=none`)'')
       | Some alg \<Rightarrow>
           if eq_ignore_ascii_case alg ''none''
           then Inl (InvalidProof ''proof header missing `alg` (or `alg=none`)'')
           else
             let kid = str_member header ''kid'';
                 jwk = (case json_get header ''jwk'' of Some (JObject m) \<Rightarrow> Some (JObject m) | _ \<Rightarrow> None)
             in if kid = None \<and> jwk = None
                then Inl (InvalidProof ''proof header must identify the holder key via `kid` or `jwk`'')
                else and_then (proof_claims payload) (\<lambda>claims.
                     Inr \<lparr>kp_jwt = jwt, kp_alg = alg, kp_kid = kid, kp_jwk = jwk, kp_claims = claims\<rparr>))"

definition verify_signature :: "jws_codec \<Rightarrow> key_proof \<Rightarrow> jws_verifier \<Rightarrow> string list \<Rightarrow> oid4vci_error + unit" where
  "verify_signature c p verifier allowed_algs =
     jwt_err (map_sum id (\<lambda>_. ()) (decode_compact_jws_verified_with_algs c (kp_jwt p) verifier allowed_algs))"

definition show_int64 :: "int \<Rightarrow> string" where
  "show_int64 i = (if i < 0 then ''-'' @ show_nat (nat (- i)) else show_nat (nat i))"

definition verify_claims :: "key_proof \<Rightarrow> proof_policy \<Rightarrow> oid4vci_error + unit" where
  "verify_claims p policy =
     (let claims = kp_claims p
      in if \<not> audience_contains (kp_aud claims) (pp_audience policy)
         then Inl (InvalidProof (''proof `aud` does not name this issuer ('' @ pp_audience policy @ '')''))
         else if (case pp_nonce policy of None \<Rightarrow> False | Some expected \<Rightarrow> kp_nonce claims \<noteq> Some expected)
         then Inl (InvalidProof ''proof `nonce` does not match the issued c_nonce'')
         else if kp_iat claims > wrap_i64 (pp_now policy + IAT_FUTURE_LEEWAY_SECS)
         then Inl (InvalidProof ''proof `iat` is in the future'')
         else if wrap_i64 (pp_now policy - kp_iat claims) > pp_max_age_secs policy
         then Inl (InvalidProof (''proof is stale (older than '' @ show_int64 (pp_max_age_secs policy) @ ''s)''))
         else Inr ())"

definition key_proof_verify ::
  "jws_codec \<Rightarrow> key_proof \<Rightarrow> jws_verifier \<Rightarrow> string list \<Rightarrow> proof_policy \<Rightarrow> oid4vci_error + key_proof_claims" where
  "key_proof_verify c p verifier allowed_algs policy =
     and_then (verify_signature c p verifier allowed_algs) (\<lambda>_.
     and_then (verify_claims p policy) (\<lambda>_.
     Inr (kp_claims p)))"

definition key_proof_header :: "jws_signer \<Rightarrow> string \<Rightarrow> json" where
  "key_proof_header signer kid =
     JObject [(''alg'', JString (js_algorithm signer)), (''kid'', JString kid), (''typ'', JString KEY_PROOF_TYP)]"

definition key_proof_payload :: "string \<Rightarrow> string option \<Rightarrow> int \<Rightarrow> json" where
  "key_proof_payload aud nonce iat =
     (let payload = [(''aud'', JString aud), (''iat'', json_of_i64 iat)]
      in JObject (case nonce of None \<Rightarrow> payload | Some n \<Rightarrow> bt_insert ''nonce'' (JString n) payload))"

definition build_key_proof_jwt ::
  "jws_codec \<Rightarrow> jws_signer \<Rightarrow> string \<Rightarrow> string option \<Rightarrow> int \<Rightarrow> oid4vci_error + string" where
  "build_key_proof_jwt c signer aud nonce iat =
     (case js_key_id signer of
        None \<Rightarrow> Inl (InvalidProof ''signer has no key_id; a key-binding proof must identify the holder key (kid)'')
      | Some kid \<Rightarrow>
          jwt_err (encode_compact_jws c (key_proof_header signer kid) (key_proof_payload aud nonce iat) signer))"

section \<open>Credential requests (\<open>issuer.rs\<close>, \<open>wallet.rs\<close>)\<close>

definition FORMAT_SD_JWT_VC :: string where "FORMAT_SD_JWT_VC = ''vc+sd-jwt''"
definition FORMAT_MSO_MDOC :: string where "FORMAT_MSO_MDOC = ''mso_mdoc''"

record credential_request_proof =
  rp_proof_type :: string
  rp_jwt :: string

record credential_request =
  cr_format :: string
  cr_vct :: "string option"
  cr_doctype :: "string option"
  cr_proof :: "credential_request_proof option"
  cr_credential_identifier :: "string option"

definition validate_credential_request :: "credential_request \<Rightarrow> oid4vci_error + unit" where
  "validate_credential_request request =
     (if cr_format request = [] then Inl (VciInvalidRequest ''format is required'')
      else if cr_format request = FORMAT_SD_JWT_VC \<and> cr_vct request = None
      then Inl (VciInvalidRequest ''vct is required for vc+sd-jwt format'')
      else if cr_format request = FORMAT_MSO_MDOC \<and> cr_doctype request = None
      then Inl (VciInvalidRequest ''doctype is required for mso_mdoc format'')
      else case cr_proof request of
             None \<Rightarrow> Inr ()
           | Some p \<Rightarrow>
               if rp_proof_type p = [] then Inl (InvalidProof ''proof_type is required'')
               else if rp_jwt p = [] then Inl (InvalidProof ''jwt is required in proof'')
               else Inr ())"

definition request_proof :: "string option \<Rightarrow> credential_request_proof option" where
  "request_proof proof_jwt = map_option (\<lambda>jwt. \<lparr>rp_proof_type = ''jwt'', rp_jwt = jwt\<rparr>) proof_jwt"

definition build_sd_jwt_vc_request :: "string \<Rightarrow> string option \<Rightarrow> credential_request" where
  "build_sd_jwt_vc_request vct proof_jwt =
     \<lparr>cr_format = FORMAT_SD_JWT_VC, cr_vct = Some vct, cr_doctype = None, cr_proof = request_proof proof_jwt,
      cr_credential_identifier = None\<rparr>"

definition build_mdoc_request :: "string \<Rightarrow> string option \<Rightarrow> credential_request" where
  "build_mdoc_request doctype proof_jwt =
     \<lparr>cr_format = FORMAT_MSO_MDOC, cr_vct = None, cr_doctype = Some doctype, cr_proof = request_proof proof_jwt,
      cr_credential_identifier = None\<rparr>"

section \<open>Self-issued ID tokens (\<open>id_token.rs\<close>, \<open>request.rs\<close>)\<close>

datatype siop_error =
    SiopInvalidRequest string
  | InvalidIdToken string
  | SubjectSyntaxNotSupported string
  | UserCancelled
  | InvalidClientMetadata string
  | NonceMismatch
  | Expired
  | IssSubMismatch
  | AudienceMismatch string string
  | ThumbprintMismatch
  | SiopJson string

record self_issued_id_token =
  it_iss :: string
  it_sub :: string
  it_aud :: string
  it_exp :: int
  it_iat :: int
  it_nonce :: string
  it_sub_jwk :: "json option"
  it_auth_time :: "int option"
  it_acr :: "string option"
  it_amr :: "string list option"
  it_additional_claims :: json_object

definition is_did_subject :: "self_issued_id_token \<Rightarrow> bool" where
  "is_did_subject t = is_prefix ''did:'' (it_sub t)"

definition id_token_validate ::
  "jws_codec \<Rightarrow> (byte list \<Rightarrow> byte list) \<Rightarrow> int \<Rightarrow> self_issued_id_token \<Rightarrow> string \<Rightarrow> string \<Rightarrow> siop_error + unit" where
  "id_token_validate c sha256 now t expected_client_id expected_nonce =
     (if it_iss t \<noteq> it_sub t then Inl IssSubMismatch
      else if it_aud t \<noteq> expected_client_id then Inl (AudienceMismatch expected_client_id (it_aud t))
      else if it_nonce t \<noteq> expected_nonce then Inl NonceMismatch
      else if now > it_exp t then Inl Expired
      else if is_did_subject t then
        (if it_sub_jwk t \<noteq> None then Inl (InvalidIdToken ''sub_jwk must not be present for DID subjects'') else Inr ())
      else case it_sub_jwk t of
             None \<Rightarrow> Inl (InvalidIdToken ''sub_jwk required for non-DID subjects'')
           | Some jwk \<Rightarrow>
               (case compute_jwk_thumbprint c sha256 jwk of
                  None \<Rightarrow> Inl (InvalidIdToken ''cannot compute JWK Thumbprint'')
                | Some thumbprint \<Rightarrow> if it_sub t \<noteq> thumbprint then Inl ThumbprintMismatch else Inr ()))"

record id_token_builder =
  ib_aud :: string
  ib_nonce :: string
  ib_sub :: "string option"
  ib_sub_jwk :: "json option"
  ib_exp_seconds :: int
  ib_additional_claims :: json_object

definition id_token_builder_new :: "string \<Rightarrow> string \<Rightarrow> id_token_builder" where
  "id_token_builder_new client_id nonce =
     \<lparr>ib_aud = client_id, ib_nonce = nonce, ib_sub = None, ib_sub_jwk = None, ib_exp_seconds = 300, ib_additional_claims = []\<rparr>"

definition with_jwk_thumbprint ::
  "jws_codec \<Rightarrow> (byte list \<Rightarrow> byte list) \<Rightarrow> json \<Rightarrow> id_token_builder \<Rightarrow> siop_error + id_token_builder" where
  "with_jwk_thumbprint c sha256 jwk b =
     (case compute_jwk_thumbprint c sha256 jwk of
        None \<Rightarrow> Inl (InvalidIdToken ''cannot compute JWK Thumbprint from provided key'')
      | Some thumbprint \<Rightarrow> Inr (b\<lparr>ib_sub := Some thumbprint, ib_sub_jwk := Some jwk\<rparr>))"

definition with_did :: "string \<Rightarrow> id_token_builder \<Rightarrow> id_token_builder" where
  "with_did did b = b\<lparr>ib_sub := Some did, ib_sub_jwk := None\<rparr>"

definition expires_in :: "int \<Rightarrow> id_token_builder \<Rightarrow> id_token_builder" where
  "expires_in seconds b = b\<lparr>ib_exp_seconds := seconds\<rparr>"

definition builder_claim :: "string \<Rightarrow> json \<Rightarrow> id_token_builder \<Rightarrow> id_token_builder" where
  "builder_claim key v b = b\<lparr>ib_additional_claims := bt_insert key v (ib_additional_claims b)\<rparr>"

definition id_token_build :: "int \<Rightarrow> id_token_builder \<Rightarrow> siop_error + self_issued_id_token" where
  "id_token_build now b =
     (case ib_sub b of
        None \<Rightarrow> Inl (InvalidIdToken ''subject must be set (via with_did or with_jwk_thumbprint)'')
      | Some sub \<Rightarrow>
          Inr \<lparr>it_iss = sub, it_sub = sub, it_aud = ib_aud b, it_exp = wrap_i64 (now + ib_exp_seconds b), it_iat = now,
               it_nonce = ib_nonce b, it_sub_jwk = ib_sub_jwk b, it_auth_time = Some now, it_acr = None, it_amr = None,
               it_additional_claims = ib_additional_claims b\<rparr>)"

end
