(* ===== verification/OidProperties.thy ===== *)
theory OidProperties
  imports OidTokens Base64Laws
begin

text \<open>
  What the OpenID tokens promise: a JWS that was encoded is decoded and verified, and what is accepted was signed; a
  key-binding proof is accepted for the issuer, nonce and time it was made for; a nonce is consumed at most once; a
  JWK thumbprint identifies its key as long as no member holds a quotation mark; a self-issued ID token that was
  built validates for its audience and nonce until it expires.
\<close>

section \<open>Compact JWS\<close>

definition js_reads :: "jws_codec \<Rightarrow> json \<Rightarrow> bool" where
  \<comment> \<open>\<open>serde_json\<close> reads the text it wrote\<close>
  "js_reads c v \<longleftrightarrow> js_from_slice c (bytes_of (js_to_string c v)) = Inr v"

lemma splitn_dot_join: "CHR ''.'' \<notin> set a \<Longrightarrow> CHR ''.'' \<notin> set b \<Longrightarrow> splitn_dot (a @ ''.'' @ b @ ''.'' @ z) = Some (a, b, z)"
  by (simp add: splitn_dot_def split_once_append)

lemma splitn_dot_Some: "splitn_dot s = Some (a, b, z) \<Longrightarrow> s = a @ ''.'' @ b @ ''.'' @ z"
  by (auto simp: splitn_dot_def dest!: split_once_Some split: option.splits)

lemma check_alg_Inr:
  "check_alg (Some algs) header = Inr alg \<longleftrightarrow>
   str_member header ''alg'' = Some alg \<and> \<not> eq_ignore_ascii_case alg ''none'' \<and> alg \<in> set algs"
  by (auto simp: check_alg_def str_member_def split: option.splits)

lemma jws_encoded:
  assumes "b64_ok (js_b64 c)" "js_reads c header" "js_reads c payload" "encode_compact_jws c header payload signer = Inr jws"
    and "\<forall>d s. js_sign signer d = Inr s \<longrightarrow> s \<noteq> [] \<and> verifier d s = Inr ()"
    and "str_member header ''alg'' = Some alg" "\<not> eq_ignore_ascii_case alg ''none''" "alg \<in> set algs"
  shows "decode_compact_jws_unverified c jws = Inr (header, payload)"
    "decode_compact_jws_verified_with_algs c jws verifier algs = Inr (header, payload)"
proof -
  let ?h = "b64_encode (js_b64 c) (bytes_of (js_to_string c header))"
  let ?p = "b64_encode (js_b64 c) (bytes_of (js_to_string c payload))"
  obtain s where s: "js_sign signer (bytes_of (?h @ ''.'' @ ?p)) = Inr s" "jws = ?h @ ''.'' @ ?p @ ''.'' @ b64_encode (js_b64 c) s"
    using assms(4) by (auto simp: encode_compact_jws_def Let_def and_then_Inr)
  note b = b64_okD [OF assms(1)]
  have split: "splitn_dot jws = Some (?h, ?p, b64_encode (js_b64 c) s)" unfolding s(2) by (rule splitn_dot_join) (rule b(2))+
  have sig: "b64_encode (js_b64 c) s \<noteq> []" "verifier (bytes_of (?h @ ''.'' @ ?p)) s = Inr ()" using s(1) assms(5) b(3) by blast+
  have part: "decode_part c t (b64_encode (js_b64 c) d) = Inr d" for t d by (simp add: decode_part_def b(1))
  have json: "json_part c (bytes_of (js_to_string c header)) = Inr header" "json_part c (bytes_of (js_to_string c payload)) = Inr payload"
    using assms(2,3) by (simp_all add: json_part_def js_reads_def)
  have alg: "check_alg (Some algs) header = Inr alg" using assms(6,7,8) by (simp add: check_alg_Inr)
  show "decode_compact_jws_unverified c jws = Inr (header, payload)"
    by (simp add: decode_compact_jws_unverified_def split part json)
  show "decode_compact_jws_verified_with_algs c jws verifier algs = Inr (header, payload)"
    unfolding decode_compact_jws_verified_with_algs_def decode_compact_jws_checked_def split option.case prod.case part json alg
    using sig by (simp add: part json alg)
qed

lemma jws_accepted:
  assumes "decode_compact_jws_verified_with_algs c jws verifier algs = Inr (header, payload)"
  shows "\<exists>h p sig signature alg. jws = h @ ''.'' @ p @ ''.'' @ sig \<and> b64_decode_vec (js_b64 c) sig = Inr signature \<and>
      verifier (bytes_of (h @ ''.'' @ p)) signature = Inr () \<and> str_member header ''alg'' = Some alg \<and> alg \<in> set algs \<and>
      \<not> eq_ignore_ascii_case alg ''none''"
    and "decode_compact_jws_unverified c jws = Inr (header, payload)"
proof -
  obtain h p sig signature alg hb pb where s: "splitn_dot jws = Some (h, p, sig)"
    and r: "decode_part c ''signature'' sig = Inr signature" "verifier (bytes_of (h @ ''.'' @ p)) signature = Inr ()"
    "decode_part c ''header'' h = Inr hb" "decode_part c ''payload'' p = Inr pb" "json_part c hb = Inr header" "json_part c pb = Inr payload"
    and a: "check_alg (Some algs) header = Inr alg"
    using assms
    by (auto simp: decode_compact_jws_verified_with_algs_def decode_compact_jws_checked_def and_then_Inr split: option.splits if_splits)
  have "b64_decode_vec (js_b64 c) sig = Inr signature" using r(1) by (auto simp: decode_part_def split: sum.splits)
  then show "\<exists>h p sig signature alg. jws = h @ ''.'' @ p @ ''.'' @ sig \<and> b64_decode_vec (js_b64 c) sig = Inr signature \<and>
      verifier (bytes_of (h @ ''.'' @ p)) signature = Inr () \<and> str_member header ''alg'' = Some alg \<and> alg \<in> set algs \<and>
      \<not> eq_ignore_ascii_case alg ''none''"
    using splitn_dot_Some [OF s] r(2) a [unfolded check_alg_Inr] by blast
  show "decode_compact_jws_unverified c jws = Inr (header, payload)"
    by (simp add: decode_compact_jws_unverified_def s r)
qed

section \<open>Key-binding proofs\<close>

lemma jwt_err_Inr [simp]: "jwt_err r = Inr x \<longleftrightarrow> r = Inr x"
  by (cases r) (simp_all add: jwt_err_def)

lemma verify_claims_Inr:
  "verify_claims p policy = Inr () \<longleftrightarrow>
     audience_contains (kp_aud (kp_claims p)) (pp_audience policy) \<and>
     (\<forall>n. pp_nonce policy = Some n \<longrightarrow> kp_nonce (kp_claims p) = Some n) \<and>
     kp_iat (kp_claims p) \<le> wrap_i64 (pp_now policy + 60) \<and>
     wrap_i64 (pp_now policy - kp_iat (kp_claims p)) \<le> pp_max_age_secs policy"
  by (auto simp: verify_claims_def Let_def IAT_FUTURE_LEEWAY_SECS_def split: option.splits)

lemma key_proof_verify_Inr:
  "key_proof_verify c p verifier algs policy = Inr claims \<longleftrightarrow>
   (\<exists>header payload. decode_compact_jws_verified_with_algs c (kp_jwt p) verifier algs = Inr (header, payload)) \<and>
   verify_claims p policy = Inr () \<and> claims = kp_claims p"
proof -
  have "verify_signature c p verifier algs = Inr () \<longleftrightarrow>
      (\<exists>header payload. decode_compact_jws_verified_with_algs c (kp_jwt p) verifier algs = Inr (header, payload))"
    unfolding verify_signature_def by (cases "decode_compact_jws_verified_with_algs c (kp_jwt p) verifier algs") auto
  then show ?thesis by (auto simp: key_proof_verify_def and_then_Inr)
qed

lemma key_proof_parse_Inr:
  assumes "decode_compact_jws_unverified c jwt = Inr (header, payload)"
  shows "key_proof_parse c jwt = Inr p \<longleftrightarrow>
    (str_member header ''typ'' = Some KEY_PROOF_TYP \<and> str_member header ''alg'' = Some (kp_alg p) \<and>
     \<not> eq_ignore_ascii_case (kp_alg p) ''none'' \<and> kp_kid p = str_member header ''kid'' \<and>
     kp_jwk p = (case json_get header ''jwk'' of Some (JObject m) \<Rightarrow> Some (JObject m) | _ \<Rightarrow> None) \<and>
     (kp_kid p \<noteq> None \<or> kp_jwk p \<noteq> None) \<and> proof_claims payload = Inr (kp_claims p) \<and> kp_jwt p = jwt)"
  unfolding key_proof_parse_def using assms
  by (cases p) (auto simp: jwt_err_def and_then_Inr Let_def split: option.splits if_splits)

text \<open>C12. A proof that is accepted was made by the key: parsing and verifying a key-binding proof succeeds only if its text is
  three parts whose first two carry a signature that the verifier accepts, with an algorithm of the allowed list
  that is not \<open>none\<close>; the key identifier and the claims that are returned are read from these signed parts; the proof
  is for this issuer and for the nonce that was issued, and its time passes both checks of freshness.\<close>
theorem key_proof_sound:
  assumes "key_proof_parse c jwt = Inr p" "key_proof_verify c p verifier algs policy = Inr claims"
  shows "\<exists>h pl sig signature header payload. jwt = h @ ''.'' @ pl @ ''.'' @ sig \<and>
    b64_decode_vec (js_b64 c) sig = Inr signature \<and> verifier (bytes_of (h @ ''.'' @ pl)) signature = Inr () \<and>
    decode_compact_jws_unverified c jwt = Inr (header, payload) \<and> str_member header ''typ'' = Some KEY_PROOF_TYP \<and>
    str_member header ''alg'' = Some (kp_alg p) \<and> kp_alg p \<in> set algs \<and> \<not> eq_ignore_ascii_case (kp_alg p) ''none'' \<and>
    kp_kid p = str_member header ''kid'' \<and> (kp_kid p \<noteq> None \<or> kp_jwk p \<noteq> None) \<and>
    proof_claims payload = Inr claims \<and> audience_contains (kp_aud claims) (pp_audience policy) \<and>
    (\<forall>n. pp_nonce policy = Some n \<longrightarrow> kp_nonce claims = Some n) \<and>
    kp_iat claims \<le> wrap_i64 (pp_now policy + 60) \<and> wrap_i64 (pp_now policy - kp_iat claims) \<le> pp_max_age_secs policy"
proof -
  obtain header payload where d: "decode_compact_jws_verified_with_algs c (kp_jwt p) verifier algs = Inr (header, payload)"
    and v: "verify_claims p policy = Inr ()" "claims = kp_claims p"
    using assms(2) unfolding key_proof_verify_Inr by blast
  have j: "kp_jwt p = jwt" using assms(1) by (auto simp: key_proof_parse_def and_then_Inr Let_def split: option.splits if_splits)
  obtain h pl sig signature alg where a: "jwt = h @ ''.'' @ pl @ ''.'' @ sig" "b64_decode_vec (js_b64 c) sig = Inr signature"
    "verifier (bytes_of (h @ ''.'' @ pl)) signature = Inr ()" "str_member header ''alg'' = Some alg" "alg \<in> set algs"
    using jws_accepted(1) [OF d] j by blast
  have u: "decode_compact_jws_unverified c jwt = Inr (header, payload)" using jws_accepted(2) [OF d] j by simp
  note p = assms(1) [unfolded key_proof_parse_Inr [OF u]]
  then have "kp_alg p = alg" using a(4) by simp
  then show ?thesis using a u p v(1) [unfolded verify_claims_Inr, folded v(2)] v(2)
    by (intro exI [of _ h] exI [of _ pl] exI [of _ sig] exI [of _ signature] exI [of _ header] exI [of _ payload] conjI)
       (iprover | simp)+
qed

lemma json_i64: "- (2 ^ 63) \<le> i \<Longrightarrow> i < 2 ^ 63 \<Longrightarrow> json_as_i64 (json_of_i64 i) = Some i"
proof (cases "i \<ge> 0")
  case True
  moreover assume "i < 2 ^ 63"
  ultimately have "unat (word_of_int i :: 64 word) = nat i" by (simp add: unat_eq_nat_uint uint_word_of_int)
  then show ?thesis using True \<open>i < 2 ^ 63\<close> by (simp add: json_as_i64_def json_of_i64_def nat_less_iff)
next
  case False
  moreover assume "- (2 ^ 63) \<le> i" "i < 2 ^ 63"
  ultimately have "sint (word_of_int i :: 64 word) = i" by (simp add: signed_of_int signed_take_bit_int_eq_self_iff)
  then show ?thesis using False by (simp add: json_as_i64_def json_of_i64_def)
qed

lemma freshness:
  assumes "0 \<le> now" "now < 2 ^ 63 - 60" "- (2 ^ 63) \<le> iat" "iat < 2 ^ 63" "0 \<le> max_age"
  shows "iat \<le> wrap_i64 (now + 60) \<and> wrap_i64 (now - iat) \<le> max_age \<longleftrightarrow>
    iat \<le> now + 60 \<and> (now - iat \<le> max_age \<or> now - iat \<ge> 2 ^ 63)"
proof -
  have a: "wrap_i64 (now + 60) = now + 60" using assms by (simp add: wrap_i64_def)
  have b: "wrap_i64 (now - iat) = (if now - iat < 2 ^ 63 then now - iat else now - iat - 2 ^ 64)" if "iat \<le> now + 60"
  proof (cases "now - iat < 2 ^ 63")
    case True
    then show ?thesis using that by (simp add: wrap_i64_def)
  next
    case False
    let ?x = "now - iat + 9223372036854775808" and ?m = "18446744073709551616 :: int"
    have "?x mod ?m = (?x - ?m) mod ?m" by (rule minus_mod_self2 [symmetric])
    also have "\<dots> = ?x - ?m" using False assms by (intro mod_pos_pos_trivial) simp_all
    finally have "?x mod ?m = ?x - ?m" .
    then show ?thesis using False by (simp add: wrap_i64_def)
  qed
  show ?thesis using a b assms by (cases "iat \<le> now + 60") (auto split: if_splits)
qed

lemma built_header:
  "str_member (key_proof_header signer kid) ''typ'' = Some KEY_PROOF_TYP"
  "str_member (key_proof_header signer kid) ''alg'' = Some (js_algorithm signer)"
  "str_member (key_proof_header signer kid) ''kid'' = Some kid"
  by (simp_all add: key_proof_header_def str_member_def json_get_def bt_get_def)

lemma built_payload:
  assumes "- (2 ^ 63) \<le> iat" "iat < 2 ^ 63"
  shows "proof_claims (key_proof_payload aud nonce iat) = Inr \<lparr>kp_iss = None, kp_aud = One aud, kp_iat = iat, kp_nonce = nonce\<rparr>"
  using json_i64 [OF assms]
  by (cases nonce) (simp_all add: proof_claims_def key_proof_payload_def Let_def str_member_def json_get_def bt_get_def
      audience_from_value_def bt_insert.simps)

text \<open>C32. A proof that was built is accepted exactly as intended: the text that a wallet signs for an issuer, with the nonce it got
  and the time of its clock, parses with the signer's key identifier, and verifying it, with a verifier that accepts
  the signatures of the signer and an allowed algorithm, succeeds if and only if the issuer is the one it was made for, the
  nonce is the one expected (if one is) and the time is at most a minute ahead and not older than the limit, with
  one exception: a time so far in the past that the difference overflows is taken for fresh at every later time.\<close>
theorem key_proof_accepted_exactly:
  assumes "b64_ok (js_b64 c)" "js_key_id signer = Some kid" "build_key_proof_jwt c signer aud nonce iat = Inr jwt"
    and "js_reads c (key_proof_header signer kid)" "js_reads c (key_proof_payload aud nonce iat)"
    and "\<forall>d s. js_sign signer d = Inr s \<longrightarrow> s \<noteq> [] \<and> verifier d s = Inr ()"
    and "js_algorithm signer \<in> set algs" "\<not> eq_ignore_ascii_case (js_algorithm signer) ''none''"
    and "- (2 ^ 63) \<le> iat" "iat < 2 ^ 63" "0 \<le> pp_now policy" "pp_now policy < 2 ^ 63 - 60" "0 \<le> pp_max_age_secs policy"
  shows "\<exists>p. key_proof_parse c jwt = Inr p \<and> kp_kid p = Some kid \<and> kp_alg p = js_algorithm signer \<and>
    (key_proof_verify c p verifier algs policy = Inr \<lparr>kp_iss = None, kp_aud = One aud, kp_iat = iat, kp_nonce = nonce\<rparr> \<longleftrightarrow>
       pp_audience policy = aud \<and> (pp_nonce policy = None \<or> pp_nonce policy = nonce) \<and>
       iat \<le> pp_now policy + 60 \<and> (pp_now policy - iat \<le> pp_max_age_secs policy \<or> pp_now policy - iat \<ge> 2 ^ 63))"
proof -
  let ?claims = "\<lparr>kp_iss = None, kp_aud = One aud, kp_iat = iat, kp_nonce = nonce\<rparr>"
  let ?p = "\<lparr>kp_jwt = jwt, kp_alg = js_algorithm signer, kp_kid = Some kid, kp_jwk = None, kp_claims = ?claims\<rparr>"
  have e: "encode_compact_jws c (key_proof_header signer kid) (key_proof_payload aud nonce iat) signer = Inr jwt"
    using assms(2,3) by (simp add: build_key_proof_jwt_def)
  note d = jws_encoded [OF assms(1,4,5) e assms(6) built_header(2) assms(8,7)]
  have "json_get (key_proof_header signer kid) ''jwk'' = None"
    by (simp add: key_proof_header_def json_get_def bt_get_def)
  then have parse: "key_proof_parse c jwt = Inr ?p"
    unfolding key_proof_parse_Inr [OF d(1)] by (simp add: built_header built_payload [OF assms(9,10)] assms(8))
  have "key_proof_verify c ?p verifier algs policy = Inr ?claims \<longleftrightarrow> verify_claims ?p policy = Inr ()"
    unfolding key_proof_verify_Inr using d(2) by simp
  also have "\<dots> \<longleftrightarrow> pp_audience policy = aud \<and> (pp_nonce policy = None \<or> pp_nonce policy = nonce) \<and>
      (iat \<le> wrap_i64 (pp_now policy + 60) \<and> wrap_i64 (pp_now policy - iat) \<le> pp_max_age_secs policy)"
    unfolding verify_claims_Inr by (cases "pp_nonce policy") (auto simp: audience_contains_def)
  finally show ?thesis unfolding freshness [OF assms(11,12,9,10,13)] using parse by (intro exI [of _ ?p]) simp
qed

section \<open>Nonces\<close>

datatype nonce_event = Registered string nat | Asked string \<comment> \<open>with the lifetime; \<open>consume\<close>\<close>

fun nonce_run :: "(nat \<times> nonce_event) list \<Rightarrow> nonce_store \<Rightarrow> nonce_store" where
  "nonce_run [] s = s"
| "nonce_run ((now, Registered n ttl) # es) s = nonce_run es (nonce_register now n ttl s)"
| "nonce_run ((now, Asked n) # es) s = nonce_run es (snd (nonce_consume now n s))"

fun last_expiry :: "string \<Rightarrow> (nat \<times> nonce_event) list \<Rightarrow> nat option \<Rightarrow> nat option" where
  \<comment> \<open>until when the last registration of a nonce that was not asked for since is valid\<close>
  "last_expiry n [] e = e"
| "last_expiry n ((now, Registered m ttl) # es) e = last_expiry n es (if m = n then Some (now + ttl) else e)"
| "last_expiry n ((now, Asked m) # es) e = last_expiry n es (if m = n then None else e)"

definition live_until :: "nonce_store \<Rightarrow> nat option \<Rightarrow> nat \<Rightarrow> string \<Rightarrow> bool" where
  \<comment> \<open>the store knows the expiry, unless it has passed\<close>
  "live_until s e now n \<longleftrightarrow> distinct (map fst s) \<and>
     (case e of None \<Rightarrow> map_of s n = None | Some t \<Rightarrow> map_of s n = Some t \<or> (map_of s n = None \<and> t \<le> now))"

lemma map_of_retain: "distinct (map fst s) \<Longrightarrow> map_of (retain_live now s) n = (case map_of s n of Some t \<Rightarrow> if t > now then Some t else None | None \<Rightarrow> None)"
  by (induction s) (auto simp: retain_live_def map_of_eq_None_iff split: option.splits)

lemma distinct_retain: "distinct (map fst s) \<Longrightarrow> distinct (map fst (retain_live now s))"
  by (simp add: retain_live_def distinct_map_filter)

lemma live_register:
  assumes "live_until s e t n" "t \<le> now"
  shows "live_until (nonce_register now m ttl s) (if m = n then Some (now + ttl) else e) now n"
  using assms by (auto simp: live_until_def nonce_register_def update_conv' distinct_update distinct_retain map_of_retain split: option.splits)

lemma live_consume:
  assumes "live_until s e t n" "t \<le> now"
  shows "live_until (snd (nonce_consume now m s)) (if m = n then None else e) now n"
  using assms by (auto simp: live_until_def nonce_consume_def delete_conv' distinct_delete split: option.splits)

lemma nonce_run_live:
  assumes "sorted_wrt (\<le>) (map fst es)" "\<forall>e' \<in> set es. t \<le> fst e'" "live_until s e t n" "\<forall>e' \<in> set es. fst e' \<le> now" "t \<le> now"
  shows "live_until (nonce_run es s) (last_expiry n es e) now n"
  using assms
proof (induction n es e arbitrary: s t rule: last_expiry.induct)
  case (1 n e)
  then show ?case by (auto simp: live_until_def split: option.splits)
next
  case (2 n now' m ttl es e)
  have "t \<le> now'" using 2(3) by simp
  from 2(1) [OF _ _ live_register [OF 2(4) this]] show ?case using 2(2,5) by simp
next
  case (3 n now' m es e)
  have "t \<le> now'" using 3(3) by simp
  from 3(1) [OF _ _ live_consume [OF 3(4) this]] show ?case using 3(2,5) by simp
qed

text \<open>C24. A nonce is accepted at most once: after any registrations and requests in the order of time, from an empty store, a
  request to consume a nonce succeeds if and only if its last registration has not expired and was not
  followed by another request for it; and the same request repeated fails.\<close>
theorem nonce_single_use:
  assumes "sorted (map fst es)" "\<forall>e \<in> set es. fst e \<le> now"
  shows "(fst (nonce_consume now n (nonce_run es nonce_store_new)) \<longleftrightarrow> (\<exists>t > now. last_expiry n es None = Some t)) \<and>
    \<not> fst (nonce_consume later n (snd (nonce_consume now n (nonce_run es nonce_store_new))))"
proof -
  have "live_until (nonce_run es nonce_store_new) (last_expiry n es None) now n"
    by (rule nonce_run_live [where t = 0]) (use assms in \<open>auto simp: live_until_def nonce_store_new_def\<close>)
  then have "distinct (map fst (nonce_run es nonce_store_new))"
    "fst (nonce_consume now n (nonce_run es nonce_store_new)) \<longleftrightarrow> (\<exists>t > now. last_expiry n es None = Some t)"
    by (auto simp: live_until_def nonce_consume_def split: option.splits)
  then show ?thesis by (simp add: nonce_consume_def delete_conv')
qed

theorem nonce_single_use_witness:
  "fst (nonce_consume 5 ''a'' (nonce_run [(1, Registered ''a'' 10), (2, Asked ''b'')] nonce_store_new))"
  using nonce_single_use [of "[(1, Registered ''a'' 10), (2, Asked ''b'')]" 5 "''a''" 6] by simp

section \<open>Thumbprints\<close>

definition jwk_members :: "json \<Rightarrow> string option list" where
  \<comment> \<open>the required members of a key, with its type first\<close>
  "jwk_members jwk = (let kty = str_member jwk ''kty'' in
     kty # map (str_member jwk)
       (if kty = Some ''EC'' then [''crv'', ''x'', ''y''] else if kty = Some ''OKP'' then [''crv'', ''x'']
        else if kty = Some ''RSA'' then [''e'', ''n''] else []))"

definition quote_free :: "json \<Rightarrow> bool" where
  "quote_free jwk \<longleftrightarrow> (\<forall>m \<in> set (jwk_members jwk). \<forall>s. m = Some s \<longrightarrow> CHR 0x22 \<notin> set s)"

lemma quote_cancel:
  assumes "CHR 0x22 \<notin> set a" "CHR 0x22 \<notin> set b"
  shows "a @ CHR 0x22 # r = b @ CHR 0x22 # r' \<longleftrightarrow> a = b \<and> r = r'"
proof
  assume "a @ CHR 0x22 # r = b @ CHR 0x22 # r'"
  then have "split_once (CHR 0x22) (a @ CHR 0x22 # r) = split_once (CHR 0x22) (b @ CHR 0x22 # r')" by (rule arg_cong)
  then show "a = b \<and> r = r'" unfolding split_once_append [OF assms(1)] split_once_append [OF assms(2)] by simp
qed simp

lemma text_of_bytes_of: "text_of (bytes_of u) = u"
  by (simp add: text_of_def bytes_of_def comp_def unat_of_char)

lemma canonical_identifies:
  assumes "canonical_jwk j = Some t" "canonical_jwk k = Some t" "quote_free j" "quote_free k"
  shows "jwk_members j = jwk_members k"
proof -
  have kty: "str_member i ''kty'' \<in> {Some ''EC'', Some ''OKP'', Some ''RSA''}" if "canonical_jwk i = Some t" for i
    using that by (auto simp: canonical_jwk_def split: option.splits if_splits)
  have q: "CHR 0x22 \<notin> set s" if "quote_free i" "Some s \<in> set (jwk_members i)" for i s using that by (auto simp: quote_free_def)
  show ?thesis
    using assms(1,2) kty [OF assms(1)] kty [OF assms(2)] q [OF assms(3)] q [OF assms(4)]
    by (auto simp: canonical_jwk_def jwk_members_def quoted_def quote_cancel split: option.splits)
qed

definition ambiguous_key :: "string \<Rightarrow> string \<Rightarrow> json" where
  "ambiguous_key x y = JObject [(''crv'', JString ''P-256''), (''kty'', JString ''EC''), (''x'', JString x), (''y'', JString y)]"

lemma canonical_ambiguous:
  "\<exists>j k t. jwk_members j \<noteq> jwk_members k \<and> canonical_jwk j = Some t \<and> canonical_jwk k = Some t"
proof (intro exI conjI)
  let ?j = "ambiguous_key ''a'' (''b'' @ [CHR 0x22] @ '','' @ quoted ''y'' @ '':'' @ [CHR 0x22] @ ''c'')"
  let ?k = "ambiguous_key (''a'' @ [CHR 0x22] @ '','' @ quoted ''y'' @ '':'' @ [CHR 0x22] @ ''b'') ''c''"
  show "jwk_members ?j \<noteq> jwk_members ?k"
    by (simp add: ambiguous_key_def jwk_members_def str_member_def json_get_def bt_get_def Let_def quoted_def)
  show "canonical_jwk ?j = Some (the (canonical_jwk ?j))"
    by (simp add: ambiguous_key_def canonical_jwk_def str_member_def json_get_def bt_get_def)
  show "canonical_jwk ?k = Some (the (canonical_jwk ?j))"
    by (simp add: ambiguous_key_def canonical_jwk_def str_member_def json_get_def bt_get_def quoted_def)
qed

text \<open>A thumbprint identifies its key: if two keys have the same thumbprint and no required member of them holds a
  quotation mark, their types and required members are the same, or two different inputs of the hash have the
  same digest. Members with quotation marks are not escaped: whatever the hash, there are two keys with different
  members and the same thumbprint.\<close>
theorem jwk_thumbprint_identifies:
  assumes "b64_ok (js_b64 c)"
  shows "(\<forall>j k t. compute_jwk_thumbprint c sha256 j = Some t \<longrightarrow> compute_jwk_thumbprint c sha256 k = Some t \<longrightarrow>
      quote_free j \<longrightarrow> quote_free k \<longrightarrow> jwk_members j = jwk_members k \<or> (\<exists>d d'. d \<noteq> d' \<and> sha256 d = sha256 d')) \<and>
    (\<exists>j k t. jwk_members j \<noteq> jwk_members k \<and> compute_jwk_thumbprint c sha256 j = Some t \<and> compute_jwk_thumbprint c sha256 k = Some t)"
proof -
  have "jwk_members j = jwk_members k \<or> (\<exists>d d'. d \<noteq> d' \<and> sha256 d = sha256 d')"
    if h: "compute_jwk_thumbprint c sha256 j = Some t" "compute_jwk_thumbprint c sha256 k = Some t" "quote_free j" "quote_free k" for j k t
  proof -
    obtain u v where uv: "canonical_jwk j = Some u" "canonical_jwk k = Some v"
      "b64_encode (js_b64 c) (sha256 (bytes_of u)) = b64_encode (js_b64 c) (sha256 (bytes_of v))"
      using h(1,2) by (auto simp: compute_jwk_thumbprint_def)
    then have "sha256 (bytes_of u) = sha256 (bytes_of v)" using b64_okD(1) [OF assms] by (metis sum.inject(2))
    moreover have "bytes_of u = bytes_of v \<Longrightarrow> u = v" by (metis text_of_bytes_of)
    ultimately show ?thesis using canonical_identifies [OF uv(1)] uv(2) h(3,4) by (cases "u = v") auto
  qed
  then show ?thesis using canonical_ambiguous unfolding compute_jwk_thumbprint_def by fastforce
qed

theorem jwk_thumbprint_identifies_witness:
  "\<exists>j k t. jwk_members j \<noteq> jwk_members k \<and>
     compute_jwk_thumbprint \<lparr>js_b64 = hex_codec, js_to_string = (\<lambda>_. []), js_from_slice = (\<lambda>_. Inl [])\<rparr> (\<lambda>d. d) j = Some t \<and>
     compute_jwk_thumbprint \<lparr>js_b64 = hex_codec, js_to_string = (\<lambda>_. []), js_from_slice = (\<lambda>_. Inl [])\<rparr> (\<lambda>d. d) k = Some t"
  using jwk_thumbprint_identifies [of "\<lparr>js_b64 = hex_codec, js_to_string = (\<lambda>_. []), js_from_slice = (\<lambda>_. Inl [])\<rparr>" "\<lambda>d. d"]
    hex_codec_ok by simp

section \<open>Self-issued ID tokens\<close>

lemma thumbprint_not_did:
  assumes "b64_ok (js_b64 c)" "compute_jwk_thumbprint c sha256 jwk = Some t"
  shows "\<not> is_prefix ''did:'' t"
proof
  assume "is_prefix ''did:'' t"
  then have "CHR '':'' \<in> set t" by (cases t; cases "tl t"; cases "tl (tl t)"; cases "tl (tl (tl t))") auto
  moreover obtain d where "t = b64_encode (js_b64 c) d" using assms(2) by (auto simp: compute_jwk_thumbprint_def)
  moreover have "\<not> is_b64_char (CHR '':'')" by code_simp
  ultimately show False using assms(1) by (auto simp: b64_ok_def list_all_iff)
qed

lemma id_token_validate_Inr:
  "id_token_validate c sha256 now t client nonce = Inr () \<longleftrightarrow>
     it_iss t = it_sub t \<and> it_aud t = client \<and> it_nonce t = nonce \<and> now \<le> it_exp t \<and>
     (if is_did_subject t then it_sub_jwk t = None
      else \<exists>jwk. it_sub_jwk t = Some jwk \<and> compute_jwk_thumbprint c sha256 jwk = Some (it_sub t))"
  by (auto simp: id_token_validate_def split: option.splits)

text \<open>Building and validating ID tokens agree. A token built for a DID validates exactly for the client and nonce it was built
  for, until it expires, if the subject is written as a DID; a token built for a key does so without further
  condition, and a token that carries a key validates only if its subject is the thumbprint of that key, so another
  holder's key does not open it.\<close>
theorem id_token_agreement:
  assumes "b64_ok (js_b64 c)" "0 \<le> now" "0 \<le> secs" "now + secs < 2 ^ 63"
  shows "(\<exists>t. id_token_build now (expires_in secs (with_did did (id_token_builder_new client nonce))) = Inr t \<and>
      (id_token_validate c sha256 later t client' nonce' = Inr () \<longleftrightarrow>
         client' = client \<and> nonce' = nonce \<and> later \<le> now + secs \<and> is_prefix ''did:'' did)) \<and>
    (\<forall>b. with_jwk_thumbprint c sha256 jwk (id_token_builder_new client nonce) = Inr b \<longrightarrow>
      (\<exists>t. id_token_build now (expires_in secs b) = Inr t \<and> compute_jwk_thumbprint c sha256 jwk = Some (it_sub t) \<and>
        (id_token_validate c sha256 later t client' nonce' = Inr () \<longleftrightarrow> client' = client \<and> nonce' = nonce \<and> later \<le> now + secs))) \<and>
    (\<forall>t jwk'. it_sub_jwk t = Some jwk' \<longrightarrow> id_token_validate c sha256 later t client' nonce' = Inr () \<longrightarrow>
      compute_jwk_thumbprint c sha256 jwk' = Some (it_sub t))"
proof -
  have w: "wrap_i64 (now + secs) = now + secs" using assms(2,3,4) by (simp add: wrap_i64_def)
  have d: "\<exists>t. id_token_build now (expires_in secs (with_did did (id_token_builder_new client nonce))) = Inr t \<and>
      (id_token_validate c sha256 later t client' nonce' = Inr () \<longleftrightarrow>
         client' = client \<and> nonce' = nonce \<and> later \<le> now + secs \<and> is_prefix ''did:'' did)"
    unfolding id_token_validate_Inr
    by (auto simp: id_token_build_def expires_in_def with_did_def id_token_builder_new_def is_did_subject_def w)
  have k: "\<exists>t. id_token_build now (expires_in secs b) = Inr t \<and> compute_jwk_thumbprint c sha256 jwk = Some (it_sub t) \<and>
      (id_token_validate c sha256 later t client' nonce' = Inr () \<longleftrightarrow> client' = client \<and> nonce' = nonce \<and> later \<le> now + secs)"
    if b: "with_jwk_thumbprint c sha256 jwk (id_token_builder_new client nonce) = Inr b" for b
  proof -
    obtain u where u: "compute_jwk_thumbprint c sha256 jwk = Some u" "b = (id_token_builder_new client nonce)\<lparr>ib_sub := Some u, ib_sub_jwk := Some jwk\<rparr>"
      using b by (auto simp: with_jwk_thumbprint_def split: option.splits)
    then show ?thesis using thumbprint_not_did [OF assms(1) u(1)] unfolding id_token_validate_Inr
      by (auto simp: id_token_build_def expires_in_def id_token_builder_new_def is_did_subject_def w)
  qed
  have "compute_jwk_thumbprint c sha256 jwk' = Some (it_sub t)"
    if "it_sub_jwk t = Some jwk'" "id_token_validate c sha256 later t client' nonce' = Inr ()" for t jwk'
    using that by (auto simp: id_token_validate_Inr split: if_splits)
  with d k show ?thesis by blast
qed

definition sample_jws :: jws_codec where
  "sample_jws = \<lparr>js_b64 = hex_codec, js_to_string = (\<lambda>v. if json_get v ''aud'' = None then ''h'' else ''p''),
     js_from_slice = (\<lambda>d. Inr (if d = bytes_of ''h''
        then JObject [(''alg'', JString ''EdDSA''), (''kid'', JString ''k''), (''typ'', JString KEY_PROOF_TYP)]
        else JObject [(''aud'', JString ''i''), (''iat'', JNumber (PosInt 7))]))\<rparr>"

definition sample_jws_signer :: jws_signer where
  "sample_jws_signer = \<lparr>js_algorithm = ''EdDSA'', js_key_id = Some ''k'', js_sign = (\<lambda>_. Inr [1])\<rparr>"

definition sample_policy :: proof_policy where
  "sample_policy = \<lparr>pp_audience = ''i'', pp_nonce = None, pp_now = 10, pp_max_age_secs = 300\<rparr>"

theorem id_token_agreement_witness:
  "\<exists>t. id_token_build 10 (expires_in 300 (with_did ''did:a'' (id_token_builder_new ''rp'' ''n''))) = Inr t \<and>
     id_token_validate sample_jws (\<lambda>d. d) 20 t ''rp'' ''n'' = Inr ()"
  using id_token_agreement [of sample_jws 10 300 "''did:a''" "''rp''" "''n''" "\<lambda>d. d" 20 "''rp''" "''n''"] hex_codec_ok
  by (simp add: sample_jws_def)

lemma sample_built:
  "build_key_proof_jwt sample_jws sample_jws_signer ''i'' None 7 =
     Inr (hex_text (bytes_of ''h'') @ ''.'' @ hex_text (bytes_of ''p'') @ ''.'' @ hex_text [1])"
  by (simp add: build_key_proof_jwt_def sample_jws_signer_def sample_jws_def encode_compact_jws_def jwt_err_def Let_def hex_codec_def
      key_proof_header_def key_proof_payload_def json_get_def bt_get_def)

lemma sample_reads:
  "js_reads sample_jws (key_proof_header sample_jws_signer ''k'')" "js_reads sample_jws (key_proof_payload ''i'' None 7)"
  by (simp_all add: js_reads_def sample_jws_def key_proof_header_def key_proof_payload_def sample_jws_signer_def json_get_def bt_get_def
      json_of_i64_def bytes_of_def)

theorem key_proof_accepted_exactly_witness:
  "\<exists>jwt p. build_key_proof_jwt sample_jws sample_jws_signer ''i'' None 7 = Inr jwt \<and> key_proof_parse sample_jws jwt = Inr p \<and>
     key_proof_verify sample_jws p (\<lambda>_ _. Inr ()) DEFAULT_PROOF_ALGS sample_policy =
       Inr \<lparr>kp_iss = None, kp_aud = One ''i'', kp_iat = 7, kp_nonce = None\<rparr>"
proof -
  have "b64_ok (js_b64 sample_jws)" "js_key_id sample_jws_signer = Some ''k''" using hex_codec_ok by (simp_all add: sample_jws_def sample_jws_signer_def)
  note t = key_proof_accepted_exactly [OF this sample_built sample_reads, of "\<lambda>_ _. Inr ()" DEFAULT_PROOF_ALGS sample_policy]
  have "\<not> eq_ignore_ascii_case ''EdDSA'' ''none''" by code_simp
  then show ?thesis using t sample_built
    by (auto simp: sample_jws_signer_def sample_policy_def DEFAULT_PROOF_ALGS_def)
qed

theorem key_proof_sound_witness:
  "\<exists>jwt p claims. build_key_proof_jwt sample_jws sample_jws_signer ''i'' None 7 = Inr jwt \<and> key_proof_parse sample_jws jwt = Inr p \<and>
     key_proof_verify sample_jws p (\<lambda>_ _. Inr ()) DEFAULT_PROOF_ALGS sample_policy = Inr claims \<and>
     kp_alg p \<in> set DEFAULT_PROOF_ALGS \<and> audience_contains (kp_aud claims) ''i''"
proof -
  let ?v = "\<lambda>_ _. Inr ()"
  let ?claims = "\<lparr>kp_iss = None, kp_aud = One ''i'', kp_iat = 7, kp_nonce = None\<rparr>"
  let ?jwt = "hex_text (bytes_of ''h'') @ ''.'' @ hex_text (bytes_of ''p'') @ ''.'' @ hex_text [1]"
  let ?p = "\<lparr>kp_jwt = ?jwt, kp_alg = ''EdDSA'', kp_kid = Some ''k'', kp_jwk = None, kp_claims = ?claims\<rparr>"
  have none: "\<not> eq_ignore_ascii_case ''EdDSA'' ''none''" by code_simp
  have alg: "js_algorithm sample_jws_signer = ''EdDSA''" by (simp add: sample_jws_signer_def)
  have b: "b64_ok (js_b64 sample_jws)" using hex_codec_ok by (simp add: sample_jws_def)
  have e: "encode_compact_jws sample_jws (key_proof_header sample_jws_signer ''k'') (key_proof_payload ''i'' None 7) sample_jws_signer = Inr ?jwt"
    using sample_built by (simp add: build_key_proof_jwt_def sample_jws_signer_def)
  note d = jws_encoded [OF b sample_reads e, of ?v "''EdDSA''" DEFAULT_PROOF_ALGS]
  have sign: "\<forall>d s. js_sign sample_jws_signer d = Inr s \<longrightarrow> s \<noteq> [] \<and> ?v d s = Inr ()" by (simp add: sample_jws_signer_def)
  note d = d [OF sign _ none]
  have h: "str_member (key_proof_header sample_jws_signer ''k'') ''alg'' = Some ''EdDSA''" "''EdDSA'' \<in> set DEFAULT_PROOF_ALGS"
    by (simp_all add: built_header alg DEFAULT_PROOF_ALGS_def)
  have "json_get (key_proof_header sample_jws_signer ''k'') ''jwk'' = None" by (simp add: key_proof_header_def json_get_def bt_get_def)
  then have p: "key_proof_parse sample_jws ?jwt = Inr ?p"
    unfolding key_proof_parse_Inr [OF d(1) [OF h]] by (simp add: built_header built_payload alg none)
  have "verify_claims ?p sample_policy = Inr ()"
    by (simp add: verify_claims_Inr sample_policy_def audience_contains_def wrap_i64_def)
  then have v: "key_proof_verify sample_jws ?p ?v DEFAULT_PROOF_ALGS sample_policy = Inr ?claims"
    unfolding key_proof_verify_Inr using d(2) [OF h] by simp
  have pol: "pp_audience sample_policy = ''i''" by (simp add: sample_policy_def)
  have "kp_alg ?p \<in> set DEFAULT_PROOF_ALGS \<and> audience_contains (kp_aud ?claims) ''i''"
    using key_proof_sound [OF p v] unfolding pol by blast
  then show ?thesis using sample_built p v by blast
qed

end
