(* ===== verification/ForwardProcessor.thy ===== *)
theory ForwardProcessor
  imports MemForward Json CesrTables
begin

text \<open>
  The forwarding processor: \<open>MC/tasks/forwarding/processor.rs\<close>. It reads the forwarding queue through a consumer
  group, groups what it read by endpoint and delivers each group over REST or a pooled WebSocket; delivered,
  expired and abandoned entries are acknowledged and deleted, failed ones are queued again with a higher retry
  count. Two background tasks run beside the main loop: one claims stale entries, one closes idle connections.

  The store is the in-memory backend, whose queue operations do not fail. The network is an argument with a
  state of its own (\<open>network\<close>); the text of a delivery error only goes to the log, so a delivery is a truth value.
  Readings of the wall clock are arguments (\<open>batch_clock\<close>), with one reading per message where a message
  causes it; the monotonic instants of one batch, which only decide when an idle connection is closed, are one. The comparison of the message rate, done in \<open>f64\<close>, is an argument. A \<open>HashMap\<close> that is iterated gives its
  entries in an order that is an argument. Sleeping is the returned backoff.
\<close>

section \<open>Message rate of an endpoint\<close>

record rate_tracker =
  rt_buckets :: "(nat \<times> nat) list" \<comment> \<open>second and count\<close>
  rt_bucket_count :: nat
  rt_total :: nat
  rt_window_secs :: nat

definition rate_tracker_new :: "nat \<Rightarrow> rate_tracker" where
  "rate_tracker_new window_seconds =
     (let bucket_count = max window_seconds 1
      in \<lparr>rt_buckets = replicate bucket_count (0, 0), rt_bucket_count = bucket_count, rt_total = 0, rt_window_secs = window_seconds\<rparr>)"

fun expire_buckets :: "nat \<Rightarrow> (nat \<times> nat) list \<Rightarrow> nat \<Rightarrow> (nat \<times> nat) list \<times> nat" where
  "expire_buckets cutoff [] tot = ([], tot)"
| "expire_buckets cutoff ((second, count) # buckets) tot =
     (if second > 0 \<and> second \<le> cutoff
      then (let (rest, tot') = expire_buckets cutoff buckets (sat_sub tot count) in ((0, 0) # rest, tot'))
      else (let (rest, tot') = expire_buckets cutoff buckets tot in ((second, count) # rest, tot')))"

definition expire_stale :: "nat \<Rightarrow> rate_tracker \<Rightarrow> rate_tracker" where
  "expire_stale now_secs r =
     (let (buckets, tot) = expire_buckets (sat_sub now_secs (rt_window_secs r)) (rt_buckets r) (rt_total r)
      in r\<lparr>rt_buckets := buckets, rt_total := tot\<rparr>)"

definition record_sends :: "nat \<Rightarrow> nat \<Rightarrow> rate_tracker \<Rightarrow> rate_tracker" where
  \<comment> \<open>\<open>record_and_rate\<close>, without the rate it returns\<close>
  "record_sends now_secs count r0 =
     (let r = expire_stale now_secs r0;
          idx = now_secs mod rt_bucket_count r;
          (second, n) = rt_buckets r ! idx;
          r1 = (if second = now_secs then r\<lparr>rt_buckets := (rt_buckets r)[idx := (second, as_u32 (n + count))]\<rparr>
                else r\<lparr>rt_total := (if second > 0 then sat_sub (rt_total r) n else rt_total r),
                       rt_buckets := (rt_buckets r)[idx := (now_secs, count)]\<rparr>)
      in r1\<lparr>rt_total := as_u32 (rt_total r1 + count)\<rparr>)"

definition rate_reaches :: "(nat \<Rightarrow> nat \<Rightarrow> nat \<Rightarrow> bool) \<Rightarrow> nat \<Rightarrow> nat \<Rightarrow> rate_tracker \<Rightarrow> bool" where
  \<comment> \<open>\<open>rate_per_10s() >= threshold\<close>; \<open>rate_ge total window threshold\<close>: \<open>(total / window) * 10.0 >= threshold\<close> in \<open>f64\<close>\<close>
  "rate_reaches rate_ge threshold now_secs r =
     (let r1 = expire_stale now_secs r
      in if rt_window_secs r1 > 0 then rate_ge (rt_total r1) (rt_window_secs r1) threshold else threshold = 0)"

section \<open>State\<close>

record forwarding_config =
  fc_report_errors :: bool
  fc_rate_window_seconds :: nat
  fc_ws_threshold_msgs_per_10s :: nat
  fc_ws_idle_timeout_seconds :: nat
  fc_batch_size :: nat
  fc_max_retries :: nat
  fc_initial_backoff_ms :: nat
  fc_max_backoff_ms :: nat
  fc_consumer_group :: string

record endpoint_state =
  ep_rate_tracker :: rate_tracker
  ep_last_activity :: nat
  ep_consecutive_failures :: nat

record 'n network =
  nw_post :: "string \<Rightarrow> string \<Rightarrow> byte list \<Rightarrow> 'n \<Rightarrow> nat option \<times> 'n" \<comment> \<open>url, content type, body; the HTTP status\<close>
  nw_connect :: "string \<Rightarrow> 'n \<Rightarrow> bool \<times> 'n"
  nw_send :: "string \<Rightarrow> string \<Rightarrow> 'n \<Rightarrow> bool \<times> 'n" \<comment> \<open>endpoint of the connection, text\<close>

record 'n forwarding =
  fw_store :: memory_state
  fw_endpoints :: "string \<rightharpoonup> endpoint_state"
  fw_ws_pool :: "string \<rightharpoonup> nat" \<comment> \<open>instant of the last use\<close>
  fw_net :: 'n

record batch_clock =
  bc_now_secs :: nat
  bc_now_ms :: nat
  bc_rate :: "nat \<times> nat" \<comment> \<open>of \<open>record_and_rate\<close> and of \<open>current_rate\<close>\<close>
  bc_instant :: nat
  bc_enqueue :: "string \<Rightarrow> nat" \<comment> \<open>of \<open>forward_queue_enqueue\<close>, per stream id\<close>
  bc_report :: "string \<Rightarrow> nat \<times> nat \<times> nat \<times> nat" \<comment> \<open>of the report (in seconds) and of \<open>store_message\<close>\<close>
  bc_uuid :: "string \<Rightarrow> string"

section \<open>Delivery\<close>

definition decode_tsp_forward :: "b64_codec \<Rightarrow> string \<Rightarrow> byte list option" where
  "decode_tsp_forward b message =
     (if \<not> is_prefix ''-E'' message then None
      else case b64_decode_vec b message of
             Inl _ \<Rightarrow> None
           | Inr bytes \<Rightarrow> (case bytes of x # _ \<Rightarrow> if x = 0xF8 then Some bytes else None | [] \<Rightarrow> None))"

definition ends_with_slash :: "string \<Rightarrow> bool" where
  "ends_with_slash s \<longleftrightarrow> s \<noteq> [] \<and> last s = CHR ''/''"

fun replace_all :: "string \<Rightarrow> string \<Rightarrow> string \<Rightarrow> string" where
  \<comment> \<open>\<open>str::replace\<close> with a non-empty pattern\<close>
  "replace_all pat rep [] = []"
| "replace_all pat rep (c # cs) =
     (if pat \<noteq> [] \<and> is_prefix pat (c # cs) then rep @ replace_all pat rep (drop (length pat - 1) cs)
      else c # replace_all pat rep cs)"

definition http_to_ws_url :: "string \<Rightarrow> string" where
  "http_to_ws_url endpoint_url =
     (let ws_base = replace_all ''http://'' ''ws://'' (replace_all ''https://'' ''wss://'' endpoint_url)
      in if ends_with_slash ws_base then ws_base @ ''ws'' else ws_base @ ''/ws'')"

definition deliver_via_rest :: "b64_codec \<Rightarrow> 'n network \<Rightarrow> string \<Rightarrow> forward_queue_entry \<Rightarrow> 'n \<Rightarrow> bool \<times> 'n" where
  "deliver_via_rest b nw endpoint_url msg net =
     (let inbound_url = (if ends_with_slash endpoint_url then endpoint_url @ ''inbound'' else endpoint_url @ ''/inbound'');
          (content_type, body) = (case decode_tsp_forward b (fe_message msg) of
             Some qb2 \<Rightarrow> (''application/tsp'', qb2)
           | None \<Rightarrow> (''application/didcomm-encrypted+json'', bytes_of (fe_message msg)));
          (response, net') = nw_post nw inbound_url content_type body net
      in (case response of None \<Rightarrow> False | Some status \<Rightarrow> 200 \<le> status \<and> status < 300, net'))"

definition ws_connect_and_send ::
  "'n network \<Rightarrow> nat \<Rightarrow> string \<Rightarrow> forward_queue_entry \<Rightarrow> (string \<rightharpoonup> nat) \<times> 'n \<Rightarrow> bool \<times> (string \<rightharpoonup> nat) \<times> 'n" where
  \<comment> \<open>the part of \<open>deliver_via_websocket\<close> without an existing connection\<close>
  "ws_connect_and_send nw now endpoint_url msg = (\<lambda>(pool, net).
     let (connected, net1) = nw_connect nw (http_to_ws_url endpoint_url) net
     in if \<not> connected then (False, pool, net1)
        else let (sent, net2) = nw_send nw endpoint_url (fe_message msg) net1
             in if \<not> sent then (False, pool, net2) else (True, pool(endpoint_url \<mapsto> now), net2))"

definition deliver_via_websocket ::
  "'n network \<Rightarrow> nat \<Rightarrow> string \<Rightarrow> forward_queue_entry \<Rightarrow> (string \<rightharpoonup> nat) \<times> 'n \<Rightarrow> bool \<times> (string \<rightharpoonup> nat) \<times> 'n" where
  "deliver_via_websocket nw now endpoint_url msg = (\<lambda>(pool, net).
     case pool endpoint_url of
       None \<Rightarrow> ws_connect_and_send nw now endpoint_url msg (pool, net)
     | Some _ \<Rightarrow>
         let (sent, net1) = nw_send nw endpoint_url (fe_message msg) net
         in if sent then (True, pool(endpoint_url \<mapsto> now), net1)
            else ws_connect_and_send nw now endpoint_url msg (pool(endpoint_url := None), net1))"

definition deliver_message ::
  "b64_codec \<Rightarrow> 'n network \<Rightarrow> nat \<Rightarrow> string \<Rightarrow> bool \<Rightarrow> forward_queue_entry \<Rightarrow> (string \<rightharpoonup> nat) \<times> 'n \<Rightarrow>
   bool \<times> (string \<rightharpoonup> nat) \<times> 'n" where
  "deliver_message b nw now endpoint_url use_websocket msg = (\<lambda>(pool, net).
     if use_websocket \<and> decode_tsp_forward b (fe_message msg) = None
     then (let (ok, pool1, net1) = deliver_via_websocket nw now endpoint_url msg (pool, net)
           in if ok then (True, pool1, net1)
              else let (ok2, net2) = deliver_via_rest b nw endpoint_url msg net1 in (ok2, pool1, net2))
     else (let (ok, net1) = deliver_via_rest b nw endpoint_url msg net in (ok, pool, net1)))"

fun deliver_all ::
  "(forward_queue_entry \<Rightarrow> 'w \<Rightarrow> bool \<times> 'w) \<Rightarrow> forward_queue_entry list \<Rightarrow> 'w \<Rightarrow>
   forward_queue_entry list \<times> forward_queue_entry list \<times> 'w" where
  \<comment> \<open>the loop over \<open>ready\<close>: succeeded, failed\<close>
  "deliver_all deliver [] w = ([], [], w)"
| "deliver_all deliver (msg # msgs) w =
     (let (ok, w1) = deliver msg w; (succeeded, failed, w2) = deliver_all deliver msgs w1
      in if ok then (msg # succeeded, failed, w2) else (succeeded, msg # failed, w2))"

section \<open>Failures\<close>

definition calculate_backoff :: "forwarding_config \<Rightarrow> nat \<Rightarrow> nat" where
  \<comment> \<open>\<open>saturating_mul\<close>; the power does not saturate\<close>
  "calculate_backoff cfg consecutive_failures =
     (let backoff = min u64_max (fc_initial_backoff_ms cfg * 2 ^ min consecutive_failures 10)
      in min backoff (fc_max_backoff_ms cfg))"

definition failure_report :: "nat \<Rightarrow> string \<Rightarrow> forward_queue_entry \<Rightarrow> string \<Rightarrow> json" where
  "failure_report now uuid msg endpoint_url =
     (let retries = show_nat (fe_retry_count msg);
          body = JObject
            [(''args'', JArray [JString (fe_to_did msg), JString retries, JString endpoint_url]),
             (''code'', JString ''e.p.me.res.forwarding.abandoned''),
             (''comment'', JString (''Message forwarding to '' @ fe_to_did msg @ '' failed after '' @ retries @
                '' retries. Destination endpoint: '' @ endpoint_url))]
      in JObject
           [(''body'', body), (''created_time'', JNumber (PosInt (of_nat now))),
            (''expires_time'', JNumber (PosInt (of_nat (now + 300)))), (''id'', JString uuid),
            (''to'', JArray [JString (fe_from_did msg)]),
            (''type'', JString ''https://didcomm.org/report-problem/2.0/problem-report'')])"

definition send_forwarding_failure_report ::
  "(string \<Rightarrow> string) \<Rightarrow> (json \<Rightarrow> string) \<Rightarrow> batch_clock \<Rightarrow> forward_queue_entry \<Rightarrow> string \<Rightarrow> memory_state \<Rightarrow> memory_state" where
  "send_forwarding_failure_report digest json_text clock msg endpoint_url s =
     (let (now, ts_ms, now1, now2) = bc_report clock (fe_stream_id msg);
          report_str = json_text (failure_report now (bc_uuid clock (fe_stream_id msg)) msg endpoint_url)
      in snd (store_message digest ts_ms now1 now2 report_str (fe_from_did_hash msg) (Some ''SYSTEM'') (now + 300) s))"

definition ack_and_delete :: "forwarding_config \<Rightarrow> forward_queue_entry list \<Rightarrow> memory_state \<Rightarrow> memory_state" where
  "ack_and_delete cfg msgs s =
     (let ids = map fe_stream_id msgs in forward_queue_delete ids (forward_queue_ack (fc_consumer_group cfg) ids s))"

definition handle_failed ::
  "(string \<Rightarrow> string) \<Rightarrow> (json \<Rightarrow> string) \<Rightarrow> forwarding_config \<Rightarrow> batch_clock \<Rightarrow> string \<Rightarrow> forward_queue_entry \<Rightarrow>
   memory_state \<Rightarrow> memory_state" where
  "handle_failed digest json_text cfg clock endpoint_url msg s =
     (let s1 = ack_and_delete cfg [msg] s
      in if fe_retry_count msg \<ge> fc_max_retries cfg
         then (if fc_report_errors cfg \<and> fe_from_did msg \<noteq> []
               then send_forwarding_failure_report digest json_text clock msg endpoint_url s1
               else s1)
         else snd (forward_queue_enqueue (bc_enqueue clock (fe_stream_id msg))
                (msg\<lparr>fe_retry_count := as_u32 (fe_retry_count msg + 1)\<rparr>) 0 s1))"

section \<open>A batch for one endpoint\<close>

definition deliver_at_ms :: "forward_queue_entry \<Rightarrow> nat" where
  "deliver_at_ms msg = (if fe_delay_milli msg > 0 then fe_received_at_ms msg + nat (fe_delay_milli msg) else fe_received_at_ms msg)"

definition choose_transport ::
  "(nat \<Rightarrow> nat \<Rightarrow> nat \<Rightarrow> bool) \<Rightarrow> forwarding_config \<Rightarrow> batch_clock \<Rightarrow> string \<Rightarrow> nat \<Rightarrow> (string \<rightharpoonup> endpoint_state) \<Rightarrow>
   bool \<times> (string \<rightharpoonup> endpoint_state)" where
  "choose_transport rate_ge cfg clock endpoint_url count endpoints =
     (let st = (case endpoints endpoint_url of
            Some st \<Rightarrow> st
          | None \<Rightarrow> \<lparr>ep_rate_tracker = rate_tracker_new (fc_rate_window_seconds cfg), ep_last_activity = bc_instant clock,
                     ep_consecutive_failures = 0\<rparr>);
          tracker = record_sends (fst (bc_rate clock)) (as_u32 count) (ep_rate_tracker st);
          reached = rate_reaches rate_ge (fc_ws_threshold_msgs_per_10s cfg) (snd (bc_rate clock)) tracker
      in (reached, endpoints(endpoint_url \<mapsto>
           st\<lparr>ep_rate_tracker := expire_stale (snd (bc_rate clock)) tracker, ep_last_activity := bc_instant clock\<rparr>)))"

definition count_failure :: "string \<Rightarrow> (string \<rightharpoonup> endpoint_state) \<Rightarrow> nat \<times> (string \<rightharpoonup> endpoint_state)" where
  "count_failure endpoint_url endpoints =
     (case endpoints endpoint_url of
        None \<Rightarrow> (1, endpoints)
      | Some st \<Rightarrow>
          let n = as_u32 (ep_consecutive_failures st + 1)
          in (n, endpoints(endpoint_url \<mapsto> st\<lparr>ep_consecutive_failures := n\<rparr>)))"

definition reset_failures :: "string \<Rightarrow> (string \<rightharpoonup> endpoint_state) \<Rightarrow> (string \<rightharpoonup> endpoint_state)" where
  "reset_failures endpoint_url endpoints =
     (case endpoints endpoint_url of
        None \<Rightarrow> endpoints
      | Some st \<Rightarrow> endpoints(endpoint_url \<mapsto> st\<lparr>ep_consecutive_failures := 0\<rparr>))"

record 'n forwarding_env =
  fv_digest :: "string \<Rightarrow> string"
  fv_json_text :: "json \<Rightarrow> string" \<comment> \<open>\<open>Value::to_string\<close>\<close>
  fv_b64 :: b64_codec
  fv_rate_ge :: "nat \<Rightarrow> nat \<Rightarrow> nat \<Rightarrow> bool"
  fv_network :: "'n network"
  fv_config :: forwarding_config

definition deliver_ready ::
  "'n forwarding_env \<Rightarrow> batch_clock \<Rightarrow> string \<Rightarrow> forward_queue_entry list \<Rightarrow> 'n forwarding \<Rightarrow> nat option \<times> 'n forwarding" where
  \<comment> \<open>\<open>process_endpoint_batch\<close> from the update of the rate on\<close>
  "deliver_ready env clock endpoint_url ready w =
     (let cfg = fv_config env;
          (use_websocket, endpoints1) = choose_transport (fv_rate_ge env) cfg clock endpoint_url (length ready) (fw_endpoints w);
          (succeeded, failed, pool1, net1) =
            deliver_all (deliver_message (fv_b64 env) (fv_network env) (bc_instant clock) endpoint_url use_websocket) ready
              (fw_ws_pool w, fw_net w);
          s1 = (if succeeded = [] then fw_store w else ack_and_delete cfg succeeded (fw_store w));
          endpoints2 = (if succeeded = [] then endpoints1 else reset_failures endpoint_url endpoints1)
      in if failed = []
         then (None, w\<lparr>fw_store := s1, fw_endpoints := endpoints2, fw_ws_pool := pool1, fw_net := net1\<rparr>)
         else let (consecutive_failures, endpoints3) = count_failure endpoint_url endpoints2;
                  pool2 = (if use_websocket then pool1(endpoint_url := None) else pool1);
                  s2 = fold (handle_failed (fv_digest env) (fv_json_text env) cfg clock endpoint_url) failed s1
              in (Some (calculate_backoff cfg consecutive_failures),
                  w\<lparr>fw_store := s2, fw_endpoints := endpoints3, fw_ws_pool := pool2, fw_net := net1\<rparr>))"

definition process_endpoint_batch ::
  "'n forwarding_env \<Rightarrow> batch_clock \<Rightarrow> string \<Rightarrow> forward_queue_entry list \<Rightarrow> 'n forwarding \<Rightarrow> nat option \<times> 'n forwarding" where
  "process_endpoint_batch env clock endpoint_url msgs w =
     (let active = filter (\<lambda>m. fe_expires_at m > bc_now_secs clock) msgs;
          expired = filter (\<lambda>m. \<not> fe_expires_at m > bc_now_secs clock) msgs;
          w1 = (if expired = [] then w else w\<lparr>fw_store := ack_and_delete (fv_config env) expired (fw_store w)\<rparr>);
          ready = filter (\<lambda>m. deliver_at_ms m \<le> bc_now_ms clock) active
      in if ready = [] then (None, w1) else deliver_ready env clock endpoint_url ready w1)"

section \<open>The main loop and the background tasks\<close>

fun group_by_endpoint :: "forward_queue_entry list \<Rightarrow> (string \<times> forward_queue_entry list) list" where
  "group_by_endpoint [] = []"
| "group_by_endpoint (e # es) =
     (fe_endpoint_url e, e # filter (\<lambda>x. fe_endpoint_url x = fe_endpoint_url e) es) #
     filter (\<lambda>g. fst g \<noteq> fe_endpoint_url e) (group_by_endpoint es)"

definition process_groups ::
  "'n forwarding_env \<Rightarrow> (string \<Rightarrow> batch_clock) \<Rightarrow> (string \<times> forward_queue_entry list) list \<Rightarrow> 'n forwarding \<Rightarrow> 'n forwarding" where
  "process_groups env clocks groups w =
     fold (\<lambda>(endpoint_url, msgs) w. snd (process_endpoint_batch env (clocks endpoint_url) endpoint_url msgs w)) groups w"

definition forward_iteration ::
  "'n forwarding_env \<Rightarrow> string \<Rightarrow> (string \<Rightarrow> batch_clock) \<Rightarrow>
   ((string \<times> forward_queue_entry list) list \<Rightarrow> (string \<times> forward_queue_entry list) list) \<Rightarrow>
   (memory_state \<Rightarrow> memory_state) \<Rightarrow> nat \<Rightarrow> nat \<Rightarrow> 'n forwarding \<Rightarrow> 'n forwarding" where
  \<comment> \<open>one round of the loop; \<open>arrange\<close>: the order in which the map is iterated\<close>
  "forward_iteration env consumer clocks arrange wake t1 t2 w =
     (let cfg = fv_config env;
          (entries, s1) = forward_queue_read (fc_consumer_group cfg) consumer (fc_batch_size cfg) 5 wake t1 t2 (fw_store w);
          w1 = w\<lparr>fw_store := s1\<rparr>
      in if entries = [] then w1 else process_groups env clocks (arrange (group_by_endpoint entries)) w1)"

definition autoclaim_tick :: "'n forwarding_env \<Rightarrow> string \<Rightarrow> nat \<Rightarrow> 'n forwarding \<Rightarrow> 'n forwarding" where
  \<comment> \<open>instants in seconds; the entries that are claimed are only counted in the log\<close>
  "autoclaim_tick env consumer now w =
     w\<lparr>fw_store := snd (forward_queue_autoclaim now (fc_consumer_group (fv_config env)) consumer 60
          (fc_batch_size (fv_config env)) (fw_store w))\<rparr>"

definition idle_tick :: "'n forwarding_env \<Rightarrow> nat \<Rightarrow> 'n forwarding \<Rightarrow> 'n forwarding" where
  "idle_tick env now w =
     w\<lparr>fw_ws_pool := (\<lambda>endpoint. case fw_ws_pool w endpoint of
          None \<Rightarrow> None
        | Some last_used \<Rightarrow>
            if sat_sub now last_used > fc_ws_idle_timeout_seconds (fv_config env) then None else Some last_used)\<rparr>"

end
