(* ===== verification/ForwardProperties.thy ===== *)
theory ForwardProperties
  imports ForwardProcessor MemInvariants
begin

text \<open>
  What the forwarding processor promises. The rate of an endpoint is the number of messages of the last window. Every
  entry of a batch is delivered and removed, expired and removed, queued again with one more attempt, given up
  with a report to its sender, or left where it is because its time has not come; attempts are bounded. An entry
  that was left is never handed out again: the main loop reads new entries only, and the task that claims stale
  entries drops what it claims.
\<close>

section \<open>Message rate\<close>

definition window_times :: "nat \<Rightarrow> nat \<Rightarrow> nat set" where
  "window_times w now = {t. 0 < t \<and> t \<le> now \<and> now < t + w}"

definition bucket_ok :: "nat \<Rightarrow> nat \<Rightarrow> (nat \<Rightarrow> nat) \<Rightarrow> nat \<Rightarrow> nat \<times> nat \<Rightarrow> bool" where
  "bucket_ok w now cnt i b \<longleftrightarrow> b = (0, 0) \<or> (fst b \<in> window_times w now \<and> fst b mod w = i \<and> snd b = cnt (fst b))"

definition tracker_inv :: "nat \<Rightarrow> nat \<Rightarrow> (nat \<Rightarrow> nat) \<Rightarrow> rate_tracker \<Rightarrow> bool" where
  \<comment> \<open>\<open>cnt\<close>: how many messages were recorded in a second\<close>
  "tracker_inv w now cnt r \<longleftrightarrow> 0 < w \<and> rt_window_secs r = w \<and> rt_bucket_count r = w \<and> length (rt_buckets r) = w \<and>
     (\<forall>i < w. bucket_ok w now cnt i (rt_buckets r ! i)) \<and>
     (\<forall>t \<in> window_times w now. cnt t > 0 \<longrightarrow> fst (rt_buckets r ! (t mod w)) = t) \<and> (\<forall>t > now. cnt t = 0) \<and>
     rt_total r = sum_list (map snd (rt_buckets r))"

lemma expire_buckets_map:
  assumes "sum_list (map snd bs) \<le> tot"
  shows "expire_buckets cutoff bs tot =
    (map (\<lambda>b. if fst b > 0 \<and> fst b \<le> cutoff then (0, 0) else b) bs,
     tot - sum_list (map snd (filter (\<lambda>b. fst b > 0 \<and> fst b \<le> cutoff) bs)))"
  using assms
proof (induction cutoff bs tot rule: expire_buckets.induct)
  case (2 cutoff second count bs tot)
  then show ?case by (auto simp: sat_sub_def)
qed simp

lemma sum_filter_split: "sum_list (map snd bs) = sum_list (map snd (filter P bs)) + sum_list (map snd (filter (\<lambda>b. \<not> P b) bs))"
  for bs :: "(nat \<times> nat) list"
  by (induction bs) auto

lemma sum_zeroed:
  "sum_list (map snd (map (\<lambda>b. if P b then (0, 0) else b) bs)) = sum_list (map snd (filter (\<lambda>b. \<not> P b) bs))"
  for bs :: "(nat \<times> nat) list"
  by (induction bs) auto

lemma expire_inv:
  assumes "tracker_inv w now cnt r" "now \<le> now'"
  shows "tracker_inv w now' cnt (expire_stale now' r)"
proof -
  let ?P = "\<lambda>b :: nat \<times> nat. fst b > 0 \<and> fst b \<le> sat_sub now' w"
  let ?bs = "map (\<lambda>b. if ?P b then (0, 0) else b) (rt_buckets r)"
  have r: "0 < w" "rt_window_secs r = w" "rt_bucket_count r = w" "length (rt_buckets r) = w"
    "\<forall>i < w. bucket_ok w now cnt i (rt_buckets r ! i)"
    "\<forall>t \<in> window_times w now. cnt t > 0 \<longrightarrow> fst (rt_buckets r ! (t mod w)) = t" "rt_total r = sum_list (map snd (rt_buckets r))"
    "\<forall>t > now. cnt t = 0"
    using assms(1) by (auto simp: tracker_inv_def)
  have sum: "sum_list (map snd ?bs) = rt_total r - sum_list (map snd (filter ?P (rt_buckets r)))"
    unfolding sum_zeroed r(7) using sum_filter_split [of "rt_buckets r" ?P] by simp
  have e: "expire_stale now' r = r\<lparr>rt_buckets := ?bs, rt_total := sum_list (map snd ?bs)\<rparr>"
    unfolding expire_stale_def sum using expire_buckets_map [of "rt_buckets r" "rt_total r" "sat_sub now' w"] r(2,7)
    by (simp add: Let_def)
  have in_window: "t \<in> window_times w now' \<longleftrightarrow> t \<in> window_times w now \<and> \<not> t \<le> sat_sub now' w" if "t \<le> now" for t
    using that assms(2) by (auto simp: window_times_def sat_sub_def)
  have "bucket_ok w now' cnt i (?bs ! i)" if "i < w" for i
    using r(5) that r(4) in_window by (fastforce simp: bucket_ok_def window_times_def)
  moreover have "fst (?bs ! (t mod w)) = t" if "t \<in> window_times w now'" "cnt t > 0" for t
  proof -
    have "t \<le> now" using r(8) that(2) by (metis leI less_irrefl)
    then have "t \<in> window_times w now" "\<not> t \<le> sat_sub now' w" using that(1) in_window by blast+
    then show ?thesis using r(6) that(2) r(1,4) by simp
  qed
  ultimately show ?thesis using r assms(2) unfolding e by (simp add: tracker_inv_def)
qed

lemma window_mod:
  assumes "t \<in> window_times w now" "u \<in> window_times w now" "t mod w = u mod w"
  shows "t = u"
proof (rule ccontr)
  assume "t \<noteq> u"
  then have "w dvd (max t u - min t u)" using assms(3) by (metis max_def min_def mod_eq_dvd_iff_nat nat_le_linear)
  moreover have "0 < max t u - min t u" "max t u - min t u < w" using \<open>t \<noteq> u\<close> assms(1,2) by (auto simp: window_times_def)
  ultimately show False using nat_dvd_not_less by blast
qed

lemma sum_list_update: "i < length bs \<Longrightarrow> sum_list (map snd (bs[i := b])) + snd (bs ! i) = sum_list (map snd bs) + snd b"
  for bs :: "(nat \<times> nat) list"
  by (induction bs arbitrary: i) (auto split: nat.split)

lemma current_bucket:
  assumes e: "tracker_inv w now cnt r" and "0 < now"
  shows "rt_buckets r ! (now mod w) = (if cnt now > 0 \<or> fst (rt_buckets r ! (now mod w)) = now then (now, cnt now) else (0, 0))"
proof -
  have w: "0 < w" using e by (simp add: tracker_inv_def)
  then have now: "now \<in> window_times w now" using assms(2) by (simp add: window_times_def)
  have b: "bucket_ok w now cnt (now mod w) (rt_buckets r ! (now mod w))" using e w by (simp add: tracker_inv_def)
  show ?thesis
  proof (cases "cnt now > 0 \<or> fst (rt_buckets r ! (now mod w)) = now")
    case True
    then have "fst (rt_buckets r ! (now mod w)) = now" using e now by (auto simp: tracker_inv_def)
    then show ?thesis using b True assms(2) by (auto simp: bucket_ok_def prod_eq_iff)
  next
    case False
    then show ?thesis using b window_mod [OF _ now] by (auto simp: bucket_ok_def)
  qed
qed

lemma record_inv:
  assumes "tracker_inv w now cnt r" "now \<le> now'" "0 < now'" "rt_total r + c < 2 ^ 32"
  shows "tracker_inv w now' (cnt(now' := cnt now' + c)) (record_sends now' c r)" "rt_total (record_sends now' c r) \<le> rt_total r + c"
proof -
  let ?r = "expire_stale now' r" and ?i = "now' mod w"
  let ?b = "(now', cnt now' + c)"
  have e: "tracker_inv w now' cnt ?r" by (rule expire_inv [OF assms(1,2)])
  then have w: "0 < w" "rt_bucket_count ?r = w" "length (rt_buckets ?r) = w" "rt_total ?r = sum_list (map snd (rt_buckets ?r))"
    "rt_window_secs ?r = w" "\<forall>t > now'. cnt t = 0"
    by (auto simp: tracker_inv_def)
  have le: "rt_total ?r \<le> rt_total r"
    using expire_buckets_map [of "rt_buckets r" "rt_total r" "sat_sub now' (rt_window_secs r)"] assms(1)
    by (simp add: expire_stale_def tracker_inv_def split_beta)
  have i: "?i < w" using w(1) by simp
  have now: "now' \<in> window_times w now'" using assms(3) w(1) by (simp add: window_times_def)
  note old = current_bucket [OF e assms(3)]
  have cnt: "cnt now' \<le> rt_total ?r"
  proof (cases "cnt now' > 0")
    case True
    then have "snd (rt_buckets ?r ! ?i) = cnt now'" using old by simp
    then show ?thesis unfolding w(4) using i w(3) by (metis elem_le_sum_list length_map nth_map)
  qed simp
  have bound: "cnt now' + c < 2 ^ 32" "rt_total ?r + c < 2 ^ 32" using cnt le assms(4) by linarith+
  then have u32: "as_u32 (cnt now' + c) = cnt now' + c" "as_u32 (rt_total ?r + c) = rt_total ?r + c"
    by (simp_all add: as_u32_def)
  have rec: "record_sends now' c r = ?r\<lparr>rt_buckets := (rt_buckets ?r)[?i := ?b], rt_total := rt_total ?r + c\<rparr>"
  proof (cases "cnt now' > 0 \<or> fst (rt_buckets ?r ! ?i) = now'")
    case True
    then have "rt_buckets ?r ! ?i = (now', cnt now')" using old by simp
    then show ?thesis using u32 by (simp add: record_sends_def Let_def w(2))
  next
    case False
    then have "rt_buckets ?r ! ?i = (0, 0)" "cnt now' = 0" using old by simp_all
    then show ?thesis using u32 assms(3) by (simp add: record_sends_def Let_def w(2))
  qed
  have snd: "snd (rt_buckets ?r ! ?i) = cnt now'" using old by (auto split: if_splits)
  show "rt_total (record_sends now' c r) \<le> rt_total r + c" using le by (simp add: rec)
  have "bucket_ok w now' (cnt(now' := cnt now' + c)) j ((rt_buckets ?r)[?i := ?b] ! j)" if "j < w" for j
    using e now that w(3) window_mod [OF _ now]
    by (cases "j = ?i") (auto simp: tracker_inv_def bucket_ok_def)
  moreover have "fst ((rt_buckets ?r)[?i := ?b] ! (t mod w)) = t"
    if "t \<in> window_times w now'" "(cnt(now' := cnt now' + c)) t > 0" for t
    using e that i w(3) window_mod [OF that(1) now] by (auto simp: tracker_inv_def nth_list_update split: if_splits)
  moreover have "rt_total ?r + c = sum_list (map snd ((rt_buckets ?r)[?i := ?b]))"
    using sum_list_update [of ?i "rt_buckets ?r" ?b] i w(3,4) snd by simp
  ultimately show "tracker_inv w now' (cnt(now' := cnt now' + c)) (record_sends now' c r)"
    unfolding rec tracker_inv_def using w by simp
qed

lemma tracker_new_inv: "0 < w \<Longrightarrow> tracker_inv w 0 (\<lambda>_. 0) (rate_tracker_new w)"
  by (simp add: tracker_inv_def rate_tracker_new_def bucket_ok_def window_times_def Let_def sum_list_replicate)

lemma tracker_total:
  assumes "tracker_inv w now cnt r"
  shows "rt_total r = sum cnt (window_times w now)"
proof -
  let ?b = "\<lambda>i. rt_buckets r ! i" and ?W = "window_times w now"
  have w: "0 < w" "length (rt_buckets r) = w" "rt_total r = sum_list (map snd (rt_buckets r))"
    and ok: "\<And>i. i < w \<Longrightarrow> bucket_ok w now cnt i (?b i)"
    using assms by (auto simp: tracker_inv_def)
  have fin: "finite ?W" by (rule finite_subset [of _ "{..now}"]) (auto simp: window_times_def)
  have inj: "inj_on (\<lambda>t. t mod w) ?W" by (rule inj_onI) (rule window_mod)
  have at: "cnt t = snd (?b (t mod w))" if "t \<in> ?W" for t
  proof (cases "?b (t mod w) = (0, 0)")
    case True
    then have "\<not> cnt t > 0" using assms that by (auto simp: tracker_inv_def window_times_def)
    then show ?thesis using True by simp
  next
    case False
    then have b: "fst (?b (t mod w)) \<in> ?W" "fst (?b (t mod w)) mod w = t mod w" "snd (?b (t mod w)) = cnt (fst (?b (t mod w)))"
      using ok [of "t mod w"] w(1) by (auto simp: bucket_ok_def)
    then show ?thesis using window_mod [OF b(1) that b(2)] by simp
  qed
  have "sum cnt ?W = (\<Sum>i \<in> (\<lambda>t. t mod w) ` ?W. snd (?b i))" using at by (simp add: sum.reindex [OF inj])
  also have "\<dots> = (\<Sum>i \<in> {..<w}. snd (?b i))"
    proof (rule sum.mono_neutral_left)
    show "(\<lambda>t. t mod w) ` ?W \<subseteq> {..<w}" using w(1) by auto
    show "\<forall>i \<in> {..<w} - (\<lambda>t. t mod w) ` ?W. snd (?b i) = 0" using ok by (force simp: bucket_ok_def)
  qed simp
  also have "\<dots> = rt_total r" using w(2,3) by (simp add: sum_list_sum_nth atLeast0LessThan)
  finally show ?thesis by simp
qed

definition record_all :: "nat \<Rightarrow> (nat \<times> nat) list \<Rightarrow> rate_tracker" where
  \<comment> \<open>batches as they were sent: second and number of messages\<close>
  "record_all w history = fold (\<lambda>(t, c). record_sends t c) history (rate_tracker_new w)"

definition sent_at :: "(nat \<times> nat) list \<Rightarrow> nat \<Rightarrow> nat" where
  "sent_at history t = sum_list (map snd (filter (\<lambda>b. fst b = t) history))"

lemma record_all_inv:
  assumes "0 < w" "sorted (map fst history)" "\<forall>b \<in> set history. 0 < fst b" "sum_list (map snd history) < 2 ^ 32"
  shows "tracker_inv w (if history = [] then 0 else fst (last history)) (sent_at history) (record_all w history) \<and>
    rt_total (record_all w history) \<le> sum_list (map snd history)"
  using assms(2-)
proof (induction history rule: rev_induct)
  case Nil
  then show ?case using tracker_new_inv [OF assms(1)] by (simp add: record_all_def sent_at_def rate_tracker_new_def Let_def)
next
  case (snoc b history)
  obtain t c where b: "b = (t, c)" by fastforce
  let ?last = "if history = [] then 0 else fst (last history)"
  have le: "?last \<le> t" using snoc.prems(1) b by (auto simp: sorted_append)
  have IH: "tracker_inv w ?last (sent_at history) (record_all w history)" "rt_total (record_all w history) \<le> sum_list (map snd history)"
    using snoc by (auto simp: sorted_append)
  have "rt_total (record_all w history) + c < 2 ^ 32" "0 < t" using IH(2) snoc.prems(2,3) b by auto
  note r = record_inv [OF IH(1) le this(2) this(1)]
  have "sent_at (history @ [b]) = (sent_at history)(t := sent_at history t + c)" by (auto simp: sent_at_def b)
  moreover have "record_all w (history @ [b]) = record_sends t c (record_all w history)" by (simp add: record_all_def b)
  ultimately show ?case using r IH(2) b by (simp add: fun_upd_def)
qed

lemma sent_at_sum: "finite W \<Longrightarrow> sum (sent_at history) W = sum_list (map snd (filter (\<lambda>b. fst b \<in> W) history))"
proof (induction history)
  case (Cons b history)
  have "sum (sent_at (b # history)) W = (\<Sum>t \<in> W. (if t = fst b then snd b else 0) + sent_at history t)"
    by (rule sum.cong) (auto simp: sent_at_def)
  then show ?case using Cons by (simp add: sum.distrib)
qed (simp add: sent_at_def)

text \<open>C26. The rate is the number of messages of the last window. Let batches be recorded in the order of their times,
  and let their messages together fit the 32-bit counter. Then at any time from the last batch on the counter holds
  exactly the number of messages of the seconds of the window that ends now, and this number is what decides
  between REST and a WebSocket, although buckets are reused for seconds that differ by the length of the window.\<close>
theorem rate_window_exact:
  fixes rate_ge :: "nat \<Rightarrow> nat \<Rightarrow> nat \<Rightarrow> bool"
  assumes "0 < w" "sorted (map fst history)" "\<forall>(t, c) \<in> set history. 0 < t \<and> t \<le> now"
    "sum_list (map snd history) < 2 ^ 32"
  defines "sent \<equiv> sum_list (map snd (filter (\<lambda>(t, c). now < t + w) history))"
  shows "rt_total (expire_stale now (record_all w history)) = sent \<and>
    rate_reaches rate_ge threshold now (record_all w history) = rate_ge sent w threshold"
proof -
  let ?last = "if history = [] then 0 else fst (last history)"
  have pos: "\<forall>b \<in> set history. 0 < fst b \<and> fst b \<le> now" using assms(3) by auto
  then have "?last \<le> now" using last_in_set [of history] by (cases "history = []") simp_all
  then have e: "tracker_inv w now (sent_at history) (expire_stale now (record_all w history))"
    using expire_inv record_all_inv [OF assms(1,2) _ assms(4)] pos by blast
  have fin: "finite (window_times w now)" by (rule finite_subset [of _ "{..now}"]) (auto simp: window_times_def)
  have "filter (\<lambda>b. fst b \<in> window_times w now) history = filter (\<lambda>(t, c). now < t + w) history"
    using pos by (intro filter_cong) (auto simp: window_times_def)
  then have tot: "rt_total (expire_stale now (record_all w history)) = sent"
    unfolding sent_def using tracker_total [OF e] sent_at_sum [OF fin] by simp
  then show ?thesis using e by (simp add: rate_reaches_def Let_def tracker_inv_def)
qed

theorem rate_window_exact_witness:
  "rt_total (expire_stale 62 (record_all 60 [(1, 4), (2, 5), (61, 2), (62, 1)])) = 3"
  using rate_window_exact [of 60 "[(1, 4), (2, 5), (61, 2), (62, 1)]" 62] by simp

section \<open>Labels of queue entries\<close>

lemma show_nat_inj: "show_nat a = show_nat b \<Longrightarrow> a = b"
proof -
  assume "show_nat a = show_nat b"
  then have m: "map digit_char (nat_digits 10 a) = map digit_char (nat_digits 10 b)" by (simp add: show_nat_def show_radix_def)
  have inj: "inj_on digit_char {..<10}"
  proof (rule inj_onI)
    fix x y :: nat assume xy: "x \<in> {..<10}" "y \<in> {..<10}" and e: "digit_char x = digit_char y"
    have "Some x = to_digit 10 (digit_char x)" by (rule to_digit_digit_char [symmetric]) (use xy in simp_all)
    also have "\<dots> = Some y" unfolding e by (rule to_digit_digit_char) (use xy in simp_all)
    finally show "x = y" by simp
  qed
  have e: "nat_digits 10 a = nat_digits 10 b"
    using m by (rule map_inj_on [OF _ inj_on_subset [OF inj]]) (use nat_digits_bound [of 10] in auto)
  have "a = foldl (\<lambda>acc d. acc * 10 + d) 0 (nat_digits 10 a)" by (rule foldl_value_digits [symmetric]) simp
  also have "\<dots> = b" unfolding e by (rule foldl_value_digits) simp
  finally show "a = b" .
qed

lemma format_stream_id_eq [simp]: "format_stream_id i = format_stream_id j \<longleftrightarrow> i = j"
proof
  assume e: "format_stream_id i = format_stream_id j"
  have "split_once (CHR ''-'') (format_stream_id k) = Some (show_nat (sid_ms k), show_nat (sid_seq k))" for k
    using split_once_append [OF show_nat_no_dash] by (simp add: format_stream_id_def)
  from this [of i] this [of j] e have "show_nat (sid_ms i) = show_nat (sid_ms j)" "show_nat (sid_seq i) = show_nat (sid_seq j)" by auto
  then show "i = j" using show_nat_inj by (cases i; cases j) auto
qed simp







lemma fold_remove_filter:
  "fold (\<lambda>t q. case parse_stream_id t of None \<Rightarrow> q | Some i \<Rightarrow> bt_remove i q) ts q =
     filter (\<lambda>x. \<not> (\<exists>t \<in> set ts. parse_stream_id t = Some (fst x))) q"
proof (induction ts arbitrary: q)
  case (Cons t ts)
  show ?case
  proof (cases "parse_stream_id t")
    case (Some i)
    then show ?thesis by (auto simp: Cons bt_remove_def intro!: filter_cong)
  qed (simp add: Cons)
qed simp


section \<open>Failed deliveries\<close>






















section \<open>A batch\<close>

definition delivery_outcome ::
  "'n forwarding_env \<Rightarrow> batch_clock \<Rightarrow> string \<Rightarrow> forward_queue_entry list \<Rightarrow> 'n forwarding \<Rightarrow> forward_queue_entry list \<times> forward_queue_entry list" where
  \<comment> \<open>what the network accepts and what it does not\<close>
  "delivery_outcome env clock ep ready w =
     (let use_websocket = fst (choose_transport (fv_rate_ge env) (fv_config env) clock ep (length ready) (fw_endpoints w));
          (delivered, failed, _) = deliver_all (deliver_message (fv_b64 env) (fv_network env) (bc_instant clock) ep use_websocket) ready
            (fw_ws_pool w, fw_net w)
      in (delivered, failed))"



lemma deliver_ready_result:
  assumes "delivery_outcome env clock ep ready w = (delivered, failed)"
  shows "fw_store (snd (deliver_ready env clock ep ready w)) =
      fold (handle_failed (fv_digest env) (fv_json_text env) (fv_config env) clock ep) failed
        (if delivered = [] then fw_store w else ack_and_delete (fv_config env) delivered (fw_store w))"
    "\<exists>n. fst (deliver_ready env clock ep ready w) = (if failed = [] then None else Some (calculate_backoff (fv_config env) n))"
  using assms by (auto simp: deliver_ready_def delivery_outcome_def Let_def split_beta)

lemma batch_result:
  fixes msgs :: "forward_queue_entry list" and clock :: batch_clock and w :: "'n forwarding" and env :: "'n forwarding_env"
  defines "expired \<equiv> filter (\<lambda>m. fe_expires_at m \<le> bc_now_secs clock) msgs"
    and "ready \<equiv> filter (\<lambda>m. bc_now_secs clock < fe_expires_at m \<and> deliver_at_ms m \<le> bc_now_ms clock) msgs"
  assumes out: "delivery_outcome env clock ep ready w = (delivered, failed)"
  defines "s1 \<equiv> if expired = [] then fw_store w else ack_and_delete (fv_config env) expired (fw_store w)"
  shows "fw_store (snd (process_endpoint_batch env clock ep msgs w)) =
      fold (handle_failed (fv_digest env) (fv_json_text env) (fv_config env) clock ep) failed
        (if delivered = [] then s1 else ack_and_delete (fv_config env) delivered s1)"
    "\<exists>n. fst (process_endpoint_batch env clock ep msgs w) = (if failed = [] then None else Some (calculate_backoff (fv_config env) n))"
proof -
  let ?w = "if expired = [] then w else w\<lparr>fw_store := ack_and_delete (fv_config env) expired (fw_store w)\<rparr>"
  have e: "filter (\<lambda>m. \<not> fe_expires_at m > bc_now_secs clock) msgs = expired" by (simp add: expired_def not_less)
  have r: "filter (\<lambda>m. deliver_at_ms m \<le> bc_now_ms clock) (filter (\<lambda>m. fe_expires_at m > bc_now_secs clock) msgs) = ready"
    unfolding ready_def filter_filter by (rule filter_cong) auto
  have p: "process_endpoint_batch env clock ep msgs w = (if ready = [] then (None, ?w) else deliver_ready env clock ep ready ?w)"
    unfolding process_endpoint_batch_def Let_def e r by (rule refl)
  have w: "fw_store ?w = s1" "delivery_outcome env clock ep ready ?w = (delivered, failed)"
    using out by (auto simp: s1_def delivery_outcome_def)
  have n: "delivered = [] \<and> failed = []" if "ready = []" using out that by (simp add: delivery_outcome_def Let_def)
  show "fw_store (snd (process_endpoint_batch env clock ep msgs w)) =
      fold (handle_failed (fv_digest env) (fv_json_text env) (fv_config env) clock ep) failed
        (if delivered = [] then s1 else ack_and_delete (fv_config env) delivered s1)"
    unfolding p using deliver_ready_result(1) [OF w(2)] w(1) n by (cases "ready = []") simp_all
  show "\<exists>n. fst (process_endpoint_batch env clock ep msgs w) = (if failed = [] then None else Some (calculate_backoff (fv_config env) n))"
    unfolding p using deliver_ready_result(2) [OF w(2)] n by (cases "ready = []") simp_all
qed


definition sample_forward :: "string \<Rightarrow> nat \<Rightarrow> int \<Rightarrow> forward_queue_entry" where
  "sample_forward m q delay = \<lparr>fe_stream_id = format_stream_id (StreamId 5 q), fe_message = m, fe_to_did_hash = ''bob'',
     fe_from_did_hash = ''al'', fe_from_did = ''did:al'', fe_to_did = ''did:bob'', fe_endpoint_url = ''http://b/'', fe_received_at_ms = 5,
     fe_delay_milli = delay, fe_expires_at = 900, fe_retry_count = 0, fe_hop_count = 1\<rparr>"

definition sample_forward_store :: memory_state where
  "sample_forward_store = empty_state\<lparr>last_stream_ms := 5, next_stream_seq := 2, forward_queue :=
     [(StreamId 5 0, sample_forward ''ok'' 0 0), (StreamId 5 1, sample_forward ''no'' 1 0), (StreamId 5 2, sample_forward ''on'' 2 1000)]\<rparr>"

definition sample_forward_env :: "unit forwarding_env" where
  "sample_forward_env =
     \<lparr>fv_digest = id, fv_json_text = (\<lambda>_. []),
      fv_b64 = \<lparr>b64_encode = (\<lambda>_. []), b64_decode_vec = (\<lambda>_. Inl [])\<rparr>, fv_rate_ge = (\<lambda>_ _ _. False),
      fv_network = \<lparr>nw_post = (\<lambda>url ct body n. (Some (if body = bytes_of ''ok'' then 202 else 503), n)),
        nw_connect = (\<lambda>_ n. (False, n)), nw_send = (\<lambda>_ _ n. (False, n))\<rparr>,
      fv_config = \<lparr>fc_report_errors = True, fc_rate_window_seconds = 10, fc_ws_threshold_msgs_per_10s = 5,
        fc_ws_idle_timeout_seconds = 60, fc_batch_size = 10, fc_max_retries = 3, fc_initial_backoff_ms = 100, fc_max_backoff_ms = 800,
        fc_consumer_group = ''fw''\<rparr>\<rparr>"

definition sample_clock :: batch_clock where
  "sample_clock = \<lparr>bc_now_secs = 7, bc_now_ms = 7, bc_rate = (7, 7), bc_instant = 0, bc_enqueue = (\<lambda>_. 9),
     bc_report = (\<lambda>_. (7, 7, 9, 9)), bc_uuid = (\<lambda>t. t)\<rparr>"

definition sample_forwarding :: "unit forwarding" where
  "sample_forwarding = \<lparr>fw_store = sample_forward_store, fw_endpoints = Map.empty, fw_ws_pool = Map.empty, fw_net = ()\<rparr>"


section \<open>Entries are handed out once\<close>

datatype forward_event =
    FwRound string "string \<Rightarrow> batch_clock" "(string \<times> forward_queue_entry list) list \<Rightarrow> (string \<times> forward_queue_entry list) list"
      "(nat \<times> forward_queue_entry \<times> nat) list" nat nat
      \<comment> \<open>a round of the main loop: consumer, clocks, order of the groups, entries that arrive while it waits, instants\<close>
  | FwClaim string nat \<comment> \<open>the task that claims stale entries\<close>
  | FwClose nat \<comment> \<open>the task that closes idle connections\<close>
  | FwArrive nat forward_queue_entry nat \<comment> \<open>an entry is queued: clock, entry, limit of the queue\<close>

definition arrive_all :: "(nat \<times> forward_queue_entry \<times> nat) list \<Rightarrow> memory_state \<Rightarrow> memory_state" where
  "arrive_all arrivals s = fold (\<lambda>(now, e, mx) s. snd (forward_queue_enqueue now e mx s)) arrivals s"

definition handed_out :: "'n forwarding_env \<Rightarrow> forward_event \<Rightarrow> 'n forwarding \<Rightarrow> forward_queue_entry list" where
  \<comment> \<open>what the event passes to \<open>process_endpoint_batch\<close>\<close>
  "handed_out env ev w = (case ev of
     FwRound consumer _ _ arrivals t1 t2 \<Rightarrow>
       fst (forward_queue_read (fc_consumer_group (fv_config env)) consumer (fc_batch_size (fv_config env)) 5 (arrive_all arrivals) t1 t2 (fw_store w))
   | _ \<Rightarrow> [])"

definition forward_event :: "'n forwarding_env \<Rightarrow> forward_event \<Rightarrow> 'n forwarding \<Rightarrow> 'n forwarding" where
  "forward_event env ev w = (case ev of
     FwRound consumer clocks arrange arrivals t1 t2 \<Rightarrow> forward_iteration env consumer clocks arrange (arrive_all arrivals) t1 t2 w
   | FwClaim consumer now \<Rightarrow> autoclaim_tick env consumer now w
   | FwClose now \<Rightarrow> idle_tick env now w
   | FwArrive now e mx \<Rightarrow> w\<lparr>fw_store := snd (forward_queue_enqueue now e mx (fw_store w))\<rparr>)"

fun forward_run :: "'n forwarding_env \<Rightarrow> forward_event list \<Rightarrow> 'n forwarding \<Rightarrow> forward_queue_entry list" where
  \<comment> \<open>all entries handed out, in order\<close>
  "forward_run env [] w = []"
| "forward_run env (ev # evs) w = handed_out env ev w @ forward_run env evs (forward_event env ev w)"

definition labels_ok :: "memory_state \<Rightarrow> bool" where
  "labels_ok s \<longleftrightarrow> (\<forall>(i, e) \<in> set (forward_queue s). fe_stream_id e = format_stream_id i)"

abbreviation mark :: "string \<Rightarrow> memory_state \<Rightarrow> stream_id" where
  "mark g s \<equiv> cg_last_delivered (group_of s g)"

definition advances :: "string \<Rightarrow> memory_state \<Rightarrow> memory_state \<Rightarrow> bool" where
  "advances g s s' \<longleftrightarrow> (labels_ok s \<longrightarrow> labels_ok s') \<and> mark g s \<le> mark g s'"

lemma advances_refl [simp]: "advances g s s"
  by (simp add: advances_def)

lemma advances_trans [trans]: "advances g s s' \<Longrightarrow> advances g s' s'' \<Longrightarrow> advances g s s''"
  by (auto simp: advances_def)

lemma advances_fold: "(\<And>x s. advances g s (f x s)) \<Longrightarrow> advances g s (fold f xs s)"
  by (induction xs arbitrary: s) (auto intro: advances_trans)

lemma claim_advances:
  "cg_last_delivered st \<le> cg_last_delivered (claim_candidates n t cs st) \<and>
   (\<forall>c \<in> set cs. fst c \<le> cg_last_delivered (claim_candidates n t cs st))"
proof (induction cs arbitrary: st)
  case (Cons c cs)
  obtain i e where c: "c = (i, e)" by fastforce
  let ?st = "(if i > cg_last_delivered st then \<lambda>g. g\<lparr>cg_last_delivered := i\<rparr> else id)
    (st\<lparr>cg_pending := bt_insert i \<lparr>pc_consumer = n, pc_claimed_at = t, pc_delivery_count = 1\<rparr> (cg_pending st)\<rparr>)"
  have "claim_candidates n t (c # cs) st = claim_candidates n t cs ?st" by (simp add: c Let_def)
  moreover have "cg_last_delivered st \<le> cg_last_delivered ?st" "i \<le> cg_last_delivered ?st" by auto
  ultimately show ?case using Cons.IH [of ?st] c by (auto intro: order_trans)
qed simp

lemma read_advances: "advances g s (snd (try_read h n k t s))"
  using claim_advances by (auto simp: advances_def labels_ok_def try_read_def Let_def)

lemma enqueue_advances: "advances g s (snd (forward_queue_enqueue now e mx s))"
proof -
  have "set (trim_oldest mx q) \<subseteq> set q" for q :: "(stream_id, forward_queue_entry) btree"
    by (simp add: trim_oldest_drop set_drop_subset)
  moreover have "\<forall>(i, e) \<in> set (bt_insert j (e\<lparr>fe_stream_id := format_stream_id j\<rparr>) (forward_queue s)). fe_stream_id e = format_stream_id i"
    if "labels_ok s" for j
    using that set_bt_insert [of j "e\<lparr>fe_stream_id := format_stream_id j\<rparr>" "forward_queue s"] by (fastforce simp: labels_ok_def)
  ultimately show ?thesis
    by (fastforce simp: advances_def labels_ok_def forward_queue_enqueue_def alloc_stream_id_def Let_def)
qed

lemma ack_advances: "advances g s (ack_and_delete cfg ms s)"
  by (cases "forward_groups s (fc_consumer_group cfg)")
    (auto simp: advances_def labels_ok_def ack_and_delete_def Let_def forward_queue_delete_def forward_queue_ack_def fold_remove_filter)

lemma report_advances: "advances g s (send_forwarding_failure_report digest json_text clock m ep s)"
  by (simp add: advances_def labels_ok_def send_forwarding_failure_report_def split_beta)

lemma handle_failed_advances: "advances g s (handle_failed digest json_text cfg clock ep m s)"
  unfolding handle_failed_def Let_def
  using ack_advances advances_trans [OF ack_advances report_advances] advances_trans [OF ack_advances enqueue_advances] by simp

lemma batch_advances: "advances g (fw_store w) (fw_store (snd (process_endpoint_batch env clock ep msgs w)))"
proof -
  obtain good bad where out: "delivery_outcome env clock ep
      (filter (\<lambda>m. bc_now_secs clock < fe_expires_at m \<and> deliver_at_ms m \<le> bc_now_ms clock) msgs) w = (good, bad)" by fastforce
  let ?ack = "\<lambda>ms s. if ms = [] then s else ack_and_delete (fv_config env) ms s"
  have a: "advances g s (?ack ms s)" for ms s using ack_advances by simp
  show ?thesis
    unfolding batch_result(1) [OF out]
    by (rule advances_trans [OF a advances_trans [OF a advances_fold [OF handle_failed_advances]]])
qed

lemma reclaim_advances: "advances g s (snd (reclaim h n now ids s))"
proof (induction ids arbitrary: s)
  case (Cons i ids)
  let ?s1 = "case forward_groups s h of None \<Rightarrow> s
    | Some st \<Rightarrow> (case bt_get (cg_pending st) i of None \<Rightarrow> s
        | Some claim \<Rightarrow> s\<lparr>forward_groups := (forward_groups s)(h \<mapsto> st\<lparr>cg_pending := bt_insert i
            \<lparr>pc_consumer = n, pc_claimed_at = now, pc_delivery_count = as_u32 (pc_delivery_count claim + 1)\<rparr> (cg_pending st)\<rparr>)\<rparr>)"
  have r: "snd (reclaim h n now (i # ids) s) = snd (reclaim h n now ids ?s1)" by (simp add: Let_def split_beta split: option.split)
  have "advances g s ?s1" by (auto simp: advances_def labels_ok_def split: option.split)
  then show ?case unfolding r by (rule advances_trans [OF _ Cons.IH])
qed simp

lemma arrive_advances: "advances g s (arrive_all arrivals s)"
  unfolding arrive_all_def by (rule advances_fold) (simp add: split_beta enqueue_advances)

lemma groups_advance: "advances g (fw_store w) (fw_store (process_groups env clocks groups w))"
  unfolding process_groups_def
  by (induction groups arbitrary: w) (auto intro: advances_trans [OF batch_advances])

lemma read_all_advances: "advances g s (snd (forward_queue_read h n k bl (arrive_all arrivals) t1 t2 s))"
  unfolding forward_queue_read_def Let_def split_beta
  using read_advances advances_trans [OF read_advances advances_trans [OF arrive_advances read_advances]] by simp

lemma round_advances:
  "advances g (snd (forward_queue_read (fc_consumer_group (fv_config env)) n (fc_batch_size (fv_config env)) 5 wake t1 t2 (fw_store w)))
     (fw_store (forward_iteration env n clocks arr wake t1 t2 w))"
proof -
  let ?r = "forward_queue_read (fc_consumer_group (fv_config env)) n (fc_batch_size (fv_config env)) 5 wake t1 t2 (fw_store w)"
  have "advances g (fw_store (w\<lparr>fw_store := snd ?r\<rparr>)) (fw_store (process_groups env clocks groups (w\<lparr>fw_store := snd ?r\<rparr>)))" for groups
    by (rule groups_advance)
  then show ?thesis by (simp add: forward_iteration_def Let_def split_beta)
qed

lemma event_advances: "advances g (fw_store w) (fw_store (forward_event env ev w))"
proof (cases ev)
  case (FwRound n clocks arr arrivals t1 t2)
  then show ?thesis using advances_trans [OF read_all_advances round_advances] by (simp add: forward_event_def)
next
  case (FwClaim n now)
  then show ?thesis using reclaim_advances by (simp add: forward_event_def autoclaim_tick_def forward_queue_autoclaim_def)
next
  case (FwClose now)
  then show ?thesis by (simp add: forward_event_def idle_tick_def)
next
  case (FwArrive now e mx)
  then show ?thesis using enqueue_advances by (simp add: forward_event_def)
qed

lemma try_read_marks:
  assumes "labels_ok s" "x \<in> set (fst (try_read g n k t s))"
  shows "\<exists>i. fe_stream_id x = format_stream_id i \<and> mark g s < i \<and> i \<le> mark g (snd (try_read g n k t s))"
proof -
  let ?cs = "take k (bt_after (mark g s) (forward_queue s))"
  obtain i where i: "(i, x) \<in> set ?cs" using assms(2) by (auto simp: try_read_def Let_def)
  then have "(i, x) \<in> set (bt_after (mark g s) (forward_queue s))" by (rule in_set_takeD)
  then have "(i, x) \<in> set (forward_queue s)" "mark g s < i" by (auto simp: bt_after_def)
  moreover from this have "fe_stream_id x = format_stream_id i" using assms(1) by (auto simp: labels_ok_def)
  moreover have "i \<le> mark g (snd (try_read g n k t s))"
    using claim_advances [of "group_of s g" n t ?cs] i by (force simp: try_read_def Let_def)
  ultimately show ?thesis by blast
qed

lemma read_marks:
  assumes "labels_ok s" "x \<in> set (fst (forward_queue_read g n k bl (arrive_all arrivals) t1 t2 s))"
  shows "\<exists>i. fe_stream_id x = format_stream_id i \<and> mark g s < i \<and> i \<le> mark g (snd (forward_queue_read g n k bl (arrive_all arrivals) t1 t2 s))"
proof -
  obtain xs s1 where r: "try_read g n k t1 s = (xs, s1)" by fastforce
  show ?thesis
  proof (cases "xs \<noteq> [] \<or> bl = 0")
    case True
    then show ?thesis using assms try_read_marks [OF assms(1), of x g n k t1] r by (simp add: forward_queue_read_def Let_def)
  next
    case False
    let ?s2 = "arrive_all arrivals s1"
    have "advances g s ?s2" using advances_trans [OF read_advances [of g s g n k t1] arrive_advances] r by simp
    then have s2: "labels_ok ?s2" "mark g s \<le> mark g ?s2" using assms(1) by (auto simp: advances_def)
    have f: "forward_queue_read g n k bl (arrive_all arrivals) t1 t2 s = try_read g n k t2 ?s2"
      using False r by (simp add: forward_queue_read_def Let_def)
    show ?thesis using try_read_marks [OF s2(1), of x g n k t2] assms(2) s2(2) unfolding f by (auto intro: order.strict_trans1)
  qed
qed

lemma handed_out_marks:
  assumes "labels_ok (fw_store w)" "x \<in> set (handed_out env ev w)"
  defines "g \<equiv> fc_consumer_group (fv_config env)"
  shows "\<exists>i. fe_stream_id x = format_stream_id i \<and> mark g (fw_store w) < i \<and> i \<le> mark g (fw_store (forward_event env ev w))"
proof -
  obtain n clocks arr arrivals t1 t2 where ev: "ev = FwRound n clocks arr arrivals t1 t2"
    using assms(2) by (cases ev) (simp_all add: handed_out_def)
  let ?r = "forward_queue_read g n (fc_batch_size (fv_config env)) 5 (arrive_all arrivals) t1 t2 (fw_store w)"
  have "x \<in> set (fst ?r)" using assms(2) by (simp add: handed_out_def ev g_def)
  note r = read_marks [OF assms(1) this]
  have "mark g (snd ?r) \<le> mark g (fw_store (forward_event env ev w))"
    using round_advances [of g env n "arrive_all arrivals" t1 t2 w clocks arr] by (simp add: advances_def forward_event_def ev g_def)
  with r show ?thesis by (auto intro: order_trans)
qed

lemma run_marks:
  assumes "labels_ok (fw_store w)" "x \<in> set (forward_run env evs w)"
  shows "\<exists>i. fe_stream_id x = format_stream_id i \<and> mark (fc_consumer_group (fv_config env)) (fw_store w) < i"
  using assms
proof (induction evs arbitrary: w)
  case (Cons ev evs)
  let ?g = "fc_consumer_group (fv_config env)" and ?w = "forward_event env ev w"
  have adv: "labels_ok (fw_store ?w)" "mark ?g (fw_store w) \<le> mark ?g (fw_store ?w)"
    using event_advances [of ?g w env ev] Cons.prems(1) by (auto simp: advances_def)
  show ?case
  proof (cases "x \<in> set (handed_out env ev w)")
    case True
    then show ?thesis using handed_out_marks [OF Cons.prems(1)] by blast
  next
    case False
    then have "x \<in> set (forward_run env evs ?w)" using Cons.prems(2) by simp
    then show ?thesis using Cons.IH [OF adv(1)] adv(2) by (auto intro: order.strict_trans1)
  qed
qed simp

definition not_due :: "batch_clock \<Rightarrow> forward_queue_entry \<Rightarrow> bool" where
  \<comment> \<open>neither expired nor ready: the \<open>delayed\<close> entries of a batch\<close>
  "not_due clock m \<longleftrightarrow> bc_now_secs clock < fe_expires_at m \<and> bc_now_ms clock < deliver_at_ms m"

lemma batch_ignores_delayed:
  "process_endpoint_batch env clock ep (filter (\<lambda>m. \<not> not_due clock m) msgs) w = process_endpoint_batch env clock ep msgs w"
proof -
  have "filter (\<lambda>m. \<not> bc_now_secs clock < fe_expires_at m) (filter (\<lambda>m. \<not> not_due clock m) msgs) =
      filter (\<lambda>m. \<not> bc_now_secs clock < fe_expires_at m) msgs"
    "filter (\<lambda>m. deliver_at_ms m \<le> bc_now_ms clock) (filter (\<lambda>m. bc_now_secs clock < fe_expires_at m) (filter (\<lambda>m. \<not> not_due clock m) msgs)) =
      filter (\<lambda>m. deliver_at_ms m \<le> bc_now_ms clock) (filter (\<lambda>m. bc_now_secs clock < fe_expires_at m) msgs)"
    by (induction msgs) (auto simp: not_due_def)
  then show ?thesis by (simp only: process_endpoint_batch_def Let_def)
qed

lemma groups_ignore_delayed:
  "process_groups env clocks (map (\<lambda>(ep, ms). (ep, filter (\<lambda>m. \<not> not_due (clocks ep) m) ms)) groups) w = process_groups env clocks groups w"
  unfolding process_groups_def by (induction groups arbitrary: w) (auto simp: batch_ignores_delayed)

text \<open>C21. A delayed forward that is read before its time is never sent. A round of the main loop treats its batches as if the entries
  that are not yet due were not in them: the whole outcome, the network included, is that of the batches without
  them. And once a round has handed out an entry, no later event hands out an entry with its label: no round,
  whatever the consumer, and in particular not the task that claims stale entries, which drops what it claims. A
  comment in the code says instead that such entries are claimed or read again.\<close>
theorem delayed_forward_never_sent:
  assumes "labels_ok (fw_store w)" "ev = FwRound consumer clocks arrange arrivals t1 t2" "e \<in> set (handed_out env ev w)"
  shows "(\<exists>s1. forward_event env ev w = process_groups env clocks (map (\<lambda>(ep, ms). (ep, filter (\<lambda>m. \<not> not_due (clocks ep) m) ms))
      (arrange (group_by_endpoint (handed_out env ev w)))) (w\<lparr>fw_store := s1\<rparr>)) \<and>
    fe_stream_id e \<notin> fe_stream_id ` set (forward_run env evs (forward_event env ev w))"
proof
  have "handed_out env ev w \<noteq> []" using assms(3) by auto
  then show "\<exists>s1. forward_event env ev w = process_groups env clocks (map (\<lambda>(ep, ms). (ep, filter (\<lambda>m. \<not> not_due (clocks ep) m) ms))
      (arrange (group_by_endpoint (handed_out env ev w)))) (w\<lparr>fw_store := s1\<rparr>)"
    unfolding groups_ignore_delayed by (auto simp: assms(2) handed_out_def forward_event_def forward_iteration_def Let_def split_beta)
  have l: "labels_ok (fw_store (forward_event env ev w))" using event_advances [of _ w env ev] assms(1) by (auto simp: advances_def)
  show "fe_stream_id e \<notin> fe_stream_id ` set (forward_run env evs (forward_event env ev w))"
  proof
    assume "fe_stream_id e \<in> fe_stream_id ` set (forward_run env evs (forward_event env ev w))"
    then obtain x where "x \<in> set (forward_run env evs (forward_event env ev w))" "fe_stream_id e = fe_stream_id x" by (rule imageE)
    then show False using run_marks [OF l] handed_out_marks [OF assms(1,3)] by (metis format_stream_id_eq leD)
  qed
qed

definition sample_round :: "nat \<Rightarrow> forward_event" where
  "sample_round now = FwRound ''p1'' (\<lambda>_. sample_clock\<lparr>bc_now_ms := now\<rparr>) id [] 0 0"

theorem delayed_forward_never_sent_witness:
  "not_due (sample_clock\<lparr>bc_now_ms := 7\<rparr>) (sample_forward ''on'' 2 1000) \<and>
   fe_stream_id (sample_forward ''on'' 2 1000) \<notin> fe_stream_id ` set (forward_run sample_forward_env
     [FwClaim ''p1'' 90, FwArrive 9 (sample_entry ''z'') 0, sample_round 9000]
     (forward_event sample_forward_env (sample_round 7) sample_forwarding))"
proof -
  have l: "labels_ok (fw_store sample_forwarding)"
    by (simp add: labels_ok_def sample_forwarding_def sample_forward_store_def sample_forward_def)
  have h: "sample_forward ''on'' 2 1000 \<in> set (handed_out sample_forward_env (sample_round 7) sample_forwarding)"
    by (simp add: handed_out_def sample_round_def sample_forward_env_def sample_forwarding_def sample_forward_store_def
        forward_queue_read_def try_read_def Let_def empty_state_def or_default_def default_group_def bt_after_def stream_id_order)
  have "not_due (sample_clock\<lparr>bc_now_ms := 7\<rparr>) (sample_forward ''on'' 2 1000)"
    by (simp add: not_due_def sample_clock_def sample_forward_def deliver_at_ms_def)
  then show ?thesis using delayed_forward_never_sent [OF l sample_round_def h] by blast
qed

end
