(* ===== verification/Spec2Isabelle.thy ===== *)
theory Spec2Isabelle
  imports AclRules MemForward QueueRuns AccountsHandler CircuitBreaker AuthProperties InboundProperties
    TspInbound RateLimit CesrProperties StatusList SdJwtProperties Dcql OidProperties ForwardProperties
begin

text \<open>
  Verification of the Affinidi trust development kit (repository \<open>affinidi-tdk-rs\<close>): the messaging mediator
  (access control, accounts, storage, authentication, the path of a message), the Trust Spanning Protocol, and
  the encodings and credential formats beside them (CESR, status lists, SD-JWT, the queries and tokens of the
  OpenID protocols).

  \<^bold>\<open>The program.\<close> The mediator is a DIDComm server. Clients authenticate with a DID and get a
  session (a bearer token names it); what they send is either for the mediator itself (one of its
  protocols: routing, message pickup, ping, discovery, administration) or an envelope for another DID, over
  DIDComm or TSP; messages for a DID wait in its inbox in the mediator's store until they are fetched,
  deleted or expire; messages for other mediators wait in a forwarding queue that is read by
  consumer groups of the forwarding processor; and three administrative protocols (ACL management, account management,
  administration) read and change accounts, their access-control lists and roles, and the audit
  log. What an account may do is a packed set of access-control bits. All state is behind the trait
  \<open>MediatorStore\<close>, which has three backends; the one modelled is the in-memory store. The crate
  \<open>affinidi-tsp\<close> seals, signs, routes and opens TSP messages and keeps the relationship between two parties;
  the mediator relays with it. TSP frames are written with the CESR codes of \<open>affinidi-cesr\<close>. Independent of the
  mediator, \<open>affinidi-status-list\<close> keeps revocation lists of credentials and \<open>affinidi-sd-jwt\<close> issues, presents
  and verifies credentials whose claims are disclosed selectively; the OpenID crates ask for credentials
  (\<open>affinidi-openid4vp\<close>), issue them against a proof of key possession (\<open>affinidi-openid4vci\<close>) and make ID tokens
  (\<open>affinidi-siopv2\<close>) over the tokens and nonces of \<open>affinidi-oid4vc-core\<close>.

  \<^bold>\<open>Sources and theories.\<close> \<open>MC\<close> stands for
  \<open>src/crates/messaging/affinidi-messaging-mediator/affinidi-messaging-mediator-common/src\<close> and
  \<open>ME\<close> for \<open>src/crates/messaging/affinidi-messaging-mediator/src\<close>.

  \<^item> \<open>Prelude\<close>: the language and its standard library as the sources use them (results, fixed-width
    integers, number formats, strings), and the interface \<open>paged_listing\<close> of every cursor-based
    listing, with the lemma that a client that follows the cursors sees everything once.
  \<^item> \<open>OrdMap\<close>: \<open>BTreeMap\<close> as a sorted association list; interface \<open>ordered_map\<close>.
  \<^item> \<open>Acls\<close>, \<open>AclRules\<close>: \<open>MC/types/acls.rs\<close>. The ACL set with its cached fields and its packed
    \<open>64 word\<close>, every getter and setter, the two encodings and the rule-string parser. Interface
    \<open>permission_pair\<close>, interpreted for the seven capabilities with a self-change bit.
  \<^item> \<open>StoreTypes\<close>: the data of \<open>MC/types\<close>, \<open>MC/errors.rs\<close>, \<open>MC/store/types.rs\<close> and the pure decisions of
    \<open>MC/store/ops.rs\<close>.
  \<^item> \<open>MemState\<close>, \<open>MemMessages\<close>, \<open>MemAccounts\<close>, \<open>MemAdmin\<close>, \<open>MemForward\<close>, \<open>MemSessions\<close>:
    \<open>ME/store/memory_store.rs\<close>, its state as the record \<open>memory_state\<close> and one definition per
    operation of the trait, in the order of the file; the default methods of the trait
    (\<open>MC/store/mod.rs\<close>) with the operations they use. Interfaces: \<open>access_registry\<close> (what an access
    list promises), \<open>fifo\<close> (a queue read by a consumer group), \<open>session_store\<close>.
  \<^item> \<open>MemInvariants\<close>: every state-changing operation as a rule of \<open>store_step\<close>, every critical section as a rule
    of \<open>store_section\<close>, and the store's invariant at both grains. \<open>QueueRuns\<close>: runs of the forwarding queue.
  \<^item> \<open>Authz\<close>: \<open>ME/common/authz.rs\<close>, the pure authorisation decisions.
  \<^item> \<open>HandlerBase\<close>, \<open>AclsHandler\<close>, \<open>AccountsHandler\<close>: the three protocols of
    \<open>ME/messages/protocols/mediator\<close>, one definition per request variant and \<open>process\<close>. The handlers
    take the store as a record of operations (\<open>'s mediator_store\<close>), so what is proved of them for any
    \<open>ops\<close> holds for every backend; \<open>memory_store\<close> is the instance.
  \<^item> \<open>CircuitBreaker\<close>: \<open>MC/circuit_breaker.rs\<close>, as functions and as interleaved atomic actions.
  \<^item> \<open>MessageOps\<close>: the data of a decoded message, the table of message types
    (\<open>affinidi-messaging-sdk/src/messages/known.rs\<close>) and the store operations of the message path as a
    second record (\<open>'s message_store\<close>), with \<open>memory_world\<close>, the in-memory store and what it has
    published to live streams, as its instance.
  \<^item> \<open>Authentication\<close>, \<open>AuthProperties\<close>: \<open>ME/handlers/authenticate\<close> (challenge, DIDComm and TSP response,
    refresh) and \<open>ME/common/jwt_auth.rs\<close> (bearer tokens, the anonymous session).
  \<^item> \<open>MessageFlow\<close>: \<open>ME/messages/store.rs\<close>, \<open>ME/messages/error_response.rs\<close>, packing in
    \<open>ME/messages/mod.rs\<close>, trust ping and discover-features.
  \<^item> \<open>MessagePickup\<close>, \<open>PickupProperties\<close>: \<open>ME/messages/protocols/message_pickup.rs\<close>.
  \<^item> \<open>Routing\<close>, \<open>RoutingProperties\<close>: \<open>ME/messages/protocols/routing.rs\<close>, one definition per function, with
    the endpoint helpers of \<open>ME/server.rs\<close> and \<open>affinidi-did-common/src/service.rs\<close> it calls.
  \<^item> \<open>Inbound\<close>, \<open>InboundProperties\<close>: \<open>ME/messages/inbound.rs\<close> for DIDComm and the dispatch of every message
    type (\<open>ME/messages/mod.rs\<close>); \<open>TspInbound\<close>: its TSP half.
  \<^item> \<open>ForwardProcessor\<close>, \<open>ForwardProperties\<close>: \<open>MC/tasks/forwarding/processor.rs\<close>, the task that delivers the
    forwarding queue to other mediators.
  \<^item> \<open>RateLimit\<close>: \<open>ME/common/rate_limiter.rs\<close>, the client address behind proxies.
  \<^item> \<open>CesrTables\<close>, \<open>Cesr\<close>, \<open>CesrProperties\<close>: \<open>src/crates/core/affinidi-cesr/src\<close>: code tables, base-64 digits,
    cold start, and the primitives Matter, Counter and Indexer in the text and the binary domain.
  \<^item> \<open>TspWire\<close>, \<open>TspCrypto\<close>, \<open>TspMessage\<close>, \<open>TspAgent\<close>, \<open>TspProperties\<close>:
    \<open>src/crates/messaging/affinidi-tsp/src\<close>: count and data codes, HPKE in authenticated mode, packing and
    unpacking of direct, nested and routed messages, control messages, the relationship state machine, and the
    agent with its store.
  \<^item> \<open>StatusList\<close>: \<open>src/crates/credentials/affinidi-status-list/src\<close>, with the interface \<open>status_registry\<close> that the
    bit string and the revocation list both meet.
  \<^item> \<open>Json\<close>: \<open>serde_json::Value\<close> as a datatype with the accessors used; \<open>SdJwt\<close>, \<open>SdJwtProperties\<close>:
    \<open>src/crates/credentials/affinidi-sd-jwt/src\<close>. \<open>Base64Laws\<close>: the laws of base64url that tokens rely on.
  \<^item> \<open>Dcql\<close>: \<open>src/crates/protocols/affinidi-openid4vp/src/dcql.rs\<close>, credential queries.
  \<^item> \<open>OidTokens\<close>, \<open>OidProperties\<close>: \<open>jwt.rs\<close>, \<open>nonce.rs\<close> and the thumbprints of \<open>affinidi-oid4vc-core\<close>, \<open>proof.rs\<close>,
    \<open>issuer.rs\<close> and \<open>wallet.rs\<close> of \<open>affinidi-openid4vci\<close>, \<open>id_token.rs\<close> of \<open>affinidi-siopv2\<close>.
  \<^item> this theory: the dispatch of the three protocols (\<open>ME/messages/mod.rs\<close>) and what holds over any
    sequence of their messages.

  \<^bold>\<open>Correspondence.\<close> Most operations of the in-memory store take its lock once, so an operation is one function
  of \<open>memory_state\<close>; the operations that release the lock in between (\<open>fetch_messages\<close>, \<open>purge_folder\<close>,
  \<open>account_remove\<close>, \<open>setup_admin_account\<close>, the sweep, the default session methods) are functions without another task in
  between. \<open>store_section\<close> has their critical sections one by one, so that its runs are the interleavings of concurrent
  operations: what holds of every run holds under concurrency, and a theorem on whole operations does not
  cover tasks that overlap. Every reading of the clock is an argument; a handler that calls the store several times is given one
  reading for all its calls (\<open>memory_world\<close>). A \<open>HashMap\<close> that is only looked up is a map, one
  that is iterated is an association list, and a \<open>HashSet\<close> is a duplicate-free list in some order (the
  admin set is sorted before it is listed, an expiry slot is emptied as a whole). The digest is the function \<open>sha256::digest\<close> of a third-party crate, so it
  is an argument of every definition that uses it, and no property assumes anything of it.
  \<open>Result\<close> is a sum and every early return a branch, with its error code and text. Additions the
  sources write as saturating saturate; the others wrap, as they do without overflow checks. Decoding
  of requests (\<open>serde_json\<close>) is an argument: \<open>None\<close> is a body that does not parse. On the message path a
  body is a record with one field per decoder the handlers apply to it, and what only third-party code
  computes (signing and verifying tokens, opening and sealing envelopes, resolving DIDs, parsing URLs,
  base64) is a field of \<open>jwt_keys\<close>, \<open>wire\<close> or \<open>tsp_wire\<close>; the one law assumed of it is \<open>jwt_faithful\<close>: a
  token that was signed decodes to the claims that were signed. Cryptographic primitives of TSP are the record
  \<open>primitives\<close> with the laws \<open>primitives_ok\<close> (Diffie-Hellman commutes, sealing and opening are inverse, a signature
  made with a key verifies); base64 is \<open>b64_codec\<close> with the laws \<open>rfc4648\<close>; gzip is \<open>gzip_codec\<close>; JSON text, base64url
  and hash of SD-JWT are \<open>sd_codec\<close> and \<open>sd_hasher\<close>, those of the other tokens \<open>jws_codec\<close>. The network of the
  forwarding processor is a record of functions with a state of its own (\<open>network\<close>), its clocks are
  \<open>batch_clock\<close>, and the comparison of a rate in floating point is an argument. Random values (salts, nonces, ephemeral keys, indices) are
  arguments, as sequences of draws where there are several.

  \<^bold>\<open>What the properties show.\<close> ACLs: the cached fields agree with the bits after any setters, who may
  change what, both encodings round trip, the rule parser accepts exactly the documented names.
  Messages: a stored message is read by its recipient and sender and nobody else, deletion is
  authorised and undoes storing, fetching with optimistic deletion delivers once, the expiry sweep
  removes exactly what has expired. Accounts and access lists: the list decides delivery, is
  bounded, every listing is complete, removal erases everything and protects the mediator and the
  root administrator. Forwarding queue: first-in first-out per group, bounded, and what was read can be claimed again
  while it is neither acknowledged nor gone from the queue. Sessions: lifetimes, and the rename that fails closed. Protocols: only the owner or
  an administrator gets through, changes are audited, privileges do not grow over any sequence of
  messages by non-administrators. Circuit breaker: its contract, and one probe per opening under
  any interleaving. Authentication: tokens only for a signed and encrypted answer to a live challenge
  of an unblocked DID (over TSP for a signature of the challenge), the challenge is consumed, refresh
  tokens are used once, a bearer token is admitted exactly when its session lives, and a request without
  one gets at most the rights of a relay. Messages: what is accepted for forwarding passed every check
  and a local one is in the recipient's inbox; direct delivery and messages to the mediator are bound to
  the session; pickup serves and deletes the session's own messages only; relay layers are removed up
  to the hop limit and always end; a client cannot choose the address its rate limit is keyed by. TSP: what is
  packed is unpacked by its receiver and by nobody without the sender's signature, an invitation and its
  acceptance bring both sides to the bidirectional state and neither side gets there alone, a routed message
  passes every hop and reaches its end, the mediator relays only authenticated messages. CESR: every primitive
  round trips and both domains agree. Status lists: both registries answer with the last status set, also after
  publishing; decoys and allocation use free entries only and end exactly when enough are drawn. SD-JWT: the
  verifier of a presentation gets exactly the claims less what is withheld, accepts only signed and committed
  disclosures, and a key-binding token is good for one presentation, audience and nonce. Forwarding processor:
  every entry of a batch is delivered, dropped, queued again or reported, attempts are counted, the rate of an
  endpoint is the number of messages in its window. Credential queries: validation and matching are exact for
  what a query means. OpenID tokens: an accepted proof was signed for this issuer, nonce and time, and a
  nonce is good for one request. Some
  properties state behaviour that differs from what the code or its documentation means to do: the ACL
  bits an account can give itself, promoting a root administrator to administrator, the challenge text
  that is never compared, refreshing with another DID's token, the refresh token that opens a session, the
  ping without response that fails, the TSP sender that is not bound to the session, and the delayed forward
  that is never sent. Further lemmas
  with a text of their own state more of this kind (storing a body again for another recipient, adding
  an account that exists, unlimited queues, the delay that overflows, hop counts that are dropped, IPv6
  endpoints that are not recognised).

  \<^bold>\<open>Bounds and fuel.\<close> \<open>strip_front\<close> (the model of \<open>trim\<close>) takes as many rounds as the string has bytes,
  which is enough because every pattern is non-empty. \<open>follow_pages\<close>, the client of a listing, gets as
  many rounds as the listing has items, plus one; that this is enough is part of what is proved.
  Every other recursion is structural or has a termination proof. \<open>ids_available\<close> says that the stream
  counter, a \<open>u64\<close> of milliseconds and a \<open>u64\<close> sequence, has not reached its end.

  \<open>peel_layers\<close> removes one layer per round up to \<open>max_hops\<close>, which is its termination measure. \<open>resolve_value\<close> of
  SD-JWT recurses into disclosed values, so it takes fuel; that some fuel is enough for what an issuer made is part
  of what is proved. The forwarding processor's theorem on batches asks that the stream counter has room for two
  ids per message (\<open>queue_ok\<close>). \<open>add_decoys\<close> draws until it has enough free indices; the draws are its fuel.

  \<^bold>\<open>Not modelled.\<close> Blocking waits and the delivery of published messages to WebSockets; the Redis and
  Fjall backends, which are transactions of third-party databases; the cryptography of envelopes and tokens; the
  HTTP and WebSocket layers; the trust-task protocol, whose dispatch is a third-party framework; configuration
  loading; the remaining crates of the workspace: cryptographic wrappers, DID resolvers (network), proof suites,
  mdoc and JSON-LD, the request and metadata types of the OpenID crates, the client SDK, tools and examples.
\<close>

section \<open>The three administrative protocols together\<close>

datatype protocol_request =
    MediatorAdministration "admin_request option"
  | MediatorAccountManagement "account_request option"
  | MediatorACLManagement "acl_request option"

fun process ::
  "(string \<Rightarrow> string) \<Rightarrow> 's mediator_store \<Rightarrow> mediator_config \<Rightarrow> request_env \<Rightarrow> request_message \<Rightarrow> session \<Rightarrow>
   protocol_request \<Rightarrow> 's \<Rightarrow> (mediator_error + reply) \<times> 's" where
  "process digest ops cfg env msg session (MediatorAdministration r) s =
     admin_process digest ops env cfg msg session r s"
| "process digest ops cfg env msg session (MediatorAccountManagement r) s =
     accounts_process digest ops env cfg msg session r s"
| "process digest ops cfg env msg session (MediatorACLManagement r) s =
     acls_process ops env cfg msg session r s"

type_synonym arrival = "request_env \<times> request_message \<times> session \<times> protocol_request"

fun process_all :: "(string \<Rightarrow> string) \<Rightarrow> mediator_config \<Rightarrow> arrival list \<Rightarrow> memory_state \<Rightarrow> memory_state" where
  \<comment> \<open>messages one after the other on the in-memory store\<close>
  "process_all digest cfg [] s = s"
| "process_all digest cfg ((env, msg, session, r) # as) s =
     process_all digest cfg as (snd (process digest memory_store cfg env msg session r s))"

definition arrival_sender :: "arrival \<Rightarrow> string" where
  "arrival_sender a = ss_did_hash (fst (snd (snd a)))"

lemma process_reachable:
  "reachable h s \<Longrightarrow> reachable h (snd (process digest memory_store cfg env msg se r s))"
  by (cases r) (simp_all add: acls_reachable accounts_reachable admin_reachable)

lemma process_no_new_admins:
  "\<not> check_admin_account (ss_did_hash se) s \<Longrightarrow>
   no_new_admins s (snd (process digest memory_store cfg env msg se r s))"
  using protocols_no_new_admins by (cases r) simp_all

lemma no_new_admins_check:
  assumes "reachable h s" "no_new_admins s s'" "check_admin_account d s'"
  shows "check_admin_account d s"
proof -
  from assms(3) obtain r' where "accounts s' d = Some r'" "ar_role r' = Admin \<or> ar_role r' = RootAdmin"
    by (auto simp: check_admin_account_def split: if_splits option.splits account_type.splits)
  with assms(2) obtain r where "accounts s d = Some r" "ar_role r = Admin \<or> ar_role r = RootAdmin"
    by (force simp: no_new_admins_def is_admin_def)
  with reachable_inv [OF assms(1)] show ?thesis
    by (auto simp: check_admin_account_def store_inv_def store_inv_at_def account_inv_def admins_cover_def is_admin_def)
qed

lemma no_new_admins_trans: "no_new_admins s t \<Longrightarrow> no_new_admins t u \<Longrightarrow> no_new_admins s u"
  unfolding no_new_admins_def by metis

text \<open>C1. Privileges do not grow: starting from any reachable state of the store, whatever messages of the
  three protocols arrive, from whatever sessions, as long as none of the senders is an administrator
  of the store at the start, nobody is an administrator at the end who was not one, with the same
  role, before; and the store ends in a reachable state, so in one that satisfies the store's
  invariant.\<close>
theorem no_escalation_over_time:
  assumes "reachable h s" "\<forall>a \<in> set as. \<not> check_admin_account (arrival_sender a) s"
  shows "no_new_admins s (process_all digest cfg as s) \<and>
    reachable h (process_all digest cfg as s) \<and> store_inv h (process_all digest cfg as s)"
proof -
  have "no_new_admins s (process_all digest cfg as s) \<and> reachable h (process_all digest cfg as s)"
    using assms
  proof (induction as arbitrary: s)
    case (Cons a as)
    obtain env msg se r where a: "a = (env, msg, se, r)" by (cases a)
    let ?s = "snd (process digest memory_store cfg env msg se r s)"
    have n: "no_new_admins s ?s"
      using Cons.prems(2) a by (intro process_no_new_admins) (simp add: arrival_sender_def)
    have "\<forall>b \<in> set as. \<not> check_admin_account (arrival_sender b) ?s"
      using Cons.prems n no_new_admins_check by auto
    then have "no_new_admins ?s (process_all digest cfg as ?s) \<and> reachable h (process_all digest cfg as ?s)"
      using Cons.IH process_reachable [OF Cons.prems(1)] by blast
    with a n show ?case using no_new_admins_trans by auto
  qed simp
  then show ?thesis using reachable_inv by blast
qed

theorem no_escalation_over_time_witness:
  "\<exists>s. s = process_all (\<lambda>b. b) sample_config
      [(sample_env, sample_message, default_session\<lparr>ss_did_hash := ''eve''\<rparr>,
          MediatorAccountManagement (Some (AccountAdd ''eve'' (Some 131072)))),
       (sample_env, sample_message, default_session\<lparr>ss_did_hash := ''eve''\<rparr>,
          MediatorAdministration (Some (AdminAdd [''eve''])))]
      (setup_admin_account ''root'' RootAdmin default_acl_set empty_state) \<and>
     (\<exists>r. accounts s ''eve'' = Some r \<and> ar_role r = Standard) \<and>
     \<not> check_admin_account ''eve'' s \<and> store_inv (\<lambda>b. b) s"
proof -
  let ?as = "[(sample_env, sample_message, default_session\<lparr>ss_did_hash := ''eve''\<rparr>,
          MediatorAccountManagement (Some (AccountAdd ''eve'' (Some 131072)))),
       (sample_env, sample_message, default_session\<lparr>ss_did_hash := ''eve''\<rparr>,
          MediatorAdministration (Some (AdminAdd [''eve''])))]"
  let ?u = "setup_admin_account ''root'' RootAdmin default_acl_set empty_state"
  let ?s = "process_all (\<lambda>b. b) sample_config ?as ?u"
  have r: "reachable (\<lambda>b. b) ?u" using reachable_new step_setup_admin reachable_step by blast
  have e: "accounts ?u ''eve'' = None" by (simp add: setup_admin_effect empty_state_def)
  then have c: "\<forall>a \<in> set ?as. \<not> check_admin_account (arrival_sender a) ?u"
    by (simp add: check_admin_account_def arrival_sender_def)
  note t = no_escalation_over_time [OF r c, of "\<lambda>b. b" sample_config]
  then have "\<not> check_admin_account ''eve'' ?s"
    using no_new_admins_check [OF r] c by (auto simp: arrival_sender_def)
  moreover have "\<exists>r. accounts ?s ''eve'' = Some r \<and> ar_role r = Standard"
    using e by (auto simp: accounts_process_def account_add_request_def account_add_def Let_def sample_config_def
        is_admin_session_def default_session_def admin_process_def ttl_error_def check_admin_account_def
        setup_admin_effect default_account_record_def empty_state_def
        split: option.split admin_ttl_status.split)
  ultimately show ?thesis using t by blast
qed

end
